(* ===== verification/Nova_Prelude.thy ===== *)
theory Nova_Prelude
  imports Main "HOL-Library.Word" "HOL-Library.List_Lexorder"
begin

text \<open>
  Shared vocabulary of the development: the machine types of the Rust code, outcomes of
  fallible operations, little-endian byte encodings, checked slices, and ordered
  association lists as the model of \<open>BTreeMap\<close>. Arithmetic follows the release
  profile (wrap-around on words); sizes and offsets of in-memory data are \<open>nat\<close>.
\<close>

section \<open>Machine types\<close>

type_synonym u8 = "8 word"
type_synonym u16 = "16 word"
type_synonym u32 = "32 word"
type_synonym u64 = "64 word"
type_synonym i64 = "64 word"
type_synonym bytes = "8 word list"

named_theorems outcome_simps \<open>inversion rules for outcomes of fallible operations\<close>
named_theorems le_simps \<open>little-endian encoding and decoding\<close>

named_theorems slice_simps \<open>walking a slice index over an append\<close>

section \<open>Outcomes\<close>

text \<open>
  What a call can end in: a value, an \<open>Err\<close>, a panic, or a self-deadlock on a
  lock that is not reentrant.
\<close>

datatype ('e, 'a) outcome = Ok 'a | Err 'e | Panic | Deadlock

fun obind :: "('e, 'a) outcome \<Rightarrow> ('a \<Rightarrow> ('e, 'b) outcome) \<Rightarrow> ('e, 'b) outcome" where
  "obind (Ok x) f = f x"
| "obind (Err e) f = Err e"
| "obind Panic f = Panic"
| "obind Deadlock f = Deadlock"

lemma obind_Ok_iff [outcome_simps]:
  "obind m f = Ok y \<longleftrightarrow> (\<exists>x. m = Ok x \<and> f x = Ok y)"
  by (cases m) auto

lemma obind_assoc [simp]: "obind (obind m f) g = obind m (\<lambda>x. obind (f x) g)"
  by (cases m) auto

lemma obind_Ok_right [simp]: "obind m Ok = m"
  by (cases m) auto

lemma obind_cong [fundef_cong]:
  "m = m' \<Longrightarrow> (\<And>x. m' = Ok x \<Longrightarrow> f x = f' x) \<Longrightarrow> obind m f = obind m' f'"
  by (cases m') auto

text \<open>A call that comes back, with a value or an error.\<close>

definition returns :: "('e, 'a) outcome \<Rightarrow> bool" where
  "returns r \<longleftrightarrow> r \<noteq> Panic \<and> r \<noteq> Deadlock"

lemma returns_simps [simp]: "returns (Ok x)" "returns (Err e)" "\<not> returns Panic" "\<not> returns Deadlock"
  by (simp_all add: returns_def)

lemma returns_obind [intro]:
  "returns m \<Longrightarrow> (\<And>x. m = Ok x \<Longrightarrow> returns (f x)) \<Longrightarrow> returns (obind m f)"
  by (cases m) simp_all

lemma returns_cases: "returns r \<Longrightarrow> (\<exists>x. r = Ok x) \<or> (\<exists>e. r = Err e)"
  by (cases r) simp_all

definition ok_or_panic :: "'a option \<Rightarrow> ('e, 'a) outcome" where
  "ok_or_panic x = (case x of Some v \<Rightarrow> Ok v | None \<Rightarrow> Panic)"

lemma ok_or_panic_simps [simp]: "ok_or_panic (Some v) = Ok v" "ok_or_panic None = Panic"
  by (simp_all add: ok_or_panic_def)

lemma ok_or_panic_Ok_iff [outcome_simps]: "ok_or_panic x = Ok v \<longleftrightarrow> x = Some v"
  by (cases x) auto

section \<open>Slices\<close>

text \<open>\<open>data[off..off + n]\<close>: the model of a range index, \<open>None\<close> where Rust panics.\<close>

definition slice_at :: "'a list \<Rightarrow> nat \<Rightarrow> nat \<Rightarrow> 'a list option" where
  "slice_at xs off n = (if off + n \<le> length xs then Some (take n (drop off xs)) else None)"

text \<open>\<open>data[off..off + ys.len()].copy_from_slice(ys)\<close>.\<close>

definition write_slice :: "'a list \<Rightarrow> nat \<Rightarrow> 'a list \<Rightarrow> 'a list option" where
  "write_slice xs off ys =
     (if off + length ys \<le> length xs
      then Some (take off xs @ ys @ drop (off + length ys) xs) else None)"

lemma slice_at_end [simp]:
  "length xs = off \<Longrightarrow> length ys = n \<Longrightarrow> slice_at (xs @ ys @ zs) off n = Some ys"
  by (simp add: slice_at_def)

lemma slice_at_end2 [simp]:
  "length xs = off \<Longrightarrow> length ys = n \<Longrightarrow> slice_at (xs @ ys) off n = Some ys"
  by (simp add: slice_at_def)

lemma slice_at_Some_iff [outcome_simps]:
  "slice_at xs off n = Some ys \<longleftrightarrow> off + n \<le> length xs \<and> ys = take n (drop off xs)"
  by (auto simp: slice_at_def)

lemma write_slice_length:
  "write_slice xs off ys = Some zs \<Longrightarrow> length zs = length xs"
  by (auto simp: write_slice_def split: if_splits)

lemma slice_at_write_same:
  "write_slice xs off ys = Some zs \<Longrightarrow> slice_at zs off (length ys) = Some ys"
  by (auto simp: write_slice_def slice_at_def split: if_splits)

lemma slice_at_write_disjoint:
  assumes "write_slice xs off ys = Some zs" and "off' + n \<le> off \<or> off + length ys \<le> off'"
  shows "slice_at zs off' n = slice_at xs off' n"
proof (cases "off' + n \<le> length xs")
  case True
  have "take n (drop off' zs) = take n (drop off' xs)"
  proof (rule nth_equalityI)
    show "length (take n (drop off' zs)) = length (take n (drop off' xs))"
      using write_slice_length [OF assms(1)] by simp
    fix i assume "i < length (take n (drop off' zs))"
    then show "take n (drop off' zs) ! i = take n (drop off' xs) ! i"
      using assms True write_slice_length [OF assms(1)]
      by (auto simp: write_slice_def nth_append split: if_splits)
  qed
  with True show ?thesis
    using write_slice_length [OF assms(1)] by (simp add: slice_at_def)
next
  case False
  then show ?thesis
    using write_slice_length [OF assms(1)] by (simp add: slice_at_def)
qed

lemma slice_at_skip [slice_simps]:
  "length xs \<le> off \<Longrightarrow> slice_at (xs @ ys) off n = slice_at ys (off - length xs) n"
  by (auto simp: slice_at_def)

lemma slice_at_here [slice_simps]:
  "length xs = n \<Longrightarrow> slice_at (xs @ ys) 0 n = Some xs"
  "length xs = n \<Longrightarrow> slice_at xs 0 n = Some xs"
  by (simp_all add: slice_at_def)

section \<open>Little-endian integers\<close>

fun le_bytes :: "nat \<Rightarrow> nat \<Rightarrow> bytes" where
  "le_bytes 0 x = []"
| "le_bytes (Suc n) x = of_nat (x mod 256) # le_bytes n (x div 256)"

fun le_nat :: "bytes \<Rightarrow> nat" where
  "le_nat [] = 0"
| "le_nat (b # bs) = unat b + 256 * le_nat bs"

lemma length_le_bytes [simp, le_simps]: "length (le_bytes n x) = n"
  by (induction n arbitrary: x) auto

lemma unat_of_nat_byte [simp]: "unat (of_nat (x mod 256) :: 8 word) = x mod 256"
  by (simp add: unat_of_nat)

lemma le_nat_le_bytes [le_simps]: "le_nat (le_bytes n x) = x mod 256 ^ n"
  by (induction n arbitrary: x) (auto simp: mod_mult2_eq)

lemma le_nat_bound: "le_nat bs < 256 ^ length bs"
proof (induction bs)
  case Nil
  then show ?case by simp
next
  case (Cons b bs)
  have "unat b < 256" using unsigned_less [of b] by simp
  with Cons show ?case by simp
qed

lemma unat_mod_le [simp]:
  fixes w :: "'a::len word"
  shows "LENGTH('a) \<le> m \<Longrightarrow> unat w mod 2 ^ m = unat w"
proof -
  assume "LENGTH('a) \<le> m"
  then have "(2::nat) ^ LENGTH('a) \<le> 2 ^ m" by simp
  with unsigned_less [of w] have "unat w < 2 ^ m" by (rule less_le_trans)
  then show ?thesis by simp
qed

definition le_word :: "'a::len word \<Rightarrow> bytes" where
  "le_word w = le_bytes (LENGTH('a) div 8) (unat w)"

definition word_le :: "bytes \<Rightarrow> 'a::len word" where
  "word_le bs = of_nat (le_nat bs)"

lemma length_le_word16 [simp]: "length (le_word (w :: u16)) = 2"
  and length_le_word32 [simp]: "length (le_word (w' :: u32)) = 4"
  and length_le_word64 [simp]: "length (le_word (w'' :: u64)) = 8"
  by (simp_all add: le_word_def)

lemma word_le_le_word16 [simp, le_simps]: "word_le (le_word (w :: u16)) = w"
  using unat_mod_le [of 16 w] by (simp add: le_word_def word_le_def le_nat_le_bytes)

lemma word_le_le_word32 [simp, le_simps]: "word_le (le_word (w :: u32)) = w"
  using unat_mod_le [of 32 w] by (simp add: le_word_def word_le_def le_nat_le_bytes)

lemma word_le_le_word64 [simp, le_simps]: "word_le (le_word (w :: u64)) = w"
  using unat_mod_le [of 64 w] by (simp add: le_word_def word_le_def le_nat_le_bytes)

lemma unat_of_nat_u32 [simp]: "n < 2 ^ 32 \<Longrightarrow> unat (of_nat n :: u32) = n"
  by (simp add: unat_of_nat)

lemma unat_of_nat_u64 [simp]: "n < 2 ^ 64 \<Longrightarrow> unat (of_nat n :: u64) = n"
  by (simp add: unat_of_nat)

lemma unat_of_nat_u16 [simp]: "n < 2 ^ 16 \<Longrightarrow> unat (of_nat n :: u16) = n"
  by (simp add: unat_of_nat)


text \<open>Reading a fixed-width integer out of a buffer; out of range it panics.\<close>

definition get_u16 :: "bytes \<Rightarrow> nat \<Rightarrow> ('e, u16) outcome" where
  "get_u16 data off = obind (ok_or_panic (slice_at data off 2)) (\<lambda>b. Ok (word_le b))"

definition get_u32 :: "bytes \<Rightarrow> nat \<Rightarrow> ('e, u32) outcome" where
  "get_u32 data off = obind (ok_or_panic (slice_at data off 4)) (\<lambda>b. Ok (word_le b))"

definition get_u64 :: "bytes \<Rightarrow> nat \<Rightarrow> ('e, u64) outcome" where
  "get_u64 data off = obind (ok_or_panic (slice_at data off 8)) (\<lambda>b. Ok (word_le b))"

definition get_bytes :: "bytes \<Rightarrow> nat \<Rightarrow> nat \<Rightarrow> ('e, bytes) outcome" where
  "get_bytes data off n = ok_or_panic (slice_at data off n)"

fun get_u64s :: "bytes \<Rightarrow> nat \<Rightarrow> nat \<Rightarrow> ('e, u64 list) outcome" where
  "get_u64s data off 0 = Ok []"
| "get_u64s data off (Suc n) =
     obind (get_u64 data off) (\<lambda>w. obind (get_u64s data (off + 8) n) (\<lambda>ws. Ok (w # ws)))"

lemmas get_defs = get_u16_def get_u32_def get_u64_def get_bytes_def

lemma get_u64s_le_words:
  "length pre = off \<Longrightarrow>
   get_u64s (pre @ concat (map le_word ws) @ post) off (length ws) = (Ok ws :: ('e, u64 list) outcome)"
proof (induction ws arbitrary: pre off)
  case Nil
  then show ?case by simp
next
  case (Cons w ws)
  have "get_u64s ((pre @ le_word w) @ concat (map le_word ws) @ post) (off + 8) (length ws) =
      (Ok ws :: ('e, u64 list) outcome)"
    using Cons.prems by (intro Cons.IH) simp
  moreover have "get_u64 (pre @ le_word w @ concat (map le_word ws) @ post) off =
      (Ok w :: ('e, u64) outcome)"
    using Cons.prems by (simp add: get_u64_def)
  ultimately show ?case by simp
qed

section \<open>State passing\<close>

text \<open>
  An operation on a state \<open>'s\<close>: its outcome and the state it leaves. After an error the
  state keeps what was written before the failing step, as the code's shared state does.
\<close>

type_synonym ('s, 'e, 'a) stm = "'s \<Rightarrow> ('e, 'a) outcome \<times> 's"

definition sret :: "'a \<Rightarrow> ('s, 'e, 'a) stm" where
  "sret x = (\<lambda>s. (Ok x, s))"

definition slift :: "('e, 'a) outcome \<Rightarrow> ('s, 'e, 'a) stm" where
  "slift r = (\<lambda>s. (r, s))"

definition sbind :: "('s, 'e, 'a) stm \<Rightarrow> ('a \<Rightarrow> ('s, 'e, 'b) stm) \<Rightarrow> ('s, 'e, 'b) stm" where
  "sbind m f = (\<lambda>s. case m s of
       (Ok x, s') \<Rightarrow> f x s'
     | (Err e, s') \<Rightarrow> (Err e, s')
     | (Panic, s') \<Rightarrow> (Panic, s')
     | (Deadlock, s') \<Rightarrow> (Deadlock, s'))"

definition sget :: "('s \<Rightarrow> 'a) \<Rightarrow> ('s, 'e, 'a) stm" where
  "sget f = (\<lambda>s. (Ok (f s), s))"

definition smod :: "('s \<Rightarrow> 's) \<Rightarrow> ('s, 'e, unit) stm" where
  "smod f = (\<lambda>s. (Ok (), f s))"

lemma sbind_simps [simp]:
  "m s = (Ok x, s') \<Longrightarrow> sbind m f s = f x s'"
  "m s = (Err e, s') \<Longrightarrow> sbind m f s = (Err e, s')"
  "m s = (Panic, s') \<Longrightarrow> sbind m f s = (Panic, s')"
  "m s = (Deadlock, s') \<Longrightarrow> sbind m f s = (Deadlock, s')"
  by (simp_all add: sbind_def)

lemma stm_apply [simp]:
  "sret x s = (Ok x, s)" "slift r s = (r, s)" "sget g s = (Ok (g s), s)" "smod h s = (Ok (), h s)"
  by (simp_all add: sret_def slift_def sget_def smod_def)

lemma sbind_slift: "sbind (slift r) f s = (case r of Ok x \<Rightarrow> f x s | Err e \<Rightarrow> (Err e, s)
    | Panic \<Rightarrow> (Panic, s) | Deadlock \<Rightarrow> (Deadlock, s))"
  by (simp add: sbind_def split: outcome.split)

text \<open>A result that is looked at but not propagated: \<open>None\<close> for an error.\<close>

definition try_stm :: "('s, 'e, 'a) stm \<Rightarrow> ('s, 'f, 'a option) stm" where
  "try_stm m = (\<lambda>s. case m s of
       (Ok x, s') \<Rightarrow> (Ok (Some x), s')
     | (Err e, s') \<Rightarrow> (Ok None, s')
     | (Panic, s') \<Rightarrow> (Panic, s')
     | (Deadlock, s') \<Rightarrow> (Deadlock, s'))"

lemma try_stm_simps [simp]:
  "m s = (Ok x, s') \<Longrightarrow> try_stm m s = (Ok (Some x), s')"
  "m s = (Err e, s') \<Longrightarrow> try_stm m s = (Ok None, s')"
  by (simp_all add: try_stm_def)

text \<open>Checked subtraction (an index that wrapped around is out of range) and indexing.\<close>

definition sub_or_panic :: "nat \<Rightarrow> nat \<Rightarrow> ('e, nat) outcome" where
  "sub_or_panic a b = (if b \<le> a then Ok (a - b) else Panic)"

definition nth_or_panic :: "'a list \<Rightarrow> nat \<Rightarrow> ('e, 'a) outcome" where
  "nth_or_panic xs i = (if i < length xs then Ok (xs ! i) else Panic)"

definition set_bytes :: "bytes \<Rightarrow> nat \<Rightarrow> bytes \<Rightarrow> ('e, bytes) outcome" where
  "set_bytes data off bs = ok_or_panic (write_slice data off bs)"

section \<open>Word counters\<close>

lemma unat_add1:
  fixes a :: "'a::len word"
  assumes "unat a + 1 < 2 ^ LENGTH('a)"
  shows "unat (a + 1) = unat a + 1"
  using assms by (simp add: unat_word_ariths)

lemma unat_succ_less:
  fixes a b :: "'a::len word"
  assumes "a < b"
  shows "unat (a + 1) = unat a + 1"
proof (rule unat_add1)
  have "unat a < unat b" using assms by (simp add: word_less_nat_alt)
  then have "unat a + 1 \<le> unat b" by simp
  also have "unat b < 2 ^ LENGTH('a)" by (rule unsigned_less)
  finally show "unat a + 1 < 2 ^ LENGTH('a)" .
qed

section \<open>Strings as keys\<close>

definition string_bytes :: "string \<Rightarrow> bytes" where
  "string_bytes s = map (\<lambda>c. of_nat (of_char c)) s"

definition bytes_string :: "bytes \<Rightarrow> string" where
  "bytes_string bs = map (\<lambda>b. char_of (unat b)) bs"

lemma string_bytes_append [simp]: "string_bytes (s @ t) = string_bytes s @ string_bytes t"
  by (simp add: string_bytes_def)

lemma bytes_string_inverse [simp]: "bytes_string (string_bytes s) = s"
proof -
  have "char_of (unat (of_nat (of_char c) :: 8 word)) = (c :: char)" for c
  proof -
    have "of_char c < (256 :: nat)" by (simp add: of_char_def)
    then show ?thesis by (simp add: unat_of_nat)
  qed
  then show ?thesis by (simp add: bytes_string_def string_bytes_def comp_def)
qed

lemma string_bytes_eq [simp]: "string_bytes s = string_bytes t \<longleftrightarrow> s = t"
  by (metis bytes_string_inverse)

text \<open>The half-open range from a prefix to the prefix followed by \<open>0xFF\<close> holds what continues the
  prefix with no byte \<open>0xFF\<close> next.\<close>

lemma prefix_range:
  fixes p k :: bytes
  shows "p \<le> k \<and> k < p @ [0xFF] \<longleftrightarrow> (\<exists>s. k = p @ s \<and> (s = [] \<or> hd s < 0xFF))"
proof (induction p arbitrary: k)
  case Nil
  show ?case by (cases k) auto
next
  case (Cons b p)
  show ?case
  proof (cases k)
    case (Cons c k')
    then show ?thesis using Cons.IH [of k'] by auto
  qed simp
qed

text \<open>\<open>str::contains\<close>.\<close>

fun contains_str :: "string \<Rightarrow> string \<Rightarrow> bool" where
  "contains_str [] pat \<longleftrightarrow> pat = []"
| "contains_str (c # s) pat \<longleftrightarrow> take (length pat) (c # s) = pat \<or> contains_str s pat"

text \<open>The decimal text of a number.\<close>

fun nat_string :: "nat \<Rightarrow> string" where
  "nat_string n = (if n < 10 then [char_of (48 + n)] else nat_string (n div 10) @ [char_of (48 + n mod 10)])"

declare nat_string.simps [simp del]

end
