(* ===== verification/Core_Types.thy ===== *)
theory Core_Types
  imports Nova_Prelude
begin

unbundle bit_operations_syntax

text \<open>
  The primitive types of \<open>nova-core\<close>: identifiers, errors, compression tags, the
  4096-byte \<open>Page\<close> with its fixed-width accessors, and the write operations of the
  \<open>StorageEngine\<close> trait.
\<close>

section \<open>Constants, identifiers and errors\<close>

definition PAGE_SIZE :: nat where "PAGE_SIZE = 4096"

definition MAGIC :: u32 where "MAGIC = 0x4E4F5641"

type_synonym page_id = u64
type_synonym lsn = u64
type_synonym tx_id = u64
type_synonym key = bytes
type_synonym val = bytes

definition INVALID_PAGE :: page_id where "INVALID_PAGE = -1"

definition page_id_is_valid :: "page_id \<Rightarrow> bool" where
  "page_id_is_valid p \<longleftrightarrow> p \<noteq> INVALID_PAGE"

definition lsn_next :: "lsn \<Rightarrow> lsn" where "lsn_next l = l + 1"

text \<open>The process-wide counter \<open>NEXT_TX_ID\<close> is the state.\<close>

definition allocate_transaction_id :: "u64 \<Rightarrow> tx_id \<times> u64" where
  "allocate_transaction_id next = (next, next + 1)"

datatype runtime_error =
    NotFound string
  | AlreadyExists string
  | InvalidArgument string
  | PermissionDenied string
  | OutOfMemory string
  | Storage string
  | Io string
  | ChecksumMismatch u32 u32
  | CorruptData string
  | Busy string
  | Timeout string
  | TransactionConflict string
  | Protocol string
  | Serialization string
  | Deserialization string
  | Internal string
  | ShuttingDown
  | TransactionError string
  | DeadlockDetected string
  | Capacity string

type_synonym 'a result = "(runtime_error, 'a) outcome"

section \<open>Error messages\<close>

definition hex_digit :: "nat \<Rightarrow> char" where
  "hex_digit d = char_of (if d < 10 then 48 + d else 87 + d)"

fun hex_string :: "nat \<Rightarrow> string" where
  "hex_string n = (if n < 16 then [hex_digit n] else hex_string (n div 16) @ [hex_digit (n mod 16)])"

declare hex_string.simps [simp del]

fun runtime_error_display :: "runtime_error \<Rightarrow> string" where
  "runtime_error_display (NotFound m) = ''Not found: '' @ m"
| "runtime_error_display (AlreadyExists m) = ''Already exists: '' @ m"
| "runtime_error_display (InvalidArgument m) = ''Invalid argument: '' @ m"
| "runtime_error_display (PermissionDenied m) = ''Permission denied: '' @ m"
| "runtime_error_display (OutOfMemory m) = ''Out of memory: '' @ m"
| "runtime_error_display (Storage m) = ''Storage error: '' @ m"
| "runtime_error_display (Io m) = ''IO error: '' @ m"
| "runtime_error_display (ChecksumMismatch e a) = ''Checksum mismatch: expected 0x'' @ hex_string (unat e) @
     '', got 0x'' @ hex_string (unat a)"
| "runtime_error_display (CorruptData m) = ''Corrupt data: '' @ m"
| "runtime_error_display (Busy m) = ''Busy: '' @ m"
| "runtime_error_display (Timeout m) = ''Timeout: '' @ m"
| "runtime_error_display (TransactionConflict m) = ''Transaction conflict: '' @ m"
| "runtime_error_display (Protocol m) = ''Protocol error: '' @ m"
| "runtime_error_display (Serialization m) = ''Serialization error: '' @ m"
| "runtime_error_display (Deserialization m) = ''Deserialization error: '' @ m"
| "runtime_error_display (Internal m) = ''Internal: '' @ m"
| "runtime_error_display ShuttingDown = ''Shutting down''"
| "runtime_error_display (TransactionError m) = ''Transaction error: '' @ m"
| "runtime_error_display (DeadlockDetected m) = ''Deadlock detected: '' @ m"
| "runtime_error_display (Capacity m) = ''Capacity exceeded: '' @ m"

section \<open>Enumerations\<close>

datatype compression = CompNone | CompSnappy | CompZstd

fun compression_to_byte :: "compression \<Rightarrow> u8" where
  "compression_to_byte CompNone = 0"
| "compression_to_byte CompSnappy = 1"
| "compression_to_byte CompZstd = 2"

definition compression_from_byte :: "u8 \<Rightarrow> compression option" where
  "compression_from_byte b =
     (if b = 0 then Some CompNone else if b = 1 then Some CompSnappy
      else if b = 2 then Some CompZstd else None)"

datatype compression_codec = CodecNone | CodecSnappy | CodecZstd int

datatype fsync_policy = EveryWrite | EveryNMs u64 | FsyncAsync

datatype isolation_level = ReadCommitted | RepeatableRead | SnapshotIso | Serializable

datatype write_operation = WSet key val | WDelete key

lemma compression_roundtrip: "compression_from_byte (compression_to_byte c) = Some c"
  by (cases c) (simp_all add: compression_from_byte_def)

lemma compression_from_byte_inj:
  "compression_from_byte b = Some c \<Longrightarrow> compression_to_byte c = b"
  by (auto simp: compression_from_byte_def split: if_splits)

section \<open>Pages\<close>

record page =
  pg_id :: page_id
  pg_lsn :: lsn
  pg_data :: bytes
  pg_checksum :: u32
  pg_flags :: u16

definition page_new :: "page_id \<Rightarrow> page" where
  "page_new i = \<lparr>pg_id = i, pg_lsn = 0, pg_data = replicate PAGE_SIZE 0,
     pg_checksum = 0, pg_flags = 0\<rparr>"

definition page_zeroed :: page where
  "page_zeroed = \<lparr>pg_id = INVALID_PAGE, pg_lsn = 0, pg_data = replicate PAGE_SIZE 0,
     pg_checksum = 0, pg_flags = 0\<rparr>"

definition is_dirty :: "page \<Rightarrow> bool" where
  "is_dirty p \<longleftrightarrow> pg_flags p AND 1 \<noteq> 0"

definition mark_dirty :: "page \<Rightarrow> page" where
  "mark_dirty p = p\<lparr>pg_flags := pg_flags p OR 1\<rparr>"

definition clear_dirty :: "page \<Rightarrow> page" where
  "clear_dirty p = p\<lparr>pg_flags := pg_flags p AND NOT 1\<rparr>"

definition page_read_u16 :: "page \<Rightarrow> nat \<Rightarrow> u16 option" where
  "page_read_u16 p off = map_option word_le (slice_at (pg_data p) off 2)"

definition page_write_u16 :: "page \<Rightarrow> nat \<Rightarrow> u16 \<Rightarrow> page option" where
  "page_write_u16 p off v =
     map_option (\<lambda>d. p\<lparr>pg_data := d\<rparr>) (write_slice (pg_data p) off (le_word v))"

definition page_read_u32 :: "page \<Rightarrow> nat \<Rightarrow> u32 option" where
  "page_read_u32 p off = map_option word_le (slice_at (pg_data p) off 4)"

definition page_write_u32 :: "page \<Rightarrow> nat \<Rightarrow> u32 \<Rightarrow> page option" where
  "page_write_u32 p off v =
     map_option (\<lambda>d. p\<lparr>pg_data := d\<rparr>) (write_slice (pg_data p) off (le_word v))"

definition page_read_u64 :: "page \<Rightarrow> nat \<Rightarrow> u64 option" where
  "page_read_u64 p off = map_option word_le (slice_at (pg_data p) off 8)"

definition page_write_u64 :: "page \<Rightarrow> nat \<Rightarrow> u64 \<Rightarrow> page option" where
  "page_write_u64 p off v =
     map_option (\<lambda>d. p\<lparr>pg_data := d\<rparr>) (write_slice (pg_data p) off (le_word v))"

lemma is_dirty_mark [simp]: "is_dirty (mark_dirty p)"
proof -
  have "bit (pg_flags (mark_dirty p) AND 1) 0"
    by (simp add: mark_dirty_def bit_simps)
  then show ?thesis unfolding is_dirty_def by (metis bit_0_eq bot_apply bot_bool_def)
qed

lemma not_is_dirty_clear [simp]: "\<not> is_dirty (clear_dirty p)"
  by (simp add: is_dirty_def clear_dirty_def and.assoc)

lemma mark_dirty_frame [simp]:
  "pg_id (mark_dirty p) = pg_id p" "pg_data (mark_dirty p) = pg_data p"
  "pg_lsn (mark_dirty p) = pg_lsn p" "pg_checksum (mark_dirty p) = pg_checksum p"
  by (simp_all add: mark_dirty_def)

lemma clear_dirty_frame [simp]:
  "pg_id (clear_dirty p) = pg_id p" "pg_data (clear_dirty p) = pg_data p"
  "pg_lsn (clear_dirty p) = pg_lsn p" "pg_checksum (clear_dirty p) = pg_checksum p"
  by (simp_all add: clear_dirty_def)

text \<open>
  A fixed-width field of a page is a cell: what is written is read back, and a write to
  a disjoint range leaves it alone. The locale states this once for the three widths.
\<close>

locale page_cell =
  fixes rd :: "page \<Rightarrow> nat \<Rightarrow> 'w option"
    and wr :: "page \<Rightarrow> nat \<Rightarrow> 'w \<Rightarrow> page option"
    and width :: nat
    and enc :: "'w \<Rightarrow> bytes"
    and dec :: "bytes \<Rightarrow> 'w"
  assumes rd_slice: "rd p off = map_option dec (slice_at (pg_data p) off width)"
    and wr_slice: "wr p off v =
      map_option (\<lambda>d. p\<lparr>pg_data := d\<rparr>) (write_slice (pg_data p) off (enc v))"
    and enc_length: "length (enc v) = width"
    and dec_enc: "dec (enc v) = v"
begin

lemma read_written: "wr p off v = Some p' \<Longrightarrow> rd p' off = Some v"
  using slice_at_write_same [of "pg_data p" off "enc v"]
  by (auto simp: rd_slice wr_slice enc_length dec_enc)

lemma read_disjoint:
  "wr p off v = Some p' \<Longrightarrow> off' + n \<le> off \<or> off + width \<le> off' \<Longrightarrow>
   slice_at (pg_data p') off' n = slice_at (pg_data p) off' n"
  using slice_at_write_disjoint [of "pg_data p" off "enc v" _ off' n]
  by (auto simp: wr_slice enc_length)

lemma write_in_bounds: "(\<exists>p'. wr p off v = Some p') \<longleftrightarrow> off + width \<le> length (pg_data p)"
  by (auto simp: wr_slice write_slice_def enc_length)

end

interpretation cell16: page_cell page_read_u16 page_write_u16 2 le_word word_le
  by unfold_locales (simp_all add: page_read_u16_def page_write_u16_def)

interpretation cell32: page_cell page_read_u32 page_write_u32 4 le_word word_le
  by unfold_locales (simp_all add: page_read_u32_def page_write_u32_def)

interpretation cell64: page_cell page_read_u64 page_write_u64 8 le_word word_le
  by unfold_locales (simp_all add: page_read_u64_def page_write_u64_def)

end
