(* ===== verification/Lru.thy ===== *)
theory Lru
  imports Main
begin

text \<open>
  The LRU cache that the page cache and the object cache use (\<open>LruCache\<close> of the crate \<open>lru\<close>), by its
  documented behaviour: the list of its entries, most recently used first.
\<close>

type_synonym ('k, 'v) lru = "('k \<times> 'v) list"

definition lru_remove :: "'k \<Rightarrow> ('k, 'v) lru \<Rightarrow> ('k, 'v) lru" where
  "lru_remove i c = filter (\<lambda>(j, _). j \<noteq> i) c"

text \<open>\<open>LruCache::get\<close> promotes the entry.\<close>

definition lru_get :: "'k \<Rightarrow> ('k, 'v) lru \<Rightarrow> 'v option \<times> ('k, 'v) lru" where
  "lru_get i c =
     (case map_of c i of
        Some v \<Rightarrow> (Some v, (i, v) # lru_remove i c)
      | None \<Rightarrow> (None, c))"

text \<open>\<open>LruCache::put\<close> replaces and promotes, or evicts the least recently used entry.\<close>

definition lru_put :: "nat \<Rightarrow> 'k \<Rightarrow> 'v \<Rightarrow> ('k, 'v) lru \<Rightarrow> ('k, 'v) lru" where
  "lru_put cap i v c =
     (case map_of c i of
        Some _ \<Rightarrow> (i, v) # lru_remove i c
      | None \<Rightarrow> (i, v) # (if length c < cap then c else butlast c))"

definition lru_pop :: "'k \<Rightarrow> ('k, 'v) lru \<Rightarrow> 'v option \<times> ('k, 'v) lru" where
  "lru_pop i c = (map_of c i, lru_remove i c)"

definition lru_inv :: "nat \<Rightarrow> ('k, 'v) lru \<Rightarrow> bool" where
  "lru_inv cap c \<longleftrightarrow> distinct (map fst c) \<and> length c \<le> cap"

lemma map_of_lru_remove [simp]: "map_of (lru_remove i c) j = (if i = j then None else map_of c j)"
  by (induction c) (auto simp: lru_remove_def)

lemma lru_remove_keys: "fst ` set (lru_remove i c) = fst ` set c - {i}"
  by (auto simp: lru_remove_def image_iff)

lemma distinct_lru_remove [simp]: "distinct (map fst c) \<Longrightarrow> distinct (map fst (lru_remove i c))"
  by (simp add: lru_remove_def distinct_map_filter)

lemma length_lru_remove_le: "length (lru_remove i c) \<le> length c"
  by (simp add: lru_remove_def)

lemma length_lru_remove_less: "map_of c i = Some v \<Longrightarrow> length (lru_remove i c) < length c"
  by (auto simp: lru_remove_def dest: map_of_SomeD intro!: length_filter_less)

lemma lru_inv_get: "lru_inv cap c \<Longrightarrow> lru_inv cap (snd (lru_get i c))"
  using length_lru_remove_less [of c i] lru_remove_keys [of i c]
  by (fastforce simp: lru_inv_def lru_get_def split: option.split)

lemma lru_inv_remove: "lru_inv cap c \<Longrightarrow> lru_inv cap (lru_remove i c)"
  using length_lru_remove_le [of i c] by (simp add: lru_inv_def)

lemma lru_inv_put:
  assumes "0 < cap" and "lru_inv cap c"
  shows "lru_inv cap (lru_put cap i v c)"
proof (cases "map_of c i")
  case None
  then have "i \<notin> fst ` set c" by (simp add: map_of_eq_None_iff)
  moreover have "set (butlast c) \<subseteq> set c" by (auto dest: in_set_butlastD)
  ultimately show ?thesis
    using assms None
    by (auto simp: lru_inv_def lru_put_def map_butlast distinct_butlast)
next
  case (Some w)
  then show ?thesis
    using assms length_lru_remove_less [OF Some] lru_remove_keys [of i c]
    by (fastforce simp: lru_inv_def lru_put_def)
qed

lemma lru_get_lookup [simp]: "fst (lru_get i c) = map_of c i"
  by (simp add: lru_get_def split: option.split)

lemma map_of_lru_get [simp]: "map_of (snd (lru_get i c)) = map_of c"
  by (auto simp: lru_get_def fun_eq_iff split: option.split)

lemma map_of_lru_put_same [simp]: "map_of (lru_put cap i v c) i = Some v"
  by (simp add: lru_put_def split: option.split)

lemma set_lru_remove: "set (lru_remove i c) \<subseteq> set c"
  by (auto simp: lru_remove_def)

lemma set_lru_put: "set (lru_put cap i v c) \<subseteq> insert (i, v) (set c)"
  using set_lru_remove [of i c] by (auto simp: lru_put_def dest: in_set_butlastD split: option.splits)

lemma set_lru_get: "set (snd (lru_get i c)) \<subseteq> set c"
  using set_lru_remove [of i c] by (auto simp: lru_get_def dest: map_of_SomeD split: option.splits)

end
