(* ===== verification/Page_Cache.thy ===== *)
theory Page_Cache
  imports Core_Types Lru
begin

text \<open>
  \<open>nova-storage/src/page_cache.rs\<close>: dirty pages in a hash map, clean pages in an LRU
  cache. Draining the dirty map visits it in an order the language leaves open: \<open>order\<close> is any rearrangement.
\<close>

section \<open>The page cache\<close>

record page_cache =
  pc_clean :: "(page_id, page) lru"
  pc_dirty :: "(page_id \<times> page) list"
  pc_capacity :: nat
  pc_writeback :: "(page \<Rightarrow> unit result) option"

definition pc_new :: "nat \<Rightarrow> page_cache" where
  "pc_new capacity =
     (let cap = (if capacity = 0 then 1024 else capacity)
      in \<lparr>pc_clean = [], pc_dirty = [], pc_capacity = cap, pc_writeback = None\<rparr>)"

definition pc_set_writeback :: "(page \<Rightarrow> unit result) \<Rightarrow> page_cache \<Rightarrow> page_cache" where
  "pc_set_writeback cb pc = pc\<lparr>pc_writeback := Some cb\<rparr>"

definition pc_get :: "page_id \<Rightarrow> page_cache \<Rightarrow> page option \<times> page_cache" where
  "pc_get i pc =
     (case map_of (pc_dirty pc) i of
        Some p \<Rightarrow> (Some p, pc)
      | None \<Rightarrow>
          let (r, clean) = lru_get i (pc_clean pc)
          in (r, pc\<lparr>pc_clean := clean\<rparr>))"

definition pc_insert :: "page \<Rightarrow> page_cache \<Rightarrow> page_cache" where
  "pc_insert p pc =
     (if is_dirty p
      then pc\<lparr>pc_dirty := (pg_id p, p) # lru_remove (pg_id p) (pc_dirty pc)\<rparr>
      else pc\<lparr>pc_clean := lru_put (pc_capacity pc) (pg_id p) p (pc_clean pc)\<rparr>)"

definition pc_remove :: "page_id \<Rightarrow> page_cache \<Rightarrow> page option \<times> page_cache" where
  "pc_remove i pc =
     (case map_of (pc_dirty pc) i of
        Some p \<Rightarrow> (Some p, pc\<lparr>pc_dirty := lru_remove i (pc_dirty pc)\<rparr>)
      | None \<Rightarrow>
          let (r, clean) = lru_pop i (pc_clean pc)
          in (r, pc\<lparr>pc_clean := clean\<rparr>))"

fun write_back_all :: "(page \<Rightarrow> unit result) \<Rightarrow> page list \<Rightarrow> unit result" where
  "write_back_all wb [] = Ok ()"
| "write_back_all wb (p # ps) = obind (wb (clear_dirty p)) (\<lambda>_. write_back_all wb ps)"

definition pc_flush ::
  "(page list \<Rightarrow> page list) \<Rightarrow> page_cache \<Rightarrow> nat result \<times> page_cache" where
  "pc_flush order pc =
     (case pc_writeback pc of
        None \<Rightarrow> (Ok (length (pc_dirty pc)), pc)
      | Some wb \<Rightarrow>
          let dirty_pages = order (map snd (pc_dirty pc));
              count = length dirty_pages
          in (obind (write_back_all wb dirty_pages) (\<lambda>_. Ok count), pc\<lparr>pc_dirty := []\<rparr>))"

definition pc_size :: "page_cache \<Rightarrow> nat" where
  "pc_size pc = length (pc_clean pc) + length (pc_dirty pc)"

definition pc_dirty_count :: "page_cache \<Rightarrow> nat" where
  "pc_dirty_count pc = length (pc_dirty pc)"

definition pc_inv :: "page_cache \<Rightarrow> bool" where
  "pc_inv pc \<longleftrightarrow> 0 < pc_capacity pc \<and> lru_inv (pc_capacity pc) (pc_clean pc) \<and>
     distinct (map fst (pc_dirty pc)) \<and>
     (\<forall>(i, p) \<in> set (pc_dirty pc). pg_id p = i \<and> is_dirty p) \<and>
     (\<forall>(i, p) \<in> set (pc_clean pc). pg_id p = i \<and> \<not> is_dirty p)"

text \<open>What a lookup sees: a dirty copy hides a clean one.\<close>

definition pc_view :: "page_cache \<Rightarrow> page_id \<Rightarrow> page option" where
  "pc_view pc i = (case map_of (pc_dirty pc) i of Some p \<Rightarrow> Some p | None \<Rightarrow> map_of (pc_clean pc) i)"

lemma pc_inv_new [simp]: "pc_inv (pc_new n)"
  by (simp add: pc_inv_def pc_new_def lru_inv_def Let_def)

lemma pc_inv_get: "pc_inv pc \<Longrightarrow> pc_inv (snd (pc_get i pc))"
  using lru_inv_get [of "pc_capacity pc" "pc_clean pc" i] set_lru_get [of i "pc_clean pc"]
  by (auto simp: pc_inv_def pc_get_def split: option.splits prod.splits)

lemma pc_inv_insert: "pc_inv pc \<Longrightarrow> pc_inv (pc_insert p pc)"
  using lru_inv_put [of "pc_capacity pc" "pc_clean pc" "pg_id p" p]
    set_lru_put [of "pc_capacity pc" "pg_id p" p "pc_clean pc"]
    set_lru_remove [of "pg_id p" "pc_dirty pc"] lru_remove_keys [of "pg_id p" "pc_dirty pc"]
  by (fastforce simp: pc_inv_def pc_insert_def)

lemma pc_inv_remove: "pc_inv pc \<Longrightarrow> pc_inv (snd (pc_remove i pc))"
  using lru_inv_remove [of "pc_capacity pc" "pc_clean pc" i]
    set_lru_remove [of i "pc_clean pc"] set_lru_remove [of i "pc_dirty pc"]
  by (auto simp: pc_inv_def pc_remove_def lru_pop_def split: option.splits)

lemma pc_inv_flush: "pc_inv pc \<Longrightarrow> pc_inv (snd (pc_flush order pc))"
  by (simp add: pc_inv_def pc_flush_def Let_def split: option.split)

lemma pc_get_view [simp]: "fst (pc_get i pc) = pc_view pc i" "pc_view (snd (pc_get i pc)) = pc_view pc"
  by (auto simp: pc_get_def pc_view_def fun_eq_iff split: option.split prod.split)
    (metis lru_get_lookup fst_conv, metis map_of_lru_get snd_conv)+

lemma pc_view_insert_dirty [simp]:
  "is_dirty p \<Longrightarrow> pc_view (pc_insert p pc) = (pc_view pc)(pg_id p \<mapsto> p)"
  by (auto simp: pc_view_def pc_insert_def fun_eq_iff split: option.split)

lemma pc_view_insert_clean:
  "\<not> is_dirty p \<Longrightarrow> map_of (pc_dirty pc) (pg_id p) = None \<Longrightarrow> pc_view (pc_insert p pc) (pg_id p) = Some p"
  by (simp add: pc_view_def pc_insert_def)

lemma pc_view_new [simp]: "pc_view (pc_new n) = Map.empty"
  by (simp add: pc_view_def pc_new_def Let_def fun_eq_iff)

text \<open>
  A dirty copy does not evict the clean copy of the same page, so removing (or flushing)
  the dirty one brings the older contents back.
\<close>

lemma pc_remove_uncovers_clean:
  assumes "map_of (pc_dirty pc) i = Some p" and "map_of (pc_clean pc) i = Some q"
  shows "fst (pc_remove i pc) = Some p" and "pc_view (snd (pc_remove i pc)) i = Some q"
  using assms by (simp_all add: pc_remove_def pc_view_def)

lemma pc_flush_uncovers_clean:
  assumes "pc_writeback pc = Some wb" and "map_of (pc_clean pc) i = Some q"
  shows "pc_view (snd (pc_flush order pc)) i = Some q"
  using assms by (simp add: pc_flush_def pc_view_def Let_def)

section \<open>Properties\<close>

datatype pc_op = PcGet page_id | PcInsert page | PcRemove page_id

fun pc_step :: "page_cache \<Rightarrow> pc_op \<Rightarrow> page_cache" where
  "pc_step pc (PcGet i) = snd (pc_get i pc)"
| "pc_step pc (PcInsert p) = pc_insert p pc"
| "pc_step pc (PcRemove i) = snd (pc_remove i pc)"

text \<open>The operation neither removes page \<open>i\<close> nor replaces its dirty copy.\<close>

fun pc_leaves :: "page_id \<Rightarrow> pc_op \<Rightarrow> bool" where
  "pc_leaves i (PcGet j) = True"
| "pc_leaves i (PcInsert p) = (pg_id p \<noteq> i \<or> \<not> is_dirty p)"
| "pc_leaves i (PcRemove j) = (j \<noteq> i)"

lemma pc_inv_step: "pc_inv pc \<Longrightarrow> pc_inv (pc_step pc op)"
  by (cases op) (simp_all add: pc_inv_get pc_inv_insert pc_inv_remove)

lemma pc_step_keeps_dirty:
  "map_of (pc_dirty pc) i = Some p \<Longrightarrow> pc_leaves i op \<Longrightarrow> map_of (pc_dirty (pc_step pc op)) i = Some p"
  by (cases op) (auto simp: pc_get_def pc_insert_def pc_remove_def lru_pop_def split: option.split prod.split)

text \<open>Dirty pages survive eviction: whatever else is looked up, inserted or removed, the
  cache keeps answering with the dirty copy of a page until that page itself is written or
  removed; the clean part never exceeds the capacity.\<close>

theorem page_cache_keeps_dirty:
  assumes "is_dirty p" and "\<forall>op \<in> set ops. pc_leaves (pg_id p) op"
  shows "fst (pc_get (pg_id p) (foldl pc_step (pc_insert p (foldl pc_step (pc_new n) before)) ops)) = Some p \<and>
    length (pc_clean (foldl pc_step (pc_new n) ops)) \<le> pc_capacity (foldl pc_step (pc_new n) ops)"
proof -
  let ?pc = "pc_insert p (foldl pc_step (pc_new n) before)"
  have "map_of (pc_dirty (foldl pc_step pc ops)) (pg_id p) = Some p"
    if "map_of (pc_dirty pc) (pg_id p) = Some p" for pc
    using that assms(2) by (induction ops arbitrary: pc) (simp_all add: pc_step_keeps_dirty)
  moreover have "map_of (pc_dirty ?pc) (pg_id p) = Some p" using assms(1) by (simp add: pc_insert_def)
  moreover have "pc_inv (foldl pc_step pc ops)" if "pc_inv pc" for pc
    using that by (induction ops arbitrary: pc) (simp_all add: pc_inv_step)
  ultimately show ?thesis
    by (simp add: pc_view_def) (metis lru_inv_def pc_inv_def pc_inv_new)
qed

theorem page_cache_keeps_dirty_witness:
  "fst (pc_get 7 (foldl pc_step (pc_insert (mark_dirty (page_new 7)) (foldl pc_step (pc_new 1) []))
     [PcInsert (page_new 1), PcInsert (page_new 2), PcGet 1, PcRemove 2])) = Some (mark_dirty (page_new 7))"
  using page_cache_keeps_dirty [of "mark_dirty (page_new 7)"
      "[PcInsert (page_new 1), PcInsert (page_new 2), PcGet 1, PcRemove 2]" 1 "[]"]
  by (simp add: page_new_def)

text \<open>A stale copy comes back: when a page is cached clean, then written dirty, and the
  dirty copy is removed or flushed, the next lookup returns the older clean contents.\<close>

theorem page_cache_stale_copy:
  assumes "is_dirty p" and "\<not> is_dirty q" and "pg_id q = pg_id p" and "pc_writeback pc = Some wb"
    and "map_of (pc_dirty pc) (pg_id p) = None"
  shows "fst (pc_get (pg_id p) (snd (pc_remove (pg_id p) (pc_insert p (pc_insert q pc))))) = Some q \<and>
    fst (pc_get (pg_id p) (snd (pc_flush order (pc_insert p (pc_insert q pc))))) = Some q"
proof -
  let ?pc = "pc_insert p (pc_insert q pc)"
  have "map_of (pc_dirty ?pc) (pg_id p) = Some p" "map_of (pc_clean ?pc) (pg_id p) = Some q"
    using assms by (simp_all add: pc_insert_def)
  moreover have "pc_writeback ?pc = Some wb" using assms by (simp add: pc_insert_def)
  ultimately show ?thesis
    using pc_remove_uncovers_clean(2) [of ?pc "pg_id p" p q] pc_flush_uncovers_clean [of ?pc wb "pg_id p" q order]
    by simp
qed

lemma not_is_dirty_new: "\<not> is_dirty (page_new i)"
  by (simp add: is_dirty_def page_new_def)

theorem page_cache_stale_copy_witness:
  "fst (pc_get 3 (snd (pc_remove 3 (pc_insert (mark_dirty (page_new 3)) (pc_insert (page_new 3)
     (pc_set_writeback (\<lambda>_. Ok ()) (pc_new 4))))))) = Some (page_new 3)"
  using page_cache_stale_copy [of "mark_dirty (page_new 3)" "page_new 3"
      "pc_set_writeback (\<lambda>_. Ok ()) (pc_new 4)" "\<lambda>_. Ok ()" "\<lambda>ps. ps"]
  by (simp add: page_new_def pc_set_writeback_def pc_new_def not_is_dirty_new [unfolded page_new_def])

end
