(* ===== verification/BTree.thy ===== *)
theory BTree
  imports Page_Cache
begin

unbundle bit_operations_syntax

text \<open>
  \<open>nova-storage/src/btree.rs\<close>: the B-tree over cached 4096-byte pages, at the level of
  its page bytes. The state is the tree (root, order, next page id) and the page cache,
  whose lookups promote entries and are threaded like the writes. \<open>xxh\<close> stands for
  \<open>xxh3_64\<close>. \<open>fuel\<close> is the depth of the call stack of the recursive descent and the number
  of leaves a scan visits; running out of it is reported as \<open>Panic\<close>. A subtraction that
  wraps is \<open>Panic\<close>, as the index built from it is out of the page.
\<close>

section \<open>Page layout\<close>

definition INTERNAL_NODE :: u16 where "INTERNAL_NODE = 0"
definition LEAF_NODE :: u16 where "LEAF_NODE = 1"
definition NODE_TYPE_OFF :: nat where "NODE_TYPE_OFF = 0"
definition COUNT_OFF :: nat where "COUNT_OFF = 2"
definition PARENT_OFF :: nat where "PARENT_OFF = 4"
definition NEXT_LEAF_OFF :: nat where "NEXT_LEAF_OFF = 12"
definition PREV_LEAF_OFF :: nat where "PREV_LEAF_OFF = 20"
definition LEAF_ENTRIES_OFF :: nat where "LEAF_ENTRIES_OFF = 28"
definition INT_ENTRIES_OFF :: nat where "INT_ENTRIES_OFF = 12"
definition PAGE_DATA_SIZE :: nat where "PAGE_DATA_SIZE = 4096"
definition LEAF_ENTRY_SIZE :: nat where "LEAF_ENTRY_SIZE = 23"
definition INT_ENTRY_SIZE :: nat where "INT_ENTRY_SIZE = 20"

record int_entry =
  ie_key_hash :: u64
  ie_child_id :: u64
  ie_key_off :: u16
  ie_key_len :: u16

record leaf_entry =
  lfe_key_hash :: u64
  lfe_val_off :: u16
  lfe_val_len :: u16
  lfe_key_len :: u16
  lfe_flags :: u8

definition put_u16 :: "bytes \<Rightarrow> nat \<Rightarrow> u16 \<Rightarrow> bytes result" where
  "put_u16 data off v = set_bytes data off (le_word v)"

definition put_u64 :: "bytes \<Rightarrow> nat \<Rightarrow> u64 \<Rightarrow> bytes result" where
  "put_u64 data off v = set_bytes data off (le_word v)"

definition read_int_entry :: "bytes \<Rightarrow> nat \<Rightarrow> int_entry result" where
  "read_int_entry data idx =
     (let off = INT_ENTRIES_OFF + idx * INT_ENTRY_SIZE in
      obind (get_u64 data off) (\<lambda>h.
      obind (get_u64 data (off + 8)) (\<lambda>c.
      obind (get_u16 data (off + 16)) (\<lambda>ko.
      obind (get_u16 data (off + 18)) (\<lambda>kl.
      Ok \<lparr>ie_key_hash = h, ie_child_id = c, ie_key_off = ko, ie_key_len = kl\<rparr>)))))"

definition read_leaf_entry :: "bytes \<Rightarrow> nat \<Rightarrow> leaf_entry result" where
  "read_leaf_entry data idx =
     (let off = LEAF_ENTRIES_OFF + idx * LEAF_ENTRY_SIZE in
      obind (get_u64 data off) (\<lambda>h.
      obind (get_u16 data (off + 8)) (\<lambda>vo.
      obind (get_u16 data (off + 10)) (\<lambda>vl.
      obind (get_u16 data (off + 12)) (\<lambda>kl.
      obind (nth_or_panic data (off + 22)) (\<lambda>f.
      Ok \<lparr>lfe_key_hash = h, lfe_val_off = vo, lfe_val_len = vl, lfe_key_len = kl,
          lfe_flags = f\<rparr>))))))"

definition read_leaf_key :: "bytes \<Rightarrow> leaf_entry \<Rightarrow> key result" where
  "read_leaf_key data e =
     obind (sub_or_panic (unat (lfe_val_off e)) (unat (lfe_key_len e))) (\<lambda>off.
     get_bytes data off (unat (lfe_key_len e)))"

definition read_leaf_value :: "bytes \<Rightarrow> leaf_entry \<Rightarrow> val result" where
  "read_leaf_value data e = get_bytes data (unat (lfe_val_off e)) (unat (lfe_val_len e))"

definition read_int_key :: "bytes \<Rightarrow> int_entry \<Rightarrow> key result" where
  "read_int_key data e = get_bytes data (unat (ie_key_off e)) (unat (ie_key_len e))"

definition leaf_dead :: "leaf_entry \<Rightarrow> bool" where
  "leaf_dead e \<longleftrightarrow> lfe_flags e AND 1 \<noteq> 0"

definition page_count :: "bytes \<Rightarrow> nat result" where
  "page_count data = obind (get_u16 data COUNT_OFF) (\<lambda>c. Ok (unat c))"

text \<open>The loop over the separators with its \<open>break\<close>; \<open>idx\<close> is one past the last that fits.\<close>

fun int_child_loop :: "bytes \<Rightarrow> key \<Rightarrow> nat \<Rightarrow> nat \<Rightarrow> nat \<Rightarrow> nat result" where
  "int_child_loop data k i 0 idx = Ok idx"
| "int_child_loop data k i (Suc n) idx =
     obind (read_int_entry data i) (\<lambda>e.
     obind (read_int_key data e) (\<lambda>stored.
     if stored \<le> k then int_child_loop data k (i + 1) n (i + 1) else Ok idx))"

definition get_int_child_index :: "bytes \<Rightarrow> key \<Rightarrow> nat result" where
  "get_int_child_index data k =
     obind (page_count data) (\<lambda>count.
     obind (int_child_loop data k 0 count 0) (\<lambda>idx.
     Ok (if idx > 0 then idx - 1 else 0)))"

fun leaf_bytes_used :: "bytes \<Rightarrow> nat \<Rightarrow> nat \<Rightarrow> nat result" where
  "leaf_bytes_used data i 0 = Ok 0"
| "leaf_bytes_used data i (Suc n) =
     obind (read_leaf_entry data i) (\<lambda>e.
     obind (leaf_bytes_used data (i + 1) n) (\<lambda>rest.
     Ok (unat (lfe_key_len e) + unat (lfe_val_len e) + rest)))"

definition insert_leaf_entry :: "(bytes \<Rightarrow> u64) \<Rightarrow> bytes \<Rightarrow> nat \<Rightarrow> key \<Rightarrow> val \<Rightarrow> bytes result" where
  "insert_leaf_entry xxh data idx k v =
     (let entry_off = LEAF_ENTRIES_OFF + idx * LEAF_ENTRY_SIZE in
      obind (page_count data) (\<lambda>count.
      obind (leaf_bytes_used data 0 count) (\<lambda>cumulative.
      obind (sub_or_panic PAGE_DATA_SIZE (cumulative + length v)) (\<lambda>val_off.
      obind (sub_or_panic val_off (length k)) (\<lambda>key_off.
      obind (set_bytes data key_off k) (\<lambda>data.
      obind (set_bytes data val_off v) (\<lambda>data.
      obind (put_u64 data entry_off (xxh k)) (\<lambda>data.
      obind (put_u16 data (entry_off + 8) (of_nat val_off)) (\<lambda>data.
      obind (put_u16 data (entry_off + 10) (of_nat (length v))) (\<lambda>data.
      obind (put_u16 data (entry_off + 12) (of_nat (length k))) (\<lambda>data.
      obind (put_u64 data (entry_off + 14) 0) (\<lambda>data.
      set_bytes data (entry_off + 22) [0]))))))))))))"

definition push_int_entry :: "bytes \<Rightarrow> nat \<Rightarrow> u64 \<Rightarrow> u64 \<Rightarrow> key \<Rightarrow> bytes result" where
  "push_int_entry data idx h child k =
     (let entry_off = INT_ENTRIES_OFF + idx * INT_ENTRY_SIZE in
      obind (sub_or_panic (PAGE_DATA_SIZE - 1) (idx * (length k + 2) + length k)) (\<lambda>key_off.
      obind (set_bytes data key_off k) (\<lambda>data.
      obind (put_u64 data entry_off h) (\<lambda>data.
      obind (put_u64 data (entry_off + 8) child) (\<lambda>data.
      obind (put_u16 data (entry_off + 16) (of_nat key_off)) (\<lambda>data.
      put_u16 data (entry_off + 18) (of_nat (length k))))))))"

section \<open>The tree\<close>

record btree =
  bt_root_id :: u64
  bt_order :: nat
  bt_next_id :: u64

type_synonym tree_state = "btree \<times> page_cache"
type_synonym 'a tree_op = "(tree_state, runtime_error, 'a) stm"

definition bt_new :: "nat \<Rightarrow> btree" where
  "bt_new order = \<lparr>bt_root_id = 0, bt_order = (if order < 4 then 128 else order), bt_next_id = 1000\<rparr>"

definition bt_get_root :: "btree \<Rightarrow> page_id option" where
  "bt_get_root b = (if bt_root_id b = 0 then None else Some (bt_root_id b))"

definition bt_set_root :: "page_id \<Rightarrow> unit tree_op" where
  "bt_set_root i = smod (\<lambda>(b, pc). (b\<lparr>bt_root_id := i\<rparr>, pc))"

definition bt_allocate_page_id :: "u64 tree_op" where
  "bt_allocate_page_id = (\<lambda>(b, pc). (Ok (bt_next_id b), (b\<lparr>bt_next_id := bt_next_id b + 1\<rparr>, pc)))"

definition cache_get :: "page_id \<Rightarrow> page option tree_op" where
  "cache_get i = (\<lambda>(b, pc). let (r, pc') = pc_get i pc in (Ok r, (b, pc')))"

definition cache_insert :: "page \<Rightarrow> unit tree_op" where
  "cache_insert p = smod (\<lambda>(b, pc). (b, pc_insert p pc))"

text \<open>\<open>cache.get(id)?.ok_or_else(..)?\<close>.\<close>

definition cache_page :: "string \<Rightarrow> page_id \<Rightarrow> page tree_op" where
  "cache_page msg i = sbind (cache_get i) (\<lambda>r.
     case r of Some p \<Rightarrow> sret p | None \<Rightarrow> slift (Err (Internal msg)))"

fun leaf_search :: "(bytes \<Rightarrow> u64) \<Rightarrow> bytes \<Rightarrow> key \<Rightarrow> nat \<Rightarrow> nat \<Rightarrow> val option result" where
  "leaf_search xxh data k i 0 = Ok None"
| "leaf_search xxh data k i (Suc n) =
     obind (read_leaf_entry data i) (\<lambda>e.
     if lfe_key_hash e \<noteq> xxh k then leaf_search xxh data k (i + 1) n
     else if unat (lfe_key_len e) \<noteq> length k then leaf_search xxh data k (i + 1) n
     else obind (read_leaf_key data e) (\<lambda>stored.
       if stored = k then
         if leaf_dead e then leaf_search xxh data k (i + 1) n
         else obind (read_leaf_value data e) (\<lambda>v. Ok (Some v))
       else leaf_search xxh data k (i + 1) n))"

fun bt_get_from_page :: "(bytes \<Rightarrow> u64) \<Rightarrow> nat \<Rightarrow> bytes \<Rightarrow> key \<Rightarrow> val option tree_op" where
  "bt_get_from_page xxh 0 data k = slift Panic"
| "bt_get_from_page xxh (Suc fuel) data k =
     sbind (slift (get_u16 data NODE_TYPE_OFF)) (\<lambda>node_type.
     if node_type = LEAF_NODE then
       slift (obind (page_count data) (\<lambda>count. leaf_search xxh data k 0 count))
     else
       sbind (slift (obind (get_int_child_index data k) (\<lambda>idx. read_int_entry data idx))) (\<lambda>e.
       sbind (cache_page ''BTree child not found'' (ie_child_id e)) (\<lambda>child.
       bt_get_from_page xxh fuel (pg_data child) k)))"

definition bt_get :: "(bytes \<Rightarrow> u64) \<Rightarrow> nat \<Rightarrow> key \<Rightarrow> val option tree_op" where
  "bt_get xxh fuel k = sbind (sget (bt_get_root \<circ> fst)) (\<lambda>root.
     case root of
       None \<Rightarrow> sret None
     | Some i \<Rightarrow> sbind (cache_page ''BTree root not found'' i) (\<lambda>p.
         bt_get_from_page xxh fuel (pg_data p) k))"

section \<open>Insertion\<close>

text \<open>A fresh leaf with its links; \<open>fresh_leaf\<close> is the repeated header code of the source.\<close>

definition fresh_leaf :: "page_id \<Rightarrow> u64 \<Rightarrow> u64 \<Rightarrow> u64 \<Rightarrow> bytes result" where
  "fresh_leaf i parent next prev =
     obind (put_u16 (pg_data (page_new i)) NODE_TYPE_OFF LEAF_NODE) (\<lambda>d.
     obind (put_u16 d COUNT_OFF 0) (\<lambda>d.
     obind (put_u64 d PARENT_OFF parent) (\<lambda>d.
     obind (put_u64 d NEXT_LEAF_OFF next) (\<lambda>d.
     put_u64 d PREV_LEAF_OFF prev))))"

definition dirty_page :: "page_id \<Rightarrow> bytes \<Rightarrow> page" where
  "dirty_page i data = mark_dirty ((page_new i)\<lparr>pg_data := data\<rparr>)"

text \<open>The first entry whose key is \<open>k\<close>, tombstone or not.\<close>

fun find_leaf_key :: "bytes \<Rightarrow> key \<Rightarrow> nat \<Rightarrow> nat \<Rightarrow> (nat \<times> leaf_entry) option result" where
  "find_leaf_key data k i 0 = Ok None"
| "find_leaf_key data k i (Suc n) =
     obind (read_leaf_entry data i) (\<lambda>e.
     obind (read_leaf_key data e) (\<lambda>stored.
     if stored = k then Ok (Some (i, e)) else find_leaf_key data k (i + 1) n))"

type_synonym leaf_item = "key \<times> val \<times> u8"

fun read_leaf_items :: "bytes \<Rightarrow> nat \<Rightarrow> nat \<Rightarrow> leaf_item list result" where
  "read_leaf_items data i 0 = Ok []"
| "read_leaf_items data i (Suc n) =
     obind (read_leaf_entry data i) (\<lambda>e.
     obind (read_leaf_key data e) (\<lambda>k.
     obind (read_leaf_value data e) (\<lambda>v.
     obind (read_leaf_items data (i + 1) n) (\<lambda>rest.
     Ok ((k, v, lfe_flags e) # rest)))))"

fun write_leaf_items :: "(bytes \<Rightarrow> u64) \<Rightarrow> bytes \<Rightarrow> nat \<Rightarrow> leaf_item list \<Rightarrow> bytes result" where
  "write_leaf_items xxh data idx [] = Ok data"
| "write_leaf_items xxh data idx ((k, v, flags) # items) =
     obind (insert_leaf_entry xxh data idx k v) (\<lambda>data.
     obind (put_u16 data COUNT_OFF (of_nat (idx + 1))) (\<lambda>data.
     obind (if flags AND 1 \<noteq> 0
            then set_bytes data (LEAF_ENTRIES_OFF + idx * LEAF_ENTRY_SIZE + 22) [1]
            else Ok data) (\<lambda>data.
     write_leaf_items xxh data (idx + 1) items)))"

definition or_byte :: "bytes \<Rightarrow> nat \<Rightarrow> u8 \<Rightarrow> bytes result" where
  "or_byte data off b = obind (nth_or_panic data off) (\<lambda>x. Ok (data[off := x OR b]))"

text \<open>The sorted position of the split case: before the first key that is not smaller.\<close>

definition leaf_position :: "key \<Rightarrow> leaf_item list \<Rightarrow> nat" where
  "leaf_position k items = length (takeWhile (\<lambda>(k', _). \<not> k \<le> k') items)"

definition set_page_parent :: "u64 \<Rightarrow> u64 \<Rightarrow> unit tree_op" where
  "set_page_parent i parent = sbind (cache_get i) (\<lambda>r.
     case r of
       Some p \<Rightarrow> sbind (slift (put_u64 (pg_data p) PARENT_OFF parent)) (\<lambda>d.
         cache_insert (mark_dirty (p\<lparr>pg_data := d\<rparr>)))
     | None \<Rightarrow> sret ())"

definition split_leaf ::
  "(bytes \<Rightarrow> u64) \<Rightarrow> page \<Rightarrow> leaf_item list \<Rightarrow> (key \<times> page_id) option tree_op" where
  "split_leaf xxh page items =
     sbind (sget (bt_order \<circ> fst)) (\<lambda>mid.
     sbind (slift (nth_or_panic items mid)) (\<lambda>(split_key, _).
     sbind bt_allocate_page_id (\<lambda>new_id.
     sbind (slift (
       obind (get_u64 (pg_data page) NEXT_LEAF_OFF) (\<lambda>old_next.
       obind (get_u64 (pg_data page) PARENT_OFF) (\<lambda>parent.
       obind (get_u64 (pg_data page) PREV_LEAF_OFF) (\<lambda>prev.
       obind (fresh_leaf (pg_id page) parent new_id prev) (\<lambda>d1.
       obind (write_leaf_items xxh d1 0 (take mid items)) (\<lambda>left.
       obind (fresh_leaf new_id parent old_next (pg_id page)) (\<lambda>d2.
       obind (write_leaf_items xxh d2 0 (drop mid items)) (\<lambda>right.
       Ok (old_next, left, right))))))))))
       (\<lambda>(old_next, left, right).
     sbind (cache_insert (dirty_page (pg_id page) left)) (\<lambda>_.
     sbind (cache_insert (dirty_page new_id right)) (\<lambda>_.
     sbind (if old_next \<noteq> INVALID_PAGE then
              sbind (cache_get old_next) (\<lambda>r.
              case r of
                Some next_page \<Rightarrow>
                  if pg_id next_page \<noteq> INVALID_PAGE then
                    sbind (slift (put_u64 (pg_data next_page) PREV_LEAF_OFF new_id)) (\<lambda>d.
                    cache_insert (mark_dirty (next_page\<lparr>pg_data := d\<rparr>)))
                  else sret ()
              | None \<Rightarrow> sret ())
            else sret ()) (\<lambda>_.
     sret (Some (split_key, new_id)))))))))"

definition bt_insert_into_leaf ::
  "(bytes \<Rightarrow> u64) \<Rightarrow> page \<Rightarrow> key \<Rightarrow> val \<Rightarrow> (key \<times> page_id) option tree_op" where
  "bt_insert_into_leaf xxh page k v =
     sbind (sget (bt_order \<circ> fst)) (\<lambda>order.
     sbind (slift (page_count (pg_data page))) (\<lambda>count.
     sbind (slift (find_leaf_key (pg_data page) k 0 count)) (\<lambda>found.
     let add_entry = (\<lambda>page :: page.
       sbind (slift (read_leaf_items (pg_data page) 0 count)) (\<lambda>entries.
       if count < order * 2 then
         let items = sort_key fst (entries @ [(k, v, 0)]) in
         sbind (slift (
           obind (get_u64 (pg_data page) PARENT_OFF) (\<lambda>parent.
           obind (get_u64 (pg_data page) NEXT_LEAF_OFF) (\<lambda>next.
           obind (get_u64 (pg_data page) PREV_LEAF_OFF) (\<lambda>prev.
           obind (fresh_leaf (pg_id page) parent next prev) (\<lambda>d.
           write_leaf_items xxh d 0 items)))))) (\<lambda>d.
         sbind (cache_insert (dirty_page (pg_id page) d)) (\<lambda>_. sret None))
       else
         let sorted = sort_key fst entries; pos = leaf_position k sorted
         in split_leaf xxh page (take pos sorted @ (k, v, 0) # drop pos sorted)))
     in case found of
          None \<Rightarrow> add_entry page
        | Some (i, e) \<Rightarrow>
            let entry_off = LEAF_ENTRIES_OFF + i * LEAF_ENTRY_SIZE in
            if unat (lfe_key_len e) = length k \<and> unat (lfe_val_len e) = length v then
              sbind (slift (
                obind (set_bytes (pg_data page) (unat (lfe_val_off e)) v) (\<lambda>d.
                set_bytes d (entry_off + 22) [0]))) (\<lambda>d.
              sbind (cache_insert (mark_dirty (page\<lparr>pg_data := d\<rparr>))) (\<lambda>_. sret None))
            else
              sbind (slift (or_byte (pg_data page) (entry_off + 22) 1)) (\<lambda>d.
              add_entry (page\<lparr>pg_data := d\<rparr>)))))"

type_synonym int_item = "u64 \<times> u64 \<times> key"

fun read_int_items :: "bytes \<Rightarrow> nat \<Rightarrow> nat \<Rightarrow> int_item list result" where
  "read_int_items data i 0 = Ok []"
| "read_int_items data i (Suc n) =
     obind (read_int_entry data i) (\<lambda>e.
     obind (read_int_key data e) (\<lambda>k.
     obind (read_int_items data (i + 1) n) (\<lambda>rest.
     Ok ((ie_key_hash e, ie_child_id e, k) # rest))))"

fun push_int_items :: "bytes \<Rightarrow> nat \<Rightarrow> int_item list \<Rightarrow> bytes result" where
  "push_int_items data idx [] = Ok data"
| "push_int_items data idx ((h, c, k) # items) =
     obind (push_int_entry data idx h c k) (\<lambda>data. push_int_items data (idx + 1) items)"

fun int_child_ids :: "bytes \<Rightarrow> nat \<Rightarrow> nat \<Rightarrow> u64 list result" where
  "int_child_ids data i 0 = Ok []"
| "int_child_ids data i (Suc n) =
     obind (read_int_entry data i) (\<lambda>e.
     obind (int_child_ids data (i + 1) n) (\<lambda>rest. Ok (ie_child_id e # rest)))"

fun set_parents :: "u64 list \<Rightarrow> u64 \<Rightarrow> unit tree_op" where
  "set_parents [] parent = sret ()"
| "set_parents (c # cs) parent = sbind (set_page_parent c parent) (\<lambda>_. set_parents cs parent)"

definition fresh_internal :: "page_id \<Rightarrow> u64 \<Rightarrow> bytes result" where
  "fresh_internal i parent =
     obind (put_u16 (pg_data (page_new i)) NODE_TYPE_OFF INTERNAL_NODE) (\<lambda>d.
     obind (put_u16 d COUNT_OFF 0) (\<lambda>d.
     put_u64 d PARENT_OFF parent))"

definition bt_insert_into_internal ::
  "(bytes \<Rightarrow> u64) \<Rightarrow> page \<Rightarrow> key \<Rightarrow> page_id \<Rightarrow> (key \<times> page_id) option tree_op" where
  "bt_insert_into_internal xxh page sep_key new_child =
     sbind (sget (bt_order \<circ> fst)) (\<lambda>order.
     sbind (slift (page_count (pg_data page))) (\<lambda>count.
     sbind (slift (read_int_items (pg_data page) 0 count)) (\<lambda>items.
     sbind (slift (get_u64 (pg_data page) PARENT_OFF)) (\<lambda>parent.
     let entries = sort_key (\<lambda>(_, _, k). k) (items @ [(xxh sep_key, new_child, sep_key)]) in
     if count < order * 2 then
       sbind (slift (
         obind (fresh_internal (pg_id page) parent) (\<lambda>d.
         obind (push_int_items d 0 entries) (\<lambda>d.
         put_u16 d COUNT_OFF (of_nat (length entries)))))) (\<lambda>d.
       sbind (cache_insert (dirty_page (pg_id page) d)) (\<lambda>_. sret None))
     else
       sbind (slift (nth_or_panic entries order)) (\<lambda>(_, _, promoted).
       sbind bt_allocate_page_id (\<lambda>new_id.
       let upper = drop (order + 1) entries in
       sbind (slift (
         obind (fresh_internal new_id parent) (\<lambda>d.
         obind (push_int_items d 0 upper) (\<lambda>d.
         obind (put_u16 d COUNT_OFF (of_nat (length upper))) (\<lambda>d.
         obind (put_u16 (pg_data page) COUNT_OFF (of_nat order)) (\<lambda>d'.
         obind (int_child_ids d 0 (length upper)) (\<lambda>ids.
         Ok (d, d', ids))))))))
         (\<lambda>(d, d', ids).
       sbind (cache_insert (mark_dirty (page\<lparr>pg_data := d'\<rparr>))) (\<lambda>_.
       sbind (cache_insert (dirty_page new_id d)) (\<lambda>_.
       sbind (set_parents ids new_id) (\<lambda>_.
       sret (Some (promoted, new_id))))))))))))"

fun bt_insert_into ::
  "(bytes \<Rightarrow> u64) \<Rightarrow> nat \<Rightarrow> page_id \<Rightarrow> key \<Rightarrow> val \<Rightarrow> (key \<times> page_id) option tree_op" where
  "bt_insert_into xxh 0 i k v = slift Panic"
| "bt_insert_into xxh (Suc fuel) i k v =
     sbind (cache_page ''BTree page not found'' i) (\<lambda>page.
     sbind (slift (get_u16 (pg_data page) NODE_TYPE_OFF)) (\<lambda>node_type.
     if node_type = LEAF_NODE then bt_insert_into_leaf xxh page k v
     else
       sbind (slift (obind (get_int_child_index (pg_data page) k) (\<lambda>idx.
                     read_int_entry (pg_data page) idx))) (\<lambda>e.
       sbind (bt_insert_into xxh fuel (ie_child_id e) k v) (\<lambda>result.
       case result of
         Some (sep_key, new_child) \<Rightarrow>
           sbind (cache_page ''BTree page gone'' i) (\<lambda>updated.
           bt_insert_into_internal xxh updated sep_key new_child)
       | None \<Rightarrow> sret None))))"

definition bt_insert_tree :: "(bytes \<Rightarrow> u64) \<Rightarrow> nat \<Rightarrow> key \<Rightarrow> val \<Rightarrow> unit tree_op" where
  "bt_insert_tree xxh fuel k v =
     sbind (sget (bt_get_root \<circ> fst)) (\<lambda>root.
     sbind (case root of
              Some i \<Rightarrow> sret i
            | None \<Rightarrow>
                sbind (slift (fresh_leaf 1 INVALID_PAGE INVALID_PAGE INVALID_PAGE)) (\<lambda>d.
                sbind (cache_insert (dirty_page 1 d)) (\<lambda>_.
                sbind (bt_set_root 1) (\<lambda>_. sret 1)))) (\<lambda>root_id.
     sbind (bt_insert_into xxh fuel root_id k v) (\<lambda>result.
     case result of
       None \<Rightarrow> sret ()
     | Some (sep_key, new_child) \<Rightarrow>
         sbind bt_allocate_page_id (\<lambda>new_root.
         sbind (slift (
           obind (put_u16 (pg_data (page_new new_root)) NODE_TYPE_OFF INTERNAL_NODE) (\<lambda>d.
           obind (put_u16 d COUNT_OFF 2) (\<lambda>d.
           obind (put_u64 d PARENT_OFF INVALID_PAGE) (\<lambda>d.
           obind (push_int_entry d 0 (xxh sep_key) root_id sep_key) (\<lambda>d.
           push_int_entry d 1 (xxh sep_key) new_child sep_key)))))) (\<lambda>d.
         sbind (cache_insert (dirty_page new_root d)) (\<lambda>_.
         sbind (set_page_parent root_id new_root) (\<lambda>_.
         sbind (set_page_parent new_child new_root) (\<lambda>_.
         bt_set_root new_root))))))))"

section \<open>Deletion and range scan\<close>

fun bt_delete_from :: "nat \<Rightarrow> page_id \<Rightarrow> key \<Rightarrow> bool tree_op" where
  "bt_delete_from 0 i k = slift Panic"
| "bt_delete_from (Suc fuel) i k =
     sbind (cache_page ''BTree page not found'' i) (\<lambda>page.
     sbind (slift (get_u16 (pg_data page) NODE_TYPE_OFF)) (\<lambda>node_type.
     if node_type = LEAF_NODE then
       sbind (slift (obind (page_count (pg_data page)) (\<lambda>count.
                     find_leaf_key (pg_data page) k 0 count))) (\<lambda>found.
       case found of
         None \<Rightarrow> sret False
       | Some (j, e) \<Rightarrow>
           if leaf_dead e then sret False
           else
             sbind (slift (or_byte (pg_data page)
                      (LEAF_ENTRIES_OFF + j * LEAF_ENTRY_SIZE + 22) 1)) (\<lambda>d.
             sbind (cache_insert (mark_dirty (page\<lparr>pg_data := d\<rparr>))) (\<lambda>_. sret True)))
     else
       sbind (slift (obind (get_int_child_index (pg_data page) k) (\<lambda>idx.
                     read_int_entry (pg_data page) idx))) (\<lambda>e.
       bt_delete_from fuel (ie_child_id e) k)))"

definition bt_delete :: "nat \<Rightarrow> key \<Rightarrow> bool tree_op" where
  "bt_delete fuel k = sbind (sget (bt_get_root \<circ> fst)) (\<lambda>root.
     case root of None \<Rightarrow> sret False | Some i \<Rightarrow> bt_delete_from fuel i k)"

fun bt_find_start_leaf :: "nat \<Rightarrow> page_id \<Rightarrow> key \<Rightarrow> page_id tree_op" where
  "bt_find_start_leaf 0 i k = slift Panic"
| "bt_find_start_leaf (Suc fuel) i k =
     sbind (cache_page ''page not found'' i) (\<lambda>page.
     sbind (slift (get_u16 (pg_data page) NODE_TYPE_OFF)) (\<lambda>node_type.
     if node_type = LEAF_NODE then sret i
     else
       sbind (slift (obind (get_int_child_index (pg_data page) k) (\<lambda>idx.
                     read_int_entry (pg_data page) idx))) (\<lambda>e.
       bt_find_start_leaf fuel (ie_child_id e) k)))"

text \<open>One leaf of the scan: the entries found and whether the end of the range was reached.\<close>

fun scan_leaf :: "bytes \<Rightarrow> key \<Rightarrow> key \<Rightarrow> nat \<Rightarrow> nat \<Rightarrow> ((key \<times> val) list \<times> bool) result" where
  "scan_leaf data lo hi i 0 = Ok ([], False)"
| "scan_leaf data lo hi i (Suc n) =
     obind (read_leaf_entry data i) (\<lambda>e.
     if leaf_dead e then scan_leaf data lo hi (i + 1) n
     else obind (read_leaf_key data e) (\<lambda>k.
       if k < lo then scan_leaf data lo hi (i + 1) n
       else if k \<ge> hi then Ok ([], True)
       else obind (read_leaf_value data e) (\<lambda>v.
            obind (scan_leaf data lo hi (i + 1) n) (\<lambda>(rest, stop).
            Ok ((k, v) # rest, stop)))))"

fun bt_scan_leaves :: "nat \<Rightarrow> page_id \<Rightarrow> key \<Rightarrow> key \<Rightarrow> (key \<times> val) list tree_op" where
  "bt_scan_leaves 0 i lo hi = slift Panic"
| "bt_scan_leaves (Suc fuel) i lo hi =
     sbind (cache_page ''leaf not found'' i) (\<lambda>page.
     sbind (slift (obind (page_count (pg_data page)) (\<lambda>count.
                   scan_leaf (pg_data page) lo hi 0 count))) (\<lambda>(found, stop).
     if stop then sret found
     else
       sbind (slift (get_u64 (pg_data page) NEXT_LEAF_OFF)) (\<lambda>next_id.
       if next_id = INVALID_PAGE then sret found
       else sbind (bt_scan_leaves fuel next_id lo hi) (\<lambda>rest. sret (found @ rest)))))"

definition bt_scan :: "nat \<Rightarrow> key \<Rightarrow> key \<Rightarrow> (key \<times> val) list tree_op" where
  "bt_scan fuel lo hi = sbind (sget (bt_get_root \<circ> fst)) (\<lambda>root.
     case root of
       None \<Rightarrow> sret []
     | Some i \<Rightarrow> sbind (bt_find_start_leaf fuel i lo) (\<lambda>start. bt_scan_leaves fuel start lo hi))"

section \<open>A tree without a root\<close>

lemma bt_get_no_root: "bt_root_id b = 0 \<Longrightarrow> bt_get xxh fuel k (b, pc) = (Ok None, (b, pc))"
  by (simp add: bt_get_def bt_get_root_def)

lemma bt_scan_no_root: "bt_root_id b = 0 \<Longrightarrow> bt_scan fuel lo hi (b, pc) = (Ok [], (b, pc))"
  by (simp add: bt_scan_def bt_get_root_def)

end
