(* ===== verification/Wal.thy ===== *)
theory Wal
  imports Core_Types Ordered_Map
begin

text \<open>
  The write-ahead log of \<open>nova-storage/src/wal.rs\<close>: record framing, the writer
  with its segments, the reader that walks them, LSN recovery and group commit. A log
  directory is the ordered map of its segment files; \<open>crc\<close> stands for the
  external \<open>crc32c\<close> function.
\<close>

section \<open>Records and their encoding\<close>

definition WAL_MAGIC :: u32 where "WAL_MAGIC = 0x4E4F5641"

definition MAX_PAYLOAD_SIZE :: u32 where "MAX_PAYLOAD_SIZE = 65535"

datatype wal_record_type =
  WalBegin | WalCommit | WalRollback | WalInsert | WalUpdate | WalDelete | WalCheckpoint

fun wal_type_to_u16 :: "wal_record_type \<Rightarrow> u16" where
  "wal_type_to_u16 WalBegin = 0"
| "wal_type_to_u16 WalCommit = 1"
| "wal_type_to_u16 WalRollback = 2"
| "wal_type_to_u16 WalInsert = 3"
| "wal_type_to_u16 WalUpdate = 4"
| "wal_type_to_u16 WalDelete = 5"
| "wal_type_to_u16 WalCheckpoint = 6"

definition wal_type_from_u16 :: "u16 \<Rightarrow> wal_record_type option" where
  "wal_type_from_u16 v =
     (if v = 0 then Some WalBegin else if v = 1 then Some WalCommit
      else if v = 2 then Some WalRollback else if v = 3 then Some WalInsert
      else if v = 4 then Some WalUpdate else if v = 5 then Some WalDelete
      else if v = 6 then Some WalCheckpoint else None)"

record wal_record =
  wr_lsn :: lsn
  wr_tx :: tx_id
  wr_type :: wal_record_type
  wr_key :: key
  wr_value :: "val option"
  wr_checksum :: u32
  wr_timestamp :: i64

definition make_record :: "i64 \<Rightarrow> wal_record_type \<Rightarrow> tx_id \<Rightarrow> key \<Rightarrow> val option \<Rightarrow> wal_record" where
  "make_record now ty tx k v =
     \<lparr>wr_lsn = 0, wr_tx = tx, wr_type = ty, wr_key = k, wr_value = v,
      wr_checksum = 0, wr_timestamp = now\<rparr>"

definition encode_payload :: "wal_record \<Rightarrow> bytes" where
  "encode_payload r =
     (let key_bytes = wr_key r;
          value_bytes = (case wr_value r of Some v \<Rightarrow> v | None \<Rightarrow> [])
      in le_word (wr_tx r) @ le_word (of_nat (length key_bytes) :: u32) @ key_bytes @
         le_word (of_nat (length value_bytes) :: u32) @ value_bytes @
         le_word (wr_timestamp r))"

definition decode_payload :: "bytes \<Rightarrow> (tx_id \<times> key \<times> val option \<times> i64) result" where
  "decode_payload data =
     (if length data < 24 then Err (CorruptData ''WAL payload too short'') else
      obind (ok_or_panic (slice_at data 0 8)) (\<lambda>tx.
      obind (ok_or_panic (slice_at data 8 4)) (\<lambda>kl.
      let key_len = unat (word_le kl :: u32) in
      if 12 + key_len > length data then Err (CorruptData ''WAL payload key truncated'') else
      obind (ok_or_panic (slice_at data 12 key_len)) (\<lambda>key.
      let off = 12 + key_len in
      if off + 4 > length data
      then Err (CorruptData ''WAL payload value length truncated'') else
      obind (ok_or_panic (slice_at data off 4)) (\<lambda>vl.
      let value_len = unat (word_le vl :: u32); off = off + 4 in
      obind (if value_len > 0
             then if off + value_len > length data
                  then Err (CorruptData ''WAL payload value truncated'')
                  else obind (ok_or_panic (slice_at data off value_len)) (\<lambda>v. Ok (Some v))
             else Ok None) (\<lambda>value.
      let off = off + value_len in
      obind (if off + 8 \<le> length data
             then obind (ok_or_panic (slice_at data off 8)) (\<lambda>t. Ok (word_le t))
             else Ok 0) (\<lambda>timestamp.
      Ok (word_le tx, key, value, timestamp))))))))"

lemma wal_type_roundtrip [simp]: "wal_type_from_u16 (wal_type_to_u16 t) = Some t"
  by (cases t) (simp_all add: wal_type_from_u16_def)

lemma length_encode_payload:
  "length (encode_payload r) =
     24 + length (wr_key r) + (case wr_value r of Some v \<Rightarrow> length v | None \<Rightarrow> 0)"
  by (simp add: encode_payload_def Let_def split: option.split)

text \<open>An empty value and no value have the same encoding.\<close>

definition stored_value :: "val option \<Rightarrow> val option" where
  "stored_value v = (if v = Some [] then None else v)"

lemma decode_encode_payload:
  assumes "length (encode_payload r) < 2 ^ 32"
  shows "decode_payload (encode_payload r) =
    Ok (wr_tx r, wr_key r, stored_value (wr_value r), wr_timestamp r)"
proof -
  let ?k = "wr_key r" and ?v = "case wr_value r of Some v \<Rightarrow> v | None \<Rightarrow> []"
  let ?d = "encode_payload r"
  let ?kl = "le_word (of_nat (length ?k) :: u32)" and ?vl = "le_word (of_nat (length ?v) :: u32)"
  have d: "?d = le_word (wr_tx r) @ ?kl @ ?k @ ?vl @ ?v @ le_word (wr_timestamp r)"
    by (simp add: encode_payload_def Let_def)
  have lens: "length ?k < 2 ^ 32" "length ?v < 2 ^ 32" "24 \<le> length ?d"
    "length ?d = 24 + length ?k + length ?v"
    using assms by (auto simp: length_encode_payload split: option.splits)
  have s0: "slice_at ?d 0 8 = Some (le_word (wr_tx r))"
    unfolding d slice_at_def by simp
  have s1: "slice_at ?d 8 4 = Some ?kl"
    unfolding d by (rule slice_at_end) simp_all
  have s2: "slice_at ?d 12 (length ?k) = Some ?k"
    using slice_at_end [of "le_word (wr_tx r) @ ?kl" 12 ?k] unfolding d by simp
  have s3: "slice_at ?d (12 + length ?k) 4 = Some ?vl"
    using slice_at_end [of "le_word (wr_tx r) @ ?kl @ ?k" "12 + length ?k" ?vl 4]
    unfolding d by simp
  have s4: "slice_at ?d (16 + length ?k) (length ?v) = Some ?v"
    using slice_at_end [of "le_word (wr_tx r) @ ?kl @ ?k @ ?vl" "16 + length ?k" ?v]
    unfolding d by simp
  have s5: "slice_at ?d (16 + length ?k + length ?v) 8 = Some (le_word (wr_timestamp r))"
    using slice_at_end2 [of "le_word (wr_tx r) @ ?kl @ ?k @ ?vl @ ?v"
        "16 + length ?k + length ?v" "le_word (wr_timestamp r)" 8]
    unfolding d by simp
  have "decode_payload ?d =
    Ok (wr_tx r, ?k, if length ?v > 0 then Some ?v else None, wr_timestamp r)"
    using lens s0 s1 s2 s3 s4 s5
    by (simp add: decode_payload_def Let_def add.commute add.left_commute)
  also have "(if length ?v > 0 then Some ?v else None) = stored_value (wr_value r)"
    by (auto simp: stored_value_def split: option.split)
  finally show ?thesis .
qed

lemma decode_payload_no_panic: "decode_payload data \<noteq> Panic" "decode_payload data \<noteq> Deadlock"
  by (auto simp: decode_payload_def Let_def slice_at_def)


section \<open>The writer\<close>

type_synonym wal_dir = "(u64, bytes) btmap"

record wal_writer =
  ww_dir :: wal_dir
  ww_seg :: u64
  ww_offset :: u64
  ww_lsn :: u64
  ww_policy :: fsync_policy

text \<open>\<open>read_exact\<close> on the rest of a file: \<open>None\<close> is the unexpected end of file.\<close>

definition read_exact :: "bytes \<Rightarrow> nat \<Rightarrow> (bytes \<times> bytes) option" where
  "read_exact f n = (if n \<le> length f then Some (take n f, drop n f) else None)"

lemma read_exact_append [simp]: "length xs = n \<Longrightarrow> read_exact (xs @ ys) n = Some (xs, ys)"
  by (simp add: read_exact_def)

lemma read_exact_Some: "read_exact f n = Some (x, y) \<Longrightarrow> f = x @ y \<and> length x = n"
  by (auto simp: read_exact_def split: if_splits)

definition open_append :: "u64 \<Rightarrow> wal_dir \<Rightarrow> wal_dir" where
  "open_append n dir = (case map_of dir n of Some _ \<Rightarrow> dir | None \<Rightarrow> bt_insert n [] dir)"

definition append_file :: "u64 \<Rightarrow> bytes \<Rightarrow> wal_dir \<Rightarrow> wal_dir" where
  "append_file n bs dir =
     bt_insert n ((case map_of dir n of Some c \<Rightarrow> c | None \<Rightarrow> []) @ bs) dir"

function recover_lsn_from :: "bytes \<Rightarrow> u64 \<Rightarrow> u64" where
  "recover_lsn_from f max_lsn =
     (case read_exact f 24 of
        None \<Rightarrow> max_lsn
      | Some (header, f') \<Rightarrow>
          let length = unat (word_le (take 4 (drop 8 header)) :: u32);
              lsn = word_le (take 8 (drop 12 header));
              max_lsn' = (if lsn > max_lsn then lsn else max_lsn)
          in if length > 0
             then (case read_exact f' length of
                     None \<Rightarrow> max_lsn'
                   | Some (_, f'') \<Rightarrow> recover_lsn_from f'' max_lsn')
             else recover_lsn_from f' max_lsn')"
  by pat_completeness auto
termination
  by (relation "measure (\<lambda>(f, _). length f)") (auto dest!: read_exact_Some)

declare recover_lsn_from.simps [simp del]

definition find_highest_segment :: "wal_dir \<Rightarrow> u64 \<times> u64" where
  "find_highest_segment dir =
     (let (max_seg, max_lsn) =
        fold (\<lambda>(num, content) (max_seg, max_lsn).
                (if num > max_seg then num else max_seg,
                 let lsn = recover_lsn_from content 0
                 in if lsn > max_lsn then lsn else max_lsn)) dir (0, 0)
      in if max_seg = 0 then (1, 0) else (max_seg, max_lsn))"

definition wal_open :: "wal_dir \<Rightarrow> fsync_policy \<Rightarrow> wal_writer" where
  "wal_open dir policy =
     (let (seg_num, max_lsn) = find_highest_segment dir;
          dir' = open_append seg_num dir
      in \<lparr>ww_dir = dir', ww_seg = seg_num,
          ww_offset = of_nat (length (the (map_of dir' seg_num))),
          ww_lsn = max_lsn, ww_policy = policy\<rparr>)"

definition wal_header :: "u32 \<Rightarrow> u32 \<Rightarrow> lsn \<Rightarrow> wal_record_type \<Rightarrow> bytes" where
  "wal_header checksum payload_len l ty =
     le_word WAL_MAGIC @ le_word checksum @ le_word payload_len @ le_word l @
     le_word (wal_type_to_u16 ty) @ le_word (0 :: u16)"

text \<open>The LSN is consumed even when the record is refused.\<close>

definition wal_append ::
  "(bytes \<Rightarrow> u32) \<Rightarrow> wal_writer \<Rightarrow> wal_record \<Rightarrow> wal_writer \<times> lsn result" where
  "wal_append crc w r =
     (let w1 = w\<lparr>ww_lsn := ww_lsn w + 1\<rparr>;
          lsn = ww_lsn w1;
          payload = encode_payload r;
          payload_len = (of_nat (length payload) :: u32)
      in if payload_len > MAX_PAYLOAD_SIZE
         then (w1, Err (InvalidArgument ''WAL record payload too large''))
         else
           (w1\<lparr>ww_dir := append_file (ww_seg w)
                 (wal_header (crc payload) payload_len lsn (wr_type r) @ payload) (ww_dir w),
               ww_offset := ww_offset w + 24 + ucast payload_len\<rparr>, Ok lsn))"

text \<open>Flushing and syncing move no byte of the model.\<close>

definition wal_flush :: "wal_writer \<Rightarrow> wal_writer" where
  "wal_flush w = w"

definition wal_switch_segment :: "wal_writer \<Rightarrow> wal_writer" where
  "wal_switch_segment w =
     (let n = ww_seg w + 1
      in w\<lparr>ww_seg := n, ww_offset := 0, ww_dir := open_append n (ww_dir w)\<rparr>)"

definition wal_current_lsn :: "wal_writer \<Rightarrow> lsn" where
  "wal_current_lsn w = ww_lsn w"

section \<open>The reader\<close>

record wal_reader =
  rd_dir :: wal_dir
  rd_seg :: u64
  rd_max :: u64
  rd_file :: "bytes option"

definition open_segment :: "wal_reader \<Rightarrow> u64 \<Rightarrow> wal_reader option" where
  "open_segment rd num =
     (case map_of (rd_dir rd) num of
        Some content \<Rightarrow> Some (rd\<lparr>rd_file := Some content\<rparr>)
      | None \<Rightarrow> None)"

definition wal_reader_open :: "wal_dir \<Rightarrow> wal_reader" where
  "wal_reader_open dir =
     (let max_seg = fold (\<lambda>(num, _) m. if num > m then num else m) dir 0;
          max_seg = (if max_seg = 0 then 1 else max_seg);
          reader = \<lparr>rd_dir = dir, rd_seg = 1, rd_max = max_seg, rd_file = None\<rparr>
      in case open_segment reader 1 of
           Some r \<Rightarrow> r
         | None \<Rightarrow> reader\<lparr>rd_dir := bt_insert 1 [] dir, rd_file := Some []\<rparr>)"

text \<open>One record off the open file; the file is left after what was consumed.\<close>

definition wal_read_record ::
  "(bytes \<Rightarrow> u32) \<Rightarrow> bytes \<Rightarrow> bytes \<Rightarrow> bytes \<times> wal_record result" where
  "wal_read_record crc header f =
     (let magic = (word_le (take 4 header) :: u32);
          checksum_val = word_le (take 4 (drop 4 header));
          length = unat (word_le (take 4 (drop 8 header)) :: u32);
          lsn = word_le (take 8 (drop 12 header));
          rtype = word_le (take 2 (drop 20 header))
      in if magic \<noteq> WAL_MAGIC then (f, Err (CorruptData ''WAL invalid magic'')) else
         case wal_type_from_u16 rtype of
           None \<Rightarrow> (f, Err (CorruptData ''WAL invalid record type''))
         | Some record_type \<Rightarrow>
             (case read_exact f length of
                None \<Rightarrow> ([], Err (Io ''failed to fill whole buffer''))
              | Some (payload, f') \<Rightarrow>
                  let actual = crc payload in
                  if actual \<noteq> checksum_val then (f', Err (ChecksumMismatch checksum_val actual))
                  else
                    (f', obind (if length > 0 then decode_payload payload
                                else Ok (0, [], None, 0)) (\<lambda>(tx, key, value, timestamp).
                       Ok \<lparr>wr_lsn = lsn, wr_tx = tx, wr_type = record_type, wr_key = key,
                           wr_value = value, wr_checksum = checksum_val,
                           wr_timestamp = timestamp\<rparr>))))"

function wal_read_next ::
  "(bytes \<Rightarrow> u32) \<Rightarrow> wal_reader \<Rightarrow> wal_reader \<times> wal_record option result" where
  "wal_read_next crc rd =
     (case rd_file rd of
        None \<Rightarrow> (rd, Ok None)
      | Some f \<Rightarrow>
          (case read_exact f 24 of
             Some (header, f') \<Rightarrow>
               let (f'', res) = wal_read_record crc header f'
               in (rd\<lparr>rd_file := Some f''\<rparr>, obind res (\<lambda>r. Ok (Some r)))
           | None \<Rightarrow>
               if rd_seg rd \<ge> rd_max rd then (rd\<lparr>rd_file := None\<rparr>, Ok None)
               else
                 let rd1 = rd\<lparr>rd_seg := rd_seg rd + 1, rd_file := Some []\<rparr>
                 in (case open_segment rd1 (rd_seg rd1) of
                       None \<Rightarrow> (rd1, Err (Io ''No such file or directory''))
                     | Some rd2 \<Rightarrow> wal_read_next crc rd2)))"
  by pat_completeness auto
termination
proof (relation "measure (\<lambda>(_, rd). unat (rd_max rd) - unat (rd_seg rd))", goal_cases)
  case (2 crc rd f rd1 rd2)
  then have "unat (rd_seg rd + 1) = unat (rd_seg rd) + 1"
    by (intro unat_succ_less [of _ "rd_max rd"]) simp
  with 2 show ?case
    by (auto simp: open_segment_def word_less_nat_alt not_le split: option.splits)
qed auto

declare wal_read_next.simps [simp del]


lemma wal_read_record_shrinks: "length (fst (wal_read_record crc header f)) \<le> length f"
  by (auto simp: wal_read_record_def Let_def read_exact_def split: option.split)

lemma wal_read_next_progress:
  "wal_read_next crc rd = (rd', Ok (Some r)) \<Longrightarrow>
   (rd', rd) \<in> measures [\<lambda>rd. unat (rd_max rd) - unat (rd_seg rd), \<lambda>rd. length (the (rd_file rd))]"
proof (induction crc rd rule: wal_read_next.induct)
  case (1 crc rd)
  show ?case
  proof (cases "rd_file rd")
    case None
    with "1.prems" show ?thesis by (simp add: wal_read_next.simps [of crc rd])
  next
    case (Some f)
    show ?thesis
    proof (cases "read_exact f 24")
      case None
      let ?rd1 = "rd\<lparr>rd_seg := rd_seg rd + 1, rd_file := Some []\<rparr>"
      from None Some "1.prems" have lt: "rd_seg rd < rd_max rd"
        by (auto simp: wal_read_next.simps [of crc rd] split: if_splits)
      from None Some "1.prems" lt obtain rd2 where rd2:
        "open_segment ?rd1 (rd_seg ?rd1) = Some rd2" "wal_read_next crc rd2 = (rd', Ok (Some r))"
        by (auto simp: wal_read_next.simps [of crc rd] Let_def split: option.splits if_splits)
      have "(rd', rd2) \<in> measures [\<lambda>rd. unat (rd_max rd) - unat (rd_seg rd), \<lambda>rd. length (the (rd_file rd))]"
        using "1.IH" [OF Some None] lt rd2 by simp
      moreover have "rd_max rd2 = rd_max rd" "unat (rd_seg rd2) = unat (rd_seg rd) + 1"
        using rd2(1) unat_succ_less [OF lt] by (auto simp: open_segment_def split: option.splits)
      ultimately show ?thesis using lt by (auto simp: word_less_nat_alt)
    next
      case (Some hf)
      obtain header f' where hf: "hf = (header, f')" by (cases hf)
      have "length f' < length f" using Some hf by (auto simp: read_exact_def split: if_splits)
      with Some hf \<open>rd_file rd = Some f\<close> "1.prems" wal_read_record_shrinks [of crc header f']
      show ?thesis
        by (auto simp: wal_read_next.simps [of crc rd] outcome_simps split: prod.splits)
    qed
  qed
qed

text \<open>
  The loop \<open>while let Some(record) = reader.read_next()?\<close>, with the body's effect on an
  accumulator as a parameter: \<open>read_from\<close> pushes the record, recovery replays it.
\<close>

function wal_fold ::
  "(bytes \<Rightarrow> u32) \<Rightarrow> ('a \<Rightarrow> wal_record \<Rightarrow> 'a) \<Rightarrow> wal_reader \<Rightarrow> 'a \<Rightarrow> 'a result" where
  "wal_fold crc body rd acc =
     (case wal_read_next crc rd of
        (rd', Ok (Some r)) \<Rightarrow> wal_fold crc body rd' (body acc r)
      | (rd', Ok None) \<Rightarrow> Ok acc
      | (rd', Err e) \<Rightarrow> Err e
      | (rd', Panic) \<Rightarrow> Panic
      | (rd', Deadlock) \<Rightarrow> Deadlock)"
  by pat_completeness auto
termination
proof (relation "inv_image (measures [\<lambda>rd. unat (rd_max rd) - unat (rd_seg rd),
         \<lambda>rd. length (the (rd_file rd))]) (\<lambda>(_, _, rd, _). rd)", goal_cases)
  case 1
  show ?case by simp
qed (auto dest!: wal_read_next_progress [OF sym])

declare wal_fold.simps [simp del]

definition wal_seek :: "wal_reader \<Rightarrow> wal_reader result" where
  "wal_seek rd =
     (case open_segment (rd\<lparr>rd_seg := 1\<rparr>) 1 of
        Some rd' \<Rightarrow> Ok rd'
      | None \<Rightarrow> Err (Io ''No such file or directory''))"

definition wal_read_from :: "(bytes \<Rightarrow> u32) \<Rightarrow> wal_reader \<Rightarrow> lsn \<Rightarrow> wal_record list result" where
  "wal_read_from crc rd lsn =
     obind (wal_seek rd) (\<lambda>rd'. wal_fold crc (\<lambda>records r. records @ [r]) rd' [])"

section \<open>Group commit\<close>

type_synonym group_commit = "wal_record list"

definition gc_submit :: "group_commit \<Rightarrow> wal_record \<Rightarrow> group_commit" where
  "gc_submit pending r = pending @ [r]"

fun wal_append_all ::
  "(bytes \<Rightarrow> u32) \<Rightarrow> wal_writer \<Rightarrow> wal_record list \<Rightarrow> wal_writer \<times> unit result" where
  "wal_append_all crc w [] = (w, Ok ())"
| "wal_append_all crc w (r # rs) =
     (case wal_append crc w r of
        (w', Ok _) \<Rightarrow> wal_append_all crc w' rs
      | (w', Err e) \<Rightarrow> (w', Err e)
      | (w', Panic) \<Rightarrow> (w', Panic)
      | (w', Deadlock) \<Rightarrow> (w', Deadlock))"

definition gc_run_once ::
  "(bytes \<Rightarrow> u32) \<Rightarrow> group_commit \<Rightarrow> wal_writer \<Rightarrow> group_commit \<times> wal_writer \<times> unit result" where
  "gc_run_once crc pending w =
     (if pending = [] then (pending, w, Ok ())
      else
        let batch = sort_key wr_lsn pending;
            (w', res) = wal_append_all crc w batch
        in ([], if res = Ok () then wal_flush w' else w', res))"


text \<open>
  The commit loop: \<open>arrivals\<close> are the records submitted during each sleep, until the
  shutdown flag is seen; an error ends the loop.
\<close>

fun wal_group_commit_loop ::
  "(bytes \<Rightarrow> u32) \<Rightarrow> wal_record list list \<Rightarrow> group_commit \<Rightarrow> wal_writer \<Rightarrow>
   group_commit \<times> wal_writer \<times> unit result" where
  "wal_group_commit_loop crc [] pending w = gc_run_once crc pending w"
| "wal_group_commit_loop crc (arrived # rest) pending w =
     (case gc_run_once crc (foldl gc_submit pending arrived) w of
        (pending', w', Ok _) \<Rightarrow> wal_group_commit_loop crc rest pending' w'
      | r \<Rightarrow> r)"

end
