(* ===== verification/Wal_Log.thy ===== *)
theory Wal_Log
  imports Wal
begin

text \<open>
  What the log promises: a directory written by \<open>WalWriter\<close> is the concatenation of
  the frames of its records, segment by segment, and \<open>WalReader\<close> gives back exactly
  those records. The abstract state of a log is the list of the records of each segment.
\<close>

section \<open>Frames\<close>

definition stamp :: "(bytes \<Rightarrow> u32) \<Rightarrow> lsn \<Rightarrow> wal_record \<Rightarrow> wal_record" where
  "stamp crc l r = r\<lparr>wr_lsn := l, wr_checksum := crc (encode_payload r),
     wr_value := stored_value (wr_value r)\<rparr>"

definition wal_frame :: "(bytes \<Rightarrow> u32) \<Rightarrow> wal_record \<Rightarrow> bytes" where
  "wal_frame crc r =
     wal_header (crc (encode_payload r)) (of_nat (length (encode_payload r))) (wr_lsn r) (wr_type r)
       @ encode_payload r"

definition wal_frames :: "(bytes \<Rightarrow> u32) \<Rightarrow> wal_record list \<Rightarrow> bytes" where
  "wal_frames crc rs = concat (map (wal_frame crc) rs)"

definition stored_record :: "(bytes \<Rightarrow> u32) \<Rightarrow> wal_record \<Rightarrow> bool" where
  "stored_record crc r \<longleftrightarrow> length (encode_payload r) \<le> 65535 \<and>
     wr_checksum r = crc (encode_payload r) \<and> stored_value (wr_value r) = wr_value r"

lemma wal_frames_simps [simp]:
  "wal_frames crc [] = []"
  "wal_frames crc (r # rs) = wal_frame crc r @ wal_frames crc rs"
  "wal_frames crc (rs @ rs') = wal_frames crc rs @ wal_frames crc rs'"
  by (simp_all add: wal_frames_def)

lemma stored_value_idem [simp]: "stored_value (stored_value v) = stored_value v"
  by (simp add: stored_value_def)

lemma encode_payload_stamp [simp]: "encode_payload (stamp crc l r) = encode_payload r"
  by (auto simp: encode_payload_def stamp_def stored_value_def)

lemma wr_lsn_stamp [simp]: "wr_lsn (stamp crc l r) = l"
  by (simp add: stamp_def)

lemma stored_record_stamp:
  "length (encode_payload r) \<le> 65535 \<Longrightarrow> stored_record crc (stamp crc l r)"
  by (simp add: stored_record_def) (simp add: stamp_def)

lemma length_wal_header [simp]: "length (wal_header c n l ty) = 24"
  by (simp add: wal_header_def)

lemma length_wal_frame: "length (wal_frame crc r) = 24 + length (encode_payload r)"
  by (simp add: wal_frame_def)

text \<open>The fields of a header, at their offsets.\<close>

lemma wal_header_fields [simp]:
  "word_le (take 4 (wal_header c n l ty)) = WAL_MAGIC"
  "word_le (take 4 (drop 4 (wal_header c n l ty))) = c"
  "word_le (take 4 (drop 8 (wal_header c n l ty))) = n"
  "word_le (take 8 (drop 12 (wal_header c n l ty))) = l"
  "word_le (take 2 (drop 20 (wal_header c n l ty))) = wal_type_to_u16 ty"
proof -
  have take_pre: "take k (xs @ ys) = xs" if "length xs = k" for xs ys :: bytes and k
    using that by simp
  have drop_pre: "drop k (xs @ ys) = ys" if "length xs = k" for xs ys :: bytes and k
    using that by simp
  let ?m = "le_word WAL_MAGIC" and ?c = "le_word c" and ?n = "le_word n" and ?l = "le_word l"
    and ?t = "le_word (wal_type_to_u16 ty)" and ?z = "le_word (0 :: u16)"
  have h: "wal_header c n l ty = ?m @ ?c @ ?n @ ?l @ ?t @ ?z" by (simp add: wal_header_def)
  have d4: "drop 4 (wal_header c n l ty) = ?c @ ?n @ ?l @ ?t @ ?z"
    unfolding h by (rule drop_pre) simp
  have d8: "drop 8 (wal_header c n l ty) = ?n @ ?l @ ?t @ ?z"
    using drop_pre [of "?m @ ?c" 8] unfolding h by simp
  have d12: "drop 12 (wal_header c n l ty) = ?l @ ?t @ ?z"
    using drop_pre [of "?m @ ?c @ ?n" 12] unfolding h by simp
  have d20: "drop 20 (wal_header c n l ty) = ?t @ ?z"
    using drop_pre [of "?m @ ?c @ ?n @ ?l" 20] unfolding h by simp
  show "word_le (take 4 (wal_header c n l ty)) = WAL_MAGIC"
    unfolding h by (simp add: take_pre)
  show "word_le (take 4 (drop 4 (wal_header c n l ty))) = c"
    unfolding d4 by (simp add: take_pre)
  show "word_le (take 4 (drop 8 (wal_header c n l ty))) = n"
    unfolding d8 by (simp add: take_pre)
  show "word_le (take 8 (drop 12 (wal_header c n l ty))) = l"
    unfolding d12 by (simp add: take_pre)
  show "word_le (take 2 (drop 20 (wal_header c n l ty))) = wal_type_to_u16 ty"
    unfolding d20 by (simp add: take_pre)
qed

lemma wal_read_record_frame:
  assumes "stored_record crc r"
  shows "wal_read_record crc
      (wal_header (crc (encode_payload r)) (of_nat (length (encode_payload r))) (wr_lsn r) (wr_type r))
      (encode_payload r @ rest) = (rest, Ok r)"
proof -
  have len: "length (encode_payload r) \<le> 65535" "0 < length (encode_payload r)"
    using assms by (simp_all add: stored_record_def length_encode_payload)
  then have dec: "decode_payload (encode_payload r) = Ok (wr_tx r, wr_key r, wr_value r, wr_timestamp r)"
    using assms decode_encode_payload [of r] by (simp add: stored_record_def)
  have "unat (of_nat (length (encode_payload r)) :: u32) = length (encode_payload r)"
    using len by simp
  then show ?thesis
    using assms len by (simp add: wal_read_record_def Let_def dec stored_record_def)
qed

lemma wal_read_next_frame:
  assumes "stored_record crc r" and "rd_file rd = Some (wal_frame crc r @ rest)"
  shows "wal_read_next crc rd = (rd\<lparr>rd_file := Some rest\<rparr>, Ok (Some r))"
  using assms wal_read_record_frame [OF assms(1), of rest]
  by (simp add: wal_read_next.simps [of crc rd] wal_frame_def)

lemma wal_fold_frames:
  assumes "\<forall>r \<in> set rs. stored_record crc r" and "rd_file rd = Some (wal_frames crc rs @ rest)"
  shows "wal_fold crc body rd acc =
    wal_fold crc body (rd\<lparr>rd_file := Some rest\<rparr>) (foldl body acc rs)"
  using assms
proof (induction rs arbitrary: rd acc)
  case Nil
  then have "rd\<lparr>rd_file := Some rest\<rparr> = rd" by (cases rd) simp
  then show ?case by simp
next
  case (Cons r rs)
  have "wal_read_next crc rd = (rd\<lparr>rd_file := Some (wal_frames crc rs @ rest)\<rparr>, Ok (Some r))"
    using Cons.prems by (intro wal_read_next_frame) simp_all
  then have "wal_fold crc body rd acc =
      wal_fold crc body (rd\<lparr>rd_file := Some (wal_frames crc rs @ rest)\<rparr>) (body acc r)"
    by (simp add: wal_fold.simps [of crc body rd])
  also have "\<dots> = wal_fold crc body (rd\<lparr>rd_file := Some rest\<rparr>) (foldl body (body acc r) rs)"
    using Cons.IH [of "rd\<lparr>rd_file := Some (wal_frames crc rs @ rest)\<rparr>" "body acc r"] Cons.prems
    by simp
  finally show ?case by simp
qed


section \<open>Segments\<close>

definition seg_map :: "(bytes \<Rightarrow> u32) \<Rightarrow> wal_record list list \<Rightarrow> u64 \<Rightarrow> bytes option" where
  "seg_map crc segs n =
     (if 1 \<le> unat n \<and> unat n \<le> length segs
      then Some (wal_frames crc (segs ! (unat n - 1))) else None)"

definition log_dir :: "(bytes \<Rightarrow> u32) \<Rightarrow> wal_dir \<Rightarrow> wal_record list list \<Rightarrow> bool" where
  "log_dir crc dir segs \<longleftrightarrow> bt_wf dir \<and> map_of dir = seg_map crc segs \<and> segs \<noteq> [] \<and>
     length segs < 2 ^ 64 \<and> (\<forall>r \<in> set (concat segs). stored_record crc r \<and> 0 < wr_lsn r) \<and>
     sorted_wrt (<) (map wr_lsn (concat segs))"

definition wal_inv :: "(bytes \<Rightarrow> u32) \<Rightarrow> wal_writer \<Rightarrow> wal_record list list \<Rightarrow> bool" where
  "wal_inv crc w segs \<longleftrightarrow> log_dir crc (ww_dir w) segs \<and> ww_seg w = of_nat (length segs) \<and>
     (\<forall>r \<in> set (concat segs). wr_lsn r \<le> ww_lsn w)"

lemma log_dir_lookup:
  assumes "log_dir crc dir segs" and "i < length segs"
  shows "map_of dir (of_nat (Suc i)) = Some (wal_frames crc (segs ! i))"
proof -
  have "unat (of_nat (Suc i) :: u64) = Suc i"
    using assms by (intro unat_of_nat_u64) (simp add: log_dir_def)
  then show ?thesis using assms by (simp add: log_dir_def seg_map_def del: of_nat_Suc)
qed

lemma log_dir_keys:
  assumes "log_dir crc dir segs"
  shows "fst ` set dir = {n. 1 \<le> unat n \<and> unat n \<le> length segs}"
proof -
  have "fst ` set dir = dom (map_of dir)" by (simp add: dom_map_of_conv_image_fst)
  also have "\<dots> = {n. 1 \<le> unat n \<and> unat n \<le> length segs}"
    using assms by (auto simp: log_dir_def seg_map_def split: if_splits)
  finally show ?thesis .
qed

text \<open>Running maxima over a list, as the directory scans compute them.\<close>

lemma fold_max_eqI:
  fixes M :: "'a::linorder"
  assumes "M \<in> insert m (set xs)" and "m \<le> M" and "\<forall>x \<in> set xs. x \<le> M"
  shows "fold max xs m = M"
  using assms
proof (induction xs arbitrary: m)
  case Nil
  then show ?case by simp
next
  case (Cons x xs)
  then have "fold max xs (max x m) = M" by (intro Cons.IH) (auto simp: max_def)
  then show ?case by simp
qed

lemma fold_max_seg:
  "fold (\<lambda>(num, _) m. if num > m then num else m) dir (m :: 'a::linorder) = fold max (map fst dir) m"
proof (induction dir arbitrary: m)
  case Nil
  then show ?case by simp
next
  case (Cons d dir)
  obtain num c where "d = (num, c)" by (cases d)
  moreover have "max num m = (if m < num then num else m)" by (auto simp: max_def)
  ultimately show ?case by (simp add: Cons.IH)
qed

lemma log_dir_max_seg:
  assumes "log_dir crc dir segs"
  shows "fold max (map fst dir) 0 = of_nat (length segs)"
proof (rule fold_max_eqI)
  have n: "unat (of_nat (length segs) :: u64) = length segs"
    using assms by (intro unat_of_nat_u64) (simp add: log_dir_def)
  have "1 \<le> length segs" using assms by (cases segs) (auto simp: log_dir_def)
  then show "of_nat (length segs) \<in> insert 0 (set (map fst dir))"
    using log_dir_keys [OF assms] n by simp
  show "\<forall>x \<in> set (map fst dir). x \<le> of_nat (length segs)"
    using log_dir_keys [OF assms] n by (simp add: word_le_nat_alt)
qed simp

lemma log_dir_nonzero:
  assumes "log_dir crc dir segs"
  shows "(of_nat (length segs) :: u64) \<noteq> 0"
proof -
  have "unat (of_nat (length segs) :: u64) = length segs"
    using assms by (intro unat_of_nat_u64) (simp add: log_dir_def)
  moreover have "length segs \<noteq> 0" using assms by (simp add: log_dir_def)
  ultimately show ?thesis by (metis unat_0)
qed

section \<open>Reading a log back\<close>

text \<open>
  A reader at the end of segment \<open>i\<close> reads the remaining segments in order. The last
  segment may end in bytes \<open>t\<close> that are not a whole frame (an append cut short).
\<close>

lemma wal_fold_segments:
  assumes "\<forall>j. i \<le> j \<longrightarrow> j < length segs \<longrightarrow> map_of (rd_dir rd) (of_nat (Suc j)) =
      Some (wal_frames crc (segs ! j) @ (if Suc j = length segs then t else []))"
    and "\<forall>r \<in> set (concat segs). stored_record crc r" and "length segs < 2 ^ 64"
    and "rd_max rd = of_nat (length segs)" and "rd_seg rd = of_nat i"
    and "i < length segs" and "rd_file rd = Some []"
  shows "wal_fold crc body rd acc =
    wal_fold crc body (rd\<lparr>rd_seg := of_nat (length segs), rd_file := Some t\<rparr>)
      (foldl body acc (concat (drop i segs)))"
  using assms
proof (induction "length segs - i" arbitrary: rd i acc)
  case 0
  then show ?case by simp
next
  case (Suc n)
  let ?seg = "segs ! i" and ?i = "of_nat (Suc i) :: u64"
  let ?t = "if Suc i = length segs then t else []"
  let ?rd' = "rd\<lparr>rd_seg := ?i, rd_file := Some (wal_frames crc ?seg @ ?t)\<rparr>"
  have i: "i < length segs" using Suc by simp
  have drop: "drop i segs = ?seg # drop (Suc i) segs" using i by (simp add: Cons_nth_drop_Suc)
  have look: "map_of (rd_dir rd) ?i = Some (wal_frames crc ?seg @ ?t)"
    using Suc.prems(1) i by blast
  have "rd_seg rd < rd_max rd"
    using i Suc.prems(3-5) by (simp add: word_less_nat_alt)
  then have "\<not> rd_max rd \<le> rd_seg rd" by simp
  then have next_eq: "wal_read_next crc rd = wal_read_next crc ?rd'"
    using Suc.prems look
    by (simp add: wal_read_next.simps [of crc rd] read_exact_def open_segment_def Let_def add.commute)
  have "wal_fold crc body rd acc = wal_fold crc body ?rd' acc"
    by (simp only: wal_fold.simps [of crc body rd acc] wal_fold.simps [of crc body ?rd' acc] next_eq)
  also have "\<dots> = wal_fold crc body (?rd'\<lparr>rd_file := Some ?t\<rparr>) (foldl body acc ?seg)"
  proof (rule wal_fold_frames)
    show "\<forall>r \<in> set ?seg. stored_record crc r"
      using Suc.prems(2) i by auto
  qed simp
  also have "\<dots> = wal_fold crc body (rd\<lparr>rd_seg := of_nat (length segs), rd_file := Some t\<rparr>)
      (foldl body acc (concat (drop i segs)))"
  proof (cases "Suc i = length segs")
    case True
    then show ?thesis by (simp add: drop)
  next
    case False
    then have "Suc i < length segs" using i by simp
    with False Suc.hyps(1) [of "Suc i" "?rd'\<lparr>rd_file := Some []\<rparr>"] Suc.hyps(2) Suc.prems
    show ?thesis by (simp add: drop del: of_nat_Suc)
  qed
  finally show ?case .
qed

text \<open>The contents of a log directory whose last segment ends in \<open>t\<close>.\<close>

definition torn_dir :: "(bytes \<Rightarrow> u32) \<Rightarrow> wal_dir \<Rightarrow> wal_record list list \<Rightarrow> bytes \<Rightarrow> bool" where
  "torn_dir crc dir segs t \<longleftrightarrow>
     (\<exists>d. log_dir crc d segs \<and> dir = append_file (of_nat (length segs)) t d)"

lemma torn_dir_lookup:
  assumes "log_dir crc d segs" and "j < length segs"
  shows "map_of (append_file (of_nat (length segs)) t d) (of_nat (Suc j)) =
    Some (wal_frames crc (segs ! j) @ (if Suc j = length segs then t else []))"
proof -
  have u: "unat (of_nat (Suc j) :: u64) = Suc j" "unat (of_nat (length segs) :: u64) = length segs"
    using assms by (auto simp: log_dir_def simp del: of_nat_Suc intro!: unat_of_nat_u64)
  then have "(of_nat (Suc j) :: u64) = of_nat (length segs) \<longleftrightarrow> Suc j = length segs"
    by metis
  then show ?thesis
    using log_dir_lookup [OF assms] by (auto simp: append_file_def simp del: of_nat_Suc)
qed

lemma fst_set_append_file:
  assumes "log_dir crc d segs"
  shows "fst ` set (append_file (of_nat (length segs)) t d) = fst ` set d"
proof -
  have "of_nat (length segs) \<in> fst ` set d"
  proof -
    have "unat (of_nat (length segs) :: u64) = length segs"
      using assms by (intro unat_of_nat_u64) (simp add: log_dir_def)
    moreover have "length segs \<noteq> 0" using assms by (simp add: log_dir_def)
    ultimately show ?thesis using log_dir_keys [OF assms] by (simp add: Suc_le_eq)
  qed
  then show ?thesis by (auto simp: append_file_def fst_set_bt_insert)
qed

lemma torn_dir_max_seg:
  assumes "torn_dir crc dir segs t"
  shows "fold max (map fst dir) 0 = (of_nat (length segs) :: u64)"
proof (rule fold_max_eqI)
  obtain d where d: "log_dir crc d segs" and dir: "dir = append_file (of_nat (length segs)) t d"
    using assms by (auto simp: torn_dir_def)
  have u: "unat (of_nat (length segs) :: u64) = length segs"
    using d by (intro unat_of_nat_u64) (simp add: log_dir_def)
  have "1 \<le> length segs" using d by (cases segs) (auto simp: log_dir_def)
  then show "of_nat (length segs) \<in> insert 0 (set (map fst dir))"
    using log_dir_keys [OF d] u by (simp add: dir fst_set_append_file [OF d])
  show "\<forall>x \<in> set (map fst dir). x \<le> of_nat (length segs)"
    using log_dir_keys [OF d] u by (simp add: dir fst_set_append_file [OF d] word_le_nat_alt)
qed simp

lemma wal_fold_torn:
  assumes "torn_dir crc dir segs t"
  shows "wal_fold crc body (wal_reader_open dir) acc =
    wal_fold crc body \<lparr>rd_dir = dir, rd_seg = of_nat (length segs),
        rd_max = of_nat (length segs), rd_file = Some t\<rparr> (foldl body acc (concat segs))"
proof -
  obtain d where d: "log_dir crc d segs" and dir: "dir = append_file (of_nat (length segs)) t d"
    using assms by (auto simp: torn_dir_def)
  have st: "\<forall>r \<in> set (concat segs). stored_record crc r" and len: "length segs < 2 ^ 64"
    and ne: "segs \<noteq> []"
    using d by (auto simp: log_dir_def)
  have st0: "\<forall>r \<in> set (segs ! 0). stored_record crc r"
    using st ne nth_mem [of 0 segs] by auto
  define t0 where "t0 = (if Suc 0 = length segs then t else [])"
  let ?rd = "\<lparr>rd_dir = dir, rd_seg = 1, rd_max = of_nat (length segs),
    rd_file = Some (wal_frames crc (segs ! 0) @ t0)\<rparr>"
  have one: "map_of dir 1 = Some (wal_frames crc (segs ! 0) @ t0)"
    using torn_dir_lookup [OF d, of 0 t] ne dir by (simp add: t0_def)
  have "fold max (map fst dir) 0 = (of_nat (length segs) :: u64)"
    by (rule torn_dir_max_seg [OF assms])
  then have "wal_reader_open dir = ?rd"
    using log_dir_nonzero [OF d]
    by (simp add: wal_reader_open_def fold_max_seg open_segment_def one Let_def)
  then have "wal_fold crc body (wal_reader_open dir) acc =
      wal_fold crc body (?rd\<lparr>rd_file := Some t0\<rparr>) (foldl body acc (segs ! 0))"
    using wal_fold_frames [OF st0, of ?rd t0] by simp
  also have "\<dots> = wal_fold crc body \<lparr>rd_dir = dir, rd_seg = of_nat (length segs),
      rd_max = of_nat (length segs), rd_file = Some t\<rparr>
      (foldl body (foldl body acc (segs ! 0)) (concat (drop 1 segs)))"
  proof (cases "Suc 0 = length segs")
    case True
    then show ?thesis by (simp add: t0_def True [symmetric])
  next
    case False
    with ne have "1 < length segs" by (cases segs) auto
    with False show ?thesis
      using wal_fold_segments [of 1 segs "?rd\<lparr>rd_file := Some []\<rparr>" crc t body
          "foldl body acc (segs ! 0)"] torn_dir_lookup [OF d] st len
      by (simp add: dir t0_def)
  qed
  also have "foldl body (foldl body acc (segs ! 0)) (concat (drop 1 segs)) =
      foldl body acc (concat segs)"
    using ne by (cases segs) simp_all
  finally show ?thesis .
qed

lemma torn_dir_Nil: "log_dir crc dir segs \<Longrightarrow> torn_dir crc dir segs []"
proof -
  assume d: "log_dir crc dir segs"
  have "map_of dir (of_nat (length segs)) = Some (wal_frames crc (last segs))"
    using log_dir_lookup [OF d, of "length segs - 1"] d
    by (simp add: log_dir_def last_conv_nth del: of_nat_Suc of_nat_diff)
  then have "append_file (of_nat (length segs)) [] dir = dir"
    using d by (intro bt_map_of_inject) (auto simp: append_file_def log_dir_def fun_eq_iff)
  with d show ?thesis unfolding torn_dir_def by metis
qed

text \<open>Fewer than 24 trailing bytes count as the end of the log.\<close>

lemma wal_fold_short_tail:
  assumes "torn_dir crc dir segs t" and "length t < 24"
  shows "wal_fold crc body (wal_reader_open dir) acc = Ok (foldl body acc (concat segs))"
  using assms(2)
  by (simp add: wal_fold_torn [OF assms(1)] wal_fold.simps [of crc body "\<lparr>rd_dir = _, rd_seg = _, rd_max = _, rd_file = Some t\<rparr>"]
      wal_read_next.simps [of crc "\<lparr>rd_dir = _, rd_seg = _, rd_max = _, rd_file = Some t\<rparr>"] read_exact_def)

lemma wal_fold_log:
  assumes "log_dir crc dir segs"
  shows "wal_fold crc body (wal_reader_open dir) acc = Ok (foldl body acc (concat segs))"
  using wal_fold_short_tail [OF torn_dir_Nil [OF assms]] by simp

text \<open>A frame with a whole header but a cut payload stops the reader with an error.\<close>

lemma wal_fold_cut_payload:
  assumes torn: "torn_dir crc dir segs (take k (wal_frame crc r))" and st: "stored_record crc r"
    and k: "24 \<le> k" "k < length (wal_frame crc r)"
  shows "wal_fold crc body (wal_reader_open dir) acc = Err (Io ''failed to fill whole buffer'')"
proof -
  let ?n = "length (encode_payload r)"
  let ?h = "wal_header (crc (encode_payload r)) (of_nat ?n) (wr_lsn r) (wr_type r)"
  let ?rd = "\<lparr>rd_dir = dir, rd_seg = of_nat (length segs), rd_max = of_nat (length segs),
    rd_file = Some (?h @ take (k - 24) (encode_payload r))\<rparr>"
  have n: "?n \<le> 65535" "unat (of_nat ?n :: u32) = ?n"
    using st by (simp_all add: stored_record_def)
  have kn: "k - 24 < ?n" using k by (simp add: length_wal_frame)
  have t: "take k (wal_frame crc r) = ?h @ take (k - 24) (encode_payload r)"
    using k by (simp add: wal_frame_def)
  have "wal_read_record crc ?h (take (k - 24) (encode_payload r)) =
      ([], Err (Io ''failed to fill whole buffer''))"
    using k n kn by (simp add: wal_read_record_def Let_def read_exact_def)
  then have "snd (wal_read_next crc ?rd) = Err (Io ''failed to fill whole buffer'')"
    by (simp add: wal_read_next.simps [of crc ?rd])
  then obtain rd' where "wal_read_next crc ?rd = (rd', Err (Io ''failed to fill whole buffer''))"
    by (metis prod.collapse)
  then have "wal_fold crc body ?rd acc' = Err (Io ''failed to fill whole buffer'')" for acc'
    by (simp add: wal_fold.simps [of crc body ?rd])
  then show ?thesis
    by (simp add: wal_fold_torn [OF torn] t)
qed

section \<open>The writer keeps the log\<close>

lemma seg_map_append_file:
  assumes "segs \<noteq> []" and "length segs < 2 ^ 64"
  shows "(seg_map crc segs)(of_nat (length segs) \<mapsto>
            wal_frames crc (last segs) @ wal_frames crc rs) =
         seg_map crc (butlast segs @ [last segs @ rs])"
proof
  fix n :: u64
  have u: "unat (of_nat (length segs) :: u64) = length segs" using assms(2) by simp
  have l: "length (butlast segs @ [last segs @ rs]) = length segs" using assms(1) by simp
  show "((seg_map crc segs)(of_nat (length segs) \<mapsto>
            wal_frames crc (last segs) @ wal_frames crc rs)) n =
         seg_map crc (butlast segs @ [last segs @ rs]) n"
  proof (cases "n = of_nat (length segs)")
    case True
    then show ?thesis using u l assms by (simp add: seg_map_def nth_append Suc_le_eq)
  next
    case False
    then have "unat n \<noteq> length segs" using u by (metis word_unat_eq_iff)
    then show ?thesis
      using False l assms by (auto simp: seg_map_def nth_append nth_butlast)
  qed
qed

lemma seg_map_new_segment:
  assumes "length segs + 1 < 2 ^ 64"
  shows "(seg_map crc segs)(of_nat (length segs + 1) \<mapsto> []) = seg_map crc (segs @ [[]])"
proof
  fix n :: u64
  have u: "unat (of_nat (length segs + 1) :: u64) = length segs + 1"
    using assms by (rule unat_of_nat_u64)
  show "((seg_map crc segs)(of_nat (length segs + 1) \<mapsto> [])) n = seg_map crc (segs @ [[]]) n"
  proof (cases "n = of_nat (length segs + 1)")
    case True
    then show ?thesis using u by (simp add: seg_map_def nth_append del: of_nat_add)
  next
    case False
    then have "unat n \<noteq> length segs + 1" using u by (metis word_unat_eq_iff)
    then show ?thesis using False by (auto simp: seg_map_def nth_append)
  qed
qed

lemma log_dir_last:
  assumes "log_dir crc dir segs"
  shows "map_of dir (of_nat (length segs)) = Some (wal_frames crc (last segs))"
proof -
  have "segs \<noteq> []" using assms by (simp add: log_dir_def)
  then have "length segs - 1 < length segs" "Suc (length segs - 1) = length segs"
    "segs ! (length segs - 1) = last segs"
    by (simp_all add: last_conv_nth)
  then show ?thesis using log_dir_lookup [OF assms, of "length segs - 1"] by (simp only:)
qed

lemma concat_butlast_last:
  "segs \<noteq> [] \<Longrightarrow> concat (butlast segs @ [last segs @ rs]) = concat segs @ rs"
  by (metis append.assoc append_butlast_last_id concat.simps concat_append append_Nil2)

text \<open>A refused record leaves every file alone; an accepted one is the last of the log.\<close>

lemma wal_append_refused:
  assumes "65535 < length (encode_payload r)" and "length (encode_payload r) < 2 ^ 32"
  shows "wal_append crc w r =
    (w\<lparr>ww_lsn := ww_lsn w + 1\<rparr>, Err (InvalidArgument ''WAL record payload too large''))"
  using assms by (simp add: wal_append_def MAX_PAYLOAD_SIZE_def Let_def word_less_nat_alt)

lemma wal_append_accepted:
  assumes "length (encode_payload r) \<le> 65535"
  shows "snd (wal_append crc w r) = Ok (ww_lsn w + 1)"
    and "ww_lsn (fst (wal_append crc w r)) = ww_lsn w + 1"
    and "ww_seg (fst (wal_append crc w r)) = ww_seg w"
    and "ww_dir (fst (wal_append crc w r)) =
      append_file (ww_seg w) (wal_frame crc (stamp crc (ww_lsn w + 1) r)) (ww_dir w)"
proof -
  have "\<not> (of_nat (length (encode_payload r)) :: u32) > MAX_PAYLOAD_SIZE"
    using assms by (simp add: MAX_PAYLOAD_SIZE_def word_less_nat_alt)
  then show "snd (wal_append crc w r) = Ok (ww_lsn w + 1)"
    "ww_lsn (fst (wal_append crc w r)) = ww_lsn w + 1"
    "ww_seg (fst (wal_append crc w r)) = ww_seg w"
    "ww_dir (fst (wal_append crc w r)) =
      append_file (ww_seg w) (wal_frame crc (stamp crc (ww_lsn w + 1) r)) (ww_dir w)"
    by (simp_all add: wal_append_def Let_def wal_frame_def) (simp add: stamp_def)
qed

lemma wal_append_inv:
  assumes inv: "wal_inv crc w segs" and len: "length (encode_payload r) \<le> 65535"
    and lsn: "unat (ww_lsn w) + 1 < 2 ^ 64"
  shows "wal_inv crc (fst (wal_append crc w r))
           (butlast segs @ [last segs @ [stamp crc (ww_lsn w + 1) r]])"
proof -
  let ?r = "stamp crc (ww_lsn w + 1) r" and ?w = "fst (wal_append crc w r)"
  let ?segs = "butlast segs @ [last segs @ [?r]]"
  have d: "log_dir crc (ww_dir w) segs" and ne: "segs \<noteq> []" and seg: "ww_seg w = of_nat (length segs)"
    and bound: "length segs < 2 ^ 64"
    using inv by (auto simp: wal_inv_def log_dir_def)
  have u: "unat (ww_lsn w + 1) = unat (ww_lsn w) + 1" using lsn by (intro unat_add1) simp
  have c: "concat ?segs = concat segs @ [?r]" using ne by (rule concat_butlast_last)
  have dir: "ww_dir ?w = bt_insert (of_nat (length segs))
      (wal_frames crc (last segs) @ wal_frames crc [?r]) (ww_dir w)"
    using log_dir_last [OF d] seg by (simp add: wal_append_accepted(4) [OF len] append_file_def)
  have "log_dir crc (ww_dir ?w) ?segs"
    unfolding log_dir_def c dir
    using d ne bound seg_map_append_file [OF ne bound, of crc "[?r]"] u inv
      stored_record_stamp [OF len]
    by (auto simp: log_dir_def wal_inv_def sorted_wrt_append word_less_nat_alt word_le_nat_alt
        le_imp_less_Suc unat_gt_0)
  moreover have "\<forall>x \<in> set (concat segs @ [?r]). wr_lsn x \<le> ww_lsn w + 1"
    using inv u by (auto simp: wal_inv_def word_le_nat_alt le_SucI)
  ultimately show ?thesis
    unfolding wal_inv_def c using wal_append_accepted(2,3) [OF len] seg ne by simp
qed

lemma wal_switch_inv:
  assumes "wal_inv crc w segs" and "length segs + 1 < 2 ^ 64"
  shows "wal_inv crc (wal_switch_segment w) (segs @ [[]])"
proof -
  have d: "log_dir crc (ww_dir w) segs" and seg: "ww_seg w = of_nat (length segs)"
    using assms(1) by (auto simp: wal_inv_def)
  have s: "ww_seg w + 1 = of_nat (length segs + 1)" using seg by simp
  have u: "unat (of_nat (length segs + 1) :: u64) = length segs + 1"
    using assms(2) by (rule unat_of_nat_u64)
  have none: "map_of (ww_dir w) (of_nat (length segs + 1)) = None"
    using d u by (simp add: log_dir_def seg_map_def del: of_nat_add)
  have "ww_dir (wal_switch_segment w) = bt_insert (of_nat (length segs + 1)) [] (ww_dir w)"
    using none by (simp add: wal_switch_segment_def open_append_def Let_def s del: of_nat_add)
  then have "log_dir crc (ww_dir (wal_switch_segment w)) (segs @ [[]])"
    using d assms(2) seg_map_new_segment [OF assms(2), of crc]
    by (simp add: log_dir_def del: of_nat_add)
  then show ?thesis
    using assms(1) s by (simp add: wal_inv_def wal_switch_segment_def Let_def add.commute)
qed

lemma wal_open_fresh: "wal_inv crc (wal_open [] policy) [[]]"
  by (auto simp: wal_inv_def log_dir_def wal_open_def find_highest_segment_def open_append_def
      seg_map_def Let_def fun_eq_iff word_unat_eq_iff le_Suc_eq)


section \<open>Recovering the last LSN\<close>

lemma recover_lsn_frames:
  assumes "\<forall>r \<in> set rs. stored_record crc r"
  shows "recover_lsn_from (wal_frames crc rs) m = fold max (map wr_lsn rs) m"
  using assms
proof (induction rs arbitrary: m)
  case Nil
  then show ?case by (simp add: recover_lsn_from.simps read_exact_def)
next
  case (Cons r rs)
  let ?n = "length (encode_payload r)"
  have "?n \<le> 65535" using Cons.prems by (simp add: stored_record_def)
  then have n: "unat (of_nat ?n :: u32) = ?n" "0 < ?n"
    by (simp, simp add: length_encode_payload)
  have m: "max (wr_lsn r) m = (if wr_lsn r > m then wr_lsn r else m)" by (auto simp: max_def)
  have "recover_lsn_from (wal_frames crc (r # rs)) m =
      recover_lsn_from (wal_frames crc rs) (max (wr_lsn r) m)"
    using n by (subst recover_lsn_from.simps) (simp add: wal_frame_def Let_def m)
  then show ?case using Cons by simp
qed

text \<open>Fewer than 24 trailing bytes do not change what is recovered.\<close>

lemma recover_lsn_frames_tail:
  assumes "\<forall>r \<in> set rs. stored_record crc r" and "length t < 24"
  shows "recover_lsn_from (wal_frames crc rs @ t) m = recover_lsn_from (wal_frames crc rs) m"
  using assms(1)
proof (induction rs arbitrary: m)
  case Nil
  then show ?case using assms(2) by (simp add: recover_lsn_from.simps read_exact_def)
next
  case (Cons r rs)
  let ?n = "length (encode_payload r)"
  have "?n \<le> 65535" using Cons.prems by (simp add: stored_record_def)
  then have n: "unat (of_nat ?n :: u32) = ?n" "0 < ?n"
    by (simp, simp add: length_encode_payload)
  have "\<exists>m'. recover_lsn_from (wal_frames crc (r # rs) @ x) m = recover_lsn_from (wal_frames crc rs @ x) m'
      \<and> m' = (if wr_lsn r > m then wr_lsn r else m)" for x
    using n by (subst recover_lsn_from.simps) (simp add: wal_frame_def Let_def)
  from this [of t] this [of "[]"] show ?case using Cons by auto
qed

lemma fold_max_pair:
  "fold (\<lambda>(num, c) (a, b). (if num > a then num else a, if g c > b then g c else b)) d
     ((a :: 'a::linorder), (b :: 'b::linorder)) =
   (fold max (map fst d) a, fold max (map (\<lambda>x. g (snd x)) d) b)"
proof (induction d arbitrary: a b)
  case Nil
  then show ?case by simp
next
  case (Cons x d)
  obtain num c where "x = (num, c)" by (cases x)
  moreover have "max num a = (if a < num then num else a)" "max (g c) b = (if b < g c then g c else b)"
    by (auto simp: max_def)
  ultimately show ?case by (simp add: Cons.IH)
qed

lemma fold_max_le: "(m :: 'a::linorder) \<le> M \<Longrightarrow> \<forall>x \<in> set xs. x \<le> M \<Longrightarrow> fold max xs m \<le> M"
  by (induction xs arbitrary: m) auto

lemma fold_max_ge_init: "(m :: 'a::linorder) \<le> fold max xs m"
  by (induction xs arbitrary: m) (auto intro: order_trans [OF max.cobounded2])

lemma fold_max_ge: "x \<in> set xs \<Longrightarrow> (x :: 'a::linorder) \<le> fold max xs m"
  by (induction xs arbitrary: m) (auto intro: order_trans [OF max.cobounded1 fold_max_ge_init])

lemma sorted_le_last: "sorted xs \<Longrightarrow> x \<in> set xs \<Longrightarrow> x \<le> last xs"
  by (induction xs) auto

lemma wal_open_log:
  assumes d: "log_dir crc dir segs"
  shows "ww_dir (wal_open dir p) = dir" and "ww_seg (wal_open dir p) = of_nat (length segs)"
    and "ww_lsn (wal_open dir p) = (if concat segs = [] then 0 else wr_lsn (last (concat segs)))"
proof -
  let ?M = "if concat segs = [] then 0 else wr_lsn (last (concat segs))"
  let ?rec = "\<lambda>x. recover_lsn_from (snd x) 0"
  have st: "\<forall>r \<in> set rs. stored_record crc r" if "rs \<in> set segs" for rs
    using d that by (auto simp: log_dir_def)
  have content: "\<exists>rs \<in> set segs. snd x = wal_frames crc rs" if "x \<in> set dir" for x
  proof -
    have "map_of dir (fst x) = Some (snd x)"
      using d that by (intro map_of_is_SomeI) (simp_all add: log_dir_def bt_wf_distinct)
    then show ?thesis
      using d by (auto simp: log_dir_def seg_map_def split: if_splits
          intro!: bexI [where x = "segs ! (unat (fst x) - 1)"] nth_mem)
  qed
  have le: "wr_lsn r \<le> ?M" if r: "r \<in> set (concat segs)" for r
  proof -
    have "sorted (map wr_lsn (concat segs))"
      using d by (simp add: log_dir_def strict_sorted_imp_sorted)
    then have "wr_lsn r \<le> last (map wr_lsn (concat segs))"
      using r by (intro sorted_le_last) (simp_all only: set_map image_eqI)
    moreover have "concat segs \<noteq> []" using r by (metis empty_iff list.set(1))
    ultimately show ?thesis by (simp only: last_map if_False not_False_eq_True)
  qed
  have "fold max (map ?rec dir) 0 = ?M"
  proof (rule antisym)
    have "?rec x \<le> ?M" if "x \<in> set dir" for x
    proof -
      obtain rs where rs: "rs \<in> set segs" "snd x = wal_frames crc rs" using content \<open>x \<in> set dir\<close> by blast
      have "\<forall>r \<in> set rs. wr_lsn r \<le> ?M" using rs(1) le by (metis UN_I set_concat)
      then have "fold max (map wr_lsn rs) 0 \<le> ?M" by (intro fold_max_le) (simp, simp only: set_map ball_simps)
      then show ?thesis by (simp only: rs(2) recover_lsn_frames [OF st [OF rs(1)]])
    qed
    then show "fold max (map ?rec dir) 0 \<le> ?M" by (intro fold_max_le) auto
    show "?M \<le> fold max (map ?rec dir) 0"
    proof (cases "concat segs = []")
      case False
      then have "last (concat segs) \<in> set (concat segs)" by (rule last_in_set)
      then obtain rs where "rs \<in> set segs" "last (concat segs) \<in> set rs" by (metis UN_E set_concat)
      then obtain i where i: "i < length segs" "last (concat segs) \<in> set (segs ! i)"
        by (metis in_set_conv_nth)
      have "(of_nat (Suc i), wal_frames crc (segs ! i)) \<in> set dir"
        using log_dir_lookup [OF d i(1)] by (rule map_of_SomeD)
      then have "?rec (of_nat (Suc i) :: u64, wal_frames crc (segs ! i)) \<le> fold max (map ?rec dir) 0"
        using imageI [of _ "set dir" ?rec] by (intro fold_max_ge) (simp only: set_map)
      moreover have "wr_lsn (last (concat segs)) \<le> ?rec (of_nat (Suc i) :: u64, wal_frames crc (segs ! i))"
        using i by (simp add: recover_lsn_frames [OF st] fold_max_ge)
      ultimately show ?thesis using False by (simp only: if_False)
    qed simp
  qed
  then show "ww_dir (wal_open dir p) = dir" "ww_seg (wal_open dir p) = of_nat (length segs)"
    "ww_lsn (wal_open dir p) = ?M"
    using log_dir_max_seg [OF d] log_dir_nonzero [OF d] log_dir_last [OF d]
    by (simp_all only: wal_open_def find_highest_segment_def Let_def fold_max_pair open_append_def
        prod.case if_False option.case wal_writer.simps)
qed

text \<open>Opening a directory whose last append was cut short.\<close>

lemma wal_open_torn_dir:
  assumes "torn_dir crc dir segs t"
  shows "ww_dir (wal_open dir p) = dir"
proof -
  obtain d where d: "log_dir crc d segs" and dir: "dir = append_file (of_nat (length segs)) t d"
    using assms by (auto simp: torn_dir_def)
  have "map_of dir (of_nat (length segs)) \<noteq> None" by (simp add: dir append_file_def)
  then show ?thesis
    using torn_dir_max_seg [OF assms] log_dir_nonzero [OF d]
    by (auto simp: wal_open_def find_highest_segment_def Let_def fold_max_pair open_append_def
        split: prod.splits if_splits)
qed

lemma fold_max_cong_set:
  fixes m :: "'a::linorder"
  assumes "set xs = set ys"
  shows "fold max xs m = fold max ys m"
  using assms Max.set_eq_fold [of m xs] Max.set_eq_fold [of m ys] by simp

lemma torn_dir_recover:
  assumes d: "log_dir crc d segs" and t: "length t < 24"
  shows "(\<lambda>x. recover_lsn_from (snd x) 0) ` set (append_file (of_nat (length segs)) t d) =
    (\<lambda>x. recover_lsn_from (snd x) 0) ` set d" (is "?rec ` set ?dir = _")
proof -
  have n: "unat (of_nat (length segs) :: u64) = length segs" "1 \<le> length segs"
    using d by (auto simp: log_dir_def Suc_le_eq intro!: unat_of_nat_u64)
  have img: "?rec ` set e = (\<lambda>k. recover_lsn_from (the (map_of e k)) 0) ` (fst ` set e)"
    if "bt_wf e" for e :: wal_dir
  proof -
    have "map_of e (fst x) = Some (snd x)" if "x \<in> set e" for x
      using that bt_wf_distinct [OF \<open>bt_wf e\<close>] by (intro map_of_is_SomeI) simp_all
    then show ?thesis by (force simp: image_image)
  qed
  have eq: "recover_lsn_from (the (map_of ?dir k)) 0 = recover_lsn_from (the (map_of d k)) 0"
    if "k \<in> fst ` set d" for k
  proof -
    have k: "1 \<le> unat k" "unat k \<le> length segs" using log_dir_keys [OF d] that by auto
    define j where "j = unat k - 1"
    have j: "j < length segs" "k = of_nat (Suc j)" using k by (simp_all add: j_def)
    have "\<forall>r \<in> set (segs ! j). stored_record crc r" using d j(1) by (auto simp: log_dir_def)
    then show ?thesis
      using torn_dir_lookup [OF d j(1), of t] log_dir_lookup [OF d j(1)] recover_lsn_frames_tail [OF _ t]
      by (simp add: j(2) del: of_nat_Suc)
  qed
  have "bt_wf ?dir" "bt_wf d" using d by (simp_all add: append_file_def log_dir_def)
  then show ?thesis using img eq by (simp add: fst_set_append_file [OF d])
qed

lemma wal_open_torn_lsn:
  assumes "torn_dir crc dir segs t" and "length t < 24"
  shows "ww_lsn (wal_open dir p) = (if concat segs = [] then 0 else wr_lsn (last (concat segs)))"
proof -
  obtain d where d: "log_dir crc d segs" and dir: "dir = append_file (of_nat (length segs)) t d"
    using assms by (auto simp: torn_dir_def)
  have lsn: "ww_lsn (wal_open e p) = fold max (map (\<lambda>x. recover_lsn_from (snd x) 0) e) 0"
    if "torn_dir crc e segs t'" for e t'
    using torn_dir_max_seg [OF that] log_dir_nonzero [OF d]
    by (simp add: wal_open_def find_highest_segment_def Let_def fold_max_pair split: prod.split)
  have "ww_lsn (wal_open dir p) = ww_lsn (wal_open d p)"
    unfolding lsn [OF assms(1)] lsn [OF torn_dir_Nil [OF d]]
    by (intro fold_max_cong_set) (simp add: dir torn_dir_recover [OF d assms(2)])
  then show ?thesis by (simp add: wal_open_log(3) [OF d])
qed

lemma wal_reopen_inv:
  assumes "log_dir crc dir segs"
  shows "wal_inv crc (wal_open dir p) segs"
proof -
  have "sorted (map wr_lsn (concat segs))"
    using assms by (simp add: log_dir_def strict_sorted_imp_sorted)
  then have "\<forall>r \<in> set (concat segs). wr_lsn r \<le> wr_lsn (last (concat segs))"
    using sorted_le_last [of "map wr_lsn (concat segs)"]
    by (metis (no_types, lifting) empty_iff image_eqI last_map list.set(1) list.set_map)
  then show ?thesis
    using assms wal_open_log [OF assms, of p]
    by (cases "concat segs = []") (simp_all only: wal_inv_def list.set ball_simps if_True if_False simp_thms)
qed


section \<open>Batches\<close>

fun stamps :: "(bytes \<Rightarrow> u32) \<Rightarrow> lsn \<Rightarrow> wal_record list \<Rightarrow> wal_record list" where
  "stamps crc l [] = []"
| "stamps crc l (r # rs) = stamp crc (l + 1) r # stamps crc (l + 1) rs"

lemma wal_append_all_inv:
  assumes "wal_inv crc w segs" and "\<forall>r \<in> set rs. length (encode_payload r) \<le> 65535"
    and "unat (ww_lsn w) + length rs < 2 ^ 64"
  shows "snd (wal_append_all crc w rs) = Ok () \<and>
    wal_inv crc (fst (wal_append_all crc w rs))
      (butlast segs @ [last segs @ stamps crc (ww_lsn w) rs])"
  using assms
proof (induction rs arbitrary: w segs)
  case Nil
  then have "segs \<noteq> []" by (simp add: wal_inv_def log_dir_def)
  with Nil show ?case by simp
next
  case (Cons r rs)
  let ?w = "fst (wal_append crc w r)"
  let ?segs = "butlast segs @ [last segs @ [stamp crc (ww_lsn w + 1) r]]"
  have r: "length (encode_payload r) \<le> 65535" using Cons.prems by simp
  have u: "unat (ww_lsn w + 1) = unat (ww_lsn w) + 1"
    using Cons.prems(3) by (intro unat_add1) simp
  have inv: "wal_inv crc ?w ?segs"
    using Cons.prems by (intro wal_append_inv r) simp_all
  have lsn: "unat (ww_lsn ?w) + length rs < 2 ^ 64"
    using Cons.prems(3) u by (simp add: wal_append_accepted(2) [OF r])
  have step: "wal_append_all crc w (r # rs) = wal_append_all crc ?w rs"
    using wal_append_accepted(1) [OF r, of crc w] by (cases "wal_append crc w r") simp
  show ?case
    using Cons.IH [OF inv _ lsn] Cons.prems(2)
    by (simp only: step wal_append_accepted(2) [OF r]) simp
qed

lemma gc_run_once_submission_order:
  assumes "wal_inv crc w segs" and "\<forall>r \<in> set pending. length (encode_payload r) \<le> 65535 \<and> wr_lsn r = 0"
    and "unat (ww_lsn w) + length pending < 2 ^ 64"
  shows "\<exists>w'. gc_run_once crc pending w = ([], w', Ok ()) \<and>
    wal_inv crc w' (butlast segs @ [last segs @ stamps crc (ww_lsn w) pending])"
proof -
  have "sort_key wr_lsn pending = pending"
    using assms(2) by (intro sort_key_id_if_sorted) (auto simp: sorted_wrt_iff_nth_less)
  moreover obtain w' res where "wal_append_all crc w pending = (w', res)" by (cases "wal_append_all crc w pending")
  moreover have "segs \<noteq> []" using assms(1) by (simp add: wal_inv_def log_dir_def)
  ultimately show ?thesis
    using wal_append_all_inv [OF assms(1) _ assms(3)] assms by (auto simp: gc_run_once_def wal_flush_def)
qed

section \<open>Properties of the log\<close>

lemma wal_seek_open:
  assumes "log_dir crc dir segs"
  shows "wal_seek (wal_reader_open dir) = Ok (wal_reader_open dir)"
proof -
  have "0 < length segs" using assms by (simp add: log_dir_def)
  from log_dir_lookup [OF assms this]
  show ?thesis by (simp add: wal_seek_def wal_reader_open_def open_segment_def Let_def)
qed

lemma wal_read_from_log:
  assumes "log_dir crc dir segs"
  shows "wal_read_from crc (wal_reader_open dir) l = Ok (concat segs)"
proof -
  have "foldl (\<lambda>rs r. rs @ [r]) acc xs = acc @ xs" for acc xs :: "wal_record list"
    by (induction xs arbitrary: acc) simp_all
  then show ?thesis
    by (simp add: wal_read_from_def wal_seek_open [OF assms] wal_fold_log [OF assms])
qed



text \<open>Restart continues the sequence: after reopening a log, the next record gets a sequence
  number above every one already in the log, and the log with it is again well formed.\<close>

theorem wal_restart_continues:
  assumes "log_dir crc dir segs" and "length (encode_payload r) \<le> 65535"
    and "unat (ww_lsn (wal_open dir p)) + 1 < 2 ^ 64"
  shows "\<exists>w' l. wal_append crc (wal_open dir p) r = (w', Ok l) \<and> (\<forall>x \<in> set (concat segs). wr_lsn x < l) \<and>
    wal_read_from crc (wal_reader_open (ww_dir w')) 0 = Ok (concat segs @ [stamp crc l r])"
proof -
  let ?w = "wal_open dir p"
  have inv: "wal_inv crc ?w segs" by (rule wal_reopen_inv [OF assms(1)])
  have ne: "segs \<noteq> []" using assms(1) by (simp add: log_dir_def)
  have "unat (ww_lsn ?w + 1) = unat (ww_lsn ?w) + 1" using assms(3) by (intro unat_add1) simp
  then have "\<forall>x \<in> set (concat segs). wr_lsn x < ww_lsn ?w + 1"
    using inv by (auto simp: wal_inv_def word_less_nat_alt word_le_nat_alt le_imp_less_Suc)
  moreover have "wal_read_from crc (wal_reader_open (ww_dir (fst (wal_append crc ?w r)))) 0 =
      Ok (concat segs @ [stamp crc (ww_lsn ?w + 1) r])"
    using wal_append_inv [OF inv assms(2,3)] concat_butlast_last [OF ne, of "[stamp crc (ww_lsn ?w + 1) r]"]
      wal_read_from_log [of crc "ww_dir (fst (wal_append crc ?w r))"]
    by (auto simp: wal_inv_def)
  ultimately show ?thesis
    using wal_append_accepted(1) [OF assms(2), of crc ?w] by (cases "wal_append crc ?w r") auto
qed

theorem wal_restart_continues_witness:
  "\<exists>w' l. wal_append (\<lambda>_. 7) (wal_open [(1, [])] EveryWrite) (make_record 5 WalDelete 0 [1] None) = (w', Ok l)"
proof -
  have "ww_dir (wal_open [] EveryWrite) = [(1, [])]" "ww_lsn (wal_open [(1, [])] EveryWrite) = 0"
    by (simp_all add: wal_open_def find_highest_segment_def open_append_def Let_def
        recover_lsn_from.simps read_exact_def)
  then show ?thesis
    using wal_restart_continues [of "\<lambda>_. 7" "[(1, [])]" "[[]]" "make_record 5 WalDelete 0 [1] None" EveryWrite]
      wal_open_fresh [of "\<lambda>_. 7" EveryWrite]
    by (auto simp: wal_inv_def length_encode_payload make_record_def)
qed

lemma stamps_append: "stamps crc l (rs @ rs') = stamps crc l rs @ stamps crc (l + of_nat (length rs)) rs'"
  by (induction rs arbitrary: l) (simp_all add: add.assoc)

lemma foldl_gc_submit: "foldl gc_submit pending rs = pending @ rs"
  by (induction rs arbitrary: pending) (simp_all add: gc_submit_def)

lemma gc_run_once_lsn:
  assumes "wal_inv crc w segs" and "\<forall>r \<in> set pending. length (encode_payload r) \<le> 65535 \<and> wr_lsn r = 0"
    and "unat (ww_lsn w) + length pending < 2 ^ 64"
  shows "\<exists>w'. gc_run_once crc pending w = ([], w', Ok ()) \<and> ww_lsn w' = ww_lsn w + of_nat (length pending) \<and>
    wal_inv crc w' (butlast segs @ [last segs @ stamps crc (ww_lsn w) pending])"
proof -
  have "ww_lsn (fst (wal_append_all crc w rs)) = ww_lsn w + of_nat (length rs)"
    if "\<forall>r \<in> set rs. length (encode_payload r) \<le> 65535" for w rs
    using that
  proof (induction rs arbitrary: w)
    case (Cons r rs)
    then show ?case
      using wal_append_accepted(1,2) [of r crc w] by (cases "wal_append crc w r") (simp add: add.assoc)
  qed simp
  moreover have "sort_key wr_lsn pending = pending"
    using assms(2) by (intro sort_key_id_if_sorted) (auto simp: sorted_wrt_iff_nth_less)
  moreover obtain w' where "gc_run_once crc pending w = ([], w', Ok ())"
    "wal_inv crc w' (butlast segs @ [last segs @ stamps crc (ww_lsn w) pending])"
    using gc_run_once_submission_order [OF assms] by blast
  ultimately show ?thesis
    using assms(2) by (auto simp: gc_run_once_def wal_flush_def split: if_splits prod.splits) (metis fst_conv)
qed

text \<open>Group commit keeps the submission order and loses nothing: over any number of rounds
  of the commit loop, the records submitted with sequence number zero are logged exactly once,
  in the order they were submitted, consecutively numbered, and nothing stays pending.\<close>

theorem group_commit_order:
  assumes "wal_inv crc w segs" and "\<forall>r \<in> set (concat arrivals). length (encode_payload r) \<le> 65535 \<and> wr_lsn r = 0"
    and "unat (ww_lsn w) + length (concat arrivals) < 2 ^ 64"
  shows "\<exists>w'. wal_group_commit_loop crc arrivals [] w = ([], w', Ok ()) \<and>
    wal_read_from crc (wal_reader_open (ww_dir w')) l =
      Ok (concat segs @ stamps crc (ww_lsn w) (concat arrivals))"
  using assms
proof (induction arrivals arbitrary: w segs)
  case Nil
  then show ?case
    using wal_read_from_log [of crc "ww_dir w"] by (auto simp: gc_run_once_def wal_inv_def)
next
  case (Cons rs arrivals)
  obtain w' where w': "gc_run_once crc rs w = ([], w', Ok ())" "ww_lsn w' = ww_lsn w + of_nat (length rs)"
    "wal_inv crc w' (butlast segs @ [last segs @ stamps crc (ww_lsn w) rs])"
    using gc_run_once_lsn [OF Cons.prems(1), of rs] Cons.prems(2,3) by auto
  have "segs \<noteq> []" using Cons.prems(1) by (simp add: wal_inv_def log_dir_def)
  then have c: "concat (butlast segs @ [last segs @ stamps crc (ww_lsn w) rs]) = concat segs @ stamps crc (ww_lsn w) rs"
    by (rule concat_butlast_last)
  have "unat (ww_lsn w') = unat (ww_lsn w) + length rs"
    using Cons.prems(3) by (simp add: w'(2) unat_word_ariths unat_of_nat)
  then have "\<exists>w''. wal_group_commit_loop crc arrivals [] w' = ([], w'', Ok ()) \<and>
      wal_read_from crc (wal_reader_open (ww_dir w'')) l =
        Ok (concat (butlast segs @ [last segs @ stamps crc (ww_lsn w) rs]) @
            stamps crc (ww_lsn w') (concat arrivals))"
    using Cons.prems(2,3) by (intro Cons.IH [OF w'(3)]) auto
  then show ?case unfolding c by (simp add: foldl_gc_submit w'(1,2) stamps_append)
qed

theorem group_commit_order_witness:
  "\<exists>w'. wal_group_commit_loop (\<lambda>_. 0) [[make_record 1 WalInsert 0 [2] None], [],
       [make_record 1 WalInsert 0 [1] None]] [] (wal_open [] EveryWrite) = ([], w', Ok ())"
  using group_commit_order [OF wal_open_fresh [of _ EveryWrite], where arrivals = "[[make_record 1 WalInsert 0 [2] None], [],
      [make_record 1 WalInsert 0 [1] None]]" and crc = "\<lambda>_. 0"]
  by (auto simp: length_encode_payload make_record_def wal_open_def find_highest_segment_def Let_def)

text \<open>Decoding a log payload never panics on any bytes, and a payload written by the
  encoder decodes to the same transaction, key, value and time; the one exception is that an
  empty value comes back as no value.\<close>

theorem wal_payload_codec:
  "returns (decode_payload data) \<and>
   (length (encode_payload r) < 2 ^ 32 \<longrightarrow>
      decode_payload (encode_payload r) =
        Ok (wr_tx r, wr_key r, if wr_value r = Some [] then None else wr_value r, wr_timestamp r))"
  using decode_encode_payload [of r] decode_payload_no_panic [of data]
  by (simp add: returns_def stored_value_def)

theorem wal_payload_codec_witness:
  "decode_payload (encode_payload (make_record 3 WalInsert 9 [1, 2] (Some [4]))) =
     Ok (9, [1, 2], Some [4], 3)"
  using wal_payload_codec [of "[]" "make_record 3 WalInsert 9 [1, 2] (Some [4])"]
  by (simp add: length_encode_payload make_record_def)

end
