(* ===== verification/Lsm.thy ===== *)
theory Lsm
  imports Core_Types Ordered_Map
begin

unbundle bit_operations_syntax

text \<open>
  The in-memory half of \<open>nova-storage/src/lsm.rs\<close>: the memtable with its tombstones and
  size accounting, and the bloom filter with its byte format. \<open>xxh\<close> stands for the
  external hash \<open>xxh3_64\<close>.
\<close>

section \<open>MemTable\<close>

record memtable_entry =
  me_value :: val
  me_flags :: u8

record memtable =
  mt_data :: "(bytes, memtable_entry) btmap"
  mt_size :: nat
  mt_immutable :: bool

definition mt_new :: memtable where
  "mt_new = \<lparr>mt_data = [], mt_size = 0, mt_immutable = False\<rparr>"

definition is_tombstone :: "memtable_entry \<Rightarrow> bool" where
  "is_tombstone e \<longleftrightarrow> me_flags e AND 1 \<noteq> 0"

definition mt_get :: "memtable \<Rightarrow> key \<Rightarrow> val option" where
  "mt_get mt k =
     (case map_of (mt_data mt) k of
        None \<Rightarrow> None
      | Some e \<Rightarrow> if is_tombstone e then None else Some (me_value e))"

definition mt_get_with_tombstone :: "memtable \<Rightarrow> key \<Rightarrow> val option option" where
  "mt_get_with_tombstone mt k =
     (case map_of (mt_data mt) k of
        None \<Rightarrow> None
      | Some e \<Rightarrow> if is_tombstone e then Some None else Some (Some (me_value e)))"

definition mt_insert :: "memtable \<Rightarrow> key \<Rightarrow> val \<Rightarrow> memtable" where
  "mt_insert mt k v =
     (let size = (case map_of (mt_data mt) k of
                    None \<Rightarrow> mt_size mt + (length k + length v + 8)
                  | Some old \<Rightarrow> (mt_size mt - length (me_value old)) + length v)
      in mt\<lparr>mt_size := size,
            mt_data := bt_insert k \<lparr>me_value = v, me_flags = 0\<rparr> (mt_data mt)\<rparr>)"

definition mt_delete :: "memtable \<Rightarrow> key \<Rightarrow> memtable" where
  "mt_delete mt k =
     (let size = (case map_of (mt_data mt) k of
                    None \<Rightarrow> mt_size mt + (length k + 8)
                  | Some _ \<Rightarrow> mt_size mt)
      in mt\<lparr>mt_size := size,
            mt_data := bt_insert k \<lparr>me_value = [], me_flags = 1\<rparr> (mt_data mt)\<rparr>)"

definition mt_is_empty :: "memtable \<Rightarrow> bool" where
  "mt_is_empty mt \<longleftrightarrow> mt_data mt = []"

definition mt_iter :: "memtable \<Rightarrow> (key \<times> val) list" where
  "mt_iter mt =
     List.map_filter (\<lambda>(k, e). if is_tombstone e then None else Some (k, me_value e)) (mt_data mt)"

definition mt_iter_with_tombstones :: "memtable \<Rightarrow> (key \<times> val option) list" where
  "mt_iter_with_tombstones mt =
     map (\<lambda>(k, e). if is_tombstone e then (k, None) else (k, Some (me_value e))) (mt_data mt)"

definition mt_set_immutable :: "memtable \<Rightarrow> memtable" where
  "mt_set_immutable mt = mt\<lparr>mt_immutable := True\<rparr>"

text \<open>Well-formedness: the data is a \<open>BTreeMap\<close>.\<close>

definition mt_wf :: "memtable \<Rightarrow> bool" where
  "mt_wf mt \<longleftrightarrow> bt_wf (mt_data mt)"

text \<open>The bytes the table really holds: key, value and 8 bytes per entry.\<close>

definition mt_bytes :: "memtable \<Rightarrow> nat" where
  "mt_bytes mt = sum_list (map (\<lambda>(k, e). length k + length (me_value e) + 8) (mt_data mt))"

lemma mt_wf_new [simp]: "mt_wf mt_new"
  by (simp add: mt_wf_def mt_new_def)

lemma mt_wf_insert [simp]: "mt_wf mt \<Longrightarrow> mt_wf (mt_insert mt k v)"
  by (simp add: mt_wf_def mt_insert_def Let_def)

lemma mt_wf_delete [simp]: "mt_wf mt \<Longrightarrow> mt_wf (mt_delete mt k)"
  by (simp add: mt_wf_def mt_delete_def Let_def)

lemma mt_lookup_new [simp]: "mt_get_with_tombstone mt_new = Map.empty"
  by (simp add: mt_get_with_tombstone_def mt_new_def fun_eq_iff)

lemma mt_lookup_insert [simp]:
  "mt_get_with_tombstone (mt_insert mt k v) = (mt_get_with_tombstone mt)(k \<mapsto> Some v)"
  by (simp add: mt_get_with_tombstone_def mt_insert_def Let_def is_tombstone_def fun_eq_iff)

lemma mt_lookup_delete [simp]:
  "mt_get_with_tombstone (mt_delete mt k) = (mt_get_with_tombstone mt)(k \<mapsto> None)"
  by (simp add: mt_get_with_tombstone_def mt_delete_def Let_def is_tombstone_def fun_eq_iff)

lemma mt_get_lookup: "mt_get mt k = Option.bind (mt_get_with_tombstone mt k) (\<lambda>v. v)"
  by (simp add: mt_get_def mt_get_with_tombstone_def split: option.split)

lemma map_fst_iter [simp]: "map fst (mt_iter_with_tombstones mt) = map fst (mt_data mt)"
  by (auto simp: mt_iter_with_tombstones_def)

lemma map_of_iter [simp]: "map_of (mt_iter_with_tombstones mt) = mt_get_with_tombstone mt"
proof
  fix k :: key
  have "map_of (map (\<lambda>(k, e). if is_tombstone e then (k, None) else (k, Some (me_value e))) d) k =
    (case map_of d k of None \<Rightarrow> None
      | Some e \<Rightarrow> if is_tombstone e then Some None else Some (Some (me_value e)))" for d :: "(bytes, memtable_entry) btmap"
    by (induction d) (auto split: if_splits)
  then show "map_of (mt_iter_with_tombstones mt) k = mt_get_with_tombstone mt k"
    by (simp add: mt_iter_with_tombstones_def mt_get_with_tombstone_def)
qed

lemma bt_wf_iter: "mt_wf mt \<Longrightarrow> bt_wf (mt_iter_with_tombstones mt)"
  by (simp add: mt_wf_def bt_wf_def)

text \<open>The size field never falls below the bytes held, so the flush threshold is safe.\<close>

lemma sum_list_bt_insert:
  fixes f :: "'k::linorder \<times> 'v \<Rightarrow> nat"
  assumes "bt_wf m"
  shows "sum_list (map f (bt_insert k v m)) + (case map_of m k of Some v' \<Rightarrow> f (k, v') | None \<Rightarrow> 0) =
    sum_list (map f m) + f (k, v)"
  using assms
proof (induction k v m rule: bt_insert.induct)
  case (1 k v)
  then show ?case by simp
next
  case (2 k v k' v' m)
  then have "k < k' \<Longrightarrow> map_of m k = None" by (force simp: bt_wf_Cons map_of_eq_None_iff)
  with 2 show ?case by (auto simp: bt_wf_Cons split: option.splits)
qed

lemma mt_bytes_old:
  assumes "mt_wf mt" and "map_of (mt_data mt) k = Some old"
  shows "length k + length (me_value old) + 8 \<le> mt_bytes mt"
proof -
  have "(k, old) \<in> set (mt_data mt)" using assms(2) by (rule map_of_SomeD)
  then show ?thesis
    unfolding mt_bytes_def by (metis (mono_tags, lifting) case_prod_conv elem_le_sum_list in_set_conv_nth length_map member_le_sum_list image_eqI list.set_map)
qed

lemma mt_size_insert:
  assumes "mt_wf mt" and "mt_bytes mt \<le> mt_size mt"
  shows "mt_bytes (mt_insert mt k v) \<le> mt_size (mt_insert mt k v)"
  using assms sum_list_bt_insert [of "mt_data mt" "\<lambda>(k, e). length k + length (me_value e) + 8" k
      "\<lparr>me_value = v, me_flags = 0\<rparr>"] mt_bytes_old [OF assms(1), of k]
  by (auto simp: mt_insert_def mt_bytes_def mt_wf_def Let_def split: option.splits)

lemma mt_size_delete:
  assumes "mt_wf mt" and "mt_bytes mt \<le> mt_size mt"
  shows "mt_bytes (mt_delete mt k) \<le> mt_size (mt_delete mt k)"
  using assms sum_list_bt_insert [of "mt_data mt" "\<lambda>(k, e). length k + length (me_value e) + 8" k
      "\<lparr>me_value = [], me_flags = 1\<rparr>"]
  by (auto simp: mt_delete_def mt_bytes_def mt_wf_def Let_def split: option.splits)


section \<open>Bloom filter\<close>

definition DEFAULT_BLOOM_BITS_PER_KEY :: u32 where "DEFAULT_BLOOM_BITS_PER_KEY = 10"

record bloom_filter =
  bf_bits :: "u64 list"
  bf_num_hashes :: u32
  bf_num_bits :: u64
  bf_num_keys :: u32

text \<open>\<open>u64::next_power_of_two\<close>.\<close>

function next_pow2_from :: "nat \<Rightarrow> nat \<Rightarrow> nat" where
  "next_pow2_from p n = (if n \<le> p \<or> p = 0 then p else next_pow2_from (2 * p) n)"
  by pat_completeness auto
termination
  by (relation "measure (\<lambda>(p, n). n - p)") auto

declare next_pow2_from.simps [simp del]

definition next_power_of_two :: "u64 \<Rightarrow> u64" where
  "next_power_of_two n = of_nat (next_pow2_from 1 (unat n))"

text \<open>
  The number of hashes is \<open>((num_bits as f64 / num_keys as f64) * 0.69) as u32\<close>. The exact
  quotient \<open>num_bits * 69 / (num_keys * 100)\<close> is never an integer (\<open>num_bits\<close> is a power of
  two, so 25 does not divide the numerator), and stays at least \<open>1 / (100 * num_keys)\<close>, far
  more than the rounding error of three double operations, away from one: the integer
  division below is the value the code computes.
\<close>

definition bloom_num_hashes :: "u64 \<Rightarrow> u32 \<Rightarrow> u32" where
  "bloom_num_hashes num_bits num_keys =
     of_nat (min 30 (max 1 ((unat num_bits * 69) div (unat num_keys * 100))))"

definition bloom_new :: "u32 \<Rightarrow> u32 \<Rightarrow> bloom_filter" where
  "bloom_new num_keys bits_per_key =
     (let bits_per = (if bits_per_key = 0 then DEFAULT_BLOOM_BITS_PER_KEY else bits_per_key);
          num_keys = max num_keys 1;
          raw_bits = (ucast num_keys :: u64) * ucast bits_per;
          num_bits = (if raw_bits < 64 then 64 else next_power_of_two raw_bits);
          bit_len = unat (max (num_bits div 64) 1)
      in \<lparr>bf_bits = replicate bit_len 0, bf_num_hashes = bloom_num_hashes num_bits num_keys,
          bf_num_bits = num_bits, bf_num_keys = num_keys\<rparr>)"

definition flip_bit :: "bytes \<Rightarrow> bytes" where
  "flip_bit data = map NOT data"

definition bloom_indices :: "(bytes \<Rightarrow> u64) \<Rightarrow> bloom_filter \<Rightarrow> bytes \<Rightarrow> u64 list" where
  "bloom_indices xxh bf key =
     (let h1 = xxh key; h2 = xxh (flip_bit key)
      in map (\<lambda>i. (h1 + of_nat i * h2) mod bf_num_bits bf) [0..<unat (bf_num_hashes bf)])"

definition bloom_set_bit :: "u64 \<Rightarrow> u64 list \<Rightarrow> u64 list" where
  "bloom_set_bit idx bits =
     (let word = unat (idx div 64); b = unat (idx mod 64)
      in if word < length bits then bits[word := bits ! word OR push_bit b 1] else bits)"

definition bloom_test_bit :: "u64 list \<Rightarrow> u64 \<Rightarrow> bool" where
  "bloom_test_bit bits idx \<longleftrightarrow>
     (let word = unat (idx div 64); b = unat (idx mod 64)
      in word < length bits \<and> bits ! word AND push_bit b 1 \<noteq> 0)"

definition bloom_insert :: "(bytes \<Rightarrow> u64) \<Rightarrow> bytes \<Rightarrow> bloom_filter \<Rightarrow> bloom_filter" where
  "bloom_insert xxh key bf =
     bf\<lparr>bf_bits := fold bloom_set_bit (bloom_indices xxh bf key) (bf_bits bf)\<rparr>"

definition bloom_may_contain :: "(bytes \<Rightarrow> u64) \<Rightarrow> bloom_filter \<Rightarrow> bytes \<Rightarrow> bool" where
  "bloom_may_contain xxh bf key \<longleftrightarrow>
     bf_bits bf = [] \<or> bf_num_bits bf = 0 \<or>
     list_all (bloom_test_bit (bf_bits bf)) (bloom_indices xxh bf key)"

text \<open>Every index a filter can compute falls inside its bit array.\<close>

definition bloom_wf :: "bloom_filter \<Rightarrow> bool" where
  "bloom_wf bf \<longleftrightarrow> bf_num_bits bf \<noteq> 0 \<and> unat (bf_num_bits bf) \<le> 64 * length (bf_bits bf)"

lemma length_bloom_set_bit [simp]: "length (bloom_set_bit idx bits) = length bits"
  by (simp add: bloom_set_bit_def Let_def)

lemma length_fold_bloom_set_bit [simp]: "length (fold bloom_set_bit idxs bits) = length bits"
  by (induction idxs arbitrary: bits) simp_all

lemma bloom_test_bit_iff:
  "bloom_test_bit bits idx \<longleftrightarrow>
     unat idx div 64 < length bits \<and> bit (bits ! (unat idx div 64)) (unat idx mod 64)"
  by (simp add: bloom_test_bit_def Let_def bit_iff_and_push_bit_not_eq_0 unat_div_distrib unat_mod_distrib)

lemma bloom_test_set_same:
  "unat idx div 64 < length bits \<Longrightarrow> bloom_test_bit (bloom_set_bit idx bits) idx"
  by (simp add: bloom_test_bit_iff bloom_set_bit_def Let_def unat_div_distrib unat_mod_distrib
      bit_or_iff bit_exp_iff)

lemma bloom_test_set_mono:
  "bloom_test_bit bits idx' \<Longrightarrow> bloom_test_bit (bloom_set_bit idx bits) idx'"
  by (auto simp: bloom_test_bit_iff bloom_set_bit_def Let_def unat_div_distrib unat_mod_distrib
      bit_or_iff nth_list_update)

lemma bloom_test_fold_mono:
  "bloom_test_bit bits idx' \<Longrightarrow> bloom_test_bit (fold bloom_set_bit idxs bits) idx'"
  by (induction idxs arbitrary: bits) (auto intro: bloom_test_set_mono)

lemma bloom_test_fold:
  assumes "idx \<in> set idxs" and "unat idx div 64 < length bits"
  shows "bloom_test_bit (fold bloom_set_bit idxs bits) idx"
  using assms
proof (induction idxs arbitrary: bits)
  case Nil
  then show ?case by simp
next
  case (Cons x xs)
  then show ?case
    by (cases "idx = x") (auto intro: bloom_test_fold_mono bloom_test_set_same)
qed

lemma bloom_index_in_range:
  assumes "bloom_wf bf" and "idx \<in> set (bloom_indices xxh bf key)"
  shows "unat idx div 64 < length (bf_bits bf)"
proof -
  obtain x where "idx = x mod bf_num_bits bf"
    using assms(2) by (auto simp: bloom_indices_def Let_def)
  moreover have "0 < unat (bf_num_bits bf)"
    using assms(1) by (simp add: bloom_wf_def unat_gt_0)
  ultimately have "unat idx < unat (bf_num_bits bf)" by (simp add: unat_mod_distrib)
  also have "\<dots> \<le> 64 * length (bf_bits bf)" using assms(1) by (simp add: bloom_wf_def)
  finally show ?thesis by (simp add: less_mult_imp_div_less mult.commute)
qed

lemma bloom_wf_insert [simp]: "bloom_wf bf \<Longrightarrow> bloom_wf (bloom_insert xxh k bf)"
  by (simp add: bloom_wf_def bloom_insert_def)

lemma bloom_indices_insert [simp]:
  "bloom_indices xxh (bloom_insert xxh k bf) k' = bloom_indices xxh bf k'"
  by (simp add: bloom_indices_def bloom_insert_def)

lemma bloom_contains_inserted:
  assumes "bloom_wf bf"
  shows "bloom_may_contain xxh (bloom_insert xxh k bf) k"
proof -
  have "list_all (bloom_test_bit (bf_bits (bloom_insert xxh k bf))) (bloom_indices xxh bf k)"
    using bloom_index_in_range [OF assms]
    by (auto simp: list_all_iff bloom_insert_def intro: bloom_test_fold)
  then show ?thesis by (simp add: bloom_may_contain_def)
qed

lemma bloom_contains_mono:
  assumes "bloom_wf bf" and "bloom_may_contain xxh bf k"
  shows "bloom_may_contain xxh (bloom_insert xxh k' bf) k"
proof -
  have "bf_bits bf \<noteq> []" using assms(1) by (auto simp: bloom_wf_def unat_eq_zero)
  then have "list_all (bloom_test_bit (bf_bits bf)) (bloom_indices xxh bf k)"
    using assms by (simp add: bloom_may_contain_def bloom_wf_def)
  then have "list_all (bloom_test_bit (bf_bits (bloom_insert xxh k' bf))) (bloom_indices xxh bf k)"
    by (auto simp: list_all_iff bloom_insert_def intro: bloom_test_fold_mono)
  then show ?thesis by (simp add: bloom_may_contain_def)
qed

definition bloom_insert_all :: "(bytes \<Rightarrow> u64) \<Rightarrow> bytes list \<Rightarrow> bloom_filter \<Rightarrow> bloom_filter" where
  "bloom_insert_all xxh keys bf = fold (bloom_insert xxh) keys bf"

lemma bloom_wf_insert_all: "bloom_wf bf \<Longrightarrow> bloom_wf (bloom_insert_all xxh keys bf)"
  unfolding bloom_insert_all_def by (induction keys arbitrary: bf) auto

lemma bloom_insert_all_mono:
  "bloom_wf bf \<Longrightarrow> bloom_may_contain xxh bf k \<Longrightarrow> bloom_may_contain xxh (bloom_insert_all xxh keys bf) k"
  unfolding bloom_insert_all_def
  by (induction keys arbitrary: bf) (simp_all add: bloom_contains_mono)

lemma bloom_insert_all_contains:
  assumes "bloom_wf bf" and "k \<in> set keys"
  shows "bloom_may_contain xxh (bloom_insert_all xxh keys bf) k"
  using assms
proof (induction keys arbitrary: bf)
  case Nil
  then show ?case by simp
next
  case (Cons x xs)
  show ?case
  proof (cases "k = x")
    case True
    then have "bloom_may_contain xxh (bloom_insert_all xxh xs (bloom_insert xxh k bf)) k"
      using Cons.prems(1) by (intro bloom_insert_all_mono bloom_contains_inserted) simp_all
    with True show ?thesis by (simp add: bloom_insert_all_def)
  next
    case False
    with Cons show ?thesis by (simp add: bloom_insert_all_def)
  qed
qed


subsection \<open>Sizing\<close>

lemma next_pow2_from_ge: "0 < p \<Longrightarrow> n \<le> next_pow2_from p n"
proof (induction p n rule: next_pow2_from.induct)
  case (1 p n)
  then show ?case by (cases "n \<le> p") (simp_all add: next_pow2_from.simps [of p n])
qed

lemma next_pow2_from_less: "0 < p \<Longrightarrow> p < 2 * n \<Longrightarrow> next_pow2_from p n < 2 * n"
proof (induction p n rule: next_pow2_from.induct)
  case (1 p n)
  then show ?case by (cases "n \<le> p") (simp_all add: next_pow2_from.simps [of p n])
qed

lemma next_pow2_from_dvd: "p dvd next_pow2_from p n"
proof (induction p n rule: next_pow2_from.induct)
  case (1 p n)
  then show ?case
    by (cases "n \<le> p \<or> p = 0") (auto simp: next_pow2_from.simps [of p n] intro: dvd_mult_left)
qed

lemma next_pow2_64:
  assumes "64 \<le> n"
  shows "64 dvd next_pow2_from 1 n"
proof -
  have "next_pow2_from 1 n = next_pow2_from 64 n"
    using assms by (simp add: next_pow2_from.simps [of "Suc 0"] next_pow2_from.simps [of 2]
        next_pow2_from.simps [of 4] next_pow2_from.simps [of 8] next_pow2_from.simps [of 16]
        next_pow2_from.simps [of 32])
  then show ?thesis using next_pow2_from_dvd [of 64 n] by simp
qed

lemma unat_ucast_32_64 [simp]: "unat (ucast (w :: u32) :: u64) = unat w"
proof -
  have "unat w < 2 ^ 64" using unsigned_less [of w] by (rule less_le_trans) simp
  then show ?thesis using unat_of_nat_u64 [of "unat w"] by simp
qed

lemma bloom_wf_new:
  assumes "unat bits_per_key < 2 ^ 30"
  shows "bloom_wf (bloom_new num_keys bits_per_key)"
proof -
  let ?bp = "if bits_per_key = 0 then DEFAULT_BLOOM_BITS_PER_KEY else bits_per_key"
  let ?nk = "max num_keys 1"
  let ?raw = "(ucast ?nk :: u64) * ucast ?bp"
  let ?nb = "if ?raw < 64 then 64 else next_power_of_two ?raw"
  have bp: "unat ?bp < 2 ^ 30" using assms by (simp add: DEFAULT_BLOOM_BITS_PER_KEY_def)
  have nk: "unat ?nk < 2 ^ 32" using unsigned_less [of ?nk] by simp
  have "unat ?nk * unat ?bp < 2 ^ 32 * 2 ^ 30"
    using bp nk by (intro mult_strict_mono) simp_all
  then have raw: "unat ?raw < 2 ^ 62" by (simp add: unat_word_ariths)
  have nb: "unat ?nb \<noteq> 0 \<and> 64 dvd unat ?nb"
  proof (cases "?raw < 64")
    case True
    then show ?thesis by simp
  next
    case False
    then have ge: "64 \<le> unat ?raw" by (simp add: word_less_nat_alt)
    have "next_pow2_from 1 (unat ?raw) < 2 * unat ?raw"
      using ge by (intro next_pow2_from_less) simp_all
    with raw have "unat (next_power_of_two ?raw) = next_pow2_from 1 (unat ?raw)"
      by (simp add: next_power_of_two_def)
    moreover have "unat ?raw \<le> next_pow2_from 1 (unat ?raw)" by (intro next_pow2_from_ge) simp
    ultimately show ?thesis using False ge next_pow2_64 [OF ge] by simp
  qed
  then have "unat (max (?nb div 64) 1) = unat ?nb div 64"
    by (auto simp: max_def unat_div_distrib word_le_nat_alt elim!: dvdE)
  then show ?thesis
    using nb by (auto simp: bloom_new_def bloom_wf_def Let_def unat_eq_zero elim!: dvdE)
qed

subsection \<open>Byte format\<close>

definition bloom_encode :: "bloom_filter \<Rightarrow> bytes" where
  "bloom_encode bf =
     le_word (bf_num_hashes bf) @ le_word (bf_num_bits bf) @ le_word (bf_num_keys bf) @
     le_word (of_nat (length (bf_bits bf)) :: u32) @ concat (map le_word (bf_bits bf))"

definition bloom_decode :: "bytes \<Rightarrow> bloom_filter result" where
  "bloom_decode data =
     (if length data < 20 then Err (CorruptData ''Bloom filter data too short'') else
      obind (get_u32 data 0) (\<lambda>num_hashes.
      obind (get_u64 data 4) (\<lambda>num_bits.
      obind (get_u32 data 12) (\<lambda>num_keys.
      obind (get_u32 data 16) (\<lambda>n.
      let bit_len = unat n in
      if num_hashes = 0 \<or> num_bits = 0
      then Err (CorruptData ''Bloom filter corrupt: zero hashes/bits'')
      else if bit_len = 0 \<or> bit_len > 1024 * 1024
      then Err (CorruptData ''Bloom filter corrupt: invalid bit_len'')
      else if length data < 20 + bit_len * 8 then Err (CorruptData ''Bloom filter truncated'')
      else obind (get_u64s data 20 bit_len) (\<lambda>bits.
           Ok \<lparr>bf_bits = bits, bf_num_hashes = num_hashes, bf_num_bits = num_bits,
               bf_num_keys = num_keys\<rparr>))))))"

lemma length_concat_le_words [simp]: "length (concat (map le_word (ws :: u64 list))) = 8 * length ws"
  by (induction ws) simp_all

lemma bloom_decode_encode:
  assumes "bf_num_hashes bf \<noteq> 0" and "bf_num_bits bf \<noteq> 0"
    and "bf_bits bf \<noteq> []" and "length (bf_bits bf) \<le> 1024 * 1024"
  shows "bloom_decode (bloom_encode bf) = Ok bf"
proof -
  have n: "unat (of_nat (length (bf_bits bf)) :: u32) = length (bf_bits bf)"
    using assms(4) by simp
  have "get_u64s (bloom_encode bf) 20 (length (bf_bits bf)) = (Ok (bf_bits bf) :: u64 list result)"
    using get_u64s_le_words [of "le_word (bf_num_hashes bf) @ le_word (bf_num_bits bf) @
      le_word (bf_num_keys bf) @ le_word (of_nat (length (bf_bits bf)) :: u32)" 20 "bf_bits bf" "[]"]
    by (simp add: bloom_encode_def)
  then show ?thesis
    using assms n
    by (simp add: bloom_decode_def Let_def) (simp add: bloom_encode_def get_defs slice_simps)
qed

text \<open>The decoder's cap of \<open>1024 * 1024\<close> words refuses filters the encoder writes.\<close>

lemma bloom_decode_refuses_large:
  assumes "bf_num_hashes bf \<noteq> 0" and "bf_num_bits bf \<noteq> 0"
    and "1024 * 1024 < length (bf_bits bf)" and "length (bf_bits bf) < 2 ^ 32"
  shows "bloom_decode (bloom_encode bf) =
    Err (CorruptData ''Bloom filter corrupt: invalid bit_len'')"
  using assms
  by (simp add: bloom_decode_def Let_def) (simp add: bloom_encode_def get_defs slice_simps)

section \<open>Properties of the filter and the memtable\<close>



fun mt_write :: "memtable \<Rightarrow> write_operation \<Rightarrow> memtable" where
  "mt_write mt (WSet k v) = mt_insert mt k v"
| "mt_write mt (WDelete k) = mt_delete mt k"

fun write_layer :: "(key \<Rightarrow> val option option) \<Rightarrow> write_operation \<Rightarrow> key \<Rightarrow> val option option" where
  "write_layer m (WSet k v) = m(k \<mapsto> Some v)"
| "write_layer m (WDelete k) = m(k \<mapsto> None)"

lemma mt_write_layer: "mt_get_with_tombstone (mt_write mt op) = write_layer (mt_get_with_tombstone mt) op"
  by (cases op) simp_all

text \<open>The memtable's size counter never undercounts: over any sequence of inserts and
  deletes on an empty memtable, the bytes it holds (8 per entry plus key and value) stay at
  most the counter that decides when to flush; lookups follow the last write of the key.\<close>

theorem memtable_size_bound:
  "mt_bytes (foldl mt_write mt_new ops) \<le> mt_size (foldl mt_write mt_new ops) \<and>
   mt_get_with_tombstone (foldl mt_write mt_new ops) = foldl write_layer Map.empty ops"
proof -
  have step: "mt_wf (mt_write mt op) \<and> mt_bytes (mt_write mt op) \<le> mt_size (mt_write mt op)"
    if "mt_wf mt" "mt_bytes mt \<le> mt_size mt" for mt op
    using that mt_size_insert [OF that] mt_size_delete [OF that] by (cases op) simp_all
  have "mt_wf (foldl mt_write mt ops) \<and> mt_bytes (foldl mt_write mt ops) \<le> mt_size (foldl mt_write mt ops)"
    if "mt_wf mt" "mt_bytes mt \<le> mt_size mt" for mt
    using that by (induction ops arbitrary: mt) (simp_all add: step)
  moreover have "mt_get_with_tombstone (foldl mt_write mt ops) =
      foldl write_layer (mt_get_with_tombstone mt) ops" for mt
    by (induction ops arbitrary: mt) (simp_all add: mt_write_layer)
  moreover have "mt_bytes mt_new \<le> mt_size mt_new" by (simp add: mt_bytes_def mt_new_def)
  ultimately show ?thesis by simp
qed

end
