(* ===== verification/Sstable.thy ===== *)
theory Sstable
  imports Lsm
begin

text \<open>
  The sorted string table of \<open>nova-storage/src/lsm.rs\<close> down to its bytes: data blocks
  cut at the target size and compressed, the bloom section, the block index and the
  56-byte footer; opening, point lookup and range scan read those bytes back. A file is
  its byte list. \<open>snap\<close> and \<open>unsnap\<close> stand for the snappy codec (\<open>None\<close> is its error),
  \<open>xxh\<close> for \<open>xxh3_64\<close>, \<open>crc\<close> for \<open>crc32c\<close>.
\<close>

section \<open>Block encoding\<close>

definition SSTABLE_MAGIC :: u32 where "SSTABLE_MAGIC = 0x53535442"

definition SSTABLE_VERSION :: u32 where "SSTABLE_VERSION = 1"

definition DATA_BLOCK_TARGET_SIZE :: nat where "DATA_BLOCK_TARGET_SIZE = 64 * 1024"

type_synonym block_entry = "bytes \<times> bytes option"

definition encode_block_entry :: "block_entry \<Rightarrow> bytes" where
  "encode_block_entry e =
     (case e of (key, value_opt) \<Rightarrow>
        le_word (of_nat (length key) :: u32) @ key @
        (case value_opt of
           Some value \<Rightarrow> le_word (of_nat (length value) :: u32) @ value
         | None \<Rightarrow> le_word (-1 :: u32)))"

definition compress_block_with_tombstones ::
  "(bytes \<Rightarrow> bytes option) \<Rightarrow> block_entry list \<Rightarrow> bytes result" where
  "compress_block_with_tombstones snap entries =
     (case snap (concat (map encode_block_entry entries)) of
        Some c \<Rightarrow> Ok c
      | None \<Rightarrow> Err (Io ''snappy: compress''))"

text \<open>The decoding loop stops silently at the first entry that does not fit.\<close>

function decode_block_entries :: "bytes \<Rightarrow> nat \<Rightarrow> block_entry list" where
  "decode_block_entries raw off =
     (if off < length raw \<and> off + 4 \<le> length raw then
        let key_len = unat (word_le (take 4 (drop off raw)) :: u32); off1 = off + 4 in
        if off1 + key_len > length raw then [] else
        let key = take key_len (drop off1 raw); off2 = off1 + key_len in
        if off2 + 4 > length raw then [] else
        let val_len_raw = (word_le (take 4 (drop off2 raw)) :: u32); off3 = off2 + 4 in
        if val_len_raw = -1 then (key, None) # decode_block_entries raw off3 else
        let val_len = unat val_len_raw in
        if off3 + val_len > length raw then [] else
        (key, Some (take val_len (drop off3 raw))) # decode_block_entries raw (off3 + val_len)
      else [])"
  by pat_completeness auto
termination
  by (relation "measure (\<lambda>(raw, off). length raw - off)") auto

declare decode_block_entries.simps [simp del]

definition decompress_block_with_tombstones ::
  "(bytes \<Rightarrow> bytes option) \<Rightarrow> bytes \<Rightarrow> block_entry list result" where
  "decompress_block_with_tombstones unsnap data =
     (case unsnap data of
        Some raw \<Rightarrow> Ok (decode_block_entries raw 0)
      | None \<Rightarrow> Err (Io ''snappy: corrupt input''))"

definition entry_fits :: "block_entry \<Rightarrow> bool" where
  "entry_fits e \<longleftrightarrow> length (fst e) < 2 ^ 32 \<and>
     (case snd e of Some v \<Rightarrow> length v < 2 ^ 32 - 1 | None \<Rightarrow> True)"

lemma take_drop_append: "length xs = off \<Longrightarrow> length ys = n \<Longrightarrow> take n (drop off (xs @ ys @ zs)) = ys"
  by simp

lemma decode_encode_entries:
  assumes "\<forall>e \<in> set es. entry_fits e" and "off = length pre"
  shows "decode_block_entries (pre @ concat (map encode_block_entry es)) off = es"
  using assms
proof (induction es arbitrary: pre off)
  case Nil
  then show ?case by (simp add: decode_block_entries.simps)
next
  case (Cons e es)
  obtain k v where e: "e = (k, v)" by (cases e)
  let ?rest = "concat (map encode_block_entry es)"
  have k: "unat (of_nat (length k) :: u32) = length k"
    using Cons.prems(1) e by (simp add: entry_fits_def)
  show ?case
  proof (cases v)
    case None
    have "decode_block_entries ((pre @ encode_block_entry e) @ ?rest) (length pre + 8 + length k) = es"
      using Cons.prems by (intro Cons.IH) (simp_all add: e None encode_block_entry_def)
    then show ?thesis
      using Cons.prems(2) k
      by (subst decode_block_entries.simps)
        (simp add: e None encode_block_entry_def Let_def drop_append add.commute add.left_commute)
  next
    case (Some val)
    have len: "length val < 2 ^ 32 - 1" using Cons.prems(1) e Some by (simp add: entry_fits_def)
    then have v: "unat (of_nat (length val) :: u32) = length val" by simp
    have "unat (-1 :: u32) = 2 ^ 32 - 1" by (simp add: unsigned_minus_1_eq_mask mask_eq_exp_minus_1)
    then have ne: "(of_nat (length val) :: u32) \<noteq> -1" using len v by (metis less_irrefl)
    have "decode_block_entries ((pre @ encode_block_entry e) @ ?rest)
        (length pre + 8 + length k + length val) = es"
      using Cons.prems by (intro Cons.IH) (simp_all add: e Some encode_block_entry_def)
    then show ?thesis
      using Cons.prems(2) k v ne
      by (subst decode_block_entries.simps)
        (simp add: e Some encode_block_entry_def Let_def drop_append add.commute add.left_commute)
  qed
qed

lemma decompress_compress:
  assumes "\<forall>x y. snap x = Some y \<longrightarrow> unsnap y = Some x" and "\<forall>e \<in> set es. entry_fits e"
    and "compress_block_with_tombstones snap es = Ok c"
  shows "decompress_block_with_tombstones unsnap c = Ok es"
  using assms decode_encode_entries [of es 0 "[]"]
  by (auto simp: compress_block_with_tombstones_def decompress_block_with_tombstones_def
      split: option.splits)


text \<open>
  The codec choice and the two codec entry points; \<open>zenc\<close> and \<open>zdec\<close> stand for zstd. Blocks
  always use snappy.
\<close>

definition compression_for_level :: "u8 \<Rightarrow> compression_codec" where
  "compression_for_level level =
     (if level \<le> 2 then CodecSnappy else if level = 3 then CodecZstd 3
      else if level = 4 then CodecZstd 5 else if level = 5 then CodecZstd 10 else CodecZstd 16)"

definition compression_for_type :: "u16 \<Rightarrow> compression_codec" where
  "compression_for_type page_type =
     (if page_type = 0 \<or> page_type = 1 then CodecNone else CodecSnappy)"

definition compress_data ::
  "(bytes \<Rightarrow> bytes option) \<Rightarrow> (int \<Rightarrow> bytes \<Rightarrow> bytes option) \<Rightarrow> bytes \<Rightarrow> compression_codec \<Rightarrow> bytes result" where
  "compress_data snap zenc data codec =
     (case codec of
        CodecNone \<Rightarrow> Ok data
      | CodecSnappy \<Rightarrow> (case snap data of Some c \<Rightarrow> Ok c | None \<Rightarrow> Err (Io ''snappy: compress''))
      | CodecZstd level \<Rightarrow> (case zenc level data of Some c \<Rightarrow> Ok c | None \<Rightarrow> Err (Io ''zstd: compress'')))"

definition decompress_data ::
  "(bytes \<Rightarrow> bytes option) \<Rightarrow> (bytes \<Rightarrow> bytes option) \<Rightarrow> bytes \<Rightarrow> compression_codec \<Rightarrow> bytes result" where
  "decompress_data unsnap zdec data codec =
     (case codec of
        CodecNone \<Rightarrow> Ok data
      | CodecSnappy \<Rightarrow> (case unsnap data of Some c \<Rightarrow> Ok c | None \<Rightarrow> Err (Io ''snappy: corrupt input''))
      | CodecZstd _ \<Rightarrow> (case zdec data of Some c \<Rightarrow> Ok c | None \<Rightarrow> Err (Io ''zstd: corrupt input'')))"

lemma compress_block_codec:
  "compress_block_with_tombstones snap es =
     compress_data snap zenc (concat (map encode_block_entry es)) CodecSnappy"
  by (simp add: compress_block_with_tombstones_def compress_data_def)

lemma decompress_block_codec:
  "decompress_block_with_tombstones unsnap data =
     obind (decompress_data unsnap zdec data CodecSnappy) (\<lambda>raw. Ok (decode_block_entries raw 0))"
  by (simp add: decompress_block_with_tombstones_def decompress_data_def split: option.split)

text \<open>
  The older pair of block routines, without tombstones. Their decoding loop differs from the
  other only in what it pushes for the tombstone marker: an empty value.
\<close>

definition compress_block :: "(bytes \<Rightarrow> bytes option) \<Rightarrow> (bytes \<times> bytes) list \<Rightarrow> bytes result" where
  "compress_block snap entries =
     (case snap (concat (map (\<lambda>(key, value). le_word (of_nat (length key) :: u32) @ key @
              le_word (of_nat (length value) :: u32) @ value) entries)) of
        Some c \<Rightarrow> Ok c
      | None \<Rightarrow> Err (Io ''snappy: compress''))"

definition decompress_block :: "(bytes \<Rightarrow> bytes option) \<Rightarrow> bytes \<Rightarrow> (bytes \<times> bytes) list result" where
  "decompress_block unsnap data =
     (case unsnap data of
        Some raw \<Rightarrow> Ok (map (\<lambda>(key, v). (key, case v of Some value \<Rightarrow> value | None \<Rightarrow> []))
                        (decode_block_entries raw 0))
      | None \<Rightarrow> Err (Io ''snappy: corrupt input''))"

section \<open>Writing a table\<close>

record block_header =
  bh_offset :: nat
  bh_length :: nat
  bh_uncompressed :: nat
  bh_first :: bytes
  bh_last :: bytes

record sst_builder =
  sb_bloom :: bloom_filter
  sb_blocks :: "block_header list"
  sb_cur :: "block_entry list"
  sb_cur_size :: nat
  sb_offset :: nat
  sb_file :: bytes

record sstable =
  sst_id :: u64
  sst_level :: u8
  sst_key_min :: key
  sst_key_max :: key
  sst_size :: nat
  sst_created_at :: i64
  sst_bloom :: bloom_filter

definition sst_flush_block :: "(bytes \<Rightarrow> bytes option) \<Rightarrow> sst_builder \<Rightarrow> sst_builder result" where
  "sst_flush_block snap sb =
     obind (compress_block_with_tombstones snap (sb_cur sb)) (\<lambda>compressed.
     Ok (sb\<lparr>sb_file := sb_file sb @ compressed,
            sb_blocks := sb_blocks sb @
              [\<lparr>bh_offset = sb_offset sb, bh_length = length compressed,
                bh_uncompressed = sb_cur_size sb,
                bh_first = fst (hd (sb_cur sb)), bh_last = fst (last (sb_cur sb))\<rparr>],
            sb_offset := sb_offset sb + length compressed,
            sb_cur := [], sb_cur_size := 0\<rparr>))"

definition sst_add_entry ::
  "(bytes \<Rightarrow> bytes option) \<Rightarrow> (bytes \<Rightarrow> u64) \<Rightarrow> sst_builder \<Rightarrow> block_entry \<Rightarrow> sst_builder result" where
  "sst_add_entry snap xxh sb e =
     (let sb = sb\<lparr>sb_bloom := bloom_insert xxh (fst e) (sb_bloom sb)\<rparr>;
          val_len = (case snd e of Some v \<Rightarrow> length v | None \<Rightarrow> 0);
          entry_len = 4 + length (fst e) + 4 + val_len
      in obind (if sb_cur_size sb + entry_len > DATA_BLOCK_TARGET_SIZE \<and> sb_cur sb \<noteq> []
                then sst_flush_block snap sb else Ok sb) (\<lambda>sb.
         Ok (sb\<lparr>sb_cur := sb_cur sb @ [e], sb_cur_size := sb_cur_size sb + entry_len\<rparr>)))"

fun sst_add_entries ::
  "(bytes \<Rightarrow> bytes option) \<Rightarrow> (bytes \<Rightarrow> u64) \<Rightarrow> sst_builder \<Rightarrow> block_entry list \<Rightarrow> sst_builder result" where
  "sst_add_entries snap xxh sb [] = Ok sb"
| "sst_add_entries snap xxh sb (e # es) =
     obind (sst_add_entry snap xxh sb e) (\<lambda>sb'. sst_add_entries snap xxh sb' es)"

definition encode_block_header :: "block_header \<Rightarrow> bytes" where
  "encode_block_header b =
     le_word (of_nat (bh_offset b) :: u64) @ le_word (of_nat (bh_length b) :: u64) @
     le_word (of_nat (bh_uncompressed b) :: u64) @
     le_word (of_nat (length (bh_first b)) :: u32) @ bh_first b @
     le_word (of_nat (length (bh_last b)) :: u32) @ bh_last b"

definition encode_index :: "block_header list \<Rightarrow> bytes" where
  "encode_index blocks =
     le_word (of_nat (length blocks) :: u32) @ concat (map encode_block_header blocks)"

definition encode_footer :: "nat \<Rightarrow> nat \<Rightarrow> nat \<Rightarrow> nat \<Rightarrow> block_header list \<Rightarrow> u32 \<Rightarrow> bytes" where
  "encode_footer index_offset index_len bloom_offset bloom_len blocks checksum =
     le_word SSTABLE_MAGIC @ le_word SSTABLE_VERSION @
     le_word (of_nat index_offset :: u64) @ le_word (of_nat index_len :: u64) @
     le_word (of_nat bloom_offset :: u64) @ le_word (of_nat bloom_len :: u64) @
     le_word (of_nat (length blocks) :: u32) @
     le_word (of_nat (sum_list (map bh_uncompressed blocks)) :: u64) @ le_word checksum"

text \<open>
  \<open>SSTable::create_with_tombstones\<close>: the finished file and the handle. Every write goes
  to the offset that equals the length written so far, so the file grows by appending.
  A failing codec leaves a partial file that no handle names.
\<close>

definition sst_create ::
  "(bytes \<Rightarrow> bytes option) \<Rightarrow> (bytes \<Rightarrow> u64) \<Rightarrow> (bytes \<Rightarrow> u32) \<Rightarrow> i64 \<Rightarrow> u64 \<Rightarrow> u8 \<Rightarrow>
   block_entry list \<Rightarrow> (bytes \<times> sstable) result" where
  "sst_create snap xxh crc now i level entries =
     (let bloom = bloom_new (of_nat (length entries)) DEFAULT_BLOOM_BITS_PER_KEY;
          key_min = (if entries = [] then [] else fst (hd entries));
          key_max = (if entries = [] then [] else fst (last entries))
      in obind (sst_add_entries snap xxh
            \<lparr>sb_bloom = bloom, sb_blocks = [], sb_cur = [], sb_cur_size = 0, sb_offset = 0,
             sb_file = []\<rparr> entries) (\<lambda>sb.
         obind (if sb_cur sb \<noteq> [] then sst_flush_block snap sb else Ok sb) (\<lambda>sb.
         let bloom_data = bloom_encode (sb_bloom sb);
             bloom_offset = sb_offset sb;
             index_offset = bloom_offset + 4 + length bloom_data;
             index_buf = encode_index (sb_blocks sb);
             file = sb_file sb @ le_word (of_nat (length bloom_data) :: u32) @ bloom_data @
               index_buf @
               encode_footer index_offset (length index_buf) bloom_offset (length bloom_data)
                 (sb_blocks sb) (crc index_buf)
         in Ok (file, \<lparr>sst_id = i, sst_level = level, sst_key_min = key_min,
                sst_key_max = key_max, sst_size = length file, sst_created_at = now,
                sst_bloom = sb_bloom sb\<rparr>))))"

section \<open>Reading a table\<close>

text \<open>\<open>seek(SeekFrom::Start(off))\<close> followed by \<open>read_exact\<close> of \<open>n\<close> bytes.\<close>

definition read_file_at :: "bytes \<Rightarrow> nat \<Rightarrow> nat \<Rightarrow> bytes result" where
  "read_file_at f off n =
     (case slice_at f off n of Some b \<Rightarrow> Ok b | None \<Rightarrow> Err (Io ''failed to fill whole buffer''))"

text \<open>One index entry at \<open>off\<close>: block offset and length, first and last key, next offset.\<close>

definition read_index_entry :: "bytes \<Rightarrow> nat \<Rightarrow> (nat \<times> nat \<times> bytes \<times> bytes \<times> nat) result" where
  "read_index_entry idx off =
     obind (get_u64 idx off) (\<lambda>block_off.
     obind (get_u64 idx (off + 8)) (\<lambda>block_len.
     obind (get_u64 idx (off + 16)) (\<lambda>_.
     obind (get_u32 idx (off + 24)) (\<lambda>fkl.
     let fk_len = unat fkl; off = off + 28 in
     obind (get_bytes idx off fk_len) (\<lambda>fk.
     let off = off + fk_len in
     obind (get_u32 idx off) (\<lambda>lkl.
     let lk_len = unat lkl; off = off + 4 in
     obind (get_bytes idx off lk_len) (\<lambda>lk.
     Ok (unat block_off, unat block_len, fk, lk, off + lk_len))))))))"

definition find_block_entry :: "block_entry list \<Rightarrow> key \<Rightarrow> val option option" where
  "find_block_entry entries k = map_option snd (find (\<lambda>e. fst e = k) entries)"

fun sst_search ::
  "(bytes \<Rightarrow> bytes option) \<Rightarrow> bytes \<Rightarrow> key \<Rightarrow> bytes \<Rightarrow> nat \<Rightarrow> nat \<Rightarrow> val option option result" where
  "sst_search unsnap f k idx off 0 = Ok None"
| "sst_search unsnap f k idx off (Suc n) =
     (if off + 32 > length idx then Ok None else
      obind (read_index_entry idx off) (\<lambda>(block_off, block_len, fk, lk, off').
      if fk \<le> k \<and> k \<le> lk then
        obind (read_file_at f block_off block_len) (\<lambda>block_data.
        obind (decompress_block_with_tombstones unsnap block_data) (\<lambda>entries.
        case find_block_entry entries k of
          Some r \<Rightarrow> Ok (Some r)
        | None \<Rightarrow> sst_search unsnap f k idx off' n))
      else sst_search unsnap f k idx off' n))"

text \<open>The footer fields used by the readers: index offset, index length, block count.\<close>

definition read_footer :: "bytes \<Rightarrow> (nat \<times> nat \<times> nat) result" where
  "read_footer f =
     obind (read_file_at f (length f - 56) 56) (\<lambda>footer.
     obind (get_u64 footer 8) (\<lambda>index_offset.
     obind (get_u64 footer 16) (\<lambda>index_length.
     obind (get_u32 footer 40) (\<lambda>num_blocks.
     Ok (unat index_offset, unat index_length, unat num_blocks)))))"

definition sst_get_with_tombstone ::
  "(bytes \<Rightarrow> bytes option) \<Rightarrow> (bytes \<Rightarrow> u64) \<Rightarrow> sstable \<Rightarrow> bytes \<Rightarrow> key \<Rightarrow> val option option result" where
  "sst_get_with_tombstone unsnap xxh sst f k =
     (if \<not> bloom_may_contain xxh (sst_bloom sst) k then Ok None
      else if length f < 56 then Ok None
      else
        obind (read_footer f) (\<lambda>(index_offset, index_length, num_blocks).
        obind (read_file_at f index_offset index_length) (\<lambda>idx.
        sst_search unsnap f k idx 4 num_blocks)))"

definition sst_get ::
  "(bytes \<Rightarrow> bytes option) \<Rightarrow> (bytes \<Rightarrow> u64) \<Rightarrow> sstable \<Rightarrow> bytes \<Rightarrow> key \<Rightarrow> val option result" where
  "sst_get unsnap xxh sst f k =
     obind (sst_get_with_tombstone unsnap xxh sst f k) (\<lambda>r.
     Ok (case r of Some (Some v) \<Rightarrow> Some v | Some None \<Rightarrow> None | None \<Rightarrow> None))"

fun sst_scan_blocks ::
  "(bytes \<Rightarrow> bytes option) \<Rightarrow> bytes \<Rightarrow> key \<Rightarrow> key \<Rightarrow> bytes \<Rightarrow> nat \<Rightarrow> nat \<Rightarrow> block_entry list result" where
  "sst_scan_blocks unsnap f lo hi idx off 0 = Ok []"
| "sst_scan_blocks unsnap f lo hi idx off (Suc n) =
     (if off + 32 > length idx then Ok [] else
      obind (read_index_entry idx off) (\<lambda>(block_off, block_len, fk, lk, off').
      if lk < lo then sst_scan_blocks unsnap f lo hi idx off' n
      else if fk \<ge> hi then Ok []
      else
        obind (read_file_at f block_off block_len) (\<lambda>block_data.
        obind (decompress_block_with_tombstones unsnap block_data) (\<lambda>entries.
        obind (sst_scan_blocks unsnap f lo hi idx off' n) (\<lambda>rest.
        Ok (filter (\<lambda>(k, _). lo \<le> k \<and> k < hi) entries @ rest))))))"

definition sst_scan_with_tombstones ::
  "(bytes \<Rightarrow> bytes option) \<Rightarrow> bytes \<Rightarrow> key \<Rightarrow> key \<Rightarrow> block_entry list result" where
  "sst_scan_with_tombstones unsnap f lo hi =
     (if length f < 56 then Ok []
      else
        obind (read_footer f) (\<lambda>(index_offset, index_length, num_blocks).
        obind (read_file_at f index_offset index_length) (\<lambda>idx.
        sst_scan_blocks unsnap f lo hi idx 4 num_blocks)))"

definition sst_scan ::
  "(bytes \<Rightarrow> bytes option) \<Rightarrow> bytes \<Rightarrow> key \<Rightarrow> key \<Rightarrow> (key \<times> val) list result" where
  "sst_scan unsnap f lo hi =
     obind (sst_scan_with_tombstones unsnap f lo hi) (\<lambda>es.
     Ok (List.map_filter (\<lambda>(k, v_opt). map_option (\<lambda>v. (k, v)) v_opt) es))"


text \<open>
  \<open>SSTable::open\<close>: the handle rebuilt from the file; id and level come from the file
  name and are arguments.
\<close>

fun sst_index_range ::
  "bytes \<Rightarrow> nat \<Rightarrow> nat \<Rightarrow> key option \<Rightarrow> key option \<Rightarrow> (key option \<times> key option) result" where
  "sst_index_range idx off 0 key_min key_max = Ok (key_min, key_max)"
| "sst_index_range idx off (Suc n) key_min key_max =
     (if off + 32 > length idx then Ok (key_min, key_max) else
      obind (get_u64 idx off) (\<lambda>_.
      obind (get_u64 idx (off + 8)) (\<lambda>_.
      obind (get_u64 idx (off + 16)) (\<lambda>_.
      obind (get_u32 idx (off + 24)) (\<lambda>fkl.
      let fk_len = unat fkl; off = off + 28 in
      if off + fk_len > length idx then Ok (key_min, key_max) else
      obind (get_bytes idx off fk_len) (\<lambda>fk.
      let off = off + fk_len;
          key_min = (case key_min of None \<Rightarrow> Some fk | Some m \<Rightarrow> Some m) in
      obind (get_u32 idx off) (\<lambda>lkl.
      let lk_len = unat lkl; off = off + 4 in
      if off + lk_len > length idx then Ok (key_min, key_max) else
      obind (get_bytes idx off lk_len) (\<lambda>lk.
      sst_index_range idx (off + lk_len) n key_min (Some lk)))))))))"

definition sst_open :: "i64 \<Rightarrow> u64 \<Rightarrow> u8 \<Rightarrow> bytes \<Rightarrow> sstable result" where
  "sst_open now i level f =
     (if length f < 56 then Err (CorruptData ''SSTable too small'') else
      obind (read_file_at f (length f - 56) 56) (\<lambda>footer.
      obind (get_u32 footer 0) (\<lambda>magic.
      if magic \<noteq> SSTABLE_MAGIC then Err (CorruptData ''SSTable invalid magic'') else
      obind (get_u64 footer 8) (\<lambda>index_offset.
      obind (get_u64 footer 16) (\<lambda>index_length.
      obind (get_u64 footer 24) (\<lambda>bloom_offset.
      obind (get_u64 footer 32) (\<lambda>bloom_length.
      obind (read_file_at f (unat index_offset) (unat index_length)) (\<lambda>idx.
      obind (get_u32 idx 0) (\<lambda>num_blocks.
      obind (sst_index_range idx 4 (unat num_blocks) None None) (\<lambda>(key_min, key_max).
      obind (if bloom_length > 0 then
               obind (read_file_at f (unat bloom_offset) 4) (\<lambda>lb.
               obind (get_u32 lb 0) (\<lambda>bloom_data_len.
               obind (read_file_at f (unat bloom_offset + 4) (unat bloom_data_len)) (\<lambda>bloom_data.
               bloom_decode bloom_data)))
             else Ok (bloom_new 1000 10)) (\<lambda>bloom.
      Ok \<lparr>sst_id = i, sst_level = level,
          sst_key_min = (case key_min of Some m \<Rightarrow> m | None \<Rightarrow> []),
          sst_key_max = (case key_max of Some m \<Rightarrow> m | None \<Rightarrow> []),
          sst_size = length f, sst_created_at = now, sst_bloom = bloom\<rparr>)))))))))))"

section \<open>The blocks of a built table\<close>

definition block_ok :: "(bytes \<Rightarrow> bytes option) \<Rightarrow> bytes \<Rightarrow> block_header \<Rightarrow> block_entry list \<Rightarrow> bool" where
  "block_ok snap f h c \<longleftrightarrow> c \<noteq> [] \<and> bh_first h = fst (hd c) \<and> bh_last h = fst (last c) \<and>
     (\<exists>z. compress_block_with_tombstones snap c = Ok z \<and>
          slice_at f (bh_offset h) (bh_length h) = Some z)"

definition sb_inv ::
  "(bytes \<Rightarrow> bytes option) \<Rightarrow> sst_builder \<Rightarrow> block_entry list list \<Rightarrow> block_entry list \<Rightarrow> bool" where
  "sb_inv snap sb chunks es \<longleftrightarrow> concat chunks @ sb_cur sb = es \<and>
     list_all2 (block_ok snap (sb_file sb)) (sb_blocks sb) chunks \<and>
     sb_offset sb = length (sb_file sb)"

lemma slice_at_append_left: "slice_at f off n = Some z \<Longrightarrow> slice_at (f @ g) off n = Some z"
  by (auto simp: slice_at_def split: if_splits)

lemma block_ok_append: "block_ok snap f h c \<Longrightarrow> block_ok snap (f @ g) h c"
  by (auto simp: block_ok_def intro: slice_at_append_left)

lemma blocks_ok_append:
  "list_all2 (block_ok snap f) hs cs \<Longrightarrow> list_all2 (block_ok snap (f @ g)) hs cs"
  by (erule list_all2_mono) (rule block_ok_append)

lemma sst_flush_block_inv:
  assumes "sst_flush_block snap sb = Ok sb'" and "sb_inv snap sb chunks es" and "sb_cur sb \<noteq> []"
  shows "sb_inv snap sb' (chunks @ [sb_cur sb]) es \<and> sb_cur sb' = [] \<and> sb_bloom sb' = sb_bloom sb"
proof -
  obtain z where z: "compress_block_with_tombstones snap (sb_cur sb) = Ok z"
    and sb': "sb' = sb\<lparr>sb_file := sb_file sb @ z,
            sb_blocks := sb_blocks sb @
              [\<lparr>bh_offset = sb_offset sb, bh_length = length z,
                bh_uncompressed = sb_cur_size sb,
                bh_first = fst (hd (sb_cur sb)), bh_last = fst (last (sb_cur sb))\<rparr>],
            sb_offset := sb_offset sb + length z, sb_cur := [], sb_cur_size := 0\<rparr>"
    using assms(1) by (auto simp: sst_flush_block_def outcome_simps)
  show ?thesis
    using assms(2,3) z
    by (auto simp: sb_inv_def sb' block_ok_def [of snap "sb_file sb @ z" "\<lparr>bh_offset = _, bh_length = _,
          bh_uncompressed = _, bh_first = _, bh_last = _\<rparr>"] blocks_ok_append intro!: list_all2_appendI)
qed

lemma sst_add_entry_inv:
  assumes "sst_add_entry snap xxh sb e = Ok sb'" and "sb_inv snap sb chunks es"
  shows "\<exists>chunks'. sb_inv snap sb' chunks' (es @ [e]) \<and> sb_cur sb' \<noteq> [] \<and>
    sb_bloom sb' = bloom_insert xxh (fst e) (sb_bloom sb)"
proof -
  let ?sb = "sb\<lparr>sb_bloom := bloom_insert xxh (fst e) (sb_bloom sb)\<rparr>"
  let ?len = "4 + length (fst e) + 4 + (case snd e of Some v \<Rightarrow> length v | None \<Rightarrow> 0)"
  have inv: "sb_inv snap ?sb chunks es" using assms(2) by (simp add: sb_inv_def)
  obtain sb1 where sb1: "(if sb_cur_size ?sb + ?len > DATA_BLOCK_TARGET_SIZE \<and> sb_cur ?sb \<noteq> []
      then sst_flush_block snap ?sb else Ok ?sb) = Ok sb1"
    and sb': "sb' = sb1\<lparr>sb_cur := sb_cur sb1 @ [e], sb_cur_size := sb_cur_size sb1 + ?len\<rparr>"
    using assms(1) by (auto simp: sst_add_entry_def Let_def outcome_simps)
  have "\<exists>chunks'. sb_inv snap sb1 chunks' es \<and> sb_bloom sb1 = sb_bloom ?sb"
    using sb1 inv sst_flush_block_inv [of snap ?sb sb1 chunks es]
    by (auto split: if_splits)
  then show ?thesis by (auto simp: sb' sb_inv_def)
qed

lemma sst_add_entries_inv:
  assumes "sst_add_entries snap xxh sb es' = Ok sb'" and "sb_inv snap sb chunks es"
  shows "\<exists>chunks'. sb_inv snap sb' chunks' (es @ es') \<and>
    sb_bloom sb' = bloom_insert_all xxh (map fst es') (sb_bloom sb)"
  using assms
proof (induction es' arbitrary: sb chunks es)
  case Nil
  then show ?case by (auto simp: bloom_insert_all_def)
next
  case (Cons e es')
  obtain sb1 where sb1: "sst_add_entry snap xxh sb e = Ok sb1" "sst_add_entries snap xxh sb1 es' = Ok sb'"
    using Cons.prems(1) by (auto simp: outcome_simps)
  obtain chunks1 where "sb_inv snap sb1 chunks1 (es @ [e])"
    and b: "sb_bloom sb1 = bloom_insert xxh (fst e) (sb_bloom sb)"
    using sst_add_entry_inv [OF sb1(1) Cons.prems(2)] by blast
  from Cons.IH [OF sb1(2) this(1)] show ?case by (simp add: b bloom_insert_all_def)
qed

text \<open>What a finished table is: its parts, in file order.\<close>

definition sst_file_ok ::
  "(bytes \<Rightarrow> bytes option) \<Rightarrow> (bytes \<Rightarrow> u64) \<Rightarrow> (bytes \<Rightarrow> u32) \<Rightarrow> block_entry list \<Rightarrow> bytes \<Rightarrow> sstable \<Rightarrow> bool" where
  "sst_file_ok snap xxh crc es f sst \<longleftrightarrow> (\<exists>body hs chunks.
     concat chunks = es \<and> list_all2 (block_ok snap body) hs chunks \<and>
     sst_bloom sst = bloom_insert_all xxh (map fst es)
       (bloom_new (of_nat (length es)) DEFAULT_BLOOM_BITS_PER_KEY) \<and>
     f = body @ le_word (of_nat (length (bloom_encode (sst_bloom sst))) :: u32) @
       bloom_encode (sst_bloom sst) @ encode_index hs @
       encode_footer (length body + 4 + length (bloom_encode (sst_bloom sst)))
         (length (encode_index hs)) (length body) (length (bloom_encode (sst_bloom sst))) hs
         (crc (encode_index hs)))"

lemma sst_create_file_ok:
  assumes "sst_create snap xxh crc now i level es = Ok (f, sst)"
  shows "sst_file_ok snap xxh crc es f sst"
proof -
  let ?sb0 = "\<lparr>sb_bloom = bloom_new (of_nat (length es)) DEFAULT_BLOOM_BITS_PER_KEY, sb_blocks = [],
    sb_cur = [], sb_cur_size = 0, sb_offset = 0, sb_file = []\<rparr>"
  obtain sb1 sb where sb1: "sst_add_entries snap xxh ?sb0 es = Ok sb1"
    and sb: "(if sb_cur sb1 \<noteq> [] then sst_flush_block snap sb1 else Ok sb1) = Ok sb"
    and sst: "sst_bloom sst = sb_bloom sb"
    and f: "f = sb_file sb @ le_word (of_nat (length (bloom_encode (sb_bloom sb))) :: u32) @
       bloom_encode (sb_bloom sb) @ encode_index (sb_blocks sb) @
       encode_footer (sb_offset sb + 4 + length (bloom_encode (sb_bloom sb)))
         (length (encode_index (sb_blocks sb))) (sb_offset sb)
         (length (bloom_encode (sb_bloom sb))) (sb_blocks sb) (crc (encode_index (sb_blocks sb)))"
    using assms by (auto simp: sst_create_def Let_def outcome_simps)
  have "sb_inv snap ?sb0 [] []" by (simp add: sb_inv_def)
  from sst_add_entries_inv [OF sb1 this] obtain chunks1 where c1: "sb_inv snap sb1 chunks1 es"
    and b1: "sb_bloom sb1 = bloom_insert_all xxh (map fst es) (sb_bloom ?sb0)" by auto
  have "\<exists>chunks. sb_inv snap sb chunks es \<and> sb_cur sb = [] \<and> sb_bloom sb = sb_bloom sb1"
    using sb c1 sst_flush_block_inv [of snap sb1 sb chunks1 es] by (auto split: if_splits)
  then obtain chunks where "sb_inv snap sb chunks es" "sb_cur sb = []" "sb_bloom sb = sb_bloom sb1"
    by blast
  then show ?thesis
    unfolding sst_file_ok_def using f sst b1 by (auto simp: sb_inv_def intro!: exI)
qed


section \<open>Reading back\<close>

definition header_fits :: "block_header \<Rightarrow> bool" where
  "header_fits h \<longleftrightarrow> bh_offset h < 2 ^ 64 \<and> bh_length h < 2 ^ 64 \<and>
     length (bh_first h) < 2 ^ 32 \<and> length (bh_last h) < 2 ^ 32"

lemma length_encode_block_header:
  "length (encode_block_header h) = 32 + length (bh_first h) + length (bh_last h)"
  by (simp add: encode_block_header_def)

lemma read_index_entry_encoded:
  assumes "header_fits h" and "off = length pre"
  shows "read_index_entry (pre @ encode_block_header h @ post) off =
    Ok (bh_offset h, bh_length h, bh_first h, bh_last h, off + length (encode_block_header h))"
  using assms
  by (simp add: read_index_entry_def header_fits_def encode_block_header_def get_defs slice_simps
      Let_def add.commute add.left_commute)

text \<open>The keys of a block lie between its first and last key.\<close>

definition keys_sorted :: "block_entry list \<Rightarrow> bool" where
  "keys_sorted es \<longleftrightarrow> sorted_wrt (<) (map fst es)"

lemma sorted_first_last:
  assumes "sorted_wrt (<) (xs :: 'a::linorder list)" and "x \<in> set xs"
  shows "hd xs \<le> x \<and> x \<le> last xs"
  using assms
proof (induction xs)
  case (Cons y ys)
  then show ?case by (cases "ys = []") (auto simp: less_imp_le)
qed simp

lemma keys_between:
  assumes "keys_sorted c" and "(k, v) \<in> set c"
  shows "fst (hd c) \<le> k \<and> k \<le> fst (last c)"
proof -
  have "k \<in> set (map fst c)" using assms(2) by force
  moreover have "c \<noteq> []" using assms(2) by auto
  ultimately show ?thesis
    using sorted_first_last [of "map fst c" k] assms(1) by (simp add: keys_sorted_def hd_map last_map)
qed

lemma find_block_entry_map_of: "find_block_entry es k = map_of es k"
  by (induction es) (auto simp: find_block_entry_def)

lemma block_readable:
  assumes "\<forall>x y. snap x = Some y \<longrightarrow> unsnap y = Some x" and "\<forall>e \<in> set c. entry_fits e"
    and "block_ok snap f h c"
  shows "obind (read_file_at f (bh_offset h) (bh_length h)) (decompress_block_with_tombstones unsnap) = Ok c"
  using assms(3) decompress_compress [OF assms(1,2)]
  by (auto simp: block_ok_def read_file_at_def)

lemma sst_search_blocks:
  assumes codec: "\<forall>x y. snap x = Some y \<longrightarrow> unsnap y = Some x"
    and "list_all2 (block_ok snap f) hs chunks"
    and "\<forall>h \<in> set hs. header_fits h" and "\<forall>c \<in> set chunks. keys_sorted c \<and> (\<forall>e \<in> set c. entry_fits e)"
    and "off = length pre"
  shows "sst_search unsnap f k (pre @ concat (map encode_block_header hs)) off (length hs) =
    Ok (map_of (concat chunks) k)"
  using assms(2-5)
proof (induction hs arbitrary: chunks pre off)
  case Nil
  then show ?case by simp
next
  case (Cons h hs)
  obtain c cs where chunks: "chunks = c # cs" and ok: "block_ok snap f h c"
    and oks: "list_all2 (block_ok snap f) hs cs"
    using Cons.prems(1) by (cases chunks) auto
  let ?idx = "pre @ concat (map encode_block_header (h # hs))"
  let ?off = "off + length (encode_block_header h)"
  have rest: "sst_search unsnap f k ?idx ?off (length hs) = Ok (map_of (concat cs) k)"
    using Cons.IH [OF oks, of ?off "pre @ encode_block_header h"] Cons.prems chunks by simp
  have entry: "read_index_entry ?idx off = Ok (bh_offset h, bh_length h, bh_first h, bh_last h, ?off)"
    using read_index_entry_encoded [of h off pre "concat (map encode_block_header hs)"] Cons.prems
    by simp
  have len: "\<not> off + 32 > length ?idx"
    using Cons.prems by (simp add: length_encode_block_header)
  have fl: "bh_first h = fst (hd c)" "bh_last h = fst (last c)" using ok by (auto simp: block_ok_def)
  have fits: "\<forall>e \<in> set c. entry_fits e" and sorted: "keys_sorted c" using Cons.prems chunks by auto
  show ?case
  proof (cases "bh_first h \<le> k \<and> k \<le> bh_last h")
    case True
    obtain z where z: "read_file_at f (bh_offset h) (bh_length h) = Ok z"
      "decompress_block_with_tombstones unsnap z = Ok c"
      using block_readable [OF codec fits ok] by (auto simp: outcome_simps)
    show ?thesis
      using True len rest entry z
      by (simp add: chunks find_block_entry_map_of map_add_def split: option.split)
  next
    case False
    then have "map_of c k = None"
      using keys_between [OF sorted] fl by (auto simp: map_of_eq_None_iff)
    with False show ?thesis
      using len rest entry by (auto simp: chunks map_add_def)
  qed
qed

lemma sst_scan_blocks_filter:
  assumes codec: "\<forall>x y. snap x = Some y \<longrightarrow> unsnap y = Some x"
    and "list_all2 (block_ok snap f) hs chunks"
    and "\<forall>h \<in> set hs. header_fits h" and "\<forall>c \<in> set chunks. \<forall>e \<in> set c. entry_fits e"
    and "keys_sorted (concat chunks)" and "off = length pre"
  shows "sst_scan_blocks unsnap f lo hi (pre @ concat (map encode_block_header hs)) off (length hs) =
    Ok (filter (\<lambda>(k, _). lo \<le> k \<and> k < hi) (concat chunks))"
  using assms(2-6)
proof (induction hs arbitrary: chunks pre off)
  case Nil
  then show ?case by simp
next
  case (Cons h hs)
  obtain c cs where chunks: "chunks = c # cs" and ok: "block_ok snap f h c"
    and oks: "list_all2 (block_ok snap f) hs cs"
    using Cons.prems(1) by (cases chunks) auto
  let ?idx = "pre @ concat (map encode_block_header (h # hs))"
  let ?off = "off + length (encode_block_header h)"
  let ?P = "\<lambda>(k, _). lo \<le> k \<and> k < hi"
  have ks: "keys_sorted c" "keys_sorted (concat cs)"
    using Cons.prems(4) by (simp_all add: chunks keys_sorted_def sorted_wrt_append)
  have rest: "sst_scan_blocks unsnap f lo hi ?idx ?off (length hs) = Ok (filter ?P (concat cs))"
    using Cons.IH [OF oks, of ?off "pre @ encode_block_header h"] Cons.prems ks chunks by simp
  have entry: "read_index_entry ?idx off = Ok (bh_offset h, bh_length h, bh_first h, bh_last h, ?off)"
    using read_index_entry_encoded [of h off pre "concat (map encode_block_header hs)"] Cons.prems
    by simp
  have len: "\<not> off + 32 > length ?idx"
    using Cons.prems by (simp add: length_encode_block_header)
  have fl: "bh_first h = fst (hd c)" "bh_last h = fst (last c)" "c \<noteq> []"
    using ok by (auto simp: block_ok_def)
  have fits: "\<forall>e \<in> set c. entry_fits e" using Cons.prems chunks by auto
  show ?case
  proof (cases "bh_last h < lo \<or> hi \<le> bh_first h")
    case False
    obtain z where z: "read_file_at f (bh_offset h) (bh_length h) = Ok z"
      "decompress_block_with_tombstones unsnap z = Ok c"
      using block_readable [OF codec fits ok] by (auto simp: outcome_simps)
    show ?thesis using False len rest entry z by (auto simp: chunks)
  next
    case out: True
    have c_out: "filter ?P c = []"
      using keys_between [OF ks(1)] out fl by (fastforce simp: filter_empty_conv)
    show ?thesis
    proof (cases "bh_last h < lo")
      case True
      then show ?thesis using len rest entry c_out by (simp add: chunks)
    next
      case False
      have "fst (hd c) \<le> k" if "(k, v) \<in> set (concat cs)" for k v
        using Cons.prems(4) that fl(3) hd_in_set [OF fl(3)]
        by (fastforce simp: chunks keys_sorted_def sorted_wrt_append intro: less_imp_le)
      then have "filter ?P (concat cs) = []"
        using False out fl by (fastforce simp: filter_empty_conv)
      then show ?thesis using False out len entry c_out by (simp add: chunks)
    qed
  qed
qed


section \<open>What a table promises\<close>

text \<open>
  The inputs the format can carry: strictly sorted keys, lengths that fit their length
  fields, and a file below \<open>2 ^ 64\<close> bytes.
\<close>

definition sst_input_ok :: "block_entry list \<Rightarrow> bytes \<Rightarrow> bool" where
  "sst_input_ok es f \<longleftrightarrow> keys_sorted es \<and> (\<forall>e \<in> set es. entry_fits e) \<and>
     length es < 2 ^ 32 \<and> length f < 2 ^ 64"

lemma length_encode_footer [simp]: "length (encode_footer a b c d hs e) = 56"
  by (simp add: encode_footer_def)

lemma footer_fields:
  "get_u32 (encode_footer a b c d hs e) 0 = Ok SSTABLE_MAGIC"
  "get_u64 (encode_footer a b c d hs e) 8 = Ok (of_nat a)"
  "get_u64 (encode_footer a b c d hs e) 16 = Ok (of_nat b)"
  "get_u64 (encode_footer a b c d hs e) 24 = Ok (of_nat c)"
  "get_u64 (encode_footer a b c d hs e) 32 = Ok (of_nat d)"
  "get_u32 (encode_footer a b c d hs e) 40 = Ok (of_nat (length hs))"
  by (simp_all add: encode_footer_def get_defs slice_simps)

lemma blocks_header_fits:
  assumes "list_all2 (block_ok snap body) hs chunks" and "\<forall>e \<in> set (concat chunks). entry_fits e"
    and "length body < 2 ^ 64" and h: "h \<in> set hs"
  shows "header_fits h"
proof -
  obtain c where c: "c \<in> set chunks" "block_ok snap body h c"
    using assms(1) h by (metis list_all2_conv_all_nth in_set_conv_nth)
  then have "hd c \<in> set (concat chunks)" "last c \<in> set (concat chunks)"
    by (auto simp: block_ok_def intro: hd_in_set last_in_set)
  then have "entry_fits (hd c)" "entry_fits (last c)" using assms(2) by blast+
  moreover have "bh_offset h + bh_length h \<le> length body"
    using c(2) by (auto simp: block_ok_def outcome_simps)
  ultimately show ?thesis
    using c(2) assms(3) by (simp add: header_fits_def block_ok_def entry_fits_def)
qed

lemma length_chunks_le:
  "list_all2 (block_ok snap body) hs chunks \<Longrightarrow> length hs \<le> length (concat chunks)"
proof (induction hs arbitrary: chunks)
  case Nil
  then show ?case by simp
next
  case (Cons h hs)
  then obtain c cs where "chunks = c # cs" "block_ok snap body h c" "list_all2 (block_ok snap body) hs cs"
    by (cases chunks) auto
  moreover from this have "1 \<le> length c" by (cases c) (simp_all add: block_ok_def)
  ultimately show ?case using Cons.IH [of cs] by simp
qed

text \<open>The index a reader loads, and the facts about the blocks behind it.\<close>

lemma sst_file_parts:
  assumes ok: "sst_file_ok snap xxh crc es f sst" and inp: "sst_input_ok es f"
  obtains hs chunks io where "concat chunks = es" "list_all2 (block_ok snap f) hs chunks"
    "\<forall>h \<in> set hs. header_fits h" "56 \<le> length f"
    "read_footer f = Ok (io, length (encode_index hs), length hs)"
    "read_file_at f io (length (encode_index hs)) = Ok (encode_index hs)"
proof -
  let ?bl = "bloom_encode (sst_bloom sst)"
  obtain body hs chunks where ch: "concat chunks = es" and bo: "list_all2 (block_ok snap body) hs chunks"
    and f: "f = body @ le_word (of_nat (length ?bl) :: u32) @ ?bl @ encode_index hs @
       encode_footer (length body + 4 + length ?bl) (length (encode_index hs)) (length body)
         (length ?bl) hs (crc (encode_index hs))"
    using ok unfolding sst_file_ok_def by blast
  let ?io = "length body + 4 + length ?bl" and ?ft = "encode_footer (length body + 4 + length ?bl)
    (length (encode_index hs)) (length body) (length ?bl) hs (crc (encode_index hs))"
  have len: "length f = ?io + length (encode_index hs) + 56" by (simp add: f)
  have f64: "length f < 2 ^ 64" "length es < 2 ^ 32" using inp by (simp_all add: sst_input_ok_def)
  have hs: "length hs < 2 ^ 32" using length_chunks_le [OF bo] f64 ch by simp
  have "slice_at f (length f - 56) 56 = Some ?ft"
    using slice_at_end2 [of "body @ le_word (of_nat (length ?bl) :: u32) @ ?bl @ encode_index hs"
        "length f - 56" ?ft 56] len by (simp add: f)
  then have "read_file_at f (length f - 56) 56 = Ok ?ft" by (simp add: read_file_at_def)
  then have rf: "read_footer f = Ok (?io, length (encode_index hs), length hs)"
    using f64 len hs by (simp add: read_footer_def footer_fields del: of_nat_add)
  have "slice_at f ?io (length (encode_index hs)) = Some (encode_index hs)"
    using slice_at_end [of "body @ le_word (of_nat (length ?bl) :: u32) @ ?bl" ?io "encode_index hs"]
    by (simp add: f)
  then have ri: "read_file_at f ?io (length (encode_index hs)) = Ok (encode_index hs)"
    by (simp add: read_file_at_def)
  have hf: "\<forall>h \<in> set hs. header_fits h"
    using blocks_header_fits [OF bo] inp ch f64 len by (auto simp: sst_input_ok_def)
  show thesis
    using that [OF ch _ hf _ rf ri] blocks_ok_append [OF bo] len by (simp add: f)
qed

lemma sst_get_correct:
  assumes codec: "\<forall>x y. snap x = Some y \<longrightarrow> unsnap y = Some x"
    and ok: "sst_file_ok snap xxh crc es f sst" and inp: "sst_input_ok es f"
  shows "sst_get_with_tombstone unsnap xxh sst f k = Ok (map_of es k)"
proof (cases "bloom_may_contain xxh (sst_bloom sst) k")
  case False
  have "k \<notin> set (map fst es)"
  proof
    assume "k \<in> set (map fst es)"
    then have "bloom_may_contain xxh (bloom_insert_all xxh (map fst es)
        (bloom_new (of_nat (length es)) DEFAULT_BLOOM_BITS_PER_KEY)) k"
      by (intro bloom_insert_all_contains bloom_wf_new) (simp_all add: DEFAULT_BLOOM_BITS_PER_KEY_def)
    with False ok show False by (auto simp: sst_file_ok_def)
  qed
  then have "map_of es k = None" by (simp add: map_of_eq_None_iff)
  with False show ?thesis by (simp add: sst_get_with_tombstone_def)
next
  case True
  obtain hs chunks io where p: "concat chunks = es" "list_all2 (block_ok snap f) hs chunks"
    "\<forall>h \<in> set hs. header_fits h" "56 \<le> length f"
    "read_footer f = Ok (io, length (encode_index hs), length hs)"
    "read_file_at f io (length (encode_index hs)) = Ok (encode_index hs)"
    using sst_file_parts [OF ok inp] by blast
  have "\<forall>c \<in> set chunks. keys_sorted c \<and> (\<forall>e \<in> set c. entry_fits e)"
  proof
    fix c assume "c \<in> set chunks"
    then obtain xs ys where "chunks = xs @ c # ys" by (auto simp: in_set_conv_decomp)
    then show "keys_sorted c \<and> (\<forall>e \<in> set c. entry_fits e)"
      using inp p(1) by (auto simp: sst_input_ok_def keys_sorted_def sorted_wrt_append)
  qed
  then have "sst_search unsnap f k (encode_index hs) 4 (length hs) = Ok (map_of es k)"
    using sst_search_blocks [OF codec p(2,3), of 4 "le_word (of_nat (length hs) :: u32)" k] p(1)
    by (simp add: encode_index_def)
  with True p show ?thesis by (simp add: sst_get_with_tombstone_def)
qed

lemma sst_scan_correct:
  assumes codec: "\<forall>x y. snap x = Some y \<longrightarrow> unsnap y = Some x"
    and ok: "sst_file_ok snap xxh crc es f sst" and inp: "sst_input_ok es f"
  shows "sst_scan_with_tombstones unsnap f lo hi = Ok (filter (\<lambda>(k, _). lo \<le> k \<and> k < hi) es)"
proof -
  obtain hs chunks io where p: "concat chunks = es" "list_all2 (block_ok snap f) hs chunks"
    "\<forall>h \<in> set hs. header_fits h" "56 \<le> length f"
    "read_footer f = Ok (io, length (encode_index hs), length hs)"
    "read_file_at f io (length (encode_index hs)) = Ok (encode_index hs)"
    using sst_file_parts [OF ok inp] by blast
  have "\<forall>c \<in> set chunks. \<forall>e \<in> set c. entry_fits e" "keys_sorted (concat chunks)"
    using inp p(1) by (auto simp: sst_input_ok_def)
  then have "sst_scan_blocks unsnap f lo hi (encode_index hs) 4 (length hs) =
      Ok (filter (\<lambda>(k, _). lo \<le> k \<and> k < hi) es)"
    using sst_scan_blocks_filter [OF codec p(2,3), of 4 "le_word (of_nat (length hs) :: u32)" lo hi] p(1)
    by (simp add: encode_index_def)
  with p show ?thesis by (simp add: sst_scan_with_tombstones_def)
qed

section \<open>Reopening a table\<close>

lemma sst_index_range_blocks:
  assumes "\<forall>h \<in> set hs. header_fits h" and "off = length pre"
  shows "sst_index_range (pre @ concat (map encode_block_header hs)) off (length hs) kmin kmax =
    Ok (if kmin = None \<and> hs \<noteq> [] then Some (bh_first (hd hs)) else kmin,
        if hs = [] then kmax else Some (bh_last (last hs)))"
  using assms
proof (induction hs arbitrary: pre off kmin kmax)
  case Nil
  then show ?case by simp
next
  case (Cons h hs)
  let ?rest = "concat (map encode_block_header hs)"
  let ?kmin = "case kmin of None \<Rightarrow> Some (bh_first h) | Some m \<Rightarrow> Some m"
  have fits: "unat (of_nat (length (bh_first h)) :: u32) = length (bh_first h)"
    "unat (of_nat (length (bh_last h)) :: u32) = length (bh_last h)"
    using Cons.prems(1) by (simp_all add: header_fits_def)
  have step: "sst_index_range (pre @ encode_block_header h @ ?rest) off (Suc (length hs)) kmin kmax =
      sst_index_range ((pre @ encode_block_header h) @ ?rest) (off + length (encode_block_header h))
        (length hs) ?kmin (Some (bh_last h))"
    using Cons.prems(2) fits
    by (simp add: get_defs slice_simps Let_def encode_block_header_def add.commute add.left_commute)
  have "sst_index_range ((pre @ encode_block_header h) @ ?rest) (off + length (encode_block_header h))
        (length hs) ?kmin (Some (bh_last h)) =
      Ok (if ?kmin = None \<and> hs \<noteq> [] then Some (bh_first (hd hs)) else ?kmin,
          if hs = [] then Some (bh_last h) else Some (bh_last (last hs)))"
    using Cons.prems by (intro Cons.IH) simp_all
  then show ?case using step by (auto split: option.split)
qed

lemma bloom_insert_all_frame:
  "bf_num_hashes (bloom_insert_all xxh ks bf) = bf_num_hashes bf"
  "bf_num_bits (bloom_insert_all xxh ks bf) = bf_num_bits bf"
  "bf_num_keys (bloom_insert_all xxh ks bf) = bf_num_keys bf"
  unfolding bloom_insert_all_def by (induction ks arbitrary: bf) (simp_all add: bloom_insert_def)

lemma bloom_num_hashes_nonzero: "bloom_num_hashes a b \<noteq> 0"
proof -
  have "unat (bloom_num_hashes a b) = min 30 (max 1 ((unat a * 69) div (unat b * 100)))"
    unfolding bloom_num_hashes_def by (intro unat_of_nat_u32) simp
  moreover have "0 < min 30 (max 1 ((unat a * 69) div (unat b * 100)))" by simp
  ultimately show ?thesis by (metis less_irrefl unat_0)
qed

lemma table_bloom_decodes:
  assumes "bf = bloom_insert_all xxh ks (bloom_new n DEFAULT_BLOOM_BITS_PER_KEY)"
    and "length (bf_bits bf) \<le> 1024 * 1024"
  shows "bloom_decode (bloom_encode bf) = Ok bf"
proof (rule bloom_decode_encode [OF _ _ _ assms(2)])
  have "bloom_wf bf"
    using bloom_wf_insert_all [OF bloom_wf_new, of DEFAULT_BLOOM_BITS_PER_KEY] assms(1)
    by (simp add: DEFAULT_BLOOM_BITS_PER_KEY_def)
  then show "bf_num_bits bf \<noteq> 0" "bf_bits bf \<noteq> []"
    by (auto simp: bloom_wf_def unat_eq_zero)
  show "bf_num_hashes bf \<noteq> 0"
    using bloom_num_hashes_nonzero by (simp add: assms(1) bloom_insert_all_frame bloom_new_def Let_def)
qed

lemma concat_hd_last:
  assumes "list_all2 (block_ok snap f) hs chunks" and "hs \<noteq> []"
  shows "bh_first (hd hs) = fst (hd (concat chunks))" and "bh_last (last hs) = fst (last (concat chunks))"
    and "concat chunks \<noteq> []"
proof -
  obtain h hs' where h: "hs = h # hs'" using assms(2) by (cases hs) auto
  then obtain c cs where c: "chunks = c # cs" "block_ok snap f h c"
    using assms(1) by (auto simp: list_all2_Cons1)
  then show "bh_first (hd hs) = fst (hd (concat chunks))" "concat chunks \<noteq> []"
    by (auto simp: h block_ok_def)
  have "length hs = length chunks" using assms(1) by (rule list_all2_lengthD)
  then have ne: "chunks \<noteq> []" using assms(2) by auto
  have "block_ok snap f (last hs) (last chunks)"
    using assms ne by (simp add: last_conv_nth list_all2_conv_all_nth)
  moreover from this have "last (concat chunks) = last (last chunks)"
    using ne by (cases chunks rule: rev_cases) (auto simp: block_ok_def)
  ultimately show "bh_last (last hs) = fst (last (concat chunks))" by (simp add: block_ok_def)
qed

lemma sst_open_created:
  assumes ok: "sst_file_ok snap xxh crc es f sst" and inp: "sst_input_ok es f"
    and bits: "length (bf_bits (sst_bloom sst)) \<le> 1024 * 1024"
  shows "sst_open now i level f = Ok \<lparr>sst_id = i, sst_level = level,
    sst_key_min = (if es = [] then [] else fst (hd es)),
    sst_key_max = (if es = [] then [] else fst (last es)),
    sst_size = length f, sst_created_at = now, sst_bloom = sst_bloom sst\<rparr>"
proof -
  let ?bl = "bloom_encode (sst_bloom sst)"
  obtain body hs chunks where ch: "concat chunks = es" and bo: "list_all2 (block_ok snap body) hs chunks"
    and bloom: "sst_bloom sst = bloom_insert_all xxh (map fst es)
       (bloom_new (of_nat (length es)) DEFAULT_BLOOM_BITS_PER_KEY)"
    and f: "f = body @ le_word (of_nat (length ?bl) :: u32) @ ?bl @ encode_index hs @
       encode_footer (length body + 4 + length ?bl) (length (encode_index hs)) (length body)
         (length ?bl) hs (crc (encode_index hs))"
    using ok unfolding sst_file_ok_def by blast
  let ?io = "length body + 4 + length ?bl" and ?ft = "encode_footer (length body + 4 + length ?bl)
    (length (encode_index hs)) (length body) (length ?bl) hs (crc (encode_index hs))"
  have len: "length f = ?io + length (encode_index hs) + 56" by (simp add: f)
  have f64: "length f < 2 ^ 64" "length es < 2 ^ 32" using inp by (simp_all add: sst_input_ok_def)
  have hs: "unat (of_nat (length hs) :: u32) = length hs" using length_chunks_le [OF bo] f64 ch by simp
  have bl: "length ?bl = 20 + 8 * length (bf_bits (sst_bloom sst))" by (simp add: bloom_encode_def)
  have bl32: "unat (of_nat (length ?bl) :: u32) = length ?bl"
    using bits bl by (intro unat_of_nat_u32) simp
  have u: "unat (of_nat ?io :: u64) = ?io" "unat (of_nat (length (encode_index hs)) :: u64) = length (encode_index hs)"
    "unat (of_nat (length body) :: u64) = length body" "unat (of_nat (length ?bl) :: u64) = length ?bl"
    using f64 len by (auto intro!: unat_of_nat_u64 simp del: of_nat_add)
  have "unat (of_nat (length ?bl) :: u64) \<noteq> 0" using u(4) bl by simp
  then have pos: "(of_nat (length ?bl) :: u64) > 0"
    by (metis unat_0 word_gt_0)
  have r1: "read_file_at f (length f - 56) 56 = Ok ?ft"
    using slice_at_end2 [of "body @ le_word (of_nat (length ?bl) :: u32) @ ?bl @ encode_index hs"
        "length f - 56" ?ft 56] len by (simp add: f read_file_at_def)
  have r2: "read_file_at f ?io (length (encode_index hs)) = Ok (encode_index hs)"
    using slice_at_end [of "body @ le_word (of_nat (length ?bl) :: u32) @ ?bl" ?io "encode_index hs"]
    by (simp add: f read_file_at_def)
  have r3: "read_file_at f (length body) 4 = Ok (le_word (of_nat (length ?bl) :: u32))"
    by (simp add: f read_file_at_def)
  have r4: "read_file_at f (length body + 4) (length ?bl) = Ok ?bl"
    using slice_at_end [of "body @ le_word (of_nat (length ?bl) :: u32)" "length body + 4" ?bl]
    by (simp add: f read_file_at_def)
  have hf: "\<forall>h \<in> set hs. header_fits h"
    using blocks_header_fits [OF bo] inp ch f64 len by (auto simp: sst_input_ok_def)
  have n: "get_u32 (encode_index hs) 0 = (Ok (of_nat (length hs)) :: u32 result)"
    by (simp add: encode_index_def get_defs slice_simps)
  have range: "sst_index_range (encode_index hs) 4 (length hs) None None =
      Ok (if hs = [] then None else Some (bh_first (hd hs)), if hs = [] then None else Some (bh_last (last hs)))"
    using sst_index_range_blocks [OF hf, of 4 "le_word (of_nat (length hs) :: u32)" None None]
    by (simp add: encode_index_def)
  have dec: "bloom_decode ?bl = Ok (sst_bloom sst)"
    by (rule table_bloom_decodes [OF bloom bits])
  have g: "get_u32 (le_word x) 0 = (Ok x :: u32 result)" for x
    by (simp add: get_defs slice_simps)
  have long: "\<not> length f < 56" using len by simp
  have "hs = [] \<longleftrightarrow> es = []"
    using concat_hd_last(3) [OF bo] bo ch by (cases hs) auto
  then show ?thesis
    using concat_hd_last(1,2) [OF bo] ch long
    by (simp add: sst_open_def footer_fields r1 r2 r3 r4 n g range u hs bl32 pos dec del: of_nat_add)
qed

section \<open>Properties of a table\<close>

definition example_entries :: "block_entry list" where
  "example_entries = [([1], Some [2]), ([3], None)]"

lemma example_table:
  "\<exists>f t. sst_create Some (\<lambda>_. 0) (\<lambda>_. 0) 0 2 0 example_entries = Ok (f, t) \<and>
     sst_input_ok example_entries f \<and> length (bf_bits (sst_bloom t)) \<le> 1024 * 1024"
  by (simp add: sst_create_def Let_def sst_add_entry_def example_entries_def sst_flush_block_def
      compress_block_with_tombstones_def encode_block_entry_def encode_index_def encode_block_header_def
      bloom_encode_def bloom_insert_def bloom_new_def DEFAULT_BLOOM_BITS_PER_KEY_def
      DATA_BLOCK_TARGET_SIZE_def sst_input_ok_def keys_sorted_def entry_fits_def)

text \<open>C7: A table answers with what was written: for a table created from sorted entries, a
  lookup through bloom filter, block index and compressed blocks returns exactly the entry of
  the key, a tombstone, or nothing, and never an error.\<close>

theorem table_get_written:
  assumes "\<forall>x y. snap x = Some y \<longrightarrow> unsnap y = Some x"
    and "sst_create snap xxh crc now i level es = Ok (f, t)" and "sst_input_ok es f"
  shows "sst_get_with_tombstone unsnap xxh t f k = Ok (map_of es k) \<and>
    sst_get unsnap xxh t f k = Ok (case map_of es k of Some (Some v) \<Rightarrow> Some v | _ \<Rightarrow> None)"
  using sst_get_correct [OF assms(1) sst_create_file_ok [OF assms(2)] assms(3), of k]
  by (simp add: sst_get_def split: option.split)

theorem table_get_written_witness:
  "\<exists>f t. sst_create Some (\<lambda>_. 0) (\<lambda>_. 0) 0 2 0 example_entries = Ok (f, t) \<and>
     sst_get Some (\<lambda>_. 0) t f [1] = Ok (Some [2]) \<and> sst_get_with_tombstone Some (\<lambda>_. 0) t f [3] = Ok (Some None) \<and>
     sst_get_with_tombstone Some (\<lambda>_. 0) t f [4] = Ok None"
proof -
  obtain f t where ft: "sst_create Some (\<lambda>_. 0) (\<lambda>_. 0) 0 2 0 example_entries = Ok (f, t)"
    "sst_input_ok example_entries f" using example_table by blast
  have "\<forall>x y. Some x = Some y \<longrightarrow> Some y = Some x" by simp
  from table_get_written [OF this ft, of "[1]"] table_get_written [OF this ft, of "[3]"]
    table_get_written [OF this ft, of "[4]"]
  show ?thesis using ft(1) by (auto simp: example_entries_def)
qed

text \<open>C8: A range scan of a table returns exactly its entries of the range, tombstones
  included, in order; the plain scan drops the tombstones.\<close>

theorem table_scan_written:
  assumes "\<forall>x y. snap x = Some y \<longrightarrow> unsnap y = Some x"
    and "sst_create snap xxh crc now i level es = Ok (f, t)" and "sst_input_ok es f"
  shows "sst_scan_with_tombstones unsnap f lo hi = Ok (filter (\<lambda>(k, _). lo \<le> k \<and> k < hi) es) \<and>
    sst_scan unsnap f lo hi = Ok [(k, v). (k, Some v) \<leftarrow> es, lo \<le> k \<and> k < hi]"
proof -
  have "List.map_filter (\<lambda>(k, v_opt). map_option (\<lambda>v. (k, v)) v_opt) (filter (\<lambda>(k, _). lo \<le> k \<and> k < hi) xs) =
      [(k, v). (k, Some v) \<leftarrow> xs, lo \<le> k \<and> k < hi]" for xs :: "block_entry list"
    by (induction xs) (auto split: option.split if_splits)
  then show ?thesis
    using sst_scan_correct [OF assms(1) sst_create_file_ok [OF assms(2)] assms(3), of lo hi]
    by (simp add: sst_scan_def)
qed

theorem table_scan_written_witness:
  "\<exists>f t. sst_create Some (\<lambda>_. 0) (\<lambda>_. 0) 0 2 0 example_entries = Ok (f, t) \<and>
     sst_scan Some f [] [4] = Ok [([1], [2])]"
proof -
  obtain f t where ft: "sst_create Some (\<lambda>_. 0) (\<lambda>_. 0) 0 2 0 example_entries = Ok (f, t)"
    "sst_input_ok example_entries f" using example_table by blast
  have "\<forall>x y. Some x = Some y \<longrightarrow> Some y = Some x" by simp
  from table_scan_written [OF this ft, of "[]" "[4]"] show ?thesis using ft(1) by (auto simp: example_entries_def)
qed

text \<open>Reopening a table: \<open>open\<close> on the file of a created table recovers its key range, its
  bloom filter and its size, and the reopened handle answers every lookup as the entries
  say, as long as the filter has at most \<open>2 ^ 20\<close> words.\<close>

theorem table_reopen:
  assumes "\<forall>x y. snap x = Some y \<longrightarrow> unsnap y = Some x"
    and "sst_create snap xxh crc now i level es = Ok (f, t)" and "sst_input_ok es f"
    and "length (bf_bits (sst_bloom t)) \<le> 1024 * 1024"
  shows "\<exists>t'. sst_open now' i level f = Ok t' \<and> t' = t\<lparr>sst_created_at := now'\<rparr> \<and>
    sst_get_with_tombstone unsnap xxh t' f k = Ok (map_of es k)"
proof -
  have ok: "sst_file_ok snap xxh crc es f t" by (rule sst_create_file_ok [OF assms(2)])
  have "t\<lparr>sst_created_at := now'\<rparr> = \<lparr>sst_id = i, sst_level = level,
      sst_key_min = (if es = [] then [] else fst (hd es)),
      sst_key_max = (if es = [] then [] else fst (last es)),
      sst_size = length f, sst_created_at = now', sst_bloom = sst_bloom t\<rparr>"
    using assms(2) by (auto simp: sst_create_def Let_def outcome_simps)
  moreover have "sst_get_with_tombstone unsnap xxh (t\<lparr>sst_created_at := now'\<rparr>) f k = Ok (map_of es k)"
    using sst_get_correct [OF assms(1) ok assms(3), of k] by (simp add: sst_get_with_tombstone_def)
  ultimately show ?thesis
    using sst_open_created [OF ok assms(3,4), of now' i level] by metis
qed

theorem table_reopen_witness:
  "\<exists>f t t'. sst_create Some (\<lambda>_. 0) (\<lambda>_. 0) 0 2 0 example_entries = Ok (f, t) \<and>
     sst_open 7 2 0 f = Ok t' \<and> sst_get_with_tombstone Some (\<lambda>_. 0) t' f [1] = Ok (Some (Some [2]))"
proof -
  obtain f t where ft: "sst_create Some (\<lambda>_. 0) (\<lambda>_. 0) 0 2 0 example_entries = Ok (f, t)"
    "sst_input_ok example_entries f" "length (bf_bits (sst_bloom t)) \<le> 1024 * 1024"
    using example_table by blast
  have "\<forall>x y. Some x = Some y \<longrightarrow> Some y = Some x" by simp
  from table_reopen [OF this ft, of 7 "[1]"] show ?thesis using ft(1) by (auto simp: example_entries_def)
qed

end
