(* ===== verification/Txn.thy ===== *)
theory Txn
  imports Core_Types
begin

text \<open>
  \<open>nova-storage/src/txn.rs\<close>: the transaction manager. The hash map of active
  transactions is a finite map from transaction ids.
\<close>

datatype txn_status = TxActive | TxCommitting | TxCommitted | TxAborted

datatype lock_mode = Conservative | Optimistic

record snapshot =
  sn_transaction_id :: u64
  sn_sequence :: u64

record transaction =
  tx_ident :: u64
  tx_snapshot :: snapshot
  tx_status :: txn_status
  tx_isolation :: isolation_level
  tx_lock_mode :: lock_mode
  tx_write_set :: "(key \<times> val option) list"

record txn_manager =
  tm_next_txn_id :: u64
  tm_active :: "u64 \<Rightarrow> transaction option"

definition tm_new :: txn_manager where
  "tm_new = \<lparr>tm_next_txn_id = 1, tm_active = Map.empty\<rparr>"

definition tm_begin :: "isolation_level \<Rightarrow> lock_mode \<Rightarrow> txn_manager \<Rightarrow> transaction \<times> txn_manager" where
  "tm_begin isolation lock_mode tm =
     (let i = tm_next_txn_id tm;
          txn = \<lparr>tx_ident = i, tx_snapshot = \<lparr>sn_transaction_id = i, sn_sequence = 0\<rparr>,
                 tx_status = TxActive, tx_isolation = isolation, tx_lock_mode = lock_mode,
                 tx_write_set = []\<rparr>
      in (txn, \<lparr>tm_next_txn_id = i + 1, tm_active = (tm_active tm)(i \<mapsto> txn)\<rparr>))"

text \<open>The status written before the removal is not observable.\<close>

definition tm_commit :: "u64 \<Rightarrow> txn_manager \<Rightarrow> txn_manager" where
  "tm_commit i tm =
     (let active = (case tm_active tm i of
                      Some txn \<Rightarrow> (tm_active tm)(i \<mapsto> txn\<lparr>tx_status := TxCommitted\<rparr>)
                    | None \<Rightarrow> tm_active tm)
      in tm\<lparr>tm_active := active(i := None)\<rparr>)"

definition tm_rollback :: "u64 \<Rightarrow> txn_manager \<Rightarrow> txn_manager" where
  "tm_rollback i tm = tm\<lparr>tm_active := (tm_active tm)(i := None)\<rparr>"

definition tm_get :: "u64 \<Rightarrow> txn_manager \<Rightarrow> transaction option" where
  "tm_get i tm = tm_active tm i"

definition tm_register_write ::
  "u64 \<Rightarrow> key \<Rightarrow> val option \<Rightarrow> txn_manager \<Rightarrow> unit result \<times> txn_manager" where
  "tm_register_write i k v tm =
     (case tm_active tm i of
        None \<Rightarrow> (Err (TransactionError ''transaction not found''), tm)
      | Some txn \<Rightarrow>
          if tx_status txn \<noteq> TxActive
          then (Err (TransactionError ''cannot write to inactive transaction''), tm)
          else (Ok (), tm\<lparr>tm_active := (tm_active tm)
                  (i \<mapsto> txn\<lparr>tx_write_set := tx_write_set txn @ [(k, v)]\<rparr>)\<rparr>))"

text \<open>The write set is searched from its oldest entry; every isolation level reads the store.\<close>

definition tm_snapshot_read ::
  "u64 \<Rightarrow> key \<Rightarrow> (key \<Rightarrow> val option result) \<Rightarrow> txn_manager \<Rightarrow> val option result" where
  "tm_snapshot_read i k store_read tm =
     (case tm_active tm i of
        None \<Rightarrow> Err (TransactionError ''transaction not found'')
      | Some txn \<Rightarrow>
          (case map_of (tx_write_set txn) k of
             Some wv \<Rightarrow> Ok wv
           | None \<Rightarrow>
               (case tx_isolation txn of
                  ReadCommitted \<Rightarrow> store_read k
                | RepeatableRead \<Rightarrow> store_read k
                | SnapshotIso \<Rightarrow> store_read k
                | Serializable \<Rightarrow> store_read k)))"

section \<open>Invariant and behaviour\<close>

text \<open>Every active transaction is filed under its id, is active, and is older than the counter.\<close>

definition tm_inv :: "txn_manager \<Rightarrow> bool" where
  "tm_inv tm \<longleftrightarrow> (\<forall>i txn. tm_active tm i = Some txn \<longrightarrow>
     tx_ident txn = i \<and> tx_status txn = TxActive \<and> i < tm_next_txn_id tm)"

lemma tm_inv_new [simp]: "tm_inv tm_new"
  by (simp add: tm_inv_def tm_new_def)

lemma tm_inv_begin:
  assumes "tm_inv tm" and "unat (tm_next_txn_id tm) + 1 < 2 ^ 64"
  shows "tm_inv (snd (tm_begin isol lm tm))"
proof -
  have "unat (tm_next_txn_id tm + 1) = unat (tm_next_txn_id tm) + 1"
    using assms(2) by (intro unat_add1) simp
  then have "j \<le> tm_next_txn_id tm \<Longrightarrow> j < tm_next_txn_id tm + 1" for j
    by (simp add: word_less_nat_alt word_le_nat_alt)
  then show ?thesis
    using assms(1) by (auto simp: tm_inv_def tm_begin_def Let_def less_imp_le)
qed

lemma tm_inv_commit: "tm_inv tm \<Longrightarrow> tm_inv (tm_commit i tm)"
  by (auto simp: tm_inv_def tm_commit_def Let_def split: option.splits if_splits)

lemma tm_inv_rollback: "tm_inv tm \<Longrightarrow> tm_inv (tm_rollback i tm)"
  by (simp add: tm_inv_def tm_rollback_def)

lemma tm_inv_register_write: "tm_inv tm \<Longrightarrow> tm_inv (snd (tm_register_write i k v tm))"
  by (auto simp: tm_inv_def tm_register_write_def split: option.splits)

lemma tm_begin_fresh:
  assumes "tm_inv tm"
  shows "tm_active tm (tx_ident (fst (tm_begin isol lm tm))) = None"
  using assms
  by (cases "tm_active tm (tm_next_txn_id tm)") (auto simp: tm_inv_def tm_begin_def Let_def)

lemma tm_commit_inactive [simp]: "tm_get i (tm_commit i tm) = None"
  by (simp add: tm_get_def tm_commit_def Let_def)

lemma tm_commit_eq_rollback: "tm_commit i tm = tm_rollback i tm"
  by (cases tm) (auto simp: tm_commit_def tm_rollback_def Let_def split: option.split)

lemma tm_read_own_first_write:
  assumes "tm_active tm i = Some txn" and "tx_status txn = TxActive"
    and "map_of (tx_write_set txn) k = None"
  shows "tm_snapshot_read i k rd (snd (tm_register_write i k v tm)) = Ok v"
  using assms by (simp add: tm_snapshot_read_def tm_register_write_def map_add_def)

text \<open>A second write of the same key is not read back: the first one answers.\<close>

lemma tm_second_write_hidden:
  assumes "tm_active tm i = Some txn" and "map_of (tx_write_set txn) k = Some w"
  shows "tm_snapshot_read i k rd (snd (tm_register_write i k v tm)) = Ok w"
  using assms by (simp add: tm_snapshot_read_def tm_register_write_def map_add_def)

section \<open>Properties\<close>

datatype tm_op = TmBegin isolation_level lock_mode | TmCommit u64 | TmRollback u64 | TmWrite u64 key "val option"

fun tm_step :: "txn_manager \<Rightarrow> tm_op \<Rightarrow> txn_manager" where
  "tm_step tm (TmBegin isol lm) = snd (tm_begin isol lm tm)"
| "tm_step tm (TmCommit i) = tm_commit i tm"
| "tm_step tm (TmRollback i) = tm_rollback i tm"
| "tm_step tm (TmWrite i k v) = snd (tm_register_write i k v tm)"

definition tm_begins :: "tm_op list \<Rightarrow> nat" where
  "tm_begins ops = length (filter (\<lambda>op. case op of TmBegin _ _ \<Rightarrow> True | _ \<Rightarrow> False) ops)"

lemma tm_next_id_step:
  "tm_next_txn_id (tm_step tm op) = tm_next_txn_id tm + (case op of TmBegin _ _ \<Rightarrow> 1 | _ \<Rightarrow> 0)"
  by (cases op) (auto simp: tm_begin_def tm_commit_def tm_rollback_def tm_register_write_def Let_def split: option.split)

lemma tm_run_inv:
  assumes "tm_inv tm" and "unat (tm_next_txn_id tm) + tm_begins ops < 2 ^ 64"
  shows "tm_inv (foldl tm_step tm ops) \<and>
    unat (tm_next_txn_id (foldl tm_step tm ops)) = unat (tm_next_txn_id tm) + tm_begins ops"
  using assms
proof (induction ops arbitrary: tm)
  case Nil
  then show ?case by (simp add: tm_begins_def)
next
  case (Cons op ops)
  have one: "tm_inv (tm_step tm op) \<and> unat (tm_next_txn_id (tm_step tm op)) = unat (tm_next_txn_id tm) + tm_begins [op]"
  proof (cases op)
    case (TmBegin isol lm)
    then have b: "unat (tm_next_txn_id tm) + 1 < 2 ^ 64" using Cons.prems(2) by (simp add: tm_begins_def)
    then have "unat (tm_next_txn_id tm + 1) = unat (tm_next_txn_id tm) + 1" by (intro unat_add1) simp
    with TmBegin b show ?thesis
      using tm_inv_begin [OF Cons.prems(1) b, of isol lm] tm_next_id_step [of tm op] by (simp add: tm_begins_def)
  qed (use Cons.prems(1) tm_next_id_step [of tm op] in
      \<open>simp_all add: tm_begins_def tm_inv_commit tm_inv_rollback tm_inv_register_write\<close>)
  have "tm_begins (op # ops) = tm_begins [op] + tm_begins ops" by (simp add: tm_begins_def)
  with Cons.IH [of "tm_step tm op"] one Cons.prems(2) show ?case by simp
qed

text \<open>Transaction ids are unique and the table stays consistent: after any history of begins,
  commits, rollbacks and writes, every active transaction is filed under its own id and is
  active, and the next begin gives an id that none of them has.\<close>

theorem txn_ids_fresh:
  assumes "1 + tm_begins ops < 2 ^ 64"
  shows "tm_inv (foldl tm_step tm_new ops) \<and>
    tm_get (tx_ident (fst (tm_begin isol lm (foldl tm_step tm_new ops)))) (foldl tm_step tm_new ops) = None \<and>
    unat (tx_ident (fst (tm_begin isol lm (foldl tm_step tm_new ops)))) = 1 + tm_begins ops"
proof -
  have run: "tm_inv (foldl tm_step tm_new ops)" "unat (tm_next_txn_id (foldl tm_step tm_new ops)) = 1 + tm_begins ops"
    using tm_run_inv [of tm_new ops] assms tm_inv_new by (auto simp: tm_new_def simp del: tm_inv_new)
  then show ?thesis
    using tm_begin_fresh [OF run(1), of isol lm] by (simp add: tm_get_def tm_begin_def Let_def)
qed

theorem txn_ids_fresh_witness:
  "unat (tx_ident (fst (tm_begin SnapshotIso Optimistic
     (foldl tm_step tm_new [TmBegin ReadCommitted Conservative, TmCommit 1])))) = 2"
  using txn_ids_fresh [of "[TmBegin ReadCommitted Conservative, TmCommit 1]" SnapshotIso Optimistic]
  by (simp add: tm_begins_def)

text \<open>A transaction reads its first write, not its last: after two writes of the same key the
  snapshot read returns the value of the first.\<close>

theorem txn_reads_oldest_write:
  assumes "tm_active tm i = Some txn" and "tx_status txn = TxActive" and "map_of (tx_write_set txn) k = None"
  shows "tm_snapshot_read i k rd
    (snd (tm_register_write i k v2 (snd (tm_register_write i k v1 tm)))) = Ok v1"
  using assms by (simp add: tm_snapshot_read_def tm_register_write_def map_add_def)

theorem txn_reads_oldest_write_witness:
  "tm_snapshot_read 1 [5] (\<lambda>_. Ok None)
     (snd (tm_register_write 1 [5] (Some [2]) (snd (tm_register_write 1 [5] (Some [1])
       (snd (tm_begin SnapshotIso Optimistic tm_new)))))) = Ok (Some [1])"
  by (rule txn_reads_oldest_write [where txn = "fst (tm_begin SnapshotIso Optimistic tm_new)"])
    (simp_all add: tm_begin_def tm_new_def Let_def)

end
