(* ===== verification/Store.thy ===== *)
theory Store
  imports BTree Wal_Log Sstable Txn
begin

text \<open>
  \<open>nova-storage/src/store.rs\<close>: the store that puts the log, the memtable, the sorted
  tables, the page cache, the B-tree and the transaction manager together. Files are part
  of the state: the log directory inside the writer, the table files by level and id.
  Clock readings are arguments; the codec, the hash and the checksum are the record
  \<open>codec\<close>. The only lock a call can take twice is the memtable's, so holding it is an
  argument of \<open>store_flush_memtable\<close>.
\<close>

section \<open>State\<close>

record codec =
  cd_snap :: "bytes \<Rightarrow> bytes option"
  cd_unsnap :: "bytes \<Rightarrow> bytes option"
  cd_xxh :: "bytes \<Rightarrow> u64"
  cd_crc :: "bytes \<Rightarrow> u32"

record storage_config =
  sc_page_cache_size :: nat
  sc_memtable_size :: nat
  sc_fsync_policy :: fsync_policy
  sc_btree_order :: nat

definition storage_config_default :: storage_config where
  "storage_config_default =
     \<lparr>sc_page_cache_size = 16384, sc_memtable_size = 64 * 1024 * 1024,
      sc_fsync_policy = EveryNMs 100, sc_btree_order = 128\<rparr>"

type_synonym sst_files = "(u8 \<times> u64) \<Rightarrow> bytes option"

record store =
  st_config :: storage_config
  st_page_cache :: page_cache
  st_wal :: "wal_writer option"
  st_btree :: btree
  st_memtable :: memtable
  st_sstables :: "sstable list"
  st_files :: sst_files
  st_next_page_id :: u64
  st_next_lsn :: u64
  st_txns :: txn_manager

type_synonym 'a store_op = "(store, runtime_error, 'a) stm"

datatype store_write = StoreSet key val | StoreDelete key

record storage_stats =
  ss_page_count :: u64
  ss_dirty_pages :: u64
  ss_cache_size :: nat
  ss_memtable_size :: nat
  ss_sstable_count :: nat
  ss_wal_segments :: u64
  ss_current_lsn :: lsn
  ss_last_checkpoint :: lsn

definition storage_stats_default :: storage_stats where
  "storage_stats_default = \<lparr>ss_page_count = 0, ss_dirty_pages = 0, ss_cache_size = 0,
     ss_memtable_size = 0, ss_sstable_count = 0, ss_wal_segments = 0, ss_current_lsn = 0,
     ss_last_checkpoint = 0\<rparr>"

section \<open>Opening and recovery\<close>

definition recover_step :: "u64 \<Rightarrow> u64 \<Rightarrow> memtable \<Rightarrow> wal_record \<Rightarrow> memtable" where
  "recover_step max_lsn after_lsn mt r =
     (if wr_lsn r = 0 \<or> wr_lsn r > max_lsn then mt
      else if wr_lsn r \<le> after_lsn then mt
      else case wr_type r of
             WalInsert \<Rightarrow> mt_insert mt (wr_key r) (case wr_value r of Some v \<Rightarrow> v | None \<Rightarrow> [])
           | WalUpdate \<Rightarrow> mt_insert mt (wr_key r) (case wr_value r of Some v \<Rightarrow> v | None \<Rightarrow> [])
           | WalDelete \<Rightarrow> mt_delete mt (wr_key r)
           | _ \<Rightarrow> mt)"

definition store_recover :: "codec \<Rightarrow> wal_reader \<Rightarrow> u64 \<Rightarrow> u64 \<Rightarrow> memtable result" where
  "store_recover cd rd max_lsn after_lsn =
     wal_fold (cd_crc cd) (recover_step max_lsn after_lsn) rd mt_new"

definition digit_val :: "char \<Rightarrow> nat option" where
  "digit_val c = (let n = of_char c :: nat in if 48 \<le> n \<and> n \<le> 57 then Some (n - 48) else None)"

fun parse_digits :: "nat \<Rightarrow> string \<Rightarrow> nat option" where
  "parse_digits acc [] = Some acc"
| "parse_digits acc (c # cs) =
     (case digit_val c of
        None \<Rightarrow> None
      | Some d \<Rightarrow> if acc * 10 + d < 2 ^ 64 then parse_digits (acc * 10 + d) cs else None)"

text \<open>\<open>str::parse::<u64>\<close>: an optional plus sign, at least one digit, no overflow.\<close>

definition parse_u64 :: "string \<Rightarrow> u64 option" where
  "parse_u64 s =
     (let ds = (case s of c # cs \<Rightarrow> if c = CHR ''+'' then cs else s | [] \<Rightarrow> s) in
      if ds = [] then None else map_option of_nat (parse_digits 0 ds))"

definition strip_suffix :: "'a list \<Rightarrow> 'a list \<Rightarrow> 'a list option" where
  "strip_suffix xs suf =
     (let n = length xs - length suf in
      if length suf \<le> length xs \<and> drop n xs = suf then Some (take n xs) else None)"

definition strip_prefix :: "'a list \<Rightarrow> 'a list \<Rightarrow> 'a list option" where
  "strip_prefix xs pre =
     (if take (length pre) xs = pre then Some (drop (length pre) xs) else None)"

text \<open>\<open>str::trim\<close> on ASCII text.\<close>

definition is_space :: "char \<Rightarrow> bool" where
  "is_space c \<longleftrightarrow> (let n = of_char c :: nat in n = 32 \<or> 9 \<le> n \<and> n \<le> 13)"

definition trim_string :: "string \<Rightarrow> string" where
  "trim_string s = rev (dropWhile is_space (rev (dropWhile is_space s)))"

text \<open>
  One directory entry: its name, and its text if it can be read. The comparison is between
  the id in the name and the best sequence number read so far.
\<close>

definition checkpoint_step :: "u64 option \<Rightarrow> string \<times> string option \<Rightarrow> u64 option" where
  "checkpoint_step best entry =
     (case entry of (name, content) \<Rightarrow>
      case Option.bind (strip_suffix name ''.cp'') (\<lambda>stem. strip_prefix stem ''checkpoint_'') of
        None \<Rightarrow> best
      | Some num_str \<Rightarrow>
          (case parse_u64 num_str of
             None \<Rightarrow> best
           | Some checkpoint_id \<Rightarrow>
               if (case best of None \<Rightarrow> True | Some b \<Rightarrow> checkpoint_id > b)
               then (case Option.bind content (\<lambda>c. parse_u64 (trim_string c)) of
                       Some sq \<Rightarrow> Some sq
                     | None \<Rightarrow> best)
               else best))"

definition find_latest_checkpoint :: "(string \<times> string option) list \<Rightarrow> u64 option" where
  "find_latest_checkpoint entries = foldl checkpoint_step None entries"

text \<open>
  \<open>Store::open\<close> on the log directory, the table files left from before (never listed) and
  the entries of the data directory. The reader creates a missing first segment.
\<close>

definition store_open ::
  "codec \<Rightarrow> storage_config \<Rightarrow> wal_dir \<Rightarrow> sst_files \<Rightarrow> (string \<times> string option) list \<Rightarrow> store result" where
  "store_open cd cfg dir files entries =
     (let pc = pc_new (sc_page_cache_size cfg);
          w = wal_open dir (sc_fsync_policy cfg);
          current_lsn = wal_current_lsn w;
          checkpoint_lsn = (case find_latest_checkpoint entries of Some l \<Rightarrow> l | None \<Rightarrow> 0);
          rd = wal_reader_open (ww_dir w)
      in obind (store_recover cd rd current_lsn checkpoint_lsn) (\<lambda>mt.
         Ok \<lparr>st_config = cfg, st_page_cache = pc, st_wal = Some (w\<lparr>ww_dir := rd_dir rd\<rparr>),
             st_btree = bt_new (sc_btree_order cfg), st_memtable = mt, st_sstables = [],
             st_files = files, st_next_page_id = 2, st_next_lsn = current_lsn + 1,
             st_txns = tm_new\<rparr>))"

section \<open>Reading\<close>

definition table_file :: "sst_files \<Rightarrow> sstable \<Rightarrow> bytes result" where
  "table_file files t =
     (case files (sst_level t, sst_id t) of
        Some f \<Rightarrow> Ok f
      | None \<Rightarrow> Err (Io ''No such file or directory''))"

definition table_get :: "codec \<Rightarrow> sst_files \<Rightarrow> key \<Rightarrow> sstable \<Rightarrow> val option option result" where
  "table_get cd files k t =
     (if \<not> bloom_may_contain (cd_xxh cd) (sst_bloom t) k then Ok None
      else obind (table_file files t) (\<lambda>f.
           sst_get_with_tombstone (cd_unsnap cd) (cd_xxh cd) t f k))"

text \<open>The newest table that knows the key answers; a table that fails is skipped.\<close>

fun probe_tables :: "codec \<Rightarrow> sst_files \<Rightarrow> key \<Rightarrow> sstable list \<Rightarrow> val option option result" where
  "probe_tables cd files k [] = Ok None"
| "probe_tables cd files k (t # ts) =
     (case table_get cd files k t of
        Ok (Some opt) \<Rightarrow> Ok (Some opt)
      | Ok None \<Rightarrow> probe_tables cd files k ts
      | Err e \<Rightarrow> probe_tables cd files k ts
      | Panic \<Rightarrow> Panic
      | Deadlock \<Rightarrow> Deadlock)"

definition on_tree :: "'a tree_op \<Rightarrow> 'a store_op" where
  "on_tree op = (\<lambda>s. let (r, (b, pc)) = op (st_btree s, st_page_cache s)
     in (r, s\<lparr>st_btree := b, st_page_cache := pc\<rparr>))"

definition store_get :: "codec \<Rightarrow> nat \<Rightarrow> key \<Rightarrow> val option store_op" where
  "store_get cd fuel k =
     sbind (sget st_memtable) (\<lambda>mt.
     case mt_get_with_tombstone mt k of
       Some v_opt \<Rightarrow> sret v_opt
     | None \<Rightarrow>
         sbind (sget st_files) (\<lambda>files.
         sbind (sget st_sstables) (\<lambda>ssts.
         sbind (slift (probe_tables cd files k (rev ssts))) (\<lambda>r.
         case r of
           Some opt \<Rightarrow> sret opt
         | None \<Rightarrow> on_tree (bt_get (cd_xxh cd) fuel k)))))"

text \<open>The accumulator of a scan: results so far, keys seen live, keys seen dead.\<close>

type_synonym scan_acc = "(key \<times> val) list \<times> key set \<times> key set"

definition scan_note :: "scan_acc \<Rightarrow> key \<times> val option \<Rightarrow> scan_acc" where
  "scan_note acc e =
     (case acc of (results, seen, tombs) \<Rightarrow> case e of (k, opt) \<Rightarrow>
      if k \<in> tombs \<or> k \<in> seen then acc
      else case opt of
             Some v \<Rightarrow> (results @ [(k, v)], insert k seen, tombs)
           | None \<Rightarrow> (results, seen, insert k tombs))"

definition scan_memtable :: "key \<Rightarrow> key \<Rightarrow> memtable \<Rightarrow> scan_acc \<Rightarrow> scan_acc" where
  "scan_memtable lo hi mt acc =
     foldl (\<lambda>acc (k, opt). if k < lo \<or> k \<ge> hi then acc else scan_note acc (k, opt))
       acc (mt_iter_with_tombstones mt)"

fun scan_tables ::
  "codec \<Rightarrow> sst_files \<Rightarrow> key \<Rightarrow> key \<Rightarrow> sstable list \<Rightarrow> scan_acc \<Rightarrow> scan_acc result" where
  "scan_tables cd files lo hi [] acc = Ok acc"
| "scan_tables cd files lo hi (t # ts) acc =
     (case obind (table_file files t) (\<lambda>f. sst_scan_with_tombstones (cd_unsnap cd) f lo hi) of
        Ok es \<Rightarrow> scan_tables cd files lo hi ts (foldl scan_note acc es)
      | Err e \<Rightarrow> scan_tables cd files lo hi ts acc
      | Panic \<Rightarrow> Panic
      | Deadlock \<Rightarrow> Deadlock)"

definition store_scan :: "codec \<Rightarrow> nat \<Rightarrow> key \<Rightarrow> key \<Rightarrow> (key \<times> val) list store_op" where
  "store_scan cd fuel lo hi =
     sbind (sget st_memtable) (\<lambda>mt.
     sbind (sget st_files) (\<lambda>files.
     sbind (sget st_sstables) (\<lambda>ssts.
     sbind (slift (scan_tables cd files lo hi (rev ssts) (scan_memtable lo hi mt ([], {}, {})))) (\<lambda>acc.
     sbind (on_tree (bt_scan fuel lo hi)) (\<lambda>btree_results.
     case foldl scan_note acc (map (\<lambda>(k, v). (k, Some v)) btree_results) of
       (results, _, _) \<Rightarrow> sret (sort_key fst results))))))"

section \<open>Writing\<close>

definition store_append :: "codec \<Rightarrow> wal_record \<Rightarrow> lsn store_op" where
  "store_append cd r = (\<lambda>s.
     case st_wal s of
       None \<Rightarrow> (Panic, s)
     | Some w \<Rightarrow> let (w', res) = wal_append (cd_crc cd) w r in (res, s\<lparr>st_wal := Some w'\<rparr>))"

text \<open>\<open>held\<close>: the caller already holds the memtable's write lock.\<close>

definition store_flush_memtable :: "codec \<Rightarrow> i64 \<Rightarrow> bool \<Rightarrow> unit store_op" where
  "store_flush_memtable cd now held =
     (if held then slift Deadlock
      else sbind (sget st_memtable) (\<lambda>mt.
        if mt_is_empty mt then sret ()
        else
          let entries = mt_iter_with_tombstones mt in
          if entries = [] then sret ()
          else
            sbind (sget st_next_page_id) (\<lambda>i.
            sbind (smod (\<lambda>s. s\<lparr>st_next_page_id := i + 1\<rparr>)) (\<lambda>_.
            sbind (slift (sst_create (cd_snap cd) (cd_xxh cd) (cd_crc cd) now i 0 entries))
              (\<lambda>(f, t).
            smod (\<lambda>s. s\<lparr>st_files := (st_files s)((0, i) \<mapsto> f),
                         st_sstables := st_sstables s @ [t],
                         st_memtable := mt_new\<rparr>))))))"

definition store_set :: "codec \<Rightarrow> i64 \<Rightarrow> key \<Rightarrow> val \<Rightarrow> unit store_op" where
  "store_set cd now k v =
     sbind (store_append cd (make_record now WalInsert 0 k (Some v))) (\<lambda>_.
     sbind (smod (\<lambda>s. s\<lparr>st_memtable := mt_insert (st_memtable s) k v\<rparr>)) (\<lambda>_.
     sbind (sget (\<lambda>s. mt_size (st_memtable s) \<ge> sc_memtable_size (st_config s))) (\<lambda>full.
     if full then store_flush_memtable cd now True else sret ())))"

definition store_delete :: "codec \<Rightarrow> i64 \<Rightarrow> key \<Rightarrow> bool store_op" where
  "store_delete cd now k =
     sbind (store_append cd (make_record now WalDelete 0 k None)) (\<lambda>_.
     sbind (smod (\<lambda>s. s\<lparr>st_memtable := mt_delete (st_memtable s) k\<rparr>)) (\<lambda>_. sret True))"

fun store_batch :: "codec \<Rightarrow> i64 \<Rightarrow> store_write list \<Rightarrow> unit store_op" where
  "store_batch cd now [] = sret ()"
| "store_batch cd now (StoreSet k v # ops) =
     sbind (store_set cd now k v) (\<lambda>_. store_batch cd now ops)"
| "store_batch cd now (StoreDelete k # ops) =
     sbind (store_delete cd now k) (\<lambda>_. store_batch cd now ops)"

section \<open>Transactions\<close>

definition store_snapshot_read :: "codec \<Rightarrow> nat \<Rightarrow> u64 \<Rightarrow> key \<Rightarrow> val option store_op" where
  "store_snapshot_read cd fuel i k = (\<lambda>s.
     (tm_snapshot_read i k (\<lambda>k'. fst (store_get cd fuel k' s)) (st_txns s),
      case tm_active (st_txns s) i of
        Some txn \<Rightarrow> if map_of (tx_write_set txn) k = None then snd (store_get cd fuel k s) else s
      | None \<Rightarrow> s))"

definition store_begin_txn :: "isolation_level \<Rightarrow> transaction store_op" where
  "store_begin_txn isol = (\<lambda>s. let (t, tm) = tm_begin isol Optimistic (st_txns s)
     in (Ok t, s\<lparr>st_txns := tm\<rparr>))"

definition store_commit_txn :: "codec \<Rightarrow> i64 \<Rightarrow> u64 \<Rightarrow> lsn store_op" where
  "store_commit_txn cd now i =
     sbind (smod (\<lambda>s. s\<lparr>st_txns := tm_commit i (st_txns s)\<rparr>)) (\<lambda>_.
     store_append cd (make_record now WalCommit i [] None))"

definition store_rollback_txn :: "codec \<Rightarrow> i64 \<Rightarrow> u64 \<Rightarrow> unit store_op" where
  "store_rollback_txn cd now i =
     sbind (smod (\<lambda>s. s\<lparr>st_txns := tm_rollback i (st_txns s)\<rparr>)) (\<lambda>_.
     sbind (store_append cd (make_record now WalRollback i [] None)) (\<lambda>_. sret ()))"

definition store_commit :: "codec \<Rightarrow> i64 \<Rightarrow> tx_id \<Rightarrow> lsn store_op" where
  "store_commit cd now i = store_append cd (make_record now WalCommit i [] None)"

definition store_rollback :: "codec \<Rightarrow> i64 \<Rightarrow> tx_id \<Rightarrow> unit store_op" where
  "store_rollback cd now i =
     sbind (store_append cd (make_record now WalRollback i [] None)) (\<lambda>_. sret ())"

section \<open>Flushing, checkpoints and compaction\<close>

definition on_wal :: "(wal_writer \<Rightarrow> wal_writer) \<Rightarrow> store \<Rightarrow> store" where
  "on_wal f s = s\<lparr>st_wal := map_option f (st_wal s)\<rparr>"

definition store_flush :: "(page list \<Rightarrow> page list) \<Rightarrow> unit store_op" where
  "store_flush order =
     sbind (\<lambda>s. let (r, pc) = pc_flush order (st_page_cache s) in (r, s\<lparr>st_page_cache := pc\<rparr>)) (\<lambda>_.
     smod (on_wal wal_flush))"

definition store_sync :: "(page list \<Rightarrow> page list) \<Rightarrow> unit store_op" where
  "store_sync order = sbind (store_flush order) (\<lambda>_. smod (on_wal wal_switch_segment))"

definition store_checkpoint :: "codec \<Rightarrow> (page list \<Rightarrow> page list) \<Rightarrow> i64 \<Rightarrow> lsn store_op" where
  "store_checkpoint cd order now =
     sbind (store_flush order) (\<lambda>_.
     sbind (store_flush_memtable cd now False) (\<lambda>_.
     sbind (\<lambda>s. case st_wal s of
                  None \<Rightarrow> (Panic, s)
                | Some w \<Rightarrow> (Ok (wal_current_lsn (wal_flush w)), on_wal wal_flush s)) (\<lambda>current_lsn.
     sbind (store_append cd (make_record now WalCheckpoint 0 [] None)) (\<lambda>_.
     sbind (smod (on_wal wal_flush)) (\<lambda>_.
     sret current_lsn)))))"

definition store_close :: "codec \<Rightarrow> (page list \<Rightarrow> page list) \<Rightarrow> i64 \<Rightarrow> unit store_op" where
  "store_close cd order now =
     sbind (store_flush_memtable cd now False) (\<lambda>_.
     sbind (store_flush order) (\<lambda>_.
     smod (\<lambda>s. s\<lparr>st_wal := None\<rparr>)))"

text \<open>The merge of a compaction, newest table first: the surviving values and the dead keys.\<close>

type_synonym merge_acc = "(bytes, val) btmap \<times> key set"

definition merge_note :: "merge_acc \<Rightarrow> key \<times> val option \<Rightarrow> merge_acc" where
  "merge_note acc e =
     (case acc of (merged, tombs) \<Rightarrow> case e of (k, opt) \<Rightarrow>
      if map_of merged k \<noteq> None \<or> k \<in> tombs then acc
      else case opt of
             Some v \<Rightarrow> (bt_insert k v merged, tombs)
           | None \<Rightarrow> (merged, insert k tombs))"

definition compact_hi :: key where "compact_hi = replicate 256 0xFF"

fun merge_tables :: "codec \<Rightarrow> sst_files \<Rightarrow> sstable list \<Rightarrow> merge_acc \<Rightarrow> merge_acc result" where
  "merge_tables cd files [] acc = Ok acc"
| "merge_tables cd files (t # ts) acc =
     obind (obind (table_file files t) (\<lambda>f.
            sst_scan_with_tombstones (cd_unsnap cd) f [] compact_hi)) (\<lambda>es.
     merge_tables cd files ts (foldl merge_note acc es))"

definition store_compact :: "codec \<Rightarrow> i64 \<Rightarrow> unit store_op" where
  "store_compact cd now =
     sbind (sget st_sstables) (\<lambda>ssts.
     if length ssts < 4 then sret ()
     else
       sbind (sget st_files) (\<lambda>files.
       sbind (slift (merge_tables cd files (rev ssts) ([], {}))) (\<lambda>(merged, _).
       sbind (sget st_next_page_id) (\<lambda>i.
       sbind (smod (\<lambda>s. s\<lparr>st_next_page_id := i + 1\<rparr>)) (\<lambda>_.
       sbind (slift (sst_create (cd_snap cd) (cd_xxh cd) (cd_crc cd) now i 1
                (map (\<lambda>(k, v). (k, Some v)) merged))) (\<lambda>(f, t).
       smod (\<lambda>s. s\<lparr>st_files := foldl (\<lambda>fs old. fs((sst_level old, sst_id old) := None))
                      ((st_files s)((1, i) \<mapsto> f)) ssts,
                   st_sstables := [t]\<rparr>)))))))"

definition store_stats :: "store \<Rightarrow> storage_stats" where
  "store_stats s = \<lparr>ss_page_count = st_next_page_id s,
     ss_dirty_pages = of_nat (pc_dirty_count (st_page_cache s)),
     ss_cache_size = pc_size (st_page_cache s), ss_memtable_size = mt_size (st_memtable s),
     ss_sstable_count = length (st_sstables s), ss_wal_segments = 0,
     ss_current_lsn = st_next_lsn s, ss_last_checkpoint = 0\<rparr>"

section \<open>The \<open>StorageEngine\<close> adapter\<close>

definition to_store_write :: "write_operation \<Rightarrow> store_write" where
  "to_store_write op = (case op of WSet k v \<Rightarrow> StoreSet k v | WDelete k \<Rightarrow> StoreDelete k)"

definition engine_batch :: "codec \<Rightarrow> i64 \<Rightarrow> write_operation list \<Rightarrow> unit store_op" where
  "engine_batch cd now ops = store_batch cd now (map to_store_write ops)"

end
