(* ===== verification/Storage_Engine.thy ===== *)
theory Storage_Engine
  imports Core_Types
begin

text \<open>
  The contract of the \<open>StorageEngine\<close> trait (\<open>nova-core/src/traits.rs\<close>): an engine
  represents a partial map from keys to values. \<open>rep s m\<close> relates a state to the map it
  stands for; \<open>room\<close> bounds how much can still be written before the engine reaches a limit of
  its own. What a client does through the trait is proved once from these laws.
\<close>

definition write_cost :: "write_operation \<Rightarrow> nat" where
  "write_cost op = (case op of WSet k v \<Rightarrow> length k + length v + 8 | WDelete k \<Rightarrow> length k + 8)"

text \<open>What the log can carry in one record: 24 bytes of its payload are fixed.\<close>

definition write_admissible :: "write_operation \<Rightarrow> bool" where
  "write_admissible op \<longleftrightarrow> (case op of WSet k v \<Rightarrow> length k + length v | WDelete k \<Rightarrow> length k) + 24 \<le> 65535"

definition apply_write :: "(key \<Rightarrow> val option) \<Rightarrow> write_operation \<Rightarrow> key \<Rightarrow> val option" where
  "apply_write m op = (case op of WSet k v \<Rightarrow> m(k \<mapsto> v) | WDelete k \<Rightarrow> m(k := None))"

text \<open>An engine handed to a client (\<open>Arc<dyn StorageEngine>\<close>): its operations.\<close>

record ('s, 'e) engine =
  eng_get :: "key \<Rightarrow> ('s, 'e, val option) stm"
  eng_set :: "key \<Rightarrow> val \<Rightarrow> ('s, 'e, unit) stm"
  eng_delete :: "key \<Rightarrow> ('s, 'e, bool) stm"
  eng_scan :: "key \<Rightarrow> key \<Rightarrow> ('s, 'e, (key \<times> val) list) stm"
  eng_batch :: "write_operation list \<Rightarrow> ('s, 'e, unit) stm"

locale storage_engine =
  fixes rep :: "'s \<Rightarrow> (key \<Rightarrow> val option) \<Rightarrow> bool"
    and room :: "'s \<Rightarrow> nat"
    and get :: "key \<Rightarrow> ('s, 'e, val option) stm"
    and put :: "key \<Rightarrow> val \<Rightarrow> ('s, 'e, unit) stm"
    and del :: "key \<Rightarrow> ('s, 'e, bool) stm"
    and scan :: "key \<Rightarrow> key \<Rightarrow> ('s, 'e, (key \<times> val) list) stm"
    and batch :: "write_operation list \<Rightarrow> ('s, 'e, unit) stm"
  assumes get_law: "rep s m \<Longrightarrow> get k s = (Ok (m k), s)"
    and put_law: "rep s m \<Longrightarrow> write_admissible (WSet k v) \<Longrightarrow> write_cost (WSet k v) \<le> room s \<Longrightarrow>
      \<exists>s'. put k v s = (Ok (), s') \<and> rep s' (m(k \<mapsto> v)) \<and> room s \<le> room s' + write_cost (WSet k v)"
    and del_law: "rep s m \<Longrightarrow> write_admissible (WDelete k) \<Longrightarrow> write_cost (WDelete k) \<le> room s \<Longrightarrow>
      \<exists>s'. del k s = (Ok True, s') \<and> rep s' (m(k := None)) \<and> room s \<le> room s' + write_cost (WDelete k)"
    and scan_law: "rep s m \<Longrightarrow> \<exists>es. scan lo hi s = (Ok es, s) \<and> sorted_wrt (<) (map fst es) \<and>
      map_of es = (\<lambda>k. if lo \<le> k \<and> k < hi then m k else None)"
    and batch_Nil: "batch [] s = (Ok (), s)"
    and batch_Set: "batch (WSet k v # ops) s = sbind (put k v) (\<lambda>_. batch ops) s"
    and batch_Delete: "batch (WDelete k # ops) s = sbind (del k) (\<lambda>_. batch ops) s"
begin

lemma batch_step:
  assumes "rep s m" and "write_admissible op" and "write_cost op \<le> room s"
  shows "\<exists>s'. batch (op # ops) s = batch ops s' \<and> rep s' (apply_write m op) \<and>
    room s \<le> room s' + write_cost op"
  using assms put_law [of s m] del_law [of s m]
  by (cases op) (fastforce simp: batch_Set batch_Delete apply_write_def)+

lemma batch_refines:
  assumes "rep s m" and "\<forall>op \<in> set ops. write_admissible op"
    and "sum_list (map write_cost ops) \<le> room s"
  shows "\<exists>s'. batch ops s = (Ok (), s') \<and> rep s' (foldl apply_write m ops)"
  using assms
proof (induction ops arbitrary: s m)
  case Nil
  then show ?case by (auto simp: batch_Nil)
next
  case (Cons op ops)
  then obtain s' where "batch (op # ops) s = batch ops s'" "rep s' (apply_write m op)"
    "room s \<le> room s' + write_cost op"
    using batch_step [of s m op ops] by auto
  moreover from this Cons have "\<exists>s''. batch ops s' = (Ok (), s'') \<and>
      rep s'' (foldl apply_write (apply_write m op) ops)"
    by (intro Cons.IH) auto
  ultimately show ?case by auto
qed

text \<open>Two scans of states that stand for the same map are equal: a scan has no other freedom.\<close>

lemma scan_unique:
  assumes "rep s m" and "rep s' m"
  shows "fst (scan lo hi s) = fst (scan lo hi s')"
proof -
  obtain es es' where e: "scan lo hi s = (Ok es, s)" "sorted_wrt (<) (map fst es)"
    "map_of es = (\<lambda>k. if lo \<le> k \<and> k < hi then m k else None)"
    "scan lo hi s' = (Ok es', s')" "sorted_wrt (<) (map fst es')"
    "map_of es' = (\<lambda>k. if lo \<le> k \<and> k < hi then m k else None)"
    using scan_law [OF assms(1)] scan_law [OF assms(2)] by meson
  have "set es = set es'"
    using e by (intro iffD1 [OF map_of_inject_set]) (auto simp: strict_sorted_iff)
  moreover have "sorted (map fst es)" "sorted (map fst es')" using e by (auto simp: strict_sorted_iff)
  ultimately have "es = es'"
    using e map_sorted_distinct_set_unique [of fst es es'] by (auto simp: strict_sorted_iff distinct_map)
  with e show ?thesis by simp
qed

lemma scan_member:
  assumes "rep s m" and "scan lo hi s = (Ok es, s')"
  shows "(k, v) \<in> set es \<longleftrightarrow> lo \<le> k \<and> k < hi \<and> m k = Some v"
proof -
  obtain es' where "scan lo hi s = (Ok es', s)" "sorted_wrt (<) (map fst es')"
    "map_of es' = (\<lambda>k. if lo \<le> k \<and> k < hi then m k else None)"
    using scan_law [OF assms(1)] by meson
  with assms(2) show ?thesis
    by (auto simp: strict_sorted_iff simp flip: map_of_eq_Some_iff split: if_splits)
qed

end

end
