(* ===== verification/Store_Correct.thy ===== *)
theory Store_Correct
  imports Store Storage_Engine
begin

text \<open>
  What the store promises. \<open>store_rep\<close> relates a store to the map it stands for, both through
  its layers (memtable over tables) and through its log, so that reading, scanning and
  reopening all answer with the same map; every operation is proved against it.
\<close>

section \<open>Representation\<close>

definition codec_ok :: "codec \<Rightarrow> bool" where
  "codec_ok cd \<longleftrightarrow> (\<forall>x y. cd_snap cd x = Some y \<longrightarrow> cd_unsnap cd y = Some x)"

definition table_ok :: "codec \<Rightarrow> sst_files \<Rightarrow> sstable \<Rightarrow> block_entry list \<Rightarrow> bool" where
  "table_ok cd files t es \<longleftrightarrow> (\<exists>f. files (sst_level t, sst_id t) = Some f \<and>
     sst_file_ok (cd_snap cd) (cd_xxh cd) (cd_crc cd) es f t \<and> sst_input_ok es f)"

text \<open>Oldest table first: a later one overrides.\<close>

definition tables_view :: "block_entry list list \<Rightarrow> key \<Rightarrow> val option option" where
  "tables_view ess = foldl (\<lambda>m es. m ++ map_of es) Map.empty ess"

definition collapse :: "(key \<Rightarrow> val option option) \<Rightarrow> key \<Rightarrow> val option" where
  "collapse L k = (case L k of Some (Some v) \<Rightarrow> Some v | _ \<Rightarrow> None)"

definition layers_ok :: "codec \<Rightarrow> store \<Rightarrow> (key \<Rightarrow> val option option) \<Rightarrow> bool" where
  "layers_ok cd s L \<longleftrightarrow> mt_wf (st_memtable s) \<and> mt_bytes (st_memtable s) \<le> mt_size (st_memtable s) \<and>
     (\<forall>e \<in> set (mt_iter_with_tombstones (st_memtable s)). entry_fits e) \<and>
     (\<forall>t \<in> set (st_sstables s). sst_id t < st_next_page_id s) \<and> bt_root_id (st_btree s) = 0 \<and>
     (\<exists>ess. list_all2 (table_ok cd (st_files s)) (st_sstables s) ess \<and>
        L = tables_view ess ++ mt_get_with_tombstone (st_memtable s))"

definition log_step :: "(key \<Rightarrow> val option) \<Rightarrow> wal_record \<Rightarrow> key \<Rightarrow> val option" where
  "log_step m r =
     (if wr_type r = WalInsert \<or> wr_type r = WalUpdate
      then m(wr_key r \<mapsto> (case wr_value r of Some v \<Rightarrow> v | None \<Rightarrow> []))
      else if wr_type r = WalDelete then m(wr_key r := None) else m)"

definition log_map :: "wal_record list \<Rightarrow> key \<Rightarrow> val option" where
  "log_map rs = foldl log_step Map.empty rs"

definition log_ok :: "codec \<Rightarrow> wal_writer option \<Rightarrow> wal_record list \<Rightarrow> bool" where
  "log_ok cd wo rs \<longleftrightarrow> (\<exists>w segs. wo = Some w \<and> wal_inv (cd_crc cd) w segs \<and> concat segs = rs)"

definition store_rep :: "codec \<Rightarrow> store \<Rightarrow> (key \<Rightarrow> val option) \<Rightarrow> bool" where
  "store_rep cd s m \<longleftrightarrow> codec_ok cd \<and> (\<exists>L rs. layers_ok cd s L \<and> log_ok cd (st_wal s) rs \<and>
     m = collapse L \<and> m = log_map rs)"

lemma store_repI:
  "codec_ok cd \<Longrightarrow> layers_ok cd s L \<Longrightarrow> log_ok cd (st_wal s) rs \<Longrightarrow> m = collapse L \<Longrightarrow>
   m = log_map rs \<Longrightarrow> store_rep cd s m"
  unfolding store_rep_def by blast

definition wal_room :: "wal_writer option \<Rightarrow> nat" where
  "wal_room wo = (case wo of Some w \<Rightarrow> 2 ^ 64 - 1 - unat (ww_lsn w) | None \<Rightarrow> 0)"

definition store_room :: "store \<Rightarrow> nat" where
  "store_room s = min (sc_memtable_size (st_config s) - 1 - mt_size (st_memtable s)) (wal_room (st_wal s))"

lemma collapse_simps [simp]:
  "collapse (L(k \<mapsto> Some v)) = (collapse L)(k \<mapsto> v)"
  "collapse (L(k \<mapsto> None)) = (collapse L)(k := None)"
  "collapse Map.empty = Map.empty"
  by (auto simp: collapse_def fun_eq_iff)

lemma tables_view_snoc: "tables_view (ess @ [es]) = tables_view ess ++ map_of es"
  by (simp add: tables_view_def)

lemma tables_view_Nil [simp]: "tables_view [] = Map.empty"
  by (simp add: tables_view_def)

lemma log_map_snoc: "log_map (rs @ [r]) = log_step (log_map rs) r"
  by (simp add: log_map_def)

section \<open>Reading\<close>

lemma table_get_ok:
  assumes "codec_ok cd" and "table_ok cd files t es"
  shows "table_get cd files k t = Ok (map_of es k)"
proof -
  obtain f where f: "files (sst_level t, sst_id t) = Some f"
    "sst_file_ok (cd_snap cd) (cd_xxh cd) (cd_crc cd) es f t" "sst_input_ok es f"
    using assms(2) by (auto simp: table_ok_def)
  have "sst_get_with_tombstone (cd_unsnap cd) (cd_xxh cd) t f k = Ok (map_of es k)"
    using assms(1) f by (intro sst_get_correct) (auto simp: codec_ok_def)
  then show ?thesis
    using f(1) by (auto simp: table_get_def table_file_def sst_get_with_tombstone_def split: if_splits)
qed

lemma probe_tables_ok:
  assumes "codec_ok cd" and "list_all2 (table_ok cd files) ts ess"
  shows "probe_tables cd files k ts = Ok (tables_view (rev ess) k)"
  using assms(2)
proof (induction ts ess rule: list_all2_induct)
  case Nil
  then show ?case by simp
next
  case (Cons t ts es ess)
  then show ?case
    using table_get_ok [OF assms(1) Cons.hyps(1), of k]
    by (simp add: tables_view_snoc map_add_def split: option.split)
qed

lemma on_tree_get:
  "bt_root_id (st_btree s) = 0 \<Longrightarrow> on_tree (bt_get xxh fuel k) s = (Ok None, s)"
  by (cases "st_btree s") (simp add: on_tree_def bt_get_no_root)

lemma store_get_ok:
  assumes "codec_ok cd" and "layers_ok cd s L"
  shows "store_get cd fuel k s = (Ok (collapse L k), s)"
proof -
  obtain ess where ess: "list_all2 (table_ok cd (st_files s)) (st_sstables s) ess"
    and L: "L = tables_view ess ++ mt_get_with_tombstone (st_memtable s)"
    and root: "bt_root_id (st_btree s) = 0"
    using assms(2) by (auto simp: layers_ok_def)
  have "probe_tables cd (st_files s) k (rev (st_sstables s)) = Ok (tables_view ess k)"
    using probe_tables_ok [OF assms(1), of "st_files s" "rev (st_sstables s)" "rev ess" k] ess by simp
  then show ?thesis
    using on_tree_get [OF root, of "cd_xxh cd" fuel k]
    by (auto simp: store_get_def L collapse_def map_add_def split: option.split)
qed

section \<open>Scanning\<close>

text \<open>The accumulator of a scan stands for the layers visited so far.\<close>

definition acc_rep :: "scan_acc \<Rightarrow> (key \<Rightarrow> val option option) \<Rightarrow> bool" where
  "acc_rep acc A \<longleftrightarrow> (case acc of (results, seen, tombs) \<Rightarrow>
     distinct (map fst results) \<and> seen = fst ` set results \<and> map_of results = collapse A \<and>
     tombs = {k. A k = Some None})"

lemma map_of_snoc_fresh: "k \<notin> fst ` set xs \<Longrightarrow> map_of (xs @ [(k, v)]) = (map_of xs)(k \<mapsto> v)"
  by (induction xs) (auto simp: fun_eq_iff)

lemma acc_rep_note:
  assumes "acc_rep acc A"
  shows "acc_rep (scan_note acc (k, opt)) ([k \<mapsto> opt] ++ A)"
proof -
  obtain results seen tombs where acc: "acc = (results, seen, tombs)" by (cases acc)
  have s: "seen = fst ` set results" and m: "map_of results = collapse A"
    and d: "distinct (map fst results)" and t: "tombs = {k. A k = Some None}"
    using assms by (simp_all add: acc acc_rep_def)
  have in_seen: "k \<in> seen \<longleftrightarrow> (\<exists>v. A k = Some (Some v))"
  proof -
    have "k \<in> seen \<longleftrightarrow> map_of results k \<noteq> None" unfolding s by (simp add: map_of_eq_None_iff)
    then show ?thesis by (auto simp: m collapse_def split: option.splits)
  qed
  show ?thesis
  proof (cases "A k")
    case None
    then have new: "[k \<mapsto> opt] ++ A = A(k \<mapsto> opt)" by (auto simp: fun_eq_iff map_add_def split: option.split)
    from None in_seen t have "k \<notin> seen" "k \<notin> tombs" by auto
    moreover have "(collapse A)(k := None) = collapse A"
      using None by (simp add: collapse_def fun_eq_iff)
    ultimately show ?thesis
      unfolding new acc using s m d t
      by (cases opt) (auto simp: acc_rep_def scan_note_def map_of_snoc_fresh simp del: map_of_append)
  next
    case (Some x)
    then have "[k \<mapsto> opt] ++ A = A" by (auto simp: fun_eq_iff map_add_def split: option.split)
    moreover from Some in_seen t have "k \<in> seen \<or> k \<in> tombs" by (cases x) auto
    ultimately show ?thesis using assms by (auto simp: acc scan_note_def)
  qed
qed

lemma acc_rep_notes:
  "acc_rep acc A \<Longrightarrow> acc_rep (foldl scan_note acc es) (map_of es ++ A)"
proof (induction es arbitrary: acc A)
  case Nil
  then show ?case by simp
next
  case (Cons e es)
  obtain k opt where e: "e = (k, opt)" by (cases e)
  have eq: "map_of es ++ ([k \<mapsto> opt] ++ A) = map_of (e # es) ++ A"
    by (simp add: e map_add_assoc)
  have "acc_rep (foldl scan_note acc (e # es)) (map_of es ++ ([k \<mapsto> opt] ++ A))"
    using Cons.IH [OF acc_rep_note [OF Cons.prems, of k opt]] by (simp add: e)
  then show ?case by (simp only: eq)
qed

definition restrict_range :: "key \<Rightarrow> key \<Rightarrow> (key \<Rightarrow> 'v option) \<Rightarrow> key \<Rightarrow> 'v option" where
  "restrict_range lo hi m k = (if lo \<le> k \<and> k < hi then m k else None)"

lemma restrict_range_add:
  "restrict_range lo hi (m ++ m') = restrict_range lo hi m ++ restrict_range lo hi m'"
  by (auto simp: restrict_range_def map_add_def fun_eq_iff split: option.split)

lemma restrict_range_map_of:
  "map_of (filter (\<lambda>(k, _). lo \<le> k \<and> k < hi) es) = restrict_range lo hi (map_of es)"
  using map_of_filter_key [of "\<lambda>k. lo \<le> k \<and> k < hi" es] by (simp add: restrict_range_def fun_eq_iff)

lemma restrict_range_collapse:
  "collapse (restrict_range lo hi L) = restrict_range lo hi (collapse L)"
  by (simp add: collapse_def restrict_range_def fun_eq_iff)

lemma scan_memtable_filter:
  "scan_memtable lo hi mt acc =
     foldl scan_note acc (filter (\<lambda>(k, _). lo \<le> k \<and> k < hi) (mt_iter_with_tombstones mt))"
proof -
  have out: "(k < lo \<or> k \<ge> hi) = (\<not> (lo \<le> k \<and> k < hi))" for k by auto
  have "foldl (\<lambda>acc (k, opt). if k < lo \<or> k \<ge> hi then acc else scan_note acc (k, opt)) acc es =
      foldl scan_note acc (filter (\<lambda>(k, _). lo \<le> k \<and> k < hi) es)" for es
  proof (induction es arbitrary: acc)
    case (Cons e es)
    obtain k opt where e: "e = (k, opt)" by (cases e)
    show ?case
      by (cases "lo \<le> k \<and> k < hi") (simp_all only: e foldl_Cons filter.simps prod.case out if_True if_False
          simp_thms Cons.IH [unfolded out])
  qed simp
  then show ?thesis by (simp add: scan_memtable_def)
qed

lemma table_scan_ok:
  assumes "codec_ok cd" and "table_ok cd files t es"
  shows "obind (table_file files t) (\<lambda>f. sst_scan_with_tombstones (cd_unsnap cd) f lo hi) =
    Ok (filter (\<lambda>(k, _). lo \<le> k \<and> k < hi) es)"
proof -
  obtain f where f: "files (sst_level t, sst_id t) = Some f"
    "sst_file_ok (cd_snap cd) (cd_xxh cd) (cd_crc cd) es f t" "sst_input_ok es f"
    using assms(2) by (auto simp: table_ok_def)
  have "sst_scan_with_tombstones (cd_unsnap cd) f lo hi = Ok (filter (\<lambda>(k, _). lo \<le> k \<and> k < hi) es)"
    using assms(1) f by (intro sst_scan_correct) (auto simp: codec_ok_def)
  with f(1) show ?thesis by (simp add: table_file_def)
qed

lemma scan_tables_ok:
  assumes "codec_ok cd" and "list_all2 (table_ok cd files) ts ess" and "acc_rep acc A"
  shows "\<exists>acc'. scan_tables cd files lo hi ts acc = Ok acc' \<and>
    acc_rep acc' (restrict_range lo hi (tables_view (rev ess)) ++ A)"
  using assms(2,3)
proof (induction ts ess arbitrary: acc A rule: list_all2_induct)
  case Nil
  then show ?case by (simp add: restrict_range_def [abs_def] map_add_def)
next
  case (Cons t ts es ess)
  have "acc_rep (foldl scan_note acc (filter (\<lambda>(k, _). lo \<le> k \<and> k < hi) es))
      (restrict_range lo hi (map_of es) ++ A)"
    using acc_rep_notes [OF Cons.prems, of "filter (\<lambda>(k, _). lo \<le> k \<and> k < hi) es"]
    by (simp only: restrict_range_map_of)
  from Cons.IH [OF this] show ?case
    by (simp add: table_scan_ok [OF assms(1) Cons.hyps(1)] tables_view_snoc restrict_range_add map_add_assoc)
qed

lemma map_of_sort_key:
  assumes "distinct (map fst (xs :: ('k::linorder \<times> 'v) list))"
  shows "map_of (sort_key fst xs) = map_of xs" and "sorted_wrt (<) (map fst (sort_key fst xs))"
proof -
  have d: "distinct (map fst (sort_key fst xs))"
    using assms by (simp add: distinct_map)
  then show "map_of (sort_key fst xs) = map_of xs"
    using assms by (simp add: map_of_inject_set)
  show "sorted_wrt (<) (map fst (sort_key fst xs))"
    using d by (simp add: strict_sorted_iff)
qed

lemma store_scan_ok:
  assumes "codec_ok cd" and "layers_ok cd s L"
  shows "\<exists>es. store_scan cd fuel lo hi s = (Ok es, s) \<and> sorted_wrt (<) (map fst es) \<and>
    map_of es = restrict_range lo hi (collapse L)"
proof -
  let ?mt = "st_memtable s"
  obtain ess where ess: "list_all2 (table_ok cd (st_files s)) (st_sstables s) ess"
    and L: "L = tables_view ess ++ mt_get_with_tombstone ?mt"
    and root: "bt_root_id (st_btree s) = 0"
    using assms(2) by (auto simp: layers_ok_def)
  have "acc_rep ([], {}, {}) Map.empty" by (simp add: acc_rep_def)
  from acc_rep_notes [OF this, of "filter (\<lambda>(k, _). lo \<le> k \<and> k < hi) (mt_iter_with_tombstones ?mt)"]
  have "acc_rep (scan_memtable lo hi ?mt ([], {}, {})) (restrict_range lo hi (mt_get_with_tombstone ?mt))"
    by (simp add: scan_memtable_filter restrict_range_map_of)
  from scan_tables_ok [OF assms(1) _ this, of "st_files s" "rev (st_sstables s)" "rev ess" lo hi] ess
  obtain acc where sc: "scan_tables cd (st_files s) lo hi (rev (st_sstables s))
      (scan_memtable lo hi ?mt ([], {}, {})) = Ok acc"
    and rep: "acc_rep acc (restrict_range lo hi L)"
    by (auto simp: L restrict_range_add)
  obtain results seen tombs where acc: "acc = (results, seen, tombs)" by (cases acc)
  have tree: "on_tree (bt_scan fuel lo hi) s = (Ok [], s)"
    using root by (cases "st_btree s") (simp add: on_tree_def bt_scan_no_root)
  have "distinct (map fst results)" "map_of results = restrict_range lo hi (collapse L)"
    using rep by (simp_all add: acc acc_rep_def restrict_range_collapse)
  then show ?thesis
    using sc tree map_of_sort_key [of results] by (simp add: store_scan_def acc)
qed

section \<open>Writing\<close>

lemma layers_ok_wal [simp]: "layers_ok cd (s\<lparr>st_wal := w\<rparr>) L = layers_ok cd s L"
  by (simp add: layers_ok_def)

lemma memtable_entries_all:
  assumes "mt_wf mt"
  shows "(\<forall>e \<in> set (mt_iter_with_tombstones mt). P e) \<longleftrightarrow>
    (\<forall>k x. mt_get_with_tombstone mt k = Some x \<longrightarrow> P (k, x))"
proof -
  have "distinct (map fst (mt_iter_with_tombstones mt))"
    using bt_wf_distinct [OF bt_wf_iter [OF assms]] .
  then have "(k, x) \<in> set (mt_iter_with_tombstones mt) \<longleftrightarrow> mt_get_with_tombstone mt k = Some x" for k x
    by (simp flip: map_of_iter)
  then show ?thesis by auto
qed

lemma layers_ok_insert:
  assumes "layers_ok cd s L" and "length k < 2 ^ 32" and "length v < 2 ^ 32 - 1"
  shows "layers_ok cd (s\<lparr>st_memtable := mt_insert (st_memtable s) k v\<rparr>) (L(k \<mapsto> Some v))"
proof -
  have wf: "mt_wf (st_memtable s)" using assms(1) by (simp add: layers_ok_def)
  have "\<forall>e \<in> set (mt_iter_with_tombstones (mt_insert (st_memtable s) k v)). entry_fits e"
    using assms wf by (auto simp: layers_ok_def memtable_entries_all entry_fits_def)
  then show ?thesis
    using assms(1) mt_size_insert [OF wf] by (auto simp: layers_ok_def)
qed

lemma layers_ok_delete:
  assumes "layers_ok cd s L" and "length k < 2 ^ 32"
  shows "layers_ok cd (s\<lparr>st_memtable := mt_delete (st_memtable s) k\<rparr>) (L(k \<mapsto> None))"
proof -
  have wf: "mt_wf (st_memtable s)" using assms(1) by (simp add: layers_ok_def)
  have "\<forall>e \<in> set (mt_iter_with_tombstones (mt_delete (st_memtable s) k)). entry_fits e"
    using assms wf by (auto simp: layers_ok_def memtable_entries_all entry_fits_def)
  then show ?thesis
    using assms(1) mt_size_delete [OF wf] by (auto simp: layers_ok_def)
qed

lemma store_append_ok:
  assumes "log_ok cd (st_wal s) rs" and "length (encode_payload r) \<le> 65535" and "1 \<le> wal_room (st_wal s)"
  shows "\<exists>w l. store_append cd r s = (Ok l, s\<lparr>st_wal := Some w\<rparr>) \<and>
    log_ok cd (Some w) (rs @ [stamp (cd_crc cd) l r]) \<and> wal_room (st_wal s) \<le> wal_room (Some w) + 1"
proof -
  obtain w segs where w: "st_wal s = Some w" "wal_inv (cd_crc cd) w segs" "concat segs = rs"
    using assms(1) by (auto simp: log_ok_def)
  let ?w = "fst (wal_append (cd_crc cd) w r)" and ?l = "ww_lsn w + 1"
  have lsn: "unat (ww_lsn w) + 1 < 2 ^ 64" using assms(3) w(1) by (simp add: wal_room_def)
  have u: "unat ?l = unat (ww_lsn w) + 1" using lsn by (intro unat_add1) simp
  have "wal_inv (cd_crc cd) ?w (butlast segs @ [last segs @ [stamp (cd_crc cd) ?l r]])"
    by (rule wal_append_inv [OF w(2) assms(2) lsn])
  moreover have "concat (butlast segs @ [last segs @ [stamp (cd_crc cd) ?l r]]) = rs @ [stamp (cd_crc cd) ?l r]"
    using w by (subst concat_butlast_last) (auto simp: wal_inv_def log_dir_def)
  ultimately have "log_ok cd (Some ?w) (rs @ [stamp (cd_crc cd) ?l r])"
    unfolding log_ok_def by blast
  moreover have "store_append cd r s = (Ok ?l, s\<lparr>st_wal := Some ?w\<rparr>)"
    using w(1) wal_append_accepted(1) [OF assms(2), of "cd_crc cd" w]
    by (cases "wal_append (cd_crc cd) w r") (simp add: store_append_def)
  moreover have "wal_room (st_wal s) \<le> wal_room (Some ?w) + 1"
    using w(1) u wal_append_accepted(2) [OF assms(2), of "cd_crc cd" w] by (simp add: wal_room_def)
  ultimately show ?thesis by blast
qed

lemma log_step_stamp:
  "log_step m (stamp crc l (make_record now WalInsert i k (Some v))) = m(k \<mapsto> v)"
  "log_step m (stamp crc l (make_record now WalDelete i k x)) = m(k := None)"
  "ty \<notin> {WalInsert, WalUpdate, WalDelete} \<Longrightarrow> log_step m (stamp crc l (make_record now ty i k x)) = m"
  by (auto simp: log_step_def stamp_def make_record_def stored_value_def)

lemma length_payload_make [simp]:
  "length (encode_payload (make_record now ty i k v)) =
     24 + length k + (case v of Some x \<Rightarrow> length x | None \<Rightarrow> 0)"
  by (simp add: length_encode_payload make_record_def)

lemma mt_size_insert_le: "mt_size (mt_insert mt k v) \<le> mt_size mt + (length k + length v + 8)"
  by (auto simp: mt_insert_def Let_def split: option.split)

lemma mt_size_delete_le: "mt_size (mt_delete mt k) \<le> mt_size mt + (length k + 8)"
  by (auto simp: mt_delete_def Let_def split: option.split)

lemma store_set_ok:
  assumes rep: "store_rep cd s m" and adm: "write_admissible (WSet k v)"
    and room: "write_cost (WSet k v) \<le> store_room s"
  shows "\<exists>s'. store_set cd now k v s = (Ok (), s') \<and> store_rep cd s' (m(k \<mapsto> v)) \<and>
    store_room s \<le> store_room s' + write_cost (WSet k v) \<and> st_config s' = st_config s"
proof -
  let ?r = "make_record now WalInsert 0 k (Some v)" and ?mt = "mt_insert (st_memtable s) k v"
  obtain L rs where L: "codec_ok cd" "layers_ok cd s L" "log_ok cd (st_wal s) rs" "m = collapse L" "m = log_map rs"
    using rep by (auto simp: store_rep_def)
  have len: "length k + length v + 24 \<le> 65535" using adm by (simp add: write_admissible_def)
  have r: "length k + length v + 8 \<le> sc_memtable_size (st_config s) - 1 - mt_size (st_memtable s)"
    "length k + length v + 8 \<le> wal_room (st_wal s)"
    using room by (simp_all add: store_room_def write_cost_def)
  obtain w l where w: "store_append cd ?r s = (Ok l, s\<lparr>st_wal := Some w\<rparr>)"
    "log_ok cd (Some w) (rs @ [stamp (cd_crc cd) l ?r])" "wal_room (st_wal s) \<le> wal_room (Some w) + 1"
    using store_append_ok [OF L(3), of ?r] len r(2) by auto
  let ?s = "s\<lparr>st_wal := Some w, st_memtable := ?mt\<rparr>"
  have "layers_ok cd ?s (L(k \<mapsto> Some v))"
    using layers_ok_insert [of cd "s\<lparr>st_wal := Some w\<rparr>" L k v] L(2) len by simp
  then have "store_rep cd ?s (m(k \<mapsto> v))"
    unfolding store_rep_def using L w(2)
    by (intro conjI exI [of _ "L(k \<mapsto> Some v)"] exI [of _ "rs @ [stamp (cd_crc cd) l ?r]"])
      (simp_all add: log_map_snoc log_step_stamp)
  moreover have "\<not> sc_memtable_size (st_config s) \<le> mt_size ?mt"
    using r(1) mt_size_insert_le [of "st_memtable s" k v] by simp
  then have "store_set cd now k v s = (Ok (), ?s)"
    using w(1) by (simp add: store_set_def)
  moreover have "store_room s \<le> store_room ?s + write_cost (WSet k v)"
    using w(3) r mt_size_insert_le [of "st_memtable s" k v] by (simp add: store_room_def write_cost_def)
  ultimately show ?thesis by (intro exI [of _ ?s]) simp
qed

lemma store_delete_ok:
  assumes rep: "store_rep cd s m" and adm: "write_admissible (WDelete k)"
    and room: "write_cost (WDelete k) \<le> store_room s"
  shows "\<exists>s'. store_delete cd now k s = (Ok True, s') \<and> store_rep cd s' (m(k := None)) \<and>
    store_room s \<le> store_room s' + write_cost (WDelete k) \<and> st_config s' = st_config s"
proof -
  let ?r = "make_record now WalDelete 0 k None" and ?mt = "mt_delete (st_memtable s) k"
  obtain L rs where L: "codec_ok cd" "layers_ok cd s L" "log_ok cd (st_wal s) rs" "m = collapse L" "m = log_map rs"
    using rep by (auto simp: store_rep_def)
  have len: "length k + 24 \<le> 65535" using adm by (simp add: write_admissible_def)
  have r: "length k + 8 \<le> wal_room (st_wal s)"
    using room by (simp add: store_room_def write_cost_def)
  obtain w l where w: "store_append cd ?r s = (Ok l, s\<lparr>st_wal := Some w\<rparr>)"
    "log_ok cd (Some w) (rs @ [stamp (cd_crc cd) l ?r])" "wal_room (st_wal s) \<le> wal_room (Some w) + 1"
    using store_append_ok [OF L(3), of ?r] len r by auto
  let ?s = "s\<lparr>st_wal := Some w, st_memtable := ?mt\<rparr>"
  have "layers_ok cd ?s (L(k \<mapsto> None))"
    using layers_ok_delete [of cd "s\<lparr>st_wal := Some w\<rparr>" L k] L(2) len by simp
  then have "store_rep cd ?s (m(k := None))"
    unfolding store_rep_def using L w(2)
    by (intro conjI exI [of _ "L(k \<mapsto> None)"] exI [of _ "rs @ [stamp (cd_crc cd) l ?r]"])
      (simp_all add: log_map_snoc log_step_stamp)
  moreover have "store_delete cd now k s = (Ok True, ?s)"
    using w(1) by (simp add: store_delete_def)
  moreover have "store_room s \<le> store_room ?s + write_cost (WDelete k)"
    using w(3) r mt_size_delete_le [of "st_memtable s" k] by (simp add: store_room_def write_cost_def)
  ultimately show ?thesis by (intro exI [of _ ?s]) simp
qed

lemma store_rep_get: "store_rep cd s m \<Longrightarrow> store_get cd fuel k s = (Ok (m k), s)"
  by (auto simp: store_rep_def store_get_ok)

lemma store_rep_scan:
  assumes "store_rep cd s m"
  shows "\<exists>es. store_scan cd fuel lo hi s = (Ok es, s) \<and> sorted_wrt (<) (map fst es) \<and>
    map_of es = (\<lambda>k. if lo \<le> k \<and> k < hi then m k else None)"
  using assms store_scan_ok [of cd s _ fuel lo hi]
  by (auto simp: store_rep_def restrict_range_def [abs_def])

interpretation store_engine: storage_engine "store_rep cd" store_room "store_get cd fuel"
  "store_set cd now" "store_delete cd now" "store_scan cd fuel" "engine_batch cd now"
proof unfold_locales
  show "\<exists>s'. store_set cd now k v s = (Ok (), s') \<and> store_rep cd s' (m(k \<mapsto> v)) \<and>
      store_room s \<le> store_room s' + write_cost (WSet k v)"
    if "store_rep cd s m" "write_admissible (WSet k v)" "write_cost (WSet k v) \<le> store_room s" for s m k v
    using store_set_ok [OF that, of now] by blast
  show "\<exists>s'. store_delete cd now k s = (Ok True, s') \<and> store_rep cd s' (m(k := None)) \<and>
      store_room s \<le> store_room s' + write_cost (WDelete k)"
    if "store_rep cd s m" "write_admissible (WDelete k)" "write_cost (WDelete k) \<le> store_room s" for s m k
    using store_delete_ok [OF that, of now] by blast
qed (simp_all add: store_rep_get store_rep_scan engine_batch_def to_store_write_def)

end
