(* ===== verification/Store_Recovery.thy ===== *)
theory Store_Recovery
  imports Store_Correct
begin

text \<open>
  The store's maintenance and its restart: flushing the memtable to a table, merging tables,
  the transaction records, checkpoints, and \<open>Store::open\<close> replaying the log. Each keeps the
  map the store stands for.
\<close>

section \<open>Operations that only touch the log\<close>

lemma store_rep_append:
  assumes "store_rep cd s m" and "ty \<notin> {WalInsert, WalUpdate, WalDelete}" and "1 \<le> wal_room (st_wal s)"
  shows "\<exists>w l. store_append cd (make_record now ty i [] None) s = (Ok l, s\<lparr>st_wal := Some w\<rparr>) \<and>
    store_rep cd (s\<lparr>st_wal := Some w\<rparr>) m \<and> wal_room (st_wal s) \<le> wal_room (Some w) + 1"
proof -
  obtain L rs where L: "codec_ok cd" "layers_ok cd s L" "log_ok cd (st_wal s) rs" "m = collapse L" "m = log_map rs"
    using assms(1) by (auto simp: store_rep_def)
  obtain w l where w: "store_append cd (make_record now ty i [] None) s = (Ok l, s\<lparr>st_wal := Some w\<rparr>)"
    "log_ok cd (Some w) (rs @ [stamp (cd_crc cd) l (make_record now ty i [] None)])"
    "wal_room (st_wal s) \<le> wal_room (Some w) + 1"
    using store_append_ok [OF L(3), of "make_record now ty i [] None"] assms(3) by auto
  have "store_rep cd (s\<lparr>st_wal := Some w\<rparr>) m"
    unfolding store_rep_def
    using L w(2) log_step_stamp(3) [OF assms(2)]
    by (intro conjI exI [of _ L] exI [of _ "rs @ [stamp (cd_crc cd) l (make_record now ty i [] None)]"])
      (simp_all add: log_map_snoc)
  with w show ?thesis by blast
qed

lemma store_rep_txns [simp]: "store_rep cd (s\<lparr>st_txns := t\<rparr>) m = store_rep cd s m"
  by (simp add: store_rep_def layers_ok_def)

lemma store_rep_page_cache [simp]: "store_rep cd (s\<lparr>st_page_cache := pc\<rparr>) m = store_rep cd s m"
  by (simp add: store_rep_def layers_ok_def)

lemma on_wal_flush [simp]: "on_wal wal_flush s = s"
  by (cases "st_wal s"; cases s) (simp_all add: on_wal_def wal_flush_def)

lemma store_rep_wal_Some: "store_rep cd s m \<Longrightarrow> \<exists>w. st_wal s = Some w"
  by (auto simp: store_rep_def log_ok_def)

text \<open>A commit writes its record and nothing else: the writes of the transaction are not applied.\<close>

lemma store_commit_txn_ok:
  assumes "store_rep cd s m" and "1 \<le> wal_room (st_wal s)"
  shows "\<exists>l s'. store_commit_txn cd now i s = (Ok l, s') \<and> store_rep cd s' m \<and>
    st_txns s' = tm_commit i (st_txns s)"
proof -
  let ?s = "s\<lparr>st_txns := tm_commit i (st_txns s)\<rparr>"
  obtain w l where "store_append cd (make_record now WalCommit i [] None) ?s = (Ok l, ?s\<lparr>st_wal := Some w\<rparr>)"
    "store_rep cd (?s\<lparr>st_wal := Some w\<rparr>) m"
    using store_rep_append [of cd ?s m WalCommit now i] assms by auto
  then show ?thesis by (auto simp: store_commit_txn_def)
qed

lemma store_rollback_txn_ok:
  assumes "store_rep cd s m" and "1 \<le> wal_room (st_wal s)"
  shows "\<exists>s'. store_rollback_txn cd now i s = (Ok (), s') \<and> store_rep cd s' m \<and>
    st_txns s' = tm_rollback i (st_txns s)"
proof -
  let ?s = "s\<lparr>st_txns := tm_rollback i (st_txns s)\<rparr>"
  obtain w l where "store_append cd (make_record now WalRollback i [] None) ?s = (Ok l, ?s\<lparr>st_wal := Some w\<rparr>)"
    "store_rep cd (?s\<lparr>st_wal := Some w\<rparr>) m"
    using store_rep_append [of cd ?s m WalRollback now i] assms by auto
  then show ?thesis by (auto simp: store_rollback_txn_def)
qed

lemma store_snapshot_read_ok:
  assumes "store_rep cd s m" and "tm_active (st_txns s) i = Some txn"
  shows "store_snapshot_read cd fuel i k s =
    (Ok (case map_of (tx_write_set txn) k of Some wv \<Rightarrow> wv | None \<Rightarrow> m k), s)"
  using assms store_rep_get [OF assms(1), of fuel]
  by (auto simp: store_snapshot_read_def tm_snapshot_read_def split: option.split isolation_level.split)

section \<open>Flushing the memtable\<close>

lemma sst_flush_block_returns: "returns (sst_flush_block snap sb)"
  by (simp add: sst_flush_block_def compress_block_with_tombstones_def split: option.split)

lemma sst_add_entries_returns: "returns (sst_add_entries snap xxh sb es)"
proof (induction es arbitrary: sb)
  case Nil
  then show ?case by simp
next
  case (Cons e es)
  have "returns (sst_add_entry snap xxh sb e)"
    by (auto simp: sst_add_entry_def Let_def sst_flush_block_returns)
  then show ?case by (auto simp: Cons.IH)
qed

lemma sst_create_returns: "returns (sst_create snap xxh crc now i level es)"
  unfolding sst_create_def Let_def
  by (intro returns_obind) (auto simp: sst_add_entries_returns sst_flush_block_returns)

lemma sst_create_handle:
  "sst_create snap xxh crc now i level es = Ok (f, t) \<Longrightarrow> sst_id t = i \<and> sst_level t = level"
  by (auto simp: sst_create_def Let_def outcome_simps)

text \<open>The table a flush or a compaction would write is one the format can address.\<close>

definition table_fits :: "codec \<Rightarrow> i64 \<Rightarrow> u64 \<Rightarrow> u8 \<Rightarrow> block_entry list \<Rightarrow> bool" where
  "table_fits cd now i level es \<longleftrightarrow> length es < 2 ^ 32 \<and>
     (case sst_create (cd_snap cd) (cd_xxh cd) (cd_crc cd) now i level es of
        Ok (f, _) \<Rightarrow> length f < 2 ^ 64 | _ \<Rightarrow> True)"

lemma table_ok_created:
  assumes "sst_create (cd_snap cd) (cd_xxh cd) (cd_crc cd) now i level es = Ok (f, t)"
    and "table_fits cd now i level es" and "bt_wf es" and "\<forall>e \<in> set es. entry_fits e"
    and "files (level, i) = Some f"
  shows "table_ok cd files t es"
  using assms sst_create_file_ok [OF assms(1)] sst_create_handle [OF assms(1)]
  by (auto simp: table_ok_def sst_input_ok_def table_fits_def keys_sorted_def bt_wf_def)

lemma table_ok_other:
  "table_ok cd files t es \<Longrightarrow> (sst_level t, sst_id t) \<noteq> x \<Longrightarrow> table_ok cd (files(x := y)) t es"
  by (auto simp: table_ok_def)

lemma less_succ_word:
  fixes i :: u64
  assumes "unat i + 1 < 2 ^ 64" and "j < i"
  shows "j < i + 1"
proof -
  have "unat (i + 1) = unat i + 1" using assms(1) by (intro unat_add1) simp
  with assms(2) show ?thesis by (simp add: word_less_nat_alt)
qed

lemma layers_ok_next_id:
  assumes "layers_ok cd s L" and "unat (st_next_page_id s) + 1 < 2 ^ 64"
  shows "layers_ok cd (s\<lparr>st_next_page_id := st_next_page_id s + 1\<rparr>) L"
  using assms less_succ_word [OF assms(2)] by (auto simp: layers_ok_def)

lemma layers_ok_flushed:
  assumes lay: "layers_ok cd s L" and id: "unat (st_next_page_id s) + 1 < 2 ^ 64"
    and fits: "table_fits cd now (st_next_page_id s) 0 (mt_iter_with_tombstones (st_memtable s))"
    and cr: "sst_create (cd_snap cd) (cd_xxh cd) (cd_crc cd) now (st_next_page_id s) 0
      (mt_iter_with_tombstones (st_memtable s)) = Ok (f, t)"
  shows "layers_ok cd (s\<lparr>st_next_page_id := st_next_page_id s + 1,
    st_files := (st_files s)((0, st_next_page_id s) \<mapsto> f),
    st_sstables := st_sstables s @ [t], st_memtable := mt_new\<rparr>) L"
proof -
  let ?i = "st_next_page_id s" and ?es = "mt_iter_with_tombstones (st_memtable s)"
  let ?files = "(st_files s)((0, ?i) \<mapsto> f)"
  obtain ess where ess: "list_all2 (table_ok cd (st_files s)) (st_sstables s) ess"
    and L: "L = tables_view ess ++ mt_get_with_tombstone (st_memtable s)"
    and ids: "\<forall>t \<in> set (st_sstables s). sst_id t < ?i" and wf: "mt_wf (st_memtable s)"
    and ent: "\<forall>e \<in> set ?es. entry_fits e" and root: "bt_root_id (st_btree s) = 0"
    using lay by (auto simp: layers_ok_def)
  have "table_ok cd ?files t ?es"
    using table_ok_created [OF cr fits bt_wf_iter [OF wf] ent] by simp
  moreover have "list_all2 (table_ok cd ?files) (st_sstables s) ess"
    using ess ids by (auto simp: list_all2_conv_all_nth intro!: table_ok_other)
      (metis nth_mem order_less_irrefl)
  ultimately have tabs: "list_all2 (table_ok cd ?files) (st_sstables s @ [t]) (ess @ [?es])"
    by (simp add: list_all2_appendI)
  have "L = tables_view (ess @ [?es]) ++ mt_get_with_tombstone mt_new"
    by (simp add: L tables_view_snoc)
  moreover have "?i < ?i + 1"
    using id unat_add1 [of ?i] by (simp add: word_less_nat_alt)
  ultimately show ?thesis
    using tabs ids root less_succ_word [OF id] sst_create_handle [OF cr]
    by (auto simp: layers_ok_def mt_new_def mt_bytes_def mt_iter_with_tombstones_def mt_wf_def)
qed

lemma store_flush_memtable_ok:
  assumes rep: "store_rep cd s m" and id: "unat (st_next_page_id s) + 1 < 2 ^ 64"
    and fits: "table_fits cd now (st_next_page_id s) 0 (mt_iter_with_tombstones (st_memtable s))"
  shows "\<exists>r s'. store_flush_memtable cd now False s = (r, s') \<and> store_rep cd s' m \<and>
    (r = Ok () \<and> mt_is_empty (st_memtable s') \<or> (\<exists>e. r = Err e \<and> st_memtable s' = st_memtable s)) \<and>
    st_wal s' = st_wal s"
proof (cases "mt_is_empty (st_memtable s)")
  case True
  with rep show ?thesis by (simp add: store_flush_memtable_def)
next
  case False
  let ?i = "st_next_page_id s" and ?es = "mt_iter_with_tombstones (st_memtable s)"
  let ?s = "s\<lparr>st_next_page_id := ?i + 1\<rparr>"
  have ne: "?es \<noteq> []" using False by (simp add: mt_is_empty_def mt_iter_with_tombstones_def)
  obtain L rs where L: "codec_ok cd" "layers_ok cd s L" "log_ok cd (st_wal s) rs" "m = collapse L" "m = log_map rs"
    using rep by (auto simp: store_rep_def)
  show ?thesis
  proof (cases "sst_create (cd_snap cd) (cd_xxh cd) (cd_crc cd) now ?i 0 ?es")
    case (Ok ft)
    obtain f t where ft: "ft = (f, t)" by (cases ft)
    let ?s' = "s\<lparr>st_next_page_id := ?i + 1, st_files := (st_files s)((0, ?i) \<mapsto> f),
      st_sstables := st_sstables s @ [t], st_memtable := mt_new\<rparr>"
    have "store_flush_memtable cd now False s = (Ok (), ?s')"
      using False ne Ok ft by (simp add: store_flush_memtable_def Let_def)
    moreover have "layers_ok cd ?s' L"
      using layers_ok_flushed [OF L(2) id fits] Ok ft by simp
    then have "store_rep cd ?s' m"
      using L by (intro store_repI [of cd ?s' L rs]) simp_all
    ultimately show ?thesis
      by (intro exI [of _ "Ok ()"] exI [of _ ?s']) (simp add: mt_is_empty_def mt_new_def)
  next
    case (Err e)
    have "store_flush_memtable cd now False s = (Err e, ?s)"
      using False ne Err by (simp add: store_flush_memtable_def Let_def)
    moreover have "store_rep cd ?s m"
      using L layers_ok_next_id [OF L(2) id] by (intro store_repI [of cd ?s L rs]) simp_all
    ultimately show ?thesis by auto
  qed (use sst_create_returns [of "cd_snap cd" "cd_xxh cd" "cd_crc cd" now ?i 0 ?es] in simp_all)
qed

text \<open>The memtable is flushed while \<open>set\<close> still holds its lock.\<close>

lemma store_set_deadlock:
  assumes rep: "store_rep cd s m" and adm: "write_admissible (WSet k v)" and lsn: "1 \<le> wal_room (st_wal s)"
    and full: "sc_memtable_size (st_config s) \<le> mt_size (mt_insert (st_memtable s) k v)"
  shows "fst (store_set cd now k v s) = Deadlock"
proof -
  let ?r = "make_record now WalInsert 0 k (Some v)"
  obtain rs where "log_ok cd (st_wal s) rs" using rep by (auto simp: store_rep_def)
  then obtain w l where "store_append cd ?r s = (Ok l, s\<lparr>st_wal := Some w\<rparr>)"
    using store_append_ok [of cd s rs ?r] adm lsn by (auto simp: write_admissible_def)
  with full show ?thesis by (simp add: store_set_def store_flush_memtable_def)
qed

text \<open>A record the log refuses changes nothing a reader sees.\<close>

lemma store_set_refused:
  assumes rep: "store_rep cd s m" and lsn: "1 \<le> wal_room (st_wal s)"
    and len: "65535 < length k + length v + 24" "length k + length v + 24 < 2 ^ 32"
  shows "\<exists>s'. store_set cd now k v s = (Err (InvalidArgument ''WAL record payload too large''), s') \<and>
    store_rep cd s' m"
proof -
  let ?r = "make_record now WalInsert 0 k (Some v)"
  obtain L rs where L: "codec_ok cd" "layers_ok cd s L" "log_ok cd (st_wal s) rs" "m = collapse L" "m = log_map rs"
    using rep by (auto simp: store_rep_def)
  obtain w segs where w: "st_wal s = Some w" "wal_inv (cd_crc cd) w segs" "concat segs = rs"
    using L(3) by (auto simp: log_ok_def)
  let ?w = "w\<lparr>ww_lsn := ww_lsn w + 1\<rparr>"
  have "wal_append (cd_crc cd) w ?r = (?w, Err (InvalidArgument ''WAL record payload too large''))"
    using len by (intro wal_append_refused) simp_all
  then have "store_set cd now k v s = (Err (InvalidArgument ''WAL record payload too large''), s\<lparr>st_wal := Some ?w\<rparr>)"
    using w(1) by (simp add: store_set_def store_append_def sbind_def)
  moreover have "unat (ww_lsn w + 1) = unat (ww_lsn w) + 1"
    using lsn w(1) by (intro unat_add1) (simp add: wal_room_def)
  then have "wal_inv (cd_crc cd) ?w segs"
    using w(2) by (auto simp: wal_inv_def word_le_nat_alt le_SucI)
  then have "log_ok cd (Some ?w) rs" using w(3) by (auto simp: log_ok_def)
  then have "store_rep cd (s\<lparr>st_wal := Some ?w\<rparr>) m"
    using L by (intro store_repI [of cd _ L rs]) simp_all
  ultimately show ?thesis by blast
qed

end
