(* ===== verification/Store_Durable.thy ===== *)
theory Store_Durable
  imports Store_Recovery
begin

text \<open>
  Restart and compaction of the store: \<open>Store::open\<close> on the log of a store gives back the
  map it stood for, also after a crash inside the header of an append; \<open>compact\<close> keeps the map
  below its fixed upper bound.
\<close>

section \<open>Replaying the log\<close>

definition mt_sound :: "memtable \<Rightarrow> bool" where
  "mt_sound mt \<longleftrightarrow> mt_wf mt \<and> mt_bytes mt \<le> mt_size mt \<and>
     (\<forall>e \<in> set (mt_iter_with_tombstones mt). entry_fits e)"

lemma mt_sound_new [simp]: "mt_sound mt_new"
  by (simp add: mt_sound_def) (simp add: mt_new_def mt_bytes_def mt_iter_with_tombstones_def)

lemma mt_sound_insert:
  "mt_sound mt \<Longrightarrow> length k < 2 ^ 32 \<Longrightarrow> length v < 2 ^ 32 - 1 \<Longrightarrow> mt_sound (mt_insert mt k v)"
  using mt_size_insert [of mt k v] by (auto simp: mt_sound_def memtable_entries_all entry_fits_def)

lemma mt_sound_delete: "mt_sound mt \<Longrightarrow> length k < 2 ^ 32 \<Longrightarrow> mt_sound (mt_delete mt k)"
  using mt_size_delete [of mt k] by (auto simp: mt_sound_def memtable_entries_all entry_fits_def)

lemma recover_step_ok:
  assumes "mt_sound mt" and "collapse (mt_get_with_tombstone mt) = m"
    and "stored_record crc r" and "0 < wr_lsn r" and "wr_lsn r \<le> max_lsn"
  shows "mt_sound (recover_step max_lsn 0 mt r) \<and>
    collapse (mt_get_with_tombstone (recover_step max_lsn 0 mt r)) = log_step m r"
proof -
  have len: "length (wr_key r) < 2 ^ 32" "length (case wr_value r of Some v \<Rightarrow> v | None \<Rightarrow> []) < 2 ^ 32 - 1"
    using assms(3) by (auto simp: stored_record_def length_encode_payload split: option.splits)
  have "\<not> (wr_lsn r = 0 \<or> wr_lsn r > max_lsn)" "\<not> wr_lsn r \<le> 0"
    using assms(4,5) by (auto simp: word_neq_0_conv)
  then show ?thesis
    using assms(1,2) mt_sound_insert [OF assms(1) len] mt_sound_delete [OF assms(1) len(1)]
    by (auto simp: recover_step_def log_step_def split: wal_record_type.split)
qed

lemma recover_fold_ok:
  assumes "\<forall>r \<in> set rs. stored_record crc r \<and> 0 < wr_lsn r \<and> wr_lsn r \<le> max_lsn"
    and "mt_sound mt" and "collapse (mt_get_with_tombstone mt) = m"
  shows "mt_sound (foldl (recover_step max_lsn 0) mt rs) \<and>
    collapse (mt_get_with_tombstone (foldl (recover_step max_lsn 0) mt rs)) = foldl log_step m rs"
  using assms
proof (induction rs arbitrary: mt m)
  case (Cons r rs)
  then show ?case using recover_step_ok [of mt m crc r max_lsn] by simp
qed simp

lemma log_lsn_le_last:
  assumes "log_dir crc d segs" and "r \<in> set (concat segs)"
  shows "wr_lsn r \<le> wr_lsn (last (concat segs))"
proof -
  have ne: "concat segs \<noteq> []" using assms(2) by (metis empty_iff list.set(1))
  have "sorted (map wr_lsn (concat segs))"
    using assms(1) by (simp add: log_dir_def strict_sorted_imp_sorted)
  then have "wr_lsn r \<le> last (map wr_lsn (concat segs))"
    using assms(2) by (intro sorted_le_last) (simp_all only: set_map image_eqI)
  then show ?thesis using ne by (simp only: last_map if_False not_False_eq_True)
qed

lemma rd_dir_open:
  assumes "torn_dir crc dir segs t"
  shows "rd_dir (wal_reader_open dir) = dir"
proof -
  obtain d where d: "log_dir crc d segs" and dir: "dir = append_file (of_nat (length segs)) t d"
    using assms by (auto simp: torn_dir_def)
  have "0 < length segs" using d by (simp add: log_dir_def)
  from torn_dir_lookup [OF d this, of t]
  have "map_of dir 1 = Some (wal_frames crc (segs ! 0) @ (if 1 = length segs then t else []))"
    by (simp add: dir)
  then show ?thesis
    by (simp add: wal_reader_open_def open_segment_def Let_def)
qed

text \<open>The recovered store, for a log that ends in fewer than 24 stray bytes.\<close>

lemma store_open_short_tail:
  assumes codec: "codec_ok cd" and torn: "torn_dir (cd_crc cd) dir segs t" "length t < 24"
    and cp: "find_latest_checkpoint entries = None"
  shows "\<exists>s. store_open cd cfg dir files entries = Ok s \<and>
    layers_ok cd s (mt_get_with_tombstone (st_memtable s)) \<and>
    collapse (mt_get_with_tombstone (st_memtable s)) = log_map (concat segs) \<and>
    st_wal s = Some (wal_open dir (sc_fsync_policy cfg)) \<and> st_sstables s = [] \<and> st_config s = cfg"
proof -
  obtain d where d: "log_dir (cd_crc cd) d segs"
    using torn by (auto simp: torn_dir_def)
  let ?w = "wal_open dir (sc_fsync_policy cfg)"
  let ?mt = "foldl (recover_step (ww_lsn ?w) 0) mt_new (concat segs)"
  have "\<forall>r \<in> set (concat segs). stored_record (cd_crc cd) r \<and> 0 < wr_lsn r \<and> wr_lsn r \<le> ww_lsn ?w"
  proof
    fix r assume r: "r \<in> set (concat segs)"
    then have "concat segs \<noteq> []" by (metis empty_iff list.set(1))
    then have "ww_lsn ?w = wr_lsn (last (concat segs))"
      using wal_open_torn_lsn [OF torn, of "sc_fsync_policy cfg"] by (simp only: if_False)
    moreover have "stored_record (cd_crc cd) r \<and> 0 < wr_lsn r"
      using r d unfolding log_dir_def by blast
    ultimately show "stored_record (cd_crc cd) r \<and> 0 < wr_lsn r \<and> wr_lsn r \<le> ww_lsn ?w"
      using log_lsn_le_last [OF d r] by simp
  qed
  from recover_fold_ok [OF this, of mt_new Map.empty]
  have mt: "mt_sound ?mt" "collapse (mt_get_with_tombstone ?mt) = log_map (concat segs)"
    by (simp_all add: log_map_def)
  have "store_recover cd (wal_reader_open (ww_dir ?w)) (ww_lsn ?w) 0 = Ok ?mt"
    by (simp add: store_recover_def wal_open_torn_dir [OF torn(1)] wal_fold_short_tail [OF torn])
  then have "store_open cd cfg dir files entries = Ok \<lparr>st_config = cfg,
      st_page_cache = pc_new (sc_page_cache_size cfg), st_wal = Some ?w,
      st_btree = bt_new (sc_btree_order cfg), st_memtable = ?mt, st_sstables = [], st_files = files,
      st_next_page_id = 2, st_next_lsn = ww_lsn ?w + 1, st_txns = tm_new\<rparr>" (is "_ = Ok ?s")
    by (simp add: store_open_def Let_def cp wal_current_lsn_def wal_open_torn_dir [OF torn(1)]
        rd_dir_open [OF torn(1)])
  moreover have "layers_ok cd ?s (mt_get_with_tombstone (st_memtable ?s))"
    using mt(1) by (simp add: layers_ok_def mt_sound_def bt_new_def)
  ultimately show ?thesis using mt(2) by (intro exI [of _ ?s]) simp
qed

lemma store_open_log:
  assumes "codec_ok cd" and "log_dir (cd_crc cd) dir segs" and "find_latest_checkpoint entries = None"
  shows "\<exists>s. store_open cd cfg dir files entries = Ok s \<and> store_rep cd s (log_map (concat segs)) \<and>
    st_config s = cfg"
proof -
  obtain s where s: "store_open cd cfg dir files entries = Ok s"
    "layers_ok cd s (mt_get_with_tombstone (st_memtable s))"
    "collapse (mt_get_with_tombstone (st_memtable s)) = log_map (concat segs)"
    "st_wal s = Some (wal_open dir (sc_fsync_policy cfg))" "st_config s = cfg"
    using store_open_short_tail [OF assms(1) torn_dir_Nil [OF assms(2)] _ assms(3)] by auto
  have "log_ok cd (st_wal s) (concat segs)"
    unfolding log_ok_def using s(4) wal_reopen_inv [OF assms(2)] by blast
  with s show ?thesis
    using store_repI [OF assms(1) s(2), of "concat segs"] by auto
qed

lemma store_reopen:
  assumes "store_rep cd s m" and "find_latest_checkpoint entries = None"
  shows "\<exists>w s'. st_wal s = Some w \<and> store_open cd cfg (ww_dir w) files entries = Ok s' \<and>
    store_rep cd s' m \<and> st_config s' = cfg"
proof -
  obtain w segs where w: "st_wal s = Some w" "wal_inv (cd_crc cd) w segs" "m = log_map (concat segs)"
    and codec: "codec_ok cd"
    using assms(1) by (auto simp: store_rep_def log_ok_def)
  have "log_dir (cd_crc cd) (ww_dir w) segs" using w(2) by (simp add: wal_inv_def)
  from store_open_log [OF codec this assms(2)] w show ?thesis by auto
qed


text \<open>A crash that leaves a whole header but a cut payload makes the next open fail.\<close>

lemma store_open_cut_payload:
  assumes torn: "torn_dir (cd_crc cd) dir segs (take k (wal_frame (cd_crc cd) r))"
    and st: "stored_record (cd_crc cd) r" and k: "24 \<le> k" "k < length (wal_frame (cd_crc cd) r)"
  shows "store_open cd cfg dir files entries = Err (Io ''failed to fill whole buffer'')"
  by (simp add: store_open_def store_recover_def Let_def wal_open_torn_dir [OF torn]
      wal_fold_cut_payload [OF torn st k])

section \<open>Compaction\<close>

definition merge_rep :: "merge_acc \<Rightarrow> (key \<Rightarrow> val option option) \<Rightarrow> bool" where
  "merge_rep acc A \<longleftrightarrow> (case acc of (merged, tombs) \<Rightarrow>
     bt_wf merged \<and> map_of merged = collapse A \<and> tombs = {k. A k = Some None})"

lemma merge_rep_note:
  assumes "merge_rep acc A"
  shows "merge_rep (merge_note acc (k, opt)) ([k \<mapsto> opt] ++ A)"
proof -
  obtain merged tombs where acc: "acc = (merged, tombs)" by (cases acc)
  have wf: "bt_wf merged" and m: "map_of merged = collapse A" and t: "tombs = {k. A k = Some None}"
    using assms by (simp_all add: acc merge_rep_def)
  show ?thesis
  proof (cases "A k")
    case None
    then have new: "[k \<mapsto> opt] ++ A = A(k \<mapsto> opt)" by (auto simp: fun_eq_iff map_add_def split: option.split)
    from None have "map_of merged k = None" "k \<notin> tombs" "(collapse A)(k := None) = collapse A"
      using m t by (simp_all add: collapse_def fun_eq_iff)
    then show ?thesis
      unfolding new acc using wf m t
      by (cases opt) (auto simp: merge_rep_def merge_note_def)
  next
    case (Some x)
    then have "[k \<mapsto> opt] ++ A = A" by (auto simp: fun_eq_iff map_add_def split: option.split)
    moreover from Some have "map_of merged k \<noteq> None \<or> k \<in> tombs"
      using m t by (cases x) (auto simp: collapse_def)
    ultimately show ?thesis using assms by (auto simp: acc merge_note_def)
  qed
qed

lemma merge_rep_notes: "merge_rep acc A \<Longrightarrow> merge_rep (foldl merge_note acc es) (map_of es ++ A)"
proof (induction es arbitrary: acc A)
  case Nil
  then show ?case by simp
next
  case (Cons e es)
  obtain k opt where e: "e = (k, opt)" by (cases e)
  have eq: "map_of es ++ ([k \<mapsto> opt] ++ A) = map_of (e # es) ++ A"
    by (simp add: e map_add_assoc)
  have "merge_rep (foldl merge_note acc (e # es)) (map_of es ++ ([k \<mapsto> opt] ++ A))"
    using Cons.IH [OF merge_rep_note [OF Cons.prems, of k opt]] by (simp add: e)
  then show ?case by (simp only: eq)
qed

lemma merge_tables_ok:
  assumes "codec_ok cd" and "list_all2 (table_ok cd files) ts ess" and "merge_rep acc A"
  shows "\<exists>acc'. merge_tables cd files ts acc = Ok acc' \<and>
    merge_rep acc' (restrict_range [] compact_hi (tables_view (rev ess)) ++ A)"
  using assms(2,3)
proof (induction ts ess arbitrary: acc A rule: list_all2_induct)
  case Nil
  then show ?case by (simp add: restrict_range_def [abs_def] map_add_def)
next
  case (Cons t ts es ess)
  have "merge_rep (foldl merge_note acc (filter (\<lambda>(k, _). [] \<le> k \<and> k < compact_hi) es))
      (restrict_range [] compact_hi (map_of es) ++ A)"
    using merge_rep_notes [OF Cons.prems, of "filter (\<lambda>(k, _). [] \<le> k \<and> k < compact_hi) es"]
    by (simp only: restrict_range_map_of)
  from Cons.IH [OF this] show ?case
    by (simp add: table_scan_ok [OF assms(1) Cons.hyps(1)] tables_view_snoc restrict_range_add map_add_assoc)
qed

lemma tables_view_in: "tables_view ess k = Some x \<Longrightarrow> \<exists>es \<in> set ess. map_of es k = Some x"
  by (induction ess rule: rev_induct) (auto simp: tables_view_snoc map_add_Some_iff)

lemma foldl_remove_files:
  "x \<notin> (\<lambda>t. (sst_level t, sst_id t)) ` set ts \<Longrightarrow>
   foldl (\<lambda>fs old. fs((sst_level old, sst_id old) := None)) files ts x = files x"
  by (induction ts arbitrary: files) auto

definition compact_fits :: "codec \<Rightarrow> i64 \<Rightarrow> store \<Rightarrow> bool" where
  "compact_fits cd now s \<longleftrightarrow>
     (case merge_tables cd (st_files s) (rev (st_sstables s)) ([], {}) of
        Ok (merged, _) \<Rightarrow> table_fits cd now (st_next_page_id s) 1 (map (\<lambda>(k, v). (k, Some v)) merged)
      | _ \<Rightarrow> True)"

definition live_only :: "(key \<Rightarrow> val option option) \<Rightarrow> key \<Rightarrow> val option option" where
  "live_only A k = map_option Some (collapse A k)"

text \<open>The layers after a merge: tombstones are gone, and so is everything at or above the bound.\<close>

lemma layers_ok_compacted:
  assumes lay: "layers_ok cd s L" and id: "unat (st_next_page_id s) + 1 < 2 ^ 64"
    and m: "merge_rep (merged, tombs) (restrict_range [] compact_hi (tables_view ess))"
    and ess: "list_all2 (table_ok cd (st_files s)) (st_sstables s) ess"
    and fits: "table_fits cd now (st_next_page_id s) 1 (map (\<lambda>(k, v). (k, Some v)) merged)"
    and cr: "sst_create (cd_snap cd) (cd_xxh cd) (cd_crc cd) now (st_next_page_id s) 1
      (map (\<lambda>(k, v). (k, Some v)) merged) = Ok (f, t)"
  shows "layers_ok cd (s\<lparr>st_next_page_id := st_next_page_id s + 1,
    st_files := foldl (\<lambda>fs old. fs((sst_level old, sst_id old) := None))
      ((st_files s)((1, st_next_page_id s) \<mapsto> f)) (st_sstables s),
    st_sstables := [t]\<rparr>)
    (live_only (restrict_range [] compact_hi (tables_view ess))
       ++ mt_get_with_tombstone (st_memtable s))"
proof -
  let ?i = "st_next_page_id s" and ?es = "map (\<lambda>(k, v). (k, Some v)) merged"
  let ?A = "restrict_range [] compact_hi (tables_view ess)"
  let ?files = "foldl (\<lambda>fs old. fs((sst_level old, sst_id old) := None))
      ((st_files s)((1, ?i) \<mapsto> f)) (st_sstables s)"
  have wf: "bt_wf merged" and mm: "map_of merged = collapse ?A" using m by (auto simp: merge_rep_def)
  have ids: "\<forall>t \<in> set (st_sstables s). sst_id t < ?i" using lay by (simp add: layers_ok_def)
  have es_map: "map_of ?es = live_only ?A"
    by (simp add: map_of_map mm [symmetric] live_only_def [abs_def] fun_eq_iff)
  have "entry_fits (k, Some v)" if "(k, v) \<in> set merged" for k v
  proof -
    have "map_of merged k = Some v" using that bt_wf_distinct [OF wf] by simp
    then have "tables_view ess k = Some (Some v)"
      by (auto simp: mm collapse_def restrict_range_def split: option.splits if_splits)
    then obtain es where es: "es \<in> set ess" "(k, Some v) \<in> set es"
      using tables_view_in map_of_SomeD by metis
    then obtain t' where "table_ok cd (st_files s) t' es"
      using ess by (metis in_set_conv_nth list_all2_conv_all_nth)
    with es(2) show ?thesis by (auto simp: table_ok_def sst_input_ok_def)
  qed
  then have ent: "\<forall>e \<in> set ?es. entry_fits e" by auto
  have "bt_wf ?es" using wf by (simp add: bt_wf_def split_def comp_def)
  moreover have "?files (1, ?i) = Some f"
    using ids by (subst foldl_remove_files) auto
  ultimately have "table_ok cd ?files t ?es"
    using table_ok_created [OF cr fits _ ent] by blast
  moreover have "live_only ?A = tables_view [?es]"
    by (simp add: tables_view_def es_map)
  moreover have "?i < ?i + 1"
    using id unat_add1 [of ?i] by (simp add: word_less_nat_alt)
  ultimately show ?thesis
    using lay sst_create_handle [OF cr]
    by (auto simp: layers_ok_def intro!: exI [of _ "[?es]"])
qed

lemma store_compact_ok:
  assumes rep: "store_rep cd s m" and id: "unat (st_next_page_id s) + 1 < 2 ^ 64"
    and fits: "compact_fits cd now s" and small: "\<forall>k. m k \<noteq> None \<longrightarrow> k < compact_hi"
  shows "\<exists>r s'. store_compact cd now s = (r, s') \<and> store_rep cd s' m \<and>
    (r = Ok () \<and> length (st_sstables s') < 4 \<or> (\<exists>e. r = Err e \<and> st_sstables s' = st_sstables s))"
proof (cases "length (st_sstables s) < 4")
  case True
  with rep show ?thesis by (simp add: store_compact_def)
next
  case False
  let ?i = "st_next_page_id s" and ?s = "s\<lparr>st_next_page_id := st_next_page_id s + 1\<rparr>"
  obtain L rs where L: "codec_ok cd" "layers_ok cd s L" "log_ok cd (st_wal s) rs" "m = collapse L" "m = log_map rs"
    using rep by (auto simp: store_rep_def)
  obtain ess where ess: "list_all2 (table_ok cd (st_files s)) (st_sstables s) ess"
    and Ls: "L = tables_view ess ++ mt_get_with_tombstone (st_memtable s)"
    using L(2) by (auto simp: layers_ok_def)
  let ?A = "restrict_range [] compact_hi (tables_view ess)"
  have "merge_rep ([], {}) Map.empty" by (simp add: merge_rep_def)
  from merge_tables_ok [OF L(1) _ this, of "st_files s" "rev (st_sstables s)" "rev ess"] ess
  obtain merged tombs where mt: "merge_tables cd (st_files s) (rev (st_sstables s)) ([], {}) = Ok (merged, tombs)"
    and mr: "merge_rep (merged, tombs) ?A"
    by auto
  let ?es = "map (\<lambda>(k, v). (k, Some v)) merged"
  have tf: "table_fits cd now ?i 1 ?es" using fits mt by (simp add: compact_fits_def)
  show ?thesis
  proof (cases "sst_create (cd_snap cd) (cd_xxh cd) (cd_crc cd) now ?i 1 ?es")
    case (Ok ft)
    obtain f t where ft: "ft = (f, t)" by (cases ft)
    let ?s' = "s\<lparr>st_next_page_id := ?i + 1,
      st_files := foldl (\<lambda>fs old. fs((sst_level old, sst_id old) := None))
        ((st_files s)((1, ?i) \<mapsto> f)) (st_sstables s), st_sstables := [t]\<rparr>"
    let ?L = "live_only ?A ++ mt_get_with_tombstone (st_memtable s)"
    have "store_compact cd now s = (Ok (), ?s')"
      using False mt Ok ft by (simp add: store_compact_def)
    moreover have "layers_ok cd ?s' ?L"
      using layers_ok_compacted [OF L(2) id mr ess tf] Ok ft by simp
    moreover have "collapse ?L = collapse L"
    proof
      fix k
      have "k < compact_hi \<or> collapse L k = None" using small L(4) by auto
      then show "collapse ?L k = collapse L k"
        by (auto simp: Ls live_only_def collapse_def restrict_range_def map_add_def split: option.splits)
    qed
    ultimately show ?thesis
      using L store_repI [of cd ?s' ?L rs m] by auto
  next
    case (Err e)
    have "store_compact cd now s = (Err e, ?s)"
      using False mt Err by (simp add: store_compact_def)
    moreover have "store_rep cd ?s m"
      using L layers_ok_next_id [OF L(2) id] by (intro store_repI [of cd ?s L rs]) simp_all
    ultimately show ?thesis by auto
  qed (use sst_create_returns [of "cd_snap cd" "cd_xxh cd" "cd_crc cd" now ?i 1 ?es] in simp_all)
qed

text \<open>A key at or above the bound that only the tables hold is gone after a compaction.\<close>

lemma store_compact_loses:
  assumes rep: "store_rep cd s m" and id: "unat (st_next_page_id s) + 1 < 2 ^ 64"
    and fits: "compact_fits cd now s" and four: "4 \<le> length (st_sstables s)"
    and big: "compact_hi \<le> k" "mt_get_with_tombstone (st_memtable s) k = None"
    and ok: "store_compact cd now s = (Ok (), s')"
  shows "store_get cd fuel k s' = (Ok None, s')"
proof -
  let ?i = "st_next_page_id s"
  obtain L rs where L: "codec_ok cd" "layers_ok cd s L" using rep by (auto simp: store_rep_def)
  obtain ess where ess: "list_all2 (table_ok cd (st_files s)) (st_sstables s) ess"
    using L(2) by (auto simp: layers_ok_def)
  let ?A = "restrict_range [] compact_hi (tables_view ess)"
  have "merge_rep ([], {}) Map.empty" by (simp add: merge_rep_def)
  from merge_tables_ok [OF L(1) _ this, of "st_files s" "rev (st_sstables s)" "rev ess"] ess
  obtain merged tombs where mt: "merge_tables cd (st_files s) (rev (st_sstables s)) ([], {}) = Ok (merged, tombs)"
    and mr: "merge_rep (merged, tombs) ?A"
    by auto
  let ?es = "map (\<lambda>(k, v). (k, Some v)) merged"
  have tf: "table_fits cd now ?i 1 ?es" using fits mt by (simp add: compact_fits_def)
  obtain f t where ft: "sst_create (cd_snap cd) (cd_xxh cd) (cd_crc cd) now ?i 1 ?es = Ok (f, t)"
    and s': "s' = s\<lparr>st_next_page_id := ?i + 1,
      st_files := foldl (\<lambda>fs old. fs((sst_level old, sst_id old) := None))
        ((st_files s)((1, ?i) \<mapsto> f)) (st_sstables s), st_sstables := [t]\<rparr>"
    using ok four mt by (auto simp: store_compact_def sbind_def not_less split: outcome.splits)
  have "layers_ok cd s' (live_only ?A ++ mt_get_with_tombstone (st_memtable s))"
    unfolding s' by (rule layers_ok_compacted [OF L(2) id mr ess tf ft])
  from store_get_ok [OF L(1) this, of fuel k] show ?thesis
    using big by (auto simp: live_only_def collapse_def restrict_range_def map_add_def)
qed

section \<open>Flushing, syncing and checkpoints\<close>

lemma store_flush_cases:
  "\<exists>r pc. store_flush order s = (r, s\<lparr>st_page_cache := pc\<rparr>) \<and>
     (pc_writeback (st_page_cache s) = None \<longrightarrow> r = Ok () \<and> pc = st_page_cache s)"
proof -
  obtain r pc where "pc_flush order (st_page_cache s) = (r, pc)" by (cases "pc_flush order (st_page_cache s)")
  then show ?thesis
    by (cases r) (auto simp: store_flush_def sbind_def pc_flush_def split: option.splits)
qed

lemma store_rep_flush: "store_rep cd s m \<Longrightarrow> store_rep cd (snd (store_flush order s)) m"
  using store_flush_cases [of order s] by auto

lemma store_rep_switch:
  assumes "store_rep cd s m" and "\<forall>w. st_wal s = Some w \<longrightarrow> unat (ww_seg w) + 1 < 2 ^ 64"
  shows "store_rep cd (on_wal wal_switch_segment s) m"
proof -
  obtain L rs where L: "codec_ok cd" "layers_ok cd s L" "log_ok cd (st_wal s) rs" "m = collapse L" "m = log_map rs"
    using assms(1) by (auto simp: store_rep_def)
  obtain w segs where w: "st_wal s = Some w" "wal_inv (cd_crc cd) w segs" "concat segs = rs"
    using L(3) by (auto simp: log_ok_def)
  have "unat (ww_seg w) = length segs"
    using w(2) by (simp add: wal_inv_def log_dir_def)
  then have "wal_inv (cd_crc cd) (wal_switch_segment w) (segs @ [[]])"
    using assms(2) w by (intro wal_switch_inv) simp_all
  then have "log_ok cd (Some (wal_switch_segment w)) rs"
    unfolding log_ok_def using w(3) by force
  then show ?thesis
    using L w(1) by (intro store_repI [of cd _ L rs]) (simp_all add: on_wal_def)
qed

lemma store_sync_ok:
  assumes "store_rep cd s m" and "\<forall>w. st_wal s = Some w \<longrightarrow> unat (ww_seg w) + 1 < 2 ^ 64"
  shows "store_rep cd (snd (store_sync order s)) m"
proof -
  obtain r pc where f: "store_flush order s = (r, s\<lparr>st_page_cache := pc\<rparr>)"
    using store_flush_cases by blast
  have "store_rep cd (on_wal wal_switch_segment (s\<lparr>st_page_cache := pc\<rparr>)) m"
    using assms by (intro store_rep_switch) simp_all
  then show ?thesis using f assms(1) by (cases r) (simp_all add: store_sync_def)
qed

lemma store_checkpoint_ok:
  assumes rep: "store_rep cd s m" and wb: "pc_writeback (st_page_cache s) = None"
    and id: "unat (st_next_page_id s) + 1 < 2 ^ 64"
    and fits: "table_fits cd now (st_next_page_id s) 0 (mt_iter_with_tombstones (st_memtable s))"
    and lsn: "1 \<le> wal_room (st_wal s)"
  shows "\<exists>r s'. store_checkpoint cd order now s = (r, s') \<and> returns r \<and> store_rep cd s' m"
proof -
  obtain r s1 where f: "store_flush_memtable cd now False s = (r, s1)" "store_rep cd s1 m"
    "r = Ok () \<or> (\<exists>e. r = Err e)" "st_wal s1 = st_wal s"
    using store_flush_memtable_ok [OF rep id fits] by blast
  have fl: "store_flush order s = (Ok (), s)"
    using store_flush_cases [of order s] wb by auto
  show ?thesis
  proof (cases r)
    case (Ok u)
    obtain w l where "store_append cd (make_record now WalCheckpoint 0 [] None) s1 = (Ok l, s1\<lparr>st_wal := Some w\<rparr>)"
      "store_rep cd (s1\<lparr>st_wal := Some w\<rparr>) m"
      using store_rep_append [OF f(2), of WalCheckpoint now 0] lsn f(4) by auto
    moreover obtain w0 where "st_wal s1 = Some w0" using store_rep_wal_Some [OF f(2)] by blast
    ultimately show ?thesis using fl f Ok by (simp add: store_checkpoint_def)
  next
    case (Err e)
    then show ?thesis using fl f by (simp add: store_checkpoint_def)
  qed (use f(3) in auto)
qed

end
