(* ===== verification/Store_Properties.thy ===== *)
theory Store_Properties
  imports Store_Durable
begin

text \<open>
  The properties of the store, stated over its code-level operations, each with a run on a
  small concrete store: the codec of the example is the identity, its hash is constant.
\<close>

section \<open>A concrete store\<close>

definition example_codec :: codec where
  "example_codec = \<lparr>cd_snap = Some, cd_unsnap = Some, cd_xxh = (\<lambda>_. 0), cd_crc = (\<lambda>_. 0)\<rparr>"

definition example_config :: "nat \<Rightarrow> storage_config" where
  "example_config limit = \<lparr>sc_page_cache_size = 4, sc_memtable_size = limit,
     sc_fsync_policy = EveryWrite, sc_btree_order = 4\<rparr>"

definition example_store :: "nat \<Rightarrow> store" where
  "example_store limit = \<lparr>st_config = example_config limit, st_page_cache = pc_new 4,
     st_wal = Some (wal_open [] EveryWrite), st_btree = bt_new 4, st_memtable = mt_new,
     st_sstables = [], st_files = Map.empty, st_next_page_id = 2, st_next_lsn = 1, st_txns = tm_new\<rparr>"

lemma wal_open_empty: "wal_open [] p = \<lparr>ww_dir = [(1, [])], ww_seg = 1, ww_offset = 0, ww_lsn = 0, ww_policy = p\<rparr>"
  by (simp add: wal_open_def find_highest_segment_def open_append_def Let_def)

lemma wal_open_one_empty: "wal_open [(1, [])] p = wal_open [] p"
  by (simp add: wal_open_empty wal_open_def find_highest_segment_def open_append_def Let_def
      recover_lsn_from.simps read_exact_def)

lemma store_open_empty: "store_open cd cfg [] files entries = store_open cd cfg [(1, [])] files entries"
  by (simp add: store_open_def wal_open_one_empty)

lemma log_dir_one_empty: "log_dir crc [(1, [])] [[]]"
  using wal_open_fresh [of crc EveryWrite] by (simp add: wal_inv_def wal_open_empty)

lemma codec_ok_example [simp]: "codec_ok example_codec"
  by (simp add: codec_ok_def example_codec_def)

lemma example_rep [simp]: "store_rep example_codec (example_store n) Map.empty"
proof (rule store_repI [where L = Map.empty and rs = "[]"])
  show "log_ok example_codec (st_wal (example_store n)) []"
    using wal_open_fresh [of "cd_crc example_codec" EveryWrite]
    by (auto simp: log_ok_def example_store_def intro!: exI [where x = "[[]]"])
qed (simp_all add: layers_ok_def example_store_def mt_bytes_def mt_new_def mt_wf_def
    mt_iter_with_tombstones_def bt_new_def log_map_def mt_get_with_tombstone_def fun_eq_iff)

lemma example_room [simp]:
  "store_room (example_store n) = min (n - 1) (2 ^ 64 - 1)" "wal_room (st_wal (example_store n)) = 2 ^ 64 - 1"
  by (simp_all add: store_room_def wal_room_def example_store_def wal_open_empty example_config_def mt_new_def)

lemma example_open: "store_open example_codec (example_config n) [] Map.empty [] = Ok (example_store n)"
  using wal_fold_log [OF log_dir_one_empty, of "cd_crc example_codec" "recover_step 0 0" mt_new]
  by (simp add: store_open_def Let_def find_latest_checkpoint_def wal_open_empty wal_current_lsn_def
      wal_reader_open_def open_segment_def store_recover_def example_config_def example_store_def)


lemma example_table_fits: "table_fits example_codec 0 2 0 [([1], Some [2])]"
  by (simp add: table_fits_def sst_create_def Let_def sst_add_entry_def example_codec_def sst_flush_block_def
    compress_block_with_tombstones_def encode_block_entry_def encode_index_def encode_block_header_def
    bloom_encode_def bloom_insert_def bloom_new_def DEFAULT_BLOOM_BITS_PER_KEY_def DATA_BLOCK_TARGET_SIZE_def length_fold_bloom_set_bit)

text \<open>The example store after one write.\<close>

definition example_written :: "nat \<Rightarrow> store" where
  "example_written n = snd (store_set example_codec 0 [1] [2] (example_store n))"

lemma example_written_rep:
  assumes "20 \<le> n"
  shows "store_rep example_codec (example_written n) [[1] \<mapsto> [2]]"
proof -
  have "10 \<le> n - 1" using assms by simp
  then show ?thesis
    using store_set_ok [OF example_rep, of "[1]" "[2]" n 0]
    by (auto simp: example_written_def write_admissible_def write_cost_def)
qed

lemma example_written_state:
  "st_memtable (example_written n) = mt_insert mt_new [1] [2]" "st_next_page_id (example_written n) = 2"
  "st_sstables (example_written n) = []" "wal_room (st_wal (example_written n)) = 2 ^ 64 - 2"
  "st_files (example_written n) = Map.empty" "st_txns (example_written n) = tm_new"
  by (simp_all add: example_written_def store_set_def store_append_def example_store_def wal_open_empty
      sbind_def wal_append_def Let_def encode_payload_def make_record_def MAX_PAYLOAD_SIZE_def
      store_flush_memtable_def wal_room_def)

lemma example_written_entries:
  "mt_iter_with_tombstones (st_memtable (example_written n)) = [([1], Some [2])]"
  by (simp add: example_written_state mt_insert_def mt_new_def mt_iter_with_tombstones_def is_tombstone_def)

section \<open>Reading back\<close>

text \<open>C1: Durability. Whatever map a store stands for, opening a new store on its log
  directory succeeds, and every lookup in the new store answers as the old one would. The
  table files need not survive: the log alone is enough.\<close>

theorem store_durable:
  assumes "store_rep cd s m" and "find_latest_checkpoint entries = None"
  shows "\<exists>w s'. st_wal s = Some w \<and> store_open cd cfg (ww_dir w) files entries = Ok s' \<and>
    store_rep cd s' m \<and> (\<forall>k. fst (store_get cd fuel k s') = fst (store_get cd fuel k s))"
  using store_reopen [OF assms, of cfg files] store_rep_get [OF assms(1)] store_rep_get
  by fastforce

theorem store_durable_witness:
  "\<exists>w s'. st_wal (example_written 64) = Some w \<and>
     store_open example_codec (example_config 64) (ww_dir w) Map.empty [] = Ok s' \<and>
     store_rep example_codec s' [[1] \<mapsto> [2]]"
  using store_durable [OF example_written_rep, of 64 "[]" "example_config 64" Map.empty 0]
  by (auto simp: find_latest_checkpoint_def)

text \<open>C2: A batch of writes that fits the room left refines the same updates on the map, in
  order: it returns without error and the store stands for the updated map.\<close>

theorem store_batch_refines:
  assumes "store_rep cd s m" and "\<forall>op \<in> set ops. write_admissible op"
    and "sum_list (map write_cost ops) \<le> store_room s"
  shows "\<exists>s'. engine_batch cd now ops s = (Ok (), s') \<and> store_rep cd s' (foldl apply_write m ops) \<and>
    (\<forall>k. store_get cd fuel k s' = (Ok (foldl apply_write m ops k), s'))"
  using store_engine.batch_refines [OF assms, of now] store_rep_get by blast

theorem store_batch_refines_witness:
  "\<exists>s'. engine_batch example_codec 0 [WSet [1] [2], WDelete [1], WSet [3] []] (example_store 100) = (Ok (), s') \<and>
     store_get example_codec 0 [1] s' = (Ok None, s') \<and> store_get example_codec 0 [3] s' = (Ok (Some []), s')"
  using store_batch_refines [OF example_rep, of "[WSet [1] [2], WDelete [1], WSet [3] []]" 100 0 0]
  by (auto simp: write_admissible_def write_cost_def apply_write_def)

text \<open>C3: A range scan returns, in key order and without duplicates, exactly the live
  entries of the range, through memtable, tables and tombstones, and changes nothing.\<close>

theorem store_scan_exact:
  assumes "store_rep cd s m"
  shows "\<exists>es. store_scan cd fuel lo hi s = (Ok es, s) \<and> sorted_wrt (<) (map fst es) \<and>
    (\<forall>k v. (k, v) \<in> set es \<longleftrightarrow> lo \<le> k \<and> k < hi \<and> store_get cd fuel k s = (Ok (Some v), s))"
  using store_rep_scan [OF assms, of fuel lo hi] store_engine.scan_member [OF assms, of fuel lo hi]
    store_rep_get [OF assms, of fuel]
  by fastforce

theorem store_scan_exact_witness:
  "\<exists>es. store_scan example_codec 0 [] [9] (example_written 64) = (Ok es, example_written 64) \<and> ([1], [2]) \<in> set es"
  using store_scan_exact [OF example_written_rep, of 64 0 "[]" "[9]"]
    store_rep_get [OF example_written_rep, of 64 0 "[1]"]
  by auto

text \<open>C4: Flushing the memtable to a table keeps every answer; if the table cannot be
  written, the error is returned and the memtable stays.\<close>

theorem store_flush_preserves:
  assumes "store_rep cd s m" and "unat (st_next_page_id s) + 1 < 2 ^ 64"
    and "table_fits cd now (st_next_page_id s) 0 (mt_iter_with_tombstones (st_memtable s))"
  shows "\<exists>r s'. store_flush_memtable cd now False s = (r, s') \<and> store_rep cd s' m \<and>
    (\<forall>k. fst (store_get cd fuel k s') = fst (store_get cd fuel k s)) \<and>
    (r = Ok () \<and> mt_is_empty (st_memtable s') \<or> (\<exists>e. r = Err e \<and> st_memtable s' = st_memtable s))"
  using store_flush_memtable_ok [OF assms] store_rep_get [OF assms(1), of fuel] store_rep_get [of cd _ m fuel]
  by fastforce

theorem store_flush_preserves_witness:
  "\<exists>r s'. store_flush_memtable example_codec 0 False (example_written 64) = (r, s') \<and>
     fst (store_get example_codec 0 [1] s') = Ok (Some [2])"
  using store_flush_preserves [OF example_written_rep, of 64 0 0] example_table_fits
    store_rep_get [OF example_written_rep, of 64 0 "[1]"]
  by (auto simp: example_written_state(2) example_written_entries)


lemma compact_hi_Cons: "compact_hi = 0xFF # replicate 255 0xFF"
  by (simp add: compact_hi_def numeral_eq_Suc)




text \<open>A write whose log record is too large is refused with an error and changes no
  answer.\<close>

theorem store_set_too_large:
  assumes "store_rep cd s m" and "1 \<le> wal_room (st_wal s)"
    and "65535 < length k + length v + 24" and "length k + length v + 24 < 2 ^ 32"
  shows "\<exists>s'. store_set cd now k v s = (Err (InvalidArgument ''WAL record payload too large''), s') \<and>
    store_rep cd s' m \<and> (\<forall>k'. fst (store_get cd fuel k' s') = fst (store_get cd fuel k' s))"
  using store_set_refused [OF assms] store_rep_get [OF assms(1), of fuel] store_rep_get [of cd _ m fuel]
  by fastforce

theorem store_set_too_large_witness:
  "\<exists>s'. store_set example_codec 0 [1] (replicate 65520 0) (example_store 100) =
     (Err (InvalidArgument ''WAL record payload too large''), s') \<and> store_rep example_codec s' Map.empty"
  using store_set_too_large [OF example_rep, of 100 "[1]" "replicate 65520 0" 0 0] by auto

text \<open>Crash inside the header of an append. When the log ends in fewer than 24 stray
  bytes, opening succeeds and every lookup answers as the complete records say: only the
  interrupted write is missing.\<close>

theorem store_open_after_header_crash:
  assumes "codec_ok cd" and "torn_dir (cd_crc cd) dir segs t" and "length t < 24"
    and "find_latest_checkpoint entries = None"
  shows "\<exists>s. store_open cd cfg dir files entries = Ok s \<and>
    (\<forall>k. store_get cd fuel k s = (Ok (log_map (concat segs) k), s))"
  using store_open_short_tail [OF assms, of cfg files] store_get_ok [OF assms(1), of _ _ fuel] by metis

theorem store_open_after_header_crash_witness:
  "\<exists>s. store_open example_codec (example_config 64) [(1, [0x41])] Map.empty [] = Ok s \<and>
     store_get example_codec 0 [1] s = (Ok None, s)"
proof -
  have "torn_dir (cd_crc example_codec) [(1, [0x41])] [[]] [0x41]"
    unfolding torn_dir_def
    by (intro exI [of _ "[(1, [])]"]) (simp add: log_dir_one_empty append_file_def)
  from store_open_after_header_crash [OF codec_ok_example this, of "[]" "example_config 64" Map.empty 0]
  show ?thesis by (auto simp: find_latest_checkpoint_def log_map_def)
qed

text \<open>C11: Crash inside the payload of an append. When the last record has its whole header
  but not its whole payload, the store cannot be opened any more: recovery returns an error.\<close>

theorem store_open_after_payload_crash:
  assumes "torn_dir (cd_crc cd) dir segs (take n (wal_frame (cd_crc cd) r))"
    and "stored_record (cd_crc cd) r" and "24 \<le> n" and "n < length (wal_frame (cd_crc cd) r)"
  shows "store_open cd cfg dir files entries = Err (Io ''failed to fill whole buffer'')"
  by (rule store_open_cut_payload [OF assms])

definition example_record :: wal_record where
  "example_record = stamp (cd_crc example_codec) 1 (make_record 0 WalInsert 0 [1] (Some [2]))"

theorem store_open_after_payload_crash_witness:
  "store_open example_codec (example_config 64)
     [(1, take 30 (wal_frame (cd_crc example_codec) example_record))] Map.empty [] =
   Err (Io ''failed to fill whole buffer'')"
proof (rule store_open_after_payload_crash [where segs = "[[]]" and n = 30 and r = example_record])
  show "torn_dir (cd_crc example_codec) [(1, take 30 (wal_frame (cd_crc example_codec) example_record))] [[]]
      (take 30 (wal_frame (cd_crc example_codec) example_record))"
    unfolding torn_dir_def
    by (intro exI [of _ "[(1, [])]"]) (simp add: log_dir_one_empty append_file_def)
  show "stored_record (cd_crc example_codec) example_record"
    unfolding example_record_def by (rule stored_record_stamp) simp
qed (simp_all add: length_wal_frame example_record_def)

section \<open>Transactions and checkpoints\<close>

text \<open>Commit drops the transaction's writes. Committing writes a log record and forgets
  the transaction; what it wrote is not applied, so every lookup answers as before.\<close>

theorem store_commit_drops_writes:
  assumes "store_rep cd s m" and "1 \<le> wal_room (st_wal s)" and "tm_active (st_txns s) i = Some txn"
    and "map_of (tx_write_set txn) k = Some w"
  shows "store_snapshot_read cd fuel i k s = (Ok w, s) \<and>
    (\<exists>l s'. store_commit_txn cd now i s = (Ok l, s') \<and> store_rep cd s' m \<and>
      store_get cd fuel k s' = (Ok (m k), s') \<and> tm_get i (st_txns s') = None)"
proof -
  obtain l s' where "store_commit_txn cd now i s = (Ok l, s')" "store_rep cd s' m"
    "st_txns s' = tm_commit i (st_txns s)"
    using store_commit_txn_ok [OF assms(1,2)] by blast
  then show ?thesis
    using store_snapshot_read_ok [OF assms(1,3), of fuel k] assms(4) store_rep_get [of cd s' m fuel k] by simp
qed

definition example_txn :: store where
  "example_txn = (example_store 64)\<lparr>st_txns :=
     snd (tm_register_write 1 [1] (Some [2]) (snd (tm_begin SnapshotIso Optimistic tm_new)))\<rparr>"

theorem store_commit_drops_writes_witness:
  "store_snapshot_read example_codec 0 1 [1] example_txn = (Ok (Some [2]), example_txn) \<and>
   (\<exists>l s'. store_commit_txn example_codec 0 1 example_txn = (Ok l, s') \<and>
     store_get example_codec 0 [1] s' = (Ok None, s'))"
proof -
  have "store_rep example_codec example_txn Map.empty" by (simp add: example_txn_def)
  moreover have "1 \<le> wal_room (st_wal example_txn)" by (simp add: example_txn_def)
  moreover obtain txn where "tm_active (st_txns example_txn) 1 = Some txn"
    "map_of (tx_write_set txn) [1] = Some (Some [2])"
    by (simp add: example_txn_def tm_register_write_def tm_begin_def tm_new_def Let_def)
  ultimately show ?thesis
    using store_commit_drops_writes [of example_codec example_txn Map.empty 1 txn "[1]" "Some [2]" 0 0] by auto
qed

text \<open>A checkpoint comes back, and the store stands for the same map.\<close>

theorem store_checkpoint_preserves:
  assumes "store_rep cd s m" and "pc_writeback (st_page_cache s) = None"
    and "unat (st_next_page_id s) + 1 < 2 ^ 64"
    and "table_fits cd now (st_next_page_id s) 0 (mt_iter_with_tombstones (st_memtable s))"
    and "1 \<le> wal_room (st_wal s)"
  shows "\<exists>r s'. store_checkpoint cd order now s = (r, s') \<and> returns r \<and> store_rep cd s' m \<and>
    (\<forall>k. store_get cd fuel k s' = (Ok (m k), s'))"
  using store_checkpoint_ok [OF assms, of order] store_rep_get [of cd _ m fuel] by blast

theorem store_checkpoint_preserves_witness:
  "\<exists>r s'. store_checkpoint example_codec (\<lambda>ps. ps) 0 (example_written 64) = (r, s') \<and> returns r \<and>
     store_get example_codec 0 [1] s' = (Ok (Some [2]), s')"
proof -
  have "pc_writeback (st_page_cache (example_written 64)) = None"
    by (simp add: example_written_def store_set_def store_append_def example_store_def wal_open_empty
      sbind_def wal_append_def Let_def encode_payload_def make_record_def MAX_PAYLOAD_SIZE_def
      store_flush_memtable_def pc_new_def)
  then show ?thesis
    using store_checkpoint_preserves [OF example_written_rep, of 64 0 "\<lambda>ps. ps" 0] example_table_fits
    by (auto simp: example_written_state(2,4) example_written_entries)
qed

end
