(* ===== verification/BTree_Leaf.thy ===== *)
theory BTree_Leaf
  imports BTree
begin

unbundle bit_operations_syntax

text \<open>
  What a leaf page of the B-tree stands for: the list of its entries, in page order, each with
  its tombstone flag. The page routines refine list operations as long as the entries fit
  the page; a tree whose root is a leaf then behaves as its list does.
\<close>

section \<open>Sequences of writes\<close>

lemma write_slice_append:
  assumes "write_slice data off xs = Some d" and "off + length xs + length ys \<le> length data"
  shows "write_slice d (off + length xs) ys = write_slice data off (xs @ ys)"
  using assms by (auto simp: write_slice_def ac_simps split: if_splits)

lemma set_bytes_seq:
  assumes "off + length xs + length ys \<le> length data" and "off' = off + length xs"
  shows "obind (set_bytes data off xs) (\<lambda>d. obind (set_bytes d off' ys) f) =
    obind (set_bytes data off (xs @ ys)) f"
proof -
  obtain d where "write_slice data off xs = Some d" using assms by (simp add: write_slice_def)
  then show ?thesis
    using write_slice_append [of data off xs d ys] assms by (simp add: set_bytes_def)
qed

lemma set_bytes_Ok:
  "off + length xs \<le> length data \<Longrightarrow> \<exists>d. set_bytes data off xs = Ok d \<and> write_slice data off xs = Some d"
  by (simp add: set_bytes_def write_slice_def)

section \<open>The layout of a leaf\<close>

definition items_size :: "leaf_item list \<Rightarrow> nat" where
  "items_size items = sum_list (map (\<lambda>(k, v, _). length k + length v) items)"

definition leaf_fits :: "leaf_item list \<Rightarrow> bool" where
  "leaf_fits items \<longleftrightarrow> 28 + 23 * length items + items_size items \<le> 4096"

definition item_val_off :: "leaf_item list \<Rightarrow> nat \<Rightarrow> nat" where
  "item_val_off items i = 4096 - items_size (take i items) - length (fst (snd (items ! i)))"

definition item_header :: "(bytes \<Rightarrow> u64) \<Rightarrow> leaf_item \<Rightarrow> nat \<Rightarrow> bytes" where
  "item_header xxh it vo = (case it of (k, v, flag) \<Rightarrow>
     le_word (xxh k) @ le_word (of_nat vo :: u16) @ le_word (of_nat (length v) :: u16) @
     le_word (of_nat (length k) :: u16) @ le_word (0 :: u64) @ [flag])"

definition leaf_head :: "bytes \<Rightarrow> nat \<Rightarrow> bool" where
  "leaf_head data n \<longleftrightarrow> length data = 4096 \<and> slice_at data 0 2 = Some (le_word LEAF_NODE) \<and>
     slice_at data 2 2 = Some (le_word (of_nat n :: u16))"

definition leaf_item_ok :: "(bytes \<Rightarrow> u64) \<Rightarrow> bytes \<Rightarrow> leaf_item list \<Rightarrow> nat \<Rightarrow> bool" where
  "leaf_item_ok xxh data items i \<longleftrightarrow> (case items ! i of (k, v, flag) \<Rightarrow>
     let vo = item_val_off items i in
     slice_at data (28 + i * 23) 23 = Some (item_header xxh (k, v, flag) vo) \<and>
     slice_at data (vo - length k) (length k + length v) = Some (k @ v) \<and> (flag = 0 \<or> flag = 1))"

definition leaf_ok :: "(bytes \<Rightarrow> u64) \<Rightarrow> bytes \<Rightarrow> leaf_item list \<Rightarrow> bool" where
  "leaf_ok xxh data items \<longleftrightarrow> leaf_head data (length items) \<and> leaf_fits items \<and>
     (\<forall>i < length items. leaf_item_ok xxh data items i)"

lemma items_size_simps [simp]:
  "items_size [] = 0" "items_size ((k, v, f) # items) = length k + length v + items_size items"
  "items_size (xs @ ys) = items_size xs + items_size ys"
  by (simp_all add: items_size_def)

lemma items_size_take_nth:
  assumes "i < length items" and "items ! i = (k, v, f)"
  shows "items_size (take i items) + (length k + length v) \<le> items_size items"
proof -
  have "items = take i items @ (k, v, f) # drop (Suc i) items"
    using id_take_nth_drop [OF assms(1)] assms(2) by simp
  then have "items_size items = items_size (take i items @ (k, v, f) # drop (Suc i) items)" by simp
  then show ?thesis by simp
qed

lemma item_header_length [simp]: "length (item_header xxh it vo) = 23"
  by (simp add: item_header_def split: prod.split)

lemma leaf_bounds:
  assumes "leaf_fits items" and "i < length items" and "items ! i = (k, v, f)"
  shows "item_val_off items i < 4096 \<or> v = []" and "length k \<le> item_val_off items i"
    and "28 + 23 * length items \<le> item_val_off items i - length k"
    and "item_val_off items i + length v = 4096 - items_size (take i items)"
    and "item_val_off items i \<le> 4096" and "length k < 4096" and "length v < 4096"
  using items_size_take_nth [OF assms(2,3)] assms by (auto simp: leaf_fits_def item_val_off_def)

text \<open>Reading the fields of an entry.\<close>

lemma slice_slice:
  "slice_at data off n = Some x \<Longrightarrow> j + m \<le> n \<Longrightarrow> slice_at data (off + j) m = slice_at x j m"
  by (auto simp: slice_at_def drop_take min_def ac_simps split: if_splits)

lemma nth_slice: "slice_at data off n = Some x \<Longrightarrow> j < n \<Longrightarrow> off + j < length data \<and> data ! (off + j) = x ! j"
  by (auto simp: slice_at_def split: if_splits)

lemma read_leaf_entry_ok:
  assumes ok: "leaf_ok xxh data items" and i: "i < length items" and it: "items ! i = (k, v, f)"
  shows "read_leaf_entry data i = Ok \<lparr>lfe_key_hash = xxh k, lfe_val_off = of_nat (item_val_off items i),
    lfe_val_len = of_nat (length v), lfe_key_len = of_nat (length k), lfe_flags = f\<rparr>"
proof -
  let ?vo = "item_val_off items i" and ?h = "item_header xxh (k, v, f) (item_val_off items i)"
  have h: "slice_at data (28 + i * 23) 23 = Some ?h"
    using ok i it by (auto simp: leaf_ok_def leaf_item_ok_def Let_def)
  have s: "slice_at data (28 + i * 23 + j) m = slice_at ?h j m" if "j + m \<le> 23" for j m
    by (rule slice_slice [OF h that])
  have f: "data ! (28 + i * 23 + 22) = f" "28 + i * 23 + 22 < length data"
    using nth_slice [OF h, of 22] by (simp_all add: item_header_def nth_append)
  have "slice_at ?h 0 8 = Some (le_word (xxh k))" "slice_at ?h 8 2 = Some (le_word (of_nat ?vo :: u16))"
    "slice_at ?h 10 2 = Some (le_word (of_nat (length v) :: u16))"
    "slice_at ?h 12 2 = Some (le_word (of_nat (length k) :: u16))"
    by (simp_all add: item_header_def slice_simps)
  then show ?thesis
    using s [of 0 8] s [of 8 2] s [of 10 2] s [of 12 2] f
    by (simp add: read_leaf_entry_def Let_def LEAF_ENTRIES_OFF_def LEAF_ENTRY_SIZE_def get_defs nth_or_panic_def)
qed

lemma leaf_entry_key_value:
  assumes ok: "leaf_ok xxh data items" and i: "i < length items" and it: "items ! i = (k, v, f)"
    and e: "read_leaf_entry data i = Ok e"
  shows "read_leaf_key data e = Ok k" and "read_leaf_value data e = Ok v"
    and "unat (lfe_key_len e) = length k" and "unat (lfe_val_len e) = length v"
    and "unat (lfe_val_off e) = item_val_off items i" and "lfe_flags e = f" and "lfe_key_hash e = xxh k"
proof -
  let ?vo = "item_val_off items i"
  have b: "length k \<le> ?vo" "?vo \<le> 4096" "length k < 4096" "length v < 4096"
    using leaf_bounds [OF _ i it] ok by (simp_all add: leaf_ok_def)
  have e': "e = \<lparr>lfe_key_hash = xxh k, lfe_val_off = of_nat ?vo, lfe_val_len = of_nat (length v),
      lfe_key_len = of_nat (length k), lfe_flags = f\<rparr>"
    using e read_leaf_entry_ok [OF ok i it] by simp
  then show u: "unat (lfe_key_len e) = length k" "unat (lfe_val_len e) = length v"
    "unat (lfe_val_off e) = ?vo" "lfe_flags e = f" "lfe_key_hash e = xxh k"
    using b by simp_all
  have kv: "slice_at data (?vo - length k) (length k + length v) = Some (k @ v)"
    using ok i it by (auto simp: leaf_ok_def leaf_item_ok_def Let_def)
  have "slice_at data (?vo - length k) (length k) = Some k"
    using slice_slice [OF kv, of 0 "length k"] by (simp add: slice_simps)
  then show "read_leaf_key data e = Ok k"
    using b u by (simp add: read_leaf_key_def sub_or_panic_def get_bytes_def)
  have "slice_at data ?vo (length v) = Some v"
    using slice_slice [OF kv, of "length k" "length v"] b(1) by (simp add: slice_simps)
  then show "read_leaf_value data e = Ok v"
    using u by (simp add: read_leaf_value_def get_bytes_def)
qed

lemma page_count_ok: "leaf_head data n \<Longrightarrow> n < 2 ^ 16 \<Longrightarrow> page_count data = Ok n"
  by (simp add: leaf_head_def page_count_def COUNT_OFF_def get_defs)

lemma leaf_ok_count: "leaf_ok xxh data items \<Longrightarrow> page_count data = Ok (length items)"
  by (intro page_count_ok) (simp_all add: leaf_ok_def leaf_fits_def)

section \<open>The loops over a leaf\<close>

fun leaf_find :: "leaf_item list \<Rightarrow> key \<Rightarrow> val option" where
  "leaf_find [] k = None"
| "leaf_find ((k', v, f) # items) k = (if k' = k \<and> f = 0 then Some v else leaf_find items k)"

definition leaf_entry_of :: "(bytes \<Rightarrow> u64) \<Rightarrow> leaf_item list \<Rightarrow> nat \<Rightarrow> leaf_entry" where
  "leaf_entry_of xxh items i = (case items ! i of (k, v, f) \<Rightarrow>
     \<lparr>lfe_key_hash = xxh k, lfe_val_off = of_nat (item_val_off items i),
      lfe_val_len = of_nat (length v), lfe_key_len = of_nat (length k), lfe_flags = f\<rparr>)"

lemma read_leaf_entry_of:
  "leaf_ok xxh data items \<Longrightarrow> i < length items \<Longrightarrow> read_leaf_entry data i = Ok (leaf_entry_of xxh items i)"
  using read_leaf_entry_ok [of xxh data items i] by (cases "items ! i") (simp add: leaf_entry_of_def)

lemma leaf_entry_of_fields:
  assumes "leaf_ok xxh data items" and "i < length items" and "items ! i = (k, v, f)"
  shows "read_leaf_key data (leaf_entry_of xxh items i) = Ok k"
    and "read_leaf_value data (leaf_entry_of xxh items i) = Ok v"
    and "unat (lfe_key_len (leaf_entry_of xxh items i)) = length k"
    and "unat (lfe_val_len (leaf_entry_of xxh items i)) = length v"
    and "unat (lfe_val_off (leaf_entry_of xxh items i)) = item_val_off items i"
    and "lfe_flags (leaf_entry_of xxh items i) = f" and "lfe_key_hash (leaf_entry_of xxh items i) = xxh k"
  using leaf_entry_key_value [OF assms read_leaf_entry_of [OF assms(1,2)]] by simp_all

lemma leaf_flag_cases:
  assumes "leaf_ok xxh data items" and "i < length items" and "items ! i = (k, v, f)"
  shows "f = 0 \<or> f = 1"
  using assms by (auto simp: leaf_ok_def leaf_item_ok_def Let_def)

lemma read_leaf_items_ok:
  assumes "leaf_ok xxh data items" and "i + n = length items"
  shows "read_leaf_items data i n = Ok (drop i items)"
  using assms(2)
proof (induction n arbitrary: i)
  case 0
  then show ?case by simp
next
  case (Suc n)
  obtain k v f where it: "items ! i = (k, v, f)" by (cases "items ! i")
  have i: "i < length items" using Suc.prems by simp
  have "read_leaf_items data (Suc i) n = Ok (drop (Suc i) items)" using Suc by (intro Suc.IH) simp
  then show ?case
    using leaf_entry_of_fields [OF assms(1) i it] Cons_nth_drop_Suc [OF i]
    by (simp add: read_leaf_entry_of [OF assms(1) i] it)
qed

lemma leaf_search_ok:
  assumes "leaf_ok xxh data items" and "i + n = length items"
  shows "leaf_search xxh data k i n = Ok (leaf_find (drop i items) k)"
  using assms(2)
proof (induction n arbitrary: i)
  case 0
  then show ?case by simp
next
  case (Suc n)
  obtain k' v f where it: "items ! i = (k', v, f)" by (cases "items ! i")
  have i: "i < length items" using Suc.prems by simp
  have "leaf_search xxh data k (Suc i) n = Ok (leaf_find (drop (Suc i) items) k)" using Suc by (intro Suc.IH) simp
  moreover have "drop i items = (k', v, f) # drop (Suc i) items" using Cons_nth_drop_Suc [OF i] it by simp
  ultimately show ?case
    using leaf_entry_of_fields [OF assms(1) i it] leaf_flag_cases [OF assms(1) i it]
    by (auto simp: read_leaf_entry_of [OF assms(1) i] leaf_dead_def)
qed

lemma find_leaf_key_ok:
  assumes "leaf_ok xxh data items" and "i + n = length items"
  shows "find_leaf_key data k i n =
    Ok (map_option (\<lambda>j. (j, leaf_entry_of xxh items j)) (find (\<lambda>j. fst (items ! j) = k) [i..<length items]))"
  using assms(2)
proof (induction n arbitrary: i)
  case 0
  then show ?case by simp
next
  case (Suc n)
  obtain k' v f where it: "items ! i = (k', v, f)" by (cases "items ! i")
  have i: "i < length items" using Suc.prems by simp
  have "find_leaf_key data k (Suc i) n = Ok (map_option (\<lambda>j. (j, leaf_entry_of xxh items j))
      (find (\<lambda>j. fst (items ! j) = k) [Suc i..<length items]))"
    using Suc by (intro Suc.IH) simp
  then show ?case
    using leaf_entry_of_fields [OF assms(1) i it] upt_conv_Cons [OF i] it
    by (simp add: read_leaf_entry_of [OF assms(1) i])
qed

lemma leaf_bytes_used_ok:
  assumes "leaf_ok xxh data items" and "i + n = length items"
  shows "leaf_bytes_used data i n = Ok (items_size (drop i items))"
  using assms(2)
proof (induction n arbitrary: i)
  case 0
  then show ?case by simp
next
  case (Suc n)
  obtain k v f where it: "items ! i = (k, v, f)" by (cases "items ! i")
  have i: "i < length items" using Suc.prems by simp
  have "leaf_bytes_used data (Suc i) n = Ok (items_size (drop (Suc i) items))" using Suc by (intro Suc.IH) simp
  moreover have "drop i items = (k, v, f) # drop (Suc i) items" using Cons_nth_drop_Suc [OF i] it by simp
  ultimately show ?case
    using leaf_entry_of_fields [OF assms(1) i it]
    by (simp add: read_leaf_entry_of [OF assms(1) i])
qed

section \<open>Adding an entry\<close>

lemma item_val_off_append [simp]: "i < length items \<Longrightarrow> item_val_off (items @ its) i = item_val_off items i"
  by (simp add: item_val_off_def nth_append)

lemma item_val_off_last [simp]:
  "item_val_off (items @ [(k, v, f)]) (length items) = 4096 - items_size items - length v"
  by (simp add: item_val_off_def)

lemma leaf_fits_append: "leaf_fits (items @ its) \<Longrightarrow> leaf_fits items"
  by (simp add: leaf_fits_def)

lemma insert_leaf_entry_writes:
  assumes ok: "leaf_ok xxh data items" and fits: "leaf_fits (items @ [(k, v, 0)])"
  defines "vo \<equiv> 4096 - items_size items - length v" and "e \<equiv> 28 + length items * 23"
  shows "\<exists>d1 d2 d3. write_slice data (vo - length k) (k @ v) = Some d1 \<and>
    write_slice d1 e (item_header xxh (k, v, 0) vo) = Some d2 \<and>
    write_slice d2 2 (le_word (of_nat (length items + 1) :: u16)) = Some d3 \<and>
    insert_leaf_entry xxh data (length items) k v = Ok d2 \<and>
    put_u16 d2 COUNT_OFF (of_nat (length items + 1)) = Ok d3"
proof -
  let ?n = "length items"
  define ko where "ko = vo - length k"
  have len: "length data = 4096" using ok by (simp add: leaf_ok_def leaf_head_def)
  have f: "28 + 23 * (?n + 1) + items_size items + length k + length v \<le> 4096"
    using fits by (simp add: leaf_fits_def)
  have sub: "sub_or_panic PAGE_DATA_SIZE (items_size items + length v) = (Ok vo :: nat result)"
    "sub_or_panic vo (length k) = (Ok ko :: nat result)" "vo = ko + length k"
    using f by (simp_all add: sub_or_panic_def PAGE_DATA_SIZE_def vo_def ko_def)
  have b: "ko + length k + length v \<le> length data" "e + 23 \<le> 4096"
    using f len by (simp_all add: vo_def ko_def e_def)
  obtain d1 where d1: "set_bytes data ko (k @ v) = (Ok d1 :: bytes result)"
    "write_slice data ko (k @ v) = Some d1"
    using set_bytes_Ok [of ko "k @ v" data] b by auto
  have len1: "length d1 = 4096" using write_slice_length [OF d1(2)] len by simp
  obtain d2 where d2: "set_bytes d1 e (item_header xxh (k, v, 0) vo) = (Ok d2 :: bytes result)"
    "write_slice d1 e (item_header xxh (k, v, 0) vo) = Some d2"
    using set_bytes_Ok [of e "item_header xxh (k, v, 0) vo" d1] b len1 by auto
  have len2: "length d2 = 4096" using write_slice_length [OF d2(2)] len1 by simp
  obtain d3 where d3: "set_bytes d2 2 (le_word (of_nat (?n + 1) :: u16)) = (Ok d3 :: bytes result)"
    "write_slice d2 2 (le_word (of_nat (?n + 1) :: u16)) = Some d3"
    using set_bytes_Ok [of 2 "le_word (of_nat (?n + 1) :: u16)" d2] len2 by (auto simp del: of_nat_add)
  have hdr: "obind (set_bytes d1 e (le_word (xxh k))) (\<lambda>d.
      obind (set_bytes d (e + 8) (le_word (of_nat vo :: u16))) (\<lambda>d.
      obind (set_bytes d (e + 10) (le_word (of_nat (length v) :: u16))) (\<lambda>d.
      obind (set_bytes d (e + 12) (le_word (of_nat (length k) :: u16))) (\<lambda>d.
      obind (set_bytes d (e + 14) (le_word (0 :: u64))) (\<lambda>d.
      set_bytes d (e + 22) [0]))))) = (Ok d2 :: bytes result)"
    using b(2) len1 d2(1)
    by (simp add: set_bytes_seq [of _ _ _ d1] set_bytes_seq [where f = Ok, simplified] item_header_def)
  have kv: "obind (set_bytes data ko k) (\<lambda>d. obind (set_bytes d vo v) g) = g d1" for g :: "bytes \<Rightarrow> bytes result"
    using set_bytes_seq [OF b(1) sub(3), of g] d1(1) by simp
  have "insert_leaf_entry xxh data ?n k v = Ok d2"
    unfolding insert_leaf_entry_def Let_def put_u16_def put_u64_def LEAF_ENTRIES_OFF_def LEAF_ENTRY_SIZE_def
      e_def [symmetric] leaf_ok_count [OF ok] obind.simps
    using leaf_bytes_used_ok [OF ok, of 0 ?n] by (simp only: drop_0 add_0 obind.simps sub(1,2) kv hdr)
  with d1 d2 d3 show ?thesis by (auto simp: put_u16_def COUNT_OFF_def ko_def)
qed

text \<open>What a write elsewhere leaves alone.\<close>

lemma items_size_take_Suc:
  "i < length items \<Longrightarrow> items ! i = (k, v, f) \<Longrightarrow>
   items_size (take (Suc i) items) = items_size (take i items) + length k + length v"
  by (simp add: take_Suc_conv_app_nth)

lemma items_size_take_le: "items_size (take i items) \<le> items_size items"
proof -
  have "items_size items = items_size (take i items) + items_size (drop i items)"
    by (metis append_take_drop_id items_size_simps(3))
  then show ?thesis by simp
qed

lemma items_size_take_mono: "i \<le> j \<Longrightarrow> items_size (take i items) \<le> items_size (take j items)"
  using items_size_take_le [of i "take j items"] by (simp add: min_def)

lemma kv_region:
  assumes "leaf_fits items" and "i < length items" and "items ! i = (k, v, f)"
  shows "item_val_off items i - length k = 4096 - items_size (take (Suc i) items)"
    and "item_val_off items i - length k + (length k + length v) = 4096 - items_size (take i items)"
    and "28 + 23 * length items \<le> item_val_off items i - length k"
  using leaf_bounds [OF assms] items_size_take_Suc [OF assms(2,3)] assms(3)
  by (simp_all add: item_val_off_def)

lemma leaf_item_frame:
  assumes "leaf_item_ok xxh data items i" and "items ! i = (k, v, f)"
    and "slice_at data' (28 + i * 23) 23 = slice_at data (28 + i * 23) 23"
    and "slice_at data' (item_val_off items i - length k) (length k + length v) =
      slice_at data (item_val_off items i - length k) (length k + length v)"
  shows "leaf_item_ok xxh data' items i"
  using assms by (simp add: leaf_item_ok_def Let_def)

lemma leaf_item_ok_append:
  "i < length items \<Longrightarrow> leaf_item_ok xxh data (items @ its) i = leaf_item_ok xxh data items i"
  by (simp add: leaf_item_ok_def nth_append)

text \<open>The links of a leaf: parent, next and previous page.\<close>

definition leaf_links :: "bytes \<Rightarrow> bytes option" where
  "leaf_links data = slice_at data 4 24"

lemma insert_leaf_entry_ok:
  assumes ok: "leaf_ok xxh data items" and fits: "leaf_fits (items @ [(k, v, 0)])"
  shows "\<exists>d2 d3. insert_leaf_entry xxh data (length items) k v = Ok d2 \<and>
    put_u16 d2 COUNT_OFF (of_nat (length items + 1)) = Ok d3 \<and>
    leaf_ok xxh d3 (items @ [(k, v, 0)]) \<and> leaf_links d3 = leaf_links data"
proof -
  let ?n = "length items" and ?its = "items @ [(k, v, 0 :: u8)]"
  define vo where "vo = 4096 - items_size items - length v"
  define e where "e = 28 + length items * 23"
  obtain d1 d2 d3 where w1: "write_slice data (vo - length k) (k @ v) = Some d1"
    and w2: "write_slice d1 e (item_header xxh (k, v, 0) vo) = Some d2"
    and w3: "write_slice d2 2 (le_word (of_nat (?n + 1) :: u16)) = Some d3"
    and ins: "insert_leaf_entry xxh data ?n k v = Ok d2"
    and put: "put_u16 d2 COUNT_OFF (of_nat (?n + 1)) = Ok d3"
    using insert_leaf_entry_writes [OF ok fits] by (auto simp: vo_def e_def)
  have f: "28 + 23 * (?n + 1) + items_size items + length k + length v \<le> 4096"
    using fits by (simp add: leaf_fits_def)
  define ko where "ko = vo - length k"
  have ko: "4096 - items_size items = ko + length k + length v" "vo = ko + length k" "e + 23 \<le> ko" "28 \<le> e"
    using f unfolding ko_def vo_def e_def by simp_all
  have lens: "length data = 4096" "length d3 = 4096"
    using ok write_slice_length [OF w1] write_slice_length [OF w2] write_slice_length [OF w3]
    by (auto simp: leaf_ok_def leaf_head_def)
  have keep: "slice_at d3 off n = slice_at data off n"
    if "off + n \<le> 2 \<or> 4 \<le> off \<and> off + n \<le> e \<or> 4096 - items_size items \<le> off" for off n
  proof -
    have "slice_at d3 off n = slice_at d2 off n"
      using that ko by (intro slice_at_write_disjoint [OF w3]) auto
    also have "\<dots> = slice_at d1 off n"
      using that ko by (intro slice_at_write_disjoint [OF w2]) auto
    also have "\<dots> = slice_at data off n"
      using that ko by (intro slice_at_write_disjoint [OF w1]) auto
    finally show ?thesis .
  qed
  have old: "leaf_item_ok xxh d3 ?its i" if i: "i < ?n" for i
  proof -
    obtain k' v' f' where it: "items ! i = (k', v', f')" by (cases "items ! i")
    have fit: "leaf_fits items" using ok by (simp add: leaf_ok_def)
    have "leaf_item_ok xxh d3 items i"
    proof (rule leaf_item_frame [OF _ it])
      show "leaf_item_ok xxh data items i" using ok i by (simp add: leaf_ok_def)
      show "slice_at d3 (28 + i * 23) 23 = slice_at data (28 + i * 23) 23"
        using i by (intro keep) (simp add: e_def)
      show "slice_at d3 (item_val_off items i - length k') (length k' + length v') =
          slice_at data (item_val_off items i - length k') (length k' + length v')"
        using kv_region(1) [OF fit i it] items_size_take_le [of "Suc i" items]
        by (intro keep) (simp add: diff_le_mono2)
    qed
    then show ?thesis using i by (simp add: leaf_item_ok_append)
  qed
  have "slice_at d3 e 23 = Some (item_header xxh (k, v, 0) vo)"
  proof -
    have "slice_at d3 e 23 = slice_at d2 e 23"
      by (intro slice_at_write_disjoint [OF w3]) (simp add: e_def)
    also have "\<dots> = Some (item_header xxh (k, v, 0) vo)"
      using slice_at_write_same [OF w2] by simp
    finally show ?thesis .
  qed
  moreover have "slice_at d3 (vo - length k) (length k + length v) = Some (k @ v)"
  proof -
    have "slice_at d3 (vo - length k) (length k + length v) = slice_at d2 (vo - length k) (length k + length v)"
      using ko by (intro slice_at_write_disjoint [OF w3]) simp
    also have "\<dots> = slice_at d1 (vo - length k) (length k + length v)"
      using ko by (intro slice_at_write_disjoint [OF w2]) simp
    also have "\<dots> = Some (k @ v)" using slice_at_write_same [OF w1] by simp
    finally show ?thesis .
  qed
  ultimately have new: "leaf_item_ok xxh d3 ?its ?n"
    by (simp add: leaf_item_ok_def vo_def e_def)
  have "slice_at d3 2 2 = Some (le_word (of_nat (?n + 1) :: u16))"
    using slice_at_write_same [OF w3] by simp
  moreover have "slice_at d3 0 2 = slice_at data 0 2" by (intro keep) simp
  ultimately have head: "leaf_head d3 (length ?its)"
    using ok lens by (simp add: leaf_ok_def leaf_head_def)
  have "leaf_ok xxh d3 ?its"
    using old new head fits by (auto simp: leaf_ok_def less_Suc_eq)
  moreover have "leaf_links d3 = leaf_links data"
    unfolding leaf_links_def by (intro keep) (simp add: e_def)
  ultimately show ?thesis using ins put by blast
qed

lemma slice_at_join:
  "slice_at d off n = Some x \<Longrightarrow> slice_at d (off + n) m = Some y \<Longrightarrow> slice_at d off (n + m) = Some (x @ y)"
  using take_add [of n m "drop off d"]
  by (auto simp: slice_at_def drop_drop add.assoc add.commute [of n off] split: if_splits)

lemma items_size_update:
  assumes "i < length items" and "items ! i = (k, v, f)" and "length v' = length v"
  shows "items_size (take j (items[i := (k, v', f')])) = items_size (take j items)"
proof (cases "i < j")
  case True
  have "map (\<lambda>(k, v, _). length k + length v) (items[i := (k, v', f')]) =
      (map (\<lambda>(k, v, _). length k + length v) items)[i := length k + length v]"
    using assms(3) by (simp add: map_update)
  also have "\<dots> = map (\<lambda>(k, v, _). length k + length v) items"
    using assms(1,2) by (intro nth_equalityI) (auto simp: nth_list_update)
  finally show ?thesis by (simp add: items_size_def take_map [symmetric])
qed simp

lemma item_val_off_update:
  assumes "i < length items" and "items ! i = (k, v, f)" and "length v' = length v" and "j < length items"
  shows "item_val_off (items[i := (k, v', f')]) j = item_val_off items j"
  using assms items_size_update [OF assms(1-3), of j f'] by (cases "i = j") (simp_all add: item_val_off_def)

lemma leaf_ok_update:
  assumes ok: "leaf_ok xxh data items" and i: "i < length items" and it: "items ! i = (k, v, f)"
    and len: "length v' = length v" and f': "f' = 0 \<or> f' = 1"
    and lend: "length d = 4096"
    and frame: "\<And>off n. off + n \<le> 28 \<Longrightarrow> slice_at d off n = slice_at data off n"
    and others: "\<And>j k' v' f'. j < length items \<Longrightarrow> j \<noteq> i \<Longrightarrow> items ! j = (k', v', f') \<Longrightarrow>
      slice_at d (28 + j * 23) 23 = slice_at data (28 + j * 23) 23 \<and>
      slice_at d (item_val_off items j - length k') (length k' + length v') =
        slice_at data (item_val_off items j - length k') (length k' + length v')"
    and hdr: "slice_at d (28 + i * 23) 23 = Some (item_header xxh (k, v', f') (item_val_off items i))"
    and kv: "slice_at d (item_val_off items i - length k) (length k + length v') = Some (k @ v')"
  shows "leaf_ok xxh d (items[i := (k, v', f')]) \<and> leaf_links d = leaf_links data"
proof -
  let ?its = "items[i := (k, v', f')]"
  have "leaf_item_ok xxh d ?its j" if j: "j < length items" for j
  proof (cases "j = i")
    case True
    then show ?thesis
      using i hdr kv f' item_val_off_update [OF i it len i, of f'] by (simp add: leaf_item_ok_def Let_def)
  next
    case False
    obtain kj vj fj where itj: "items ! j = (kj, vj, fj)" by (cases "items ! j")
    have "leaf_item_ok xxh d items j"
      using leaf_item_frame [OF _ itj] others [OF j False itj] ok j by (auto simp: leaf_ok_def)
    then show ?thesis
      using False item_val_off_update [OF i it len j, of f'] by (simp add: leaf_item_ok_def)
  qed
  moreover have "leaf_fits ?its"
    using ok items_size_update [OF i it len, of "length items" f'] by (simp add: leaf_ok_def leaf_fits_def)
  moreover have "leaf_head d (length ?its)"
    using ok lend frame [of 0 2] frame [of 2 2] by (simp add: leaf_ok_def leaf_head_def)
  ultimately show ?thesis
    using frame [of 4 24] by (simp add: leaf_ok_def leaf_links_def)
qed

lemma kv_regions_disjoint:
  assumes "leaf_fits items" and "i < length items" "items ! i = (k, v, f)"
    and "j < length items" "items ! j = (k', v', f')" and "i \<noteq> j"
  shows "item_val_off items j - length k' + (length k' + length v') \<le> item_val_off items i - length k \<or>
    item_val_off items i - length k + (length k + length v) \<le> item_val_off items j - length k'"
proof (cases "i < j")
  case True
  then have "items_size (take (Suc i) items) \<le> items_size (take j items)"
    by (intro items_size_take_mono) simp
  then show ?thesis
    using kv_region(1) [OF assms(1-3)] kv_region(2) [OF assms(1,4,5)] by (simp add: diff_le_mono2)
next
  case False
  then have "items_size (take (Suc j) items) \<le> items_size (take i items)"
    using assms(6) by (intro items_size_take_mono) simp
  then show ?thesis
    using kv_region(2) [OF assms(1-3)] kv_region(1) [OF assms(1,4,5)] by (simp add: diff_le_mono2)
qed

lemma leaf_ok_slices:
  assumes "leaf_ok xxh data items" and "i < length items" and "items ! i = (k, v, f)"
  shows "slice_at data (28 + i * 23) 23 = Some (item_header xxh (k, v, f) (item_val_off items i))"
    and "slice_at data (item_val_off items i - length k) (length k + length v) = Some (k @ v)"
    and "leaf_fits items" and "length data = 4096"
  using assms by (auto simp: leaf_ok_def leaf_item_ok_def Let_def leaf_head_def)

text \<open>Replacing the value of an entry by one of the same length, or its flag.\<close>

lemma leaf_ok_set_value:
  assumes ok: "leaf_ok xxh data items" and i: "i < length items" and it: "items ! i = (k, v, f)"
    and len: "length v' = length v"
  shows "\<exists>d. set_bytes data (item_val_off items i) v' = (Ok d :: bytes result) \<and> leaf_ok xxh d (items[i := (k, v', f)]) \<and>
    leaf_links d = leaf_links data"
proof -
  let ?vo = "item_val_off items i"
  note s = leaf_ok_slices [OF ok i it]
  have b: "length k \<le> ?vo" "?vo + length v \<le> 4096" "28 + 23 * length items \<le> ?vo - length k"
    using leaf_bounds [OF s(3) i it] by auto
  obtain d where d: "set_bytes data ?vo v' = (Ok d :: bytes result)" and w: "write_slice data ?vo v' = Some d"
    using set_bytes_Ok [of ?vo v' data] b s(4) len by auto
  have keep: "slice_at d off n = slice_at data off n" if "off + n \<le> ?vo \<or> ?vo + length v \<le> off" for off n
    using that len by (intro slice_at_write_disjoint [OF w]) auto
  have "leaf_ok xxh d (items[i := (k, v', f)]) \<and> leaf_links d = leaf_links data"
  proof (rule leaf_ok_update [OF ok i it len leaf_flag_cases [OF ok i it]])
    show "length d = 4096" using write_slice_length [OF w] s(4) by simp
    show "slice_at d off n = slice_at data off n" if "off + n \<le> 28" for off n
      using that b by (intro keep) auto
    show "slice_at d (28 + j * 23) 23 = slice_at data (28 + j * 23) 23 \<and>
        slice_at d (item_val_off items j - length k') (length k' + length v'') =
          slice_at data (item_val_off items j - length k') (length k' + length v'')"
      if j: "j < length items" "j \<noteq> i" "items ! j = (k', v'', f')" for j k' v'' f'
      using kv_regions_disjoint [OF s(3) i it j(1,3)] j(1,2) b by (auto intro!: keep)
    show "slice_at d (28 + i * 23) 23 = Some (item_header xxh (k, v', f) ?vo)"
      using s(1) i b len by (subst keep) (auto simp: item_header_def)
    have "slice_at d (?vo - length k) (length k) = slice_at data (?vo - length k) (length k)"
      using b by (intro keep) simp
    also have "\<dots> = Some k" using slice_slice [OF s(2), of 0 "length k"] by (simp add: slice_simps)
    finally have "slice_at d (?vo - length k) (length k) = Some k" .
    from slice_at_join [OF this, of "length v'" v']
    show "slice_at d (?vo - length k) (length k + length v') = Some (k @ v')"
      using b slice_at_write_same [OF w] by simp
  qed
  with d show ?thesis by blast
qed

lemma leaf_ok_set_flag:
  assumes ok: "leaf_ok xxh data items" and i: "i < length items" and it: "items ! i = (k, v, f)"
    and f': "f' = 0 \<or> f' = 1"
  shows "\<exists>d. set_bytes data (28 + i * 23 + 22) [f'] = (Ok d :: bytes result) \<and> leaf_ok xxh d (items[i := (k, v, f')]) \<and>
    leaf_links d = leaf_links data"
proof -
  let ?vo = "item_val_off items i"
  let ?e = "28 + i * 23"
  note s = leaf_ok_slices [OF ok i it]
  have b: "28 + 23 * length items \<le> ?vo - length k" "?vo \<le> 4096"
    using leaf_bounds [OF s(3) i it] by auto
  have "23 * (i + 1) \<le> 23 * length items" using i by (intro mult_le_mono2) simp
  then have e: "?e + 22 + 1 \<le> 4096" using b by simp
  obtain d where d: "set_bytes data (?e + 22) [f'] = (Ok d :: bytes result)"
    and w: "write_slice data (?e + 22) [f'] = Some d"
    using set_bytes_Ok [of "?e + 22" "[f']" data] e s(4) by auto
  have keep: "slice_at d off n = slice_at data off n" if "off + n \<le> ?e + 22 \<or> ?e + 23 \<le> off" for off n
    using that by (intro slice_at_write_disjoint [OF w]) auto
  have "leaf_ok xxh d (items[i := (k, v, f')]) \<and> leaf_links d = leaf_links data"
  proof (rule leaf_ok_update [OF ok i it refl f'])
    show "length d = 4096" using write_slice_length [OF w] s(4) by simp
    show "slice_at d off n = slice_at data off n" if "off + n \<le> 28" for off n
      using that by (intro keep) auto
    show "slice_at d (28 + j * 23) 23 = slice_at data (28 + j * 23) 23 \<and>
        slice_at d (item_val_off items j - length k') (length k' + length v'') =
          slice_at data (item_val_off items j - length k') (length k' + length v'')"
      if j: "j < length items" "j \<noteq> i" "items ! j = (k', v'', f')" for j k' v'' f'
    proof -
      have "28 + 23 * length items \<le> item_val_off items j - length k'"
        by (rule leaf_bounds(3) [OF s(3) j(1,3)])
      then show ?thesis using i j(2) by (auto intro!: keep)
    qed
    have "slice_at d ?e 22 = slice_at data ?e 22" by (intro keep) simp
    also have "\<dots> = slice_at (item_header xxh (k, v, f) ?vo) 0 22"
      using slice_slice [OF s(1), of 0 22] by simp
    also have "\<dots> = Some (butlast (item_header xxh (k, v, f') ?vo))"
      by (simp add: item_header_def slice_at_def butlast_append)
    finally have "slice_at d ?e 22 = Some (butlast (item_header xxh (k, v, f') ?vo))" .
    from slice_at_join [OF this, of 1 "[f']"]
    show "slice_at d ?e 23 = Some (item_header xxh (k, v, f') ?vo)"
      using slice_at_write_same [OF w] by (simp add: item_header_def butlast_append)
    show "slice_at d (?vo - length k) (length k + length v) = Some (k @ v)"
      using b i s(2) by (subst keep) auto
  qed
  with d show ?thesis by blast
qed

section \<open>Writing a whole leaf\<close>

lemma fresh_leaf_ok:
  "\<exists>d. fresh_leaf i parent next prev = Ok d \<and> leaf_ok xxh d [] \<and>
     leaf_links d = Some (le_word parent @ le_word next @ le_word prev)"
proof -
  let ?z = "replicate 4096 0 :: bytes"
  let ?h = "le_word LEAF_NODE @ le_word (0 :: u16) @ le_word parent @ le_word next @ le_word prev"
  obtain d where d: "set_bytes ?z 0 ?h = (Ok d :: bytes result)" and w: "write_slice ?z 0 ?h = Some d"
    using set_bytes_Ok [of 0 ?h ?z] by auto
  have "fresh_leaf i parent next prev = set_bytes ?z 0 ?h"
    by (simp add: fresh_leaf_def page_new_def PAGE_SIZE_def put_u16_def put_u64_def NODE_TYPE_OFF_def COUNT_OFF_def
        PARENT_OFF_def NEXT_LEAF_OFF_def PREV_LEAF_OFF_def set_bytes_seq [of _ _ _ ?z]
        set_bytes_seq [where f = Ok, simplified])
  moreover have s: "slice_at d 0 28 = Some ?h" using slice_at_write_same [OF w] by simp
  have "slice_at d 0 2 = Some (le_word LEAF_NODE)" "slice_at d 2 2 = Some (le_word (0 :: u16))"
    "slice_at d 4 24 = Some (le_word parent @ le_word next @ le_word prev)"
    using slice_slice [OF s, of 0 2] slice_slice [OF s, of 2 2] slice_slice [OF s, of 4 24]
    by (simp_all add: slice_simps flip: numeral_2_eq_2)
  moreover have "length d = 4096" using write_slice_length [OF w] by simp
  ultimately show ?thesis
    using d by (simp add: leaf_ok_def leaf_head_def leaf_fits_def leaf_links_def)
qed

lemma leaf_links_fields:
  assumes "leaf_links d = Some (le_word (parent :: u64) @ le_word (next :: u64) @ le_word (prev :: u64))"
  shows "get_u64 d PARENT_OFF = (Ok parent :: u64 result)" "get_u64 d NEXT_LEAF_OFF = (Ok next :: u64 result)"
    "get_u64 d PREV_LEAF_OFF = (Ok prev :: u64 result)"
  using slice_slice [OF assms [unfolded leaf_links_def], of 0 8] slice_slice [OF assms [unfolded leaf_links_def], of 8 8]
    slice_slice [OF assms [unfolded leaf_links_def], of 16 8]
  by (simp_all add: get_defs PARENT_OFF_def NEXT_LEAF_OFF_def PREV_LEAF_OFF_def slice_simps)

definition norm_item :: "leaf_item \<Rightarrow> leaf_item" where
  "norm_item it = (case it of (k, v, f) \<Rightarrow> (k, v, if f AND 1 \<noteq> 0 then 1 else 0))"

lemma leaf_fits_norm: "leaf_fits (items @ (k, v, f) # its) \<Longrightarrow> leaf_fits (items @ [(k, v, f')]) \<and>
    leaf_fits ((items @ [norm_item (k, v, f)]) @ its)"
  by (simp add: leaf_fits_def norm_item_def)

lemma write_leaf_items_ok:
  assumes "leaf_ok xxh data items" and "leaf_fits (items @ its)" and "n = length items"
  shows "\<exists>d. write_leaf_items xxh data n its = Ok d \<and> leaf_ok xxh d (items @ map norm_item its) \<and>
    leaf_links d = leaf_links data"
  using assms
proof (induction its arbitrary: data items n)
  case Nil
  then show ?case by simp
next
  case (Cons it its)
  obtain k v f where it: "it = (k, v, f)" by (cases it)
  note fits = leaf_fits_norm [OF Cons.prems(2) [unfolded it]]
  obtain d2 d3 where d: "insert_leaf_entry xxh data n k v = Ok d2"
    "put_u16 d2 COUNT_OFF (of_nat (n + 1)) = Ok d3"
    "leaf_ok xxh d3 (items @ [(k, v, 0)])" "leaf_links d3 = leaf_links data"
    using insert_leaf_entry_ok [OF Cons.prems(1)] fits Cons.prems(3) by blast
  obtain d4 where d4: "(if f AND 1 \<noteq> 0 then set_bytes d3 (LEAF_ENTRIES_OFF + n * LEAF_ENTRY_SIZE + 22) [1] else Ok d3) = (Ok d4 :: bytes result)"
    "leaf_ok xxh d4 (items @ [norm_item it])" "leaf_links d4 = leaf_links data"
  proof (cases "f AND 1 \<noteq> 0")
    case True
    obtain d4 where "set_bytes d3 (28 + n * 23 + 22) [1] = (Ok d4 :: bytes result)"
      "leaf_ok xxh d4 ((items @ [(k, v, 0)])[n := (k, v, 1)])" "leaf_links d4 = leaf_links d3"
      using leaf_ok_set_flag [OF d(3), of n k v 0 1] Cons.prems(3) by auto
    with True d(4) show thesis
      by (intro that [of d4]) (simp_all add: it norm_item_def LEAF_ENTRIES_OFF_def LEAF_ENTRY_SIZE_def Cons.prems(3))
  next
    case False
    with d show thesis by (intro that [of d3]) (simp_all add: it norm_item_def)
  qed
  have "\<exists>d. write_leaf_items xxh d4 (n + 1) its = Ok d \<and>
      leaf_ok xxh d ((items @ [norm_item it]) @ map norm_item its) \<and> leaf_links d = leaf_links d4"
    using fits Cons.prems(3) it by (intro Cons.IH [OF d4(2)]) simp_all
  then show ?case using d d4 by (auto simp: it)
qed

section \<open>A tree whose root is a leaf\<close>

text \<open>The list operations the tree's operations refine.\<close>

definition first_key :: "leaf_item list \<Rightarrow> key \<Rightarrow> nat option" where
  "first_key items k = find (\<lambda>j. fst (items ! j) = k) [0..<length items]"

definition leaf_put :: "leaf_item list \<Rightarrow> key \<Rightarrow> val \<Rightarrow> leaf_item list" where
  "leaf_put items k v =
     (case first_key items k of
        None \<Rightarrow> sort_key fst (items @ [(k, v, 0)])
      | Some j \<Rightarrow>
          (case items ! j of (k', v', f') \<Rightarrow>
             if length v' = length v then items[j := (k, v, 0)]
             else sort_key fst (items[j := (k, v', 1)] @ [(k, v, 0)])))"

definition leaf_del :: "leaf_item list \<Rightarrow> key \<Rightarrow> bool \<times> leaf_item list" where
  "leaf_del items k =
     (case first_key items k of
        None \<Rightarrow> (False, items)
      | Some j \<Rightarrow>
          (case items ! j of (k', v', f') \<Rightarrow>
             if f' = 1 then (False, items) else (True, items[j := (k, v', 1)])))"

definition leaf_tree :: "(bytes \<Rightarrow> u64) \<Rightarrow> tree_state \<Rightarrow> leaf_item list \<Rightarrow> bool" where
  "leaf_tree xxh s items \<longleftrightarrow> (\<exists>p. bt_root_id (fst s) \<noteq> 0 \<and> pc_view (snd s) (bt_root_id (fst s)) = Some p \<and>
     pg_id p = bt_root_id (fst s) \<and> leaf_ok xxh (pg_data p) items \<and>
     (\<exists>(parent :: u64) (next :: u64) (prev :: u64). leaf_links (pg_data p) = Some (le_word parent @ le_word next @ le_word prev)))"

lemma first_key_Some: "first_key items k = Some j \<Longrightarrow> j < length items \<and> fst (items ! j) = k"
  by (auto simp: first_key_def find_Some_iff)

lemma cache_page_view:
  assumes "pc_view pc i = Some p"
  shows "\<exists>pc'. cache_page msg i (b, pc) = (Ok p, (b, pc')) \<and> pc_view pc' = pc_view pc"
proof -
  obtain r pc' where "pc_get i pc = (r, pc')" by (cases "pc_get i pc")
  with assms pc_get_view [of i pc] show ?thesis
    by (simp add: cache_page_def cache_get_def sbind_def)
qed

lemma node_type_leaf: "leaf_ok xxh d items \<Longrightarrow> get_u16 d NODE_TYPE_OFF = (Ok LEAF_NODE :: u16 result)"
  by (simp add: leaf_ok_def leaf_head_def get_defs NODE_TYPE_OFF_def)

lemma leaf_tree_get:
  assumes "leaf_tree xxh s items"
  shows "\<exists>s'. bt_get xxh (Suc fuel) k s = (Ok (leaf_find items k), s') \<and> leaf_tree xxh s' items \<and> fst s' = fst s"
proof -
  obtain b pc where s: "s = (b, pc)" by (cases s)
  obtain p where p: "bt_root_id b \<noteq> 0" "pc_view pc (bt_root_id b) = Some p" "leaf_ok xxh (pg_data p) items"
    using assms by (auto simp: leaf_tree_def s)
  obtain pc' where g: "cache_page ''BTree root not found'' (bt_root_id b) (b, pc) = (Ok p, (b, pc'))"
    "pc_view pc' = pc_view pc"
    using cache_page_view [OF p(2)] by blast
  have "bt_get xxh (Suc fuel) k s = (Ok (leaf_find items k), (b, pc'))"
    using p(1) g leaf_search_ok [OF p(3), of 0 "length items" k]
    by (simp add: s bt_get_def bt_get_root_def node_type_leaf [OF p(3)] leaf_ok_count [OF p(3)])
  then show ?thesis using assms g(2) by (auto simp: leaf_tree_def s)
qed

lemma leaf_tree_replaced:
  assumes "bt_root_id b \<noteq> 0" and "is_dirty p" and "pg_id p = bt_root_id b" and "leaf_ok xxh (pg_data p) items"
    and "leaf_links (pg_data p) = Some (le_word (parent :: u64) @ le_word (next :: u64) @ le_word (prev :: u64))"
  shows "leaf_tree xxh (b, pc_insert p pc) items"
  using assms by (auto simp: leaf_tree_def)

lemma map_norm_flags:
  "\<forall>(k, v, f) \<in> set items. f = 0 \<or> f = 1 \<Longrightarrow> map norm_item items = items"
  by (induction items) (auto simp: norm_item_def)

lemma leaf_ok_flags: "leaf_ok xxh data items \<Longrightarrow> \<forall>(k, v, f) \<in> set items. f = 0 \<or> f = 1"
  using leaf_flag_cases by (fastforce simp: in_set_conv_nth)

lemma items_size_sort [simp]: "items_size (sort_key fst items) = items_size items"
proof -
  have "items_size (insort_key fst it xs) = items_size [it] + items_size xs" for it xs
    by (induction xs) (auto simp: items_size_def)
  then show ?thesis by (induction items) (auto simp: items_size_def)
qed

text \<open>Rebuilding a leaf with one entry more.\<close>

lemma leaf_rebuild_ok:
  assumes ok: "leaf_ok xxh data items" and fits: "leaf_fits (items @ [(k, v, 0)])"
    and links: "leaf_links data = Some (le_word (parent :: u64) @ le_word (next :: u64) @ le_word (prev :: u64))"
  shows "\<exists>d. obind (get_u64 data PARENT_OFF) (\<lambda>parent. obind (get_u64 data NEXT_LEAF_OFF) (\<lambda>next.
      obind (get_u64 data PREV_LEAF_OFF) (\<lambda>prev. obind (fresh_leaf i parent next prev) (\<lambda>d.
      write_leaf_items xxh d 0 (sort_key fst (items @ [(k, v, 0)])))))) = Ok d \<and>
    leaf_ok xxh d (sort_key fst (items @ [(k, v, 0)])) \<and> leaf_links d = leaf_links data"
proof -
  let ?its = "sort_key fst (items @ [(k, v, 0 :: u8)])"
  obtain d0 where d0: "fresh_leaf i parent next prev = Ok d0" "leaf_ok xxh d0 []"
    "leaf_links d0 = Some (le_word parent @ le_word next @ le_word prev)"
    using fresh_leaf_ok by blast
  have "leaf_fits ([] @ ?its)" using fits by (simp add: leaf_fits_def)
  then obtain d where d: "write_leaf_items xxh d0 0 ?its = Ok d" "leaf_ok xxh d (map norm_item ?its)"
    "leaf_links d = leaf_links d0"
    using write_leaf_items_ok [OF d0(2), of ?its 0] by auto
  have "map norm_item ?its = ?its"
    using leaf_ok_flags [OF ok] by (intro map_norm_flags) auto
  with d d0 links show ?thesis by (simp add: leaf_links_fields [OF links])
qed

lemma leaf_tree_insert:
  assumes tree: "leaf_tree xxh s items" and order: "length items < bt_order (fst s) * 2"
    and fits: "leaf_fits (items @ [(k, v, 0)])"
  shows "\<exists>s'. bt_insert_tree xxh (Suc fuel) k v s = (Ok (), s') \<and> leaf_tree xxh s' (leaf_put items k v) \<and>
    fst s' = fst s"
proof -
  obtain b pc where s: "s = (b, pc)" by (cases s)
  obtain p parent nxt prv where p: "bt_root_id b \<noteq> 0" "pc_view pc (bt_root_id b) = Some p" "pg_id p = bt_root_id b"
    "leaf_ok xxh (pg_data p) items"
    "leaf_links (pg_data p) = Some (le_word (parent :: u64) @ le_word (nxt :: u64) @ le_word (prv :: u64))"
    using tree by (auto simp: leaf_tree_def s)
  obtain pc' where g: "cache_page ''BTree page not found'' (bt_root_id b) (b, pc) = (Ok p, (b, pc'))"
    using cache_page_view [OF p(2)] by blast
  let ?n = "length items"
  have found: "find_leaf_key (pg_data p) k 0 ?n = Ok (map_option (\<lambda>j. (j, leaf_entry_of xxh items j)) (first_key items k))"
    using find_leaf_key_ok [OF p(4), of 0 ?n k] by (simp add: first_key_def)
  have ord: "?n < bt_order b * 2" using order by (simp add: s)
  have leaf: "\<exists>q. bt_insert_into_leaf xxh p k v (b, pc') = (Ok None, (b, pc_insert q pc')) \<and> is_dirty q \<and>
      pg_id q = bt_root_id b \<and> leaf_ok xxh (pg_data q) (leaf_put items k v) \<and>
      leaf_links (pg_data q) = leaf_links (pg_data p)"
  proof (cases "first_key items k")
    case None
    obtain d where d: "obind (get_u64 (pg_data p) PARENT_OFF) (\<lambda>parent. obind (get_u64 (pg_data p) NEXT_LEAF_OFF) (\<lambda>next.
        obind (get_u64 (pg_data p) PREV_LEAF_OFF) (\<lambda>prev. obind (fresh_leaf (pg_id p) parent next prev) (\<lambda>d.
        write_leaf_items xxh d 0 (sort_key fst (items @ [(k, v, 0)])))))) = Ok d"
      "leaf_ok xxh d (sort_key fst (items @ [(k, v, 0)]))" "leaf_links d = leaf_links (pg_data p)"
      using leaf_rebuild_ok [OF p(4) fits p(5)] by blast
    then show ?thesis
      using None found ord read_leaf_items_ok [OF p(4), of 0 ?n] p(3)
      by (intro exI [of _ "dirty_page (pg_id p) d"])
        (simp add: bt_insert_into_leaf_def leaf_ok_count [OF p(4)] cache_insert_def leaf_put_def dirty_page_def page_new_def)
  next
    case (Some j)
    obtain k' v' f' where it: "items ! j = (k', v', f')" by (cases "items ! j")
    have j: "j < ?n" "k' = k" using first_key_Some [OF Some] it by simp_all
    note e = leaf_entry_of_fields [OF p(4) j(1) it]
    show ?thesis
    proof (cases "length v' = length v")
      case True
      obtain d1 where d1: "set_bytes (pg_data p) (item_val_off items j) v = (Ok d1 :: bytes result)"
        "leaf_ok xxh d1 (items[j := (k', v, f')])" "leaf_links d1 = leaf_links (pg_data p)"
        using leaf_ok_set_value [OF p(4) j(1) it, of v] True by auto
      obtain d2 where d2: "set_bytes d1 (28 + j * 23 + 22) [0] = (Ok d2 :: bytes result)"
        "leaf_ok xxh d2 (items[j := (k', v, 0)])" "leaf_links d2 = leaf_links d1"
        using leaf_ok_set_flag [OF d1(2), of j k' v f' 0] j(1) by auto
      show ?thesis
        using Some found True e j(2) it d1 d2 p(3)
        by (intro exI [of _ "mark_dirty (p\<lparr>pg_data := d2\<rparr>)"])
          (simp add: bt_insert_into_leaf_def Let_def leaf_ok_count [OF p(4)] cache_insert_def leaf_put_def
            LEAF_ENTRIES_OFF_def LEAF_ENTRY_SIZE_def)
    next
      case False
      let ?its = "items[j := (k, v', 1)]"
      have bound: "28 + j * 23 + 22 < length (pg_data p)"
      proof -
        have "23 * (j + 1) \<le> 23 * ?n" using j(1) by (intro mult_le_mono2) simp
        then show ?thesis
          using leaf_ok_slices(4) [OF p(4) j(1) it] leaf_bounds(3,5) [OF _ j(1) it] leaf_ok_slices(3) [OF p(4) j(1) it]
          by fastforce
      qed
      have byte: "pg_data p ! (28 + j * 23 + 22) = f'"
        using nth_slice [OF leaf_ok_slices(1) [OF p(4) j(1) it], of 22] by (simp add: item_header_def nth_append)
      obtain d1 where d1: "set_bytes (pg_data p) (28 + j * 23 + 22) [1] = (Ok d1 :: bytes result)"
        "leaf_ok xxh d1 ?its" "leaf_links d1 = leaf_links (pg_data p)"
        using leaf_ok_set_flag [OF p(4) j(1) it, of 1] j(2) by auto
      have "f' OR 1 = 1" using leaf_flag_cases [OF p(4) j(1) it] by auto
      then have ob: "or_byte (pg_data p) (28 + j * 23 + 22) 1 = (Ok d1 :: bytes result)"
        using bound byte d1(1)
        by (auto simp: or_byte_def nth_or_panic_def set_bytes_def write_slice_def upd_conv_take_nth_drop)
      have fits': "leaf_fits (?its @ [(k, v, 0)])"
        using fits items_size_update [OF j(1) it, of v' ?n 1] j(2) by (simp add: leaf_fits_def)
      obtain d where d: "obind (get_u64 d1 PARENT_OFF) (\<lambda>parent. obind (get_u64 d1 NEXT_LEAF_OFF) (\<lambda>next.
          obind (get_u64 d1 PREV_LEAF_OFF) (\<lambda>prev. obind (fresh_leaf (pg_id p) parent next prev) (\<lambda>d.
          write_leaf_items xxh d 0 (sort_key fst (?its @ [(k, v, 0)])))))) = Ok d"
        "leaf_ok xxh d (sort_key fst (?its @ [(k, v, 0)]))" "leaf_links d = leaf_links d1"
        using leaf_rebuild_ok [OF d1(2) fits' d1(3) [unfolded p(5)], of "pg_id p"] by blast
      show ?thesis
        using Some found False e j(2) it ob d ord read_leaf_items_ok [OF d1(2), of 0 ?n] p(3) d1(3)
        by (intro exI [of _ "dirty_page (pg_id p) d"])
          (simp add: bt_insert_into_leaf_def Let_def leaf_ok_count [OF p(4)] cache_insert_def leaf_put_def
            LEAF_ENTRIES_OFF_def LEAF_ENTRY_SIZE_def dirty_page_def page_new_def)
    qed
  qed
  then obtain q where q: "bt_insert_into_leaf xxh p k v (b, pc') = (Ok None, (b, pc_insert q pc'))" "is_dirty q"
    "pg_id q = bt_root_id b" "leaf_ok xxh (pg_data q) (leaf_put items k v)"
    "leaf_links (pg_data q) = leaf_links (pg_data p)" by blast
  have "bt_insert_tree xxh (Suc fuel) k v s = (Ok (), (b, pc_insert q pc'))"
    using p(1) g q(1) by (simp add: s bt_insert_tree_def bt_get_root_def node_type_leaf [OF p(4)])
  moreover have "leaf_tree xxh (b, pc_insert q pc') (leaf_put items k v)"
    using leaf_tree_replaced [OF p(1) q(2-4)] q(5) p(5) by simp
  ultimately show ?thesis by (auto simp: s)
qed

lemma leaf_tree_delete:
  assumes tree: "leaf_tree xxh s items"
  shows "\<exists>s'. bt_delete (Suc fuel) k s = (Ok (fst (leaf_del items k)), s') \<and>
    leaf_tree xxh s' (snd (leaf_del items k)) \<and> fst s' = fst s"
proof -
  obtain b pc where s: "s = (b, pc)" by (cases s)
  obtain p parent nxt prv where p: "bt_root_id b \<noteq> 0" "pc_view pc (bt_root_id b) = Some p" "pg_id p = bt_root_id b"
    "leaf_ok xxh (pg_data p) items"
    "leaf_links (pg_data p) = Some (le_word (parent :: u64) @ le_word (nxt :: u64) @ le_word (prv :: u64))"
    using tree by (auto simp: leaf_tree_def s)
  obtain pc' where g: "cache_page ''BTree page not found'' (bt_root_id b) (b, pc) = (Ok p, (b, pc'))"
    "pc_view pc' = pc_view pc"
    using cache_page_view [OF p(2)] by blast
  have same: "leaf_tree xxh (b, pc') items" using tree g(2) by (auto simp: leaf_tree_def s)
  let ?n = "length items"
  have found: "find_leaf_key (pg_data p) k 0 ?n = Ok (map_option (\<lambda>j. (j, leaf_entry_of xxh items j)) (first_key items k))"
    using find_leaf_key_ok [OF p(4), of 0 ?n k] by (simp add: first_key_def)
  have start: "bt_delete (Suc fuel) k s = bt_delete_from (Suc fuel) (bt_root_id b) k (b, pc)"
    using p(1) by (simp add: s bt_delete_def bt_get_root_def)
  show ?thesis
  proof (cases "first_key items k")
    case None
    then show ?thesis
      using start g(1) found same
      by (simp add: node_type_leaf [OF p(4)] leaf_ok_count [OF p(4)] leaf_del_def s)
  next
    case (Some j)
    obtain k' v' f' where it: "items ! j = (k', v', f')" by (cases "items ! j")
    have j: "j < ?n" "k' = k" using first_key_Some [OF Some] it by simp_all
    note e = leaf_entry_of_fields [OF p(4) j(1) it]
    have flag: "f' = 0 \<or> f' = 1" by (rule leaf_flag_cases [OF p(4) j(1) it])
    show ?thesis
    proof (cases "f' = 1")
      case True
      then show ?thesis
        using start g(1) found same Some it e
        by (simp add: node_type_leaf [OF p(4)] leaf_ok_count [OF p(4)] leaf_del_def leaf_dead_def s)
    next
      case False
      have "23 * (j + 1) \<le> 23 * ?n" using j(1) by (intro mult_le_mono2) simp
      then have bound: "28 + j * 23 + 22 < length (pg_data p)"
        using leaf_ok_slices(4) [OF p(4) j(1) it] leaf_bounds(3,5) [OF _ j(1) it] leaf_ok_slices(3) [OF p(4) j(1) it]
        by fastforce
      have byte: "pg_data p ! (28 + j * 23 + 22) = 0"
        using nth_slice [OF leaf_ok_slices(1) [OF p(4) j(1) it], of 22] flag False
        by (simp add: item_header_def nth_append)
      obtain d1 where d1: "set_bytes (pg_data p) (28 + j * 23 + 22) [1] = (Ok d1 :: bytes result)"
        "leaf_ok xxh d1 (items[j := (k, v', 1)])" "leaf_links d1 = leaf_links (pg_data p)"
        using leaf_ok_set_flag [OF p(4) j(1) it, of 1] j(2) by auto
      then have ob: "or_byte (pg_data p) (28 + j * 23 + 22) 1 = (Ok d1 :: bytes result)"
        using bound byte
        by (auto simp: or_byte_def nth_or_panic_def set_bytes_def write_slice_def upd_conv_take_nth_drop)
      let ?q = "mark_dirty (p\<lparr>pg_data := d1\<rparr>)"
      have "bt_delete (Suc fuel) k s = (Ok True, (b, pc_insert ?q pc'))"
        using start g(1) found Some it e flag False ob
        by (simp add: node_type_leaf [OF p(4)] leaf_ok_count [OF p(4)] leaf_dead_def cache_insert_def
            LEAF_ENTRIES_OFF_def LEAF_ENTRY_SIZE_def)
      moreover have "leaf_tree xxh (b, pc_insert ?q pc') (items[j := (k, v', 1)])"
        using leaf_tree_replaced [OF p(1), of ?q] d1 p(3,5) by simp
      ultimately show ?thesis using Some it False by (simp add: leaf_del_def s)
    qed
  qed
qed

text \<open>The first insertion creates the root.\<close>

lemma leaf_tree_first_insert:
  assumes "bt_root_id b = 0" and "0 < bt_order b" and "leaf_fits [(k, v, 0)]"
  shows "\<exists>s'. bt_insert_tree xxh (Suc fuel) k v (b, pc) = (Ok (), s') \<and> leaf_tree xxh s' [(k, v, 0)] \<and>
    bt_order (fst s') = bt_order b"
proof -
  obtain d where d: "fresh_leaf 1 INVALID_PAGE INVALID_PAGE INVALID_PAGE = Ok d" "leaf_ok xxh d []"
    "leaf_links d = Some (le_word INVALID_PAGE @ le_word INVALID_PAGE @ le_word INVALID_PAGE)"
    using fresh_leaf_ok by blast
  let ?s = "(b\<lparr>bt_root_id := 1\<rparr>, pc_insert (dirty_page 1 d) pc)"
  have "leaf_tree xxh ?s []"
    using d by (intro leaf_tree_replaced) (simp_all add: dirty_page_def page_new_def)
  from leaf_tree_insert [OF this, of k v fuel] assms
  obtain s' where s': "bt_insert_tree xxh (Suc fuel) k v ?s = (Ok (), s')" "leaf_tree xxh s' [(k, v, 0)]"
    "fst s' = b\<lparr>bt_root_id := 1\<rparr>"
    by (auto simp: leaf_put_def first_key_def)
  moreover have "bt_insert_tree xxh (Suc fuel) k v (b, pc) = bt_insert_tree xxh (Suc fuel) k v ?s"
    using assms(1) d(1)
    by (simp add: bt_insert_tree_def bt_get_root_def cache_insert_def bt_set_root_def del: bt_insert_into.simps)
  ultimately show ?thesis by auto
qed

section \<open>Properties\<close>

text \<open>Inserting a list of entries one after the other.\<close>

fun bt_insert_all :: "(bytes \<Rightarrow> u64) \<Rightarrow> nat \<Rightarrow> (key \<times> val) list \<Rightarrow> unit tree_op" where
  "bt_insert_all xxh fuel [] = sret ()"
| "bt_insert_all xxh fuel ((k, v) # kvs) = sbind (bt_insert_tree xxh fuel k v) (\<lambda>_. bt_insert_all xxh fuel kvs)"

definition live_items :: "leaf_item list \<Rightarrow> (key \<times> val) list \<Rightarrow> bool" where
  "live_items items kvs \<longleftrightarrow> distinct (map fst items) \<and> (\<forall>(k, v, f) \<in> set items. f = 0) \<and>
     (\<forall>k v. (k, v, 0) \<in> set items \<longleftrightarrow> (k, v) \<in> set kvs) \<and> length items = length kvs \<and>
     items_size items = sum_list (map (\<lambda>(k, v). length k + length v) kvs)"

lemma leaf_find_member:
  "distinct (map fst items) \<Longrightarrow> \<forall>(k, v, f) \<in> set items. f = 0 \<Longrightarrow>
   leaf_find items k = Some v \<longleftrightarrow> (k, v, 0) \<in> set items"
  by (induction items) (auto simp: image_iff split: if_splits)

lemma first_key_None: "k \<notin> fst ` set items \<Longrightarrow> first_key items k = None"
  by (auto simp: first_key_def find_None_iff)

lemma leaf_put_live:
  assumes "live_items items kvs" and "k \<notin> fst ` set kvs"
  shows "live_items (leaf_put items k v) (kvs @ [(k, v)])"
proof -
  have new: "k \<notin> fst ` set items" using assms by (force simp: live_items_def)
  have fresh: "(k, v) \<notin> set kvs" using assms(2) by force
  have "distinct (map fst (sort_key fst (items @ [(k, v, 0)])))"
    using assms(1) new fresh by (auto simp: live_items_def distinct_map)
  then show ?thesis
    using assms(1) by (simp add: live_items_def leaf_put_def first_key_None [OF new] del: distinct_map)
qed

lemma live_items_fit:
  "live_items items kvs \<Longrightarrow> leaf_fits (items @ [(k, v, 0)]) \<longleftrightarrow>
     28 + 23 * (length kvs + 1) + sum_list (map (\<lambda>(k, v). length k + length v) (kvs @ [(k, v)])) \<le> 4096"
  by (simp add: live_items_def leaf_fits_def)

lemma bt_insert_all_live:
  assumes "leaf_tree xxh s items" and "live_items items kvs" and "distinct (map fst (kvs @ new))"
    and "length (kvs @ new) \<le> bt_order (fst s) * 2"
    and "28 + 23 * length (kvs @ new) + sum_list (map (\<lambda>(k, v). length k + length v) (kvs @ new)) \<le> 4096"
  shows "\<exists>s' items'. bt_insert_all xxh (Suc fuel) new s = (Ok (), s') \<and> leaf_tree xxh s' items' \<and>
    live_items items' (kvs @ new)"
  using assms
proof (induction new arbitrary: s items kvs)
  case Nil
  then show ?case by auto
next
  case (Cons kv new)
  obtain k v where kv: "kv = (k, v)" by (cases kv)
  have fits: "leaf_fits (items @ [(k, v, 0)])"
    using Cons.prems(5) live_items_fit [OF Cons.prems(2), of k v] by (simp add: kv)
  have "length items < bt_order (fst s) * 2" using Cons.prems(2,4) by (simp add: live_items_def)
  from leaf_tree_insert [OF Cons.prems(1) this fits, of fuel]
  obtain s' where s': "bt_insert_tree xxh (Suc fuel) k v s = (Ok (), s')" "leaf_tree xxh s' (leaf_put items k v)"
    "fst s' = fst s" by blast
  have "live_items (leaf_put items k v) (kvs @ [(k, v)])"
    using Cons.prems(2,3) by (intro leaf_put_live) (auto simp: kv)
  from Cons.IH [OF s'(2) this] Cons.prems s'(3)
  obtain s'' items' where "bt_insert_all xxh (Suc fuel) new s' = (Ok (), s'')" "leaf_tree xxh s'' items'"
    "live_items items' (kvs @ kv # new)" by (auto simp: kv)
  then show ?case using s'(1) by (auto simp: kv)
qed

lemma bt_new_root: "bt_root_id (bt_new order) = 0" by (simp add: bt_new_def)

lemma bt_insert_all_from_empty:
  assumes "distinct (map fst kvs)" and "length kvs \<le> bt_order (bt_new order) * 2" and "kvs \<noteq> []"
    and "28 + 23 * length kvs + sum_list (map (\<lambda>(k, v). length k + length v) kvs) \<le> 4096"
  shows "\<exists>s items. bt_insert_all xxh (Suc fuel) kvs (bt_new order, pc) = (Ok (), s) \<and> leaf_tree xxh s items \<and>
    live_items items kvs"
proof -
  obtain k v rest where kvs: "kvs = (k, v) # rest" using assms(3) by (cases kvs) auto
  have ord: "0 < bt_order (bt_new order)" by (simp add: bt_new_def)
  have fits: "leaf_fits [(k, v, 0)]"
    using assms(4) by (simp add: kvs leaf_fits_def)
  obtain s where s: "bt_insert_tree xxh (Suc fuel) k v (bt_new order, pc) = (Ok (), s)"
    "leaf_tree xxh s [(k, v, 0)]" "bt_order (fst s) = bt_order (bt_new order)"
    using leaf_tree_first_insert [OF bt_new_root ord fits, of xxh fuel pc] by blast
  have "live_items [(k, v, 0)] [(k, v)]" by (auto simp: live_items_def)
  from bt_insert_all_live [OF s(2) this, of rest fuel] assms(1,2,4) s(3)
  show ?thesis using s(1) by (auto simp: kvs)
qed

text \<open>C13: Index correctness on one leaf: entries with distinct keys inserted in any order into an
  empty tree, as many as fit one page, are all found with their values, and no other key is.\<close>

theorem btree_insert_get:
  assumes "distinct (map fst kvs)" and "length kvs \<le> bt_order (bt_new order) * 2" and "kvs \<noteq> []"
    and "28 + 23 * length kvs + sum_list (map (\<lambda>(k, v). length k + length v) kvs) \<le> 4096"
  shows "\<exists>s s'. bt_insert_all xxh (Suc fuel) kvs (bt_new order, pc) = (Ok (), s) \<and>
    bt_get xxh (Suc fuel') k s = (Ok (map_of kvs k), s')"
proof -
  obtain s items where s: "bt_insert_all xxh (Suc fuel) kvs (bt_new order, pc) = (Ok (), s)"
    "leaf_tree xxh s items" "live_items items kvs"
    using bt_insert_all_from_empty [OF assms] by blast
  have "leaf_find items k = Some v \<longleftrightarrow> map_of kvs k = Some v" for v
    using s(3) assms(1) leaf_find_member [of items k v] by (auto simp: live_items_def)
  then have "leaf_find items k = map_of kvs k"
    by (intro option.expand) (metis option.exhaust_sel option.sel)+
  moreover obtain s' where "bt_get xxh (Suc fuel') k s = (Ok (leaf_find items k), s')"
    using leaf_tree_get [OF s(2), of fuel' k] by blast
  ultimately show ?thesis using s(1) by (intro exI conjI) simp_all
qed

theorem btree_insert_get_witness:
  "\<exists>s s'. bt_insert_all (\<lambda>_. 0) 1 [([2], [20]), ([1], [10, 11])] (bt_new 4, pc_new 8) = (Ok (), s) \<and>
     bt_get (\<lambda>_. 0) 1 [1] s = (Ok (Some [10, 11]), s')"
  using btree_insert_get [of "[([2], [20]), ([1], [10, 11])]" 4 "\<lambda>_. 0" 0 "pc_new 8" 0 "[1]"]
  by (simp add: bt_new_def)

lemma three_puts:
  assumes "length a \<noteq> length b" and "length a \<noteq> length c"
  shows "leaf_put [(k, a, 0)] k b = [(k, a, 1), (k, b, 0)]"
    and "leaf_put [(k, a, 1), (k, b, 0)] k c = [(k, a, 1), (k, b, 0), (k, c, 0)]"
  using assms by (simp_all add: leaf_put_def first_key_def upt_rec)

text \<open>A stale overwrite: after a key is overwritten twice with values whose lengths differ from
  the first one, a lookup returns the second value, not the last.\<close>

theorem btree_stale_overwrite:
  assumes "length a \<noteq> length b" and "length a \<noteq> length c" and "2 \<le> bt_order (bt_new order)"
    and "3 * length k + length a + length b + length c \<le> 3900"
  shows "\<exists>s s'. bt_insert_all xxh (Suc fuel) [(k, a), (k, b), (k, c)] (bt_new order, pc) = (Ok (), s) \<and>
    bt_get xxh (Suc fuel') k s = (Ok (Some b), s')"
proof -
  have ord: "0 < bt_order (bt_new order)" using assms(3) by simp
  obtain s1 where s1: "bt_insert_tree xxh (Suc fuel) k a (bt_new order, pc) = (Ok (), s1)"
    "leaf_tree xxh s1 [(k, a, 0)]" "bt_order (fst s1) = bt_order (bt_new order)"
    using leaf_tree_first_insert [OF bt_new_root ord, of k a xxh fuel pc] assms(4)
    by (auto simp: leaf_fits_def)
  obtain s2 where s2: "bt_insert_tree xxh (Suc fuel) k b s1 = (Ok (), s2)"
    "leaf_tree xxh s2 [(k, a, 1), (k, b, 0)]" "fst s2 = fst s1"
    using leaf_tree_insert [OF s1(2), of k b fuel] assms(3,4) s1(3)
    by (auto simp: leaf_fits_def three_puts [OF assms(1,2)])
  obtain s3 where s3: "bt_insert_tree xxh (Suc fuel) k c s2 = (Ok (), s3)"
    "leaf_tree xxh s3 [(k, a, 1), (k, b, 0), (k, c, 0)]"
    using leaf_tree_insert [OF s2(2), of k c fuel] assms(3,4) s1(3) s2(3)
    by (auto simp: leaf_fits_def three_puts [OF assms(1,2)])
  obtain s4 where "bt_get xxh (Suc fuel') k s3 = (Ok (Some b), s4)"
    using leaf_tree_get [OF s3(2), of fuel' k] by auto
  then show ?thesis using s1(1) s2(1) s3(1) by (intro exI conjI) simp_all
qed

theorem btree_stale_overwrite_witness:
  "\<exists>s s'. bt_insert_all (\<lambda>_. 0) 1 [([7], [1]), ([7], [2, 2]), ([7], [3, 3, 3])] (bt_new 4, pc_new 8) = (Ok (), s) \<and>
     bt_get (\<lambda>_. 0) 1 [7] s = (Ok (Some [2, 2]), s')"
  using btree_stale_overwrite [of "[1]" "[2, 2]" "[3, 3, 3]" 4 "[7]" "\<lambda>_. 0" 0 "pc_new 8" 0]
  by (simp add: bt_new_def)

text \<open>A delete that does nothing: after a key is overwritten with a value of another length,
  deleting it reports that there was nothing to delete, and the key is still found.\<close>

theorem btree_delete_ineffective:
  assumes "length a \<noteq> length b" and "2 \<le> bt_order (bt_new order)"
    and "2 * length k + length a + length b \<le> 3900"
  shows "\<exists>s s' s''. bt_insert_all xxh (Suc fuel) [(k, a), (k, b)] (bt_new order, pc) = (Ok (), s) \<and>
    bt_delete (Suc fuel) k s = (Ok False, s') \<and> bt_get xxh (Suc fuel') k s' = (Ok (Some b), s'')"
proof -
  have ord: "0 < bt_order (bt_new order)" using assms(2) by simp
  obtain s1 where s1: "bt_insert_tree xxh (Suc fuel) k a (bt_new order, pc) = (Ok (), s1)"
    "leaf_tree xxh s1 [(k, a, 0)]" "bt_order (fst s1) = bt_order (bt_new order)"
    using leaf_tree_first_insert [OF bt_new_root ord, of k a xxh fuel pc] assms(3)
    by (auto simp: leaf_fits_def)
  have put: "leaf_put [(k, a, 0)] k b = [(k, a, 1), (k, b, 0)]"
    using assms(1) by (simp add: leaf_put_def first_key_def upt_rec)
  obtain s2 where s2: "bt_insert_tree xxh (Suc fuel) k b s1 = (Ok (), s2)"
    "leaf_tree xxh s2 [(k, a, 1), (k, b, 0)]"
    using leaf_tree_insert [OF s1(2), of k b fuel] assms(2,3) s1(3) by (auto simp: leaf_fits_def put)
  have "leaf_del [(k, a, 1), (k, b, 0)] k = (False, [(k, a, 1), (k, b, 0)])"
    by (simp add: leaf_del_def first_key_def upt_rec)
  then obtain s3 where s3: "bt_delete (Suc fuel) k s2 = (Ok False, s3)" "leaf_tree xxh s3 [(k, a, 1), (k, b, 0)]"
    using leaf_tree_delete [OF s2(2), of fuel k] by auto
  obtain s4 where "bt_get xxh (Suc fuel') k s3 = (Ok (Some b), s4)"
    using leaf_tree_get [OF s3(2), of fuel' k] by auto
  then show ?thesis using s1(1) s2(1) s3(1) by (intro exI conjI) simp_all
qed

theorem btree_delete_ineffective_witness:
  "\<exists>s s' s''. bt_insert_all (\<lambda>_. 0) 1 [([7], [1]), ([7], [2, 2])] (bt_new 4, pc_new 8) = (Ok (), s) \<and>
     bt_delete 1 [7] s = (Ok False, s') \<and> bt_get (\<lambda>_. 0) 1 [7] s' = (Ok (Some [2, 2]), s'')"
  using btree_delete_ineffective [of "[1]" "[2, 2]" 4 "[7]" "\<lambda>_. 0" 0 "pc_new 8" 0]
  by (simp add: bt_new_def)

end
