(* ===== verification/Key_Router.thy ===== *)
theory Key_Router
  imports Core_Types
begin

text \<open>
  \<open>nova-storage/src/router.rs\<close>: which engine a key goes to. The loop keeps the first
  matching rule of the highest priority.
\<close>

datatype engine_type = EngineBTree | EngineLSM

record routing_rule =
  rr_prefix :: bytes
  rr_target :: engine_type
  rr_min_size :: u16
  rr_max_size :: u16
  rr_priority :: u8

type_synonym key_router = "routing_rule list"

definition router_add_rule :: "routing_rule \<Rightarrow> key_router \<Rightarrow> key_router" where
  "router_add_rule rule rules = rules @ [rule]"

definition starts_with :: "'a list \<Rightarrow> 'a list \<Rightarrow> bool" where
  "starts_with xs p \<longleftrightarrow> take (length p) xs = p"

definition rule_matches :: "key \<Rightarrow> routing_rule \<Rightarrow> bool" where
  "rule_matches k r \<longleftrightarrow> \<not> length k < unat (rr_min_size r) \<and>
     \<not> (rr_max_size r > 0 \<and> length k > unat (rr_max_size r)) \<and> starts_with k (rr_prefix r)"

definition router_step :: "key \<Rightarrow> routing_rule option \<Rightarrow> routing_rule \<Rightarrow> routing_rule option" where
  "router_step k best r =
     (if length k < unat (rr_min_size r) then best
      else if rr_max_size r > 0 \<and> length k > unat (rr_max_size r) then best
      else if \<not> starts_with k (rr_prefix r) then best
      else case best of
             None \<Rightarrow> Some r
           | Some current \<Rightarrow> if rr_priority r > rr_priority current then Some r else best)"

definition router_route :: "key_router \<Rightarrow> key \<Rightarrow> engine_type" where
  "router_route rules k =
     (case foldl (router_step k) None rules of Some r \<Rightarrow> rr_target r | None \<Rightarrow> EngineBTree)"


definition prefix_rule :: "engine_type \<Rightarrow> string \<Rightarrow> routing_rule" where
  "prefix_rule target p = \<lparr>rr_prefix = string_bytes p, rr_target = target,
     rr_min_size = 0, rr_max_size = 0, rr_priority = 1\<rparr>"

definition router_with_defaults :: key_router where
  "router_with_defaults =
     (let btree_prefixes = [''meta:'', ''schema:'', ''auth:'', ''sql:'', ''index:'', ''blob:''];
          lsm_prefixes = [''queue:'', ''event:'', ''log:'', ''cache:'', ''search:'', ''ts:'', ''session:'']
      in foldl (\<lambda>rules p. router_add_rule (prefix_rule EngineLSM p) rules)
           (foldl (\<lambda>rules p. router_add_rule (prefix_rule EngineBTree p) rules) [] btree_prefixes)
           lsm_prefixes)"

lemma router_step_eq:
  "router_step k best r =
     (if rule_matches k r
      then (case best of None \<Rightarrow> Some r
            | Some c \<Rightarrow> if rr_priority r > rr_priority c then Some r else best)
      else best)"
  by (auto simp: router_step_def rule_matches_def)

text \<open>The accumulator is the first rule of maximal priority among the matching ones seen.\<close>

definition first_best :: "key \<Rightarrow> routing_rule list \<Rightarrow> routing_rule \<Rightarrow> bool" where
  "first_best k rules r \<longleftrightarrow> (\<exists>xs ys. rules = xs @ r # ys \<and> rule_matches k r \<and>
     (\<forall>x \<in> set xs. rule_matches k x \<longrightarrow> rr_priority x < rr_priority r) \<and>
     (\<forall>y \<in> set ys. rule_matches k y \<longrightarrow> rr_priority y \<le> rr_priority r))"

lemma router_fold_spec:
  "case foldl (router_step k) None rules of
     None \<Rightarrow> \<forall>r \<in> set rules. \<not> rule_matches k r
   | Some r \<Rightarrow> first_best k rules r"
proof (induction rules rule: rev_induct)
  case Nil
  then show ?case by simp
next
  case (snoc r rules)
  show ?case
  proof (cases "foldl (router_step k) None rules")
    case None
    with snoc have none: "\<forall>r \<in> set rules. \<not> rule_matches k r" by simp
    then have "rule_matches k r \<Longrightarrow> first_best k (rules @ [r]) r"
      unfolding first_best_def by (intro exI [of _ rules] exI [of _ "[]"]) simp
    with None none show ?thesis by (simp add: router_step_eq [of k None r])
  next
    case (Some c)
    then obtain xs ys where c: "rules = xs @ c # ys" "rule_matches k c"
      "\<forall>x \<in> set xs. rule_matches k x \<longrightarrow> rr_priority x < rr_priority c"
      "\<forall>y \<in> set ys. rule_matches k y \<longrightarrow> rr_priority y \<le> rr_priority c"
      using snoc by (auto simp: first_best_def)
    show ?thesis
    proof (cases "rule_matches k r \<and> rr_priority r > rr_priority c")
      case True
      then have "first_best k (rules @ [r]) r"
        unfolding first_best_def
        by (intro exI [of _ rules] exI [of _ "[]"])
          (use c in \<open>auto intro: less_trans le_less_trans\<close>)
      with True Some show ?thesis by (simp add: router_step_eq [of k "Some c" r])
    next
      case False
      then have "first_best k (rules @ [r]) c"
        unfolding first_best_def
        by (intro exI [of _ xs] exI [of _ "ys @ [r]"]) (use c in \<open>auto simp: not_less\<close>)
      with False Some show ?thesis by (auto simp: router_step_eq [of k "Some c" r])
    qed
  qed
qed

lemma route_cases:
  "(\<exists>r. first_best k rules r \<and> router_route rules k = rr_target r) \<or>
   (\<forall>r \<in> set rules. \<not> rule_matches k r) \<and> router_route rules k = EngineBTree"
  using router_fold_spec [where k = k and rules = rules] by (auto simp: router_route_def split: option.splits)

section \<open>Properties\<close>

text \<open>Routing follows the highest priority: the target is that of the first rule of maximal
  priority among the rules that match the key, and the B-tree when none matches.\<close>

theorem router_highest_priority:
  "(\<exists>xs r ys. rules = xs @ r # ys \<and> rule_matches k r \<and>
     (\<forall>x \<in> set xs. rule_matches k x \<longrightarrow> rr_priority x < rr_priority r) \<and>
     (\<forall>y \<in> set ys. rule_matches k y \<longrightarrow> rr_priority y \<le> rr_priority r) \<and>
     router_route rules k = rr_target r) \<or>
   (\<forall>r \<in> set rules. \<not> rule_matches k r) \<and> router_route rules k = EngineBTree"
  using route_cases [of k rules] unfolding first_best_def by blast

theorem router_highest_priority_witness:
  "router_route [prefix_rule EngineLSM ''a'', prefix_rule EngineBTree ''b''] (string_bytes ''ax'') = EngineLSM"
  using router_highest_priority [of "[prefix_rule EngineLSM ''a'']" "string_bytes ''ax''"]
  by (simp add: router_route_def router_step_def prefix_rule_def string_bytes_def starts_with_def)

end
