(* ===== verification/Blob_Store.thy ===== *)
theory Blob_Store
  imports Core_Types
begin

text \<open>
  \<open>nova-storage/src/blob.rs\<close>: the in-memory blob store of the storage engine. Clock
  readings, fresh ids and the checksum function are arguments.
\<close>

definition MIN_BLOB_SIZE :: u64 where "MIN_BLOB_SIZE = 1024 * 1024"

definition MAX_BLOB_SIZE :: u64 where "MAX_BLOB_SIZE = 5497558138880"

type_synonym blob_id = "128 word"

record blob_record =
  br_blob_id :: blob_id
  br_size :: u64
  br_num_pages :: u32
  br_first_page :: u32
  br_checksum :: u32
  br_created_at :: u64
  br_ttl :: "u64 option"

record blob_store =
  bs_min :: u64
  bs_max :: u64
  bs_region_start :: u64
  bs_region_end :: u64
  bs_index :: "(blob_id \<times> blob_record) list"
  bs_data :: "(blob_id \<times> bytes) list"

record blob_stats =
  bst_total_blobs :: nat
  bst_active_blobs :: nat
  bst_total_size :: u64
  bst_region_start :: u64
  bst_region_end :: u64

definition bs_new :: "u64 \<Rightarrow> blob_store" where
  "bs_new region_start = \<lparr>bs_min = MIN_BLOB_SIZE, bs_max = MAX_BLOB_SIZE,
     bs_region_start = region_start, bs_region_end = region_start + 1,
     bs_index = [], bs_data = []\<rparr>"

text \<open>Hash-map insertion and removal on association lists with distinct keys.\<close>

definition hm_insert :: "'k \<Rightarrow> 'v \<Rightarrow> ('k \<times> 'v) list \<Rightarrow> ('k \<times> 'v) list" where
  "hm_insert k v m = (k, v) # filter (\<lambda>(k', _). k' \<noteq> k) m"

definition hm_remove :: "'k \<Rightarrow> ('k \<times> 'v) list \<Rightarrow> ('k \<times> 'v) list" where
  "hm_remove k m = filter (\<lambda>(k', _). k' \<noteq> k) m"

lemma map_of_hm_remove [simp]: "map_of (hm_remove k m) = (map_of m)(k := None)"
  by (induction m) (auto simp: hm_remove_def fun_eq_iff)

lemma map_of_hm_insert [simp]: "map_of (hm_insert k v m) = (map_of m)(k \<mapsto> v)"
  using map_of_hm_remove [of k m] by (simp add: hm_insert_def hm_remove_def fun_eq_iff)

definition div_ceil_u64 :: "u64 \<Rightarrow> nat \<Rightarrow> u64" where
  "div_ceil_u64 x n = of_nat ((unat x + n - 1) div n)"

definition bs_put ::
  "(bytes \<Rightarrow> u32) \<Rightarrow> blob_id \<Rightarrow> u64 \<Rightarrow> bytes \<Rightarrow> u64 option \<Rightarrow> blob_store \<Rightarrow> blob_id result \<times> blob_store" where
  "bs_put crc uuid now data ttl bs =
     (let size = of_nat (length data) in
      if size < bs_min bs then (Err (InvalidArgument ''blob too small''), bs)
      else if size > bs_max bs then (Err (InvalidArgument ''blob too large''), bs)
      else
        let num_pages = (ucast (div_ceil_u64 size PAGE_SIZE) :: u32);
            first_page = (ucast (bs_region_end bs) :: u32);
            record = \<lparr>br_blob_id = uuid, br_size = size, br_num_pages = num_pages,
              br_first_page = first_page, br_checksum = crc data, br_created_at = now,
              br_ttl = ttl\<rparr>
        in (Ok uuid, bs\<lparr>bs_region_end := bs_region_end bs + ucast num_pages + 1,
              bs_index := hm_insert uuid record (bs_index bs),
              bs_data := hm_insert uuid data (bs_data bs)\<rparr>))"

definition bs_get ::
  "(bytes \<Rightarrow> u32) \<Rightarrow> u64 \<Rightarrow> blob_id \<Rightarrow> blob_store \<Rightarrow> bytes option result" where
  "bs_get crc now i bs =
     (case map_of (bs_index bs) i of
        None \<Rightarrow> Ok None
      | Some record \<Rightarrow>
          if (case br_ttl record of Some ttl \<Rightarrow> now > br_created_at record + ttl | None \<Rightarrow> False)
          then Ok None
          else (case map_of (bs_data bs) i of
                  None \<Rightarrow> Err (Internal ''blob data missing from store'')
                | Some data \<Rightarrow>
                    let checksum = crc data in
                    if checksum \<noteq> br_checksum record
                    then Err (ChecksumMismatch (br_checksum record) checksum)
                    else Ok (Some data)))"

definition bs_delete :: "blob_id \<Rightarrow> blob_store \<Rightarrow> blob_store" where
  "bs_delete i bs = bs\<lparr>bs_index := hm_remove i (bs_index bs), bs_data := hm_remove i (bs_data bs)\<rparr>"

definition bs_metadata :: "blob_id \<Rightarrow> blob_store \<Rightarrow> blob_record option" where
  "bs_metadata i bs = map_of (bs_index bs) i"

definition bs_stats :: "blob_store \<Rightarrow> blob_stats" where
  "bs_stats bs =
     \<lparr>bst_total_blobs = length (bs_index bs), bst_active_blobs = length (bs_index bs),
      bst_total_size = sum_list (map (br_size \<circ> snd) (bs_index bs)),
      bst_region_start = bs_region_start bs, bst_region_end = bs_region_end bs\<rparr>"

text \<open>Every indexed blob has its data, with the size and checksum its record claims.\<close>

definition bs_inv :: "(bytes \<Rightarrow> u32) \<Rightarrow> blob_store \<Rightarrow> bool" where
  "bs_inv crc bs \<longleftrightarrow> (\<forall>i r. map_of (bs_index bs) i = Some r \<longrightarrow>
     (\<exists>d. map_of (bs_data bs) i = Some d \<and> br_checksum r = crc d \<and>
        br_size r = of_nat (length d) \<and> br_blob_id r = i))"

lemma bs_inv_new [simp]: "bs_inv crc (bs_new n)"
  by (simp add: bs_inv_def bs_new_def)

lemma bs_inv_put: "bs_inv crc bs \<Longrightarrow> bs_inv crc (snd (bs_put crc i now d ttl bs))"
  by (auto simp: bs_inv_def bs_put_def Let_def)

lemma bs_inv_delete: "bs_inv crc bs \<Longrightarrow> bs_inv crc (bs_delete i bs)"
  by (auto simp: bs_inv_def bs_delete_def)

lemma bs_get_total:
  assumes "bs_inv crc bs"
  shows "\<exists>r. bs_get crc now i bs = Ok r"
proof (cases "map_of (bs_index bs) i")
  case None
  then show ?thesis by (simp add: bs_get_def)
next
  case (Some r)
  then obtain d where "map_of (bs_data bs) i = Some d" "br_checksum r = crc d"
    using assms by (auto simp: bs_inv_def)
  with Some show ?thesis by (simp add: bs_get_def)
qed

lemma bs_put_Ok:
  assumes "bs_put crc i now d ttl bs = (Ok j, bs')"
  shows "\<exists>r. map_of (bs_index bs') = (map_of (bs_index bs))(i \<mapsto> r) \<and>
    map_of (bs_data bs') = (map_of (bs_data bs))(i \<mapsto> d) \<and>
    br_checksum r = crc d \<and> br_created_at r = now \<and> br_ttl r = ttl \<and> j = i"
  using assms by (auto simp: bs_put_def Let_def split: if_splits)

lemma bs_put_Err:
  assumes "bs_put crc i now d ttl bs = (res, bs')" and "\<forall>j. res \<noteq> Ok j"
  shows "bs' = bs"
  using assms by (auto simp: bs_put_def Let_def split: if_splits)

lemma bs_get_put:
  assumes "bs_put crc i now d ttl bs = (Ok j, bs')"
    and "case ttl of Some t \<Rightarrow> now' \<le> now + t | None \<Rightarrow> True"
  shows "bs_get crc now' i bs' = Ok (Some d)"
proof -
  obtain r where "map_of (bs_index bs') i = Some r" "map_of (bs_data bs') i = Some d"
    "br_checksum r = crc d" "br_created_at r = now" "br_ttl r = ttl"
    using bs_put_Ok [OF assms(1)] by auto
  then show ?thesis using assms(2) by (auto simp: bs_get_def Let_def split: option.splits)
qed

lemma bs_get_put_other:
  assumes "i \<noteq> j"
  shows "bs_get crc now' j (snd (bs_put crc i now d ttl bs)) = bs_get crc now' j bs"
proof -
  obtain res bs' where p: "bs_put crc i now d ttl bs = (res, bs')" by (cases "bs_put crc i now d ttl bs")
  show ?thesis
  proof (cases "\<exists>l. res = Ok l")
    case True
    then obtain l where "bs_put crc i now d ttl bs = (Ok l, bs')" using p by blast
    from bs_put_Ok [OF this] have eqs: "map_of (bs_index bs') j = map_of (bs_index bs) j"
      "map_of (bs_data bs') j = map_of (bs_data bs) j"
      using assms by auto
    show ?thesis unfolding bs_get_def p snd_conv eqs ..
  next
    case False
    then show ?thesis using bs_put_Err [OF p] p by simp
  qed
qed

lemma bs_get_deleted [simp]: "bs_get crc now i (bs_delete i bs) = Ok None"
  by (simp add: bs_get_def bs_delete_def)

section \<open>Properties\<close>

text \<open>A stored blob is read back: after a successful put, a get before expiry returns the
  exact bytes, a get after expiry returns nothing, other ids are unaffected, and a deleted
  blob is gone.\<close>

theorem blob_put_get:
  assumes "bs_put crc i now d ttl bs = (Ok j, bs')"
  shows "j = i \<and>
    bs_get crc now' i bs' = Ok (case ttl of Some t \<Rightarrow> if now' > now + t then None else Some d | None \<Rightarrow> Some d) \<and>
    bs_get crc now' i (bs_delete i bs') = Ok None \<and>
    (\<forall>l. l \<noteq> i \<longrightarrow> bs_get crc now' l bs' = bs_get crc now' l bs)"
proof -
  obtain r where r: "map_of (bs_index bs') = (map_of (bs_index bs))(i \<mapsto> r)"
    "map_of (bs_data bs') = (map_of (bs_data bs))(i \<mapsto> d)"
    "br_checksum r = crc d" "br_created_at r = now" "br_ttl r = ttl" "j = i"
    using bs_put_Ok [OF assms] by blast
  have "bs_get crc now' i bs' = Ok (case ttl of Some t \<Rightarrow> if now' > now + t then None else Some d | None \<Rightarrow> Some d)"
    using r by (simp add: bs_get_def Let_def split: option.split)
  moreover have "bs_get crc now' l bs' = bs_get crc now' l bs" if "l \<noteq> i" for l
    using bs_get_put_other [of i l crc now' now d ttl bs] that assms by simp
  ultimately show ?thesis using r(6) by simp
qed

theorem blob_put_get_witness:
  "\<exists>bs'. bs_put (\<lambda>_. 5) 9 100 (replicate 1048576 7) (Some 10) (bs_new 0) = (Ok 9, bs') \<and>
     bs_get (\<lambda>_. 5) 105 9 bs' = Ok (Some (replicate 1048576 7)) \<and> bs_get (\<lambda>_. 5) 111 9 bs' = Ok None"
proof -
  obtain bs' where p: "bs_put (\<lambda>_. 5) 9 100 (replicate 1048576 7) (Some 10) (bs_new 0) = (Ok 9, bs')"
    by (simp add: bs_put_def bs_new_def MIN_BLOB_SIZE_def MAX_BLOB_SIZE_def Let_def)
  from blob_put_get [OF p, of 105] blob_put_get [OF p, of 111] p show ?thesis
    by auto
qed

text \<open>A get on a consistent store never fails, and put and delete keep it consistent.\<close>

theorem blob_store_consistent:
  assumes "bs_inv crc bs"
  shows "(\<exists>r. bs_get crc now i bs = Ok r) \<and> bs_inv crc (snd (bs_put crc i now d ttl bs)) \<and>
    bs_inv crc (bs_delete i bs)"
  using bs_get_total [OF assms] bs_inv_put [OF assms] bs_inv_delete [OF assms] by blast

theorem blob_store_consistent_witness:
  "\<exists>r. bs_get (\<lambda>_. 5) 3 8 (bs_new 1) = Ok r"
  using blob_store_consistent [OF bs_inv_new, where crc = "\<lambda>_. 5" and now = 3 and i = 8] by blast

end
