(* ===== verification/Event_Types.thy ===== *)
theory Event_Types
  imports Nova_Prelude "HOL-Library.Char_ord"
begin

unbundle bit_operations_syntax

text \<open>
  The data of \<open>nova-event\<close> (\<open>event.rs\<close>, \<open>subscription.rs\<close>): event ids, event types,
  events and their builder, topic patterns and their matching, content filters and
  subscriptions. A string is its list of bytes. The clock and the process-wide counter
  \<open>EVENT_COUNTER\<close> are arguments. JSON values and regular expressions come from other crates:
  the record \<open>json_lib\<close> holds the operations the filters use of them.
\<close>

section \<open>Errors\<close>

datatype event_error =
    PayloadTooLarge u64 u64
  | InvalidEventType string
  | InvalidPattern string
  | ValidationError string string
  | BusFull string
  | SubscriberNotFound
  | EvShuttingDown
  | EvInternal string

type_synonym 'a event_result = "(event_error, 'a) outcome"

section \<open>Event ids\<close>

type_synonym event_id = bytes

text \<open>Big-endian bytes are the reversed little-endian ones.\<close>

definition be_word :: "u64 \<Rightarrow> bytes" where "be_word w = rev (le_word w)"

definition word_be :: "bytes \<Rightarrow> u64" where "word_be bs = word_le (rev bs)"

definition event_id_new :: "u64 \<Rightarrow> u64 \<Rightarrow> event_id \<times> u64" where
  "event_id_new now counter =
     (let ts = take 6 (drop 2 (be_word now));
          b6 = (0 AND 0x0f) OR 0x70;
          b7 = ucast (drop_bit 8 counter AND 0xff);
          b8 = (0 AND 0x3f) OR 0x80
      in (ts @ [b6, b7, b8] @ take 7 (le_word counter), counter + 1))"

definition event_id_timestamp :: "event_id \<Rightarrow> u64" where
  "event_id_timestamp i = word_be ([0, 0] @ take 6 i)"

section \<open>Event types\<close>

text \<open>\<open>str::split\<close> on one character: always at least one piece.\<close>

fun split_on :: "char \<Rightarrow> string \<Rightarrow> string list" where
  "split_on c [] = [[]]"
| "split_on c (x # xs) =
     (if x = c then [] # split_on c xs
      else case split_on c xs of p # ps \<Rightarrow> (x # p) # ps | [] \<Rightarrow> [[x]])"

record event_type =
  et_segments :: "string list"
  et_canonical :: string

definition event_type_new :: "string \<Rightarrow> event_type event_result" where
  "event_type_new canonical =
     (if canonical = [] then Err (InvalidEventType ''empty event type'')
      else let segments = split_on (CHR ''.'') canonical in
        if list_ex (\<lambda>s. s = []) segments
        then Err (InvalidEventType (''empty segment in event type: '' @ canonical))
        else if list_ex (\<lambda>s. s = ''+'' \<or> s = ''*'') segments
        then Err (InvalidEventType (''wildcard in event type: '' @ canonical))
        else Ok \<lparr>et_segments = segments, et_canonical = canonical\<rparr>)"

definition event_type_segment :: "event_type \<Rightarrow> nat \<Rightarrow> string option" where
  "event_type_segment et n = (if n < length (et_segments et) then Some (et_segments et ! n) else None)"

definition event_type_depth :: "event_type \<Rightarrow> nat" where
  "event_type_depth et = length (et_segments et)"

section \<open>Events\<close>

datatype subsystem =
    SubStorage | SubExecution | SubAuth | SubQueue | SubScheduler | SubSearch | SubBlob | SubApi | SubSystem

record event_source =
  src_subsystem :: subsystem
  src_component :: string
  src_node_id :: string
  src_instance_id :: string

datatype event_priority = EvLow | EvNormal | EvHigh | EvCritical

record trace_context =
  tc_trace_id :: bytes
  tc_span_id :: bytes
  tc_parent_span_id :: "bytes option"
  tc_sampled :: bool
  tc_baggage :: "(string \<times> string) list"

record event_metadata =
  em_event_id :: event_id
  em_event_type :: event_type
  em_source :: event_source
  em_timestamp :: u64
  em_ordering_key :: "string option"
  em_content_type :: string
  em_payload_size :: u32
  em_ttl_ms :: u64
  em_priority :: event_priority
  em_persistent :: bool
  em_schema_version :: u32
  em_trace_context :: "trace_context option"

record event =
  ev_metadata :: event_metadata
  ev_payload :: bytes

record event_builder =
  eb_event_type :: event_type
  eb_source :: "event_source option"
  eb_ordering_key :: "string option"
  eb_ttl_ms :: u64
  eb_priority :: event_priority
  eb_persistent :: bool
  eb_content_type :: string
  eb_schema_version :: u32

definition builder_new :: "string \<Rightarrow> event_builder event_result" where
  "builder_new canonical = obind (event_type_new canonical) (\<lambda>et. Ok
     \<lparr>eb_event_type = et, eb_source = None, eb_ordering_key = None, eb_ttl_ms = 0,
      eb_priority = EvNormal, eb_persistent = False, eb_content_type = ''application/x-msgpack'',
      eb_schema_version = 1\<rparr>)"

definition builder_source :: "subsystem \<Rightarrow> string \<Rightarrow> string \<Rightarrow> string \<Rightarrow> event_builder \<Rightarrow> event_builder" where
  "builder_source sub component node inst b = b\<lparr>eb_source := Some
     \<lparr>src_subsystem = sub, src_component = component, src_node_id = node, src_instance_id = inst\<rparr>\<rparr>"

definition builder_ordering_key :: "string \<Rightarrow> event_builder \<Rightarrow> event_builder" where
  "builder_ordering_key k b = b\<lparr>eb_ordering_key := Some k\<rparr>"

definition builder_ttl :: "u64 \<Rightarrow> event_builder \<Rightarrow> event_builder" where
  "builder_ttl t b = b\<lparr>eb_ttl_ms := t\<rparr>"

definition builder_priority :: "event_priority \<Rightarrow> event_builder \<Rightarrow> event_builder" where
  "builder_priority p b = b\<lparr>eb_priority := p\<rparr>"

definition builder_persistent :: "bool \<Rightarrow> event_builder \<Rightarrow> event_builder" where
  "builder_persistent p b = b\<lparr>eb_persistent := p\<rparr>"

definition builder_build :: "u64 \<Rightarrow> u64 \<Rightarrow> event_builder \<Rightarrow> bytes \<Rightarrow> event \<times> u64" where
  "builder_build now counter b payload =
     (let source = (case eb_source b of Some s \<Rightarrow> s | None \<Rightarrow>
            \<lparr>src_subsystem = SubSystem, src_component = ''unknown'', src_node_id = ''local'',
             src_instance_id = ''default''\<rparr>);
          (event_id, counter') = event_id_new now counter
      in (\<lparr>ev_metadata = \<lparr>em_event_id = event_id, em_event_type = eb_event_type b, em_source = source,
            em_timestamp = event_id_timestamp event_id, em_ordering_key = eb_ordering_key b,
            em_content_type = eb_content_type b, em_payload_size = of_nat (length payload),
            em_ttl_ms = eb_ttl_ms b, em_priority = eb_priority b, em_persistent = eb_persistent b,
            em_schema_version = eb_schema_version b, em_trace_context = None\<rparr>,
          ev_payload = payload\<rparr>, counter'))"

section \<open>Topic patterns\<close>

datatype pattern_segment = PLiteral string | SingleWildcard | MultiWildcard

record topic_pattern =
  tp_segments :: "pattern_segment list"
  tp_canonical :: string

fun parse_segments :: "string \<Rightarrow> bool \<Rightarrow> string list \<Rightarrow> pattern_segment list event_result" where
  "parse_segments pattern has_multi [] = Ok []"
| "parse_segments pattern has_multi (s # ss) =
     (if has_multi then Err (InvalidPattern (CHR 0x27 # ''*'' @ [CHR 0x27] @ '' must be last segment: '' @ pattern))
      else if s = ''+'' then obind (parse_segments pattern has_multi ss) (\<lambda>ps. Ok (SingleWildcard # ps))
      else if s = ''*'' then obind (parse_segments pattern True ss) (\<lambda>ps. Ok (MultiWildcard # ps))
      else obind (parse_segments pattern has_multi ss) (\<lambda>ps. Ok (PLiteral s # ps)))"

definition topic_pattern_new :: "string \<Rightarrow> topic_pattern event_result" where
  "topic_pattern_new pattern =
     (if pattern = [] then Err (InvalidPattern ''empty pattern'')
      else let raw = split_on (CHR ''.'') pattern in
        if list_ex (\<lambda>s. s = []) raw
        then Err (InvalidPattern (''empty segment in pattern: '' @ pattern))
        else obind (parse_segments pattern False raw) (\<lambda>segs.
          Ok \<lparr>tp_segments = segs, tp_canonical = pattern\<rparr>))"

fun segments_match :: "pattern_segment list \<Rightarrow> string list \<Rightarrow> bool" where
  "segments_match (MultiWildcard # ps) es \<longleftrightarrow> True"
| "segments_match (SingleWildcard # ps) (e # es) \<longleftrightarrow> segments_match ps es"
| "segments_match (PLiteral p # ps) (e # es) \<longleftrightarrow> p = e \<and> segments_match ps es"
| "segments_match [] [] \<longleftrightarrow> True"
| "segments_match _ _ \<longleftrightarrow> False"

definition pattern_matches :: "topic_pattern \<Rightarrow> event_type \<Rightarrow> bool" where
  "pattern_matches p et = segments_match (tp_segments p) (et_segments et)"

section \<open>Content filters\<close>

record 'j json_lib =
  js_parse :: "bytes \<Rightarrow> 'j option"
  js_get :: "'j \<Rightarrow> string \<Rightarrow> 'j option"
  js_string :: "'j \<Rightarrow> string option"
  js_number_ge :: "'j \<Rightarrow> 'j \<Rightarrow> bool option"
  js_regex :: "string \<Rightarrow> (string \<Rightarrow> bool) option"

datatype 'j filter_expr =
    FieldEquals "string list" 'j
  | FieldExists "string list"
  | FieldMatches "string list" string
  | FieldIn "string list" "'j list"
  | FieldRange "string list" 'j 'j
  | FNot "'j filter_expr"
  | FAnd "'j filter_expr list"
  | FOr "'j filter_expr list"

fun get_field :: "'j json_lib \<Rightarrow> 'j \<Rightarrow> string list \<Rightarrow> 'j option" where
  "get_field lib current [] = Some current"
| "get_field lib current (segment # field) =
     (case js_get lib current segment of Some v \<Rightarrow> get_field lib v field | None \<Rightarrow> None)"

definition json_le :: "'j json_lib \<Rightarrow> 'j \<Rightarrow> 'j \<Rightarrow> bool" where
  "json_le lib lo hi \<longleftrightarrow> lo = hi \<or>
     (case js_number_ge lib hi lo of Some b \<Rightarrow> b
      | None \<Rightarrow> (case (js_string lib lo, js_string lib hi) of (Some a, Some b) \<Rightarrow> a \<le> b | _ \<Rightarrow> False))"

fun filter_evaluate :: "'j json_lib \<Rightarrow> 'j filter_expr \<Rightarrow> 'j \<Rightarrow> bool" where
  "filter_evaluate lib (FieldEquals fld v) payload \<longleftrightarrow> get_field lib payload fld = Some v"
| "filter_evaluate lib (FieldExists fld) payload \<longleftrightarrow> get_field lib payload fld \<noteq> None"
| "filter_evaluate lib (FieldMatches fld regex) payload \<longleftrightarrow>
     (case get_field lib payload fld of
        Some v \<Rightarrow> (case js_string lib v of
          Some s \<Rightarrow> (case js_regex lib regex of Some is_match \<Rightarrow> is_match s | None \<Rightarrow> False)
        | None \<Rightarrow> False)
      | None \<Rightarrow> False)"
| "filter_evaluate lib (FieldIn fld values) payload \<longleftrightarrow>
     (case get_field lib payload fld of Some actual \<Rightarrow> actual \<in> set values | None \<Rightarrow> False)"
| "filter_evaluate lib (FieldRange fld lo hi) payload \<longleftrightarrow>
     (case get_field lib payload fld of
        Some actual \<Rightarrow> json_le lib lo actual \<and> json_le lib actual hi | None \<Rightarrow> False)"
| "filter_evaluate lib (FNot inner) payload \<longleftrightarrow> \<not> filter_evaluate lib inner payload"
| "filter_evaluate lib (FAnd children) payload \<longleftrightarrow> list_all (\<lambda>c. filter_evaluate lib c payload) children"
| "filter_evaluate lib (FOr children) payload \<longleftrightarrow> list_ex (\<lambda>c. filter_evaluate lib c payload) children"

definition content_filter_evaluate :: "'j json_lib \<Rightarrow> 'j filter_expr \<Rightarrow> event \<Rightarrow> bool" where
  "content_filter_evaluate lib expression e =
     (case js_parse lib (ev_payload e) of Some j \<Rightarrow> filter_evaluate lib expression j | None \<Rightarrow> False)"

section \<open>Subscriptions\<close>

datatype delivery_guarantee = AtMostOnce | AtLeastOnce | ExactlyOnce

record subscriber_id =
  sid_id :: string
  sid_subsystem :: subsystem
  sid_name :: string

text \<open>A UUID is a 128-bit word; a channel sender is the identity of its channel.\<close>

type_synonym uuid = "128 word"
type_synonym chan = nat

record 'j subscription =
  sb_id :: uuid
  sb_subscriber :: subscriber_id
  sb_topic :: topic_pattern
  sb_content_filter :: "'j filter_expr option"
  sb_delivery_guarantee :: delivery_guarantee
  sb_max_retries :: u32
  sb_retry_backoff_ms :: u64
  sb_max_backoff_ms :: u64
  sb_queue_capacity :: nat
  sb_created_at :: u64
  sb_active :: bool
  sb_consumer_group :: "string option"
  sb_sender :: chan

section \<open>Lemmas\<close>

lemma split_on_nonempty [simp]: "split_on c xs \<noteq> []"
  by (induction xs) (auto split: list.split)

lemma le_bytes_split: "le_bytes (m + n) x = le_bytes m x @ le_bytes n (x div 256 ^ m)"
  by (induction m arbitrary: x) (simp_all add: div_mult2_eq)

lemma event_id_new_parts:
  "fst (event_id_new now counter) =
     rev (le_bytes 6 (unat now)) @ [0x70, ucast (drop_bit 8 counter AND 0xff), 0x80] @ le_bytes 7 (unat counter)"
proof -
  have six: "le_word w = le_bytes 6 (unat w) @ le_bytes 2 (unat w div 256 ^ 6)" for w :: u64
    using le_bytes_split [of 6 2 "unat w"] by (simp add: le_word_def)
  have seven: "le_word w = le_bytes 7 (unat w) @ le_bytes 1 (unat w div 256 ^ 7)" for w :: u64
    using le_bytes_split [of 7 1 "unat w"] by (simp add: le_word_def)
  have "take 6 (drop 2 (be_word now)) = rev (le_bytes 6 (unat now))"
    by (simp add: be_word_def six)
  moreover have "take 7 (le_word counter) = le_bytes 7 (unat counter)"
    by (simp add: seven)
  ultimately show ?thesis by (simp add: event_id_new_def Let_def)
qed

lemma event_id_new_length: "length (fst (event_id_new now counter)) = 16"
  by (simp add: event_id_new_parts)

lemma event_id_new_timestamp:
  "event_id_timestamp (fst (event_id_new now counter)) = of_nat (unat now mod 2 ^ 48)"
proof -
  have "le_nat (xs @ [0, 0]) = le_nat xs" for xs :: bytes
    by (induction xs) simp_all
  moreover have "take 6 (fst (event_id_new now counter)) = rev (le_bytes 6 (unat now))"
    by (simp add: event_id_new_parts)
  ultimately show ?thesis
    by (simp add: event_id_timestamp_def word_be_def word_le_def le_nat_le_bytes)
qed

text \<open>Two ids made from different counters differ, as long as the counter has not used up its
  seven bytes.\<close>

lemma event_id_new_inj:
  assumes "fst (event_id_new now c) = fst (event_id_new now' c')"
    and "unat c < 2 ^ 56" and "unat c' < 2 ^ 56"
  shows "c = c'"
proof -
  have "le_bytes 7 (unat c) = le_bytes 7 (unat c')"
    using arg_cong [OF assms(1), of "drop 9"] by (simp add: event_id_new_parts)
  from arg_cong [OF this, of le_nat] have "unat c = unat c'"
    using assms(2,3) by (simp add: le_nat_le_bytes)
  then show ?thesis by (simp add: word_unat_eq_iff)
qed

end
