(* ===== verification/Event_Trie.thy ===== *)
theory Event_Trie
  imports Event_Types "HOL-Library.AList" "HOL-Library.Multiset"
begin

text \<open>
  \<open>nova-event/src/trie.rs\<close>: the subscription trie of the event bus. The children of a node
  are an association list, whose order stands for the iteration order of the \<open>HashMap\<close>.
  The contract of a topic index is a locale: what it stores is a multiset of (pattern,
  subscription) pairs, and a lookup returns the subscriptions whose pattern matches.
\<close>

section \<open>Nodes and operations\<close>

datatype 's trie_node = TrieNode
  (literal_children: "(string \<times> 's trie_node) list")
  (single_wildcard: "'s trie_node option")
  (multi_wildcard: "'s trie_node option")
  (subscriptions: "'s list")

definition trie_empty :: "'s trie_node" where "trie_empty = TrieNode [] None None []"

definition get_or_new :: "'s trie_node option \<Rightarrow> 's trie_node" where
  "get_or_new c = (case c of Some n \<Rightarrow> n | None \<Rightarrow> trie_empty)"

fun trie_insert :: "pattern_segment list \<Rightarrow> 's \<Rightarrow> 's trie_node \<Rightarrow> 's trie_node" where
  "trie_insert [] s (TrieNode lits sw mw subs) = TrieNode lits sw mw (subs @ [s])"
| "trie_insert (PLiteral l # ps) s (TrieNode lits sw mw subs) =
     TrieNode (AList.update l (trie_insert ps s (get_or_new (map_of lits l))) lits) sw mw subs"
| "trie_insert (SingleWildcard # ps) s (TrieNode lits sw mw subs) =
     TrieNode lits (Some (trie_insert ps s (get_or_new sw))) mw subs"
| "trie_insert (MultiWildcard # ps) s (TrieNode lits sw mw subs) =
     TrieNode lits sw (Some (trie_insert ps s (get_or_new mw))) subs"

definition node_subs :: "'s trie_node option \<Rightarrow> 's list" where
  "node_subs c = (case c of Some n \<Rightarrow> subscriptions n | None \<Rightarrow> [])"

fun trie_lookup :: "string list \<Rightarrow> 's trie_node \<Rightarrow> 's list" where
  "trie_lookup [] (TrieNode lits sw mw subs) = subs @ node_subs mw"
| "trie_lookup (s # rest) (TrieNode lits sw mw subs) =
     node_subs mw @
     (case map_of lits s of Some child \<Rightarrow> trie_lookup rest child | None \<Rightarrow> []) @
     (case sw of Some child \<Rightarrow> trie_lookup rest child | None \<Rightarrow> [])"

text \<open>
  \<open>remove_recursive\<close> and \<open>set_active_recursive\<close> walk the trie in the same order and stop at the
  first node whose list of subscriptions they can change; \<open>f\<close> is that change.
\<close>

fun trie_walk :: "('s list \<Rightarrow> 's list option) \<Rightarrow> 's trie_node \<Rightarrow> bool \<times> 's trie_node"
  and trie_walk_children :: "('s list \<Rightarrow> 's list option) \<Rightarrow> (string \<times> 's trie_node) list \<Rightarrow>
        bool \<times> (string \<times> 's trie_node) list"
  and trie_walk_option :: "('s list \<Rightarrow> 's list option) \<Rightarrow> 's trie_node option \<Rightarrow> bool \<times> 's trie_node option"
where
  "trie_walk f (TrieNode lits sw mw subs) =
     (case f subs of
        Some subs' \<Rightarrow> (True, TrieNode lits sw mw subs')
      | None \<Rightarrow> (case trie_walk_children f lits of
          (True, lits') \<Rightarrow> (True, TrieNode lits' sw mw subs)
        | (False, _) \<Rightarrow> (case trie_walk_option f sw of
            (True, sw') \<Rightarrow> (True, TrieNode lits sw' mw subs)
          | (False, _) \<Rightarrow> (case trie_walk_option f mw of
              (True, mw') \<Rightarrow> (True, TrieNode lits sw mw' subs)
            | (False, _) \<Rightarrow> (False, TrieNode lits sw mw subs)))))"
| "trie_walk_children f [] = (False, [])"
| "trie_walk_children f ((l, c) # lits) =
     (case trie_walk f c of
        (True, c') \<Rightarrow> (True, (l, c') # lits)
      | (False, _) \<Rightarrow> (case trie_walk_children f lits of (b, lits') \<Rightarrow> (b, (l, c) # lits')))"
| "trie_walk_option f None = (False, None)"
| "trie_walk_option f (Some c) = (case trie_walk f c of (b, c') \<Rightarrow> (b, Some c'))"

fun trie_collect :: "'s trie_node \<Rightarrow> 's list"
  and trie_collect_children :: "(string \<times> 's trie_node) list \<Rightarrow> 's list"
  and trie_collect_option :: "'s trie_node option \<Rightarrow> 's list"
where
  "trie_collect (TrieNode lits sw mw subs) =
     subs @ trie_collect_children lits @ trie_collect_option sw @ trie_collect_option mw"
| "trie_collect_children [] = []"
| "trie_collect_children ((l, c) # lits) = trie_collect c @ trie_collect_children lits"
| "trie_collect_option None = []"
| "trie_collect_option (Some c) = trie_collect c"

section \<open>Contents and well-formedness\<close>

fun trie_entries :: "'s trie_node \<Rightarrow> (pattern_segment list \<times> 's) list"
  and trie_entries_children :: "(string \<times> 's trie_node) list \<Rightarrow> (pattern_segment list \<times> 's) list"
  and trie_entries_option :: "pattern_segment \<Rightarrow> 's trie_node option \<Rightarrow> (pattern_segment list \<times> 's) list"
where
  "trie_entries (TrieNode lits sw mw subs) =
     map (Pair []) subs @ trie_entries_children lits @
     trie_entries_option SingleWildcard sw @ trie_entries_option MultiWildcard mw"
| "trie_entries_children [] = []"
| "trie_entries_children ((l, c) # lits) =
     map (\<lambda>(ps, s). (PLiteral l # ps, s)) (trie_entries c) @ trie_entries_children lits"
| "trie_entries_option p None = []"
| "trie_entries_option p (Some c) = map (\<lambda>(ps, s). (p # ps, s)) (trie_entries c)"

fun trie_wf :: "'s trie_node \<Rightarrow> bool"
  and trie_wf_children :: "(string \<times> 's trie_node) list \<Rightarrow> bool"
  and trie_wf_option :: "'s trie_node option \<Rightarrow> bool"
where
  "trie_wf (TrieNode lits sw mw subs) \<longleftrightarrow>
     distinct (map fst lits) \<and> trie_wf_children lits \<and> trie_wf_option sw \<and>
     (case mw of None \<Rightarrow> True | Some (TrieNode lits' sw' mw' _) \<Rightarrow> lits' = [] \<and> sw' = None \<and> mw' = None)"
| "trie_wf_children [] \<longleftrightarrow> True"
| "trie_wf_children ((l, c) # lits) \<longleftrightarrow> trie_wf c \<and> trie_wf_children lits"
| "trie_wf_option None \<longleftrightarrow> True"
| "trie_wf_option (Some c) \<longleftrightarrow> trie_wf c"

text \<open>A multi-wildcard is the last segment, as \<open>TopicPattern::new\<close> guarantees.\<close>

fun pattern_wf :: "pattern_segment list \<Rightarrow> bool" where
  "pattern_wf [] \<longleftrightarrow> True"
| "pattern_wf (MultiWildcard # ps) \<longleftrightarrow> ps = []"
| "pattern_wf (_ # ps) \<longleftrightarrow> pattern_wf ps"

section \<open>Patterns that the parser accepts\<close>

lemma parse_segments_wf:
  "parse_segments pattern has_multi raw = Ok ps \<Longrightarrow> pattern_wf ps \<and> (has_multi \<longrightarrow> ps = [])"
  by (induction pattern has_multi raw arbitrary: ps rule: parse_segments.induct)
    (fastforce simp: outcome_simps split: if_splits)+

lemma topic_pattern_new_wf: "topic_pattern_new s = Ok p \<Longrightarrow> pattern_wf (tp_segments p)"
  by (auto simp: topic_pattern_new_def Let_def outcome_simps split: if_splits dest: parse_segments_wf)

section \<open>Insertion\<close>

lemma trie_wf_empty [simp]: "trie_wf trie_empty" "trie_entries trie_empty = []"
  by (simp_all add: trie_empty_def)

lemma trie_wf_children_alt: "trie_wf_children lits \<longleftrightarrow> (\<forall>(l, c) \<in> set lits. trie_wf c)"
  by (induction lits) auto

lemma trie_wf_children_update:
  "trie_wf_children lits \<Longrightarrow> trie_wf c \<Longrightarrow> trie_wf_children (AList.update l c lits)"
  by (induction lits) auto

lemma trie_wf_map_of: "trie_wf_children lits \<Longrightarrow> map_of lits l = Some c \<Longrightarrow> trie_wf c"
  by (induction lits) (auto split: if_splits)

lemma trie_entries_update:
  "distinct (map fst lits) \<Longrightarrow>
   mset (trie_entries_children (AList.update l c lits)) +
     (case map_of lits l of Some c' \<Rightarrow> mset (map (\<lambda>(ps, s). (PLiteral l # ps, s)) (trie_entries c')) | None \<Rightarrow> {#}) =
   mset (trie_entries_children lits) + mset (map (\<lambda>(ps, s). (PLiteral l # ps, s)) (trie_entries c))"
proof (induction lits)
  case (Cons lc lits)
  obtain l' c' where lc: "lc = (l', c')" by (cases lc)
  show ?case
  proof (cases "l' = l")
    case True
    then have "map_of lits l = None" using Cons.prems lc by (auto simp: map_of_eq_None_iff)
    then show ?thesis using True lc by simp
  next
    case False
    then show ?thesis using Cons lc by (simp add: add.assoc)
  qed
qed simp

lemma get_or_new_wf: "trie_wf_option c \<Longrightarrow> trie_wf (get_or_new c)"
  by (cases c) (simp_all add: get_or_new_def)

lemma trie_insert_leaf: "trie_insert [] s t = TrieNode (literal_children t) (single_wildcard t)
    (multi_wildcard t) (subscriptions t @ [s])"
  by (cases t) simp

lemma trie_insert_wf:
  "trie_wf t \<Longrightarrow> pattern_wf ps \<Longrightarrow> trie_wf (trie_insert ps s t)"
proof (induction ps s t rule: trie_insert.induct)
  case (2 l ps s lits sw mw subs)
  moreover have "trie_wf_option (map_of lits l)"
    using 2 by (cases "map_of lits l") (auto dest: trie_wf_map_of)
  ultimately show ?case
    by (auto intro!: trie_wf_children_update distinct_update get_or_new_wf)
next
  case (4 ps s lits sw mw subs)
  then show ?case
    by (auto simp: trie_insert_leaf get_or_new_def trie_empty_def split: option.splits trie_node.splits)
qed (auto intro: get_or_new_wf)

lemma trie_insert_entries:
  "trie_wf t \<Longrightarrow> pattern_wf ps \<Longrightarrow>
   mset (trie_entries (trie_insert ps s t)) = add_mset (ps, s) (mset (trie_entries t))"
proof (induction ps s t rule: trie_insert.induct)
  case (2 l ps s lits sw mw subs)
  let ?c = "get_or_new (map_of lits l)"
  have "trie_wf_option (map_of lits l)"
    using 2 by (cases "map_of lits l") (auto dest: trie_wf_map_of)
  then have "mset (trie_entries (trie_insert ps s ?c)) = add_mset (ps, s) (mset (trie_entries ?c))"
    using 2 by (auto intro: get_or_new_wf)
  moreover have "distinct (map fst lits)" using 2 by simp
  from trie_entries_update [OF this, of l "trie_insert ps s ?c"]
  show ?case
    using calculation by (cases "map_of lits l") (simp_all add: get_or_new_def)
next
  case (3 ps s lits sw mw subs)
  then show ?case
    by (cases sw) (simp_all add: get_or_new_def)
next
  case (4 ps s lits sw mw subs)
  then show ?case
    by (cases mw) (auto simp: get_or_new_def trie_insert_leaf multiset.map_comp split: trie_node.splits)
qed simp

section \<open>Lookup\<close>

definition matched :: "string list \<Rightarrow> (pattern_segment list \<times> 's) list \<Rightarrow> 's list" where
  "matched segs es = map snd (filter (\<lambda>e. segments_match (fst e) segs) es)"

lemma matched_append [simp]: "matched segs (xs @ ys) = matched segs xs @ matched segs ys"
  by (simp add: matched_def)

lemma matched_Pair: "matched segs (map (Pair ps) subs) = (if segments_match ps segs then subs else [])"
  by (induction subs) (simp_all add: matched_def comp_def)

lemma matched_Nil: "matched [] (map (\<lambda>(ps, s). (PLiteral l # ps, s)) es) = []"
  by (auto simp: matched_def filter_empty_conv)

lemma matched_children_Nil [simp]: "matched [] (trie_entries_children lits) = []"
  by (induction lits) (auto simp: matched_Nil matched_def [of _ "[]"])

lemma matched_single:
  "matched [] (trie_entries_option SingleWildcard c) = []"
  "matched (x # rest) (trie_entries_option SingleWildcard c) =
     (case c of Some n \<Rightarrow> matched rest (trie_entries n) | None \<Rightarrow> [])"
  by (cases c; simp add: matched_def filter_map comp_def case_prod_unfold)+

lemma matched_multi:
  "(case mw of None \<Rightarrow> True | Some (TrieNode lits' sw' mw' _) \<Rightarrow> lits' = [] \<and> sw' = None \<and> mw' = None) \<Longrightarrow>
   matched segs (trie_entries_option MultiWildcard mw) = node_subs mw"
  by (auto simp: node_subs_def matched_def comp_def filter_map split: option.splits trie_node.splits)

lemma matched_literal:
  "matched (x # rest) (map (\<lambda>(ps, s). (PLiteral l # ps, s)) es) = (if l = x then matched rest es else [])"
  by (auto simp: matched_def filter_map comp_def case_prod_unfold)

lemma matched_children:
  "distinct (map fst lits) \<Longrightarrow> matched (x # rest) (trie_entries_children lits) =
     (case map_of lits x of Some c \<Rightarrow> matched rest (trie_entries c) | None \<Rightarrow> [])"
proof (induction lits)
  case (Cons lc lits)
  obtain l c where lc: "lc = (l, c)" by (cases lc)
  show ?case
  proof (cases "l = x")
    case True
    then have "map_of lits x = None" using Cons.prems lc by (auto simp: map_of_eq_None_iff)
    then show ?thesis using True lc Cons by (simp add: matched_literal)
  next
    case False
    then show ?thesis using Cons lc by (simp add: matched_literal)
  qed
qed (simp add: matched_def)

lemma trie_lookup_matched:
  "trie_wf t \<Longrightarrow> mset (trie_lookup segs t) = mset (matched segs (trie_entries t))"
proof (induction segs t rule: trie_lookup.induct)
  case (1 lits sw mw subs)
  then show ?case by (simp add: matched_Pair matched_single matched_multi)
next
  case (2 x rest lits sw mw subs)
  have "mset (trie_lookup rest c) = mset (matched rest (trie_entries c))" if "map_of lits x = Some c" for c
    using 2 that by (auto dest: trie_wf_map_of)
  moreover have "mset (trie_lookup rest c) = mset (matched rest (trie_entries c))" if "sw = Some c" for c
    using 2 that by auto
  ultimately show ?case
    using 2 by (simp add: matched_Pair matched_single matched_multi matched_children split: option.split)
qed

lemma trie_collect_entries:
  fixes t :: "'s trie_node"
  shows "trie_collect t = map snd (trie_entries t)"
    and "trie_collect_children lits = map snd (trie_entries_children (lits :: (string \<times> 's trie_node) list))"
    and "trie_collect_option c = map snd (trie_entries_option p (c :: 's trie_node option))"
  by (induction t and lits and c arbitrary: and and p rule: trie_collect_trie_collect_children_trie_collect_option.induct)
    (auto simp: comp_def case_prod_unfold)

section \<open>Changing the first match\<close>

fun update_first :: "('s \<Rightarrow> bool) \<Rightarrow> ('s \<Rightarrow> 's list) \<Rightarrow> 's list \<Rightarrow> 's list option" where
  "update_first P g [] = None"
| "update_first P g (x # xs) = (if P x then Some (g x @ xs) else map_option (Cons x) (update_first P g xs))"

definition trie_remove :: "uuid \<Rightarrow> 'j subscription trie_node \<Rightarrow> bool \<times> 'j subscription trie_node" where
  "trie_remove i = trie_walk (update_first (\<lambda>s. sb_id s = i) (\<lambda>_. []))"

definition trie_set_active :: "uuid \<Rightarrow> bool \<Rightarrow> 'j subscription trie_node \<Rightarrow> bool \<times> 'j subscription trie_node" where
  "trie_set_active i active = trie_walk (update_first (\<lambda>s. sb_id s = i) (\<lambda>s. [s\<lparr>sb_active := active\<rparr>]))"

lemma update_first_None: "update_first P g xs = None \<longleftrightarrow> (\<forall>x \<in> set xs. \<not> P x)"
  by (induction xs) auto

text \<open>What the walk does to the entries: one entry that satisfies \<open>P\<close> is replaced by \<open>g\<close> of it.\<close>

definition replaced :: "('s \<Rightarrow> bool) \<Rightarrow> ('s \<Rightarrow> 's list) \<Rightarrow> (pattern_segment list \<times> 's) list \<Rightarrow>
    (pattern_segment list \<times> 's) list \<Rightarrow> bool" where
  "replaced P g es es' \<longleftrightarrow> (\<exists>ps x rest. P x \<and> mset es = add_mset (ps, x) rest \<and>
     mset es' = mset (map (Pair ps) (g x)) + rest)"

lemma update_first_replaced:
  "update_first P g subs = Some subs' \<Longrightarrow> replaced P g (map (Pair ps) subs) (map (Pair ps) subs')"
proof (induction subs arbitrary: subs')
  case (Cons x xs)
  show ?case
  proof (cases "P x")
    case True
    then show ?thesis using Cons.prems
      unfolding replaced_def by (intro exI [of _ ps] exI [of _ x] exI [of _ "mset (map (Pair ps) xs)"]) auto
  next
    case False
    then obtain ys where ys: "update_first P g xs = Some ys" "subs' = x # ys" using Cons.prems by auto
    from Cons.IH [OF ys(1)] obtain qs y rest where
      "P y" "mset (map (Pair ps) xs) = add_mset (qs, y) rest"
      "mset (map (Pair ps) ys) = mset (map (Pair qs) (g y)) + rest" by (auto simp: replaced_def)
    then show ?thesis
      unfolding replaced_def by (intro exI [of _ qs] exI [of _ y] exI [of _ "add_mset (ps, x) rest"]) (simp add: ys(2))
  qed
qed simp

lemma replaced_append:
  "replaced P g es es' \<Longrightarrow> replaced P g (xs @ es @ ys) (xs @ es' @ ys)"
  unfolding replaced_def
  by (elim exE conjE, rule_tac x = ps in exI, rule_tac x = x in exI, rule_tac x = "mset xs + rest + mset ys" in exI)
    simp

lemma replaced_prefix:
  "replaced P g es es' \<Longrightarrow>
   replaced P g (map (\<lambda>(ps, s). (p # ps, s)) es) (map (\<lambda>(ps, s). (p # ps, s)) es')"
  unfolding replaced_def
  by (elim exE conjE, rule_tac x = "p # ps" in exI, rule_tac x = x in exI,
      rule_tac x = "image_mset (\<lambda>(ps, s). (p # ps, s)) rest" in exI)
    (simp add: multiset.map_comp comp_def)

lemma trie_walk_replaced:
  fixes t :: "'s trie_node"
  shows "trie_walk (update_first P g) t = (True, t') \<Longrightarrow> replaced P g (trie_entries t) (trie_entries t')"
    and "trie_walk_children (update_first P g) lits = (True, lits') \<Longrightarrow>
      replaced P g (trie_entries_children lits) (trie_entries_children (lits' :: (string \<times> 's trie_node) list))"
    and "trie_walk_option (update_first P g) c = (True, c') \<Longrightarrow>
      replaced P g (trie_entries_option p c) (trie_entries_option p (c' :: 's trie_node option))"
proof (induction t and lits and c arbitrary: t' and lits' and c' p rule: trie_collect_trie_collect_children_trie_collect_option.induct)
  case (1 lits sw mw subs)
  then show ?case
    using replaced_append [of P g _ _ "[]"] replaced_append [of P g _ _ "map (Pair []) subs"]
      replaced_append [of P g _ _ "map (Pair []) subs @ trie_entries_children lits"]
      replaced_append [of P g _ _ "map (Pair []) subs @ trie_entries_children lits @ trie_entries_option SingleWildcard sw" "[]"]
    by (auto split: option.splits prod.splits bool.splits dest: update_first_replaced [of P g _ _ "[]"])
next
  case (3 l c lits)
  then show ?case
    using replaced_append [of P g _ _ "[]"] replaced_append [of P g _ _ "map (\<lambda>(ps, s). (PLiteral l # ps, s)) (trie_entries c)" "[]"]
    by (fastforce split: prod.splits bool.splits dest: replaced_prefix [of P g _ _ "PLiteral l"])
qed (auto split: prod.splits dest: replaced_prefix)

lemma trie_walk_unchanged:
  fixes t :: "'s trie_node"
  shows "trie_walk (update_first P g) t = (False, t') \<Longrightarrow> t' = t \<and> (\<forall>s \<in> set (trie_collect t). \<not> P s)"
    and "trie_walk_children (update_first P g) lits = (False, lits') \<Longrightarrow>
      lits' = (lits :: (string \<times> 's trie_node) list) \<and> (\<forall>s \<in> set (trie_collect_children lits). \<not> P s)"
    and "trie_walk_option (update_first P g) c = (False, c') \<Longrightarrow>
      c' = (c :: 's trie_node option) \<and> (\<forall>s \<in> set (trie_collect_option c). \<not> P s)"
  by (induction t and lits and c arbitrary: t' and lits' and c' rule: trie_collect_trie_collect_children_trie_collect_option.induct)
    (fastforce simp: update_first_None split: option.splits prod.splits bool.splits)+

lemma trie_walk_wf:
  fixes t :: "'s trie_node"
  shows "trie_wf t \<Longrightarrow> trie_wf (snd (trie_walk f t)) \<and>
      (literal_children t = [] \<longrightarrow> single_wildcard t = None \<longrightarrow> multi_wildcard t = None \<longrightarrow>
        literal_children (snd (trie_walk f t)) = [] \<and> single_wildcard (snd (trie_walk f t)) = None \<and>
        multi_wildcard (snd (trie_walk f t)) = None)"
    and "trie_wf_children (lits :: (string \<times> 's trie_node) list) \<Longrightarrow>
      trie_wf_children (snd (trie_walk_children f lits)) \<and>
      map fst (snd (trie_walk_children f lits)) = map fst lits"
    and "trie_wf_option (c :: 's trie_node option) \<Longrightarrow> trie_wf_option (snd (trie_walk_option f c))"
proof (induction t and lits and c rule: trie_collect_trie_collect_children_trie_collect_option.induct)
  case (1 lits sw mw subs)
  have mw: "trie_wf_option mw" using 1(4) by (auto split: option.splits trie_node.splits)
  have leaf: "case snd (trie_walk_option f mw) of None \<Rightarrow> True
      | Some (TrieNode lits' sw' mw' _) \<Rightarrow> lits' = [] \<and> sw' = None \<and> mw' = None"
    using 1(4) by (cases mw) (auto split: trie_node.splits option.splits prod.splits)
  show ?case using 1 mw leaf
    by (auto split: option.splits prod.splits bool.splits)
qed (auto split: prod.splits bool.splits)

section \<open>The contract of a topic index\<close>

text \<open>The commands the bus issues on its index, and what they mean for the multiset of
  subscriptions.\<close>

datatype 'j topic_op = TopicSubscribe "'j subscription" | TopicUnsubscribe uuid | TopicSetActive uuid bool

fun topic_spec :: "'j subscription multiset \<Rightarrow> 'j topic_op \<Rightarrow> 'j subscription multiset" where
  "topic_spec M (TopicSubscribe s) = add_mset s M"
| "topic_spec M (TopicUnsubscribe i) = filter_mset (\<lambda>s. sb_id s \<noteq> i) M"
| "topic_spec M (TopicSetActive i a) =
     image_mset (\<lambda>s. if sb_id s = i then s\<lparr>sb_active := a\<rparr> else s) M"

fun topic_ids :: "'j topic_op list \<Rightarrow> uuid list" where
  "topic_ids [] = []"
| "topic_ids (TopicSubscribe s # ops) = sb_id s # topic_ids ops"
| "topic_ids (_ # ops) = topic_ids ops"

fun topic_op_ok :: "'j topic_op \<Rightarrow> bool" where
  "topic_op_ok (TopicSubscribe s) \<longleftrightarrow> pattern_wf (tp_segments (sb_topic s))"
| "topic_op_ok _ \<longleftrightarrow> True"

definition ids_unique :: "'j subscription multiset \<Rightarrow> bool" where
  "ids_unique M \<longleftrightarrow> (\<forall>i. size (filter_mset (\<lambda>s. sb_id s = i) M) \<le> 1)"

lemma ids_unique_empty [simp]: "ids_unique {#}" by (simp add: ids_unique_def)

lemma ids_unique_add:
  "ids_unique M \<Longrightarrow> (\<forall>s \<in># M. sb_id s \<noteq> sb_id x) \<Longrightarrow> ids_unique (add_mset x M)"
  by (auto simp: ids_unique_def)

lemma ids_unique_add_D:
  assumes "ids_unique (add_mset x M)"
  shows "ids_unique M" and "\<forall>s \<in># M. sb_id s \<noteq> sb_id x"
proof -
  show "ids_unique M"
    unfolding ids_unique_def
  proof
    fix i
    have "size (filter_mset (\<lambda>s. sb_id s = i) M) \<le> size (filter_mset (\<lambda>s. sb_id s = i) (add_mset x M))"
      by (intro size_mset_mono multiset_filter_mono) simp
    then show "size (filter_mset (\<lambda>s. sb_id s = i) M) \<le> 1"
      using assms le_trans unfolding ids_unique_def by blast
  qed
  have "size (filter_mset (\<lambda>s. sb_id s = sb_id x) (add_mset x M)) \<le> 1"
    using assms unfolding ids_unique_def by blast
  then show "\<forall>s \<in># M. sb_id s \<noteq> sb_id x"
    by auto
qed

lemma ids_unique_spec:
  fixes M :: "'j subscription multiset"
  assumes "ids_unique M" and "\<forall>s \<in># M. sb_id s \<notin> set (topic_ids [op])"
  shows "ids_unique (topic_spec M op)"
proof (cases op)
  case (TopicSubscribe s)
  then show ?thesis using assms by (auto intro!: ids_unique_add)
next
  case (TopicUnsubscribe i)
  have "size (filter_mset (\<lambda>s. sb_id s = j) (filter_mset (\<lambda>s. sb_id s \<noteq> i) M)) \<le> 1" for j
  proof -
    have "size (filter_mset (\<lambda>s. sb_id s = j) (filter_mset (\<lambda>s. sb_id s \<noteq> i) M)) \<le>
        size (filter_mset (\<lambda>s. sb_id s = j) M)"
      by (intro size_mset_mono multiset_filter_mono multiset_filter_subset)
    also have "\<dots> \<le> 1" using assms(1) by (simp add: ids_unique_def)
    finally show ?thesis .
  qed
  then show ?thesis unfolding ids_unique_def TopicUnsubscribe topic_spec.simps by blast
next
  case (TopicSetActive i a)
  have "(sb_id x = i \<longrightarrow> i = j) \<and> (sb_id x \<noteq> i \<longrightarrow> sb_id x = j) \<longleftrightarrow> sb_id x = j" for x :: "'j subscription" and j
    by auto
  then show ?thesis using assms(1) by (simp add: TopicSetActive ids_unique_def filter_mset_image_mset)
qed

lemma topic_spec_ids:
  "s \<in># topic_spec M op \<Longrightarrow> sb_id s \<in> sb_id ` set_mset M \<or> sb_id s \<in> set (topic_ids [op])"
  by (cases op) (auto split: if_splits)

lemma topic_spec_fresh:
  assumes "\<forall>s \<in># M. sb_id s \<notin> set (topic_ids [op]) \<and> sb_id s \<notin> set (topic_ids ops)"
    and "set (topic_ids [op]) \<inter> set (topic_ids ops) = {}"
  shows "\<forall>s \<in># topic_spec M op. sb_id s \<notin> set (topic_ids ops)"
proof
  fix s assume "s \<in># topic_spec M op"
  then consider "sb_id s \<in> sb_id ` set_mset M" | "sb_id s \<in> set (topic_ids [op])"
    using topic_spec_ids by blast
  then show "sb_id s \<notin> set (topic_ids ops)" using assms by cases auto
qed

lemma topic_ids_Cons: "set (topic_ids (op # ops)) = set (topic_ids [op]) \<union> set (topic_ids ops)"
  "distinct (topic_ids (op # ops)) \<longleftrightarrow> distinct (topic_ids ops) \<and> set (topic_ids [op]) \<inter> set (topic_ids ops) = {}"
  by (cases op; auto)+

text \<open>One command issued on an index given by its operations.\<close>

fun index_op :: "(topic_pattern \<Rightarrow> 'j subscription \<Rightarrow> 't \<Rightarrow> 't) \<Rightarrow> (uuid \<Rightarrow> 't \<Rightarrow> bool \<times> 't) \<Rightarrow>
    (uuid \<Rightarrow> bool \<Rightarrow> 't \<Rightarrow> bool \<times> 't) \<Rightarrow> 't \<Rightarrow> 'j topic_op \<Rightarrow> 't" where
  "index_op ins rem act t (TopicSubscribe s) = ins (sb_topic s) s t"
| "index_op ins rem act t (TopicUnsubscribe i) = snd (rem i t)"
| "index_op ins rem act t (TopicSetActive i a) = snd (act i a t)"

locale topic_index =
  fixes rep :: "'t \<Rightarrow> 'j subscription multiset \<Rightarrow> bool"
    and empty :: 't
    and insert :: "topic_pattern \<Rightarrow> 'j subscription \<Rightarrow> 't \<Rightarrow> 't"
    and remove :: "uuid \<Rightarrow> 't \<Rightarrow> bool \<times> 't"
    and set_active :: "uuid \<Rightarrow> bool \<Rightarrow> 't \<Rightarrow> bool \<times> 't"
    and lookup :: "event_type \<Rightarrow> 't \<Rightarrow> 'j subscription list"
  assumes rep_empty: "rep empty {#}"
    and rep_insert: "rep t M \<Longrightarrow> pattern_wf (tp_segments (sb_topic s)) \<Longrightarrow>
      rep (insert (sb_topic s) s t) (add_mset s M)"
    and rep_remove: "rep t M \<Longrightarrow> remove i t = (b, t') \<Longrightarrow>
      (if b then \<exists>s M'. sb_id s = i \<and> M = add_mset s M' \<and> rep t' M' else t' = t \<and> (\<forall>s \<in># M. sb_id s \<noteq> i))"
    and rep_set_active: "rep t M \<Longrightarrow> set_active i a t = (b, t') \<Longrightarrow>
      (if b then \<exists>s M'. sb_id s = i \<and> M = add_mset s M' \<and> rep t' (add_mset (s\<lparr>sb_active := a\<rparr>) M')
       else t' = t \<and> (\<forall>s \<in># M. sb_id s \<noteq> i))"
    and lookup_exact: "rep t M \<Longrightarrow> mset (lookup et t) = filter_mset (\<lambda>s. pattern_matches (sb_topic s) et) M"
begin

lemma remove_refines:
  assumes "rep t M" and "ids_unique M"
  shows "rep (snd (remove i t)) (filter_mset (\<lambda>s. sb_id s \<noteq> i) M)"
proof -
  obtain b t' where r: "remove i t = (b, t')" by (cases "remove i t")
  show ?thesis
  proof (cases b)
    case True
    then obtain s M' where s: "sb_id s = i" "M = add_mset s M'" "rep t' M'"
      using rep_remove [OF assms(1) r] by auto
    then have "filter_mset (\<lambda>s. sb_id s \<noteq> i) M' = M'"
      using ids_unique_add_D(2) [of s M'] assms(2) by (auto simp: filter_mset_eq_conv)
    then show ?thesis using s r by simp
  next
    case False
    then have "t' = t" "filter_mset (\<lambda>s. sb_id s \<noteq> i) M = M"
      using rep_remove [OF assms(1) r] by (auto simp: filter_mset_eq_conv)
    then show ?thesis using r assms(1) by simp
  qed
qed

lemma set_active_refines:
  assumes "rep t M" and "ids_unique M"
  shows "rep (snd (set_active i a t)) (image_mset (\<lambda>s. if sb_id s = i then s\<lparr>sb_active := a\<rparr> else s) M)"
proof -
  let ?f = "\<lambda>s. if sb_id s = i then s\<lparr>sb_active := a\<rparr> else s"
  have same: "image_mset ?f N = N" if "\<forall>s \<in># N. sb_id s \<noteq> i" for N
    using that by (induction N) simp_all
  obtain b t' where r: "set_active i a t = (b, t')" by (cases "set_active i a t")
  show ?thesis
  proof (cases b)
    case True
    then obtain s M' where s: "sb_id s = i" "M = add_mset s M'" "rep t' (add_mset (s\<lparr>sb_active := a\<rparr>) M')"
      using rep_set_active [OF assms(1) r] by auto
    then have "image_mset ?f M' = M'"
      using ids_unique_add_D(2) [of s M'] assms(2) by (intro same) auto
    then show ?thesis using s r by simp
  next
    case False
    then show ?thesis using rep_set_active [OF assms(1) r] r assms(1) by (simp add: same)
  qed
qed

lemma step_refines:
  assumes "rep t M" and "ids_unique M" and "topic_op_ok op"
  shows "rep (index_op insert remove set_active t op) (topic_spec M op)"
  using assms by (cases op) (simp_all add: rep_insert remove_refines set_active_refines)

lemma run_refines:
  assumes "rep t M" and "ids_unique M" and "\<forall>op \<in> set ops. topic_op_ok op" and "distinct (topic_ids ops)"
    and "\<forall>s \<in># M. sb_id s \<notin> set (topic_ids ops)"
  shows "rep (foldl (index_op insert remove set_active) t ops) (foldl topic_spec M ops)"
  using assms
proof (induction ops arbitrary: t M)
  case (Cons op ops)
  have split: "set (topic_ids [op]) \<inter> set (topic_ids ops) = {}" "distinct (topic_ids ops)"
    using Cons.prems(4) unfolding topic_ids_Cons(2) [of op ops] by simp_all
  have old: "\<forall>s \<in># M. sb_id s \<notin> set (topic_ids [op]) \<and> sb_id s \<notin> set (topic_ids ops)"
    using Cons.prems(5) unfolding topic_ids_Cons(1) [of op ops] by simp
  have 1: "rep (index_op insert remove set_active t op) (topic_spec M op)"
    using Cons.prems(1-3) by (intro step_refines) simp_all
  have 2: "ids_unique (topic_spec M op)"
    using Cons.prems(2) old by (intro ids_unique_spec) blast+
  have 3: "\<forall>s \<in># topic_spec M op. sb_id s \<notin> set (topic_ids ops)"
    using topic_spec_fresh [OF old split(1)] .
  have 4: "\<forall>op \<in> set ops. topic_op_ok op" using Cons.prems(3) by simp
  show ?case using Cons.IH [OF 1 2 4 split(2) 3] by simp
qed simp

lemma lookup_after:
  assumes "\<forall>op \<in> set ops. topic_op_ok op" and "distinct (topic_ids ops)"
  shows "mset (lookup et (foldl (index_op insert remove set_active) empty ops)) =
    filter_mset (\<lambda>s. pattern_matches (sb_topic s) et) (foldl topic_spec {#} ops)"
  using lookup_exact [OF run_refines [OF rep_empty ids_unique_empty assms]] by simp

end

section \<open>The trie meets the contract\<close>

definition trie_rep :: "'j subscription trie_node \<Rightarrow> 'j subscription multiset \<Rightarrow> bool" where
  "trie_rep t M \<longleftrightarrow> trie_wf t \<and> mset (trie_entries t) = image_mset (\<lambda>s. (tp_segments (sb_topic s), s)) M"

definition trie_subscribe :: "topic_pattern \<Rightarrow> 'j subscription \<Rightarrow> 'j subscription trie_node \<Rightarrow> 'j subscription trie_node" where
  "trie_subscribe p s t = trie_insert (tp_segments p) s t"

definition trie_find :: "event_type \<Rightarrow> 'j subscription trie_node \<Rightarrow> 'j subscription list" where
  "trie_find et t = trie_lookup (et_segments et) t"

lemma trie_rep_members:
  assumes "trie_rep t M"
  shows "mset (trie_collect t) = M"
proof -
  have "mset (map snd (trie_entries t)) = image_mset snd (image_mset (\<lambda>s. (tp_segments (sb_topic s), s)) M)"
    using assms by (simp add: trie_rep_def)
  then show ?thesis by (simp add: trie_collect_entries(1) multiset.map_comp comp_def)
qed

lemma trie_rep_find:
  assumes "trie_rep t M"
  shows "mset (trie_find et t) = filter_mset (\<lambda>s. pattern_matches (sb_topic s) et) M"
proof -
  have wf: "trie_wf t" and entries: "mset (trie_entries t) = image_mset (\<lambda>s. (tp_segments (sb_topic s), s)) M"
    using assms by (simp_all add: trie_rep_def)
  have "mset (trie_find et t) = image_mset snd (filter_mset (\<lambda>e. segments_match (fst e) (et_segments et))
      (image_mset (\<lambda>s. (tp_segments (sb_topic s), s)) M))"
    by (simp add: trie_find_def trie_lookup_matched [OF wf] matched_def entries del: mset_map)
      (simp add: entries)
  then show ?thesis
    by (simp add: filter_mset_image_mset multiset.map_comp comp_def pattern_matches_def)
qed

lemma replaced_rep:
  assumes "replaced P g es es'" and "mset es = image_mset (\<lambda>s. (tp_segments (sb_topic s), s)) M"
  obtains x M' where "P x" "M = add_mset x M'"
    "mset es' = mset (map (Pair (tp_segments (sb_topic x))) (g x)) + image_mset (\<lambda>s. (tp_segments (sb_topic s), s)) M'"
proof -
  obtain ps x rest where r: "P x" "mset es = add_mset (ps, x) rest" "mset es' = mset (map (Pair ps) (g x)) + rest"
    using assms(1) by (auto simp: replaced_def)
  then obtain y M' where "M = add_mset y M'" "(tp_segments (sb_topic y), y) = (ps, x)"
    "rest = image_mset (\<lambda>s. (tp_segments (sb_topic s), s)) M'"
    using assms(2) by (metis (no_types, lifting) msed_map_invR)
  then show ?thesis using r that by blast
qed

lemma trie_remove_law:
  assumes "trie_rep t M" and "trie_remove i t = (b, t')"
  shows "if b then \<exists>s M'. sb_id s = i \<and> M = add_mset s M' \<and> trie_rep t' M'
    else t' = t \<and> (\<forall>s \<in># M. sb_id s \<noteq> i)"
proof (cases b)
  case True
  have "trie_wf t'"
    using assms trie_walk_wf(1) [of t "update_first (\<lambda>s. sb_id s = i) (\<lambda>_. [])"] by (simp add: trie_rep_def trie_remove_def)
  moreover have "replaced (\<lambda>s. sb_id s = i) (\<lambda>_. []) (trie_entries t) (trie_entries t')"
    using assms(2) True by (intro trie_walk_replaced(1)) (simp add: trie_remove_def)
  then obtain s M' where "sb_id s = i" "M = add_mset s M'"
    "mset (trie_entries t') = image_mset (\<lambda>s. (tp_segments (sb_topic s), s)) M'"
    using assms(1) unfolding trie_rep_def by (elim replaced_rep [of _ _ _ _ M]) simp_all
  ultimately show ?thesis using True unfolding trie_rep_def by auto
next
  case False
  then show ?thesis
    using assms(2) trie_walk_unchanged(1) [of "\<lambda>s. sb_id s = i" "\<lambda>_. []" t t'] trie_rep_members [OF assms(1)]
    by (auto simp: trie_remove_def)
qed

lemma trie_set_active_law:
  assumes "trie_rep t M" and "trie_set_active i a t = (b, t')"
  shows "if b then \<exists>s M'. sb_id s = i \<and> M = add_mset s M' \<and> trie_rep t' (add_mset (s\<lparr>sb_active := a\<rparr>) M')
    else t' = t \<and> (\<forall>s \<in># M. sb_id s \<noteq> i)"
proof (cases b)
  case True
  have "trie_wf t'"
    using assms trie_walk_wf(1) [of t "update_first (\<lambda>s. sb_id s = i) (\<lambda>s. [s\<lparr>sb_active := a\<rparr>])"]
    by (simp add: trie_rep_def trie_set_active_def)
  moreover have "replaced (\<lambda>s. sb_id s = i) (\<lambda>s. [s\<lparr>sb_active := a\<rparr>]) (trie_entries t) (trie_entries t')"
    using assms(2) True by (intro trie_walk_replaced(1)) (simp add: trie_set_active_def)
  then obtain s M' where "sb_id s = i" "M = add_mset s M'"
    "mset (trie_entries t') = add_mset (tp_segments (sb_topic s), s\<lparr>sb_active := a\<rparr>)
      (image_mset (\<lambda>s. (tp_segments (sb_topic s), s)) M')"
    using assms(1) unfolding trie_rep_def by (elim replaced_rep [of _ _ _ _ M]) simp_all
  ultimately show ?thesis using True unfolding trie_rep_def by auto
next
  case False
  then show ?thesis
    using assms(2) trie_walk_unchanged(1) [of "\<lambda>s. sb_id s = i" "\<lambda>s. [s\<lparr>sb_active := a\<rparr>]" t t']
      trie_rep_members [OF assms(1)]
    by (auto simp: trie_set_active_def)
qed

interpretation event_trie: topic_index trie_rep trie_empty trie_subscribe trie_remove trie_set_active trie_find
proof unfold_locales
  fix t :: "'j subscription trie_node" and M i a b t'
  show "trie_rep trie_empty {#}" by (simp add: trie_rep_def)
  show "trie_rep (trie_subscribe (sb_topic s) s t) (add_mset s M)"
    if "trie_rep t M" "pattern_wf (tp_segments (sb_topic s))" for s
    using that by (simp add: trie_subscribe_def trie_rep_def trie_insert_wf trie_insert_entries)
  show "mset (trie_find et t) = filter_mset (\<lambda>s. pattern_matches (sb_topic s) et) M" if "trie_rep t M" for et
    using that by (rule trie_rep_find)
qed (rule trie_remove_law trie_set_active_law; assumption)+

end
