(* ===== verification/Event_Bus.thy ===== *)
theory Event_Bus
  imports Event_Trie
begin

unbundle bit_operations_syntax

text \<open>
  \<open>nova-event\<close>: the replay log (\<open>store.rs\<close>), the dead-letter queue (\<open>dead_letter.rs\<close>) and
  the bus itself (\<open>bus.rs\<close>). Channels come from another crate: \<open>channel_lib\<close> holds the two
  send operations, over a state \<open>'w\<close> of all channels. Of \<open>BusMetrics\<close> the counters that
  the code writes are kept.
\<close>

section \<open>The replay log\<close>

record stored_event =
  se_offset :: u64
  se_event_id :: event_id
  se_event_type :: event_type
  se_timestamp :: u64
  se_ordering_key :: "string option"
  se_payload :: bytes
  se_trace_context :: "trace_context option"

record replay_cursor =
  rc_subscriber_id :: string
  rc_last_processed_offset :: u64
  rc_last_processed_timestamp :: u64
  rc_target_timestamp :: "u64 option"

record event_store =
  es_events :: "stored_event list"
  es_next_offset :: u64
  es_max_entries :: nat

definition es_new :: "nat \<Rightarrow> event_store" where
  "es_new max_entries = \<lparr>es_events = [], es_next_offset = 0, es_max_entries = max_entries\<rparr>"

definition store_event :: "u64 \<Rightarrow> event \<Rightarrow> stored_event" where
  "store_event offset e = \<lparr>se_offset = offset, se_event_id = em_event_id (ev_metadata e),
     se_event_type = em_event_type (ev_metadata e), se_timestamp = em_timestamp (ev_metadata e),
     se_ordering_key = em_ordering_key (ev_metadata e), se_payload = ev_payload e,
     se_trace_context = em_trace_context (ev_metadata e)\<rparr>"

definition es_append :: "event \<Rightarrow> event_store \<Rightarrow> u64 \<times> event_store" where
  "es_append e st =
     (let offset = es_next_offset st;
          events = es_events st @ [store_event offset e];
          excess = length events - es_max_entries st;
          events = (if es_max_entries st < length events then drop excess events else events)
      in (offset, st\<lparr>es_events := events, es_next_offset := offset + 1\<rparr>))"

definition es_scan_from :: "u64 \<Rightarrow> nat \<Rightarrow> event_store \<Rightarrow> stored_event list" where
  "es_scan_from offset limit st = take limit (dropWhile (\<lambda>e. \<not> offset \<le> se_offset e) (es_events st))"

definition es_latest_offset :: "event_store \<Rightarrow> u64" where
  "es_latest_offset st = (if es_next_offset st = 0 then 0 else es_next_offset st - 1)"

section \<open>The dead-letter queue\<close>

record dead_letter_entry =
  dl_event :: event
  dl_failed_subscriber :: subscriber_id
  dl_failure_reason :: string
  dl_failure_timestamp :: u64
  dl_retry_count :: u32
  dl_last_error :: string

record dead_letter_queue =
  dq_entries :: "dead_letter_entry list"
  dq_max_size :: nat

definition dlq_new :: "nat \<Rightarrow> dead_letter_queue" where
  "dlq_new max_size = \<lparr>dq_entries = [], dq_max_size = max_size\<rparr>"

definition dlq_push :: "dead_letter_entry \<Rightarrow> dead_letter_queue \<Rightarrow> dead_letter_queue" where
  "dlq_push entry q =
     (let entries = (if dq_max_size q \<le> length (dq_entries q) then tl (dq_entries q) else dq_entries q)
      in q\<lparr>dq_entries := entries @ [entry]\<rparr>)"

definition dlq_pop :: "dead_letter_queue \<Rightarrow> dead_letter_entry option \<times> dead_letter_queue" where
  "dlq_pop q = (case dq_entries q of [] \<Rightarrow> (None, q) | e # es \<Rightarrow> (Some e, q\<lparr>dq_entries := es\<rparr>))"

section \<open>The bus\<close>

datatype overflow_policy = DropNewest | DropOldest | RejectPublisher | BlockPublisher

datatype send_result = Sent | ChanFull | ChanDisconnected

record 'w channel_lib =
  ch_try_send :: "chan \<Rightarrow> event \<Rightarrow> 'w \<Rightarrow> send_result \<times> 'w"
  ch_send :: "chan \<Rightarrow> event \<Rightarrow> 'w \<Rightarrow> bool \<times> 'w"

record bus_metrics =
  bm_events_published_total :: u64
  bm_events_delivered_total :: u64
  bm_queue_rejected_total :: u64
  bm_queue_dropped_total :: u64
  bm_subscriber_count :: u32
  bm_replay_events_total :: u64

text \<open>The state of a bus, of the channels and of \<open>EVENT_COUNTER\<close>.\<close>

record ('j, 'w) bus =
  bus_trie :: "'j subscription trie_node"
  bus_shard_count :: u16
  bus_overflow_policy :: overflow_policy
  bus_max_payload_size :: u64
  bus_dlq :: dead_letter_queue
  bus_metrics :: bus_metrics
  bus_store :: event_store
  bus_counter :: u64
  bus_world :: 'w

type_synonym ('j, 'w, 'a) bus_op = "(('j, 'w) bus, event_error, 'a) stm"

definition bus_new :: "u16 \<Rightarrow> overflow_policy \<Rightarrow> u64 \<Rightarrow> nat \<Rightarrow> u64 \<Rightarrow> 'w \<Rightarrow> ('j, 'w) bus" where
  "bus_new shard_count overflow_policy max_payload_size store_max_entries counter world =
     \<lparr>bus_trie = trie_empty, bus_shard_count = shard_count, bus_overflow_policy = overflow_policy,
      bus_max_payload_size = max_payload_size, bus_dlq = dlq_new 100000,
      bus_metrics = \<lparr>bm_events_published_total = 0, bm_events_delivered_total = 0,
        bm_queue_rejected_total = 0, bm_queue_dropped_total = 0, bm_subscriber_count = 0,
        bm_replay_events_total = 0\<rparr>,
      bus_store = es_new store_max_entries, bus_counter = counter, bus_world = world\<rparr>"

definition count_delivered :: "('j, 'w) bus \<Rightarrow> ('j, 'w) bus" where
  "count_delivered b = b\<lparr>bus_metrics := (bus_metrics b)
     \<lparr>bm_events_delivered_total := bm_events_delivered_total (bus_metrics b) + 1\<rparr>\<rparr>"

definition count_dropped :: "('j, 'w) bus \<Rightarrow> ('j, 'w) bus" where
  "count_dropped b = b\<lparr>bus_metrics := (bus_metrics b)
     \<lparr>bm_queue_dropped_total := bm_queue_dropped_total (bus_metrics b) + 1\<rparr>\<rparr>"

definition count_rejected :: "('j, 'w) bus \<Rightarrow> ('j, 'w) bus" where
  "count_rejected b = b\<lparr>bus_metrics := (bus_metrics b)
     \<lparr>bm_queue_rejected_total := bm_queue_rejected_total (bus_metrics b) + 1\<rparr>\<rparr>"

definition count_published :: "('j, 'w) bus \<Rightarrow> ('j, 'w) bus" where
  "count_published b = b\<lparr>bus_metrics := (bus_metrics b)
     \<lparr>bm_events_published_total := bm_events_published_total (bus_metrics b) + 1\<rparr>\<rparr>"

definition count_replayed :: "('j, 'w) bus \<Rightarrow> ('j, 'w) bus" where
  "count_replayed b = b\<lparr>bus_metrics := (bus_metrics b)
     \<lparr>bm_replay_events_total := bm_replay_events_total (bus_metrics b) + 1\<rparr>\<rparr>"

text \<open>The shard is computed and not used; the remainder panics when there are no shards.\<close>

definition key_hash31 :: "string \<Rightarrow> u64" where
  "key_hash31 key = foldl (\<lambda>acc b. acc * 31 + of_nat (of_char b)) 0 key"

definition bus_shard :: "event \<Rightarrow> ('j, 'w, u64) bus_op" where
  "bus_shard e = (\<lambda>b.
     case em_ordering_key (ev_metadata e) of
       Some key \<Rightarrow>
         (if bus_shard_count b = 0 then Panic else Ok (key_hash31 key mod ucast (bus_shard_count b)), b)
     | None \<Rightarrow>
         (if bus_shard_count b = 0 then Panic else Ok (bus_counter b mod ucast (bus_shard_count b)),
          b\<lparr>bus_counter := bus_counter b + 1\<rparr>))"

definition bus_send :: "'w channel_lib \<Rightarrow> event \<Rightarrow> u64 \<Rightarrow> 'j subscription \<Rightarrow> ('j, 'w, unit) bus_op" where
  "bus_send chans e timestamp sub = (\<lambda>b.
     case ch_try_send chans (sb_sender sub) e (bus_world b) of
       (Sent, w) \<Rightarrow> (Ok (), count_delivered (b\<lparr>bus_world := w\<rparr>))
     | (ChanFull, w) \<Rightarrow>
         (case bus_overflow_policy b of
            DropNewest \<Rightarrow> (Ok (), count_dropped (b\<lparr>bus_world := w\<rparr>))
          | DropOldest \<Rightarrow> (Ok (), count_dropped (b\<lparr>bus_world := w\<rparr>))
          | RejectPublisher \<Rightarrow>
              (Err (BusFull ''subscriber channel at capacity''), count_rejected (b\<lparr>bus_world := w\<rparr>))
          | BlockPublisher \<Rightarrow>
              (case ch_send chans (sb_sender sub) e w of
                 (True, w') \<Rightarrow> (Ok (), count_delivered (b\<lparr>bus_world := w'\<rparr>))
               | (False, w') \<Rightarrow> (Ok (), count_dropped (b\<lparr>bus_world := w'\<rparr>))))
     | (ChanDisconnected, w) \<Rightarrow>
         (Ok (), b\<lparr>bus_world := w, bus_dlq := dlq_push
            \<lparr>dl_event = e, dl_failed_subscriber = sb_subscriber sub,
             dl_failure_reason = ''subscriber channel disconnected'', dl_failure_timestamp = timestamp,
             dl_retry_count = 0, dl_last_error = ''crossbeam channel disconnected''\<rparr> (bus_dlq b)\<rparr>))"

definition sub_accepts :: "'j json_lib \<Rightarrow> event \<Rightarrow> 'j subscription \<Rightarrow> bool" where
  "sub_accepts lib e sub \<longleftrightarrow>
     (case sb_content_filter sub of Some f \<Rightarrow> content_filter_evaluate lib f e | None \<Rightarrow> True)"

fun bus_deliver :: "'j json_lib \<Rightarrow> 'w channel_lib \<Rightarrow> event \<Rightarrow> u64 \<Rightarrow> 'j subscription list \<Rightarrow>
    ('j, 'w, unit) bus_op" where
  "bus_deliver lib chans e timestamp [] = sret ()"
| "bus_deliver lib chans e timestamp (sub # subs) =
     (if \<not> sb_active sub then bus_deliver lib chans e timestamp subs
      else if \<not> sub_accepts lib e sub then bus_deliver lib chans e timestamp subs
      else sbind (bus_shard e) (\<lambda>_. sbind (bus_send chans e timestamp sub) (\<lambda>_.
        bus_deliver lib chans e timestamp subs)))"

definition stamp_event :: "event_id \<Rightarrow> u64 \<Rightarrow> event \<Rightarrow> event" where
  "stamp_event i payload_size e = e\<lparr>ev_metadata := (ev_metadata e)
     \<lparr>em_event_id := i, em_timestamp := event_id_timestamp i, em_payload_size := ucast payload_size\<rparr>\<rparr>"

definition bus_publish :: "'j json_lib \<Rightarrow> 'w channel_lib \<Rightarrow> u64 \<Rightarrow> event \<Rightarrow> ('j, 'w, event_id) bus_op" where
  "bus_publish lib chans now e = (\<lambda>b.
     if length (et_segments (em_event_type (ev_metadata e))) < 2
     then (Err (InvalidEventType ''event type must have at least 2 segments''), b)
     else let payload_size = of_nat (length (ev_payload e)) :: u64 in
       if bus_max_payload_size b < payload_size
       then (Err (PayloadTooLarge payload_size (bus_max_payload_size b)), b)
       else let (i, counter) = event_id_new now (bus_counter b);
                e = stamp_event i payload_size e;
                b = count_published (b\<lparr>bus_counter := counter\<rparr>);
                subs = trie_find (em_event_type (ev_metadata e)) (bus_trie b)
            in sbind (bus_deliver lib chans e (event_id_timestamp i) subs) (\<lambda>_. \<lambda>b.
                 (Ok i, if em_persistent (ev_metadata e)
                        then b\<lparr>bus_store := snd (es_append e (bus_store b))\<rparr> else b)) b)"

definition bus_publish_with_key :: "'j json_lib \<Rightarrow> 'w channel_lib \<Rightarrow> u64 \<Rightarrow> event \<Rightarrow> string \<Rightarrow>
    ('j, 'w, event_id) bus_op" where
  "bus_publish_with_key lib chans now e key = bus_publish lib chans now
     (e\<lparr>ev_metadata := (ev_metadata e)\<lparr>em_ordering_key := Some key\<rparr>\<rparr>)"

definition bus_subscribe :: "'j subscription \<Rightarrow> ('j, 'w, unit) bus_op" where
  "bus_subscribe sub = (\<lambda>b. (Ok (), b\<lparr>bus_trie := trie_subscribe (sb_topic sub) sub (bus_trie b),
     bus_metrics := (bus_metrics b)\<lparr>bm_subscriber_count := bm_subscriber_count (bus_metrics b) + 1\<rparr>\<rparr>))"

definition bus_unsubscribe :: "uuid \<Rightarrow> ('j, 'w, bool) bus_op" where
  "bus_unsubscribe i = (\<lambda>b.
     let (removed, t) = trie_remove i (bus_trie b); b = b\<lparr>bus_trie := t\<rparr> in
       (Ok removed, if removed then b\<lparr>bus_metrics := (bus_metrics b)
          \<lparr>bm_subscriber_count := bm_subscriber_count (bus_metrics b) - 1\<rparr>\<rparr> else b))"

definition bus_pause_subscriber :: "uuid \<Rightarrow> ('j, 'w, unit) bus_op" where
  "bus_pause_subscriber i = (\<lambda>b. let (found, t) = trie_set_active i False (bus_trie b) in
     (if found then Ok () else Err SubscriberNotFound, b\<lparr>bus_trie := t\<rparr>))"

definition bus_resume_subscriber :: "uuid \<Rightarrow> ('j, 'w, unit) bus_op" where
  "bus_resume_subscriber i = (\<lambda>b. let (found, t) = trie_set_active i True (bus_trie b) in
     (Ok (), b\<lparr>bus_trie := t\<rparr>))"

text \<open>\<open>DeadLetterQueue::requeue\<close> on the queue of the bus itself.\<close>

definition dlq_requeue :: "'j json_lib \<Rightarrow> 'w channel_lib \<Rightarrow> u64 \<Rightarrow> nat \<Rightarrow> ('j, 'w, unit) bus_op" where
  "dlq_requeue lib chans now index = (\<lambda>b.
     if length (dq_entries (bus_dlq b)) \<le> index then (Err SubscriberNotFound, b)
     else sbind (bus_publish lib chans now (dl_event (dq_entries (bus_dlq b) ! index))) (\<lambda>_. \<lambda>b.
       (Ok (), let entries = dq_entries (bus_dlq b) in
          if index < length entries
          then b\<lparr>bus_dlq := (bus_dlq b)\<lparr>dq_entries := take index entries @ drop (Suc index) entries\<rparr>\<rparr>
          else b)) b)"

section \<open>Replay\<close>

definition replay_event :: "stored_event \<Rightarrow> event" where
  "replay_event st = \<lparr>ev_metadata = \<lparr>em_event_id = se_event_id st, em_event_type = se_event_type st,
       em_source = \<lparr>src_subsystem = SubSystem, src_component = ''replay'', src_node_id = ''local'',
         src_instance_id = ''default''\<rparr>,
       em_timestamp = se_timestamp st, em_ordering_key = se_ordering_key st,
       em_content_type = ''application/x-msgpack'', em_payload_size = of_nat (length (se_payload st)),
       em_ttl_ms = 0, em_priority = EvNormal, em_persistent = False, em_schema_version = 1,
       em_trace_context = se_trace_context st\<rparr>, ev_payload = se_payload st\<rparr>"

fun replay_to_subs :: "'j json_lib \<Rightarrow> 'w channel_lib \<Rightarrow> stored_event \<Rightarrow> 'j subscription list \<Rightarrow>
    replay_cursor \<Rightarrow> ('j, 'w) bus \<Rightarrow> replay_cursor \<times> ('j, 'w) bus" where
  "replay_to_subs lib chans st [] cur b = (cur, b)"
| "replay_to_subs lib chans st (sub # subs) cur b =
     (if \<not> sb_active sub then replay_to_subs lib chans st subs cur b
      else if \<not> pattern_matches (sb_topic sub) (se_event_type st) then replay_to_subs lib chans st subs cur b
      else if \<not> sub_accepts lib (replay_event st) sub then replay_to_subs lib chans st subs cur b
      else case ch_try_send chans (sb_sender sub) (replay_event st) (bus_world b) of
          (Sent, w) \<Rightarrow> replay_to_subs lib chans st subs
             (cur\<lparr>rc_last_processed_offset := se_offset st, rc_last_processed_timestamp := se_timestamp st\<rparr>)
             (count_replayed (count_delivered (b\<lparr>bus_world := w\<rparr>)))
        | (_, w) \<Rightarrow> replay_to_subs lib chans st subs cur (b\<lparr>bus_world := w\<rparr>))"

text \<open>One page of the log; the flag says that the target timestamp ended the replay.\<close>

fun replay_page :: "'j json_lib \<Rightarrow> 'w channel_lib \<Rightarrow> u64 option \<Rightarrow> 'j subscription list \<Rightarrow> stored_event list \<Rightarrow>
    replay_cursor \<Rightarrow> ('j, 'w) bus \<Rightarrow> bool \<times> replay_cursor \<times> ('j, 'w) bus" where
  "replay_page lib chans target subs [] cur b = (False, cur, b)"
| "replay_page lib chans target subs (st # page) cur b =
     (if (case target of Some t \<Rightarrow> t < se_timestamp st | None \<Rightarrow> False) then (True, cur, b)
      else let (cur', b') = replay_to_subs lib chans st subs cur b in
        replay_page lib chans target subs page cur' b')"

definition REPLAY_LIMIT :: nat where "REPLAY_LIMIT = 1000"

text \<open>The loop of \<open>replay\<close>, with fuel: \<open>None\<close> when it has not ended.\<close>

fun replay_loop :: "nat \<Rightarrow> 'j json_lib \<Rightarrow> 'w channel_lib \<Rightarrow> u64 option \<Rightarrow> 'j subscription list \<Rightarrow>
    replay_cursor \<Rightarrow> ('j, 'w) bus \<Rightarrow> (replay_cursor \<times> ('j, 'w) bus) option" where
  "replay_loop 0 lib chans target subs cur b = None"
| "replay_loop (Suc fuel) lib chans target subs cur b =
     (let page = es_scan_from (rc_last_processed_offset cur + 1) REPLAY_LIMIT (bus_store b) in
      if page = [] then Some (cur, b)
      else let (ended, cur', b') = replay_page lib chans target subs page cur b in
        if ended then Some (cur', b')
        else if length page < REPLAY_LIMIT then Some (cur', b')
        else replay_loop fuel lib chans target subs cur' b')"

definition bus_replay :: "nat \<Rightarrow> 'j json_lib \<Rightarrow> 'w channel_lib \<Rightarrow> subscriber_id \<Rightarrow> replay_cursor \<Rightarrow> ('j, 'w) bus \<Rightarrow>
    (replay_cursor event_result \<times> ('j, 'w) bus) option" where
  "bus_replay fuel lib chans sid cursor b =
     (let subs = filter (\<lambda>s. sid_id (sb_subscriber s) = sid_id sid \<and>
            sid_subsystem (sb_subscriber s) = sid_subsystem sid \<and>
            sid_name (sb_subscriber s) = sid_name sid) (trie_collect (bus_trie b)) in
      if subs = [] then Some (Err SubscriberNotFound, b)
      else map_option (\<lambda>(cur, b). (Ok cur, b))
        (replay_loop fuel lib chans (rc_target_timestamp cursor) subs cursor b))"

section \<open>The log keeps a window of the events\<close>

definition es_run :: "nat \<Rightarrow> event list \<Rightarrow> event_store" where
  "es_run n es = foldl (\<lambda>st e. snd (es_append e st)) (es_new n) es"

abbreviation es_window :: "event list \<Rightarrow> nat \<Rightarrow> nat \<Rightarrow> stored_event list" where
  "es_window es lo hi \<equiv> map (\<lambda>i. store_event (of_nat i) (es ! i)) [lo ..< hi]"

lemma es_run_snoc: "es_run n (es @ [e]) = snd (es_append e (es_run n es))"
  by (simp add: es_run_def)

lemma es_window_snoc: "hi \<le> length es \<Longrightarrow> es_window (es @ [e]) lo hi = es_window es lo hi"
  by (simp add: nth_append)

lemma es_append_eq:
  assumes "es_events st @ [store_event (es_next_offset st) e] = xs"
  shows "snd (es_append e st) = \<lparr>es_events = drop (length xs - es_max_entries st) xs,
    es_next_offset = es_next_offset st + 1, es_max_entries = es_max_entries st\<rparr>"
  unfolding assms [symmetric] by (cases st) (simp add: es_append_def Let_def)

lemma es_run_contents:
  "es_run n es = \<lparr>es_events = es_window es (length es - n) (length es),
     es_next_offset = of_nat (length es), es_max_entries = n\<rparr>"
proof (induction es rule: rev_induct)
  case Nil
  then show ?case by (simp add: es_run_def es_new_def)
next
  case (snoc e es)
  have w: "es_window (es @ [e]) (length es - n) (Suc (length es)) =
      es_window es (length es - n) (length es) @ [store_event (of_nat (length es)) e]"
    by (simp add: nth_append)
  have st: "es_events (es_run n es) @ [store_event (es_next_offset (es_run n es)) e] =
      es_window (es @ [e]) (length es - n) (Suc (length es))"
    "es_next_offset (es_run n es) = of_nat (length es)" "es_max_entries (es_run n es) = n"
    using w snoc.IH by (simp_all del: upt_Suc)
  show ?case
    unfolding es_run_snoc es_append_eq [OF st(1)] st(2,3)
    by (cases "n \<le> length es") (simp_all add: drop_map Suc_diff_le del: upt_Suc)
qed

lemma dropWhile_window:
  assumes "length es < 2 ^ 64"
  shows "dropWhile (\<lambda>e. \<not> o' \<le> se_offset e) (es_window es lo (length es)) =
    es_window es (max lo (unat o')) (length es)"
proof (induction "length es - lo" arbitrary: lo)
  case 0
  then show ?case by simp
next
  case (Suc d)
  then have lo: "lo < length es" by simp
  have "o' \<le> of_nat lo \<longleftrightarrow> unat o' \<le> lo"
    using lo assms by (simp add: word_le_nat_alt)
  moreover have "es_window es lo (length es) = store_event (of_nat lo) (es ! lo) # es_window es (Suc lo) (length es)"
    using lo by (simp add: upt_rec [of lo])
  moreover have "d = length es - Suc lo" using Suc by simp
  note Suc(1) [OF this]
  ultimately show ?case
    by (auto simp: store_event_def max_def not_less_eq_eq simp del: upt_Suc dest: le_antisym)
qed

lemma es_scan_run:
  assumes "length es < 2 ^ 64"
  shows "es_scan_from o' limit (es_run n es) =
    take limit (es_window es (max (length es - n) (unat o')) (length es))"
  using dropWhile_window [OF assms] by (simp add: es_scan_from_def es_run_contents)

section \<open>Delivery\<close>

definition eligible :: "'j json_lib \<Rightarrow> event \<Rightarrow> 'j subscription \<Rightarrow> bool" where
  "eligible lib e s \<longleftrightarrow> sb_active s \<and> sub_accepts lib e s"

text \<open>What offering an event to one subscriber does to the channels.\<close>

definition offer :: "'w channel_lib \<Rightarrow> overflow_policy \<Rightarrow> event \<Rightarrow> 'w \<Rightarrow> 'j subscription \<Rightarrow> 'w" where
  "offer chans policy e w s = (case ch_try_send chans (sb_sender s) e w of
       (ChanFull, w') \<Rightarrow> if policy = BlockPublisher then snd (ch_send chans (sb_sender s) e w') else w'
     | (_, w') \<Rightarrow> w')"

definition same_bus :: "('j, 'w) bus \<Rightarrow> ('j, 'w) bus \<Rightarrow> bool" where
  "same_bus b b' \<longleftrightarrow> bus_trie b' = bus_trie b \<and> bus_store b' = bus_store b \<and>
     bus_overflow_policy b' = bus_overflow_policy b \<and> bus_shard_count b' = bus_shard_count b \<and>
     bus_max_payload_size b' = bus_max_payload_size b"

lemma same_bus_refl [simp]: "same_bus b b" by (simp add: same_bus_def)

lemma same_bus_trans: "same_bus a b \<Longrightarrow> same_bus b c \<Longrightarrow> same_bus a c" by (simp add: same_bus_def)

lemma same_bus_count [simp]:
  "same_bus b (count_delivered b') = same_bus b b'" "same_bus b (count_dropped b') = same_bus b b'"
  "same_bus b (count_rejected b') = same_bus b b'" "same_bus b (count_published b') = same_bus b b'"
  "same_bus b (b'\<lparr>bus_world := w\<rparr>) = same_bus b b'" "same_bus b (b'\<lparr>bus_dlq := q\<rparr>) = same_bus b b'"
  "same_bus b (b'\<lparr>bus_counter := c\<rparr>) = same_bus b b'"
  by (simp_all add: same_bus_def count_delivered_def count_dropped_def count_rejected_def count_published_def)

lemma bus_trie_count [simp]:
  "bus_trie (count_delivered b) = bus_trie b" "bus_trie (count_dropped b) = bus_trie b"
  "bus_trie (count_rejected b) = bus_trie b" "bus_trie (count_published b) = bus_trie b"
  by (simp_all add: count_delivered_def count_dropped_def count_rejected_def count_published_def)

lemma bus_world_count [simp]:
  "bus_world (count_delivered b) = bus_world b" "bus_world (count_dropped b) = bus_world b"
  "bus_world (count_rejected b) = bus_world b" "bus_world (count_published b) = bus_world b"
  by (simp_all add: count_delivered_def count_dropped_def count_rejected_def count_published_def)

lemma bus_shard_ok:
  "bus_shard_count b \<noteq> 0 \<Longrightarrow> \<exists>n b'. bus_shard e b = (Ok n, b') \<and> bus_world b' = bus_world b \<and>
     same_bus b b' \<and> bus_metrics b' = bus_metrics b"
  by (auto simp: bus_shard_def split: option.split)

lemma bus_send_ok:
  "bus_overflow_policy b \<noteq> RejectPublisher \<Longrightarrow>
   \<exists>b'. bus_send chans e ts s b = (Ok (), b') \<and>
     bus_world b' = offer chans (bus_overflow_policy b) e (bus_world b) s \<and> same_bus b b'"
  by (cases "bus_overflow_policy b")
    (auto simp: bus_send_def offer_def split: prod.splits send_result.splits bool.splits)

lemma bus_deliver_append:
  "bus_deliver lib chans e ts (xs @ ys) b = sbind (bus_deliver lib chans e ts xs) (\<lambda>_. bus_deliver lib chans e ts ys) b"
  by (induction xs arbitrary: b) (auto simp: sbind_def split: prod.splits outcome.splits)

lemma bus_deliver_ok:
  assumes "bus_overflow_policy b \<noteq> RejectPublisher" and "bus_shard_count b \<noteq> 0"
  shows "\<exists>b'. bus_deliver lib chans e ts subs b = (Ok (), b') \<and>
    bus_world b' = foldl (offer chans (bus_overflow_policy b) e) (bus_world b) (filter (eligible lib e) subs) \<and>
    same_bus b b'"
  using assms
proof (induction subs arbitrary: b)
  case (Cons s subs)
  show ?case
  proof (cases "eligible lib e s")
    case False
    then show ?thesis using Cons by (auto simp: eligible_def)
  next
    case True
    obtain n b1 where b1: "bus_shard e b = (Ok n, b1)" "bus_world b1 = bus_world b" "same_bus b b1"
      using bus_shard_ok [OF Cons.prems(2)] by blast
    then have p1: "bus_overflow_policy b1 = bus_overflow_policy b" "bus_shard_count b1 = bus_shard_count b"
      by (simp_all add: same_bus_def)
    then have "bus_overflow_policy b1 \<noteq> RejectPublisher" using Cons.prems(1) by simp
    from bus_send_ok [OF this, of chans e ts s] obtain b2 where b2: "bus_send chans e ts s b1 = (Ok (), b2)"
      "bus_world b2 = offer chans (bus_overflow_policy b) e (bus_world b) s" "same_bus b1 b2"
      by (auto simp: b1(2) p1(1))
    then have p2: "bus_overflow_policy b2 = bus_overflow_policy b" "bus_shard_count b2 = bus_shard_count b"
      using p1 by (simp_all add: same_bus_def)
    obtain b3 where b3: "bus_deliver lib chans e ts subs b2 = (Ok (), b3)"
      "bus_world b3 = foldl (offer chans (bus_overflow_policy b2) e) (bus_world b2) (filter (eligible lib e) subs)"
      "same_bus b2 b3"
      using Cons.IH [of b2] Cons.prems p2 by auto
    have "bus_deliver lib chans e ts (s # subs) b = (Ok (), b3)"
      using True b1(1) b2(1) b3(1) by (simp add: eligible_def)
    moreover have "same_bus b b3" using b1(3) b2(3) b3(3) same_bus_trans by blast
    ultimately show ?thesis using True b2(2) b3(2) p2(1) by simp
  qed
qed simp

text \<open>The event as it is delivered: the publisher's, with a fresh id, its time and size.\<close>

definition published :: "u64 \<Rightarrow> ('j, 'w) bus \<Rightarrow> event \<Rightarrow> event" where
  "published now b e = stamp_event (fst (event_id_new now (bus_counter b))) (of_nat (length (ev_payload e))) e"

lemma published_type [simp]:
  "em_event_type (ev_metadata (published now b e)) = em_event_type (ev_metadata e)"
  "em_persistent (ev_metadata (published now b e)) = em_persistent (ev_metadata e)"
  by (simp_all add: published_def stamp_event_def)

lemma bus_publish_unfold:
  assumes "2 \<le> length (et_segments (em_event_type (ev_metadata e)))"
    and "of_nat (length (ev_payload e)) \<le> bus_max_payload_size b"
  shows "bus_publish lib chans now e b =
    sbind (bus_deliver lib chans (published now b e) (event_id_timestamp (fst (event_id_new now (bus_counter b))))
        (trie_find (em_event_type (ev_metadata e)) (bus_trie b)))
      (\<lambda>_. \<lambda>b'. (Ok (fst (event_id_new now (bus_counter b))),
         if em_persistent (ev_metadata e) then b'\<lparr>bus_store := snd (es_append (published now b e) (bus_store b'))\<rparr> else b'))
      (count_published (b\<lparr>bus_counter := snd (event_id_new now (bus_counter b))\<rparr>))"
  using assms
  by (auto simp: bus_publish_def Let_def published_def stamp_event_def count_published_def not_less cong: if_cong split: prod.split)

section \<open>Subscriptions of a bus\<close>

fun bus_topic_step :: "('j, 'w) bus \<Rightarrow> 'j topic_op \<Rightarrow> ('j, 'w) bus" where
  "bus_topic_step b (TopicSubscribe s) = snd (bus_subscribe s b)"
| "bus_topic_step b (TopicUnsubscribe i) = snd (bus_unsubscribe i b)"
| "bus_topic_step b (TopicSetActive i a) =
     (if a then snd (bus_resume_subscriber i b) else snd (bus_pause_subscriber i b))"

definition bus_holds :: "('j, 'w) bus \<Rightarrow> 'j subscription multiset \<Rightarrow> bool" where
  "bus_holds b M \<longleftrightarrow> trie_rep (bus_trie b) M \<and> bm_subscriber_count (bus_metrics b) = of_nat (size M)"

lemma bus_topic_step_trie:
  "bus_trie (bus_topic_step b op) = index_op trie_subscribe trie_remove trie_set_active (bus_trie b) op"
  by (cases op) (simp_all add: bus_subscribe_def bus_unsubscribe_def bus_resume_subscriber_def
      bus_pause_subscriber_def Let_def split: prod.split)

lemma size_filter_removed:
  assumes "ids_unique M" and "M = add_mset s M'" and "sb_id s = i"
  shows "filter_mset (\<lambda>s. sb_id s \<noteq> i) M = M'"
proof -
  have "\<forall>x \<in># M'. sb_id x \<noteq> i" using ids_unique_add_D(2) [of s M'] assms by simp
  then show ?thesis using assms(2,3) by (auto simp: filter_mset_eq_conv)
qed

lemma bus_topic_step_count:
  assumes "bus_holds b M" and "ids_unique M"
  shows "bm_subscriber_count (bus_metrics (bus_topic_step b op)) = of_nat (size (topic_spec M op))"
proof (cases op)
  case (TopicUnsubscribe i)
  obtain r t where rem: "trie_remove i (bus_trie b) = (r, t)" by (cases "trie_remove i (bus_trie b)")
  have law: "if r then \<exists>s M'. sb_id s = i \<and> M = add_mset s M' \<and> trie_rep t M'
      else t = bus_trie b \<and> (\<forall>s \<in># M. sb_id s \<noteq> i)"
    using assms(1) rem unfolding bus_holds_def by (intro trie_remove_law) blast+
  show ?thesis
  proof (cases r)
    case True
    then obtain s M' where s: "sb_id s = i" "M = add_mset s M'"
      using law by auto
    then have "filter_mset (\<lambda>s. sb_id s \<noteq> i) M = M'" using size_filter_removed assms(2) by blast
    then show ?thesis
      using assms(1) rem True s(2) by (simp add: TopicUnsubscribe bus_unsubscribe_def bus_holds_def)
  next
    case False
    then have "filter_mset (\<lambda>s. sb_id s \<noteq> i) M = M"
      using law by (auto simp: filter_mset_eq_conv)
    then show ?thesis
      using assms(1) rem False by (simp add: TopicUnsubscribe bus_unsubscribe_def bus_holds_def)
  qed
next
  case (TopicSubscribe s)
  then show ?thesis using assms(1) by (simp add: bus_subscribe_def bus_holds_def)
next
  case (TopicSetActive i a)
  then show ?thesis
    using assms(1) by (simp add: bus_resume_subscriber_def bus_pause_subscriber_def bus_holds_def split: prod.split)
qed

lemma bus_topic_run:
  assumes "bus_holds b M" and "ids_unique M" and "\<forall>op \<in> set ops. topic_op_ok op" and "distinct (topic_ids ops)"
    and "\<forall>s \<in># M. sb_id s \<notin> set (topic_ids ops)"
  shows "bus_holds (foldl bus_topic_step b ops) (foldl topic_spec M ops)"
  using assms
proof (induction ops arbitrary: b M)
  case (Cons op ops)
  have split: "set (topic_ids [op]) \<inter> set (topic_ids ops) = {}" "distinct (topic_ids ops)"
    using Cons.prems(4) unfolding topic_ids_Cons(2) [of op ops] by simp_all
  have old: "\<forall>s \<in># M. sb_id s \<notin> set (topic_ids [op]) \<and> sb_id s \<notin> set (topic_ids ops)"
    using Cons.prems(5) unfolding topic_ids_Cons(1) [of op ops] by simp
  have 1: "bus_holds (bus_topic_step b op) (topic_spec M op)"
    using Cons.prems(1-3) event_trie.step_refines [of "bus_trie b" M op] bus_topic_step_count [of b M op]
    by (simp add: bus_holds_def bus_topic_step_trie)
  have 2: "ids_unique (topic_spec M op)"
    using Cons.prems(2) old by (intro ids_unique_spec) blast+
  have 3: "\<forall>s \<in># topic_spec M op. sb_id s \<notin> set (topic_ids ops)"
    using topic_spec_fresh [OF old split(1)] .
  have 4: "\<forall>op \<in> set ops. topic_op_ok op" using Cons.prems(3) by simp
  show ?case using Cons.IH [OF 1 2 4 split(2) 3] by simp
qed simp

lemma bus_new_holds: "bus_holds (bus_new n p m k c w) {#}"
  using event_trie.rep_empty by (simp add: bus_holds_def bus_new_def)

section \<open>Replay\<close>

lemma replay_to_subs_none:
  "\<forall>s \<in> set subs. \<not> (sb_active s \<and> pattern_matches (sb_topic s) (se_event_type st) \<and>
     sub_accepts lib (replay_event st) s) \<Longrightarrow> replay_to_subs lib chans st subs cur b = (cur, b)"
  by (induction subs) auto

lemma replay_page_none:
  assumes "\<forall>st \<in> set page. \<forall>s \<in> set subs. \<not> (sb_active s \<and> pattern_matches (sb_topic s) (se_event_type st) \<and>
     sub_accepts lib (replay_event st) s)"
    and "\<forall>st \<in> set page. case target of Some t \<Rightarrow> \<not> t < se_timestamp st | None \<Rightarrow> True"
  shows "replay_page lib chans target subs page cur b = (False, cur, b)"
  using assms by (induction page) (auto simp: replay_to_subs_none split: option.splits)

lemma replay_loop_stuck:
  assumes "length (es_scan_from (rc_last_processed_offset cur + 1) REPLAY_LIMIT (bus_store b)) = REPLAY_LIMIT"
    and "\<forall>st \<in> set (es_scan_from (rc_last_processed_offset cur + 1) REPLAY_LIMIT (bus_store b)).
      \<forall>s \<in> set subs. \<not> (sb_active s \<and> pattern_matches (sb_topic s) (se_event_type st) \<and> sub_accepts lib (replay_event st) s)"
    and "\<forall>st \<in> set (es_scan_from (rc_last_processed_offset cur + 1) REPLAY_LIMIT (bus_store b)).
      case target of Some t \<Rightarrow> \<not> t < se_timestamp st | None \<Rightarrow> True"
  shows "replay_loop fuel lib chans target subs cur b = None"
proof (induction fuel)
  case (Suc fuel)
  have "es_scan_from (rc_last_processed_offset cur + 1) REPLAY_LIMIT (bus_store b) \<noteq> []"
    using assms(1) by (auto simp: REPLAY_LIMIT_def)
  then show ?case
    using Suc replay_page_none [OF assms(2,3), of chans cur b] assms(1) by (simp add: Let_def)
qed simp

definition subscriber_subs :: "subscriber_id \<Rightarrow> ('j, 'w) bus \<Rightarrow> 'j subscription list" where
  "subscriber_subs sid b = filter (\<lambda>s. sid_id (sb_subscriber s) = sid_id sid \<and>
     sid_subsystem (sb_subscriber s) = sid_subsystem sid \<and> sid_name (sb_subscriber s) = sid_name sid)
     (trie_collect (bus_trie b))"

lemma bus_replay_subs:
  "bus_replay fuel lib chans sid cur b =
     (if subscriber_subs sid b = [] then Some (Err SubscriberNotFound, b)
      else map_option (\<lambda>(cur, b). (Ok cur, b))
        (replay_loop fuel lib chans (rc_target_timestamp cur) (subscriber_subs sid b) cur b))"
  by (simp add: bus_replay_def subscriber_subs_def)

section \<open>An example bus\<close>

text \<open>Bounded channels: capacity, whether a receiver is left, and what is queued.\<close>

definition bounded_channels :: "(chan \<Rightarrow> nat \<times> bool \<times> event list) channel_lib" where
  "bounded_channels = \<lparr>ch_try_send = (\<lambda>c e w. case w c of (cap, up, q) \<Rightarrow>
       if \<not> up then (ChanDisconnected, w) else if length q < cap then (Sent, w(c := (cap, up, q @ [e])))
       else (ChanFull, w)),
     ch_send = (\<lambda>c e w. case w c of (cap, up, q) \<Rightarrow>
       if up then (True, w(c := (cap, up, tl q @ [e]))) else (False, w))\<rparr>"

definition no_json :: "bytes json_lib" where
  "no_json = \<lparr>js_parse = (\<lambda>_. None), js_get = (\<lambda>_ _. None), js_string = (\<lambda>_. None),
     js_number_ge = (\<lambda>_ _. None), js_regex = (\<lambda>_. None)\<rparr>"

definition example_sid :: subscriber_id where
  "example_sid = \<lparr>sid_id = ''w'', sid_subsystem = SubSystem, sid_name = ''worker''\<rparr>"

definition example_sub :: "uuid \<Rightarrow> chan \<Rightarrow> pattern_segment list \<Rightarrow> bytes subscription" where
  "example_sub i c segs = \<lparr>sb_id = i, sb_subscriber = example_sid,
     sb_topic = \<lparr>tp_segments = segs, tp_canonical = []\<rparr>, sb_content_filter = None,
     sb_delivery_guarantee = AtMostOnce, sb_max_retries = 0, sb_retry_backoff_ms = 0,
     sb_max_backoff_ms = 0, sb_queue_capacity = 1, sb_created_at = 0, sb_active = True,
     sb_consumer_group = None, sb_sender = c\<rparr>"

definition example_event :: "string list \<Rightarrow> bool \<Rightarrow> event" where
  "example_event segs persistent = fst (builder_build 5 0 (builder_persistent persistent
     \<lparr>eb_event_type = \<lparr>et_segments = segs, et_canonical = []\<rparr>, eb_source = None, eb_ordering_key = None,
      eb_ttl_ms = 0, eb_priority = EvNormal, eb_persistent = False, eb_content_type = [],
      eb_schema_version = 1\<rparr>) [42])"

definition example_bus :: "overflow_policy \<Rightarrow> (bytes, chan \<Rightarrow> nat \<times> bool \<times> event list) bus" where
  "example_bus policy = bus_new 1 policy 1024 2000 7 (\<lambda>_. (1, True, []))"

end
