(* ===== verification/Event_Properties.thy ===== *)
theory Event_Properties
  imports Event_Bus
begin

text \<open>
  What the event subsystem guarantees, each with a concrete instance: ids, the set of
  subscriptions, delivery, refusal, the replay log and its replay.
\<close>

lemma example_sub_simps [simp]:
  "sb_id (example_sub i c segs) = i" "sb_topic (example_sub i c segs) = \<lparr>tp_segments = segs, tp_canonical = []\<rparr>"
  "sb_sender (example_sub i c segs) = c" "sb_active (example_sub i c segs)"
  "sb_subscriber (example_sub i c segs) = example_sid" "sb_content_filter (example_sub i c segs) = None"
  by (simp_all add: example_sub_def)

lemma example_event_simps [simp]:
  "em_event_type (ev_metadata (example_event segs p)) = \<lparr>et_segments = segs, et_canonical = []\<rparr>"
  "em_persistent (ev_metadata (example_event segs p)) = p" "ev_payload (example_event segs p) = [42]"
  by (simp_all add: example_event_def builder_build_def builder_persistent_def split: prod.split)

lemma example_bus_simps [simp]:
  "bus_overflow_policy (example_bus policy) = policy" "bus_shard_count (example_bus policy) = 1"
  "bus_max_payload_size (example_bus policy) = 1024" "bus_counter (example_bus policy) = 7"
  "bus_world (example_bus policy) = (\<lambda>_. (1, True, []))" "bus_trie (example_bus policy) = trie_empty"
  by (simp_all add: example_bus_def bus_new_def)

text \<open>Event ids carry their time and do not repeat: the time read out of an id is the clock
  reading it was made from, in 48 bits, and ids made from different counter values differ until the
  counter reaches seven bytes.\<close>

theorem event_ids_unique:
  "event_id_timestamp (fst (event_id_new now c)) = of_nat (unat now mod 2 ^ 48) \<and>
   (unat c < 2 ^ 56 \<and> unat c' < 2 ^ 56 \<and> c \<noteq> c' \<longrightarrow> fst (event_id_new now c) \<noteq> fst (event_id_new now' c'))"
  using event_id_new_timestamp event_id_new_inj by blast

theorem event_ids_unique_witness:
  "fst (event_id_new 1000 3) \<noteq> fst (event_id_new 1000 4)"
  using event_ids_unique [of 1000 3 4 1000] by simp

text \<open>C9: The bus holds the right subscriptions: after any history of subscribing, unsubscribing,
  pausing and resuming with fresh ids and patterns the parser accepts, the subscriptions found for
  an event type are exactly those of the history whose pattern matches it, each once, and the
  subscriber counter is their number.\<close>

theorem bus_subscriptions_exact:
  assumes "\<forall>op \<in> set ops. topic_op_ok op" and "distinct (topic_ids ops)"
  shows "mset (trie_find et (bus_trie (foldl bus_topic_step (bus_new n p m k c w) ops))) =
      filter_mset (\<lambda>s. pattern_matches (sb_topic s) et) (foldl topic_spec {#} ops) \<and>
    bm_subscriber_count (bus_metrics (foldl bus_topic_step (bus_new n p m k c w) ops)) =
      of_nat (size (foldl topic_spec {#} ops))"
proof -
  have "bus_holds (foldl bus_topic_step (bus_new n p m k c w) ops) (foldl topic_spec {#} ops)"
    using assms by (intro bus_topic_run bus_new_holds) simp_all
  then show ?thesis
    unfolding bus_holds_def by (auto intro: event_trie.lookup_exact)
qed

theorem bus_subscriptions_exact_witness:
  "mset (trie_find \<lparr>et_segments = [''a'', ''b''], et_canonical = []\<rparr>
     (bus_trie (foldl bus_topic_step (bus_new 1 DropNewest 9 9 0 ())
       [TopicSubscribe (example_sub 1 0 [PLiteral ''a'', MultiWildcard]),
        TopicSubscribe (example_sub 2 1 [SingleWildcard, PLiteral ''b'']),
        TopicSubscribe (example_sub 3 2 [PLiteral ''a'']), TopicUnsubscribe 2]))) =
   {#example_sub 1 0 [PLiteral ''a'', MultiWildcard]#}"
  using bus_subscriptions_exact [of "[TopicSubscribe (example_sub 1 0 [PLiteral ''a'', MultiWildcard]),
        TopicSubscribe (example_sub 2 1 [SingleWildcard, PLiteral ''b'']),
        TopicSubscribe (example_sub 3 2 [PLiteral ''a'']), TopicUnsubscribe 2]"
      "\<lparr>et_segments = [''a'', ''b''], et_canonical = []\<rparr>" 1 DropNewest 9 9 0 "()"]
  by (simp add: pattern_matches_def)



text \<open>A refused publication is not undone: when the bus refuses publishers on overflow and one
  subscriber's channel is full, publish fails with \<open>BusFull\<close>, but the subscribers before it have got
  the event, those after it have not, and a persistent event is not in the log.\<close>

theorem bus_publish_refused:
  assumes "bus_overflow_policy b = RejectPublisher" and "bus_shard_count b \<noteq> 0"
    and "2 \<le> length (et_segments (em_event_type (ev_metadata e)))"
    and "of_nat (length (ev_payload e)) \<le> bus_max_payload_size b"
    and "trie_find (em_event_type (ev_metadata e)) (bus_trie b) = xs @ s # ys"
    and "eligible lib (published now b e) s"
    and "bus_deliver lib chans (published now b e) (event_id_timestamp (fst (event_id_new now (bus_counter b)))) xs
      (count_published (b\<lparr>bus_counter := snd (event_id_new now (bus_counter b))\<rparr>)) = (Ok (), b1)"
    and "ch_try_send chans (sb_sender s) (published now b e) (bus_world b1) = (ChanFull, w)"
    and "same_bus b b1"
  shows "\<exists>b'. bus_publish lib chans now e b = (Err (BusFull ''subscriber channel at capacity''), b') \<and>
    bus_world b' = w \<and> bus_store b' = bus_store b \<and>
    bm_queue_rejected_total (bus_metrics b') = bm_queue_rejected_total (bus_metrics b1) + 1"
proof -
  let ?e = "published now b e" and ?ts = "event_id_timestamp (fst (event_id_new now (bus_counter b)))"
  have shard1: "bus_shard_count b1 \<noteq> 0" and pol1: "bus_overflow_policy b1 = RejectPublisher"
    using assms(1,2,9) by (simp_all add: same_bus_def)
  obtain n b2 where b2: "bus_shard ?e b1 = (Ok n, b2)" "bus_world b2 = bus_world b1" "same_bus b1 b2"
    "bus_metrics b2 = bus_metrics b1"
    using bus_shard_ok [OF shard1] by blast
  have "bus_send chans ?e ?ts s b2 =
      (Err (BusFull ''subscriber channel at capacity''), count_rejected (b2\<lparr>bus_world := w\<rparr>))"
    using assms(8) b2(2,3) pol1 by (simp add: bus_send_def same_bus_def)
  then have "bus_deliver lib chans ?e ?ts (s # ys) b1 =
      (Err (BusFull ''subscriber channel at capacity''), count_rejected (b2\<lparr>bus_world := w\<rparr>))"
    using assms(6) b2(1) by (simp add: eligible_def)
  then have "bus_publish lib chans now e b =
      (Err (BusFull ''subscriber channel at capacity''), count_rejected (b2\<lparr>bus_world := w\<rparr>))"
    unfolding bus_publish_unfold [OF assms(3,4)] assms(5)
    using bus_deliver_append [of lib chans ?e ?ts xs "s # ys"] assms(7) by simp
  moreover have "bus_store b2 = bus_store b" using assms(9) b2(3) by (simp add: same_bus_def)
  ultimately show ?thesis
    using b2(4) by (intro exI [of _ "count_rejected (b2\<lparr>bus_world := w\<rparr>)"]) (simp add: count_rejected_def)
qed

theorem bus_publish_refused_witness:
  "\<exists>b'. bus_publish no_json bounded_channels 5 (example_event [''a'', ''b''] True)
      ((example_bus RejectPublisher)\<lparr>bus_trie := TrieNode [] None
         (Some (TrieNode [] None None [example_sub 1 4 [MultiWildcard], example_sub 2 4 [MultiWildcard]])) []\<rparr>)
      = (Err (BusFull ''subscriber channel at capacity''), b') \<and>
    length (snd (snd (bus_world b' 4))) = 1 \<and> es_events (bus_store b') = []"
proof -
  let ?s = "\<lambda>i. example_sub i 4 [MultiWildcard]"
  let ?b = "(example_bus RejectPublisher)\<lparr>bus_trie := TrieNode [] None (Some (TrieNode [] None None [?s 1, ?s 2])) []\<rparr>"
  let ?e = "published 5 ?b (example_event [''a'', ''b''] True)"
  let ?c = "count_published (?b\<lparr>bus_counter := snd (event_id_new 5 (bus_counter ?b))\<rparr>)"
  have find: "trie_find \<lparr>et_segments = [''a'', ''b''], et_canonical = []\<rparr> (bus_trie ?b) = [?s 1] @ ?s 2 # []"
    by (simp add: trie_find_def node_subs_def)
  have fields: "bus_shard_count ?c = 1" "bus_world ?c = (\<lambda>_. (1, True, []))" "same_bus ?b ?c"
    by (simp_all add: count_published_def same_bus_def)
  obtain n b2 where b2: "bus_shard ?e ?c = (Ok n, b2)" "bus_world b2 = (\<lambda>_. (1, True, []))" "same_bus ?b b2"
    using bus_shard_ok [of ?c ?e] fields same_bus_trans [OF fields(3)] by (metis one_neq_zero)
  let ?d = "count_delivered (b2\<lparr>bus_world := (\<lambda>_. (1, True, []))(4 := (1, True, [?e]))\<rparr>)"
  have deliver: "bus_deliver no_json bounded_channels ?e ts [?s 1] ?c = (Ok (), ?d)" for ts
    using b2(1,2) by (simp add: sub_accepts_def bus_send_def bounded_channels_def)
  have store: "bus_store ?b = es_new 2000" by (simp add: example_bus_def bus_new_def)
  have "\<exists>b'. bus_publish no_json bounded_channels 5 (example_event [''a'', ''b''] True) ?b =
      (Err (BusFull ''subscriber channel at capacity''), b') \<and>
      bus_world b' = bus_world ?d \<and> bus_store b' = bus_store ?b \<and>
      bm_queue_rejected_total (bus_metrics b') = bm_queue_rejected_total (bus_metrics ?d) + 1"
    using find deliver b2(3)
    by (intro bus_publish_refused [where xs = "[?s 1]" and s = "?s 2" and ys = "[]" and ?b1.0 = ?d])
      (simp_all add: eligible_def sub_accepts_def bounded_channels_def)
  then show ?thesis by (auto simp: store es_new_def)
qed

text \<open>The log is a window: after appending any events to a log of capacity \<open>n\<close>, it holds the last
  \<open>n\<close> of them, a scan from any offset returns those at or after it, in order, under their numbers in
  the sequence, and at most as many as asked for.\<close>

theorem event_log_window:
  assumes "length es < 2 ^ 64"
  shows "length (es_events (es_run n es)) = min n (length es) \<and>
    es_scan_from from limit (es_run n es) =
      take limit (map (\<lambda>i. store_event (of_nat i) (es ! i)) [max (length es - n) (unat from) ..< length es])"
  using es_scan_run [OF assms] by (auto simp: es_run_contents)

theorem event_log_window_witness:
  "es_scan_from 1 5 (es_run 2 [example_event [''a'', ''b''] True, example_event [''c'', ''d''] True,
      example_event [''e'', ''f''] True]) =
   [store_event 1 (example_event [''c'', ''d''] True), store_event 2 (example_event [''e'', ''f''] True)]"
  using event_log_window [of "[example_event [''a'', ''b''] True, example_event [''c'', ''d''] True,
      example_event [''e'', ''f''] True]" 2 1 5]
  by (simp add: upt_rec)

text \<open>The first event is never replayed: a subscriber whose cursor is at its initial offset 0 is
  sent nothing when the log holds one event, because the replay starts after the cursor and the first
  event has offset 0.\<close>

theorem bus_replay_skips_first:
  assumes "bus_store b = es_run n [e]" and "rc_last_processed_offset cur = 0" and "subscriber_subs sid b \<noteq> []"
  shows "bus_replay (Suc fuel) lib chans sid cur b = Some (Ok cur, b)"
proof -
  have "es_scan_from 1 REPLAY_LIMIT (bus_store b) = []"
    using es_scan_run [of "[e]" 1 REPLAY_LIMIT n] by (simp add: assms(1))
  then show ?thesis using assms(2,3) by (simp add: bus_replay_subs)
qed

text \<open>A bus with one subscription, whose log holds the given events.\<close>

definition replay_bus :: "pattern_segment list \<Rightarrow> event list \<Rightarrow> (bytes, chan \<Rightarrow> nat \<times> bool \<times> event list) bus" where
  "replay_bus segs es = (example_bus DropNewest)
     \<lparr>bus_trie := TrieNode [] None (Some (TrieNode [] None None [example_sub 1 4 segs])) [],
      bus_store := es_run 2000 es\<rparr>"

lemma replay_bus_subs: "subscriber_subs example_sid (replay_bus segs es) = [example_sub 1 4 segs]"
  by (simp add: subscriber_subs_def replay_bus_def)

theorem bus_replay_skips_first_witness:
  "bus_replay 1 no_json bounded_channels example_sid
     \<lparr>rc_subscriber_id = ''w'', rc_last_processed_offset = 0, rc_last_processed_timestamp = 0,
      rc_target_timestamp = None\<rparr> (replay_bus [MultiWildcard] [example_event [''a'', ''b''] True]) =
   Some (Ok \<lparr>rc_subscriber_id = ''w'', rc_last_processed_offset = 0, rc_last_processed_timestamp = 0,
      rc_target_timestamp = None\<rparr>, replay_bus [MultiWildcard] [example_event [''a'', ''b''] True])"
  using bus_replay_skips_first [of "replay_bus [MultiWildcard] [example_event [''a'', ''b''] True]" 2000
      "example_event [''a'', ''b''] True" "\<lparr>rc_subscriber_id = ''w'', rc_last_processed_offset = 0,
      rc_last_processed_timestamp = 0, rc_target_timestamp = None\<rparr>" example_sid 0]
  by (simp add: replay_bus_subs) (simp add: replay_bus_def)



end
