(* ===== verification/Queue_Types.thy ===== *)
theory Queue_Types
  imports Storage_Engine
begin

text \<open>
  The data of \<open>nova-queue\<close> (\<open>types.rs\<close>, \<open>error.rs\<close>): messages, queue configurations and
  statistics. Timestamps are signed 64-bit words, compared with \<open>\<le>s\<close>. Clock readings and
  fresh UUIDs are arguments.
\<close>

section \<open>Errors\<close>

datatype queue_error =
    QNotFound string
  | QAlreadyExists string
  | QueueFull string
  | MessageNotFound string
  | InvalidReceiptHandle string
  | MessageExpired string
  | MessageInFlight
  | QueuePaused
  | QInvalidArgument string
  | QInternal string
  | QStorage string
  | QCapacityExceeded string
  | QShuttingDown

definition queue_error_from :: "runtime_error \<Rightarrow> queue_error" where
  "queue_error_from e = QStorage (runtime_error_display e)"

section \<open>Messages\<close>

type_synonym msg_id = "128 word"

datatype message_priority = MPCritical | MPHigh | MPNormal | MPLow

text \<open>Durations are milliseconds.\<close>

fun mp_max_wait :: "message_priority \<Rightarrow> nat" where
  "mp_max_wait MPCritical = 50"
| "mp_max_wait MPHigh = 200"
| "mp_max_wait MPNormal = 1000"
| "mp_max_wait MPLow = 5000"

datatype queue_type = QFifo | QPriority | QDelayed | QDeadLetter

record queue_message =
  qm_id :: msg_id
  qm_queue_name :: string
  qm_body :: bytes
  qm_priority :: message_priority
  qm_delay_until :: "i64 option"
  qm_enqueued_at :: i64
  qm_visible_at :: i64
  qm_visibility_timeout_secs :: u32
  qm_receipt_handle :: "string option"
  qm_attempt_count :: u32
  qm_max_receives :: u32
  qm_ttl_secs :: "u32 option"
  qm_expires_at :: "i64 option"
  qm_deduplication_id :: "string option"
  qm_group_id :: "string option"
  qm_attributes :: "(string \<times> string) list"

definition qm_new :: "i64 \<Rightarrow> msg_id \<Rightarrow> string \<Rightarrow> bytes \<Rightarrow> queue_message" where
  "qm_new now i queue_name body = \<lparr>qm_id = i, qm_queue_name = queue_name, qm_body = body,
     qm_priority = MPNormal, qm_delay_until = None, qm_enqueued_at = now, qm_visible_at = now,
     qm_visibility_timeout_secs = 30, qm_receipt_handle = None, qm_attempt_count = 0,
     qm_max_receives = 3, qm_ttl_secs = Some 86400, qm_expires_at = Some (now + 86400000),
     qm_deduplication_id = None, qm_group_id = None, qm_attributes = []\<rparr>"

definition qm_is_visible :: "queue_message \<Rightarrow> i64 \<Rightarrow> bool" where
  "qm_is_visible msg now \<longleftrightarrow> qm_visible_at msg \<le>s now \<and>
     (case qm_expires_at msg of Some e \<Rightarrow> now <s e | None \<Rightarrow> True)"

definition qm_has_expired :: "queue_message \<Rightarrow> i64 \<Rightarrow> bool" where
  "qm_has_expired msg now \<longleftrightarrow> (case qm_expires_at msg of Some e \<Rightarrow> e \<le>s now | None \<Rightarrow> False)"

text \<open>The receipt handle is the text of a fresh UUID.\<close>

definition qm_mark_received :: "string \<Rightarrow> i64 \<Rightarrow> queue_message \<Rightarrow> queue_message" where
  "qm_mark_received fresh now msg = msg\<lparr>qm_attempt_count := qm_attempt_count msg + 1,
     qm_receipt_handle := Some fresh,
     qm_visible_at := now + ucast (qm_visibility_timeout_secs msg) * 1000\<rparr>"

section \<open>Queues\<close>

record consumer_group =
  cg_name :: string
  cg_queue_name :: string
  cg_max_concurrent :: u32
  cg_created_at :: i64

record queue_config =
  qc_name :: string
  qc_queue_type :: queue_type
  qc_max_size :: nat
  qc_max_message_size :: nat
  qc_default_visibility_timeout_secs :: u32
  qc_message_ttl_secs :: u32
  qc_delivery_delay_secs :: u32
  qc_receive_message_wait_secs :: u32
  qc_max_receive_count :: u32
  qc_dlq_name :: "string option"
  qc_dlq_max_entries :: nat
  qc_dlq_max_retries :: u32
  qc_created_at :: i64
  qc_updated_at :: i64
  qc_paused :: bool
  qc_consumer_groups :: "consumer_group list"

definition queue_config_new :: "i64 \<Rightarrow> string \<Rightarrow> queue_config" where
  "queue_config_new now name = \<lparr>qc_name = name, qc_queue_type = QFifo, qc_max_size = 10000,
     qc_max_message_size = 262144, qc_default_visibility_timeout_secs = 30,
     qc_message_ttl_secs = 86400, qc_delivery_delay_secs = 0, qc_receive_message_wait_secs = 0,
     qc_max_receive_count = 3, qc_dlq_name = None, qc_dlq_max_entries = 100000,
     qc_dlq_max_retries = 3, qc_created_at = now, qc_updated_at = now, qc_paused = False,
     qc_consumer_groups = []\<rparr>"

record queue_stats =
  qs_available_messages :: u64
  qs_in_flight_messages :: u64
  qs_delayed_messages :: u64
  qs_total_messages :: u64
  qs_dlq_messages :: u64
  qs_messages_enqueued :: u64
  qs_messages_dequeued :: u64
  qs_messages_acked :: u64
  qs_messages_expired :: u64
  qs_messages_dlq :: u64
  qs_bytes_total :: u64

definition queue_stats_default :: queue_stats where
  "queue_stats_default = \<lparr>qs_available_messages = 0, qs_in_flight_messages = 0,
     qs_delayed_messages = 0, qs_total_messages = 0, qs_dlq_messages = 0, qs_messages_enqueued = 0,
     qs_messages_dequeued = 0, qs_messages_acked = 0, qs_messages_expired = 0, qs_messages_dlq = 0,
     qs_bytes_total = 0\<rparr>"

record queue_summary =
  qy_name :: string
  qy_queue_type :: queue_type
  qy_available :: u64
  qy_in_flight :: u64
  qy_delayed :: u64
  qy_total :: u64
  qy_paused :: bool

lemma qm_mark_received_simps [simp]:
  "qm_id (qm_mark_received f now msg) = qm_id msg" "qm_body (qm_mark_received f now msg) = qm_body msg"
  "qm_attempt_count (qm_mark_received f now msg) = qm_attempt_count msg + 1"
  "qm_receipt_handle (qm_mark_received f now msg) = Some f"
  by (simp_all add: qm_mark_received_def)

lemma qm_visible_not_expired: "qm_is_visible msg now \<Longrightarrow> \<not> qm_has_expired msg now"
  by (auto simp: qm_is_visible_def qm_has_expired_def word_sle_eq word_sless_alt split: option.splits)

end
