(* ===== verification/Queue_Backend.thy ===== *)
theory Queue_Backend
  imports Queue_Types Event_Types
begin

text \<open>
  \<open>StorageQueueBackend\<close> (\<open>nova-queue/src/backend.rs\<close>), the manager and one pass of the
  scanner: queues kept in a storage engine under the prefixes \<open>queue:meta:\<close>, \<open>queue:msg:\<close>,
  \<open>queue:available:\<close>, \<open>queue:inflight:\<close>, \<open>queue:delayed:\<close> and \<open>queue:dlq:\<close>. The engine is an argument,
  as the code holds an \<open>Arc<dyn StorageEngine>\<close>. The JSON encoding and the text form of UUIDs come
  from other crates: the record \<open>queue_codec\<close>.
\<close>

section \<open>Keys\<close>

record queue_codec =
  cq_enc_msg :: "queue_message \<Rightarrow> bytes"
  cq_dec_msg :: "bytes \<Rightarrow> queue_message option"
  cq_enc_cfg :: "queue_config \<Rightarrow> bytes"
  cq_dec_cfg :: "bytes \<Rightarrow> queue_config option"
  cq_json_error :: "bytes \<Rightarrow> string"
  cq_uuid_str :: "msg_id \<Rightarrow> string"
  cq_uuid_parse :: "string \<Rightarrow> msg_id option"

definition queue_meta_key :: "string \<Rightarrow> key" where
  "queue_meta_key name = string_bytes (''queue:meta:'' @ name)"

definition queue_msg_key :: "queue_codec \<Rightarrow> string \<Rightarrow> msg_id \<Rightarrow> key" where
  "queue_msg_key cq q i = string_bytes (''queue:msg:'' @ q @ '':'' @ cq_uuid_str cq i)"

definition queue_available_key :: "queue_codec \<Rightarrow> string \<Rightarrow> msg_id \<Rightarrow> key" where
  "queue_available_key cq q i = string_bytes (''queue:available:'' @ q @ '':'' @ cq_uuid_str cq i)"

definition queue_inflight_key :: "queue_codec \<Rightarrow> string \<Rightarrow> msg_id \<Rightarrow> key" where
  "queue_inflight_key cq q i = string_bytes (''queue:inflight:'' @ q @ '':'' @ cq_uuid_str cq i)"

definition queue_delayed_key :: "queue_codec \<Rightarrow> string \<Rightarrow> msg_id \<Rightarrow> key" where
  "queue_delayed_key cq q i = string_bytes (''queue:delayed:'' @ q @ '':'' @ cq_uuid_str cq i)"

definition queue_dlq_key :: "queue_codec \<Rightarrow> string \<Rightarrow> msg_id \<Rightarrow> key" where
  "queue_dlq_key cq q i = string_bytes (''queue:dlq:'' @ q @ '':'' @ cq_uuid_str cq i)"

definition queue_stats_key :: "string \<Rightarrow> key" where
  "queue_stats_key name = string_bytes (''queue:stats:'' @ name)"

text \<open>The message id in an index key: what follows the third colon.\<close>

fun join_with :: "string \<Rightarrow> string list \<Rightarrow> string" where
  "join_with sep [] = []"
| "join_with sep [p] = p"
| "join_with sep (p # ps) = p @ sep @ join_with sep ps"

definition key_msg_id :: "queue_codec \<Rightarrow> key \<Rightarrow> msg_id option" where
  "key_msg_id cq k =
     (let parts = split_on (CHR '':'') (bytes_string k) in
      if length parts < 4 then None else cq_uuid_parse cq (join_with '':'' (drop 3 parts)))"

section \<open>Engine calls\<close>

type_synonym ('s, 'a) queue_op = "('s, queue_error, 'a) stm"

definition via_engine :: "('s, runtime_error, 'a) stm \<Rightarrow> ('s, 'a) queue_op" where
  "via_engine m = (\<lambda>s. case m s of
       (Ok x, s') \<Rightarrow> (Ok x, s')
     | (Err e, s') \<Rightarrow> (Err (queue_error_from e), s')
     | (Panic, s') \<Rightarrow> (Panic, s')
     | (Deadlock, s') \<Rightarrow> (Deadlock, s'))"

definition scan_prefix :: "('s, runtime_error) engine \<Rightarrow> key \<Rightarrow> ('s, (key \<times> val) list) queue_op" where
  "scan_prefix E p = via_engine (eng_scan E p (p @ [0xFF]))"

definition delete_prefix :: "('s, runtime_error) engine \<Rightarrow> key \<Rightarrow> ('s, unit) queue_op" where
  "delete_prefix E p =
     sbind (scan_prefix E p) (\<lambda>es.
     let ops = map (\<lambda>(k, _). WDelete k) es in
     if ops \<noteq> [] then via_engine (eng_batch E ops) else sret ())"

fun delete_prefixes :: "('s, runtime_error) engine \<Rightarrow> key list \<Rightarrow> ('s, unit) queue_op" where
  "delete_prefixes E [] = sret ()"
| "delete_prefixes E (p # ps) = sbind (delete_prefix E p) (\<lambda>_. delete_prefixes E ps)"

definition index_prefixes :: "string \<Rightarrow> key list" where
  "index_prefixes q = map (\<lambda>p. string_bytes (p @ q @ '':''))
     [''queue:available:'', ''queue:inflight:'', ''queue:delayed:'', ''queue:dlq:'']"

section \<open>Queues\<close>

definition create_queue :: "('s, runtime_error) engine \<Rightarrow> queue_codec \<Rightarrow> queue_config \<Rightarrow> ('s, unit) queue_op" where
  "create_queue E cq config =
     sbind (via_engine (eng_get E (queue_meta_key (qc_name config)))) (\<lambda>d.
     if d \<noteq> None then slift (Err (QAlreadyExists (qc_name config)))
     else via_engine (eng_set E (queue_meta_key (qc_name config)) (cq_enc_cfg cq config)))"

definition delete_queue :: "('s, runtime_error) engine \<Rightarrow> string \<Rightarrow> ('s, unit) queue_op" where
  "delete_queue E name =
     sbind (via_engine (eng_get E (queue_meta_key name))) (\<lambda>d.
     if d = None then slift (Err (QNotFound name))
     else sbind (via_engine (eng_delete E (queue_meta_key name))) (\<lambda>_.
       sbind (delete_prefix E (string_bytes (''queue:msg:'' @ name @ '':''))) (\<lambda>_.
       sbind (delete_prefixes E (index_prefixes name)) (\<lambda>_.
       sbind (via_engine (eng_delete E (queue_stats_key name))) (\<lambda>_. sret ())))))"

definition get_queue :: "('s, runtime_error) engine \<Rightarrow> queue_codec \<Rightarrow> string \<Rightarrow> ('s, queue_config) queue_op" where
  "get_queue E cq name =
     sbind (via_engine (eng_get E (queue_meta_key name))) (\<lambda>d.
     case d of None \<Rightarrow> slift (Err (QNotFound name))
     | Some data \<Rightarrow> (case cq_dec_cfg cq data of
         Some c \<Rightarrow> sret c | None \<Rightarrow> slift (Err (QInternal (cq_json_error cq data)))))"

definition update_queue :: "('s, runtime_error) engine \<Rightarrow> queue_codec \<Rightarrow> queue_config \<Rightarrow> ('s, unit) queue_op" where
  "update_queue E cq config =
     sbind (via_engine (eng_get E (queue_meta_key (qc_name config)))) (\<lambda>d.
     if d = None then slift (Err (QNotFound (qc_name config)))
     else via_engine (eng_set E (queue_meta_key (qc_name config)) (cq_enc_cfg cq config)))"

definition queue_stats_op :: "('s, runtime_error) engine \<Rightarrow> string \<Rightarrow> ('s, queue_stats) queue_op" where
  "queue_stats_op E q =
     sbind (scan_prefix E (string_bytes (''queue:available:'' @ q @ '':''))) (\<lambda>available.
     sbind (scan_prefix E (string_bytes (''queue:inflight:'' @ q @ '':''))) (\<lambda>in_flight.
     sbind (scan_prefix E (string_bytes (''queue:delayed:'' @ q @ '':''))) (\<lambda>delayed.
     sbind (scan_prefix E (string_bytes (''queue:dlq:'' @ q @ '':''))) (\<lambda>dlq.
     sbind (scan_prefix E (string_bytes (''queue:msg:'' @ q @ '':''))) (\<lambda>total.
     sret (queue_stats_default\<lparr>qs_available_messages := of_nat (length available),
       qs_in_flight_messages := of_nat (length in_flight),
       qs_delayed_messages := of_nat (length delayed),
       qs_total_messages := of_nat (length total),
       qs_dlq_messages := of_nat (length dlq)\<rparr>))))))"

text \<open>\<open>stats(...).unwrap_or_default()\<close>.\<close>

definition stats_or_default :: "('s, runtime_error) engine \<Rightarrow> string \<Rightarrow> ('s, queue_stats) queue_op" where
  "stats_or_default E q = (\<lambda>s. case queue_stats_op E q s of
     (Err _, s') \<Rightarrow> (Ok queue_stats_default, s') | r \<Rightarrow> r)"

fun summarise :: "('s, runtime_error) engine \<Rightarrow> queue_codec \<Rightarrow> (key \<times> val) list \<Rightarrow> ('s, queue_summary list) queue_op" where
  "summarise E cq [] = sret []"
| "summarise E cq ((_, v) # es) =
     (case cq_dec_cfg cq v of
        None \<Rightarrow> summarise E cq es
      | Some cfg \<Rightarrow>
          sbind (stats_or_default E (qc_name cfg)) (\<lambda>st.
          sbind (summarise E cq es) (\<lambda>rest.
          sret (\<lparr>qy_name = qc_name cfg, qy_queue_type = qc_queue_type cfg,
            qy_available = qs_available_messages st, qy_in_flight = qs_in_flight_messages st,
            qy_delayed = qs_delayed_messages st, qy_total = qs_total_messages st,
            qy_paused = qc_paused cfg\<rparr> # rest))))"

definition list_queues :: "('s, runtime_error) engine \<Rightarrow> queue_codec \<Rightarrow> ('s, queue_summary list) queue_op" where
  "list_queues E cq = sbind (scan_prefix E (string_bytes ''queue:meta:'')) (summarise E cq)"

definition queue_set_paused :: "('s, runtime_error) engine \<Rightarrow> queue_codec \<Rightarrow> i64 \<Rightarrow> bool \<Rightarrow> string \<Rightarrow> ('s, unit) queue_op" where
  "queue_set_paused E cq now paused q =
     sbind (get_queue E cq q) (\<lambda>config.
     update_queue E cq (config\<lparr>qc_paused := paused, qc_updated_at := now\<rparr>))"

section \<open>Messages\<close>

definition queue_enqueue :: "('s, runtime_error) engine \<Rightarrow> queue_codec \<Rightarrow> i64 \<Rightarrow> queue_message \<Rightarrow> ('s, unit) queue_op" where
  "queue_enqueue E cq now msg =
     sbind (get_queue E cq (qm_queue_name msg)) (\<lambda>config.
     if qc_paused config then slift (Err QueuePaused)
     else sbind (via_engine (eng_set E (queue_msg_key cq (qm_queue_name msg) (qm_id msg)) (cq_enc_msg cq msg))) (\<lambda>_.
       if (case qm_delay_until msg of Some t \<Rightarrow> now <s t | None \<Rightarrow> False)
       then via_engine (eng_set E (queue_delayed_key cq (qm_queue_name msg) (qm_id msg)) [])
       else via_engine (eng_set E (queue_available_key cq (qm_queue_name msg) (qm_id msg)) [])))"

text \<open>Every message of a batch is tried; the results are returned in order.\<close>

fun queue_enqueue_batch :: "('s, runtime_error) engine \<Rightarrow> queue_codec \<Rightarrow> i64 \<Rightarrow> queue_message list \<Rightarrow>
    ('s, (queue_error, unit) outcome list) queue_op" where
  "queue_enqueue_batch E cq now [] = sret []"
| "queue_enqueue_batch E cq now (msg # msgs) = (\<lambda>s. case queue_enqueue E cq now msg s of
     (Panic, s') \<Rightarrow> (Panic, s')
   | (Deadlock, s') \<Rightarrow> (Deadlock, s')
   | (r, s') \<Rightarrow> sbind (queue_enqueue_batch E cq now msgs) (\<lambda>rs. sret (r # rs)) s')"

text \<open>One index key of a dequeue: the message it gives, if it gives one.\<close>

definition dequeue_key :: "('s, runtime_error) engine \<Rightarrow> queue_codec \<Rightarrow> i64 \<Rightarrow> string \<Rightarrow> string \<Rightarrow> key \<Rightarrow>
    ('s, queue_message option) queue_op" where
  "dequeue_key E cq now fresh q k =
     (case key_msg_id cq k of
        None \<Rightarrow> sret None
      | Some i \<Rightarrow>
          sbind (via_engine (eng_get E (queue_msg_key cq q i))) (\<lambda>d.
          case Option.bind d (cq_dec_msg cq) of
            None \<Rightarrow> sret None
          | Some msg \<Rightarrow>
              if qm_is_visible msg now \<and> \<not> qm_has_expired msg now
              then let msg' = qm_mark_received fresh now msg in
                sbind (via_engine (eng_set E (queue_msg_key cq q i) (cq_enc_msg cq msg'))) (\<lambda>_.
                sbind (via_engine (eng_delete E k)) (\<lambda>_.
                sbind (via_engine (eng_set E (queue_inflight_key cq q i) [])) (\<lambda>_.
                sret (Some msg'))))
              else sret None))"

fun dequeue_keys :: "('s, runtime_error) engine \<Rightarrow> queue_codec \<Rightarrow> i64 \<Rightarrow> string list \<Rightarrow> string \<Rightarrow> key list \<Rightarrow>
    ('s, queue_message list) queue_op" where
  "dequeue_keys E cq now fresh q [] = sret []"
| "dequeue_keys E cq now fresh q (k # ks) =
     sbind (dequeue_key E cq now (hd fresh) q k) (\<lambda>m. case m of
       None \<Rightarrow> dequeue_keys E cq now fresh q ks
     | Some msg \<Rightarrow> sbind (dequeue_keys E cq now (tl fresh) q ks) (\<lambda>ms. sret (msg # ms)))"

text \<open>\<open>fresh\<close>: the UUIDs that \<open>mark_received\<close> draws, as text, in the order it draws them.\<close>

definition queue_dequeue :: "('s, runtime_error) engine \<Rightarrow> queue_codec \<Rightarrow> i64 \<Rightarrow> string list \<Rightarrow> string \<Rightarrow> u32 \<Rightarrow>
    ('s, queue_message list) queue_op" where
  "queue_dequeue E cq now fresh q max_messages =
     sbind (get_queue E cq q) (\<lambda>config.
     if qc_paused config then slift (Err QueuePaused)
     else sbind (scan_prefix E (string_bytes (''queue:available:'' @ q @ '':''))) (\<lambda>es.
       dequeue_keys E cq now fresh q (map fst (take (unat max_messages) es))))"

definition queue_ack :: "('s, runtime_error) engine \<Rightarrow> queue_codec \<Rightarrow> string \<Rightarrow> string \<Rightarrow> ('s, unit) queue_op" where
  "queue_ack E cq q receipt_handle =
     (case cq_uuid_parse cq receipt_handle of
        None \<Rightarrow> slift (Err (InvalidReceiptHandle receipt_handle))
      | Some i \<Rightarrow>
          sbind (via_engine (eng_get E (queue_msg_key cq q i))) (\<lambda>d.
          if d = None then slift (Err (MessageNotFound (cq_uuid_str cq i)))
          else sbind (via_engine (eng_delete E (queue_msg_key cq q i))) (\<lambda>_.
            sbind (via_engine (eng_delete E (queue_inflight_key cq q i))) (\<lambda>_. sret ()))))"

definition queue_nack :: "('s, runtime_error) engine \<Rightarrow> queue_codec \<Rightarrow> i64 \<Rightarrow> string \<Rightarrow> string \<Rightarrow> ('s, unit) queue_op" where
  "queue_nack E cq now q receipt_handle =
     (case cq_uuid_parse cq receipt_handle of
        None \<Rightarrow> slift (Err (InvalidReceiptHandle receipt_handle))
      | Some i \<Rightarrow>
          sbind (via_engine (eng_get E (queue_msg_key cq q i))) (\<lambda>d.
          case d of None \<Rightarrow> slift (Err (MessageNotFound (cq_uuid_str cq i)))
          | Some data \<Rightarrow> (case cq_dec_msg cq data of
              None \<Rightarrow> slift (Err (QInternal (cq_json_error cq data)))
            | Some msg \<Rightarrow>
                sbind (via_engine (eng_set E (queue_msg_key cq q i)
                  (cq_enc_msg cq (msg\<lparr>qm_visible_at := now, qm_receipt_handle := None\<rparr>)))) (\<lambda>_.
                sbind (via_engine (eng_delete E (queue_inflight_key cq q i))) (\<lambda>_.
                via_engine (eng_set E (queue_available_key cq q i) []))))))"

definition queue_peek :: "('s, runtime_error) engine \<Rightarrow> queue_codec \<Rightarrow> string \<Rightarrow> u32 \<Rightarrow> ('s, queue_message list) queue_op" where
  "queue_peek E cq q max_messages =
     sbind (scan_prefix E (string_bytes (''queue:msg:'' @ q @ '':''))) (\<lambda>es.
     sret (List.map_filter (\<lambda>(_, v). cq_dec_msg cq v) (take (unat max_messages) es)))"

definition queue_purge :: "('s, runtime_error) engine \<Rightarrow> string \<Rightarrow> ('s, unit) queue_op" where
  "queue_purge E q =
     sbind (delete_prefix E (string_bytes (''queue:msg:'' @ q @ '':''))) (\<lambda>_.
     delete_prefixes E (index_prefixes q))"

section \<open>Background passes\<close>

definition release_key :: "('s, runtime_error) engine \<Rightarrow> queue_codec \<Rightarrow> i64 \<Rightarrow> string \<Rightarrow> key \<Rightarrow> ('s, u64) queue_op" where
  "release_key E cq now q k =
     (case key_msg_id cq k of
        None \<Rightarrow> sret 0
      | Some i \<Rightarrow>
          sbind (via_engine (eng_get E (queue_msg_key cq q i))) (\<lambda>d.
          case Option.bind d (cq_dec_msg cq) of
            None \<Rightarrow> sret 0
          | Some msg \<Rightarrow>
              if qm_visible_at msg \<le>s now \<and> \<not> qm_has_expired msg now
              then sbind (via_engine (eng_delete E k)) (\<lambda>_.
                sbind (via_engine (eng_set E (queue_available_key cq q i) [])) (\<lambda>_. sret 1))
              else sret 0))"

fun over_keys :: "(key \<Rightarrow> ('s, u64) queue_op) \<Rightarrow> key list \<Rightarrow> ('s, u64) queue_op" where
  "over_keys f [] = sret 0"
| "over_keys f (k # ks) = sbind (f k) (\<lambda>a. sbind (over_keys f ks) (\<lambda>b. sret (a + b)))"

definition release_expired_messages :: "('s, runtime_error) engine \<Rightarrow> queue_codec \<Rightarrow> i64 \<Rightarrow> string \<Rightarrow> ('s, u64) queue_op" where
  "release_expired_messages E cq now q =
     sbind (scan_prefix E (string_bytes (''queue:inflight:'' @ q @ '':''))) (\<lambda>es.
     over_keys (release_key E cq now q) (map fst es))"

definition dlq_key_move :: "('s, runtime_error) engine \<Rightarrow> queue_codec \<Rightarrow> i64 \<Rightarrow> string \<Rightarrow> string \<Rightarrow> key \<Rightarrow> ('s, u64) queue_op" where
  "dlq_key_move E cq now dlq q k =
     (case key_msg_id cq k of
        None \<Rightarrow> sret 0
      | Some i \<Rightarrow>
          sbind (via_engine (eng_get E (queue_msg_key cq q i))) (\<lambda>d.
          case Option.bind d (cq_dec_msg cq) of
            None \<Rightarrow> sret 0
          | Some msg \<Rightarrow>
              if qm_max_receives msg \<le> qm_attempt_count msg \<and> qm_visible_at msg \<le>s now
              then let msg' = msg\<lparr>qm_queue_name := dlq, qm_receipt_handle := None, qm_attempt_count := 0,
                      qm_enqueued_at := now, qm_visible_at := now\<rparr> in
                sbind (via_engine (eng_set E (queue_msg_key cq dlq i) (cq_enc_msg cq msg'))) (\<lambda>_.
                sbind (via_engine (eng_set E (queue_dlq_key cq dlq i) [])) (\<lambda>_.
                sbind (via_engine (eng_delete E (queue_msg_key cq q i))) (\<lambda>_.
                sbind (via_engine (eng_delete E k)) (\<lambda>_. sret 1))))
              else sret 0))"

definition move_to_dlq :: "('s, runtime_error) engine \<Rightarrow> queue_codec \<Rightarrow> i64 \<Rightarrow> string \<Rightarrow> ('s, u64) queue_op" where
  "move_to_dlq E cq now q =
     sbind (get_queue E cq q) (\<lambda>config.
     case qc_dlq_name config of
       None \<Rightarrow> sret 0
     | Some dlq \<Rightarrow>
         sbind (scan_prefix E (string_bytes (''queue:inflight:'' @ q @ '':''))) (\<lambda>es.
         over_keys (dlq_key_move E cq now dlq q) (map fst es)))"

definition expired_ops :: "queue_codec \<Rightarrow> i64 \<Rightarrow> string \<Rightarrow> key \<times> val \<Rightarrow> write_operation list" where
  "expired_ops cq now q e = (case cq_dec_msg cq (snd e) of
       Some msg \<Rightarrow> if qm_has_expired msg now
         then WDelete (fst e) # map (\<lambda>p. WDelete (p @ string_bytes (cq_uuid_str cq (qm_id msg)))) (index_prefixes q)
         else []
     | None \<Rightarrow> [])"

definition purge_expired_messages :: "('s, runtime_error) engine \<Rightarrow> queue_codec \<Rightarrow> i64 \<Rightarrow> string \<Rightarrow> ('s, u64) queue_op" where
  "purge_expired_messages E cq now q =
     sbind (scan_prefix E (string_bytes (''queue:msg:'' @ q @ '':''))) (\<lambda>es.
     let ops = concat (map (expired_ops cq now q) es);
         purged = of_nat (length (filter (\<lambda>e. expired_ops cq now q e \<noteq> []) es))
     in if ops \<noteq> [] then sbind (via_engine (eng_batch E ops)) (\<lambda>_. sret purged) else sret purged)"

text \<open>The scanner's pass over one queue: errors are logged and the next task runs.\<close>

definition ignoring_errors :: "('s, 'a) queue_op \<Rightarrow> ('s, unit) queue_op" where
  "ignoring_errors m = (\<lambda>s. case m s of
     (Ok _, s') \<Rightarrow> (Ok (), s') | (Err _, s') \<Rightarrow> (Ok (), s') | (Panic, s') \<Rightarrow> (Panic, s') | (Deadlock, s') \<Rightarrow> (Deadlock, s'))"

definition scan_queue :: "('s, runtime_error) engine \<Rightarrow> queue_codec \<Rightarrow> bool \<Rightarrow> i64 \<Rightarrow> string \<Rightarrow> ('s, unit) queue_op" where
  "scan_queue E cq enable_dlq now q =
     sbind (ignoring_errors (release_expired_messages E cq now q)) (\<lambda>_.
     sbind (if enable_dlq then ignoring_errors (move_to_dlq E cq now q) else sret ()) (\<lambda>_.
     ignoring_errors (purge_expired_messages E cq now q)))"

fun scan_queues :: "('s, runtime_error) engine \<Rightarrow> queue_codec \<Rightarrow> bool \<Rightarrow> i64 \<Rightarrow> queue_summary list \<Rightarrow> ('s, unit) queue_op" where
  "scan_queues E cq enable_dlq now [] = sret ()"
| "scan_queues E cq enable_dlq now (y # ys) =
     sbind (scan_queue E cq enable_dlq now (qy_name y)) (\<lambda>_. scan_queues E cq enable_dlq now ys)"

definition scan_all :: "('s, runtime_error) engine \<Rightarrow> queue_codec \<Rightarrow> bool \<Rightarrow> i64 \<Rightarrow> ('s, unit) queue_op" where
  "scan_all E cq enable_dlq now = (\<lambda>s. case list_queues E cq s of
     (Ok ys, s') \<Rightarrow> scan_queues E cq enable_dlq now ys s'
   | (Err _, s') \<Rightarrow> (Ok (), s')
   | (Panic, s') \<Rightarrow> (Panic, s')
   | (Deadlock, s') \<Rightarrow> (Deadlock, s'))"

text \<open>\<open>QueueManager\<close>: the calls that build their argument.\<close>

definition manager_create_queue :: "('s, runtime_error) engine \<Rightarrow> queue_codec \<Rightarrow> i64 \<Rightarrow> string \<Rightarrow> ('s, unit) queue_op" where
  "manager_create_queue E cq now name = create_queue E cq (queue_config_new now name)"

definition manager_enqueue :: "('s, runtime_error) engine \<Rightarrow> queue_codec \<Rightarrow> i64 \<Rightarrow> msg_id \<Rightarrow> string \<Rightarrow> bytes \<Rightarrow> ('s, unit) queue_op" where
  "manager_enqueue E cq now i q body = queue_enqueue E cq now (qm_new now i q body)"

end
