(* ===== verification/Queue_Correct.thy ===== *)
theory Queue_Correct
  imports Queue_Backend
begin

text \<open>
  The queue backend as a client of the storage engine contract: what its operations do to the
  map the engine stands for, proved once from the laws of the contract.
\<close>

section \<open>Splitting keys\<close>

lemma split_on_piece: "c \<notin> set xs \<Longrightarrow> split_on c (xs @ c # ys) = xs # split_on c ys"
  by (induction xs) auto

lemma split_on_single: "c \<notin> set xs \<Longrightarrow> split_on c xs = [xs]"
  by (induction xs) auto

lemma split_on_join: "join_with [c] (split_on c xs) = xs"
proof (induction xs)
  case (Cons x xs)
  obtain p ps where "split_on c xs = p # ps" by (cases "split_on c xs") auto
  with Cons show ?case by (cases ps) auto
qed simp

text \<open>The text of a UUID is read back and has no colon.\<close>

definition uuid_ok :: "queue_codec \<Rightarrow> msg_id \<Rightarrow> bool" where
  "uuid_ok cq i \<longleftrightarrow> cq_uuid_parse cq (cq_uuid_str cq i) = Some i \<and> CHR '':'' \<notin> set (cq_uuid_str cq i) \<and>
     (\<forall>c \<in> set (cq_uuid_str cq i). of_char c < (255 :: nat))"

text \<open>The index families, by the word in their keys.\<close>

definition index_key :: "queue_codec \<Rightarrow> string \<Rightarrow> string \<Rightarrow> msg_id \<Rightarrow> key" where
  "index_key cq kind q i = string_bytes (''queue:'' @ kind @ '':'' @ q @ '':'' @ cq_uuid_str cq i)"

lemma index_key_eqs:
  "queue_msg_key cq q i = index_key cq ''msg'' q i"
  "queue_available_key cq q i = index_key cq ''available'' q i"
  "queue_inflight_key cq q i = index_key cq ''inflight'' q i"
  "queue_delayed_key cq q i = index_key cq ''delayed'' q i"
  "queue_dlq_key cq q i = index_key cq ''dlq'' q i"
  by (simp_all add: index_key_def queue_msg_key_def queue_available_key_def queue_inflight_key_def
      queue_delayed_key_def queue_dlq_key_def)

definition index_prefix :: "string \<Rightarrow> string \<Rightarrow> key" where
  "index_prefix kind q = string_bytes (''queue:'' @ kind @ '':'' @ q @ '':'')"

lemma index_prefix_eqs:
  "string_bytes (''queue:msg:'' @ q @ '':'') = index_prefix ''msg'' q"
  "string_bytes (''queue:available:'' @ q @ '':'') = index_prefix ''available'' q"
  "string_bytes (''queue:inflight:'' @ q @ '':'') = index_prefix ''inflight'' q"
  by (simp_all add: index_prefix_def del: string_bytes_append)

lemma index_key_prefix: "index_key cq kind q i = index_prefix kind q @ string_bytes (cq_uuid_str cq i)"
  unfolding index_key_def index_prefix_def string_bytes_append [symmetric] by simp

lemma key_msg_id_index:
  assumes "uuid_ok cq i" and "CHR '':'' \<notin> set q" and "CHR '':'' \<notin> set kind"
  shows "key_msg_id cq (index_key cq kind q i) = Some i"
proof -
  have "split_on (CHR '':'') (''queue'' @ CHR '':'' # kind @ CHR '':'' # q @ CHR '':'' # cq_uuid_str cq i) =
      [''queue'', kind, q, cq_uuid_str cq i]"
    using assms by (simp only: split_on_piece split_on_single uuid_ok_def) (simp add: split_on_piece split_on_single)
  then have "split_on (CHR '':'') (''queue:'' @ kind @ '':'' @ q @ '':'' @ cq_uuid_str cq i) =
      [''queue'', kind, q, cq_uuid_str cq i]" by simp
  then show ?thesis
    using assms(1) unfolding key_msg_id_def index_key_def bytes_string_inverse Let_def
    by (simp add: uuid_ok_def numeral_3_eq_3)
qed

lemma index_key_inj:
  assumes "uuid_ok cq i" and "uuid_ok cq j" and "CHR '':'' \<notin> set q" and "CHR '':'' \<notin> set kind"
  shows "index_key cq kind q i = index_key cq kind q j \<longleftrightarrow> i = j"
proof
  assume "index_key cq kind q i = index_key cq kind q j"
  from arg_cong [OF this, of "key_msg_id cq"] show "i = j"
    unfolding key_msg_id_index [OF assms(1,3,4)] key_msg_id_index [OF assms(2,3,4)] by simp
qed simp
lemma split_on_kind:
  "CHR '':'' \<notin> set kind \<Longrightarrow> split_on (CHR '':'') (''queue:'' @ kind @ '':'' @ r) = [''queue'', kind] @ split_on (CHR '':'') r"
  using split_on_piece [of "CHR '':''" "''queue''" "kind @ '':'' @ r"] split_on_piece [of "CHR '':''" kind r] by simp

section \<open>Families of keys in a map\<close>

definition in_prefix :: "key \<Rightarrow> key \<Rightarrow> bool" where
  "in_prefix p k \<longleftrightarrow> p \<le> k \<and> k < p @ [0xFF]"

lemma in_prefix_alt: "in_prefix p k \<longleftrightarrow> (\<exists>s. k = p @ s \<and> (s = [] \<or> hd s < 0xFF))"
  unfolding in_prefix_def by (rule prefix_range)

lemma hd_string_bytes:
  assumes "\<forall>c \<in> set s. of_char c < (255 :: nat)"
  shows "string_bytes s = [] \<or> hd (string_bytes s) < 0xFF"
proof (cases s)
  case (Cons c s')
  then have "of_char c < (255 :: nat)" using assms by simp
  then have "(of_nat (of_char c) :: 8 word) < 0xFF" by (simp add: word_less_nat_alt unat_of_nat)
  then show ?thesis by (simp add: Cons string_bytes_def)
qed (simp add: string_bytes_def)

lemma in_prefix_index: "uuid_ok cq i \<Longrightarrow> in_prefix (index_prefix kind q) (index_key cq kind q i)"
  unfolding in_prefix_alt index_key_prefix using hd_string_bytes [of "cq_uuid_str cq i"] by (auto simp: uuid_ok_def)

text \<open>The word that tells the families apart.\<close>

definition key_kind :: "key \<Rightarrow> string" where
  "key_kind k = split_on (CHR '':'') (bytes_string k) ! 1"

lemma bytes_string_append [simp]: "bytes_string (s @ t) = bytes_string s @ bytes_string t"
  by (simp add: bytes_string_def)

lemma key_kind_prefix:
  assumes "CHR '':'' \<notin> set kind"
  shows "key_kind (index_prefix kind q @ s) = kind"
  using split_on_kind [OF assms, of "q @ '':'' @ bytes_string s"]
  unfolding key_kind_def index_prefix_def bytes_string_append bytes_string_inverse by simp

lemma key_kind_index: "CHR '':'' \<notin> set kind \<Longrightarrow> key_kind (index_key cq kind q i) = kind"
  unfolding index_key_prefix by (rule key_kind_prefix)

lemma key_kind_in_prefix: "CHR '':'' \<notin> set kind \<Longrightarrow> in_prefix (index_prefix kind q) k \<Longrightarrow> key_kind k = kind"
  unfolding in_prefix_alt using key_kind_prefix by auto

lemma key_kind_meta: "key_kind (queue_meta_key name) = ''meta''"
  using split_on_kind [of "''meta''" name] by (simp add: key_kind_def queue_meta_key_def)

text \<open>A family of keys that the map does not have.\<close>

definition no_keys :: "(key \<Rightarrow> val option) \<Rightarrow> key \<Rightarrow> bool" where
  "no_keys m p \<longleftrightarrow> (\<forall>k. in_prefix p k \<longrightarrow> m k = None)"

section \<open>The client's view of the contract\<close>

definition writes_fit :: "('s \<Rightarrow> nat) \<Rightarrow> 's \<Rightarrow> write_operation list \<Rightarrow> bool" where
  "writes_fit room s ws \<longleftrightarrow> (\<forall>w \<in> set ws. write_admissible w) \<and> sum_list (map write_cost ws) \<le> room s"

locale engine_client =
  storage_engine rep room "eng_get E" "eng_set E" "eng_delete E" "eng_scan E" "eng_batch E"
  for rep :: "'s \<Rightarrow> (key \<Rightarrow> val option) \<Rightarrow> bool" and room :: "'s \<Rightarrow> nat" and E :: "('s, runtime_error) engine"
begin

lemma via_get: "rep s m \<Longrightarrow> via_engine (eng_get E k) s = (Ok (m k), s)"
  by (simp add: via_engine_def get_law)

lemma via_set:
  assumes "rep s m" and "writes_fit room s (WSet k v # ws)"
  shows "\<exists>s'. via_engine (eng_set E k v) s = (Ok (), s') \<and> rep s' (m(k \<mapsto> v)) \<and> writes_fit room s' ws"
proof -
  obtain s' where "eng_set E k v s = (Ok (), s')" "rep s' (m(k \<mapsto> v))" "room s \<le> room s' + write_cost (WSet k v)"
    using put_law [OF assms(1), of k v] assms(2) by (auto simp: writes_fit_def)
  then show ?thesis
    using assms(2) by (intro exI [of _ s']) (auto simp: via_engine_def writes_fit_def)
qed

lemma via_delete:
  assumes "rep s m" and "writes_fit room s (WDelete k # ws)"
  shows "\<exists>s'. via_engine (eng_delete E k) s = (Ok True, s') \<and> rep s' (m(k := None)) \<and> writes_fit room s' ws"
proof -
  obtain s' where "eng_delete E k s = (Ok True, s')" "rep s' (m(k := None))" "room s \<le> room s' + write_cost (WDelete k)"
    using del_law [OF assms(1), of k] assms(2) by (auto simp: writes_fit_def)
  then show ?thesis
    using assms(2) by (intro exI [of _ s']) (auto simp: via_engine_def writes_fit_def)
qed

lemma scan_prefix_ok:
  assumes "rep s m"
  shows "\<exists>es. scan_prefix E p s = (Ok es, s) \<and> sorted_wrt (<) (map fst es) \<and>
    map_of es = (\<lambda>k. if in_prefix p k then m k else None)"
  using scan_law [OF assms, of p "p @ [0xFF]"] by (auto simp: scan_prefix_def via_engine_def in_prefix_def)

lemma scan_prefix_none: "rep s m \<Longrightarrow> no_keys m p \<Longrightarrow> scan_prefix E p s = (Ok [], s)"
  using scan_prefix_ok [of s m p] by (auto simp: no_keys_def fun_eq_iff map_of_eq_empty_iff [symmetric])

lemma scan_prefix_one:
  assumes "rep s m" and "in_prefix p k" and "m k = Some v" and "\<forall>k'. in_prefix p k' \<and> k' \<noteq> k \<longrightarrow> m k' = None"
  shows "scan_prefix E p s = (Ok [(k, v)], s)"
proof -
  obtain es where es: "scan_prefix E p s = (Ok es, s)" "sorted_wrt (<) (map fst es)"
    "map_of es = (\<lambda>k. if in_prefix p k then m k else None)" using scan_prefix_ok [OF assms(1)] by blast
  have d: "distinct (map fst es)" using es(2) by (simp add: strict_sorted_iff)
  have "(a, b) \<in> set es \<longleftrightarrow> a = k \<and> b = v" for a b
    unfolding map_of_eq_Some_iff [OF d, symmetric] es(3) using assms(2-4) by (cases "a = k") auto
  then have "set es = {(k, v)}" by auto
  then have "es = [(k, v)]"
    using d by (cases es; cases "tl es") auto
  then show ?thesis using es(1) by simp
qed

lemma get_queue_ok:
  "rep s m \<Longrightarrow> m (queue_meta_key q) = Some d \<Longrightarrow> cq_dec_cfg cq d = Some cfg \<Longrightarrow> get_queue E cq q s = (Ok cfg, s)"
  by (simp add: get_queue_def sbind_simps(1) [OF via_get])

end

context engine_client
begin

lemma enqueue_step:
  assumes "rep s m" and "m (queue_meta_key (qm_queue_name msg)) = Some d" and "cq_dec_cfg cq d = Some cfg"
    and "\<not> qc_paused cfg"
    and "writes_fit room s (WSet (queue_msg_key cq (qm_queue_name msg) (qm_id msg)) (cq_enc_msg cq msg) #
      WSet (if (case qm_delay_until msg of Some t \<Rightarrow> now <s t | None \<Rightarrow> False)
        then queue_delayed_key cq (qm_queue_name msg) (qm_id msg)
        else queue_available_key cq (qm_queue_name msg) (qm_id msg)) [] # ws)"
  shows "\<exists>s'. queue_enqueue E cq now msg s = (Ok (), s') \<and> writes_fit room s' ws \<and>
    rep s' (m(queue_msg_key cq (qm_queue_name msg) (qm_id msg) \<mapsto> cq_enc_msg cq msg,
      (if (case qm_delay_until msg of Some t \<Rightarrow> now <s t | None \<Rightarrow> False)
        then queue_delayed_key cq (qm_queue_name msg) (qm_id msg)
        else queue_available_key cq (qm_queue_name msg) (qm_id msg)) \<mapsto> []))"
proof -
  obtain s1 where s1: "via_engine (eng_set E (queue_msg_key cq (qm_queue_name msg) (qm_id msg)) (cq_enc_msg cq msg)) s
      = (Ok (), s1)" "rep s1 (m(queue_msg_key cq (qm_queue_name msg) (qm_id msg) \<mapsto> cq_enc_msg cq msg))"
    "writes_fit room s1 (WSet (if (case qm_delay_until msg of Some t \<Rightarrow> now <s t | None \<Rightarrow> False)
        then queue_delayed_key cq (qm_queue_name msg) (qm_id msg)
        else queue_available_key cq (qm_queue_name msg) (qm_id msg)) [] # ws)"
    using via_set [OF assms(1,5)] by blast
  from via_set [OF s1(2,3)] obtain s2 where s2: "via_engine (eng_set E
      (if (case qm_delay_until msg of Some t \<Rightarrow> now <s t | None \<Rightarrow> False)
        then queue_delayed_key cq (qm_queue_name msg) (qm_id msg)
        else queue_available_key cq (qm_queue_name msg) (qm_id msg)) []) s1 = (Ok (), s2)"
    "rep s2 (m(queue_msg_key cq (qm_queue_name msg) (qm_id msg) \<mapsto> cq_enc_msg cq msg,
      (if (case qm_delay_until msg of Some t \<Rightarrow> now <s t | None \<Rightarrow> False)
        then queue_delayed_key cq (qm_queue_name msg) (qm_id msg)
        else queue_available_key cq (qm_queue_name msg) (qm_id msg)) \<mapsto> []))" "writes_fit room s2 ws"
    by blast
  have "queue_enqueue E cq now msg s = (Ok (), s2)"
    using get_queue_ok [OF assms(1-3)] s1(1) s2(1) assms(4)
    by (simp add: queue_enqueue_def split: if_splits)
  with s2 show ?thesis by blast
qed

lemma dequeue_key_step:
  assumes "rep s m" and "uuid_ok cq i" and "CHR '':'' \<notin> set q"
    and "m (queue_msg_key cq q i) = Some data" and "cq_dec_msg cq data = Some msg" and "qm_is_visible msg now"
    and "writes_fit room s (WSet (queue_msg_key cq q i) (cq_enc_msg cq (qm_mark_received fresh now msg)) #
      WDelete (queue_available_key cq q i) # WSet (queue_inflight_key cq q i) [] # ws)"
  shows "\<exists>s'. dequeue_key E cq now fresh q (queue_available_key cq q i) s = (Ok (Some (qm_mark_received fresh now msg)), s') \<and>
    writes_fit room s' ws \<and>
    rep s' (m(queue_msg_key cq q i \<mapsto> cq_enc_msg cq (qm_mark_received fresh now msg),
      queue_available_key cq q i := None, queue_inflight_key cq q i \<mapsto> []))"
proof -
  obtain s1 where s1: "via_engine (eng_set E (queue_msg_key cq q i) (cq_enc_msg cq (qm_mark_received fresh now msg))) s
      = (Ok (), s1)" "rep s1 (m(queue_msg_key cq q i \<mapsto> cq_enc_msg cq (qm_mark_received fresh now msg)))"
    "writes_fit room s1 (WDelete (queue_available_key cq q i) # WSet (queue_inflight_key cq q i) [] # ws)"
    using via_set [OF assms(1,7)] by blast
  obtain s2 where s2: "via_engine (eng_delete E (queue_available_key cq q i)) s1 = (Ok True, s2)"
    "rep s2 (m(queue_msg_key cq q i \<mapsto> cq_enc_msg cq (qm_mark_received fresh now msg), queue_available_key cq q i := None))"
    "writes_fit room s2 (WSet (queue_inflight_key cq q i) [] # ws)"
    using via_delete [OF s1(2,3)] by blast
  obtain s3 where s3: "via_engine (eng_set E (queue_inflight_key cq q i) []) s2 = (Ok (), s3)"
    "rep s3 (m(queue_msg_key cq q i \<mapsto> cq_enc_msg cq (qm_mark_received fresh now msg),
      queue_available_key cq q i := None, queue_inflight_key cq q i \<mapsto> []))" "writes_fit room s3 ws"
    using via_set [OF s2(2,3)] by blast
  have "key_msg_id cq (queue_available_key cq q i) = Some i"
    unfolding index_key_eqs using assms(2,3) by (intro key_msg_id_index) simp_all
  then have "dequeue_key E cq now fresh q (queue_available_key cq q i) s = (Ok (Some (qm_mark_received fresh now msg)), s3)"
    using via_get [OF assms(1), of "queue_msg_key cq q i"] s1(1) s2(1) s3(1) assms(4-6) qm_visible_not_expired
    by (simp add: dequeue_key_def Let_def)
  with s3 show ?thesis by blast
qed

lemma deliver:
  assumes "rep s m" and "m (queue_meta_key q) = Some d" and "cq_dec_cfg cq d = Some cfg" and "\<not> qc_paused cfg"
    and "qm_queue_name msg = q" and "qm_delay_until msg = None" and "qm_is_visible msg now'"
    and "uuid_ok cq (qm_id msg)" and "CHR '':'' \<notin> set q" and "no_keys m (index_prefix ''available'' q)"
    and "cq_dec_msg cq (cq_enc_msg cq msg) = Some msg" and "0 < n"
    and fit: "writes_fit room s [WSet (queue_msg_key cq q (qm_id msg)) (cq_enc_msg cq msg),
      WSet (queue_available_key cq q (qm_id msg)) [],
      WSet (queue_msg_key cq q (qm_id msg)) (cq_enc_msg cq (qm_mark_received f now' msg)),
      WDelete (queue_available_key cq q (qm_id msg)), WSet (queue_inflight_key cq q (qm_id msg)) []]"
  shows "\<exists>s1 s2. queue_enqueue E cq now msg s = (Ok (), s1) \<and>
    queue_dequeue E cq now' (f # fs) q n s1 = (Ok [qm_mark_received f now' msg], s2) \<and>
    rep s2 (m(queue_msg_key cq q (qm_id msg) \<mapsto> cq_enc_msg cq (qm_mark_received f now' msg),
      queue_inflight_key cq q (qm_id msg) \<mapsto> []))"
proof -
  let ?mk = "queue_msg_key cq q (qm_id msg)" and ?ak = "queue_available_key cq q (qm_id msg)"
    and ?ik = "queue_inflight_key cq q (qm_id msg)" and ?msg = "qm_mark_received f now' msg"
  let ?m1 = "m(?mk \<mapsto> cq_enc_msg cq msg, ?ak \<mapsto> [])"
  note kinds = index_key_eqs key_kind_index
  have ne: "?mk \<noteq> ?ak" "?ik \<noteq> ?ak" "?mk \<noteq> queue_meta_key q" "?ak \<noteq> queue_meta_key q"
    by (auto dest!: arg_cong [of _ _ key_kind] simp: kinds key_kind_meta)
  obtain s1 where s1: "queue_enqueue E cq now msg s = (Ok (), s1)" "rep s1 ?m1"
    "writes_fit room s1 [WSet ?mk (cq_enc_msg cq ?msg), WDelete ?ak, WSet ?ik []]"
    using enqueue_step [OF assms(1), of msg d cq cfg now] assms(2-6) fit by auto
  have "scan_prefix E (index_prefix ''available'' q) s1 = (Ok [(?ak, [])], s1)"
  proof (rule scan_prefix_one [OF s1(2)])
    show "in_prefix (index_prefix ''available'' q) ?ak"
      using in_prefix_index [OF assms(8)] by (simp add: index_key_eqs)
    show "\<forall>k'. in_prefix (index_prefix ''available'' q) k' \<and> k' \<noteq> ?ak \<longrightarrow> ?m1 k' = None"
      using assms(10) key_kind_in_prefix [of "''available''" q ?mk] by (auto simp: no_keys_def kinds)
  qed simp
  moreover have "get_queue E cq q s1 = (Ok cfg, s1)"
    using get_queue_ok [OF s1(2) _ assms(3)] ne(3,4) assms(2) by simp
  moreover obtain s2 where s2: "dequeue_key E cq now' f q ?ak s1 = (Ok (Some ?msg), s2)"
    "rep s2 (?m1(?mk \<mapsto> cq_enc_msg cq ?msg, ?ak := None, ?ik \<mapsto> []))"
    using dequeue_key_step [OF s1(2) assms(8,9) _ assms(11,7) s1(3)] ne(1) by auto
  ultimately have "queue_dequeue E cq now' (f # fs) q n s1 = (Ok [?msg], s2)"
    using assms(4,12) unfolding queue_dequeue_def index_prefix_eqs
    by (simp add: unat_gt_0 take_Cons' word_neq_0_conv)
  moreover have "?m1(?mk \<mapsto> cq_enc_msg cq ?msg, ?ak := None, ?ik \<mapsto> []) = m(?mk \<mapsto> cq_enc_msg cq ?msg, ?ik \<mapsto> [])"
    using ne assms(10) in_prefix_index [OF assms(8), of "''available''" q]
    by (auto simp: fun_eq_iff no_keys_def index_key_eqs)
  ultimately show ?thesis using s1(1) s2(2) by (intro exI conjI) auto
qed

end

section \<open>Acknowledging, delaying, dead-lettering\<close>

context engine_client
begin

lemma ack_absent:
  "rep s m \<Longrightarrow> cq_uuid_parse cq h = Some i \<Longrightarrow> m (queue_msg_key cq q i) = None \<Longrightarrow>
   queue_ack E cq q h s = (Err (MessageNotFound (cq_uuid_str cq i)), s)"
  using via_get [of s m "queue_msg_key cq q i"] by (simp add: queue_ack_def)

lemma nack_absent:
  "rep s m \<Longrightarrow> cq_uuid_parse cq h = Some i \<Longrightarrow> m (queue_msg_key cq q i) = None \<Longrightarrow>
   queue_nack E cq now q h s = (Err (MessageNotFound (cq_uuid_str cq i)), s)"
  using via_get [of s m "queue_msg_key cq q i"] by (simp add: queue_nack_def)

lemma ack_present:
  assumes "rep s m" and "cq_uuid_parse cq h = Some i" and "m (queue_msg_key cq q i) = Some d"
    and "writes_fit room s [WDelete (queue_msg_key cq q i), WDelete (queue_inflight_key cq q i)]"
  shows "\<exists>s'. queue_ack E cq q h s = (Ok (), s') \<and>
    rep s' (m(queue_msg_key cq q i := None, queue_inflight_key cq q i := None))"
proof -
  obtain s1 where s1: "via_engine (eng_delete E (queue_msg_key cq q i)) s = (Ok True, s1)"
    "rep s1 (m(queue_msg_key cq q i := None))" "writes_fit room s1 [WDelete (queue_inflight_key cq q i)]"
    using via_delete [OF assms(1,4)] by blast
  obtain s2 where s2: "via_engine (eng_delete E (queue_inflight_key cq q i)) s1 = (Ok True, s2)"
    "rep s2 (m(queue_msg_key cq q i := None, queue_inflight_key cq q i := None))"
    using via_delete [OF s1(2,3)] by blast
  then show ?thesis
    using via_get [OF assms(1), of "queue_msg_key cq q i"] s1(1) assms(2,3)
    by (intro exI [of _ s2]) (simp add: queue_ack_def)
qed

text \<open>An empty family gives nothing to release and nothing to deliver.\<close>

lemma release_nothing:
  "rep s m \<Longrightarrow> no_keys m (index_prefix ''inflight'' q) \<Longrightarrow> release_expired_messages E cq now q s = (Ok 0, s)"
  unfolding release_expired_messages_def index_prefix_eqs using scan_prefix_none by simp

lemma dequeue_nothing:
  "rep s m \<Longrightarrow> m (queue_meta_key q) = Some d \<Longrightarrow> cq_dec_cfg cq d = Some cfg \<Longrightarrow> \<not> qc_paused cfg \<Longrightarrow>
   no_keys m (index_prefix ''available'' q) \<Longrightarrow> queue_dequeue E cq now fresh q n s = (Ok [], s)"
  unfolding queue_dequeue_def index_prefix_eqs using get_queue_ok scan_prefix_none by simp

lemma delayed_not_delivered:
  assumes "rep s m" and "m (queue_meta_key q) = Some d" and "cq_dec_cfg cq d = Some cfg" and "\<not> qc_paused cfg"
    and "qm_queue_name msg = q" and "qm_delay_until msg = Some t" and "now <s t"
    and "no_keys m (index_prefix ''available'' q)" and "no_keys m (index_prefix ''inflight'' q)"
    and fit: "writes_fit room s [WSet (queue_msg_key cq q (qm_id msg)) (cq_enc_msg cq msg),
      WSet (queue_delayed_key cq q (qm_id msg)) []]"
  shows "\<exists>s'. queue_enqueue E cq now msg s = (Ok (), s') \<and>
    release_expired_messages E cq later q s' = (Ok 0, s') \<and>
    queue_dequeue E cq later fresh q n s' = (Ok [], s')"
proof -
  let ?mk = "queue_msg_key cq q (qm_id msg)" and ?dk = "queue_delayed_key cq q (qm_id msg)"
  let ?m1 = "m(?mk \<mapsto> cq_enc_msg cq msg, ?dk \<mapsto> [])"
  obtain s1 where s1: "queue_enqueue E cq now msg s = (Ok (), s1)" "rep s1 ?m1"
    using enqueue_step [OF assms(1), of msg d cq cfg now "[]"] assms(2-7) fit by auto
  have frame: "?m1 k = m k" if "key_kind k \<notin> {''msg'', ''delayed''}" for k
    using that by (auto simp: index_key_eqs key_kind_index)
  have none: "no_keys ?m1 (index_prefix kind q)" if "no_keys m (index_prefix kind q)"
      "kind \<notin> {''msg'', ''delayed''}" "CHR '':'' \<notin> set kind" for kind
    unfolding no_keys_def using that frame key_kind_in_prefix [OF that(3)] by (metis no_keys_def)
  have "?m1 (queue_meta_key q) = Some d" using frame [of "queue_meta_key q"] assms(2) by (simp add: key_kind_meta)
  then show ?thesis
    using s1 release_nothing [OF s1(2) none [OF assms(9)]] dequeue_nothing [OF s1(2) _ assms(3,4) none [OF assms(8)]]
    by (intro exI [of _ s1]) simp
qed

end

text \<open>The message behind an index key, and the keys a release pass takes back.\<close>

definition msg_behind :: "queue_codec \<Rightarrow> string \<Rightarrow> (key \<Rightarrow> val option) \<Rightarrow> key \<Rightarrow> queue_message option" where
  "msg_behind cq q m k = Option.bind (key_msg_id cq k) (\<lambda>i. Option.bind (m (queue_msg_key cq q i)) (cq_dec_msg cq))"

definition releasable :: "queue_codec \<Rightarrow> i64 \<Rightarrow> string \<Rightarrow> (key \<Rightarrow> val option) \<Rightarrow> key \<Rightarrow> bool" where
  "releasable cq now q m k \<longleftrightarrow> (case msg_behind cq q m k of
     Some msg \<Rightarrow> qm_visible_at msg \<le>s now \<and> \<not> qm_has_expired msg now | None \<Rightarrow> False)"

definition release_writes :: "queue_codec \<Rightarrow> string \<Rightarrow> key \<Rightarrow> write_operation list" where
  "release_writes cq q k = (case key_msg_id cq k of
     Some i \<Rightarrow> [WDelete k, WSet (queue_available_key cq q i) []] | None \<Rightarrow> [])"

lemma msg_behind_cong:
  "(\<And>k. key_kind k = ''msg'' \<Longrightarrow> m' k = m k) \<Longrightarrow> msg_behind cq q m' k = msg_behind cq q m k"
  by (simp add: msg_behind_def index_key_eqs key_kind_index cong: option.case_cong)

lemma writes_fit_append: "writes_fit room s (ws @ ws') \<Longrightarrow> writes_fit room s ws'"
  by (auto simp: writes_fit_def)

context engine_client
begin

lemma release_key_step:
  assumes "rep s m" and "in_prefix (index_prefix ''inflight'' q) k" and "writes_fit room s (release_writes cq q k @ ws)"
  shows "\<exists>n s' m'. release_key E cq now q k s = (Ok n, s') \<and> rep s' m' \<and> writes_fit room s' ws \<and>
    (\<forall>k'. key_kind k' \<noteq> ''inflight'' \<longrightarrow> key_kind k' \<noteq> ''available'' \<longrightarrow> m' k' = m k') \<and>
    (\<forall>k'. key_kind k' = ''inflight'' \<longrightarrow> m' k' = (if k' = k \<and> releasable cq now q m k then None else m k'))"
proof (cases "releasable cq now q m k")
  case False
  have "writes_fit room s ws" using assms(3) by (rule writes_fit_append)
  moreover have "release_key E cq now q k s = (Ok 0, s)"
  proof (cases "key_msg_id cq k")
    case (Some i)
    then show ?thesis
      using False via_get [OF assms(1), of "queue_msg_key cq q i"]
      by (cases "m (queue_msg_key cq q i)"; cases "Option.bind (m (queue_msg_key cq q i)) (cq_dec_msg cq)")
        (auto simp: release_key_def releasable_def msg_behind_def)
  qed (simp add: release_key_def)
  ultimately show ?thesis using False assms(1) by (intro exI [of _ 0] exI [of _ s] exI [of _ m]) simp
next
  case True
  then obtain i d msg where i: "key_msg_id cq k = Some i" "m (queue_msg_key cq q i) = Some d" "cq_dec_msg cq d = Some msg"
    "qm_visible_at msg \<le>s now" "\<not> qm_has_expired msg now"
    by (auto simp: releasable_def msg_behind_def split: option.splits bind_splits)
  obtain s1 where s1: "via_engine (eng_delete E k) s = (Ok True, s1)" "rep s1 (m(k := None))"
    "writes_fit room s1 (WSet (queue_available_key cq q i) [] # ws)"
    using via_delete [OF assms(1)] assms(3) i(1) by (auto simp: release_writes_def)
  obtain s2 where s2: "via_engine (eng_set E (queue_available_key cq q i) []) s1 = (Ok (), s2)"
    "rep s2 (m(k := None, queue_available_key cq q i \<mapsto> []))" "writes_fit room s2 ws"
    using via_set [OF s1(2,3)] by blast
  have "release_key E cq now q k s = (Ok 1, s2)"
    using via_get [OF assms(1), of "queue_msg_key cq q i"] i s1(1) s2(1) by (simp add: release_key_def)
  moreover have "key_kind k = ''inflight''" using key_kind_in_prefix [OF _ assms(2)] by simp
  ultimately show ?thesis
    using s2(2,3) True
    by (intro exI [of _ 1] exI [of _ s2] exI [of _ "m(k := None, queue_available_key cq q i \<mapsto> [])"])
      (auto simp: index_key_eqs key_kind_index)
qed

lemma release_keys:
  assumes "rep s m" and "\<forall>k \<in> set ks. in_prefix (index_prefix ''inflight'' q) k" and "distinct ks"
    and "writes_fit room s (concat (map (release_writes cq q) ks))"
  shows "\<exists>n s' m'. over_keys (release_key E cq now q) ks s = (Ok n, s') \<and> rep s' m' \<and>
    (\<forall>k'. key_kind k' \<noteq> ''inflight'' \<longrightarrow> key_kind k' \<noteq> ''available'' \<longrightarrow> m' k' = m k') \<and>
    (\<forall>k'. key_kind k' = ''inflight'' \<longrightarrow> m' k' = (if k' \<in> set ks \<and> releasable cq now q m k' then None else m k'))"
  using assms
proof (induction ks arbitrary: s m)
  case (Cons k ks)
  obtain n1 s1 m1 where 1: "release_key E cq now q k s = (Ok n1, s1)" "rep s1 m1"
    "writes_fit room s1 (concat (map (release_writes cq q) ks))"
    "\<forall>k'. key_kind k' \<noteq> ''inflight'' \<longrightarrow> key_kind k' \<noteq> ''available'' \<longrightarrow> m1 k' = m k'"
    "\<forall>k'. key_kind k' = ''inflight'' \<longrightarrow> m1 k' = (if k' = k \<and> releasable cq now q m k then None else m k')"
    using release_key_step [OF Cons.prems(1), of q k cq "concat (map (release_writes cq q) ks)" now] Cons.prems(2,4)
    by (simp only: list.map concat.simps list.set ball_simps) blast
  obtain n2 s2 m2 where 2: "over_keys (release_key E cq now q) ks s1 = (Ok n2, s2)" "rep s2 m2"
    "\<forall>k'. key_kind k' \<noteq> ''inflight'' \<longrightarrow> key_kind k' \<noteq> ''available'' \<longrightarrow> m2 k' = m1 k'"
    "\<forall>k'. key_kind k' = ''inflight'' \<longrightarrow> m2 k' = (if k' \<in> set ks \<and> releasable cq now q m1 k' then None else m1 k')"
    using Cons.IH [OF 1(2) _ _ 1(3)] Cons.prems(2,3) by auto
  have "releasable cq now q m1 k' = releasable cq now q m k'" for k'
    using msg_behind_cong [of m1 m cq q k'] 1(4) by (simp add: releasable_def)
  then show ?case
    using 1 2 by (intro exI [of _ "n1 + n2"] exI [of _ s2] exI [of _ m2]) auto
qed auto

lemma dlq_key_nothing:
  assumes "rep s m" and "\<And>msg. msg_behind cq q m k = Some msg \<Longrightarrow> \<not> qm_visible_at msg \<le>s now"
  shows "dlq_key_move E cq now dlq q k s = (Ok 0, s)"
proof (cases "key_msg_id cq k")
  case (Some i)
  then show ?thesis
    using assms(2) via_get [OF assms(1), of "queue_msg_key cq q i"]
    by (cases "Option.bind (m (queue_msg_key cq q i)) (cq_dec_msg cq)") (auto simp: dlq_key_move_def msg_behind_def)
qed (simp add: dlq_key_move_def)

lemma over_keys_nothing: "(\<And>k. k \<in> set ks \<Longrightarrow> f k s = (Ok 0, s)) \<Longrightarrow> over_keys f ks s = (Ok 0, s)"
  by (induction ks) auto

lemma release_starves_dlq:
  assumes "rep s m" and "m (queue_meta_key q) = Some d" and "cq_dec_cfg cq d = Some cfg"
    and "\<And>i d msg. m (queue_msg_key cq q i) = Some d \<Longrightarrow> cq_dec_msg cq d = Some msg \<Longrightarrow> \<not> qm_has_expired msg now"
    and "scan_prefix E (index_prefix ''inflight'' q) s = (Ok es, s)"
    and "writes_fit room s (concat (map (release_writes cq q \<circ> fst) es))"
  shows "\<exists>n s'. release_expired_messages E cq now q s = (Ok n, s') \<and> move_to_dlq E cq now q s' = (Ok 0, s')"
proof -
  have es: "sorted_wrt (<) (map fst es)" "map_of es = (\<lambda>k. if in_prefix (index_prefix ''inflight'' q) k then m k else None)"
    using scan_prefix_ok [OF assms(1), of "index_prefix ''inflight'' q"] assms(5) by auto
  then have ks: "distinct (map fst es)" "\<forall>k \<in> set (map fst es). in_prefix (index_prefix ''inflight'' q) k"
    by (auto simp: strict_sorted_iff dest!: weak_map_of_SomeI split: if_splits)
  obtain n s' m' where 1: "over_keys (release_key E cq now q) (map fst es) s = (Ok n, s')" "rep s' m'"
    "\<forall>k'. key_kind k' \<noteq> ''inflight'' \<longrightarrow> key_kind k' \<noteq> ''available'' \<longrightarrow> m' k' = m k'"
    "\<forall>k'. key_kind k' = ''inflight'' \<longrightarrow> m' k' = (if k' \<in> set (map fst es) \<and> releasable cq now q m k' then None else m k')"
    using release_keys [OF assms(1) ks(2,1), of cq now] assms(6) by auto
  have rel: "release_expired_messages E cq now q s = (Ok n, s')"
    unfolding release_expired_messages_def index_prefix_eqs using assms(5) 1(1) by simp
  have cfg: "get_queue E cq q s' = (Ok cfg, s')"
    using get_queue_ok [OF 1(2) _ assms(3)] 1(3) assms(2) by (simp add: key_kind_meta)
  obtain es' where es': "scan_prefix E (index_prefix ''inflight'' q) s' = (Ok es', s')" "sorted_wrt (<) (map fst es')"
    "map_of es' = (\<lambda>k. if in_prefix (index_prefix ''inflight'' q) k then m' k else None)"
    using scan_prefix_ok [OF 1(2)] by blast
  have "dlq_key_move E cq now dlq q k s' = (Ok 0, s')" if "k \<in> set (map fst es')" for dlq k
  proof (rule dlq_key_nothing [OF 1(2)])
    fix msg assume msg: "msg_behind cq q m' k = Some msg"
    have in': "in_prefix (index_prefix ''inflight'' q) k" "m' k \<noteq> None"
      using that es'(3) by (auto dest!: weak_map_of_SomeI split: if_splits)
    then have kind: "key_kind k = ''inflight''" using key_kind_in_prefix [of "''inflight''"] by simp
    then have "m k \<noteq> None" "\<not> (k \<in> set (map fst es) \<and> releasable cq now q m k)" using 1(4) in'(2) by (auto split: if_splits)
    moreover from this have "map_of es k \<noteq> None" using es(2) in'(1) by simp
    then have "k \<in> set (map fst es)" by (simp add: map_of_eq_None_iff)
    moreover have "msg_behind cq q m k = Some msg" using msg msg_behind_cong [of m' m cq q k] 1(3) by simp
    ultimately show "\<not> qm_visible_at msg \<le>s now"
      using assms(4) by (auto simp: releasable_def msg_behind_def bind_eq_Some_conv)
  qed
  then have "over_keys (dlq_key_move E cq now dlq q) (map fst es') s' = (Ok 0, s')" for dlq
    by (intro over_keys_nothing)
  then have "move_to_dlq E cq now q s' = (Ok 0, s')"
    unfolding move_to_dlq_def index_prefix_eqs using cfg es'(1) by (simp split: option.split)
  with rel show ?thesis by blast
qed

end

end
