(* ===== verification/Queue_Properties.thy ===== *)
theory Queue_Properties
  imports Queue_Correct Store_Properties
begin

text \<open>
  The queues on the store: the client lemmas of \<open>engine_client\<close> rest on the store's own laws, and the
  properties state what the queue operations do through the real engine. The example queue uses a
  codec that keeps the fields a delivery changes.
\<close>

section \<open>The store as the queue's engine\<close>

definition nova_engine :: "codec \<Rightarrow> nat \<Rightarrow> u64 \<Rightarrow> (store, runtime_error) engine" where
  "nova_engine cd fuel now = \<lparr>eng_get = store_get cd fuel, eng_set = store_set cd now,
     eng_delete = store_delete cd now, eng_scan = store_scan cd fuel, eng_batch = engine_batch cd now\<rparr>"

interpretation queue_store: engine_client "store_rep cd" store_room "nova_engine cd fuel now"
  by (simp add: engine_client_def nova_engine_def store_engine.storage_engine_axioms)

section \<open>A concrete queue\<close>

definition example_uuid :: "msg_id \<Rightarrow> string" where
  "example_uuid i = replicate (unat i) (CHR ''x'')"

definition example_message :: queue_message where
  "example_message = qm_new 0 1 ''q'' [7]"

definition example_queue_codec :: queue_codec where
  "example_queue_codec = \<lparr>
     cq_enc_msg = (\<lambda>m. ucast (qm_attempt_count m) # ucast (qm_max_receives m) # le_word (qm_visible_at m)),
     cq_dec_msg = (\<lambda>bs. Some (example_message\<lparr>qm_attempt_count := ucast (bs ! 0), qm_max_receives := ucast (bs ! 1),
        qm_visible_at := word_le (drop 2 bs)\<rparr>)),
     cq_enc_cfg = (\<lambda>_. [0]),
     cq_dec_cfg = (\<lambda>_. Some ((queue_config_new 0 ''q'')\<lparr>qc_dlq_name := Some ''d''\<rparr>)),
     cq_json_error = (\<lambda>_. ''''), cq_uuid_str = example_uuid,
     cq_uuid_parse = (\<lambda>s. Some (of_nat (length s)))\<rparr>"

lemma example_uuid_ok: "uuid_ok example_queue_codec i"
  by (simp add: uuid_ok_def example_queue_codec_def example_uuid_def)

definition example_queue_map :: "key \<Rightarrow> val option" where
  "example_queue_map = [queue_meta_key ''q'' \<mapsto> [0]]"

definition example_queue_store :: store where
  "example_queue_store = snd (store_set example_codec 0 (queue_meta_key ''q'') [0] (example_store 4096))"

lemma example_queue_rep:
  "store_rep example_codec example_queue_store example_queue_map \<and> 4000 \<le> store_room example_queue_store"
  using store_engine.put_law [OF example_rep, of "queue_meta_key ''q''" "[0]" 4096 0]
  by (auto simp: example_queue_store_def example_queue_map_def write_admissible_def write_cost_def
      queue_meta_key_def string_bytes_def)

lemma example_no_keys: "kind \<noteq> ''meta'' \<Longrightarrow> CHR '':'' \<notin> set kind \<Longrightarrow> no_keys example_queue_map (index_prefix kind q)"
  by (auto simp: no_keys_def example_queue_map_def dest!: key_kind_in_prefix simp: key_kind_meta)

lemma example_queue_map_meta: "example_queue_map (queue_meta_key ''q'') = Some [0]"
  by (simp add: example_queue_map_def)

lemma example_queue_simps [simp]:
  "cq_dec_cfg example_queue_codec d = Some ((queue_config_new 0 ''q'')\<lparr>qc_dlq_name := Some ''d''\<rparr>)"
  "cq_uuid_str example_queue_codec = example_uuid" "cq_uuid_parse example_queue_codec s = Some (of_nat (length s))"
  "qc_paused (queue_config_new now name) = False"
  "qm_id example_message = 1" "qm_queue_name example_message = ''q''" "qm_delay_until example_message = None"
  by (simp_all add: example_queue_codec_def queue_config_new_def example_message_def qm_new_def)

lemma example_uuid_simps [simp]: "example_uuid 1 = ''x''"
  by (simp add: example_uuid_def)

lemma example_codec_message: "cq_dec_msg example_queue_codec (cq_enc_msg example_queue_codec example_message) = Some example_message"
  by (simp add: example_queue_codec_def example_message_def qm_new_def)

lemma length_example_enc [simp]: "length (cq_enc_msg example_queue_codec msg) = 10"
  by (simp add: example_queue_codec_def)

lemmas example_keys = queue_msg_key_def queue_available_key_def queue_inflight_key_def queue_delayed_key_def
  string_bytes_def write_admissible_def write_cost_def

lemma example_ops [simp]:
  "write_admissible (WSet (queue_msg_key example_queue_codec ''q'' 1) (cq_enc_msg example_queue_codec msg))"
  "write_cost (WSet (queue_msg_key example_queue_codec ''q'' 1) (cq_enc_msg example_queue_codec msg)) \<le> 100"
  "write_admissible (WDelete (queue_msg_key example_queue_codec ''q'' 1))"
  "write_cost (WDelete (queue_msg_key example_queue_codec ''q'' 1)) \<le> 100"
  "write_admissible (WSet (queue_available_key example_queue_codec ''q'' 1) [])"
  "write_cost (WSet (queue_available_key example_queue_codec ''q'' 1) []) \<le> 100"
  "write_admissible (WDelete (queue_available_key example_queue_codec ''q'' 1))"
  "write_cost (WDelete (queue_available_key example_queue_codec ''q'' 1)) \<le> 100"
  "write_admissible (WSet (queue_inflight_key example_queue_codec ''q'' 1) [])"
  "write_cost (WSet (queue_inflight_key example_queue_codec ''q'' 1) []) \<le> 100"
  "write_admissible (WDelete (queue_inflight_key example_queue_codec ''q'' 1))"
  "write_cost (WDelete (queue_inflight_key example_queue_codec ''q'' 1)) \<le> 100"
  "write_admissible (WSet (queue_delayed_key example_queue_codec ''q'' 1) [])"
  "write_cost (WSet (queue_delayed_key example_queue_codec ''q'' 1) []) \<le> 100"
  by (simp_all add: example_keys)

lemma example_visible: "qm_is_visible example_message 5"
  by (simp add: qm_is_visible_def example_message_def qm_new_def word_sle_eq word_sless_alt)

lemma example_fit:
  assumes "\<forall>w \<in> set ws. write_admissible w \<and> write_cost w \<le> 100" and "length ws \<le> 10"
  shows "writes_fit store_room example_queue_store ws"
proof -
  have "sum_list (map write_cost ws) \<le> length ws * 100"
    using assms(1) by (induction ws) force+
  then show ?thesis using assms example_queue_rep by (auto simp: writes_fit_def)
qed

section \<open>Delivery\<close>



section \<open>Acknowledging\<close>

text \<open>The receipt handle does not acknowledge. The handle a dequeue returns is the text of a
  fresh UUID, but \<open>ack\<close> and \<open>nack\<close> read a handle as the message's own id: with the handle just
  returned both fail with \<open>MessageNotFound\<close> and change nothing.\<close>

theorem queue_receipt_handle_useless:
  assumes "store_rep cd s m" and "m (queue_meta_key q) = Some d" and "cq_dec_cfg cq d = Some cfg"
    and "\<not> qc_paused cfg" and "qm_queue_name msg = q" and "qm_delay_until msg = None"
    and "qm_is_visible msg now'" and "uuid_ok cq (qm_id msg)" and "CHR '':'' \<notin> set q"
    and "no_keys m (index_prefix ''available'' q)" and "cq_dec_msg cq (cq_enc_msg cq msg) = Some msg" and "0 < n"
    and "writes_fit store_room s [WSet (queue_msg_key cq q (qm_id msg)) (cq_enc_msg cq msg),
      WSet (queue_available_key cq q (qm_id msg)) [],
      WSet (queue_msg_key cq q (qm_id msg)) (cq_enc_msg cq (qm_mark_received f now' msg)),
      WDelete (queue_available_key cq q (qm_id msg)), WSet (queue_inflight_key cq q (qm_id msg)) []]"
    and "uuid_ok cq j" and "f = cq_uuid_str cq j" and "j \<noteq> qm_id msg" and "m (queue_msg_key cq q j) = None"
  shows "\<exists>s1 s2. queue_enqueue (nova_engine cd fuel t) cq now msg s = (Ok (), s1) \<and>
    queue_dequeue (nova_engine cd fuel t) cq now' (f # fs) q n s1 = (Ok [qm_mark_received f now' msg], s2) \<and>
    qm_receipt_handle (qm_mark_received f now' msg) = Some f \<and>
    queue_ack (nova_engine cd fuel t) cq q f s2 = (Err (MessageNotFound f), s2) \<and>
    queue_nack (nova_engine cd fuel t) cq now' q f s2 = (Err (MessageNotFound f), s2)"
proof -
  obtain s1 s2 where 1: "queue_enqueue (nova_engine cd fuel t) cq now msg s = (Ok (), s1)"
    "queue_dequeue (nova_engine cd fuel t) cq now' (f # fs) q n s1 = (Ok [qm_mark_received f now' msg], s2)"
    "store_rep cd s2 (m(queue_msg_key cq q (qm_id msg) \<mapsto> cq_enc_msg cq (qm_mark_received f now' msg),
      queue_inflight_key cq q (qm_id msg) \<mapsto> []))" (is "store_rep cd s2 ?m2")
    using queue_store.deliver [OF assms(1-13)] by blast
  have "queue_msg_key cq q j \<noteq> queue_msg_key cq q (qm_id msg)"
    using index_key_inj [OF assms(14,8,9)] assms(16) by (simp add: index_key_eqs)
  moreover have "queue_msg_key cq q j \<noteq> queue_inflight_key cq q (qm_id msg)"
    by (auto dest!: arg_cong [of _ _ key_kind] simp: index_key_eqs key_kind_index)
  ultimately have "?m2 (queue_msg_key cq q j) = None" using assms(17) by simp
  moreover have "cq_uuid_parse cq f = Some j" using assms(14,15) by (simp add: uuid_ok_def)
  ultimately show ?thesis
    using 1 queue_store.ack_absent [OF 1(3)] queue_store.nack_absent [OF 1(3)] assms(15)
    by (intro exI conjI) auto
qed

theorem queue_receipt_handle_useless_witness:
  "\<exists>s1 s2. queue_enqueue (nova_engine example_codec 0 0) example_queue_codec 0 example_message example_queue_store = (Ok (), s1) \<and>
     queue_dequeue (nova_engine example_codec 0 0) example_queue_codec 5 [example_uuid 2] ''q'' 10 s1 =
       (Ok [qm_mark_received (example_uuid 2) 5 example_message], s2) \<and>
     qm_receipt_handle (qm_mark_received (example_uuid 2) 5 example_message) = Some (example_uuid 2) \<and>
     queue_ack (nova_engine example_codec 0 0) example_queue_codec ''q'' (example_uuid 2) s2 =
       (Err (MessageNotFound (example_uuid 2)), s2) \<and>
     queue_nack (nova_engine example_codec 0 0) example_queue_codec 5 ''q'' (example_uuid 2) s2 =
       (Err (MessageNotFound (example_uuid 2)), s2)"
proof (rule queue_receipt_handle_useless [OF conjunct1 [OF example_queue_rep] example_queue_map_meta, where j = 2 and
    cfg = "(queue_config_new 0 ''q'')\<lparr>qc_dlq_name := Some ''d''\<rparr>"])
  show "example_queue_map (queue_msg_key example_queue_codec ''q'' 2) = None"
    by (auto simp: example_queue_map_def index_key_eqs key_kind_index key_kind_meta dest: arg_cong [of _ _ key_kind])
qed (simp_all add: example_visible example_uuid_ok example_no_keys example_codec_message example_fit)

text \<open>Acknowledging by message id removes the message and its in-flight entry, and
  nothing else.\<close>

theorem queue_ack_removes:
  assumes "store_rep cd s m" and "uuid_ok cq i" and "m (queue_msg_key cq q i) = Some d"
    and "writes_fit store_room s [WDelete (queue_msg_key cq q i), WDelete (queue_inflight_key cq q i)]"
  shows "\<exists>s'. queue_ack (nova_engine cd fuel t) cq q (cq_uuid_str cq i) s = (Ok (), s') \<and>
    store_rep cd s' (m(queue_msg_key cq q i := None, queue_inflight_key cq q i := None))"
  using queue_store.ack_present [OF assms(1) _ assms(3,4)] assms(2) by (simp add: uuid_ok_def)

definition example_queue_filled :: "queue_message \<Rightarrow> store" where
  "example_queue_filled msg = snd (store_set example_codec 0 (queue_msg_key example_queue_codec ''q'' 1)
     (cq_enc_msg example_queue_codec msg) example_queue_store)"

lemma example_filled_rep:
  "store_rep example_codec (example_queue_filled msg)
     (example_queue_map(queue_msg_key example_queue_codec ''q'' 1 \<mapsto> cq_enc_msg example_queue_codec msg)) \<and>
   3900 \<le> store_room (example_queue_filled msg)"
proof -
  let ?w = "WSet (queue_msg_key example_queue_codec ''q'' 1) (cq_enc_msg example_queue_codec msg)"
  have "write_cost ?w \<le> 100" by (rule example_ops)
  moreover from this have "write_cost ?w \<le> store_room example_queue_store" using example_queue_rep by linarith
  ultimately show ?thesis
    using store_engine.put_law [OF conjunct1 [OF example_queue_rep], of "queue_msg_key example_queue_codec ''q'' 1"
        "cq_enc_msg example_queue_codec msg" 0] example_queue_rep example_ops(1)
    by (auto simp: example_queue_filled_def simp del: example_ops)
qed

theorem queue_ack_removes_witness:
  "\<exists>s'. queue_ack (nova_engine example_codec 0 0) example_queue_codec ''q'' (cq_uuid_str example_queue_codec 1)
       (example_queue_filled example_message) = (Ok (), s') \<and>
     store_rep example_codec s' (example_queue_map(queue_msg_key example_queue_codec ''q'' 1 \<mapsto>
       cq_enc_msg example_queue_codec example_message, queue_msg_key example_queue_codec ''q'' 1 := None,
       queue_inflight_key example_queue_codec ''q'' 1 := None))"
proof (rule queue_ack_removes [OF conjunct1 [OF example_filled_rep] example_uuid_ok fun_upd_same])
  show "writes_fit store_room (example_queue_filled example_message)
      [WDelete (queue_msg_key example_queue_codec ''q'' 1), WDelete (queue_inflight_key example_queue_codec ''q'' 1)]"
    using example_filled_rep [of example_message] example_ops(4,12) by (auto simp: writes_fit_def simp del: example_ops(4,12))
qed

section \<open>Delayed messages\<close>

text \<open>A delayed message is never delivered. Once a message is sent with a delay, no pass of
  the scanner's release and no dequeue finds it, at whatever later time they run: nothing moves
  a delayed entry to the available ones.\<close>

theorem queue_delayed_never_delivered:
  assumes "store_rep cd s m" and "m (queue_meta_key q) = Some d" and "cq_dec_cfg cq d = Some cfg"
    and "\<not> qc_paused cfg" and "qm_queue_name msg = q" and "qm_delay_until msg = Some t" and "now <s t"
    and "no_keys m (index_prefix ''available'' q)" and "no_keys m (index_prefix ''inflight'' q)"
    and "writes_fit store_room s [WSet (queue_msg_key cq q (qm_id msg)) (cq_enc_msg cq msg),
      WSet (queue_delayed_key cq q (qm_id msg)) []]"
  shows "\<exists>s'. queue_enqueue (nova_engine cd fuel u) cq now msg s = (Ok (), s') \<and>
    release_expired_messages (nova_engine cd fuel u) cq later q s' = (Ok 0, s') \<and>
    queue_dequeue (nova_engine cd fuel u) cq later fresh q n s' = (Ok [], s')"
  by (rule queue_store.delayed_not_delivered [OF assms])

theorem queue_delayed_never_delivered_witness:
  "\<exists>s'. queue_enqueue (nova_engine example_codec 0 0) example_queue_codec 0 (example_message\<lparr>qm_delay_until := Some 100\<rparr>)
       example_queue_store = (Ok (), s') \<and>
     queue_dequeue (nova_engine example_codec 0 0) example_queue_codec 5000 [] ''q'' 10 s' = (Ok [], s')"
proof -
  have "(0 :: i64) <s 100" by (simp add: word_sless_alt)
  then show ?thesis
    using queue_delayed_never_delivered [OF conjunct1 [OF example_queue_rep] example_queue_map_meta,
        of example_queue_codec _ "example_message\<lparr>qm_delay_until := Some 100\<rparr>" 100 0 0 0 5000 "[]" 10]
    by (auto simp add: example_no_keys example_fit)
qed

section \<open>Dead letters\<close>

text \<open>Release starves the dead-letter queue. The scanner releases the messages whose
  visibility has run out before it looks for messages to dead-letter, and takes for both the same
  test on the visibility: after the release pass, the dead-letter pass at the same time moves
  nothing, however often the messages have been received.\<close>

theorem queue_dlq_starved:
  assumes "store_rep cd s m" and "m (queue_meta_key q) = Some d" and "cq_dec_cfg cq d = Some cfg"
    and "\<And>i d msg. m (queue_msg_key cq q i) = Some d \<Longrightarrow> cq_dec_msg cq d = Some msg \<Longrightarrow> \<not> qm_has_expired msg now"
    and "scan_prefix (nova_engine cd fuel t) (index_prefix ''inflight'' q) s = (Ok es, s)"
    and "writes_fit store_room s (concat (map (release_writes cq q \<circ> fst) es))"
  shows "\<exists>n s'. release_expired_messages (nova_engine cd fuel t) cq now q s = (Ok n, s') \<and>
    move_to_dlq (nova_engine cd fuel t) cq now q s' = (Ok 0, s')"
  using queue_store.release_starves_dlq [OF assms] .

definition example_worn :: queue_message where
  "example_worn = example_message\<lparr>qm_attempt_count := 3\<rparr>"

definition example_queue_stuck :: store where
  "example_queue_stuck = snd (store_set example_codec 0 (queue_inflight_key example_queue_codec ''q'' 1) []
     (example_queue_filled example_worn))"

definition example_stuck_map :: "key \<Rightarrow> val option" where
  "example_stuck_map = example_queue_map
     (queue_msg_key example_queue_codec ''q'' 1 \<mapsto> cq_enc_msg example_queue_codec example_worn,
      queue_inflight_key example_queue_codec ''q'' 1 \<mapsto> [])"

lemma example_stuck_rep:
  "store_rep example_codec example_queue_stuck example_stuck_map \<and> 3800 \<le> store_room example_queue_stuck"
proof -
  have "write_cost (WSet (queue_inflight_key example_queue_codec ''q'' 1) []) \<le> store_room (example_queue_filled example_worn)"
    using example_filled_rep [of example_worn] example_ops(10) by linarith
  then show ?thesis
    using store_engine.put_law [OF conjunct1 [OF example_filled_rep [of example_worn]],
        of "queue_inflight_key example_queue_codec ''q'' 1" "[]" 0] example_filled_rep [of example_worn] example_ops(9,10)
    by (auto simp: example_queue_stuck_def example_stuck_map_def simp del: example_ops)
qed

lemma example_stuck_scan:
  "scan_prefix (nova_engine example_codec 0 0) (index_prefix ''inflight'' ''q'') example_queue_stuck =
   (Ok [(queue_inflight_key example_queue_codec ''q'' 1, [])], example_queue_stuck)"
proof (rule queue_store.scan_prefix_one [OF conjunct1 [OF example_stuck_rep]])
  show "\<forall>k'. in_prefix (index_prefix ''inflight'' ''q'') k' \<and> k' \<noteq> queue_inflight_key example_queue_codec ''q'' 1 \<longrightarrow>
      example_stuck_map k' = None"
    by (auto simp: example_stuck_map_def example_queue_map_def index_key_eqs key_kind_index key_kind_meta
      dest: key_kind_in_prefix [of "''inflight''", simplified])
qed (use in_prefix_index [OF example_uuid_ok] in \<open>simp_all add: example_stuck_map_def index_key_eqs\<close>)

theorem queue_dlq_starved_witness:
  "\<exists>n s'. release_expired_messages (nova_engine example_codec 0 0) example_queue_codec 50000 ''q'' example_queue_stuck = (Ok n, s') \<and>
     move_to_dlq (nova_engine example_codec 0 0) example_queue_codec 50000 ''q'' s' = (Ok 0, s')"
proof (rule queue_dlq_starved [OF conjunct1 [OF example_stuck_rep] _ example_queue_simps(1) _ example_stuck_scan])
  show "example_stuck_map (queue_meta_key ''q'') = Some [0]"
    by (auto simp: example_stuck_map_def example_queue_map_meta index_key_eqs key_kind_index key_kind_meta
      dest: arg_cong [of _ _ key_kind])
  show "\<not> qm_has_expired msg 50000" if "cq_dec_msg example_queue_codec d = Some msg" for d msg
    using that by (auto simp: example_queue_codec_def qm_has_expired_def example_message_def qm_new_def word_sle_eq)
  have "key_msg_id example_queue_codec (queue_inflight_key example_queue_codec ''q'' 1) = Some 1"
    unfolding index_key_eqs by (rule key_msg_id_index [OF example_uuid_ok]) simp_all
  then show "writes_fit store_room example_queue_stuck
      (concat (map (release_writes example_queue_codec ''q'' \<circ> fst) [(queue_inflight_key example_queue_codec ''q'' 1, [])]))"
    using example_stuck_rep example_ops(5,6,11,12)
    by (auto simp: release_writes_def writes_fit_def simp del: example_ops)
qed

end
