(* ===== verification/Exec_Types.thy ===== *)
theory Exec_Types
  imports Core_Types
begin

text \<open>
  The data of \<open>nova-executor\<close> (\<open>types.rs\<close>): operations, priorities, stages, requests, contexts,
  responses and errors. An \<open>Instant\<close> or a \<open>Duration\<close> is its number of nanoseconds; a clock reading is
  an argument. JSON values are a type parameter, with the value \<open>null\<close> an argument where the code
  builds it. A \<open>HashMap\<close> that is only carried is an association list.
\<close>

section \<open>Operations\<close>

datatype operation_type =
    OpGet | OpList | OpCreate | OpUpdate | OpDelete | OpPatch | OpQuery | OpSearch | OpEnqueue
  | OpDequeue | OpPeek | OpAck | OpSchedule | OpCancel | OpBlobPut | OpBlobGet | OpBlobDelete
  | OpAuthenticate | OpAuthorize | OpCreateToken | OpRevokeToken | OpHealth | OpMetrics | OpConfig
  | OpProfile | OpAdminAction

definition is_mutation :: "operation_type \<Rightarrow> bool" where
  "is_mutation t \<longleftrightarrow> t \<in> {OpCreate, OpUpdate, OpDelete, OpPatch, OpEnqueue, OpDequeue, OpAck,
     OpSchedule, OpCancel, OpBlobPut, OpBlobDelete, OpCreateToken, OpRevokeToken, OpAdminAction}"

definition is_read :: "operation_type \<Rightarrow> bool" where
  "is_read t \<longleftrightarrow> t \<in> {OpGet, OpList, OpPeek, OpBlobGet, OpHealth, OpMetrics, OpConfig, OpProfile,
     OpQuery, OpSearch}"

datatype priority = PrCritical | PrHigh | PrNormal | PrBackground

fun priority_index :: "priority \<Rightarrow> nat" where
  "priority_index PrCritical = 0"
| "priority_index PrHigh = 1"
| "priority_index PrNormal = 2"
| "priority_index PrBackground = 3"

definition from_millis :: "nat \<Rightarrow> nat" where "from_millis ms = ms * 1000000"

definition from_secs :: "nat \<Rightarrow> nat" where "from_secs s = s * 1000000000"

definition as_millis :: "nat \<Rightarrow> nat" where "as_millis ns = ns div 1000000"

fun max_wait :: "priority \<Rightarrow> nat" where
  "max_wait PrCritical = from_millis 100"
| "max_wait PrHigh = from_millis 500"
| "max_wait PrNormal = from_secs 2"
| "max_wait PrBackground = from_secs 10"

fun age_up :: "priority \<Rightarrow> priority option" where
  "age_up PrBackground = Some PrNormal"
| "age_up PrNormal = Some PrHigh"
| "age_up _ = None"

datatype protocol = ProtoHttp | ProtoWebSocket | ProtoSql | ProtoAdmin | ProtoInternal

datatype pipeline_stage = StParse | StValidate | StAuthorize | StExecute | StLog | StNotify

datatype stage_status = StageSuccess | StageSkipped | StageShortCircuit | StageError

datatype consistency = Eventual | Strong

datatype durability = DurAsync | DurSync | DurDurable

datatype status_code =
    ScOk | ScCreated | ScAccepted | ScNoContent | ScBadRequest | ScUnauthorized | ScForbidden
  | ScNotFound | ScMethodNotAllowed | ScConflict | ScGone | ScTooManyRequests | ScRequestTooLarge
  | ScUnprocessableEntity | ScInternalError | ScNotImplemented | ScServiceUnavailable
  | ScGatewayTimeout | ScInsufficientStorage | ScCircuitBreakerOpen | ScDeadlineExceeded | ScCancelled

definition status_is_success :: "status_code \<Rightarrow> bool" where
  "status_is_success c \<longleftrightarrow> c \<in> {ScOk, ScCreated, ScAccepted, ScNoContent}"

definition status_is_client_error :: "status_code \<Rightarrow> bool" where
  "status_is_client_error c \<longleftrightarrow> c \<in> {ScBadRequest, ScUnauthorized, ScForbidden, ScNotFound,
     ScMethodNotAllowed, ScConflict, ScGone, ScTooManyRequests, ScRequestTooLarge,
     ScUnprocessableEntity, ScCancelled}"

definition status_is_server_error :: "status_code \<Rightarrow> bool" where
  "status_is_server_error c \<longleftrightarrow> c \<in> {ScInternalError, ScNotImplemented, ScServiceUnavailable,
     ScGatewayTimeout, ScInsufficientStorage, ScCircuitBreakerOpen, ScDeadlineExceeded}"

section \<open>Requests\<close>

type_synonym u128 = "128 word"
type_synonym socket_addr = "bytes \<times> u16"

datatype operation_target =
    TObject string "u128 option"
  | TCollection string
  | TQueue string
  | TSchedule "u128 option"
  | TBlob "u128 option"
  | TAuth string
  | TAdmin string
  | TSystem

record operation_options =
  oo_consistency :: consistency
  oo_durability :: durability
  oo_ttl :: "nat option"
  oo_priority :: priority
  oo_idempotency_key :: "u128 option"
  oo_timeout :: "nat option"
  oo_max_retries :: u8
  oo_tracing :: bool

definition operation_options_default :: operation_options where
  "operation_options_default = \<lparr>oo_consistency = Strong, oo_durability = DurSync, oo_ttl = None,
     oo_priority = PrNormal, oo_idempotency_key = None, oo_timeout = None, oo_max_retries = 3,
     oo_tracing = False\<rparr>"

record 'j operation_request =
  rq_operation_type :: operation_type
  rq_target :: operation_target
  rq_params :: "(string \<times> 'j) list"
  rq_payload :: "bytes option"
  rq_payload_size :: u64
  rq_options :: operation_options
  rq_sequence :: u64
  rq_submitted_at :: nat

definition operation_request_new :: "nat \<Rightarrow> operation_type \<Rightarrow> operation_target \<Rightarrow> 'j operation_request" where
  "operation_request_new now t target = \<lparr>rq_operation_type = t, rq_target = target, rq_params = [],
     rq_payload = None, rq_payload_size = 0, rq_options = operation_options_default, rq_sequence = 0,
     rq_submitted_at = now\<rparr>"

section \<open>Responses\<close>

datatype error_code =
    EcParseError | EcValidationError | EcAuthorizationError | EcAuthenticationError | EcNotFound
  | EcConflict | EcRateLimited | EcCircuitBreakerOpen | EcDeadlineExceeded | EcCancelled
  | EcPayloadTooLarge | EcUnprocessable | EcInternalError | EcServiceUnavailable | EcNotImplemented
  | EcInsufficientStorage

record 'j error_info =
  ei_code :: error_code
  ei_message :: string
  ei_details :: 'j
  ei_retryable :: bool
  ei_retry_after_ms :: "u64 option"

record stage_timing =
  tm_stage :: pipeline_stage
  tm_duration_ns :: u64
  tm_status :: stage_status

record 'j operation_response =
  rs_status :: status_code
  rs_success :: bool
  rs_data :: "'j option"
  rs_data_size :: u64
  rs_trace_id :: u128
  rs_duration_ns :: u64
  rs_error :: "'j error_info option"
  rs_warnings :: "string list"
  rs_stage_timings :: "stage_timing list"

definition response_ok :: "'j \<Rightarrow> 'j operation_response" where
  "response_ok data = \<lparr>rs_status = ScOk, rs_success = True, rs_data = Some data, rs_data_size = 0,
     rs_trace_id = 0, rs_duration_ns = 0, rs_error = None, rs_warnings = [], rs_stage_timings = []\<rparr>"

fun error_status :: "error_code \<Rightarrow> status_code" where
  "error_status EcParseError = ScBadRequest"
| "error_status EcValidationError = ScUnprocessableEntity"
| "error_status EcAuthorizationError = ScForbidden"
| "error_status EcAuthenticationError = ScUnauthorized"
| "error_status EcNotFound = ScNotFound"
| "error_status EcConflict = ScConflict"
| "error_status EcRateLimited = ScTooManyRequests"
| "error_status EcCircuitBreakerOpen = ScServiceUnavailable"
| "error_status EcDeadlineExceeded = ScDeadlineExceeded"
| "error_status EcCancelled = ScCancelled"
| "error_status EcPayloadTooLarge = ScRequestTooLarge"
| "error_status EcUnprocessable = ScUnprocessableEntity"
| "error_status EcInternalError = ScInternalError"
| "error_status EcServiceUnavailable = ScServiceUnavailable"
| "error_status EcNotImplemented = ScNotImplemented"
| "error_status EcInsufficientStorage = ScInsufficientStorage"

definition response_retryable :: "error_code \<Rightarrow> bool" where
  "response_retryable c \<longleftrightarrow> c \<in> {EcRateLimited, EcCircuitBreakerOpen, EcDeadlineExceeded,
     EcServiceUnavailable, EcInternalError}"

definition response_error :: "'j \<Rightarrow> error_code \<Rightarrow> string \<Rightarrow> 'j operation_response" where
  "response_error nul code msg = \<lparr>rs_status = error_status code, rs_success = False, rs_data = None,
     rs_data_size = 0, rs_trace_id = 0, rs_duration_ns = 0,
     rs_error = Some \<lparr>ei_code = code, ei_message = msg, ei_details = nul,
       ei_retryable = response_retryable code, ei_retry_after_ms = None\<rparr>,
     rs_warnings = [], rs_stage_timings = []\<rparr>"

section \<open>Contexts and pipeline results\<close>

datatype subsystem_id =
    SubStorage | SubCache | SubQueue | SubScheduler | SubSearch | SubBlob | SubSql | SubAuth
  | SubPipeline | SubAdmin

record user_session =
  us_user_id :: u128
  us_username :: string
  us_roles :: "string list"
  us_permissions :: "string list"
  us_session_id :: u128
  us_metadata :: "(string \<times> string) list"

text \<open>The cancellation token of a context is the identity of its shared cell.\<close>

record 'j operation_context =
  cx_trace_id :: u128
  cx_span_id :: u64
  cx_parent_span_id :: "u64 option"
  cx_user_session :: "user_session option"
  cx_source_addr :: socket_addr
  cx_deadline :: nat
  cx_cancellation_token :: nat
  cx_operation_priority :: priority
  cx_protocol :: protocol
  cx_subsystem :: subsystem_id
  cx_operation_type :: operation_type
  cx_metadata :: "(string \<times> string) list"
  cx_stage :: pipeline_stage
  cx_stage_elapsed :: nat
  cx_total_elapsed :: nat
  cx_retry_count :: u8
  cx_kv_store :: "(string \<times> 'j) list"

record 'j pipeline_error =
  pe_code :: error_code
  pe_message :: string
  pe_details :: 'j
  pe_stage :: pipeline_stage
  pe_retryable :: bool

datatype 'j pipeline_result =
    PContinue
  | PShortCircuit "'j operation_response"
  | PError "'j pipeline_error"

definition pipeline_error_new :: "'j \<Rightarrow> error_code \<Rightarrow> string \<Rightarrow> 'j pipeline_error" where
  "pipeline_error_new nul code msg = \<lparr>pe_code = code, pe_message = msg, pe_details = nul,
     pe_stage = StParse,
     pe_retryable = (code \<in> {EcRateLimited, EcCircuitBreakerOpen, EcDeadlineExceeded, EcServiceUnavailable})\<rparr>"

definition with_stage :: "pipeline_stage \<Rightarrow> 'j pipeline_error \<Rightarrow> 'j pipeline_error" where
  "with_stage st e = e\<lparr>pe_stage := st\<rparr>"

text \<open>\<open>saturating_duration_since\<close> is subtraction on \<open>nat\<close>.\<close>

definition remaining_deadline :: "nat \<Rightarrow> 'j operation_context \<Rightarrow> nat" where
  "remaining_deadline now ctx = cx_deadline ctx - now"

definition is_expired :: "nat \<Rightarrow> 'j operation_context \<Rightarrow> bool" where
  "is_expired now ctx \<longleftrightarrow> cx_deadline ctx \<le> now"

section \<open>The context builder\<close>

record 'j context_builder =
  ob_trace_id :: "u128 option"
  ob_span_id :: "u64 option"
  ob_parent_span_id :: "u64 option"
  ob_user_session :: "user_session option"
  ob_source_addr :: socket_addr
  ob_deadline :: "nat option"
  ob_operation_priority :: priority
  ob_protocol :: protocol
  ob_subsystem :: subsystem_id
  ob_operation_type :: operation_type
  ob_metadata :: "(string \<times> string) list"
  ob_kv_store :: "(string \<times> 'j) list"

definition context_builder_new :: "socket_addr \<Rightarrow> 'j context_builder" where
  "context_builder_new addr = \<lparr>ob_trace_id = None, ob_span_id = None, ob_parent_span_id = None,
     ob_user_session = None, ob_source_addr = addr, ob_deadline = None,
     ob_operation_priority = PrNormal, ob_protocol = ProtoInternal, ob_subsystem = SubPipeline,
     ob_operation_type = OpQuery, ob_metadata = [], ob_kv_store = []\<rparr>"

text \<open>The process-wide span counter is the state; the fresh trace id and token are arguments.\<close>

definition context_build :: "nat \<Rightarrow> u128 \<Rightarrow> nat \<Rightarrow> 'j context_builder \<Rightarrow> u64 \<Rightarrow> 'j operation_context \<times> u64" where
  "context_build now fresh token b next_span =
     (let (span, next') = (case ob_span_id b of Some i \<Rightarrow> (i, next_span) | None \<Rightarrow> (next_span, next_span + 1)) in
      (\<lparr>cx_trace_id = (case ob_trace_id b of Some i \<Rightarrow> i | None \<Rightarrow> fresh), cx_span_id = span,
        cx_parent_span_id = ob_parent_span_id b, cx_user_session = ob_user_session b,
        cx_source_addr = ob_source_addr b,
        cx_deadline = (case ob_deadline b of Some d \<Rightarrow> d | None \<Rightarrow> now + from_secs 5),
        cx_cancellation_token = token, cx_operation_priority = ob_operation_priority b,
        cx_protocol = ob_protocol b, cx_subsystem = ob_subsystem b,
        cx_operation_type = ob_operation_type b, cx_metadata = ob_metadata b, cx_stage = StParse,
        cx_stage_elapsed = 0, cx_total_elapsed = 0, cx_retry_count = 0, cx_kv_store = ob_kv_store b\<rparr>, next'))"

section \<open>Lemmas\<close>

lemma priority_index_less [simp]: "priority_index p < 4"
  by (cases p) simp_all

lemma priority_index_inj [simp]: "priority_index p = priority_index p' \<longleftrightarrow> p = p'"
  by (cases p; cases p') simp_all

lemma age_up_index: "age_up p = Some p' \<Longrightarrow> priority_index p = Suc (priority_index p')"
  by (cases p) auto

lemma operation_kinds_disjoint: "\<not> (is_mutation t \<and> is_read t)"
  by (cases t) (simp_all add: is_mutation_def is_read_def)

lemma error_status_not_success: "\<not> status_is_success (error_status c)"
  by (cases c) (simp_all add: status_is_success_def)

end
