(* ===== verification/Circuit_Breaker.thy ===== *)
theory Circuit_Breaker
  imports Exec_Types
begin

text \<open>
  The circuit breaker of the pipeline (\<open>nova-executor/src/circuit_breaker.rs\<close>): per subsystem a
  state, a failure count and a success count, kept in three maps. The call that is protected is
  given by its result. A call reads the clock before it runs the operation (\<open>now\<close>) and after
  (\<open>later\<close>).
\<close>

section \<open>State\<close>

datatype circuit_state = Closed | Open nat | HalfOpen

record breaker =
  cb_state :: "subsystem_id \<Rightarrow> circuit_state option"
  cb_failure_count :: "subsystem_id \<Rightarrow> u64 option"
  cb_success_count :: "subsystem_id \<Rightarrow> u64 option"
  cb_failure_threshold :: u64
  cb_success_threshold :: u64
  cb_half_open_timeout :: nat
  cb_window :: nat
  cb_last_state_change :: "subsystem_id \<Rightarrow> nat option"
  cb_opens :: u64
  cb_half_opens :: u64
  cb_closes :: u64
  cb_rejected :: u64

datatype circuit_error = CircuitOpen | CircuitFailure string

definition breaker_new :: "u64 \<Rightarrow> u64 \<Rightarrow> u64 \<Rightarrow> u64 \<Rightarrow> breaker" where
  "breaker_new failure_threshold success_threshold half_open_timeout_ms window_ms =
     \<lparr>cb_state = Map.empty, cb_failure_count = Map.empty, cb_success_count = Map.empty,
      cb_failure_threshold = failure_threshold, cb_success_threshold = success_threshold,
      cb_half_open_timeout = from_millis (unat half_open_timeout_ms), cb_window = from_millis (unat window_ms),
      cb_last_state_change = Map.empty, cb_opens = 0, cb_half_opens = 0, cb_closes = 0, cb_rejected = 0\<rparr>"

section \<open>Operations\<close>

definition get_state :: "breaker \<Rightarrow> subsystem_id \<Rightarrow> circuit_state" where
  "get_state cb k = (case cb_state cb k of Some s \<Rightarrow> s | None \<Rightarrow> Closed)"

fun count_transition :: "circuit_state \<Rightarrow> breaker \<Rightarrow> breaker" where
  "count_transition (Open _) cb = cb\<lparr>cb_opens := cb_opens cb + 1\<rparr>"
| "count_transition HalfOpen cb = cb\<lparr>cb_half_opens := cb_half_opens cb + 1\<rparr>"
| "count_transition Closed cb = cb\<lparr>cb_closes := cb_closes cb + 1\<rparr>"

definition cb_transition :: "nat \<Rightarrow> subsystem_id \<Rightarrow> circuit_state \<Rightarrow> breaker \<Rightarrow> breaker" where
  "cb_transition now k new_state cb = count_transition new_state
     (cb\<lparr>cb_state := (cb_state cb)(k \<mapsto> new_state), cb_last_state_change := (cb_last_state_change cb)(k \<mapsto> now)\<rparr>)"

definition cb_open :: "nat \<Rightarrow> subsystem_id \<Rightarrow> breaker \<Rightarrow> breaker" where
  "cb_open now k cb =
     (let cb' = cb_transition now k (Open (now + cb_half_open_timeout cb)) cb
      in cb'\<lparr>cb_failure_count := (cb_failure_count cb')(k := None)\<rparr>)"

definition cb_close :: "nat \<Rightarrow> subsystem_id \<Rightarrow> breaker \<Rightarrow> breaker" where
  "cb_close now k cb =
     (let cb' = cb_transition now k Closed cb
      in cb'\<lparr>cb_failure_count := (cb_failure_count cb')(k := None),
             cb_success_count := (cb_success_count cb')(k := None)\<rparr>)"

fun is_tracked_failure :: "runtime_error \<Rightarrow> bool" where
  "is_tracked_failure (Timeout _) \<longleftrightarrow> True"
| "is_tracked_failure (TransactionConflict _) \<longleftrightarrow> True"
| "is_tracked_failure (DeadlockDetected _) \<longleftrightarrow> True"
| "is_tracked_failure (TransactionError _) \<longleftrightarrow> True"
| "is_tracked_failure (Busy _) \<longleftrightarrow> True"
| "is_tracked_failure (Io _) \<longleftrightarrow> True"
| "is_tracked_failure _ \<longleftrightarrow> False"

definition note_success :: "nat \<Rightarrow> subsystem_id \<Rightarrow> breaker \<Rightarrow> breaker" where
  "note_success later k cb =
     (let count = (case cb_success_count cb k of Some c \<Rightarrow> c | None \<Rightarrow> 0) + 1;
          cb' = cb\<lparr>cb_success_count := (cb_success_count cb)(k \<mapsto> count)\<rparr>
      in if cb_success_threshold cb \<le> count \<and> cb_state cb k = Some HalfOpen then cb_close later k cb' else cb')"

definition note_failure :: "nat \<Rightarrow> subsystem_id \<Rightarrow> breaker \<Rightarrow> breaker" where
  "note_failure later k cb =
     (let should_reset = (case cb_last_state_change cb k of Some t \<Rightarrow> cb_window cb < later - t | None \<Rightarrow> False);
          count = (if should_reset then 0 else case cb_failure_count cb k of Some c \<Rightarrow> c | None \<Rightarrow> 0) + 1;
          cb' = cb\<lparr>cb_failure_count := (cb_failure_count cb)(k \<mapsto> count)\<rparr>
      in if cb_failure_threshold cb \<le> count then cb_open later k cb' else cb')"

text \<open>Refused at once, or admitted: an open circuit whose time is up becomes half open.\<close>

definition cb_admit :: "nat \<Rightarrow> subsystem_id \<Rightarrow> breaker \<Rightarrow> breaker option" where
  "cb_admit now k cb =
     (case get_state cb k of
        Open until \<Rightarrow> if now < until then None else Some (cb_transition now k HalfOpen cb)
      | _ \<Rightarrow> Some cb)"

definition cb_execute :: "nat \<Rightarrow> nat \<Rightarrow> subsystem_id \<Rightarrow> (runtime_error, 'a) outcome \<Rightarrow> breaker \<Rightarrow>
    (circuit_error, 'a) outcome \<times> breaker" where
  "cb_execute now later k f cb =
     (case cb_admit now k cb of
        None \<Rightarrow> (Err CircuitOpen, cb\<lparr>cb_rejected := cb_rejected cb + 1\<rparr>)
      | Some cb' \<Rightarrow>
          (case f of
             Ok x \<Rightarrow> (Ok x, note_success later k cb')
           | Err e \<Rightarrow> (Err (CircuitFailure (runtime_error_display e)),
               if is_tracked_failure e then note_failure later k cb' else cb')
           | Panic \<Rightarrow> (Panic, cb')
           | Deadlock \<Rightarrow> (Deadlock, cb')))"

definition cb_force_open :: "nat \<Rightarrow> subsystem_id \<Rightarrow> breaker \<Rightarrow> breaker" where
  "cb_force_open now k cb = cb_transition now k (Open (now + from_secs 3600)) cb"

definition cb_force_close :: "nat \<Rightarrow> subsystem_id \<Rightarrow> breaker \<Rightarrow> breaker" where
  "cb_force_close now k cb = cb_close now k cb"

definition cb_reset :: "subsystem_id \<Rightarrow> breaker \<Rightarrow> breaker" where
  "cb_reset k cb = cb\<lparr>cb_state := (cb_state cb)(k := None), cb_failure_count := (cb_failure_count cb)(k := None),
     cb_success_count := (cb_success_count cb)(k := None),
     cb_last_state_change := (cb_last_state_change cb)(k := None)\<rparr>"

fun circuit_error_display :: "circuit_error \<Rightarrow> string" where
  "circuit_error_display CircuitOpen = ''circuit breaker is open''"
| "circuit_error_display (CircuitFailure msg) = ''circuit breaker failure: '' @ msg"

section \<open>The breaker as a state machine\<close>

text \<open>The calls of one subsystem, in order.\<close>

datatype 'a breaker_call = Call nat nat "(runtime_error, 'a) outcome"

fun cb_run :: "subsystem_id \<Rightarrow> 'a breaker_call list \<Rightarrow> breaker \<Rightarrow> (circuit_error, 'a) outcome list \<times> breaker" where
  "cb_run k [] cb = ([], cb)"
| "cb_run k (Call now later f # cs) cb =
     (case cb_execute now later k f cb of (r, cb') \<Rightarrow> case cb_run k cs cb' of (rs, cb'') \<Rightarrow> (r # rs, cb''))"

text \<open>What a call may do to the state of its subsystem.\<close>

inductive cb_step :: "circuit_state \<Rightarrow> circuit_state \<Rightarrow> bool" where
  stay: "cb_step s s"
| trip: "s = Closed \<or> s = HalfOpen \<Longrightarrow> cb_step s (Open t)"
| probe: "cb_step (Open t) HalfOpen"
| probe_fail: "cb_step (Open t) (Open t')"
| recover: "s = HalfOpen \<or> s = Open t \<Longrightarrow> cb_step s Closed"

inductive_simps cb_step_simps: "cb_step s s'"

section \<open>Lemmas\<close>

definition failures :: "breaker \<Rightarrow> subsystem_id \<Rightarrow> nat" where
  "failures cb k = (case cb_failure_count cb k of Some c \<Rightarrow> unat c | None \<Rightarrow> 0)"

definition successes :: "breaker \<Rightarrow> subsystem_id \<Rightarrow> nat" where
  "successes cb k = (case cb_success_count cb k of Some c \<Rightarrow> unat c | None \<Rightarrow> 0)"

definition tracked :: "'a breaker_call \<Rightarrow> bool" where
  "tracked c = (case c of Call _ _ (Err e) \<Rightarrow> is_tracked_failure e | _ \<Rightarrow> False)"

lemma count_transition_simps [simp]:
  "cb_state (count_transition s cb) = cb_state cb"
  "cb_failure_count (count_transition s cb) = cb_failure_count cb"
  "cb_success_count (count_transition s cb) = cb_success_count cb"
  "cb_last_state_change (count_transition s cb) = cb_last_state_change cb"
  "cb_failure_threshold (count_transition s cb) = cb_failure_threshold cb"
  "cb_success_threshold (count_transition s cb) = cb_success_threshold cb"
  "cb_half_open_timeout (count_transition s cb) = cb_half_open_timeout cb"
  "cb_window (count_transition s cb) = cb_window cb"
  by (cases s; simp)+

lemma get_state_transition [simp]:
  "get_state (cb_transition now k s cb) k' = (if k' = k then s else get_state cb k')"
  by (simp add: get_state_def cb_transition_def)

lemma get_state_open_close [simp]:
  "get_state (cb_open now k cb) k' = (if k' = k then Open (now + cb_half_open_timeout cb) else get_state cb k')"
  "get_state (cb_close now k cb) k' = (if k' = k then Closed else get_state cb k')"
  by (simp_all add: cb_open_def cb_close_def Let_def get_state_def cb_transition_def)

lemma get_state_counts [simp]:
  "get_state (cb\<lparr>cb_failure_count := f\<rparr>) k = get_state cb k"
  "get_state (cb\<lparr>cb_success_count := g\<rparr>) k = get_state cb k"
  "get_state (cb\<lparr>cb_rejected := r\<rparr>) k = get_state cb k"
  by (simp_all add: get_state_def)

lemma get_state_half: "cb_state cb k = Some HalfOpen \<longleftrightarrow> get_state cb k = HalfOpen"
  by (simp add: get_state_def split: option.split)

lemma cb_admit_other: "cb_admit now k cb = Some cb' \<Longrightarrow> k' \<noteq> k \<Longrightarrow> get_state cb' k' = get_state cb k'"
  by (auto simp: cb_admit_def split: circuit_state.splits if_splits)

lemma note_success_state:
  "get_state (note_success t k cb) k' = get_state cb k' \<or>
   k' = k \<and> get_state cb k = HalfOpen \<and> get_state (note_success t k cb) k = Closed"
  by (auto simp: note_success_def Let_def get_state_half)

lemma note_failure_state:
  "get_state (note_failure t k cb) k' = get_state cb k' \<or>
   k' = k \<and> get_state (note_failure t k cb) k = Open (t + cb_half_open_timeout cb)"
  by (auto simp: note_failure_def Let_def)

lemma cb_execute_other:
  "snd (cb_execute now later k f cb) = cb' \<Longrightarrow> k' \<noteq> k \<Longrightarrow> get_state cb' k' = get_state cb k'"
  using note_success_state [of later k _ k'] note_failure_state [of later k _ k'] cb_admit_other [of now k cb _ k']
  by (auto simp: cb_execute_def split: option.splits outcome.splits)

lemma admit_state:
  "cb_admit now k cb = Some cb' \<Longrightarrow>
   get_state cb' k = get_state cb k \<and> cb' = cb \<and> (\<forall>t. get_state cb k \<noteq> Open t) \<or>
   (\<exists>t. get_state cb k = Open t \<and> t \<le> now \<and> get_state cb' k = HalfOpen)"
  by (auto simp: cb_admit_def split: circuit_state.splits if_splits)

text \<open>A run that starts in a closed circuit without a recorded change, as after \<open>new\<close> or
  \<open>reset\<close>: the window plays no part, failures and successes only add up.\<close>

definition quiet :: "breaker \<Rightarrow> subsystem_id \<Rightarrow> bool" where
  "quiet cb k \<longleftrightarrow> get_state cb k = Closed \<and> cb_last_state_change cb k = None"

definition call_ok :: "'a breaker_call \<Rightarrow> bool" where
  "call_ok c = (case c of Call _ _ (Ok _) \<Rightarrow> True | _ \<Rightarrow> False)"

lemma threshold_less: "unat (cb_failure_threshold cb) < 18446744073709551616"
  using unsigned_less [of "cb_failure_threshold cb"] by simp

lemma quiet_success:
  assumes "quiet cb k" and "successes cb k + 1 < 2 ^ 64"
  shows "quiet (note_success t k cb) k" "successes (note_success t k cb) k = successes cb k + 1"
    "failures (note_success t k cb) k = failures cb k"
    "cb_failure_threshold (note_success t k cb) = cb_failure_threshold cb"
    "cb_success_threshold (note_success t k cb) = cb_success_threshold cb"
    "cb_half_open_timeout (note_success t k cb) = cb_half_open_timeout cb"
  using assms unat_add1 [of "case cb_success_count cb k of None \<Rightarrow> 0 | Some c \<Rightarrow> c"]
  by (auto simp: quiet_def note_success_def Let_def get_state_half successes_def failures_def split: option.splits)

lemma quiet_failure:
  assumes "quiet cb k" and "failures cb k + 1 < unat (cb_failure_threshold cb)"
  shows "quiet (note_failure t k cb) k" "failures (note_failure t k cb) k = failures cb k + 1"
    "successes (note_failure t k cb) k = successes cb k"
    "cb_failure_threshold (note_failure t k cb) = cb_failure_threshold cb"
    "cb_success_threshold (note_failure t k cb) = cb_success_threshold cb"
    "cb_half_open_timeout (note_failure t k cb) = cb_half_open_timeout cb"
proof -
  let ?c = "case cb_failure_count cb k of None \<Rightarrow> 0 | Some c \<Rightarrow> c"
  have c: "unat ?c = failures cb k" by (simp add: failures_def split: option.split)
  have "unat (?c + 1) = failures cb k + 1"
    using unat_add1 [of ?c] assms(2) threshold_less [of cb] c by simp
  then have n: "\<not> cb_failure_threshold cb \<le> ?c + 1" "unat (?c + 1) = failures cb k + 1"
    using assms(2) by (simp_all add: word_le_nat_alt)
  then show "quiet (note_failure t k cb) k" "failures (note_failure t k cb) k = failures cb k + 1"
    "successes (note_failure t k cb) k = successes cb k"
    "cb_failure_threshold (note_failure t k cb) = cb_failure_threshold cb"
    "cb_success_threshold (note_failure t k cb) = cb_success_threshold cb"
    "cb_half_open_timeout (note_failure t k cb) = cb_half_open_timeout cb"
    using assms(1) by (auto simp: quiet_def note_failure_def Let_def successes_def failures_def)
qed

lemma failure_trips:
  assumes "quiet cb k" and "failures cb k + 1 = unat (cb_failure_threshold cb)"
  shows "note_failure t k cb = cb_open t k (cb\<lparr>cb_failure_count := (cb_failure_count cb)
    (k \<mapsto> (case cb_failure_count cb k of None \<Rightarrow> 0 | Some c \<Rightarrow> c) + 1)\<rparr>)"
proof -
  let ?c = "case cb_failure_count cb k of None \<Rightarrow> 0 | Some c \<Rightarrow> c"
  have "unat (?c + 1) = failures cb k + 1"
    using unat_add1 [of ?c] assms(2) threshold_less [of cb]
    by (simp add: failures_def split: option.splits)
  then have "cb_failure_threshold cb \<le> ?c + 1" using assms(2) by (simp add: word_le_nat_alt)
  then show ?thesis using assms(1) by (simp add: quiet_def note_failure_def Let_def)
qed

lemma quiet_admit: "quiet cb k \<Longrightarrow> cb_admit now k cb = Some cb"
  by (simp add: quiet_def cb_admit_def)

lemma quiet_run:
  assumes "quiet cb k" and "failures cb k + length (filter tracked cs) < unat (cb_failure_threshold cb)"
    and "successes cb k + length cs < 2 ^ 64"
    and "cb_run k cs cb = (rs, cb')"
  shows "quiet cb' k \<and> failures cb' k = failures cb k + length (filter tracked cs) \<and>
    successes cb' k = successes cb k + length (filter call_ok cs) \<and>
    cb_failure_threshold cb' = cb_failure_threshold cb \<and> cb_success_threshold cb' = cb_success_threshold cb \<and>
    cb_half_open_timeout cb' = cb_half_open_timeout cb \<and>
    Err CircuitOpen \<notin> set rs"
  using assms
proof (induction cs arbitrary: cb rs)
  case (Cons c cs)
  obtain now later f where c: "c = Call now later f" by (cases c)
  obtain r cb1 where 1: "cb_execute now later k f cb = (r, cb1)" by fastforce
  obtain rs1 where 2: "cb_run k cs cb1 = (rs1, cb')" "rs = r # rs1"
    using Cons.prems(4) c 1 by (auto split: prod.splits)
  have step: "quiet cb1 k \<and> failures cb1 k = failures cb k + (if tracked c then 1 else 0) \<and>
      successes cb1 k = successes cb k + (if call_ok c then 1 else 0) \<and>
      cb_failure_threshold cb1 = cb_failure_threshold cb \<and> cb_success_threshold cb1 = cb_success_threshold cb \<and>
      cb_half_open_timeout cb1 = cb_half_open_timeout cb \<and> r \<noteq> Err CircuitOpen"
    using 1 Cons.prems(1-3) quiet_success [of cb k later] quiet_failure [of cb k later] quiet_admit [of cb k now]
    by (cases f) (auto simp: cb_execute_def c tracked_def call_ok_def split: if_splits)
  then show ?case
    using Cons.IH [of cb1 rs1] Cons.prems 2 by (auto split: if_splits)
qed auto

lemma cb_run_append:
  "cb_run k (cs @ ds) cb = (case cb_run k cs cb of (rs, cb') \<Rightarrow>
     case cb_run k ds cb' of (rs', cb'') \<Rightarrow> (rs @ rs', cb''))"
  by (induction k cs cb rule: cb_run.induct) (auto split: prod.splits)

text \<open>What the trip leaves: an open circuit, no failures, and the successes counted so far.\<close>

lemma quiet_trip:
  assumes "quiet cb k" and "failures cb k + 1 = unat (cb_failure_threshold cb)" and "is_tracked_failure e"
  shows "\<exists>cb'. cb_execute now later k (Err e) cb = (Err (CircuitFailure (runtime_error_display e)), cb') \<and>
    get_state cb' k = Open (later + cb_half_open_timeout cb) \<and> successes cb' k = successes cb k \<and>
    failures cb' k = 0 \<and> cb_success_threshold cb' = cb_success_threshold cb"
  using failure_trips [OF assms(1,2), of later] quiet_admit [OF assms(1), of now] assms(3)
  by (auto simp: cb_execute_def failures_def successes_def cb_open_def Let_def cb_transition_def get_state_def)

lemma open_rejects:
  assumes "get_state cb k = Open until" and "\<forall>c \<in> set cs. (case c of Call now _ _ \<Rightarrow> now < until)"
  shows "cb_run k cs cb = (replicate (length cs) (Err CircuitOpen),
    cb\<lparr>cb_rejected := cb_rejected cb + of_nat (length cs)\<rparr>)"
  using assms
proof (induction cs arbitrary: cb)
  case (Cons c cs)
  obtain now later f where c: "c = Call now later f" by (cases c)
  have "cb_execute now later k f cb = (Err CircuitOpen, cb\<lparr>cb_rejected := cb_rejected cb + 1\<rparr>)"
    using Cons.prems by (simp add: c cb_execute_def cb_admit_def)
  then show ?case
    using Cons.IH [of "cb\<lparr>cb_rejected := cb_rejected cb + 1\<rparr>"] Cons.prems by (simp add: c add.assoc)
qed simp

lemma probe_closes:
  assumes "get_state cb k = Open until" and "until \<le> now" and "unat (cb_success_threshold cb) \<le> successes cb k + 1"
    and "successes cb k + 1 < 2 ^ 64"
  shows "\<exists>cb'. cb_execute now later k (Ok x) cb = (Ok x, cb') \<and> get_state cb' k = Closed"
proof -
  let ?cb = "cb_transition now k HalfOpen cb" and ?c = "case cb_success_count cb k of None \<Rightarrow> 0 | Some c \<Rightarrow> c"
  have "unat (?c + 1) = successes cb k + 1"
    using unat_add1 [of ?c] assms(4) by (simp add: successes_def split: option.splits)
  then have "cb_success_threshold cb \<le> ?c + 1" using assms(3) by (simp add: word_le_nat_alt)
  moreover have "cb_success_count ?cb = cb_success_count cb" "cb_success_threshold ?cb = cb_success_threshold cb"
    "cb_state ?cb k = Some HalfOpen"
    by (simp_all add: cb_transition_def)
  ultimately have "get_state (note_success later k ?cb) k = Closed"
    by (simp add: note_success_def Let_def)
  then show ?thesis using assms(1,2) by (simp add: cb_execute_def cb_admit_def)
qed

text \<open>A call moves the state of its own subsystem along the step relation.\<close>

lemma get_state_note_success: "get_state (note_success later k cb) k' =
    (if k' = k \<and> cb_state cb k = Some HalfOpen \<and> cb_success_threshold cb \<le> (case cb_success_count cb k of Some c \<Rightarrow> c | None \<Rightarrow> 0) + 1
     then Closed else get_state cb k')"
  by (simp add: note_success_def Let_def)

lemma get_state_note_failure: "get_state (note_failure later k cb) k' = get_state cb k' \<or>
    k' = k \<and> (\<exists>t. get_state (note_failure later k cb) k' = Open t)"
  by (simp add: note_failure_def Let_def)

lemma cb_execute_step: "cb_step (get_state cb k) (get_state (snd (cb_execute now later k f cb)) k)"
  using get_state_note_failure [of later k "cb_transition now k HalfOpen cb" k] get_state_note_failure [of later k cb k]
  by (auto simp: cb_execute_def cb_admit_def cb_step_simps get_state_note_success split: outcome.split circuit_state.split)

end
