(* ===== verification/Op_Queue.thy ===== *)
theory Op_Queue
  imports Exec_Types "HOL-Library.Multiset"
begin

text \<open>
  The operation queue (\<open>nova-executor/src/operation_queue.rs\<close>): four bounded FIFO queues, one per
  priority, with aging. A pending operation carries its context's priority; the rest of its request
  and context is the field \<open>po_work\<close>. The four queues are a list, indexed by priority.
\<close>

section \<open>State\<close>

record 'w pending_operation =
  po_work :: 'w
  po_priority :: priority
  po_submitted_at :: nat
  po_deadline :: nat
  po_retry_count :: u8
  po_priority_age :: u32

record 'w operation_queue =
  oq_queues :: "'w pending_operation list list"
  oq_depth :: nat
  oq_capacity :: nat
  oq_capacity_by_priority :: "nat list"
  oq_current_depth :: nat
  oq_rejected_count :: u64
  oq_wait_time_total :: u64
  oq_wait_time_count :: u64

record operation_queue_stats =
  oqs_depth :: nat
  oqs_capacity :: nat
  oqs_rejected :: u64
  oqs_by_priority :: "nat list"
  oqs_avg_wait_ms :: u64
  oqs_wait_count :: u64

definition oq_new :: "nat \<Rightarrow> 'w operation_queue" where
  "oq_new capacity = \<lparr>oq_queues = [[], [], [], []], oq_depth = 0, oq_capacity = capacity,
     oq_capacity_by_priority = [64, 128, 512, 320], oq_current_depth = 0, oq_rejected_count = 0,
     oq_wait_time_total = 0, oq_wait_time_count = 0\<rparr>"

section \<open>Push\<close>

definition push_back :: "nat \<Rightarrow> 'w pending_operation list \<Rightarrow> 'w pending_operation list list \<Rightarrow> 'w pending_operation list list" where
  "push_back i ops qs = qs[i := qs ! i @ ops]"

definition oq_push :: "'j \<Rightarrow> 'w pending_operation \<Rightarrow> 'w operation_queue \<Rightarrow>
    ('j operation_response, unit) outcome \<times> 'w operation_queue" where
  "oq_push nul op q =
     (if oq_capacity q \<le> oq_depth q
      then (Err (response_error nul EcServiceUnavailable ''Queue capacity exceeded''),
            q\<lparr>oq_rejected_count := oq_rejected_count q + 1\<rparr>)
      else let i = priority_index (po_priority op) in
        if oq_capacity_by_priority q ! i \<le> length (oq_queues q ! i)
        then (Err (response_error nul EcServiceUnavailable ''Priority queue capacity exceeded''),
              q\<lparr>oq_rejected_count := oq_rejected_count q + 1\<rparr>)
        else (Ok (), q\<lparr>oq_queues := push_back i [op] (oq_queues q), oq_depth := oq_depth q + 1,
              oq_current_depth := oq_depth q + 1\<rparr>))"

section \<open>Aging\<close>

definition aged_out :: "nat \<Rightarrow> 'w pending_operation \<Rightarrow> bool" where
  "aged_out now op \<longleftrightarrow> max_wait (po_priority op) \<le> now - po_submitted_at op \<and> po_priority_age op < 3"

text \<open>One promoted operation: to the queue of its new priority, or to the back of its own.\<close>

definition promote_one :: "nat \<Rightarrow> 'w pending_operation list list \<Rightarrow> 'w pending_operation \<Rightarrow> 'w pending_operation list list" where
  "promote_one level qs op =
     (let op' = op\<lparr>po_priority_age := po_priority_age op + 1\<rparr> in
      case age_up (po_priority op') of
        Some p \<Rightarrow> push_back (priority_index p) [op'\<lparr>po_priority := p\<rparr>] qs
      | None \<Rightarrow> push_back level [op'] qs)"

text \<open>The scan runs from the back of the queue to its front.\<close>

definition age_level :: "nat \<Rightarrow> 'w pending_operation list list \<Rightarrow> nat \<Rightarrow> 'w pending_operation list list" where
  "age_level now qs level =
     (let q = qs ! level;
          to_promote = rev (filter (aged_out now) q)
      in foldl (promote_one level) (qs[level := filter (\<lambda>op. \<not> aged_out now op) q]) to_promote)"

definition age_queues :: "nat \<Rightarrow> 'w pending_operation list list \<Rightarrow> 'w pending_operation list list" where
  "age_queues now qs = foldl (age_level now) qs [3, 2, 1]"

section \<open>Pop\<close>

fun pop_front :: "'w pending_operation list list \<Rightarrow> ('w pending_operation \<times> 'w pending_operation list list) option" where
  "pop_front [] = None"
| "pop_front ((op # q) # qs) = Some (op, q # qs)"
| "pop_front ([] # qs) = map_option (\<lambda>(op, qs'). (op, [] # qs')) (pop_front qs)"

definition oq_pop_priority :: "nat \<Rightarrow> 'w operation_queue \<Rightarrow> 'w pending_operation option \<times> 'w operation_queue" where
  "oq_pop_priority now q =
     (if oq_depth q = 0 then (None, q)
      else let qs = age_queues now (oq_queues q) in
        case pop_front qs of
          None \<Rightarrow> (None, q\<lparr>oq_queues := qs\<rparr>)
        | Some (op, qs') \<Rightarrow> (Some op, q\<lparr>oq_queues := qs', oq_depth := oq_depth q - 1,
            oq_current_depth := oq_depth q - 1,
            oq_wait_time_total := oq_wait_time_total q + of_nat (now - po_submitted_at op),
            oq_wait_time_count := oq_wait_time_count q + 1\<rparr>))"

section \<open>Cancelling, draining, statistics\<close>

text \<open>The operations that are sent a \<open>Cancelled\<close> response, in order, and their number.\<close>

definition oq_cancel_all :: "'w operation_queue \<Rightarrow> 'w pending_operation list \<times> nat \<times> 'w operation_queue" where
  "oq_cancel_all q =
     (let ops = concat (oq_queues q)
      in (ops, length ops, q\<lparr>oq_queues := [[], [], [], []], oq_depth := 0, oq_current_depth := 0\<rparr>))"

definition oq_drain :: "nat \<Rightarrow> 'w operation_queue \<Rightarrow> 'w pending_operation list \<times> 'w operation_queue" where
  "oq_drain deadline q =
     (let expired = concat (map (\<lambda>ops. rev (filter (\<lambda>op. po_deadline op \<le> deadline) ops)) (oq_queues q));
          depth = oq_depth q - length expired
      in (expired, q\<lparr>oq_queues := map (filter (\<lambda>op. \<not> po_deadline op \<le> deadline)) (oq_queues q),
            oq_depth := depth, oq_current_depth := depth\<rparr>))"

definition oq_stats :: "'w operation_queue \<Rightarrow> operation_queue_stats" where
  "oq_stats q = \<lparr>oqs_depth = oq_depth q, oqs_capacity = oq_capacity q, oqs_rejected = oq_rejected_count q,
     oqs_by_priority = map length (oq_queues q),
     oqs_avg_wait_ms = (if 0 < oq_wait_time_count q
       then oq_wait_time_total q div oq_wait_time_count q div 1000000 else 0),
     oqs_wait_count = oq_wait_time_count q\<rparr>"

section \<open>The well-formed queue\<close>

definition levels_ok :: "'w pending_operation list list \<Rightarrow> bool" where
  "levels_ok qs \<longleftrightarrow> length qs = 4 \<and> (\<forall>i < 4. \<forall>op \<in> set (qs ! i). priority_index (po_priority op) = i)"

definition oq_wf :: "'w operation_queue \<Rightarrow> bool" where
  "oq_wf q \<longleftrightarrow> levels_ok (oq_queues q) \<and> oq_depth q = length (concat (oq_queues q)) \<and>
     oq_current_depth q = oq_depth q \<and> oq_depth q \<le> oq_capacity q"

text \<open>The operations in the queues, whatever their order, priority and age.\<close>

definition identity :: "'w pending_operation \<Rightarrow> 'w \<times> nat \<times> nat" where
  "identity op = (po_work op, po_submitted_at op, po_deadline op)"

definition queued :: "'w pending_operation list list \<Rightarrow> ('w \<times> nat \<times> nat) multiset" where
  "queued qs = mset (map identity (concat qs))"

lemma levels_four: "levels_ok qs \<Longrightarrow> \<exists>a b c d. qs = [a, b, c, d]"
  by (auto simp: levels_ok_def numeral_eq_Suc length_Suc_conv)

lemma push_back_queued:
  "i < length qs \<Longrightarrow> queued (push_back i ops qs) = queued qs + mset (map identity ops)"
proof -
  assume i: "i < length qs"
  have "qs = take i qs @ qs ! i # drop (Suc i) qs" using i by (rule id_take_nth_drop)
  then have "queued qs = queued (take i qs @ qs ! i # drop (Suc i) qs)" by simp
  moreover have "push_back i ops qs = take i qs @ (qs ! i @ ops) # drop (Suc i) qs"
    using i by (simp add: push_back_def upd_conv_take_nth_drop)
  ultimately show ?thesis by (simp add: queued_def)
qed

lemma length_push_back [simp]: "length (push_back i ops qs) = length qs"
  by (simp add: push_back_def)

lemma push_back_levels:
  "levels_ok qs \<Longrightarrow> i < 4 \<Longrightarrow> \<forall>op \<in> set ops. priority_index (po_priority op) = i \<Longrightarrow> levels_ok (push_back i ops qs)"
  by (auto simp: levels_ok_def push_back_def nth_list_update)

lemma promote_one_ok:
  assumes "levels_ok qs" and "level < 4" and "priority_index (po_priority op) = level"
  shows "levels_ok (promote_one level qs op) \<and> queued (promote_one level qs op) = add_mset (identity op) (queued qs)"
proof (cases "age_up (po_priority op)")
  case None
  have "level < length qs" using assms by (simp add: levels_ok_def)
  then show ?thesis
    using None assms push_back_levels [of qs level]
    by (auto simp: promote_one_def push_back_queued identity_def)
next
  case (Some p)
  have "priority_index p < length qs" using assms(1) by (simp add: levels_ok_def)
  then show ?thesis
    using Some assms push_back_levels [of qs "priority_index p"]
    by (auto simp: promote_one_def push_back_queued identity_def)
qed

lemma promote_all_ok:
  assumes "levels_ok qs" and "level < 4" and "\<forall>op \<in> set ops. priority_index (po_priority op) = level"
  shows "levels_ok (foldl (promote_one level) qs ops) \<and>
    queued (foldl (promote_one level) qs ops) = queued qs + mset (map identity ops)"
  using assms
proof (induction ops arbitrary: qs)
  case (Cons op ops)
  then show ?case using promote_one_ok [OF Cons.prems(1,2), of op] by simp
qed simp

lemma mset_filter_split: "mset (filter P xs) + mset (filter (\<lambda>x. \<not> P x) xs) = mset xs"
  by (induction xs) auto

lemma age_level_ok:
  assumes "levels_ok qs" and "level < 4"
  shows "levels_ok (age_level now qs level) \<and> queued (age_level now qs level) = queued qs"
proof -
  let ?q = "qs ! level" and ?keep = "filter (\<lambda>op. \<not> aged_out now op) (qs ! level)"
  let ?qs = "qs[level := ?keep]" and ?ops = "rev (filter (aged_out now) ?q)"
  have len: "level < length qs" using assms by (simp add: levels_ok_def)
  have lev: "levels_ok ?qs" and pr: "\<forall>op \<in> set ?ops. priority_index (po_priority op) = level"
    using assms by (auto simp: levels_ok_def nth_list_update)
  have "queued ?qs + mset (map identity ?ops) = queued qs"
  proof -
    have "queued qs = queued (take level qs @ ?q # drop (Suc level) qs)"
      using id_take_nth_drop [OF len] by simp
    also have "\<dots> = queued (take level qs @ drop (Suc level) qs) + image_mset identity (mset ?q)"
      by (simp add: queued_def ac_simps)
    also have "image_mset identity (mset ?q) = image_mset identity (mset ?ops) + image_mset identity (mset ?keep)"
      unfolding image_mset_union [symmetric] mset_rev mset_filter_split ..
    finally show ?thesis
      by (simp add: upd_conv_take_nth_drop [OF len] queued_def ac_simps)
  qed
  then show ?thesis
    using promote_all_ok [OF lev assms(2) pr] by (simp add: age_level_def Let_def)
qed

lemma age_queues_ok:
  "levels_ok qs \<Longrightarrow> levels_ok (age_queues now qs) \<and> queued (age_queues now qs) = queued qs"
  using age_level_ok [of qs 3 now] age_level_ok [of "age_level now qs 3" 2 now]
    age_level_ok [of "age_level now (age_level now qs 3) 2" 1 now]
  by (simp add: age_queues_def)

lemma pop_front_Some:
  "pop_front qs = Some (op, qs') \<Longrightarrow> queued qs = add_mset (identity op) (queued qs') \<and> length qs' = length qs \<and>
   (\<forall>i < length qs. set (qs' ! i) \<subseteq> set (qs ! i))"
proof (induction qs arbitrary: op qs' rule: pop_front.induct)
  case (3 qs)
  then obtain qs1 where "pop_front qs = Some (op, qs1)" "qs' = [] # qs1" by auto
  with 3 show ?case by (auto simp: queued_def nth_Cons split: nat.split)
qed (auto simp: queued_def nth_Cons split: nat.split)

lemma pop_front_None: "pop_front qs = None \<Longrightarrow> concat qs = []"
  by (induction qs rule: pop_front.induct) auto

lemma size_queued: "size (queued qs) = length (concat qs)"
  by (simp add: queued_def)

lemma concat_nil_queued: "concat qs = [] \<longleftrightarrow> queued qs = {#}"
  by (simp add: queued_def)

lemma length_queued: "queued qs = add_mset x (queued qs') \<Longrightarrow> length (concat qs) = Suc (length (concat qs'))"
  by (metis size_queued size_add_mset)

lemma pop_front_age:
  assumes "oq_wf q" and "oq_depth q \<noteq> 0"
  obtains op qs' where "pop_front (age_queues now (oq_queues q)) = Some (op, qs')" "levels_ok qs'"
    "queued (oq_queues q) = add_mset (identity op) (queued qs')"
proof -
  let ?qs = "age_queues now (oq_queues q)"
  have qs: "levels_ok ?qs" "queued ?qs = queued (oq_queues q)"
    using age_queues_ok assms(1) unfolding oq_wf_def by blast+
  have "length (concat (oq_queues q)) \<noteq> 0" using assms unfolding oq_wf_def by simp
  then have "size (queued ?qs) \<noteq> 0" unfolding qs(2) size_queued .
  then have "concat ?qs \<noteq> []" unfolding size_queued by (metis list.size(3))
  then have "pop_front ?qs \<noteq> None" using pop_front_None [of ?qs] by blast
  then obtain op qs' where pop: "pop_front ?qs = Some (op, qs')" by auto
  have p: "queued ?qs = add_mset (identity op) (queued qs')" "length qs' = length ?qs"
    "\<forall>i < length ?qs. set (qs' ! i) \<subseteq> set (?qs ! i)"
    using pop_front_Some [OF pop] by blast+
  have "levels_ok qs'" using qs(1) p(2,3) by (simp add: levels_ok_def) blast
  with pop p(1) qs(2) show thesis using that by simp
qed

lemma pop_priority_ok:
  assumes "oq_wf q" and "oq_depth q \<noteq> 0"
  shows "\<exists>op q'. oq_pop_priority now q = (Some op, q') \<and> oq_wf q' \<and>
    queued (oq_queues q) = add_mset (identity op) (queued (oq_queues q')) \<and> oq_depth q' = oq_depth q - 1"
proof -
  obtain op qs' where pop: "pop_front (age_queues now (oq_queues q)) = Some (op, qs')" "levels_ok qs'"
    "queued (oq_queues q) = add_mset (identity op) (queued qs')"
    using pop_front_age [OF assms] .
  then have "length (concat qs') = oq_depth q - 1"
    using length_queued [OF pop(3)] assms(1) unfolding oq_wf_def by simp
  moreover have "oq_depth q - 1 \<le> oq_capacity q" using assms(1) unfolding oq_wf_def by linarith
  ultimately show ?thesis using pop assms(2) by (simp add: oq_pop_priority_def oq_wf_def del: length_concat)
qed

lemma push_cases:
  assumes "oq_push nul op q = (Ok (), q')"
  shows "oq_depth q < oq_capacity q" and "q' = q\<lparr>oq_queues := push_back (priority_index (po_priority op)) [op] (oq_queues q),
      oq_depth := oq_depth q + 1, oq_current_depth := oq_depth q + 1\<rparr>"
  using assms by (simp_all add: oq_push_def Let_def split: if_split_asm)

lemma push_ok:
  assumes "oq_wf q" and "oq_push nul op q = (Ok (), q')"
  shows "oq_wf q' \<and> queued (oq_queues q') = add_mset (identity op) (queued (oq_queues q)) \<and> oq_depth q' = oq_depth q + 1"
proof -
  let ?qs = "push_back (priority_index (po_priority op)) [op] (oq_queues q)"
  have m: "queued ?qs = add_mset (identity op) (queued (oq_queues q))"
    using assms by (simp add: push_back_queued oq_wf_def levels_ok_def)
  have "levels_ok ?qs"
    using assms(1) push_back_levels [of "oq_queues q" _ "[op]"] unfolding oq_wf_def by simp
  moreover have "length (concat ?qs) = oq_depth q + 1"
    using length_queued [OF m] assms(1) unfolding oq_wf_def by (simp del: length_concat)
  moreover have "oq_queues q' = ?qs" "oq_depth q' = oq_depth q + 1" "oq_current_depth q' = oq_depth q + 1"
    "oq_capacity q' = oq_capacity q"
    unfolding push_cases(2) [OF assms(2)] by simp_all
  moreover have "oq_depth q + 1 \<le> oq_capacity q" using push_cases(1) [OF assms(2)] by simp
  ultimately show ?thesis using m unfolding oq_wf_def by (simp del: length_concat)
qed

lemma push_refused:
  "oq_wf q \<Longrightarrow> oq_push nul op q = (Err e, q') \<Longrightarrow> oq_wf q' \<and> oq_queues q' = oq_queues q"
  by (auto simp: oq_push_def Let_def oq_wf_def split: if_splits)

lemma mset_concat_rev: "mset (concat (map (\<lambda>ops. rev (f ops)) qs)) = mset (concat (map f qs))"
  by (induction qs) auto

lemma drain_ok:
  assumes "oq_wf q" and "oq_drain deadline q = (ops, q')"
  shows "oq_wf q' \<and> queued (oq_queues q) = mset (map identity ops) + queued (oq_queues q') \<and>
    (\<forall>op \<in> set ops. po_deadline op \<le> deadline) \<and> (\<forall>op \<in> set (concat (oq_queues q')). deadline < po_deadline op)"
proof -
  let ?P = "\<lambda>op. po_deadline op \<le> deadline" and ?qs = "oq_queues q"
  have ops: "ops = concat (map (\<lambda>ops. rev (filter ?P ops)) ?qs)"
    and q': "q' = q\<lparr>oq_queues := map (filter (\<lambda>op. \<not> ?P op)) ?qs, oq_depth := oq_depth q - length ops,
      oq_current_depth := oq_depth q - length ops\<rparr>"
    using assms(2) by (auto simp: oq_drain_def Let_def)
  have m: "mset ops = mset (filter ?P (concat ?qs))"
    unfolding ops mset_concat_rev by (simp only: filter_concat)
  have rest: "concat (map (filter (\<lambda>op. \<not> ?P op)) ?qs) = filter (\<lambda>op. \<not> ?P op) (concat ?qs)"
    by (simp only: filter_concat)
  have all: "mset ops + mset (filter (\<lambda>op. \<not> ?P op) (concat ?qs)) = mset (concat ?qs)"
    unfolding m by (rule mset_filter_split)
  have "length ops + length (filter (\<lambda>op. \<not> ?P op) (concat ?qs)) = length (concat ?qs)"
    using arg_cong [OF all, of size] unfolding size_union size_mset .
  moreover have "queued ?qs = mset (map identity ops) + queued (map (filter (\<lambda>op. \<not> ?P op)) ?qs)"
    unfolding queued_def rest mset_map image_mset_union [symmetric] all ..
  moreover have "levels_ok (map (filter (\<lambda>op. \<not> ?P op)) ?qs)"
    using assms(1) by (auto simp: oq_wf_def levels_ok_def)
  moreover have "\<forall>op \<in> set ops. ?P op" by (auto simp: ops)
  ultimately show ?thesis
    using assms(1) unfolding q' oq_wf_def by (auto simp: rest)
qed

section \<open>Sequences of calls\<close>

datatype 'w queue_call = CPush "'w pending_operation" | CPop nat | CDrain nat | CCancelAll

text \<open>One call: what it accepted, what it handed out, the queue it leaves.\<close>

fun oq_call :: "'j \<Rightarrow> 'w queue_call \<Rightarrow> 'w operation_queue \<Rightarrow>
    'w pending_operation list \<times> 'w pending_operation list \<times> 'w operation_queue" where
  "oq_call nul (CPush op) q = (case oq_push nul op q of (Ok _, q') \<Rightarrow> ([op], [], q') | (_, q') \<Rightarrow> ([], [], q'))"
| "oq_call nul (CPop now) q = (case oq_pop_priority now q of (Some op, q') \<Rightarrow> ([], [op], q') | (None, q') \<Rightarrow> ([], [], q'))"
| "oq_call nul (CDrain deadline) q = (case oq_drain deadline q of (ops, q') \<Rightarrow> ([], ops, q'))"
| "oq_call nul CCancelAll q = (case oq_cancel_all q of (ops, _, q') \<Rightarrow> ([], ops, q'))"

fun oq_run :: "'j \<Rightarrow> 'w queue_call list \<Rightarrow> 'w operation_queue \<Rightarrow>
    'w pending_operation list \<times> 'w pending_operation list \<times> 'w operation_queue" where
  "oq_run nul [] q = ([], [], q)"
| "oq_run nul (c # cs) q =
     (case oq_call nul c q of (acc, out, q1) \<Rightarrow>
      case oq_run nul cs q1 of (acc', out', q2) \<Rightarrow> (acc @ acc', out @ out', q2))"

lemma oq_new_wf [simp]: "oq_wf (oq_new capacity)"
  by (auto simp: oq_wf_def oq_new_def levels_ok_def less_Suc_eq numeral_eq_Suc)

lemma oq_new_simps [simp]: "queued (oq_queues (oq_new capacity)) = {#}" "oq_capacity (oq_new capacity) = capacity"
  by (simp_all add: oq_new_def queued_def)

lemma cancel_all_ok:
  assumes "oq_wf q" and "oq_cancel_all q = (ops, n, q')"
  shows "oq_wf q' \<and> queued (oq_queues q) = mset (map identity ops) + queued (oq_queues q')"
  using assms by (auto simp: oq_cancel_all_def Let_def oq_wf_def queued_def levels_ok_def less_Suc_eq numeral_eq_Suc)

lemma oq_push_no_panic: "oq_push nul op q \<noteq> (Panic, q')" "oq_push nul op q \<noteq> (Deadlock, q')"
  by (auto simp: oq_push_def Let_def)

lemma oq_call_ok:
  assumes "oq_wf q" and "oq_call nul c q = (acc, out, q')"
  shows "oq_wf q' \<and> oq_capacity q' = oq_capacity q \<and>
    queued (oq_queues q) + mset (map identity acc) = mset (map identity out) + queued (oq_queues q')"
proof (cases c)
  case (CPush op)
  obtain r q1 where 1: "oq_push nul op q = (r, q1)" by fastforce
  then have "oq_capacity q1 = oq_capacity q" by (auto simp: oq_push_def Let_def split: if_splits)
  with 1 show ?thesis
    using CPush assms push_ok [of q nul op q1] push_refused [of q nul op _ q1] oq_push_no_panic [of nul op q q1]
    by (cases r) auto
next
  case (CPop now)
  show ?thesis
  proof (cases "oq_depth q = 0")
    case True
    then show ?thesis using CPop assms by (simp add: oq_pop_priority_def)
  next
    case False
    obtain op q1 where 1: "oq_pop_priority now q = (Some op, q1)" "oq_wf q1"
      "queued (oq_queues q) = add_mset (identity op) (queued (oq_queues q1))"
      using pop_priority_ok [OF assms(1) False, of now] by blast
    moreover from 1(1) have "oq_capacity q1 = oq_capacity q"
      by (auto simp: oq_pop_priority_def Let_def split: if_splits option.splits)
    ultimately show ?thesis using CPop assms(2) by auto
  qed
next
  case (CDrain t)
  then have "oq_drain t q = (out, q')" "acc = []" using assms(2) by (auto split: prod.splits)
  moreover from this have "oq_capacity q' = oq_capacity q" by (auto simp: oq_drain_def Let_def)
  ultimately show ?thesis using drain_ok [OF assms(1), of t out q'] by simp
next
  case CCancelAll
  then obtain n where "oq_cancel_all q = (out, n, q')" "acc = []" using assms(2) by (auto split: prod.splits)
  moreover from this have "oq_capacity q' = oq_capacity q" by (auto simp: oq_cancel_all_def Let_def)
  ultimately show ?thesis using cancel_all_ok [OF assms(1), of out n q'] by simp
qed

lemma oq_run_ok:
  assumes "oq_wf q" and "oq_run nul cs q = (acc, out, q')"
  shows "oq_wf q' \<and> oq_capacity q' = oq_capacity q \<and>
    queued (oq_queues q) + mset (map identity acc) = mset (map identity out) + queued (oq_queues q')"
  using assms
proof (induction cs arbitrary: q acc out)
  case (Cons c cs)
  obtain a1 o1 q1 where 1: "oq_call nul c q = (a1, o1, q1)" by (cases "oq_call nul c q")
  obtain a2 o2 where 2: "oq_run nul cs q1 = (a2, o2, q')" "acc = a1 @ a2" "out = o1 @ o2"
    using Cons.prems(2) 1 by (auto split: prod.splits)
  have c: "oq_wf q1" "oq_capacity q1 = oq_capacity q"
    "queued (oq_queues q) + mset (map identity a1) = mset (map identity o1) + queued (oq_queues q1)"
    using oq_call_ok [OF Cons.prems(1) 1] by auto
  have r: "oq_wf q'" "oq_capacity q' = oq_capacity q1"
    "queued (oq_queues q1) + mset (map identity a2) = mset (map identity o2) + queued (oq_queues q')"
    using Cons.IH [OF c(1) 2(1)] by auto
  have "queued (oq_queues q) + mset (map identity acc) =
      mset (map identity o1) + (queued (oq_queues q1) + mset (map identity a2))"
    using c(3) by (simp add: 2(2) add.assoc [symmetric])
  then show ?case using c r by (simp add: 2(3) add.assoc)
qed auto

section \<open>Aging and order\<close>

lemma filter_none: "\<forall>x \<in> set xs. \<not> P x \<Longrightarrow> filter P xs = [] \<and> filter (\<lambda>x. \<not> P x) xs = xs"
  by (simp add: filter_empty_conv)

text \<open>An aged operation of the high queue goes to the back of its own queue.\<close>

lemma aged_high_goes_back:
  assumes "po_priority a = PrHigh" and "aged_out now a" and "\<forall>b \<in> set bs. \<not> aged_out now b"
  shows "age_queues now [[], a # bs, [], []] = [[], bs @ [a\<lparr>po_priority_age := po_priority_age a + 1\<rparr>], [], []]"
  using assms filter_none [of bs "aged_out now"]
  by (simp add: age_queues_def age_level_def promote_one_def push_back_def)

end
