(* ===== verification/Rate_Limiter.thy ===== *)
theory Rate_Limiter
  imports Exec_Types Complex_Main
begin

text \<open>
  Token buckets and the rate limiter of the pipeline (\<open>nova-executor/src/rate_limiter.rs\<close>). The code
  computes in \<open>f64\<close>: the record \<open>float_ops\<close> holds the operations it uses, and \<open>exact_ops\<close>
  instantiates them with exact arithmetic on the reals. The atomic updates run one at a time. A
  \<open>DashMap\<close> is an association list without duplicate keys; which entry its iterator yields first is the
  argument \<open>pick\<close>.
\<close>

section \<open>Arithmetic\<close>

record 'f float_ops =
  fl_add :: "'f \<Rightarrow> 'f \<Rightarrow> 'f"
  fl_sub :: "'f \<Rightarrow> 'f \<Rightarrow> 'f"
  fl_mul :: "'f \<Rightarrow> 'f \<Rightarrow> 'f"
  fl_less :: "'f \<Rightarrow> 'f \<Rightarrow> bool"
  fl_max :: "'f \<Rightarrow> 'f \<Rightarrow> 'f"
  fl_secs :: "nat \<Rightarrow> 'f"
  fl_lit :: "nat \<Rightarrow> 'f"

definition exact_ops :: "real float_ops" where
  "exact_ops = \<lparr>fl_add = (+), fl_sub = (-), fl_mul = (*), fl_less = (<), fl_max = max,
     fl_secs = (\<lambda>ns. real ns / 1000000000), fl_lit = real\<rparr>"

section \<open>Token buckets\<close>

record 'f token_bucket =
  tb_tokens :: 'f
  tb_capacity :: 'f
  tb_refill_rate :: 'f
  tb_last_refill :: nat

definition tb_new :: "nat \<Rightarrow> 'f \<Rightarrow> 'f \<Rightarrow> 'f token_bucket" where
  "tb_new now rate_per_sec burst = \<lparr>tb_tokens = burst, tb_capacity = burst, tb_refill_rate = rate_per_sec,
     tb_last_refill = now\<rparr>"

definition tb_refill :: "'f float_ops \<Rightarrow> nat \<Rightarrow> 'f token_bucket \<Rightarrow> 'f token_bucket" where
  "tb_refill F now b =
     (let elapsed = fl_secs F (now - tb_last_refill b) in
      if fl_less F (fl_lit F 0) elapsed
      then let added = fl_mul F elapsed (tb_refill_rate b);
               new_val = fl_add F (tb_tokens b) added
           in b\<lparr>tb_last_refill := now,
                tb_tokens := (if fl_less F (tb_capacity b) new_val then tb_capacity b else new_val)\<rparr>
      else b)"

definition tb_try_consume :: "'f float_ops \<Rightarrow> nat \<Rightarrow> 'f \<Rightarrow> 'f token_bucket \<Rightarrow> bool \<times> 'f token_bucket" where
  "tb_try_consume F now tokens b =
     (let b' = tb_refill F now b in
      if fl_less F (tb_tokens b') tokens then (False, b')
      else (True, b'\<lparr>tb_tokens := fl_sub F (tb_tokens b') tokens\<rparr>))"

definition tb_available :: "'f float_ops \<Rightarrow> nat \<Rightarrow> 'f token_bucket \<Rightarrow> 'f \<times> 'f token_bucket" where
  "tb_available F now b = (let b' = tb_refill F now b in (tb_tokens b', b'))"

section \<open>The limiter\<close>

record 'f rate_limit_config =
  rc_global_per_sec :: 'f
  rc_global_burst :: 'f
  rc_user_per_sec :: 'f
  rc_user_burst :: 'f
  rc_ip_per_sec :: 'f
  rc_ip_burst :: 'f
  rc_critical_per_sec :: 'f
  rc_critical_burst :: 'f
  rc_max_tracked_users :: nat
  rc_max_tracked_ips :: nat
  rc_operation_limits :: "(operation_type \<times> 'f) list"

definition rate_limit_config_default :: "'f float_ops \<Rightarrow> 'f rate_limit_config" where
  "rate_limit_config_default F = (let n = fl_lit F in
     \<lparr>rc_global_per_sec = n 10000, rc_global_burst = n 20000, rc_user_per_sec = n 100, rc_user_burst = n 200,
      rc_ip_per_sec = n 1000, rc_ip_burst = n 2000, rc_critical_per_sec = n 50000, rc_critical_burst = n 100000,
      rc_max_tracked_users = 10000, rc_max_tracked_ips = 10000,
      rc_operation_limits = [(OpGet, n 5000), (OpList, n 500), (OpCreate, n 1000), (OpUpdate, n 1000),
        (OpDelete, n 500), (OpSearch, n 200), (OpEnqueue, n 2000), (OpDequeue, n 2000), (OpBlobPut, n 100),
        (OpBlobGet, n 500)]\<rparr>)"

record 'f rate_limiter =
  rl_global :: "'f token_bucket"
  rl_per_user :: "(u128 \<times> 'f token_bucket) list"
  rl_per_ip :: "(bytes \<times> 'f token_bucket) list"
  rl_per_operation :: "(operation_type \<times> 'f token_bucket) list"
  rl_critical :: "'f token_bucket"
  rl_max_tracked_users :: nat
  rl_max_tracked_ips :: nat
  rl_config :: "'f rate_limit_config"
  rl_hits :: u64
  rl_waived :: u64

definition operation_bucket :: "'f float_ops \<Rightarrow> nat \<Rightarrow> 'f \<Rightarrow> 'f token_bucket" where
  "operation_bucket F now rate = tb_new now rate (fl_max F (fl_mul F rate (fl_lit F 2)) (fl_lit F 100))"

definition rl_new :: "'f float_ops \<Rightarrow> nat \<Rightarrow> 'f rate_limit_config \<Rightarrow> 'f rate_limiter" where
  "rl_new F now cfg = \<lparr>rl_global = tb_new now (rc_global_per_sec cfg) (rc_global_burst cfg), rl_per_user = [],
     rl_per_ip = [], rl_per_operation = map (\<lambda>(op, rate). (op, operation_bucket F now rate)) (rc_operation_limits cfg),
     rl_critical = tb_new now (rc_critical_per_sec cfg) (rc_critical_burst cfg),
     rl_max_tracked_users = rc_max_tracked_users cfg, rl_max_tracked_ips = rc_max_tracked_ips cfg,
     rl_config = cfg, rl_hits = 0, rl_waived = 0\<rparr>"

text \<open>Entry or insert, with one victim removed first when the map is full.\<close>

definition put_assoc :: "'k \<Rightarrow> 'v \<Rightarrow> ('k \<times> 'v) list \<Rightarrow> ('k \<times> 'v) list" where
  "put_assoc k v m = (k, v) # filter (\<lambda>e. fst e \<noteq> k) m"

definition tracked_bucket :: "('k list \<Rightarrow> 'k) \<Rightarrow> nat \<Rightarrow> 'f token_bucket \<Rightarrow> 'k \<Rightarrow> ('k \<times> 'f token_bucket) list \<Rightarrow>
    'f token_bucket \<times> ('k \<times> 'f token_bucket) list" where
  "tracked_bucket pick limit fresh k m =
     (let m' = (if map_of m k = None \<and> limit \<le> length m \<and> m \<noteq> []
                then filter (\<lambda>e. fst e \<noteq> pick (map fst m)) m else m)
      in case map_of m' k of Some b \<Rightarrow> (b, m') | None \<Rightarrow> (fresh, put_assoc k fresh m'))"

definition rl_user_consume :: "'f float_ops \<Rightarrow> (u128 list \<Rightarrow> u128) \<Rightarrow> nat \<Rightarrow> u128 \<Rightarrow> 'f rate_limiter \<Rightarrow> bool \<times> 'f rate_limiter" where
  "rl_user_consume F pick now user rl =
     (let (b, m) = tracked_bucket pick (rl_max_tracked_users rl)
            (tb_new now (rc_user_per_sec (rl_config rl)) (rc_user_burst (rl_config rl))) user (rl_per_user rl);
          (ok, b') = tb_try_consume F now (fl_lit F 1) b
      in (ok, rl\<lparr>rl_per_user := put_assoc user b' m\<rparr>))"

definition rl_ip_consume :: "'f float_ops \<Rightarrow> (bytes list \<Rightarrow> bytes) \<Rightarrow> nat \<Rightarrow> bytes \<Rightarrow> 'f rate_limiter \<Rightarrow> bool \<times> 'f rate_limiter" where
  "rl_ip_consume F pick now ip rl =
     (let (b, m) = tracked_bucket pick (rl_max_tracked_ips rl)
            (tb_new now (rc_ip_per_sec (rl_config rl)) (rc_ip_burst (rl_config rl))) ip (rl_per_ip rl);
          (ok, b') = tb_try_consume F now (fl_lit F 1) b
      in (ok, rl\<lparr>rl_per_ip := put_assoc ip b' m\<rparr>))"

definition rl_operation_consume :: "'f float_ops \<Rightarrow> nat \<Rightarrow> operation_type \<Rightarrow> 'f rate_limiter \<Rightarrow> bool \<times> 'f rate_limiter" where
  "rl_operation_consume F now op rl =
     (let b = (case map_of (rl_per_operation rl) op of Some b \<Rightarrow> b
               | None \<Rightarrow> operation_bucket F now
                   (case map_of (rc_operation_limits (rl_config rl)) op of Some r \<Rightarrow> r | None \<Rightarrow> fl_lit F 1000));
          (ok, b') = tb_try_consume F now (fl_lit F 1) b
      in (ok, rl\<lparr>rl_per_operation := put_assoc op b' (rl_per_operation rl)\<rparr>))"

definition rl_hit :: "'f rate_limiter \<Rightarrow> bool \<times> 'f rate_limiter" where
  "rl_hit rl = (False, rl\<lparr>rl_hits := rl_hits rl + 1\<rparr>)"

definition rl_check :: "'f float_ops \<Rightarrow> (u128 list \<Rightarrow> u128) \<Rightarrow> (bytes list \<Rightarrow> bytes) \<Rightarrow> nat \<Rightarrow> 'j operation_context \<Rightarrow>
    'j operation_request \<Rightarrow> 'f rate_limiter \<Rightarrow> bool \<times> 'f rate_limiter" where
  "rl_check F pick_user pick_ip now ctx req rl =
     (let (ok, g) = tb_try_consume F now (fl_lit F 1) (rl_global rl); rl = rl\<lparr>rl_global := g\<rparr> in
      if \<not> ok then rl_hit rl
      else let (ok, rl) = (case cx_user_session ctx of
                 Some s \<Rightarrow> rl_user_consume F pick_user now (us_user_id s) rl | None \<Rightarrow> (True, rl)) in
      if \<not> ok then rl_hit rl
      else let (ok, rl) = rl_ip_consume F pick_ip now (fst (cx_source_addr ctx)) rl in
      if \<not> ok then rl_hit rl
      else let (ok, rl) = rl_operation_consume F now (rq_operation_type req) rl in
      if \<not> ok then rl_hit rl
      else if oo_priority (rq_options req) = PrCritical
      then let (ok, c) = tb_try_consume F now (fl_lit F 1) (rl_critical rl)
           in (True, rl\<lparr>rl_critical := c, rl_waived := (if ok then rl_waived rl else rl_waived rl + 1)\<rparr>)
      else (True, rl))"

definition rl_update_config :: "nat \<Rightarrow> 'f rate_limit_config \<Rightarrow> 'f rate_limiter \<Rightarrow> 'f rate_limiter" where
  "rl_update_config now cfg rl = rl\<lparr>rl_config := cfg, rl_global := tb_new now (rc_global_per_sec cfg) (rc_global_burst cfg),
     rl_critical := tb_new now (rc_critical_per_sec cfg) (rc_critical_burst cfg)\<rparr>"

definition rl_reset_key :: "u128 \<Rightarrow> 'f rate_limiter \<Rightarrow> 'f rate_limiter" where
  "rl_reset_key user rl = rl\<lparr>rl_per_user := filter (\<lambda>e. fst e \<noteq> user) (rl_per_user rl)\<rparr>"

definition rl_reset_all :: "'f rate_limiter \<Rightarrow> 'f rate_limiter" where
  "rl_reset_all rl = rl\<lparr>rl_per_user := [], rl_per_ip := []\<rparr>"

section \<open>Lemmas\<close>

text \<open>Under exact arithmetic the tokens plus what was handed out stay below what was ever available.\<close>

fun tb_run :: "'f float_ops \<Rightarrow> nat list \<Rightarrow> 'f token_bucket \<Rightarrow> bool list \<times> 'f token_bucket" where
  "tb_run F [] b = ([], b)"
| "tb_run F (t # ts) b =
     (case tb_try_consume F t (fl_lit F 1) b of (ok, b') \<Rightarrow>
      case tb_run F ts b' of (oks, b'') \<Rightarrow> (ok # oks, b''))"

definition granted :: "bool list \<Rightarrow> nat" where "granted oks = length (filter id oks)"

lemma tb_refill_exact:
  assumes "0 \<le> tb_refill_rate b" and "tb_last_refill b \<le> now" and "tb_tokens b \<le> tb_capacity b"
  shows "tb_tokens (tb_refill exact_ops now b) =
      min (tb_capacity b) (tb_tokens b + tb_refill_rate b * (real (now - tb_last_refill b) / 1000000000))"
    and "tb_last_refill (tb_refill exact_ops now b) = now"
    and "tb_capacity (tb_refill exact_ops now b) = tb_capacity b"
    and "tb_refill_rate (tb_refill exact_ops now b) = tb_refill_rate b"
  using assms by (auto simp: tb_refill_def exact_ops_def Let_def mult.commute)

lemma tb_run_exact:
  assumes "0 \<le> tb_refill_rate b" and "tb_tokens b \<le> tb_capacity b" and "0 \<le> tb_tokens b"
    and "sorted (tb_last_refill b # ts)" and "tb_run exact_ops ts b = (oks, b')"
  shows "real (granted oks) + tb_tokens b' \<le>
      tb_tokens b + tb_refill_rate b * (real (last (tb_last_refill b # ts) - tb_last_refill b) / 1000000000) \<and>
    0 \<le> tb_tokens b' \<and> tb_tokens b' \<le> tb_capacity b"
  using assms
proof (induction ts arbitrary: b oks)
  case Nil
  then show ?case by (simp add: granted_def)
next
  case (Cons t ts)
  let ?b = "tb_refill exact_ops t b"
  obtain ok b1 where 1: "tb_try_consume exact_ops t 1 b = (ok, b1)" by fastforce
  have one: "fl_lit exact_ops 1 = 1" by (simp add: exact_ops_def)
  obtain oks1 where 2: "tb_run exact_ops ts b1 = (oks1, b')" "oks = ok # oks1"
    using Cons.prems(5) 1 one by (auto split: prod.splits)
  note r = tb_refill_exact [OF Cons.prems(1) _ Cons.prems(2), of t]
  have lt: "tb_last_refill b \<le> t" using Cons.prems(4) by simp
  have b1: "tb_capacity b1 = tb_capacity b" "tb_refill_rate b1 = tb_refill_rate b" "tb_last_refill b1 = t"
    "tb_tokens b1 = tb_tokens ?b - (if ok then 1 else 0)" "0 \<le> tb_tokens b1" "tb_tokens b1 \<le> tb_capacity b1"
    using 1 r [OF lt] Cons.prems(1-3)
    by (auto simp: tb_try_consume_def Let_def exact_ops_def split: if_splits)
  have tok: "tb_tokens ?b \<le> tb_tokens b + tb_refill_rate b * (real (t - tb_last_refill b) / 1000000000)"
    using r(1) [OF lt] by simp
  have IH: "real (granted oks1) + tb_tokens b' \<le>
      tb_tokens b1 + tb_refill_rate b1 * (real (last (t # ts) - t) / 1000000000) \<and>
    0 \<le> tb_tokens b' \<and> tb_tokens b' \<le> tb_capacity b1"
    using Cons.IH [of b1 oks1] b1 Cons.prems 2(1) by simp
  have le: "t \<le> last (t # ts)" using Cons.prems(4) by (cases ts rule: rev_cases) auto
  have "real (last (t # ts) - t) + real (t - tb_last_refill b) = real (last (t # ts) - tb_last_refill b)"
    using le lt by simp
  then have "tb_refill_rate b * (real (last (t # ts) - t) / 1000000000) +
      tb_refill_rate b * (real (t - tb_last_refill b) / 1000000000) =
      tb_refill_rate b * (real (last (t # ts) - tb_last_refill b) / 1000000000)"
    by (simp add: add_divide_distrib [symmetric] distrib_left [symmetric])
  then show ?case
    using IH tok b1 2(2) by (auto simp: granted_def)
qed

end
