(* ===== verification/Exec_Metrics.thy ===== *)
theory Exec_Metrics
  imports Exec_Types
begin

text \<open>
  The counters of the pipeline (\<open>nova-executor/src/metrics.rs\<close>): operation counts by type and
  status, stage latencies, and the histogram of queue waits. The percentiles, which the code computes in
  floating point, are left out.
\<close>

section \<open>Histogram\<close>

record histogram =
  hg_buckets :: "(u64 \<times> u64) list"
  hg_total :: u64
  hg_sum :: u64

definition histogram_new :: histogram where
  "histogram_new = \<lparr>hg_buckets = map (\<lambda>b. (b, 0)) [1000, 5000, 10000, 50000, 100000, 500000, 1000000, 5000000,
     10000000, 50000000, 100000000, 500000000, 1000000000, 5000000000, 10000000000, 60000000000, -1],
     hg_total = 0, hg_sum = 0\<rparr>"

fun bucket_record :: "u64 \<Rightarrow> (u64 \<times> u64) list \<Rightarrow> (u64 \<times> u64) list" where
  "bucket_record v [] = []"
| "bucket_record v ((upper, count) # bs) =
     (if v \<le> upper then (upper, count + 1) # bs else (upper, count) # bucket_record v bs)"

definition histogram_record :: "u64 \<Rightarrow> histogram \<Rightarrow> histogram" where
  "histogram_record v h = h\<lparr>hg_total := hg_total h + 1, hg_sum := hg_sum h + v,
     hg_buckets := bucket_record v (hg_buckets h)\<rparr>"

definition histogram_avg :: "histogram \<Rightarrow> u64" where
  "histogram_avg h = (if hg_total h = 0 then 0 else hg_sum h div hg_total h)"

section \<open>Counters\<close>

record pipeline_metrics =
  pm_operations_total :: u64
  pm_by_type :: "operation_type \<Rightarrow> u64 option"
  pm_by_status :: "status_code \<Rightarrow> u64 option"
  pm_queue_wait :: histogram
  pm_stage_latency :: "pipeline_stage \<Rightarrow> (u64 \<times> u64) option"

definition metrics_new :: pipeline_metrics where
  "metrics_new = \<lparr>pm_operations_total = 0, pm_by_type = Map.empty, pm_by_status = Map.empty,
     pm_queue_wait = histogram_new, pm_stage_latency = Map.empty\<rparr>"

definition bump :: "('k \<Rightarrow> u64 option) \<Rightarrow> 'k \<Rightarrow> 'k \<Rightarrow> u64 option" where
  "bump m k = m(k \<mapsto> (case m k of Some c \<Rightarrow> c | None \<Rightarrow> 0) + 1)"

definition record_operation :: "operation_type \<Rightarrow> status_code \<Rightarrow> pipeline_metrics \<Rightarrow> pipeline_metrics" where
  "record_operation t st pm = pm\<lparr>pm_operations_total := pm_operations_total pm + 1,
     pm_by_type := bump (pm_by_type pm) t, pm_by_status := bump (pm_by_status pm) st\<rparr>"

definition record_stage :: "pipeline_stage \<Rightarrow> u64 \<Rightarrow> pipeline_metrics \<Rightarrow> pipeline_metrics" where
  "record_stage st d pm =
     (let (total, n) = (case pm_stage_latency pm st of Some e \<Rightarrow> e | None \<Rightarrow> (0, 0))
      in pm\<lparr>pm_stage_latency := (pm_stage_latency pm)(st \<mapsto> (total + d, n + 1))\<rparr>)"

definition record_queue_wait :: "u64 \<Rightarrow> pipeline_metrics \<Rightarrow> pipeline_metrics" where
  "record_queue_wait w pm = pm\<lparr>pm_queue_wait := histogram_record w (pm_queue_wait pm)\<rparr>"

section \<open>Lemmas\<close>

text \<open>The last bound is the largest word, so every value falls in a bucket.\<close>

lemma sum_bucket_record:
  "\<exists>e \<in> set bs. v \<le> fst e \<Longrightarrow> sum_list (map snd (bucket_record v bs)) = sum_list (map snd bs) + 1"
  by (induction v bs rule: bucket_record.induct) (auto simp: algebra_simps)

lemma bucket_record_bounds [simp]: "map fst (bucket_record v bs) = map fst bs"
  by (induction v bs rule: bucket_record.induct) auto

definition histogram_ok :: "histogram \<Rightarrow> bool" where
  "histogram_ok h \<longleftrightarrow> hg_total h = sum_list (map snd (hg_buckets h)) \<and> -1 \<in> fst ` set (hg_buckets h)"

lemma histogram_record_ok: "histogram_ok h \<Longrightarrow> histogram_ok (histogram_record v h)"
proof -
  assume h: "histogram_ok h"
  then have "\<exists>e \<in> set (hg_buckets h). v \<le> fst e"
    by (auto simp: histogram_ok_def intro!: bexI [of _ "(-1, _)"])
  moreover have "-1 \<in> fst ` set (bucket_record v (hg_buckets h))"
    using h bucket_record_bounds [of v "hg_buckets h"] unfolding histogram_ok_def set_map [symmetric] by simp
  ultimately show ?thesis
    using h sum_bucket_record [of "hg_buckets h" v] by (simp add: histogram_ok_def histogram_record_def)
qed

end
