(* ===== verification/Pipeline.thy ===== *)
theory Pipeline
  imports Circuit_Breaker Op_Queue Rate_Limiter Exec_Metrics
begin

text \<open>
  The execution pipeline (\<open>nova-executor/src/middleware.rs\<close>, \<open>pipeline.rs\<close>): the middleware chain,
  the stages, the retry loop and \<open>execute\<close>. Middleware are client objects, given by their handlers.
  What a run reads from outside (clock readings, the jitter of a retry) is the record
  \<open>readings\<close>. The semaphore only delays a request.
\<close>

section \<open>Middleware\<close>

type_synonym 'j stage_fn =
  "'j operation_context \<Rightarrow> 'j operation_request \<Rightarrow> 'j pipeline_result \<times> 'j operation_context \<times> 'j operation_request"

record 'j middleware =
  mw_name :: string
  mw_stage :: pipeline_stage
  mw_order :: u32
  mw_handle :: "'j stage_fn \<Rightarrow> 'j stage_fn"
  mw_enabled :: bool

type_synonym 'j chain = "'j middleware list"

definition quoted :: "string \<Rightarrow> string" where "quoted s = [CHR 0x27] @ s @ [CHR 0x27]"

definition chain_register :: "'j middleware \<Rightarrow> 'j chain \<Rightarrow> (string, unit) outcome \<times> 'j chain" where
  "chain_register reg ms =
     (if mw_name reg \<in> set (map mw_name ms)
      then (Err (''Middleware '' @ quoted (mw_name reg) @ '' already registered''), ms)
      else (Ok (), ms @ [reg]))"

definition mw_not_found :: "string \<Rightarrow> (string, unit) outcome" where
  "mw_not_found name = Err (''Middleware '' @ quoted name @ '' not found'')"

fun remove_named :: "string \<Rightarrow> 'j chain \<Rightarrow> 'j chain option" where
  "remove_named name [] = None"
| "remove_named name (m # ms) = (if mw_name m = name then Some ms else map_option (Cons m) (remove_named name ms))"

definition chain_unregister :: "string \<Rightarrow> 'j chain \<Rightarrow> (string, unit) outcome \<times> 'j chain" where
  "chain_unregister name ms =
     (case remove_named name ms of Some ms' \<Rightarrow> (Ok (), ms') | None \<Rightarrow> (mw_not_found name, ms))"

fun set_enabled :: "bool \<Rightarrow> string \<Rightarrow> 'j chain \<Rightarrow> 'j chain option" where
  "set_enabled on name [] = None"
| "set_enabled on name (m # ms) =
     (if mw_name m = name then Some (m\<lparr>mw_enabled := on\<rparr> # ms)
      else map_option (Cons m) (set_enabled on name ms))"

definition chain_enable :: "string \<Rightarrow> 'j chain \<Rightarrow> (string, unit) outcome \<times> 'j chain" where
  "chain_enable name ms =
     (case set_enabled True name ms of Some ms' \<Rightarrow> (Ok (), ms') | None \<Rightarrow> (mw_not_found name, ms))"

definition chain_disable :: "string \<Rightarrow> 'j chain \<Rightarrow> (string, unit) outcome \<times> 'j chain" where
  "chain_disable name ms =
     (case set_enabled False name ms of Some ms' \<Rightarrow> (Ok (), ms') | None \<Rightarrow> (mw_not_found name, ms))"

definition for_stage :: "pipeline_stage \<Rightarrow> 'j chain \<Rightarrow> 'j chain" where
  "for_stage st ms = sort_key mw_order (filter (\<lambda>m. mw_stage m = st \<and> mw_enabled m) ms)"

definition run_chain :: "pipeline_stage \<Rightarrow> 'j stage_fn \<Rightarrow> 'j chain \<Rightarrow> 'j stage_fn" where
  "run_chain st f ms = foldr (\<lambda>m prev. mw_handle m prev) (for_stage st ms) f"

section \<open>Configuration and state\<close>

record 'f pipeline_config =
  pc_max_concurrent_ops :: u32
  pc_pipeline_queue_depth :: u32
  pc_worker_threads :: u32
  pc_default_operation_timeout_ms :: u64
  pc_max_operation_timeout_ms :: u64
  pc_rate_limits :: "'f rate_limit_config"
  pc_circuit_breaker_threshold :: u64
  pc_circuit_breaker_window_ms :: u64
  pc_circuit_breaker_half_open_timeout_ms :: u64
  pc_circuit_breaker_success_threshold :: u64
  pc_audit_enabled :: bool
  pc_audit_include_payloads :: bool
  pc_audit_max_entry_size :: u32
  pc_idempotency_key_ttl_secs :: u64
  pc_max_idempotency_keys :: u32
  pc_max_retries :: u8
  pc_retry_base_delay_ms :: u64
  pc_retry_max_delay_ms :: u64

text \<open>The six rate limits of the configuration are the first fields of the limiter's.\<close>

definition pipeline_config_default :: "'f float_ops \<Rightarrow> 'f pipeline_config" where
  "pipeline_config_default F = \<lparr>pc_max_concurrent_ops = 256, pc_pipeline_queue_depth = 1024, pc_worker_threads = 4,
     pc_default_operation_timeout_ms = 5000, pc_max_operation_timeout_ms = 60000,
     pc_rate_limits = rate_limit_config_default F, pc_circuit_breaker_threshold = 50,
     pc_circuit_breaker_window_ms = 10000, pc_circuit_breaker_half_open_timeout_ms = 10000,
     pc_circuit_breaker_success_threshold = 10, pc_audit_enabled = True, pc_audit_include_payloads = False,
     pc_audit_max_entry_size = 4096, pc_idempotency_key_ttl_secs = 86400, pc_max_idempotency_keys = 100000,
     pc_max_retries = 3, pc_retry_base_delay_ms = 10, pc_retry_max_delay_ms = 1000\<rparr>"

record ('j, 'f, 'w) pipeline =
  px_config :: "'f pipeline_config"
  px_middleware :: "'j chain"
  px_rate_limiter :: "'f rate_limiter"
  px_circuit_breaker :: breaker
  px_operation_queue :: "'w operation_queue"
  px_metrics :: pipeline_metrics
  px_active_operations :: u64
  px_total_operations :: u64
  px_is_running :: bool
  px_is_draining :: bool
  px_started_at :: nat
  px_idempotency_cache :: "(u128 \<times> 'j operation_response \<times> nat) list"

definition pipeline_new :: "'f float_ops \<Rightarrow> nat \<Rightarrow> 'f pipeline_config \<Rightarrow> ('j, 'f, 'w) pipeline" where
  "pipeline_new F now cfg = \<lparr>px_config = cfg, px_middleware = [], px_rate_limiter = rl_new F now (pc_rate_limits cfg),
     px_circuit_breaker = breaker_new (pc_circuit_breaker_threshold cfg) (pc_circuit_breaker_success_threshold cfg)
       (pc_circuit_breaker_half_open_timeout_ms cfg) (pc_circuit_breaker_window_ms cfg),
     px_operation_queue = oq_new (unat (pc_pipeline_queue_depth cfg)), px_metrics = metrics_new,
     px_active_operations = 0, px_total_operations = 0, px_is_running = True, px_is_draining = False,
     px_started_at = now, px_idempotency_cache = []\<rparr>"

text \<open>What a run reads: the clock at each point, the time each stage took, and per attempt the
  reading before the back-off, the jitter in milliseconds, and the readings after the sleep.\<close>

record attempt_readings =
  ar_before :: nat
  ar_jitter :: nat
  ar_start :: nat
  ar_stage :: nat
  ar_elapsed :: nat
  ar_done :: nat

record readings =
  rd_idempotency :: nat
  rd_rate :: nat
  rd_deadline :: nat
  rd_elapsed :: "pipeline_stage \<Rightarrow> nat"
  rd_attempt :: "nat \<Rightarrow> attempt_readings"
  rd_duration :: nat
  rd_store :: nat

section \<open>Stages\<close>

definition stage_error :: "'j \<Rightarrow> pipeline_stage \<Rightarrow> error_code \<Rightarrow> string \<Rightarrow> 'j pipeline_result" where
  "stage_error nul st code msg = PError (with_stage st (pipeline_error_new nul code msg))"

text \<open>The decimal text of the size is an argument: \<open>shown\<close>.\<close>

definition parse_stage :: "'j \<Rightarrow> (u64 \<Rightarrow> string) \<Rightarrow> 'j stage_fn" where
  "parse_stage nul shown ctx req =
     (let ctx = ctx\<lparr>cx_stage := StParse\<rparr>;
          req = (case rq_payload req of
                   Some p \<Rightarrow> if rq_payload_size req = 0 then req\<lparr>rq_payload_size := of_nat (length p)\<rparr> else req
                 | None \<Rightarrow> req)
      in (if 10 * 1024 * 1024 < rq_payload_size req
          then stage_error nul StParse EcPayloadTooLarge
            (''payload size '' @ shown (rq_payload_size req) @ '' exceeds limit'')
          else PContinue, ctx, req))"

fun target_valid :: "operation_target \<Rightarrow> bool" where
  "target_valid (TObject type_name _) \<longleftrightarrow> type_name \<noteq> []"
| "target_valid (TCollection type_name) \<longleftrightarrow> type_name \<noteq> []"
| "target_valid (TQueue name) \<longleftrightarrow> name \<noteq> []"
| "target_valid (TSchedule _) \<longleftrightarrow> True"
| "target_valid (TBlob _) \<longleftrightarrow> True"
| "target_valid (TAuth realm) \<longleftrightarrow> realm \<noteq> []"
| "target_valid (TAdmin endpoint) \<longleftrightarrow> endpoint \<noteq> []"
| "target_valid TSystem \<longleftrightarrow> True"

definition validate_stage :: "'j \<Rightarrow> 'j stage_fn" where
  "validate_stage nul ctx req =
     (let ctx = ctx\<lparr>cx_stage := StValidate\<rparr> in
      (if 0 < rq_payload_size req \<and> rq_payload req = None
       then stage_error nul StValidate EcValidationError ''payload_size > 0 but no payload provided''
       else if \<not> target_valid (rq_target req)
       then stage_error nul StValidate EcValidationError ''invalid operation target''
       else if (case oo_timeout (rq_options req) of
                  Some t \<Rightarrow> 3600000 < unat (of_nat (as_millis t) :: u64) | None \<Rightarrow> False)
       then stage_error nul StValidate EcValidationError ''operation timeout exceeds maximum''
       else PContinue, ctx, req))"

definition may_mutate :: "user_session option \<Rightarrow> bool" where
  "may_mutate us = (case us of None \<Rightarrow> False
     | Some s \<Rightarrow> list_ex (\<lambda>p. contains_str p ''write'' \<or> contains_str p ''admin'') (us_permissions s))"

definition authorize_stage :: "'j \<Rightarrow> 'j stage_fn" where
  "authorize_stage nul ctx req =
     (let ctx = ctx\<lparr>cx_stage := StAuthorize\<rparr> in
      (if is_mutation (rq_operation_type req) \<and> \<not> may_mutate (cx_user_session ctx)
       then stage_error nul StAuthorize EcAuthorizationError ''insufficient permissions for mutation operation''
       else PContinue, ctx, req))"

fun target_subsystem :: "operation_target \<Rightarrow> subsystem_id" where
  "target_subsystem (TObject _ _) = SubStorage"
| "target_subsystem (TCollection _) = SubStorage"
| "target_subsystem (TQueue _) = SubQueue"
| "target_subsystem (TSchedule _) = SubScheduler"
| "target_subsystem (TBlob _) = SubBlob"
| "target_subsystem (TAuth _) = SubAuth"
| "target_subsystem (TAdmin _) = SubAdmin"
| "target_subsystem TSystem = SubPipeline"

definition execute_stage :: "'j \<Rightarrow> nat \<Rightarrow> 'j stage_fn" where
  "execute_stage nul now ctx req =
     (let ctx = ctx\<lparr>cx_stage := StExecute\<rparr> in
      if is_expired now ctx
      then (stage_error nul StExecute EcDeadlineExceeded ''deadline exceeded before execution'', ctx, req)
      else (PContinue, ctx\<lparr>cx_subsystem := target_subsystem (rq_target req)\<rparr>, req))"

definition pass_stage :: "'j stage_fn" where
  "pass_stage ctx req = (PContinue, ctx, req)"

section \<open>Retries\<close>

definition U64_MAX :: nat where "U64_MAX = 2 ^ 64 - 1"

definition calculate_backoff :: "nat \<Rightarrow> nat \<Rightarrow> nat \<Rightarrow> nat" where
  "calculate_backoff attempt base_ms max_ms =
     (let delay = min U64_MAX (base_ms * min U64_MAX (5 ^ (attempt - 1)))
      in from_millis (min delay max_ms))"

definition deadline_error :: "'j \<Rightarrow> string \<Rightarrow> 'j pipeline_error" where
  "deadline_error nul msg = with_stage StExecute (pipeline_error_new nul EcDeadlineExceeded msg)"

definition circuit_blocks :: "nat \<Rightarrow> subsystem_id \<Rightarrow> breaker \<Rightarrow> bool" where
  "circuit_blocks now sub cb = (case get_state cb sub of Open until \<Rightarrow> now < until | _ \<Rightarrow> False)"

text \<open>One attempt, from the check of the deadline to the result of the chain; \<open>Inl\<close> ends the loop.\<close>

definition exec_attempt :: "'j \<Rightarrow> attempt_readings \<Rightarrow> 'j chain \<Rightarrow> 'f pipeline_config \<Rightarrow> nat \<Rightarrow>
    'j operation_context \<Rightarrow> 'j operation_request \<Rightarrow> breaker \<Rightarrow>
    'j pipeline_error + 'j pipeline_result \<times> 'j operation_context \<times> 'j operation_request" where
  "exec_attempt nul a ms cfg attempt ctx req cb =
     (let delay = calculate_backoff attempt (unat (pc_retry_base_delay_ms cfg)) (unat (pc_retry_max_delay_ms cfg)) in
      if 0 < attempt \<and> remaining_deadline (ar_before a) ctx \<le> delay + from_millis (ar_jitter a)
      then Inl (deadline_error nul ''deadline exceeded before retry'')
      else if is_expired (ar_start a) ctx then Inl (deadline_error nul ''deadline exceeded'')
      else let ctx = ctx\<lparr>cx_retry_count := of_nat attempt\<rparr> in
      if circuit_blocks (ar_start a) (target_subsystem (rq_target req)) cb
      then Inl (with_stage StExecute (pipeline_error_new nul EcCircuitBreakerOpen ''circuit breaker is open''))
      else Inr (case run_chain StExecute (execute_stage nul (ar_stage a)) ms ctx req of
        (r, ctx, req) \<Rightarrow> (r, ctx\<lparr>cx_stage_elapsed := ar_elapsed a\<rparr>, req)))"

text \<open>The attempts that end before the chain runs leave the retry count of the attempt before; the
  circuit check comes after the count is set.\<close>

definition attempt_context :: "attempt_readings \<Rightarrow> 'f pipeline_config \<Rightarrow> nat \<Rightarrow> 'j operation_context \<Rightarrow> 'j operation_context" where
  "attempt_context a cfg attempt ctx =
     (let delay = calculate_backoff attempt (unat (pc_retry_base_delay_ms cfg)) (unat (pc_retry_max_delay_ms cfg)) in
      if 0 < attempt \<and> remaining_deadline (ar_before a) ctx \<le> delay + from_millis (ar_jitter a) \<or> is_expired (ar_start a) ctx
      then ctx else ctx\<lparr>cx_retry_count := of_nat attempt\<rparr>)"

function exec_loop :: "'j \<Rightarrow> (nat \<Rightarrow> attempt_readings) \<Rightarrow> 'j chain \<Rightarrow> 'f pipeline_config \<Rightarrow> nat \<Rightarrow> nat \<Rightarrow>
    'j operation_context \<Rightarrow> 'j operation_request \<Rightarrow> breaker \<Rightarrow>
    ('j pipeline_error, stage_status) outcome \<times> 'j operation_context \<times> 'j operation_request \<times> breaker" where
  "exec_loop nul rd ms cfg max_retries attempt ctx req cb =
     (let a = rd attempt in
      case exec_attempt nul a ms cfg attempt ctx req cb of
        Inl e \<Rightarrow> (Err e, attempt_context a cfg attempt ctx, req, cb)
      | Inr (PContinue, ctx', req') \<Rightarrow> (Ok StageSuccess, ctx', req',
          snd (cb_execute (ar_done a) (ar_done a) (target_subsystem (rq_target req)) (Ok () :: (runtime_error, unit) outcome) cb))
      | Inr (PShortCircuit _, ctx', req') \<Rightarrow> (Ok StageShortCircuit, ctx', req', cb)
      | Inr (PError e, ctx', req') \<Rightarrow>
          if \<not> pe_retryable e \<or> max_retries \<le> attempt then (Err e, ctx', req', cb)
          else exec_loop nul rd ms cfg max_retries (attempt + 1) ctx' req' cb)"
  by pat_completeness auto
termination by (relation "measure (\<lambda>(_, _, _, _, max_retries, attempt, _). max_retries - attempt)") auto

declare exec_loop.simps [simp del]

definition execute_with_retry :: "'j \<Rightarrow> (nat \<Rightarrow> attempt_readings) \<Rightarrow> 'j chain \<Rightarrow> 'f pipeline_config \<Rightarrow>
    'j operation_context \<Rightarrow> 'j operation_request \<Rightarrow> breaker \<Rightarrow>
    ('j pipeline_error, stage_status) outcome \<times> 'j operation_context \<times> 'j operation_request \<times> breaker" where
  "execute_with_retry nul rd ms cfg ctx req cb =
     exec_loop nul rd ms cfg (unat (min (oo_max_retries (rq_options req)) (pc_max_retries cfg))) 0 ctx req cb"

section \<open>A run through the stages\<close>

definition build_error_response :: "'j operation_context \<Rightarrow> nat \<Rightarrow> 'j pipeline_error \<Rightarrow> 'j operation_response" where
  "build_error_response ctx duration e = \<lparr>rs_status = error_status (pe_code e), rs_success = False, rs_data = None,
     rs_data_size = 0, rs_trace_id = cx_trace_id ctx, rs_duration_ns = of_nat duration,
     rs_error = Some \<lparr>ei_code = pe_code e, ei_message = pe_message e, ei_details = pe_details e,
       ei_retryable = response_retryable (pe_code e), ei_retry_after_ms = None\<rparr>,
     rs_warnings = [], rs_stage_timings = []\<rparr>"

fun pre_stages :: "'j chain \<Rightarrow> (pipeline_stage \<Rightarrow> nat) \<Rightarrow> (pipeline_stage \<times> 'j stage_fn) list \<Rightarrow> 'j stage_fn" where
  "pre_stages ms elapsed [] ctx req = (PContinue, ctx, req)"
| "pre_stages ms elapsed ((st, f) # sts) ctx req =
     (case run_chain st f ms (ctx\<lparr>cx_stage := st\<rparr>) req of
        (r, ctx', req') \<Rightarrow>
          let ctx'' = ctx'\<lparr>cx_stage_elapsed := elapsed st\<rparr> in
          (case r of PContinue \<Rightarrow> pre_stages ms elapsed sts ctx'' req' | _ \<Rightarrow> (r, ctx'', req')))"

definition post_stage :: "'j chain \<Rightarrow> pipeline_stage \<Rightarrow> 'j operation_context \<times> 'j operation_request \<Rightarrow>
    'j operation_context \<times> 'j operation_request" where
  "post_stage ms st = (\<lambda>(ctx, req). snd (run_chain st pass_stage ms (ctx\<lparr>cx_stage := st\<rparr>) req))"

definition final_response :: "'j \<Rightarrow> nat \<Rightarrow> ('j pipeline_error, stage_status) outcome \<Rightarrow> 'j operation_context \<Rightarrow> 'j operation_response" where
  "final_response nul duration r ctx =
     (case r of
        Err e \<Rightarrow> build_error_response ctx duration e
      | Ok StageError \<Rightarrow> build_error_response ctx duration
          (with_stage StExecute (pipeline_error_new nul EcInternalError ''stage returned error status''))
      | _ \<Rightarrow> \<lparr>rs_status = ScOk, rs_success = True, rs_data = None, rs_data_size = 0,
          rs_trace_id = cx_trace_id ctx, rs_duration_ns = of_nat duration, rs_error = None,
          rs_warnings = [], rs_stage_timings = []\<rparr>)"

definition run_pipeline :: "'j \<Rightarrow> (u64 \<Rightarrow> string) \<Rightarrow> readings \<Rightarrow> 'j chain \<Rightarrow> 'f pipeline_config \<Rightarrow>
    'j operation_context \<Rightarrow> 'j operation_request \<Rightarrow> breaker \<Rightarrow> 'j operation_response \<times> 'j operation_request \<times> breaker" where
  "run_pipeline nul shown rd ms cfg ctx req cb =
     (case pre_stages ms (rd_elapsed rd) [(StParse, parse_stage nul shown), (StValidate, validate_stage nul),
            (StAuthorize, authorize_stage nul)] ctx req of
        (PShortCircuit resp, _, req) \<Rightarrow> (resp, req, cb)
      | (PError e, ctx, req) \<Rightarrow> (build_error_response ctx (rd_duration rd) e, req, cb)
      | (PContinue, ctx, req) \<Rightarrow>
          (case execute_with_retry nul (rd_attempt rd) ms cfg ctx req cb of
             (r, ctx, req, cb') \<Rightarrow>
               (case post_stage ms StNotify (post_stage ms StLog (ctx, req)) of
                  (ctx, req) \<Rightarrow> (final_response nul (rd_duration rd) r ctx, req, cb'))))"

section \<open>Execute\<close>

definition check_idempotency :: "nat \<Rightarrow> u128 \<Rightarrow> operation_type \<Rightarrow> (u128 \<times> 'j operation_response \<times> nat) list \<Rightarrow>
    'j operation_response option" where
  "check_idempotency now k t cache =
     (if \<not> is_mutation t then None
      else case map_of cache k of Some (resp, expires) \<Rightarrow> if now < expires then Some resp else None | None \<Rightarrow> None)"

definition store_idempotency :: "nat \<Rightarrow> 'f pipeline_config \<Rightarrow> u128 \<Rightarrow> 'j operation_response \<Rightarrow>
    (u128 \<times> 'j operation_response \<times> nat) list \<Rightarrow> (u128 \<times> 'j operation_response \<times> nat) list" where
  "store_idempotency now cfg k resp cache =
     (if rs_success resp
      then put_assoc k (resp, now + from_secs (unat (pc_idempotency_key_ttl_secs cfg)))
        (if unat (pc_max_idempotency_keys cfg) \<le> length cache then [] else cache)
      else cache)"

definition clamped_timeout :: "'f pipeline_config \<Rightarrow> 'j operation_request \<Rightarrow> u64" where
  "clamped_timeout cfg req =
     min (case oo_timeout (rq_options req) of Some d \<Rightarrow> of_nat (as_millis d) | None \<Rightarrow> pc_default_operation_timeout_ms cfg)
         (pc_max_operation_timeout_ms cfg)"

record ('j, 'f) pipeline_env =
  pv_null :: 'j
  pv_shown :: "u64 \<Rightarrow> string"
  pv_float :: "'f float_ops"
  pv_pick_user :: "u128 list \<Rightarrow> u128"
  pv_pick_ip :: "bytes list \<Rightarrow> bytes"

text \<open>Once admitted: the rate limit, the deadline, the run, the idempotency entry, the counters.\<close>

definition pipeline_admitted :: "('j, 'f) pipeline_env \<Rightarrow> readings \<Rightarrow> 'j operation_request \<Rightarrow> 'j operation_context \<Rightarrow>
    ('j, 'f, 'w) pipeline \<Rightarrow> 'j operation_response \<times> ('j, 'f, 'w) pipeline" where
  "pipeline_admitted env rd req ctx px =
     (let px = px\<lparr>px_active_operations := px_active_operations px + 1\<rparr>;
          (ok, rl) = rl_check (pv_float env) (pv_pick_user env) (pv_pick_ip env) (rd_rate rd) ctx req (px_rate_limiter px);
          px = px\<lparr>px_rate_limiter := rl\<rparr>
      in if \<not> ok
         then (response_error (pv_null env) EcRateLimited ''rate limit exceeded'',
               px\<lparr>px_active_operations := px_active_operations px - 1\<rparr>)
         else let ctx = ctx\<lparr>cx_deadline := rd_deadline rd + from_millis (unat (clamped_timeout (px_config px) req))\<rparr> in
           (case run_pipeline (pv_null env) (pv_shown env) rd (px_middleware px) (px_config px) ctx req (px_circuit_breaker px) of
              (resp, req', cb) \<Rightarrow>
                (resp, px\<lparr>px_circuit_breaker := cb,
                  px_idempotency_cache := (case oo_idempotency_key (rq_options req') of
                     Some k \<Rightarrow> store_idempotency (rd_store rd) (px_config px) k resp (px_idempotency_cache px)
                   | None \<Rightarrow> px_idempotency_cache px),
                  px_metrics := record_operation (rq_operation_type req') (rs_status resp) (px_metrics px),
                  px_total_operations := px_total_operations px + 1,
                  px_active_operations := px_active_operations px - 1\<rparr>)))"

definition pipeline_execute :: "('j, 'f) pipeline_env \<Rightarrow> readings \<Rightarrow> 'j operation_request \<Rightarrow> 'j operation_context \<Rightarrow>
    ('j, 'f, 'w) pipeline \<Rightarrow> 'j operation_response \<times> ('j, 'f, 'w) pipeline" where
  "pipeline_execute env rd req ctx px =
     (if \<not> px_is_running px
      then (response_error (pv_null env) EcServiceUnavailable ''pipeline is not running'', px)
      else if px_is_draining px
      then (response_error (pv_null env) EcServiceUnavailable ''pipeline is draining'', px)
      else case Option.bind (oo_idempotency_key (rq_options req))
             (\<lambda>k. check_idempotency (rd_idempotency rd) k (rq_operation_type req) (px_idempotency_cache px)) of
        Some cached \<Rightarrow> (cached, px)
      | None \<Rightarrow>
          if oq_capacity (px_operation_queue px) \<le> oq_current_depth (px_operation_queue px)
          then (response_error (pv_null env) EcServiceUnavailable ''operation queue full'', px)
          else pipeline_admitted env rd req ctx px)"

text \<open>\<open>drain\<close>: the operations still active at each poll before the deadline, and whether the
  deadline has passed then, are the list \<open>polls\<close>.\<close>

fun drain_polls :: "(u64 \<times> bool) list \<Rightarrow> ('j, 'f, 'w) pipeline \<Rightarrow> bool \<times> ('j, 'f, 'w) pipeline" where
  "drain_polls [] px = (True, px\<lparr>px_is_running := False\<rparr>)"
| "drain_polls ((active, late) # ps) px =
     (if 0 < active then if late then (False, px\<lparr>px_is_draining := False\<rparr>) else drain_polls ps px
      else (True, px\<lparr>px_is_running := False\<rparr>))"

definition pipeline_drain :: "(u64 \<times> bool) list \<Rightarrow> ('j, 'f, 'w) pipeline \<Rightarrow> bool \<times> ('j, 'f, 'w) pipeline" where
  "pipeline_drain polls px = drain_polls polls (px\<lparr>px_is_draining := True\<rparr>)"

definition pipeline_update_rate_limits :: "nat \<Rightarrow> 'f rate_limit_config \<Rightarrow> ('j, 'f, 'w) pipeline \<Rightarrow> ('j, 'f, 'w) pipeline" where
  "pipeline_update_rate_limits now cfg px = px\<lparr>px_rate_limiter := rl_update_config now cfg (px_rate_limiter px)\<rparr>"

end
