(* ===== verification/Cancel_Token.thy ===== *)
theory Cancel_Token
  imports Nova_Prelude
begin

text \<open>
  Cancellation tokens (\<open>nova-executor/src/cancellation.rs\<close>). Tokens share their inner cell, so they
  live in a store: a token is the address of its cell. A callback is either the one \<open>child_token\<close>
  registers, which raises the flag of the child's cell, or one of the client's, known by a number;
  the calls made to the client are logged.
\<close>

section \<open>State and operations\<close>

datatype callback = SetFlag nat | Client nat

record token_inner =
  ti_cancelled :: bool
  ti_callbacks :: "callback list"

record token_store =
  ts_cells :: "nat \<Rightarrow> token_inner option"
  ts_next :: nat
  ts_calls :: "nat list"

definition token_new :: "token_store \<Rightarrow> nat \<times> token_store" where
  "token_new ts = (ts_next ts, ts\<lparr>ts_cells := (ts_cells ts)(ts_next ts \<mapsto> \<lparr>ti_cancelled = False, ti_callbacks = []\<rparr>),
     ts_next := ts_next ts + 1\<rparr>)"

definition set_flag :: "nat \<Rightarrow> token_store \<Rightarrow> token_store" where
  "set_flag t ts = ts\<lparr>ts_cells := (ts_cells ts)(t := map_option (\<lambda>c. c\<lparr>ti_cancelled := True\<rparr>) (ts_cells ts t))\<rparr>"

definition set_callbacks :: "nat \<Rightarrow> callback list \<Rightarrow> token_store \<Rightarrow> token_store" where
  "set_callbacks t cbs ts =
     ts\<lparr>ts_cells := (ts_cells ts)(t := map_option (\<lambda>c. c\<lparr>ti_callbacks := cbs\<rparr>) (ts_cells ts t))\<rparr>"

fun run_callback :: "callback \<Rightarrow> token_store \<Rightarrow> token_store" where
  "run_callback (SetFlag t) ts = set_flag t ts"
| "run_callback (Client n) ts = ts\<lparr>ts_calls := ts_calls ts @ [n]\<rparr>"

definition token_callbacks :: "token_store \<Rightarrow> nat \<Rightarrow> callback list" where
  "token_callbacks ts t = (case ts_cells ts t of Some c \<Rightarrow> ti_callbacks c | None \<Rightarrow> [])"

definition token_is_cancelled :: "token_store \<Rightarrow> nat \<Rightarrow> bool" where
  "token_is_cancelled ts t = (case ts_cells ts t of Some c \<Rightarrow> ti_cancelled c | None \<Rightarrow> False)"

text \<open>\<open>cancel\<close>: raise the flag, take the callbacks out of the cell, then run them in order.\<close>

definition token_cancel :: "nat \<Rightarrow> token_store \<Rightarrow> token_store" where
  "token_cancel t ts =
     (let ts1 = set_flag t ts;
          cbs = token_callbacks ts1 t
      in fold run_callback cbs (set_callbacks t [] ts1))"

definition token_on_cancel :: "nat \<Rightarrow> callback \<Rightarrow> token_store \<Rightarrow> token_store" where
  "token_on_cancel t cb ts =
     (if token_is_cancelled ts t then run_callback cb ts
      else set_callbacks t (token_callbacks ts t @ [cb]) ts)"

definition token_drain :: "nat \<Rightarrow> token_store \<Rightarrow> token_store" where
  "token_drain t ts = set_callbacks t [] ts"

definition token_child :: "nat \<Rightarrow> token_store \<Rightarrow> nat \<times> token_store" where
  "token_child t ts = (case token_new ts of (c, ts') \<Rightarrow> (c, token_on_cancel t (SetFlag c) ts'))"

definition token_store_empty :: token_store where
  "token_store_empty = \<lparr>ts_cells = Map.empty, ts_next = 0, ts_calls = []\<rparr>"

section \<open>Lemmas\<close>

definition token_alloc :: "token_store \<Rightarrow> nat \<Rightarrow> bool" where
  "token_alloc ts t \<longleftrightarrow> ts_cells ts t \<noteq> None"

text \<open>Addresses in use are below the next one, and callbacks point to cells in use.\<close>

definition tokens_wf :: "token_store \<Rightarrow> bool" where
  "tokens_wf ts \<longleftrightarrow> (\<forall>t. token_alloc ts t \<longrightarrow> t < ts_next ts) \<and>
     (\<forall>t c. SetFlag c \<in> set (token_callbacks ts t) \<longrightarrow> token_alloc ts c)"

lemma set_flag_simps [simp]:
  "token_is_cancelled (set_flag t ts) t' \<longleftrightarrow> (if t' = t then token_alloc ts t else token_is_cancelled ts t')"
  "token_callbacks (set_flag t ts) t' = token_callbacks ts t'"
  "token_alloc (set_flag t ts) t' = token_alloc ts t'"
  "ts_next (set_flag t ts) = ts_next ts" "ts_calls (set_flag t ts) = ts_calls ts"
  by (auto simp: set_flag_def token_is_cancelled_def token_callbacks_def token_alloc_def split: option.splits)

lemma set_callbacks_simps [simp]:
  "token_is_cancelled (set_callbacks t cbs ts) t' = token_is_cancelled ts t'"
  "token_callbacks (set_callbacks t cbs ts) t' = (if t' = t \<and> token_alloc ts t then cbs else token_callbacks ts t')"
  "token_alloc (set_callbacks t cbs ts) t' = token_alloc ts t'"
  "ts_next (set_callbacks t cbs ts) = ts_next ts" "ts_calls (set_callbacks t cbs ts) = ts_calls ts"
  by (auto simp: set_callbacks_def token_is_cancelled_def token_callbacks_def token_alloc_def split: option.splits)

fun client_call :: "callback \<Rightarrow> nat list" where
  "client_call (Client n) = [n]"
| "client_call (SetFlag _) = []"

definition client_calls :: "callback list \<Rightarrow> nat list" where
  "client_calls cbs = concat (map client_call cbs)"

lemma log_simps [simp]:
  "token_is_cancelled (ts\<lparr>ts_calls := l\<rparr>) t = token_is_cancelled ts t"
  "token_callbacks (ts\<lparr>ts_calls := l\<rparr>) t = token_callbacks ts t"
  "token_alloc (ts\<lparr>ts_calls := l\<rparr>) t = token_alloc ts t"
  by (simp_all add: token_is_cancelled_def token_callbacks_def token_alloc_def)

lemma cancelled_alloc: "token_is_cancelled ts t \<Longrightarrow> token_alloc ts t"
  by (auto simp: token_is_cancelled_def token_alloc_def split: option.splits)

lemma run_callback_simps [simp]:
  "token_is_cancelled (run_callback cb ts) t \<longleftrightarrow> token_is_cancelled ts t \<or> cb = SetFlag t \<and> token_alloc ts t"
  "token_callbacks (run_callback cb ts) t = token_callbacks ts t"
  "token_alloc (run_callback cb ts) t = token_alloc ts t"
  "ts_next (run_callback cb ts) = ts_next ts"
  "ts_calls (run_callback cb ts) = ts_calls ts @ client_call cb"
  by (cases cb; auto dest: cancelled_alloc)+

lemma fold_callbacks [simp]:
  "token_is_cancelled (fold run_callback cbs ts) t \<longleftrightarrow> token_is_cancelled ts t \<or> SetFlag t \<in> set cbs \<and> token_alloc ts t"
  "token_callbacks (fold run_callback cbs ts) t = token_callbacks ts t"
  "token_alloc (fold run_callback cbs ts) t = token_alloc ts t"
  "ts_next (fold run_callback cbs ts) = ts_next ts"
  "ts_calls (fold run_callback cbs ts) = ts_calls ts @ client_calls cbs"
  by (induction cbs arbitrary: ts) (auto simp: client_calls_def)

text \<open>What \<open>cancel\<close> does to the flags and to the client.\<close>

lemma cancel_effect:
  assumes "token_alloc ts t"
  shows "token_is_cancelled (token_cancel t ts) t' \<longleftrightarrow>
      token_is_cancelled ts t' \<or> t' = t \<or> SetFlag t' \<in> set (token_callbacks ts t) \<and> token_alloc ts t'"
    and "ts_calls (token_cancel t ts) = ts_calls ts @ client_calls (token_callbacks ts t)"
    and "token_callbacks (token_cancel t ts) t' = (if t' = t then [] else token_callbacks ts t')"
    and "token_alloc (token_cancel t ts) t' = token_alloc ts t'"
    and "ts_next (token_cancel t ts) = ts_next ts"
  using assms by (auto simp: token_cancel_def Let_def)

lemma token_new_simps [simp]:
  "fst (token_new ts) = ts_next ts"
  "token_alloc (snd (token_new ts)) t \<longleftrightarrow> t = ts_next ts \<or> token_alloc ts t"
  "token_is_cancelled (snd (token_new ts)) t \<longleftrightarrow> t \<noteq> ts_next ts \<and> token_is_cancelled ts t"
  "token_callbacks (snd (token_new ts)) t = (if t = ts_next ts then [] else token_callbacks ts t)"
  "ts_calls (snd (token_new ts)) = ts_calls ts" "ts_next (snd (token_new ts)) = ts_next ts + 1"
  by (auto simp: token_new_def token_alloc_def token_is_cancelled_def token_callbacks_def)

lemma on_cancel_simps [simp]:
  "token_alloc (token_on_cancel t cb ts) t' = token_alloc ts t'"
  "ts_next (token_on_cancel t cb ts) = ts_next ts"
  by (auto simp: token_on_cancel_def)

lemma alloc_next: "tokens_wf ts \<Longrightarrow> \<not> token_alloc ts (ts_next ts)"
  by (auto simp: tokens_wf_def)

lemma callbacks_unalloc: "\<not> token_alloc ts t \<Longrightarrow> token_callbacks ts t = []"
  by (simp add: token_alloc_def token_callbacks_def)

lemma tokens_wf_empty [simp]: "tokens_wf token_store_empty"
  by (simp add: tokens_wf_def token_store_empty_def token_alloc_def token_callbacks_def)

lemma tokens_wf_child:
  assumes "tokens_wf ts" and "token_alloc ts t"
  shows "tokens_wf (snd (token_child t ts))"
proof -
  have "token_callbacks (snd (token_child t ts)) t' =
      (if t' = t \<and> \<not> token_is_cancelled ts t then token_callbacks ts t @ [SetFlag (ts_next ts)] else token_callbacks ts t')" for t'
    using alloc_next [OF assms(1)] assms(2) callbacks_unalloc [of ts "ts_next ts"] token_new_simps [of ts]
    by (cases "token_new ts") (auto simp: token_child_def token_on_cancel_def)
  moreover have "token_alloc (snd (token_child t ts)) t' \<longleftrightarrow> t' = ts_next ts \<or> token_alloc ts t'" for t'
    using token_new_simps(2) [of ts] by (cases "token_new ts") (auto simp: token_child_def)
  moreover have "ts_next (snd (token_child t ts)) = ts_next ts + 1"
    using token_new_simps(6) [of ts] by (cases "token_new ts") (auto simp: token_child_def)
  ultimately show ?thesis
    using assms by (auto simp: tokens_wf_def less_Suc_eq split: if_splits)
qed

text \<open>A child made while the parent is not cancelled.\<close>

lemma child_effect:
  assumes "tokens_wf ts" and "token_alloc ts t" and "\<not> token_is_cancelled ts t" and "token_child t ts = (c, ts')"
  shows "c = ts_next ts" "token_alloc ts' c" "\<not> token_is_cancelled ts' c" "token_callbacks ts' c = []"
    and "token_callbacks ts' t = token_callbacks ts t @ [SetFlag c]" "c \<noteq> t"
    and "t' \<noteq> t \<Longrightarrow> t' \<noteq> c \<Longrightarrow> token_callbacks ts' t' = token_callbacks ts t'"
    and "t' \<noteq> c \<Longrightarrow> token_is_cancelled ts' t' = token_is_cancelled ts t'"
    and "token_alloc ts' t' \<longleftrightarrow> t' = c \<or> token_alloc ts t'"
    and "ts_calls ts' = ts_calls ts"
  using assms alloc_next [OF assms(1)] token_new_simps [of ts] callbacks_unalloc [of ts "ts_next ts"]
  by (cases "token_new ts"; auto simp: token_child_def token_on_cancel_def)+

end
