(* ===== verification/Exec_Properties.thy ===== *)
theory Exec_Properties
  imports Pipeline Cancel_Token
begin

text \<open>
  The properties of the executor: the circuit breaker over runs of calls, the operation queue over runs
  of operations, cancellation, rate limiting, and whole requests through the pipeline.
\<close>

section \<open>The circuit breaker\<close>

text \<open>C17: The breaker trips at the threshold. From a fresh circuit, calls are let through and
  the circuit stays closed as long as fewer than \<open>failure_threshold\<close> tracked failures were
  seen, however many successes lie between them and however far apart they are; the next tracked
  failure opens it until the half-open time, and every call before that time is refused without
  touching the state.\<close>

theorem breaker_trips:
  fixes cs ds :: "'a breaker_call list"
  assumes "quiet cb k" and "failures cb k = 0" and "successes cb k + length cs < 2 ^ 64"
    and "Suc (length (filter tracked cs)) = unat (cb_failure_threshold cb)" and "is_tracked_failure e"
    and "\<forall>c \<in> set ds. case c of Call t _ _ \<Rightarrow> t < later + cb_half_open_timeout cb"
  shows "\<exists>rs cb1 cb2. cb_run k cs cb = (rs, cb1) \<and> Err CircuitOpen \<notin> set rs \<and> get_state cb1 k = Closed \<and>
    cb_run k (Call now later (Err e) # ds) cb1 =
      (Err (CircuitFailure (runtime_error_display e)) # replicate (length ds) (Err CircuitOpen), cb2) \<and>
    get_state cb2 k = Open (later + cb_half_open_timeout cb)"
proof -
  obtain rs cb1 where 1: "cb_run k cs cb = (rs, cb1)" by fastforce
  have q: "quiet cb1 k" "failures cb1 k = length (filter tracked cs)" "Err CircuitOpen \<notin> set rs"
    "cb_failure_threshold cb1 = cb_failure_threshold cb" "cb_half_open_timeout cb1 = cb_half_open_timeout cb"
    using quiet_run [OF assms(1) _ assms(3) 1] assms(2,4) by auto
  obtain cb' where 2: "cb_execute now later k (Err e :: (runtime_error, 'a) outcome) cb1 =
      (Err (CircuitFailure (runtime_error_display e)), cb')"
    "get_state cb' k = Open (later + cb_half_open_timeout cb)"
    using quiet_trip [OF q(1) _ assms(5), of now later] q(2,4,5) assms(4) by auto
  have "cb_run k ds cb' = (replicate (length ds) (Err CircuitOpen),
      cb'\<lparr>cb_rejected := cb_rejected cb' + of_nat (length ds)\<rparr>)"
    by (rule open_rejects [OF 2(2) assms(6)])
  with 1 2 q show ?thesis
    by (intro exI [of _ rs] exI [of _ cb1] exI [of _ "cb'\<lparr>cb_rejected := cb_rejected cb' + of_nat (length ds)\<rparr>"])
      (simp add: quiet_def)
qed

theorem breaker_trips_witness:
  "\<exists>rs cb1 cb2. cb_run SubStorage [Call 0 1 (Err (Busy [])), Call 900 901 (Ok ())] (breaker_new 2 2 10 10) = (rs, cb1) \<and>
     cb_run SubStorage [Call 5000 5001 (Err (Busy [])), Call 5002 5003 (Ok ())] cb1 =
       ([Err (CircuitFailure (runtime_error_display (Busy []))), Err CircuitOpen], cb2)"
proof -
  have "quiet (breaker_new 2 2 10 10) SubStorage" "failures (breaker_new 2 2 10 10) SubStorage = 0"
    "successes (breaker_new 2 2 10 10) SubStorage = 0" "cb_failure_threshold (breaker_new 2 2 10 10) = 2"
    "cb_half_open_timeout (breaker_new 2 2 10 10) = 10000000"
    by (simp_all add: quiet_def breaker_new_def get_state_def failures_def successes_def from_millis_def)
  then show ?thesis
    using breaker_trips [of "breaker_new 2 2 10 10" SubStorage "[Call 0 1 (Err (Busy [])), Call 900 901 (Ok ())]"
        "Busy []" "[Call 5002 5003 (Ok ())]" 5001 5000]
    by (auto simp: tracked_def)
qed

text \<open>Successes from before the trip count for the recovery. The success count is only reset
  when a circuit closes, so a circuit that saw enough successes while it was still closed recovers
  from open at the first successful probe: the success threshold is not met by probes.\<close>

theorem breaker_stale_successes:
  fixes cs :: "'a breaker_call list" and x :: 'a
  assumes "quiet cb k" and "failures cb k = 0" and "successes cb k + length cs + 1 < 2 ^ 64"
    and "Suc (length (filter tracked cs)) = unat (cb_failure_threshold cb)" and "is_tracked_failure e"
    and "unat (cb_success_threshold cb) \<le> successes cb k + length (filter call_ok cs) + 1"
    and "later + cb_half_open_timeout cb \<le> probe"
  shows "\<exists>rs cb1 cb2. cb_run k (cs @ [Call now later (Err e)]) cb = (rs, cb1) \<and>
    get_state cb1 k = Open (later + cb_half_open_timeout cb) \<and>
    cb_run k [Call probe after (Ok x)] cb1 = ([Ok x], cb2) \<and> get_state cb2 k = Closed"
proof -
  obtain rs cb1 where 1: "cb_run k cs cb = (rs, cb1)" by fastforce
  have q: "quiet cb1 k" "failures cb1 k = length (filter tracked cs)"
    "successes cb1 k = successes cb k + length (filter call_ok cs)"
    "cb_failure_threshold cb1 = cb_failure_threshold cb" "cb_half_open_timeout cb1 = cb_half_open_timeout cb"
    "cb_success_threshold cb1 = cb_success_threshold cb"
    using quiet_run [OF assms(1) _ _ 1] assms(2-4) by auto
  obtain cb' where 2: "cb_execute now later k (Err e :: (runtime_error, 'a) outcome) cb1 =
      (Err (CircuitFailure (runtime_error_display e)), cb')"
    "get_state cb' k = Open (later + cb_half_open_timeout cb)" "successes cb' k = successes cb1 k"
    "cb_success_threshold cb' = cb_success_threshold cb1"
    using quiet_trip [OF q(1) _ assms(5), of now later] q(2,4,5) assms(4) by auto
  have l: "successes cb' k + 1 < 2 ^ 64"
    unfolding 2(3) q(3) by (rule le_less_trans [OF _ assms(3)]) simp
  have "unat (cb_success_threshold cb') \<le> successes cb' k + 1"
    unfolding 2(3,4) q(3,6) by (rule assms(6))
  from probe_closes [OF 2(2) assms(7) this l, of after x]
  obtain cb2 where cb2: "cb_execute probe after k (Ok x) cb' = (Ok x, cb2)" "get_state cb2 k = Closed" by blast
  have "cb_run k (cs @ [Call now later (Err e)]) cb = (rs @ [Err (CircuitFailure (runtime_error_display e))], cb')"
    using 1 2(1) by (simp add: cb_run_append)
  then show ?thesis using 2(2) cb2 by (intro exI conjI) (auto simp: cb_run.simps)
qed

theorem breaker_stale_successes_witness:
  "\<exists>rs cb1 cb2. cb_run SubStorage ([Call 0 1 (Ok ()), Call 2 3 (Ok ())] @ [Call 4 5 (Err (Busy []))]) (breaker_new 1 3 10 10) = (rs, cb1) \<and>
     get_state cb1 SubStorage = Open 10000005 \<and>
     cb_run SubStorage [Call 20000000 20000001 (Ok ())] cb1 = ([Ok ()], cb2) \<and> get_state cb2 SubStorage = Closed"
proof -
  have "quiet (breaker_new 1 3 10 10) SubStorage" "failures (breaker_new 1 3 10 10) SubStorage = 0"
    "successes (breaker_new 1 3 10 10) SubStorage = 0" "cb_failure_threshold (breaker_new 1 3 10 10) = 1"
    "cb_success_threshold (breaker_new 1 3 10 10) = 3" "cb_half_open_timeout (breaker_new 1 3 10 10) = 10000000"
    by (simp_all add: quiet_def breaker_new_def get_state_def failures_def successes_def from_millis_def)
  then show ?thesis
    using breaker_stale_successes [of "breaker_new 1 3 10 10" SubStorage "[Call 0 1 (Ok ()), Call 2 3 (Ok ())]"
        "Busy []" 5 20000000 4 20000001 "()"]
    by (auto simp: tracked_def call_ok_def)
qed

section \<open>The operation queue\<close>

text \<open>C18: No operation is lost or handed out twice. Over any run of pushes, pops, drains and
  cancellations from an empty queue, the operations accepted are exactly those handed out together
  with those still queued, each in the queue of its priority; the depth is their number and never
  exceeds the capacity.\<close>

theorem op_queue_conserves:
  "case oq_run nul cs (oq_new capacity) of (accepted, out, q) \<Rightarrow>
     mset (map identity accepted) = mset (map identity out) + queued (oq_queues q) \<and>
     oq_depth q = size (queued (oq_queues q)) \<and> oq_depth q \<le> capacity \<and> levels_ok (oq_queues q)"
proof -
  obtain accepted out q where 1: "oq_run nul cs (oq_new capacity) = (accepted, out, q)"
    by (cases "oq_run nul cs (oq_new capacity)")
  show ?thesis
    using oq_run_ok [OF oq_new_wf 1] by (simp add: 1 oq_wf_def size_queued del: length_concat)
qed

text \<open>A waiting high-priority operation is overtaken. An operation of the high queue that
  has reached its maximum wait is not promoted (there is nothing above but critical): the aging pass
  moves it behind the younger ones of its own queue, and the pop takes a younger one.\<close>

theorem op_queue_overtakes:
  assumes "oq_queues q = [[], a # b # bs, [], []]" and "oq_depth q = length bs + 2" and "po_priority a = PrHigh"
    and "max_wait PrHigh \<le> now - po_submitted_at a" and "po_priority_age a < 3"
    and "\<forall>op \<in> set (b # bs). \<not> aged_out now op"
  shows "\<exists>q'. oq_pop_priority now q = (Some b, q') \<and>
    oq_queues q' = [[], bs @ [a\<lparr>po_priority_age := po_priority_age a + 1\<rparr>], [], []]"
proof -
  have "aged_out now a" using assms(3-5) by (simp add: aged_out_def)
  from aged_high_goes_back [OF assms(3) this assms(6)] show ?thesis
    using assms(1,2) by (simp add: oq_pop_priority_def)
qed

definition example_op :: "nat \<Rightarrow> nat \<Rightarrow> nat pending_operation" where
  "example_op w submitted = \<lparr>po_work = w, po_priority = PrHigh, po_submitted_at = submitted, po_deadline = submitted + 9000000000,
     po_retry_count = 0, po_priority_age = 0\<rparr>"

theorem op_queue_overtakes_witness:
  "\<exists>q'. oq_pop_priority 600000000 ((oq_new 10)\<lparr>oq_queues := [[], [example_op 1 0, example_op 2 500000000], [], []], oq_depth := 2\<rparr>) =
     (Some (example_op 2 500000000), q')"
  using op_queue_overtakes [of "(oq_new 10)\<lparr>oq_queues := [[], [example_op 1 0, example_op 2 500000000], [], []], oq_depth := 2\<rparr>"
      "example_op 1 0" "example_op 2 500000000" "[]" 600000000]
  by (auto simp: example_op_def aged_out_def from_millis_def)

section \<open>Cancellation\<close>

text \<open>Cancelling a token raises its flag and its children's and runs its callbacks once, in
  the order they were registered, but stops there: the callbacks and children of a child are not
  reached.\<close>

theorem cancel_stops_at_children:
  assumes "tokens_wf ts" and "token_alloc ts p" and "\<not> token_is_cancelled ts p"
    and "token_child p ts = (c, ts1)" and "token_child c ts1 = (g, ts2)"
    and "ts3 = token_cancel p (token_on_cancel c (Client n) ts2)"
  shows "token_is_cancelled ts3 p \<and> token_is_cancelled ts3 c \<and> \<not> token_is_cancelled ts3 g \<and>
    token_callbacks ts3 c = [SetFlag g, Client n] \<and>
    ts_calls ts3 = ts_calls ts @ client_calls (token_callbacks ts p)"
proof -
  note p = child_effect [OF assms(1-4)]
  have wf1: "tokens_wf ts1" using tokens_wf_child [OF assms(1,2)] assms(4) by simp
  note c = child_effect [OF wf1 p(2) p(3) assms(5)]
  let ?ts = "token_on_cancel c (Client n) ts2"
  have ne: "p \<noteq> c" "g \<noteq> c" "p \<noteq> g" "g \<noteq> p"
    using p(6) c(1,6) p(9) assms(2) alloc_next [OF wf1] by auto
  have off: "\<not> token_is_cancelled ts2 c" using c(8) ne(2) p(3) by auto
  then have on: "?ts = set_callbacks c [SetFlag g, Client n] ts2"
    using c(5) p(4) by (simp add: token_on_cancel_def)
  have alloc: "token_alloc ts2 c" "token_alloc ts2 p" "token_alloc ts2 g"
    using c(9) p(2) p(9) assms(2) by auto
  have cbs: "token_callbacks ?ts p = token_callbacks ts p @ [SetFlag c]"
    using on ne c(7) p(5) by simp
  have notg: "SetFlag g \<notin> set (token_callbacks ts p)"
    using assms(1) c(1) p(9) alloc_next [OF wf1] unfolding tokens_wf_def by blast
  have can: "\<not> token_is_cancelled ts2 g" using c(3) .
  note eff = cancel_effect [of ?ts p]
  have a: "token_alloc ?ts p" using alloc by simp
  show ?thesis
    using eff [OF a] cbs on alloc ne notg can off c(10) p(10)
    by (simp add: assms(6) client_calls_def)
qed

text \<open>A parent with a child, a grandchild and a callback of the child, then the parent cancelled.\<close>

definition example_tokens :: token_store where
  "example_tokens = snd (token_new token_store_empty)"

theorem cancel_stops_at_children_witness:
  "let (c, ts1) = token_child 0 example_tokens; (g, ts2) = token_child c ts1;
       ts3 = token_cancel 0 (token_on_cancel c (Client 7) ts2)
   in token_is_cancelled ts3 c \<and> \<not> token_is_cancelled ts3 g \<and> ts_calls ts3 = []"
proof -
  obtain c ts1 where 1: "token_child 0 example_tokens = (c, ts1)" by fastforce
  obtain g ts2 where 2: "token_child c ts1 = (g, ts2)" by fastforce
  have "tokens_wf example_tokens" "token_alloc example_tokens 0" "\<not> token_is_cancelled example_tokens 0"
    "ts_calls example_tokens = []" "token_callbacks example_tokens 0 = []"
    by (auto simp: example_tokens_def token_new_def token_store_empty_def tokens_wf_def token_alloc_def
      token_is_cancelled_def token_callbacks_def)
  then show ?thesis
    using cancel_stops_at_children [OF _ _ _ 1 2, of "token_cancel 0 (token_on_cancel c (Client 7) ts2)" 7] 1 2
    by (simp add: client_calls_def)
qed

section \<open>Rate limiting\<close>



section \<open>Requests through the pipeline\<close>

text \<open>What the breaker looks like when no circuit is open and no failure was ever counted.\<close>

definition never_tripped :: "breaker \<Rightarrow> bool" where
  "never_tripped cb \<longleftrightarrow> cb_failure_count cb = Map.empty \<and> (\<forall>k t. get_state cb k \<noteq> Open t)"

lemma never_tripped_Ok: "never_tripped cb \<Longrightarrow> never_tripped (snd (cb_execute now later k (Ok x) cb))"
proof -
  assume cb: "never_tripped cb"
  then have "cb_admit now k cb = Some cb"
    by (auto simp: never_tripped_def cb_admit_def split: circuit_state.split)
  moreover have "cb_failure_count (note_success later k cb) = Map.empty"
    using cb by (auto simp: never_tripped_def note_success_def Let_def cb_close_def cb_transition_def)
  moreover have "get_state (note_success later k cb) k' \<noteq> Open t" for k' t
    using note_success_state [of later k cb k'] cb by (auto simp: never_tripped_def)
  ultimately show ?thesis by (simp add: cb_execute_def never_tripped_def)
qed

lemma never_tripped_loop:
  "never_tripped cb \<Longrightarrow> exec_loop nul rd ms cfg mr attempt ctx req cb = (r, ctx', req', cb') \<Longrightarrow> never_tripped cb'"
proof (induction nul rd ms cfg mr attempt ctx req cb rule: exec_loop.induct)
  case (1 nul rd ms cfg mr attempt ctx req cb)
  show ?case
  proof (cases "exec_attempt nul (rd attempt) ms cfg attempt ctx req cb")
    case (Inl e)
    then show ?thesis using 1(2,3) by (subst (asm) exec_loop.simps) (simp add: Let_def)
  next
    case (Inr x)
    obtain r1 c1 q1 where x: "x = (r1, c1, q1)" by (cases x)
    show ?thesis
    proof (cases r1)
      case (PError e)
      show ?thesis
      proof (cases "pe_retryable e \<and> attempt < mr")
        case True
        then show ?thesis
          using 1(1) [of "rd attempt" x r1 "(c1, q1)" e c1 q1] 1(2,3) Inr x PError
          by (simp add: exec_loop.simps [of nul rd ms cfg mr attempt])
      qed (use 1(2,3) Inr x PError in \<open>auto simp: exec_loop.simps [of nul rd ms cfg mr attempt]\<close>)
    qed (use 1(2,3) Inr x never_tripped_Ok [OF 1(2)] in \<open>auto simp: exec_loop.simps [of nul rd ms cfg mr attempt] Let_def\<close>)
  qed
qed

lemma never_tripped_run:
  "never_tripped cb \<Longrightarrow> run_pipeline nul shown rd ms cfg ctx req cb = (resp, req', cb') \<Longrightarrow> never_tripped cb'"
  by (auto simp: run_pipeline_def execute_with_retry_def split: prod.splits pipeline_result.splits dest: never_tripped_loop)

lemma never_tripped_execute:
  "never_tripped (px_circuit_breaker px) \<Longrightarrow> pipeline_execute env rd req ctx px = (resp, px') \<Longrightarrow>
   never_tripped (px_circuit_breaker px')"
  by (auto simp: pipeline_execute_def pipeline_admitted_def Let_def split: prod.splits if_splits option.splits
      dest: never_tripped_run)

type_synonym 'j call = "readings \<times> 'j operation_request \<times> 'j operation_context"

fun pipeline_run :: "('j, 'f) pipeline_env \<Rightarrow> 'j call list \<Rightarrow> ('j, 'f, 'w) pipeline \<Rightarrow>
    'j operation_response list \<times> ('j, 'f, 'w) pipeline" where
  "pipeline_run env [] px = ([], px)"
| "pipeline_run env ((rd, req, ctx) # cs) px =
     (case pipeline_execute env rd req ctx px of (resp, px1) \<Rightarrow>
      case pipeline_run env cs px1 of (resps, px2) \<Rightarrow> (resp # resps, px2))"

lemma never_tripped_runs:
  "never_tripped (px_circuit_breaker px) \<Longrightarrow> pipeline_run env cs px = (resps, px') \<Longrightarrow> never_tripped (px_circuit_breaker px')"
  by (induction env cs px arbitrary: resps rule: pipeline_run.induct)
    (auto split: prod.splits dest: never_tripped_execute)

lemma never_tripped_new: "never_tripped (px_circuit_breaker ((pipeline_new F now cfg)\<lparr>px_middleware := ms\<rparr>))"
  by (simp add: never_tripped_def pipeline_new_def breaker_new_def get_state_def)

text \<open>C20: The pipeline's circuit breaker never opens. The pipeline reports to the breaker only
  the operations that succeeded: whatever requests it runs, with whatever middleware and failures,
  no failure is counted and no circuit is ever open.\<close>

theorem pipeline_breaker_never_opens:
  "case pipeline_run env cs ((pipeline_new F now cfg)\<lparr>px_middleware := ms\<rparr>) of (resps, px) \<Rightarrow>
     get_state (px_circuit_breaker px) k \<noteq> Open t \<and> failures (px_circuit_breaker px) k = 0"
  by (split prod.split)
    (auto dest!: never_tripped_runs [OF never_tripped_new] simp: never_tripped_def failures_def)

text \<open>Without middleware a stage is its own function.\<close>

lemma run_chain_Nil [simp]: "run_chain st f [] = f"
  by (simp add: run_chain_def for_stage_def)

lemma pre_stages_request:
  assumes "pre_stages [] el [(StParse, parse_stage nul shown), (StValidate, validate_stage nul),
            (StAuthorize, authorize_stage nul)] ctx req = (r, ctx', req')"
  shows "rq_options req' = rq_options req \<and> rq_operation_type req' = rq_operation_type req \<and>
    cx_user_session ctx' = cx_user_session ctx \<and> (\<forall>resp. r \<noteq> PShortCircuit resp) \<and>
    (r = PContinue \<longrightarrow> is_mutation (rq_operation_type req) \<longrightarrow> may_mutate (cx_user_session ctx))"
  using assms
  by (auto simp: parse_stage_def validate_stage_def authorize_stage_def stage_error_def Let_def
      split: if_splits option.splits pipeline_result.splits)

lemma exec_loop_request:
  "exec_loop nul rd [] cfg mr attempt ctx req cb = (r, ctx', req', cb') \<Longrightarrow> req' = req"
proof (induction nul rd "[] :: 'a chain" cfg mr attempt ctx req cb rule: exec_loop.induct)
  case (1 nul rd cfg mr attempt ctx req cb)
  show ?case
  proof (cases "exec_attempt nul (rd attempt) [] cfg attempt ctx req cb")
    case (Inl e)
    then show ?thesis using 1(2) by (simp add: exec_loop.simps [of nul rd _ _ mr attempt])
  next
    case (Inr x)
    obtain r1 c1 q1 where x: "x = (r1, c1, q1)" by (cases x)
    have q1: "q1 = req"
      using Inr x by (auto simp: exec_attempt_def execute_stage_def Let_def split: if_splits)
    show ?thesis
    proof (cases "\<exists>e. r1 = PError e \<and> pe_retryable e \<and> attempt < mr")
      case True
      then obtain e where "r1 = PError e" "pe_retryable e" "attempt < mr" by auto
      then show ?thesis
        using 1(1) [of "rd attempt" x r1 "(c1, q1)" e c1 q1] 1(2) Inr x q1
        by (simp add: exec_loop.simps [of nul rd _ _ mr attempt])
    next
      case False
      then show ?thesis
        using 1(2) Inr x q1
        by (cases r1) (auto simp: exec_loop.simps [of nul rd _ _ mr attempt] Let_def split: if_splits)
    qed
  qed
qed

lemma run_pipeline_plain:
  assumes "run_pipeline nul shown rd [] cfg ctx req cb = (resp, req', cb')"
  shows "rq_options req' = rq_options req"
    and "rs_success resp \<Longrightarrow> is_mutation (rq_operation_type req) \<Longrightarrow> may_mutate (cx_user_session ctx)"
proof -
  obtain r ctx1 req1 where 1: "pre_stages [] (rd_elapsed rd) [(StParse, parse_stage nul shown),
      (StValidate, validate_stage nul), (StAuthorize, authorize_stage nul)] ctx req = (r, ctx1, req1)"
    by (metis prod_cases3)
  note pre = pre_stages_request [OF 1]
  have "rq_options req' = rq_options req \<and>
      (rs_success resp \<longrightarrow> is_mutation (rq_operation_type req) \<longrightarrow> may_mutate (cx_user_session ctx))"
  proof (cases r)
    case PContinue
    obtain r2 ctx2 req2 cb2 where 2: "execute_with_retry nul (rd_attempt rd) [] cfg ctx1 req1 cb = (r2, ctx2, req2, cb2)"
      by (metis prod_cases4)
    have "req2 = req1" using 2 exec_loop_request by (auto simp: execute_with_retry_def)
    then have "req' = req1"
      using assms 1 2 PContinue by (auto simp: run_pipeline_def post_stage_def pass_stage_def)
    then show ?thesis using pre PContinue by auto
  next
    case (PError e)
    then show ?thesis using assms 1 pre by (auto simp: run_pipeline_def build_error_response_def)
  qed (use pre in auto)
  then show "rq_options req' = rq_options req"
    "rs_success resp \<Longrightarrow> is_mutation (rq_operation_type req) \<Longrightarrow> may_mutate (cx_user_session ctx)" by auto
qed

text \<open>What an execution that came back with success did.\<close>

definition idem_hit :: "readings \<Rightarrow> 'j operation_request \<Rightarrow> ('j, 'f, 'w) pipeline \<Rightarrow> bool" where
  "idem_hit rd req px \<longleftrightarrow> Option.bind (oo_idempotency_key (rq_options req))
     (\<lambda>k. check_idempotency (rd_idempotency rd) k (rq_operation_type req) (px_idempotency_cache px)) \<noteq> None"

lemma response_error_fails [simp]: "\<not> rs_success (response_error nul c m)"
  by (simp add: response_error_def)

lemma execute_success:
  assumes "pipeline_execute env rd req ctx px = (resp, px')" and "rs_success resp" and "\<not> idem_hit rd req px"
    and "px_middleware px = []"
  shows "(is_mutation (rq_operation_type req) \<longrightarrow> may_mutate (cx_user_session ctx)) \<and>
    px_is_running px' \<and> \<not> px_is_draining px' \<and>
    px_idempotency_cache px' = (case oo_idempotency_key (rq_options req) of
       Some k \<Rightarrow> store_idempotency (rd_store rd) (px_config px) k resp (px_idempotency_cache px)
     | None \<Rightarrow> px_idempotency_cache px)"
proof -
  have adm: "pipeline_admitted env rd req ctx px = (resp, px')" "px_is_running px" "\<not> px_is_draining px"
    using assms by (auto simp: pipeline_execute_def idem_hit_def split: if_splits option.splits)
  obtain ok rl where rl: "rl_check (pv_float env) (pv_pick_user env) (pv_pick_ip env) (rd_rate rd) ctx req
      (px_rate_limiter px) = (ok, rl)" by fastforce
  have ok: "ok" using adm(1) rl assms(2) by (cases ok) (auto simp: pipeline_admitted_def Let_def)
  obtain resp1 req1 cb1 where run: "run_pipeline (pv_null env) (pv_shown env) rd [] (px_config px)
      (ctx\<lparr>cx_deadline := rd_deadline rd + from_millis (unat (clamped_timeout (px_config px) req))\<rparr>) req
      (px_circuit_breaker px) = (resp1, req1, cb1)"
    by (metis prod_cases3)
  note plain = run_pipeline_plain [OF run]
  have "resp1 = resp" using adm(1) rl ok run assms(4) by (auto simp: pipeline_admitted_def Let_def)
  then show ?thesis
    using adm rl ok run assms(2,4) plain
    by (cases "oo_idempotency_key (rq_options req)") (auto simp: pipeline_admitted_def Let_def)
qed

text \<open>C21: A successful mutation was authorized. Without middleware, a mutation that is not
  answered from the idempotency cache succeeds only for a session with a permission that contains
  \<open>write\<close> or \<open>admin\<close>.\<close>

theorem pipeline_success_authorized:
  assumes "pipeline_execute env rd req ctx px = (resp, px')" and "rs_success resp"
    and "is_mutation (rq_operation_type req)" and "\<not> idem_hit rd req px" and "px_middleware px = []"
  shows "\<exists>s p. cx_user_session ctx = Some s \<and> p \<in> set (us_permissions s) \<and>
    (contains_str p ''write'' \<or> contains_str p ''admin'')"
  using execute_success [OF assms(1,2,4,5)] assms(3)
  by (auto simp: may_mutate_def list_ex_iff split: option.splits)

text \<open>The idempotency cache answers before authorization. Once a mutation with an idempotency
  key succeeded, every later mutation with the same key gets its response while the entry lives,
  whoever sends it and whatever it is about: no session, no rate limit and no target is checked, and
  nothing is executed.\<close>

theorem pipeline_idempotent_replay:
  assumes "pipeline_execute env rd req ctx px = (resp, px')" and "rs_success resp"
    and "oo_idempotency_key (rq_options req) = Some k" and "\<not> idem_hit rd req px" and "px_middleware px = []"
    and "oo_idempotency_key (rq_options req2) = Some k" and "is_mutation (rq_operation_type req2)"
    and "rd_idempotency rd2 < rd_store rd + from_secs (unat (pc_idempotency_key_ttl_secs (px_config px)))"
  shows "pipeline_execute env rd2 req2 ctx2 px' = (resp, px')"
proof -
  have "px_is_running px'" "\<not> px_is_draining px'"
    "px_idempotency_cache px' = store_idempotency (rd_store rd) (px_config px) k resp (px_idempotency_cache px)"
    using execute_success [OF assms(1,2,4,5)] assms(3) by auto
  then show ?thesis
    using assms(2,6-8) by (simp add: pipeline_execute_def check_idempotency_def store_idempotency_def put_assoc_def)
qed

section \<open>A concrete request\<close>

definition example_env :: "(unit, real) pipeline_env" where
  "example_env = \<lparr>pv_null = (), pv_shown = (\<lambda>_. []), pv_float = exact_ops, pv_pick_user = hd, pv_pick_ip = hd\<rparr>"

definition example_readings :: readings where
  "example_readings = \<lparr>rd_idempotency = 0, rd_rate = 0, rd_deadline = 0, rd_elapsed = (\<lambda>_. 0),
     rd_attempt = (\<lambda>_. \<lparr>ar_before = 0, ar_jitter = 0, ar_start = 0, ar_stage = 0, ar_elapsed = 0, ar_done = 0\<rparr>),
     rd_duration = 5, rd_store = 0\<rparr>"

definition example_request :: "unit operation_request" where
  "example_request = (operation_request_new 0 OpCreate TSystem)\<lparr>rq_options := operation_options_default\<lparr>oo_idempotency_key := Some 1\<rparr>\<rparr>"

definition example_context :: "unit operation_context" where
  "example_context = fst (context_build 0 1 0 ((context_builder_new ([127, 0, 0, 1], 80))\<lparr>ob_user_session :=
     Some \<lparr>us_user_id = 1, us_username = [], us_roles = [], us_permissions = [''write''], us_session_id = 1, us_metadata = []\<rparr>\<rparr>) 0)"

definition example_pipeline :: "(unit, real, unit) pipeline" where
  "example_pipeline = pipeline_new exact_ops 0 (pipeline_config_default exact_ops)"

lemma example_context_simps [simp]:
  "cx_user_session example_context = Some \<lparr>us_user_id = 1, us_username = [], us_roles = [], us_permissions = [''write''], us_session_id = 1, us_metadata = []\<rparr>"
  "cx_source_addr example_context = ([127, 0, 0, 1], 80)"
  by (simp_all add: example_context_def context_build_def context_builder_new_def)

lemma example_rate: "fst (rl_check exact_ops hd hd 0 example_context example_request (px_rate_limiter example_pipeline))"
  by (simp add: example_pipeline_def pipeline_new_def pipeline_config_default_def rl_check_def rl_new_def Let_def
      tb_try_consume_def tb_refill_def exact_ops_def tb_new_def rate_limit_config_default_def rl_user_consume_def
      tracked_bucket_def put_assoc_def rl_ip_consume_def rl_operation_consume_def example_request_def
      operation_request_new_def operation_options_default_def operation_bucket_def)

lemma example_loop:
  assumes "cx_deadline ctx > 0" and "rq_target req = TSystem" and "get_state cb SubPipeline = Closed"
  shows "fst (exec_loop () (rd_attempt example_readings) [] cfg mr 0 ctx req cb) = Ok StageSuccess"
proof -
  have "exec_attempt () (rd_attempt example_readings 0) [] cfg 0 ctx req cb =
      Inr (PContinue, ctx\<lparr>cx_retry_count := 0, cx_stage := StExecute, cx_subsystem := SubPipeline, cx_stage_elapsed := 0\<rparr>, req)"
    using assms by (simp add: exec_attempt_def Let_def is_expired_def example_readings_def circuit_blocks_def execute_stage_def)
  then show ?thesis by (simp add: exec_loop.simps [of _ _ _ _ _ 0] Let_def)
qed

lemma example_pre_stages:
  "pre_stages [] el [(StParse, parse_stage () sh), (StValidate, validate_stage ()), (StAuthorize, authorize_stage ())]
     (example_context\<lparr>cx_deadline := d\<rparr>) example_request =
   (PContinue, example_context\<lparr>cx_deadline := d, cx_stage := StAuthorize, cx_stage_elapsed := el StAuthorize\<rparr>, example_request)"
  by (simp add: parse_stage_def validate_stage_def authorize_stage_def Let_def example_request_def
      operation_request_new_def operation_options_default_def is_mutation_def may_mutate_def)

lemma example_readings_simps [simp]:
  "rd_elapsed example_readings st = 0" "rd_rate example_readings = 0" "rd_idempotency example_readings = 0"
  "rd_deadline example_readings = 0" "rd_store example_readings = 0"
  by (simp_all add: example_readings_def)

lemma example_request_simps [simp]:
  "rq_target example_request = TSystem" "oo_idempotency_key (rq_options example_request) = Some 1"
  by (simp_all add: example_request_def operation_request_new_def)

lemma example_run:
  assumes "0 < d" and "get_state cb SubPipeline = Closed"
  shows "rs_success (fst (run_pipeline () sh example_readings [] cfg (example_context\<lparr>cx_deadline := d\<rparr>) example_request cb))"
proof -
  let ?ctx = "example_context\<lparr>cx_deadline := d, cx_stage := StAuthorize, cx_stage_elapsed := 0\<rparr>"
  obtain r ctx req cb' where 1: "execute_with_retry () (rd_attempt example_readings) [] cfg ?ctx example_request cb = (r, ctx, req, cb')"
    by (metis prod_cases4)
  have "r = Ok StageSuccess"
    using arg_cong [OF 1, of fst] assms example_loop [of ?ctx example_request cb cfg] by (simp add: execute_with_retry_def)
  then show ?thesis
    unfolding run_pipeline_def example_pre_stages using 1 by (simp add: final_response_def post_stage_def pass_stage_def)
qed

lemma example_execute: "rs_success (fst (pipeline_execute example_env example_readings example_request example_context example_pipeline))"
proof -
  have px: "px_is_running example_pipeline" "\<not> px_is_draining example_pipeline" "px_middleware example_pipeline = []"
    "px_idempotency_cache example_pipeline = []" "get_state (px_circuit_breaker example_pipeline) SubPipeline = Closed"
    "oq_capacity (px_operation_queue example_pipeline) = 1024" "oq_current_depth (px_operation_queue example_pipeline) = 0"
    "px_config example_pipeline = pipeline_config_default exact_ops"
    by (simp_all add: example_pipeline_def pipeline_new_def oq_new_def get_state_def breaker_new_def pipeline_config_default_def)
  have d: "0 < from_millis (unat (clamped_timeout (pipeline_config_default exact_ops) example_request))"
    by (simp add: clamped_timeout_def pipeline_config_default_def example_request_def operation_request_new_def
      operation_options_default_def from_millis_def)
  obtain rl where rl: "rl_check exact_ops hd hd 0 example_context example_request (px_rate_limiter example_pipeline) = (True, rl)"
    using example_rate by (metis (full_types) prod.collapse)
  have env: "pv_null example_env = ()" "pv_float example_env = exact_ops" "pv_pick_user example_env = hd" "pv_pick_ip example_env = hd"
    by (simp_all add: example_env_def)
  show ?thesis
    using example_run [OF d px(5), of "pv_shown example_env" "pipeline_config_default exact_ops"]
    by (auto simp add: pipeline_execute_def pipeline_admitted_def px env rl check_idempotency_def Let_def split: prod.splits)
qed

lemma example_not_hit: "\<not> idem_hit example_readings example_request example_pipeline" "px_middleware example_pipeline = []"
  "oo_idempotency_key (rq_options example_request) = Some 1" "is_mutation (rq_operation_type example_request)"
  by (simp_all add: idem_hit_def example_pipeline_def pipeline_new_def check_idempotency_def example_request_def
      operation_request_new_def is_mutation_def)

theorem pipeline_success_authorized_witness:
  "\<exists>s p. cx_user_session example_context = Some s \<and> p \<in> set (us_permissions s) \<and>
     (contains_str p ''write'' \<or> contains_str p ''admin'')"
  by (rule pipeline_success_authorized [OF prod.collapse [symmetric] example_execute example_not_hit(4,1,2)])

text \<open>The second request comes without a session.\<close>

theorem pipeline_idempotent_replay_witness:
  "let (resp, px) = pipeline_execute example_env example_readings example_request example_context example_pipeline
   in pipeline_execute example_env example_readings (example_request\<lparr>rq_operation_type := OpDelete\<rparr>)
        (example_context\<lparr>cx_user_session := None\<rparr>) px = (resp, px)"
proof -
  have "rd_idempotency example_readings < rd_store example_readings +
      from_secs (unat (pc_idempotency_key_ttl_secs (px_config example_pipeline)))"
    by (simp add: example_readings_def example_pipeline_def pipeline_new_def pipeline_config_default_def from_secs_def)
  then show ?thesis
    using pipeline_idempotent_replay [OF prod.collapse [symmetric] example_execute example_not_hit(3,1,2),
        of "example_request\<lparr>rq_operation_type := OpDelete\<rparr>" example_readings "example_context\<lparr>cx_user_session := None\<rparr>"]
    by (auto simp: is_mutation_def split: prod.split)
qed

end
