(* ===== verification/Sched_Types.thy ===== *)
theory Sched_Types
  imports Queue_Types Event_Types
begin

text \<open>
  The data of \<open>nova-scheduler\<close> (\<open>types.rs\<close>, \<open>error.rs\<close>): jobs, configuration, statistics and cron
  schedules. Timestamps are signed 64-bit words in milliseconds. Calendar dates come from another
  crate: the record \<open>calendar\<close> holds the operations the cron search uses. Fields of a cron
  expression are numbers below 256, kept as \<open>nat\<close>.
\<close>

section \<open>Jobs\<close>

datatype sched_error =
    JobNotFound string
  | JobAlreadyExists string
  | InvalidCronExpression string
  | InvalidSchedule string
  | DependencyCycle string
  | DependencyNotSatisfied string
  | ExecutionFailed string
  | JobCancelled string
  | OverlapPrevented string
  | SchInternal string
  | SchStorage string
  | SchShuttingDown

definition sched_error_from :: "runtime_error \<Rightarrow> sched_error" where
  "sched_error_from e = SchStorage (runtime_error_display e)"

datatype schedule_type = OneTime | Interval | Cron

datatype job_state = JPending | JRunning | JCompleted | JFailed | JCancelled | JSkipped | JPaused

type_synonym job_id = "128 word"

record job =
  jb_id :: job_id
  jb_name :: string
  jb_schedule_type :: schedule_type
  jb_interval_secs :: "u64 option"
  jb_cron_expression :: "string option"
  jb_scheduled_at :: i64
  jb_next_run_at :: i64
  jb_last_run_at :: "i64 option"
  jb_state :: job_state
  jb_max_retries :: u32
  jb_retry_count :: u32
  jb_retry_delay_secs :: u32
  jb_timeout_secs :: u32
  jb_payload :: bytes
  jb_tags :: "(string \<times> string) list"
  jb_depends_on :: "job_id list"
  jb_prevent_overlap :: bool
  jb_created_at :: i64
  jb_updated_at :: i64

definition job_new :: "i64 \<Rightarrow> job_id \<Rightarrow> string \<Rightarrow> i64 \<Rightarrow> bytes \<Rightarrow> job" where
  "job_new now fresh name scheduled_at payload = \<lparr>jb_id = fresh, jb_name = name, jb_schedule_type = OneTime,
     jb_interval_secs = None, jb_cron_expression = None, jb_scheduled_at = scheduled_at,
     jb_next_run_at = scheduled_at, jb_last_run_at = None, jb_state = JPending, jb_max_retries = 3,
     jb_retry_count = 0, jb_retry_delay_secs = 10, jb_timeout_secs = 300, jb_payload = payload, jb_tags = [],
     jb_depends_on = [], jb_prevent_overlap = False, jb_created_at = now, jb_updated_at = now\<rparr>"

definition job_is_ready :: "job \<Rightarrow> i64 \<Rightarrow> bool" where
  "job_is_ready job now \<longleftrightarrow> jb_state job = JPending \<and> jb_next_run_at job \<le>s now"

definition job_is_recurring :: "job \<Rightarrow> bool" where
  "job_is_recurring job \<longleftrightarrow> jb_schedule_type job = Interval \<or> jb_schedule_type job = Cron"

record scheduler_config =
  sd_time_wheel_tick_ms :: u64
  sd_time_wheel_slots :: nat
  sd_priority_queue_tick_ms :: u64
  sd_max_jobs_per_queue :: nat
  sd_max_concurrent_jobs :: u32
  sd_default_job_timeout_secs :: u32
  sd_default_max_retries :: u32
  sd_default_retry_delay_secs :: u32
  sd_enable_startup_recovery :: bool
  sd_enable_catch_up :: bool

definition scheduler_config_default :: scheduler_config where
  "scheduler_config_default = \<lparr>sd_time_wheel_tick_ms = 100, sd_time_wheel_slots = 360,
     sd_priority_queue_tick_ms = 1000, sd_max_jobs_per_queue = 10000, sd_max_concurrent_jobs = 64,
     sd_default_job_timeout_secs = 300, sd_default_max_retries = 3, sd_default_retry_delay_secs = 10,
     sd_enable_startup_recovery = True, sd_enable_catch_up = True\<rparr>"

record scheduler_stats =
  sx_pending :: u64
  sx_running :: u64
  sx_completed :: u64
  sx_failed :: u64
  sx_cancelled :: u64
  sx_skipped :: u64
  sx_paused :: u64
  sx_total_scheduled :: u64
  sx_total_executed :: u64
  sx_total_failures :: u64
  sx_time_wheel_ticks :: u64

definition scheduler_stats_default :: scheduler_stats where
  "scheduler_stats_default = \<lparr>sx_pending = 0, sx_running = 0, sx_completed = 0, sx_failed = 0, sx_cancelled = 0,
     sx_skipped = 0, sx_paused = 0, sx_total_scheduled = 0, sx_total_executed = 0, sx_total_failures = 0,
     sx_time_wheel_ticks = 0\<rparr>"

record job_summary =
  jy_id :: job_id
  jy_name :: string
  jy_schedule_type :: schedule_type
  jy_state :: job_state
  jy_next_run_at :: i64
  jy_last_run_at :: "i64 option"
  jy_retry_count :: u32

section \<open>Numbers in text\<close>

definition digit_value :: "char \<Rightarrow> nat option" where
  "digit_value c = (let v = of_char c :: nat in if 48 \<le> v \<and> v \<le> 57 then Some (v - 48) else None)"

fun digits_value :: "nat \<Rightarrow> string \<Rightarrow> nat option" where
  "digits_value acc [] = Some acc"
| "digits_value acc (c # cs) = (case digit_value c of Some d \<Rightarrow> digits_value (acc * 10 + d) cs | None \<Rightarrow> None)"

text \<open>\<open>str::parse::<u8>\<close>: an optional plus sign, then at least one digit, below 256.\<close>

definition parse_unsigned :: "nat \<Rightarrow> string \<Rightarrow> nat option" where
  "parse_unsigned bound s =
     (let ds = (case s of c # cs \<Rightarrow> if c = CHR ''+'' then cs else s | [] \<Rightarrow> []) in
      if ds = [] then None
      else case digits_value 0 ds of Some v \<Rightarrow> if v < bound then Some v else None | None \<Rightarrow> None)"

definition parse_u8 :: "string \<Rightarrow> nat option" where "parse_u8 s = parse_unsigned 256 s"

text \<open>\<open>str::parse::<i8>\<close>.\<close>

definition parse_i8 :: "string \<Rightarrow> int option" where
  "parse_i8 s = (case s of
       c # cs \<Rightarrow>
         if c = CHR ''-'' then
           (if cs = [] then None
            else case digits_value 0 cs of Some v \<Rightarrow> if v \<le> 128 then Some (- int v) else None | None \<Rightarrow> None)
         else map_option int (parse_unsigned 128 s)
     | [] \<Rightarrow> None)"

section \<open>Cron expressions\<close>

record cron_schedule =
  cr_expression :: string
  cr_minute :: "nat list"
  cr_hour :: "nat list"
  cr_day_of_month :: "int list"
  cr_month :: "nat list"
  cr_day_of_week :: "nat list"

type_synonym 'a parse = "(string, 'a) outcome"

definition number_or :: "string \<Rightarrow> string \<Rightarrow> nat parse" where
  "number_or msg s = (case parse_u8 s of Some v \<Rightarrow> Ok v | None \<Rightarrow> Err (msg @ s))"

text \<open>\<open>lo..=hi\<close> by steps, kept inside the bounds of the field.\<close>

definition clip :: "nat \<Rightarrow> nat \<Rightarrow> nat list \<Rightarrow> nat list" where
  "clip lo hi vs = filter (\<lambda>v. lo \<le> v \<and> v \<le> hi) vs"

definition step_range :: "nat \<Rightarrow> nat \<Rightarrow> nat \<Rightarrow> nat list" where
  "step_range lo hi step = map (\<lambda>i. lo + i * step) [0..<(if lo \<le> hi then (hi - lo) div step + 1 else 0)]"

definition parse_range :: "string \<Rightarrow> string \<Rightarrow> (nat \<times> nat) parse" where
  "parse_range whole s =
     (case split_on (CHR ''-'') s of
        [a, b] \<Rightarrow> obind (number_or ''Invalid number: '' a) (\<lambda>lo. obind (number_or ''Invalid number: '' b) (\<lambda>hi. Ok (lo, hi)))
      | _ \<Rightarrow> Err (''Invalid range: '' @ whole))"

definition parse_step :: "nat \<Rightarrow> nat \<Rightarrow> string \<Rightarrow> nat list parse" where
  "parse_step mn mx part =
     (case split_on (CHR ''/'') part of
        [r, st] \<Rightarrow>
          obind (if r = ''*'' then Ok (mn, mx)
                 else if CHR ''-'' \<in> set r then parse_range r r
                 else obind (number_or ''Invalid number: '' r) (\<lambda>v. Ok (v, mx))) (\<lambda>(lo, hi).
          obind (number_or ''Invalid step: '' st) (\<lambda>step.
          if step = 0 then Err ''Step cannot be zero'' else Ok (clip mn mx (step_range lo hi step))))
      | _ \<Rightarrow> Err (''Invalid step expression: '' @ part))"

definition out_of_range :: "nat \<Rightarrow> nat \<Rightarrow> nat \<Rightarrow> string" where
  "out_of_range v mn mx = ''Value '' @ nat_string v @ '' out of range ('' @ nat_string mn @ ''-'' @ nat_string mx @ '')''"

definition parse_part :: "nat \<Rightarrow> nat \<Rightarrow> string \<Rightarrow> nat list parse" where
  "parse_part mn mx part =
     (if CHR ''/'' \<in> set part then parse_step mn mx part
      else if CHR ''-'' \<in> set part then obind (parse_range part part) (\<lambda>(lo, hi). Ok (clip mn mx [lo..<Suc hi]))
      else obind (number_or ''Invalid number: '' part) (\<lambda>v.
        if v < mn \<or> mx < v then Err (out_of_range v mn mx) else Ok [v]))"

fun parse_parts :: "nat \<Rightarrow> nat \<Rightarrow> string list \<Rightarrow> nat list parse" where
  "parse_parts mn mx [] = Ok []"
| "parse_parts mn mx (p # ps) =
     obind (parse_part mn mx p) (\<lambda>vs. obind (parse_parts mn mx ps) (\<lambda>ws. Ok (vs @ ws)))"

text \<open>\<open>sort\<close>, then \<open>dedup\<close>.\<close>

definition parse_field :: "string \<Rightarrow> nat \<Rightarrow> nat \<Rightarrow> nat list parse" where
  "parse_field field mn mx =
     (if field = ''*'' then Ok [mn..<Suc mx]
      else obind (parse_parts mn mx (split_on (CHR '','') field)) (\<lambda>vals.
        if vals = [] then Err (''No valid values in field: '' @ field)
        else Ok (remdups_adj (sort vals))))"

definition int_string :: "int \<Rightarrow> string" where
  "int_string v = (if v < 0 then ''-'' @ nat_string (nat (- v)) else nat_string (nat v))"

text \<open>The day-of-month field knows single values only; a part \<open>*\<close> is the whole range.\<close>

fun parse_days :: "int \<Rightarrow> int \<Rightarrow> string list \<Rightarrow> (int list \<times> bool) parse" where
  "parse_days mn mx [] = Ok ([], False)"
| "parse_days mn mx (p # ps) =
     (if p = ''*'' then Ok ([], True)
      else case parse_i8 p of
        None \<Rightarrow> Err (''Invalid number: '' @ p)
      | Some v \<Rightarrow>
          if v < mn \<or> mx < v
          then Err (''Value '' @ int_string v @ '' out of range ('' @ int_string mn @ ''-'' @ int_string mx @ '')'')
          else obind (parse_days mn mx ps) (\<lambda>(vs, all). Ok (v # vs, all)))"

definition parse_field_i8 :: "string \<Rightarrow> int \<Rightarrow> int \<Rightarrow> int list parse" where
  "parse_field_i8 field mn mx =
     (if field = ''*'' then Ok [mn..mx]
      else obind (parse_days mn mx (split_on (CHR '','') field)) (\<lambda>(vals, all).
        if all then Ok [mn..mx]
        else if vals = [] then Err (''No valid values in field: '' @ field)
        else Ok (remdups_adj (sort vals))))"

text \<open>\<open>split_whitespace\<close>, for the ASCII white space.\<close>

definition is_space :: "char \<Rightarrow> bool" where
  "is_space c \<longleftrightarrow> (of_char c :: nat) \<in> {9, 10, 11, 12, 13, 32}"

fun words_acc :: "string \<Rightarrow> string \<Rightarrow> string list" where
  "words_acc w [] = (if w = [] then [] else [rev w])"
| "words_acc w (c # cs) =
     (if is_space c then (if w = [] then words_acc [] cs else rev w # words_acc [] cs) else words_acc (c # w) cs)"

definition split_whitespace :: "string \<Rightarrow> string list" where "split_whitespace s = words_acc [] s"

definition cron_parse :: "string \<Rightarrow> cron_schedule parse" where
  "cron_parse expr =
     (case split_whitespace expr of
        [p0, p1, p2, p3, p4] \<Rightarrow>
          obind (parse_field p0 0 59) (\<lambda>minute.
          obind (parse_field p1 0 23) (\<lambda>hour.
          obind (parse_field_i8 p2 1 31) (\<lambda>day.
          obind (parse_field p3 1 12) (\<lambda>month.
          obind (parse_field p4 0 6) (\<lambda>week.
          Ok \<lparr>cr_expression = expr, cr_minute = minute, cr_hour = hour, cr_day_of_month = day,
            cr_month = month, cr_day_of_week = week\<rparr>)))))
      | ps \<Rightarrow> Err (''cron expression must have 5 fields, got '' @ nat_string (length ps)))"

section \<open>The next run\<close>

record 'd calendar =
  ca_from_millis :: "i64 \<Rightarrow> 'd option"
  ca_add_minute :: "'d \<Rightarrow> 'd option"
  ca_millis :: "'d \<Rightarrow> i64"
  ca_month :: "'d \<Rightarrow> nat"
  ca_day :: "'d \<Rightarrow> int"
  ca_weekday :: "'d \<Rightarrow> nat"
  ca_hour :: "'d \<Rightarrow> nat"
  ca_minute :: "'d \<Rightarrow> nat"

definition cron_matches :: "'d calendar \<Rightarrow> cron_schedule \<Rightarrow> 'd \<Rightarrow> bool" where
  "cron_matches ca cron d \<longleftrightarrow> ca_month ca d \<in> set (cr_month cron) \<and> ca_day ca d \<in> set (cr_day_of_month cron) \<and>
     ca_weekday ca d \<in> set (cr_day_of_week cron) \<and> ca_hour ca d \<in> set (cr_hour cron) \<and>
     ca_minute ca d \<in> set (cr_minute cron)"

fun cron_search :: "'d calendar \<Rightarrow> cron_schedule \<Rightarrow> nat \<Rightarrow> 'd \<Rightarrow> i64 option" where
  "cron_search ca cron 0 d = None"
| "cron_search ca cron (Suc n) d =
     (if cron_matches ca cron d then Some (ca_millis ca d)
      else case ca_add_minute ca d of Some d' \<Rightarrow> cron_search ca cron n d' | None \<Rightarrow> None)"

definition next_after :: "'d calendar \<Rightarrow> cron_schedule \<Rightarrow> i64 \<Rightarrow> i64 option" where
  "next_after ca cron after =
     Option.bind (ca_from_millis ca after) (\<lambda>d.
     Option.bind (ca_add_minute ca d) (cron_search ca cron (365 * 24 * 60)))"

section \<open>Lemmas\<close>

text \<open>A field is a nonempty strictly increasing list of values inside its bounds.\<close>

definition field_ok :: "'a::linorder \<Rightarrow> 'a \<Rightarrow> 'a list \<Rightarrow> bool" where
  "field_ok mn mx vs \<longleftrightarrow> vs \<noteq> [] \<and> sorted_wrt (<) vs \<and> (\<forall>v \<in> set vs. mn \<le> v \<and> v \<le> mx)"

lemma sorted_remdups_adj: "sorted xs \<Longrightarrow> sorted_wrt (<) (remdups_adj xs)"
  by (induction xs rule: remdups_adj.induct) (auto simp: less_le)

lemma field_ok_normalise:
  "vals \<noteq> [] \<Longrightarrow> \<forall>v \<in> set vals. mn \<le> v \<and> v \<le> mx \<Longrightarrow> field_ok mn mx (remdups_adj (sort vals))"
  using sorted_remdups_adj [OF sorted_sort [of vals]]
  by (auto simp: field_ok_def) (metis remdups_adj_Nil_iff set_empty set_sort)

lemma parse_part_bounds: "parse_part mn mx p = Ok vs \<Longrightarrow> \<forall>v \<in> set vs. mn \<le> v \<and> v \<le> mx"
  by (auto simp: parse_part_def parse_step_def clip_def outcome_simps split: if_splits list.splits prod.splits)

lemma parse_parts_bounds: "parse_parts mn mx ps = Ok vs \<Longrightarrow> \<forall>v \<in> set vs. mn \<le> v \<and> v \<le> mx"
  by (induction ps arbitrary: vs) (use parse_part_bounds in \<open>auto simp: outcome_simps\<close>)

lemma field_ok_upt: "mn \<le> mx \<Longrightarrow> field_ok mn mx [mn..<Suc mx]"
  by (auto simp: field_ok_def simp del: upt_Suc)

lemma parse_field_ok: "mn \<le> mx \<Longrightarrow> parse_field field mn mx = Ok vs \<Longrightarrow> field_ok mn mx vs"
  by (auto simp: parse_field_def outcome_simps field_ok_normalise parse_parts_bounds field_ok_upt split: if_splits
      simp del: upt_Suc)

lemma parse_days_bounds: "parse_days mn mx ps = Ok (vs, all) \<Longrightarrow> \<forall>v \<in> set vs. mn \<le> v \<and> v \<le> mx"
  by (induction ps arbitrary: vs all) (auto simp: outcome_simps split: if_splits option.splits)

lemma field_ok_upto: "(mn :: int) \<le> mx \<Longrightarrow> field_ok mn mx [mn..mx]"
  by (auto simp: field_ok_def strict_sorted_iff)

lemma parse_field_i8_ok: "mn \<le> mx \<Longrightarrow> parse_field_i8 field mn mx = Ok vs \<Longrightarrow> field_ok mn mx vs"
  by (auto simp: parse_field_i8_def outcome_simps field_ok_upto field_ok_normalise parse_days_bounds split: if_splits)

lemma cron_parse_fields:
  "cron_parse expr = Ok cron \<Longrightarrow> field_ok 0 59 (cr_minute cron) \<and> field_ok 0 23 (cr_hour cron) \<and>
   field_ok 1 31 (cr_day_of_month cron) \<and> field_ok 1 12 (cr_month cron) \<and> field_ok 0 6 (cr_day_of_week cron)"
  by (auto simp: cron_parse_def outcome_simps split: list.splits intro: parse_field_ok parse_field_i8_ok)

text \<open>The minutes that follow a date.\<close>

fun minutes_after :: "'d calendar \<Rightarrow> nat \<Rightarrow> 'd \<Rightarrow> 'd option" where
  "minutes_after ca 0 d = Some d"
| "minutes_after ca (Suc n) d = Option.bind (ca_add_minute ca d) (minutes_after ca n)"

lemma cron_search_first:
  "cron_search ca cron n d = Some t \<Longrightarrow> \<exists>i d'. i < n \<and> minutes_after ca i d = Some d' \<and> cron_matches ca cron d' \<and>
     t = ca_millis ca d' \<and> (\<forall>j < i. \<forall>d''. minutes_after ca j d = Some d'' \<longrightarrow> \<not> cron_matches ca cron d'')"
proof (induction n arbitrary: d)
  case (Suc n)
  show ?case
  proof (cases "cron_matches ca cron d")
    case True
    then show ?thesis using Suc.prems by (intro exI [of _ 0] exI [of _ d]) simp
  next
    case False
    then obtain d1 where d1: "ca_add_minute ca d = Some d1" "cron_search ca cron n d1 = Some t"
      using Suc.prems by (auto split: option.splits)
    from Suc.IH [OF d1(2)] obtain i d' where i: "i < n" "minutes_after ca i d1 = Some d'" "cron_matches ca cron d'"
      "t = ca_millis ca d'" "\<forall>j < i. \<forall>d''. minutes_after ca j d1 = Some d'' \<longrightarrow> \<not> cron_matches ca cron d''" by blast
    have "\<not> cron_matches ca cron d''" if "j < Suc i" "minutes_after ca j d = Some d''" for j d''
      using that False d1(1) i(5) by (cases j) auto
    with i d1(1) show ?thesis by (intro exI [of _ "Suc i"] exI [of _ d']) auto
  qed
qed simp

lemma cron_search_none:
  "cron_search ca cron n d = None \<Longrightarrow> i < n \<Longrightarrow> minutes_after ca i d = Some d' \<Longrightarrow> \<not> cron_matches ca cron d'"
proof (induction n arbitrary: d i)
  case (Suc n)
  then have "\<not> cron_matches ca cron d" by (auto split: if_splits)
  then show ?case using Suc by (cases i) (auto split: option.splits)
qed simp

end
