(* ===== verification/Time_Wheel.thy ===== *)
theory Time_Wheel
  imports Sched_Types
begin

text \<open>
  The two timers of the scheduler (\<open>nova-scheduler/src/time_wheel.rs\<close>): a wheel of slots for near jobs
  and a sorted list for far ones.
\<close>

section \<open>The wheel\<close>

record time_wheel =
  tw_tick_ms :: u64
  tw_slots :: "job_id list list"
  tw_current_slot :: nat
  tw_started_at :: i64

definition tw_new :: "i64 \<Rightarrow> u64 \<Rightarrow> nat \<Rightarrow> time_wheel" where
  "tw_new now tick_ms num_slots = \<lparr>tw_tick_ms = tick_ms, tw_slots = replicate num_slots [], tw_current_slot = 0,
     tw_started_at = now\<rparr>"

definition tw_put :: "nat \<Rightarrow> job_id \<Rightarrow> time_wheel \<Rightarrow> nat \<times> time_wheel" where
  "tw_put offset i w =
     (let slot = (tw_current_slot w + offset) mod length (tw_slots w)
      in (slot, w\<lparr>tw_slots := (tw_slots w)[slot := tw_slots w ! slot @ [i]]\<rparr>))"

text \<open>A remainder by an empty wheel or a quotient by a zero tick panics.\<close>

definition tw_schedule :: "i64 \<Rightarrow> job_id \<Rightarrow> i64 \<Rightarrow> time_wheel \<Rightarrow> ('e, nat) outcome \<times> time_wheel" where
  "tw_schedule now i fire_at w =
     (let diff = fire_at - now in
      if tw_slots w = [] \<or> 0 <s diff \<and> tw_tick_ms w = 0 then (Panic, w)
      else let offset = (if diff \<le>s 0 then 1
                         else let ticks_ahead = unat (diff div tw_tick_ms w) in if ticks_ahead = 0 then 1 else ticks_ahead);
               (slot, w') = tw_put offset i w
           in (Ok slot, w'))"

definition tw_tick :: "time_wheel \<Rightarrow> job_id list \<times> time_wheel" where
  "tw_tick w =
     (let slot = (tw_current_slot w + 1) mod length (tw_slots w)
      in (tw_slots w ! slot, w\<lparr>tw_current_slot := slot, tw_slots := (tw_slots w)[slot := []]\<rparr>))"

definition tw_cancel :: "job_id \<Rightarrow> time_wheel \<Rightarrow> time_wheel" where
  "tw_cancel i w = w\<lparr>tw_slots := map (filter (\<lambda>j. j \<noteq> i)) (tw_slots w)\<rparr>"

definition tw_uptime_ms :: "i64 \<Rightarrow> time_wheel \<Rightarrow> i64" where
  "tw_uptime_ms now w = now - tw_started_at w"

section \<open>The sorted list\<close>

type_synonym priority_queue = "(i64 \<times> job_id) list"

text \<open>\<open>push\<close>, then a stable sort by the timestamp.\<close>

definition pq_schedule :: "job_id \<Rightarrow> i64 \<Rightarrow> priority_queue \<Rightarrow> priority_queue" where
  "pq_schedule i fire_at q = sort_key (\<lambda>e. sint (fst e)) (q @ [(fire_at, i)])"

fun pq_pop_due :: "i64 \<Rightarrow> priority_queue \<Rightarrow> job_id list \<times> priority_queue" where
  "pq_pop_due now [] = ([], [])"
| "pq_pop_due now ((ts, i) # q) =
     (if ts \<le>s now then (case pq_pop_due now q of (due, q') \<Rightarrow> (i # due, q')) else ([], (ts, i) # q))"

definition pq_cancel :: "job_id \<Rightarrow> priority_queue \<Rightarrow> priority_queue" where
  "pq_cancel i q = filter (\<lambda>e. snd e \<noteq> i) q"

section \<open>Lemmas on the wheel\<close>

definition tw_jobs :: "time_wheel \<Rightarrow> job_id set" where "tw_jobs w = set (concat (tw_slots w))"

definition tw_wf :: "time_wheel \<Rightarrow> bool" where
  "tw_wf w \<longleftrightarrow> tw_slots w \<noteq> [] \<and> tw_current_slot w < length (tw_slots w)"

lemma tw_put_slot:
  "tw_wf w \<Longrightarrow> tw_put offset i w = (slot, w') \<Longrightarrow>
   slot = (tw_current_slot w + offset) mod length (tw_slots w) \<and> slot < length (tw_slots w) \<and>
   tw_slots w' = (tw_slots w)[slot := tw_slots w ! slot @ [i]] \<and> tw_current_slot w' = tw_current_slot w"
  by (auto simp: tw_put_def Let_def tw_wf_def)

lemma tw_put_wf: "tw_wf w \<Longrightarrow> tw_put offset i w = (slot, w') \<Longrightarrow> tw_wf w'"
  by (auto simp: tw_put_def Let_def tw_wf_def)

lemma tw_tick_wf: "tw_wf w \<Longrightarrow> tw_wf (snd (tw_tick w))"
  by (simp add: tw_wf_def tw_tick_def Let_def)

fun tw_ticks :: "nat \<Rightarrow> time_wheel \<Rightarrow> job_id list \<times> time_wheel" where
  "tw_ticks 0 w = ([], w)"
| "tw_ticks (Suc n) w = tw_tick (snd (tw_ticks n w))"

lemma tw_ticks_current:
  assumes "tw_wf w"
  shows "tw_current_slot (snd (tw_ticks n w)) = (tw_current_slot w + n) mod length (tw_slots w)"
    and "length (tw_slots (snd (tw_ticks n w))) = length (tw_slots w)"
proof -
  have "tw_current_slot (snd (tw_ticks n w)) = (tw_current_slot w + n) mod length (tw_slots w) \<and>
      length (tw_slots (snd (tw_ticks n w))) = length (tw_slots w)"
    using assms by (induction n) (simp_all add: tw_wf_def tw_tick_def Let_def mod_Suc_eq)
  then show "tw_current_slot (snd (tw_ticks n w)) = (tw_current_slot w + n) mod length (tw_slots w)"
    "length (tw_slots (snd (tw_ticks n w))) = length (tw_slots w)" by auto
qed

lemma tw_ticks_wf: "tw_wf w \<Longrightarrow> tw_wf (snd (tw_ticks n w))"
  by (induction n) (simp_all add: tw_tick_wf)

lemma tw_ticks_due:
  "tw_wf w \<Longrightarrow> fst (tw_ticks (Suc n) w) =
   tw_slots (snd (tw_ticks n w)) ! ((tw_current_slot w + Suc n) mod length (tw_slots w))"
  by (simp add: tw_tick_def Let_def tw_ticks_current mod_Suc_eq)

lemma tw_tick_slot:
  "tw_wf w \<Longrightarrow> tw_slots (snd (tw_tick w)) ! k = (if k = (tw_current_slot w + 1) mod length (tw_slots w) \<and> k < length (tw_slots w) then []
     else tw_slots w ! k)"
  by (auto simp: tw_tick_def Let_def nth_list_update tw_wf_def)

text \<open>A slot keeps its jobs until the wheel reaches it.\<close>

lemma tw_ticks_kept:
  assumes "tw_wf w" and "\<forall>m. 0 < m \<and> m \<le> n \<longrightarrow> k \<noteq> (tw_current_slot w + m) mod length (tw_slots w)"
  shows "tw_slots (snd (tw_ticks n w)) ! k = tw_slots w ! k"
  using assms(2)
proof (induction n)
  case (Suc n)
  have "k \<noteq> (tw_current_slot w + Suc n) mod length (tw_slots w)" using Suc.prems by blast
  then show ?case
    using Suc by (simp add: tw_tick_slot tw_ticks_wf assms(1) tw_ticks_current [OF assms(1)] mod_Suc_eq)
qed simp

text \<open>A job is in no slot but its own.\<close>

lemma tw_ticks_jobs: "k < length (tw_slots w) \<Longrightarrow> tw_wf w \<Longrightarrow> set (tw_slots (snd (tw_ticks n w)) ! k) \<subseteq> set (tw_slots w ! k)"
  by (induction n) (auto simp: tw_tick_slot tw_ticks_wf tw_ticks_current split: if_splits)

lemma mod_shift_inj:
  fixes a i j N :: nat
  assumes "(a + i) mod N = (a + j) mod N" and "0 < i" "i \<le> N" and "0 < j" "j \<le> N"
  shows "i = j"
proof -
  have *: "i' = j'" if "(a + i') mod N = (a + j') mod N" "0 < i'" "i' \<le> j'" "j' \<le> N" for i' j'
  proof -
    have "N dvd (a + j') - (a + i')" using that(1,3) mod_eq_dvd_iff_nat [of "a + i'" "a + j'" N] by (metis add_le_cancel_left)
    then have "N dvd j' - i'" by simp
    moreover have "j' - i' < N" using that by linarith
    ultimately have "j' - i' = 0" by (metis dvd_imp_le gr0I leD)
    then show ?thesis using that(3) by simp
  qed
  show ?thesis using * [of i j] * [of j i] assms by (cases "i \<le> j") auto
qed

lemma wheel_fires:
  assumes "tw_wf w" and "i \<notin> tw_jobs w" and "tw_put offset i w = (slot, w')" and "0 < offset" and "offset \<le> length (tw_slots w)"
    and "0 < n" and "n \<le> length (tw_slots w)"
  shows "i \<in> set (fst (tw_ticks n w')) \<longleftrightarrow> n = offset"
proof -
  let ?N = "length (tw_slots w)" and ?c = "tw_current_slot w"
  have p: "slot = (?c + offset) mod ?N" "slot < ?N" "tw_slots w' = (tw_slots w)[slot := tw_slots w ! slot @ [i]]"
    "tw_current_slot w' = ?c" "length (tw_slots w') = ?N"
    using tw_put_slot [OF assms(1,3)] by auto
  have wf: "tw_wf w'" using tw_put_wf [OF assms(1,3)] .
  obtain n' where n': "n = Suc n'" using assms(6) by (cases n) auto
  let ?k = "(?c + n) mod ?N"
  have k: "?k < ?N" using assms(1) by (simp add: tw_wf_def)
  have due: "fst (tw_ticks n w') = tw_slots (snd (tw_ticks n' w')) ! ?k"
    using tw_ticks_due [OF wf, of n'] p(4,5) n' by simp
  have nomem: "i \<notin> set (tw_slots w ! j)" if "j < ?N" for j
    using assms(2) nth_mem [OF that] unfolding tw_jobs_def set_concat by blast
  show ?thesis
  proof
    assume "n = offset"
    then have "?k = slot" using p(1) by simp
    have "\<forall>m. 0 < m \<and> m \<le> n' \<longrightarrow> slot \<noteq> (tw_current_slot w' + m) mod length (tw_slots w')"
    proof (intro allI impI notI)
      fix m assume m: "0 < m \<and> m \<le> n'" and "slot = (tw_current_slot w' + m) mod length (tw_slots w')"
      then have "(?c + offset) mod ?N = (?c + m) mod ?N" using p(1,4,5) by simp
      from mod_shift_inj [OF this assms(4,5)] m n' \<open>n = offset\<close> assms(5) show False by simp
    qed
    from tw_ticks_kept [OF wf this] show "i \<in> set (fst (tw_ticks n w'))"
      using due \<open>?k = slot\<close> p(2,3) by simp
  next
    assume i: "i \<in> set (fst (tw_ticks n w'))"
    then have "i \<in> set (tw_slots w' ! ?k)"
      using due tw_ticks_jobs [OF _ wf, of ?k n'] k p(5) by auto
    then have "?k = slot" using p(2,3) nomem [OF k] by (auto simp: nth_list_update split: if_splits)
    then show "n = offset" using mod_shift_inj [of ?c n ?N offset] p(1) assms(4-7) by simp
  qed
qed

section \<open>Lemmas on the sorted list\<close>

definition pq_sorted :: "priority_queue \<Rightarrow> bool" where
  "pq_sorted q \<longleftrightarrow> sorted (map (\<lambda>e. sint (fst e)) q)"

lemma pq_schedule_sorted [simp]: "pq_sorted (pq_schedule i t q)"
  by (simp add: pq_sorted_def pq_schedule_def)

lemma pq_schedule_set: "set (pq_schedule i t q) = insert (t, i) (set q)"
  by (simp add: pq_schedule_def)

lemma pq_cancel_sorted [simp]: "pq_sorted q \<Longrightarrow> pq_sorted (pq_cancel i q)"
  by (simp add: pq_sorted_def pq_cancel_def sorted_filter)

lemma pq_pop_due_split:
  "pq_sorted q \<Longrightarrow> pq_pop_due now q = (map snd (filter (\<lambda>e. fst e \<le>s now) q), filter (\<lambda>e. \<not> fst e \<le>s now) q)"
proof (induction q)
  case (Cons e q)
  have "filter (\<lambda>e. fst e \<le>s now) q = []" if "\<not> fst e \<le>s now"
    using Cons.prems that by (fastforce simp: pq_sorted_def filter_empty_conv word_sle_eq)
  moreover have "filter (\<lambda>e. \<not> fst e \<le>s now) q = q" if "\<not> fst e \<le>s now"
    using Cons.prems that by (fastforce simp: pq_sorted_def filter_id_conv word_sle_eq)
  ultimately show ?case
    using Cons by (cases e) (auto simp: pq_sorted_def)
qed simp

end
