(* ===== verification/Sched_Backend.thy ===== *)
theory Sched_Backend
  imports Time_Wheel
begin

text \<open>
  \<open>StorageSchedulerBackend\<close> (\<open>nova-scheduler/src/backend.rs\<close>): jobs kept in a storage engine under
  \<open>sched:job:\<close>, with an index \<open>sched:pending:\<close> by zero-padded time. The engine is an argument; the JSON
  codec and the text of UUIDs are the record \<open>sched_codec\<close>.
\<close>

section \<open>Keys\<close>

record sched_codec =
  sc_enc :: "job \<Rightarrow> bytes"
  sc_dec :: "bytes \<Rightarrow> job option"
  sc_json_error :: "bytes \<Rightarrow> string"
  sc_uuid_str :: "job_id \<Rightarrow> string"
  sc_uuid_parse :: "string \<Rightarrow> job_id option"

text \<open>\<open>{:020}\<close>: padded with zeros to twenty characters, after the sign.\<close>

definition zero_pad :: "nat \<Rightarrow> string \<Rightarrow> string" where
  "zero_pad n s = replicate (n - length s) (CHR ''0'') @ s"

definition padded20 :: "i64 \<Rightarrow> string" where
  "padded20 t = (if sint t < 0 then ''-'' @ zero_pad 19 (nat_string (nat (- sint t))) else zero_pad 20 (nat_string (nat (sint t))))"

definition job_key :: "sched_codec \<Rightarrow> job_id \<Rightarrow> key" where
  "job_key sc i = string_bytes (''sched:job:'' @ sc_uuid_str sc i)"

definition job_pending_key :: "sched_codec \<Rightarrow> job_id \<Rightarrow> i64 \<Rightarrow> key" where
  "job_pending_key sc i next_run_at = string_bytes (''sched:pending:'' @ padded20 next_run_at @ '':'' @ sc_uuid_str sc i)"

section \<open>Engine calls\<close>

type_synonym ('s, 'a) sched_op = "('s, sched_error, 'a) stm"

definition via_sched :: "('s, runtime_error, 'a) stm \<Rightarrow> ('s, 'a) sched_op" where
  "via_sched m = (\<lambda>s. case m s of
       (Ok x, s') \<Rightarrow> (Ok x, s')
     | (Err e, s') \<Rightarrow> (Err (sched_error_from e), s')
     | (Panic, s') \<Rightarrow> (Panic, s')
     | (Deadlock, s') \<Rightarrow> (Deadlock, s'))"

section \<open>Operations\<close>

definition create_job :: "('s, runtime_error) engine \<Rightarrow> sched_codec \<Rightarrow> job \<Rightarrow> ('s, unit) sched_op" where
  "create_job E sc job =
     sbind (via_sched (eng_get E (job_key sc (jb_id job)))) (\<lambda>d.
     if d \<noteq> None then slift (Err (JobAlreadyExists (sc_uuid_str sc (jb_id job))))
     else sbind (via_sched (eng_set E (job_key sc (jb_id job)) (sc_enc sc job))) (\<lambda>_.
       if jb_state job = JPending
       then via_sched (eng_set E (job_pending_key sc (jb_id job) (jb_next_run_at job)) [])
       else sret ()))"

definition get_job :: "('s, runtime_error) engine \<Rightarrow> sched_codec \<Rightarrow> job_id \<Rightarrow> ('s, job) sched_op" where
  "get_job E sc i =
     sbind (via_sched (eng_get E (job_key sc i))) (\<lambda>d.
     case d of None \<Rightarrow> slift (Err (JobNotFound (sc_uuid_str sc i)))
     | Some data \<Rightarrow> (case sc_dec sc data of Some j \<Rightarrow> sret j
         | None \<Rightarrow> slift (Err (SchInternal (sc_json_error sc data)))))"

definition update_job :: "('s, runtime_error) engine \<Rightarrow> sched_codec \<Rightarrow> job \<Rightarrow> ('s, unit) sched_op" where
  "update_job E sc job =
     sbind (via_sched (eng_get E (job_key sc (jb_id job)))) (\<lambda>d.
     if d = None then slift (Err (JobNotFound (sc_uuid_str sc (jb_id job))))
     else via_sched (eng_set E (job_key sc (jb_id job)) (sc_enc sc job)))"

fun delete_containing :: "('s, runtime_error) engine \<Rightarrow> string \<Rightarrow> key list \<Rightarrow> ('s, unit) sched_op" where
  "delete_containing E i [] = sret ()"
| "delete_containing E i (k # ks) =
     sbind (if contains_str (bytes_string k) i then sbind (try_stm (via_sched (eng_delete E k))) (\<lambda>_. sret ()) else sret ())
       (\<lambda>_. delete_containing E i ks)"

definition pending_prefix :: key where "pending_prefix = string_bytes ''sched:pending:''"

definition delete_job :: "('s, runtime_error) engine \<Rightarrow> sched_codec \<Rightarrow> job_id \<Rightarrow> ('s, unit) sched_op" where
  "delete_job E sc i =
     sbind (via_sched (eng_get E (job_key sc i))) (\<lambda>d.
     if d = None then slift (Err (JobNotFound (sc_uuid_str sc i)))
     else sbind (via_sched (eng_delete E (job_key sc i))) (\<lambda>_.
       sbind (via_sched (eng_scan E pending_prefix (pending_prefix @ [0xFF]))) (\<lambda>es.
       delete_containing E (sc_uuid_str sc i) (map fst es))))"

definition job_summarise :: "job \<Rightarrow> job_summary" where
  "job_summarise j = \<lparr>jy_id = jb_id j, jy_name = jb_name j, jy_schedule_type = jb_schedule_type j, jy_state = jb_state j,
     jy_next_run_at = jb_next_run_at j, jy_last_run_at = jb_last_run_at j, jy_retry_count = jb_retry_count j\<rparr>"

definition list_jobs :: "('s, runtime_error) engine \<Rightarrow> sched_codec \<Rightarrow> job_state option \<Rightarrow> ('s, job_summary list) sched_op" where
  "list_jobs E sc state =
     sbind (via_sched (eng_scan E (string_bytes ''sched:job:'') (string_bytes ''sched:job:'' @ [0xFF]))) (\<lambda>es.
     sret (map job_summarise (filter (\<lambda>j. case state of Some st \<Rightarrow> jb_state j = st | None \<Rightarrow> True)
       (List.map_filter (\<lambda>(_, v). sc_dec sc v) es))))"

text \<open>The id in an index key: what follows its last colon.\<close>

definition pending_key_id :: "sched_codec \<Rightarrow> key \<Rightarrow> job_id option" where
  "pending_key_id sc k = (let parts = split_on (CHR '':'') (bytes_string k) in
     if length parts < 3 then None else sc_uuid_parse sc (last parts))"

fun ready_jobs :: "('s, runtime_error) engine \<Rightarrow> sched_codec \<Rightarrow> i64 \<Rightarrow> key list \<Rightarrow> ('s, job list) sched_op" where
  "ready_jobs E sc now [] = sret []"
| "ready_jobs E sc now (k # ks) =
     (case pending_key_id sc k of
        None \<Rightarrow> ready_jobs E sc now ks
      | Some i \<Rightarrow>
          sbind (try_stm (get_job E sc i)) (\<lambda>j.
          sbind (ready_jobs E sc now ks) (\<lambda>js.
          sret (case j of Some job \<Rightarrow> if job_is_ready job now then job # js else js | None \<Rightarrow> js))))"

definition ready_end :: "i64 \<Rightarrow> key" where
  "ready_end now = string_bytes (''sched:pending:'' @ padded20 (now + 1) @ '':'')"

definition find_ready_jobs :: "('s, runtime_error) engine \<Rightarrow> sched_codec \<Rightarrow> i64 \<Rightarrow> nat \<Rightarrow> ('s, job list) sched_op" where
  "find_ready_jobs E sc now limit =
     sbind (via_sched (eng_scan E pending_prefix (ready_end now))) (\<lambda>es.
     ready_jobs E sc now (map fst (take limit es)))"

definition change_job :: "('s, runtime_error) engine \<Rightarrow> sched_codec \<Rightarrow> (job \<Rightarrow> job) \<Rightarrow> job_id \<Rightarrow> ('s, unit) sched_op" where
  "change_job E sc f i = sbind (get_job E sc i) (\<lambda>job. update_job E sc (f job))"

definition mark_running :: "('s, runtime_error) engine \<Rightarrow> sched_codec \<Rightarrow> i64 \<Rightarrow> job_id \<Rightarrow> ('s, unit) sched_op" where
  "mark_running E sc now = change_job E sc (\<lambda>j. j\<lparr>jb_state := JRunning, jb_updated_at := now\<rparr>)"

definition mark_completed :: "('s, runtime_error) engine \<Rightarrow> sched_codec \<Rightarrow> i64 \<Rightarrow> job_id \<Rightarrow> ('s, unit) sched_op" where
  "mark_completed E sc now = change_job E sc (\<lambda>j. j\<lparr>jb_state := JCompleted, jb_last_run_at := Some now, jb_updated_at := now\<rparr>)"

definition mark_failed :: "('s, runtime_error) engine \<Rightarrow> sched_codec \<Rightarrow> i64 \<Rightarrow> job_id \<Rightarrow> ('s, unit) sched_op" where
  "mark_failed E sc now = change_job E sc (\<lambda>j. j\<lparr>jb_state := JFailed, jb_last_run_at := Some now, jb_updated_at := now\<rparr>)"

definition mark_cancelled :: "('s, runtime_error) engine \<Rightarrow> sched_codec \<Rightarrow> i64 \<Rightarrow> job_id \<Rightarrow> ('s, unit) sched_op" where
  "mark_cancelled E sc now = change_job E sc (\<lambda>j. j\<lparr>jb_state := JCancelled, jb_updated_at := now\<rparr>)"

definition reschedule_job :: "('s, runtime_error) engine \<Rightarrow> sched_codec \<Rightarrow> i64 \<Rightarrow> job \<Rightarrow> i64 \<Rightarrow> ('s, unit) sched_op" where
  "reschedule_job E sc now job next_run_at =
     update_job E sc (job\<lparr>jb_state := JPending, jb_next_run_at := next_run_at, jb_last_run_at := Some now,
       jb_retry_count := 0, jb_updated_at := now\<rparr>)"

fun running_jobs_of :: "('s, runtime_error) engine \<Rightarrow> sched_codec \<Rightarrow> job_summary list \<Rightarrow> ('s, job list) sched_op" where
  "running_jobs_of E sc [] = sret []"
| "running_jobs_of E sc (y # ys) =
     (if jy_state y = JRunning
      then sbind (try_stm (get_job E sc (jy_id y))) (\<lambda>j.
        sbind (running_jobs_of E sc ys) (\<lambda>js. sret (case j of Some job \<Rightarrow> job # js | None \<Rightarrow> js)))
      else running_jobs_of E sc ys)"

definition recover_pending_jobs :: "('s, runtime_error) engine \<Rightarrow> sched_codec \<Rightarrow> i64 \<Rightarrow> ('s, job list) sched_op" where
  "recover_pending_jobs E sc now =
     sbind (find_ready_jobs E sc now 10000) (\<lambda>ready.
     sbind (list_jobs E sc None) (\<lambda>all_jobs.
     sbind (running_jobs_of E sc all_jobs) (\<lambda>running. sret (ready @ running))))"

fun count_state :: "job_state \<Rightarrow> scheduler_stats \<Rightarrow> scheduler_stats" where
  "count_state JPending st = st\<lparr>sx_pending := sx_pending st + 1\<rparr>"
| "count_state JRunning st = st\<lparr>sx_running := sx_running st + 1\<rparr>"
| "count_state JCompleted st = st\<lparr>sx_completed := sx_completed st + 1\<rparr>"
| "count_state JFailed st = st\<lparr>sx_failed := sx_failed st + 1, sx_total_failures := sx_total_failures st + 1\<rparr>"
| "count_state JCancelled st = st\<lparr>sx_cancelled := sx_cancelled st + 1\<rparr>"
| "count_state JSkipped st = st\<lparr>sx_skipped := sx_skipped st + 1\<rparr>"
| "count_state JPaused st = st\<lparr>sx_paused := sx_paused st + 1\<rparr>"

definition sched_stats :: "('s, runtime_error) engine \<Rightarrow> sched_codec \<Rightarrow> ('s, scheduler_stats) sched_op" where
  "sched_stats E sc =
     sbind (list_jobs E sc None) (\<lambda>ys.
     sret (fold (\<lambda>y st. count_state (jy_state y) (st\<lparr>sx_total_scheduled := sx_total_scheduled st + 1\<rparr>)) ys scheduler_stats_default))"

end
