(* ===== verification/Sched_Manager.thy ===== *)
theory Sched_Manager
  imports Sched_Backend
begin

text \<open>
  \<open>SchedulerManager\<close> (\<open>nova-scheduler/src/manager.rs\<close>) over a storage engine: the timers, the running
  set, and the tasks it has spawned, each finished by a step of its own (\<open>finish_task\<close>). A clock reading
  is an argument of each step; the semaphore only delays a dispatch and is never closed.
\<close>

section \<open>State\<close>

record 's scheduler =
  sm_store :: 's
  sm_config :: scheduler_config
  sm_wheel :: time_wheel
  sm_pq :: priority_queue
  sm_running :: "job_id list"
  sm_tasks :: "job list"
  sm_shutdown :: bool

definition scheduler_new :: "i64 \<Rightarrow> scheduler_config \<Rightarrow> 's \<Rightarrow> 's scheduler" where
  "scheduler_new now cfg s = \<lparr>sm_store = s, sm_config = cfg,
     sm_wheel = tw_new now (sd_time_wheel_tick_ms cfg) (sd_time_wheel_slots cfg), sm_pq = [], sm_running = [],
     sm_tasks = [], sm_shutdown = False\<rparr>"

type_synonym ('s, 'a) manager_op = "('s scheduler, 'a) sched_op"

definition on_store :: "('s, 'a) sched_op \<Rightarrow> ('s, 'a) manager_op" where
  "on_store m = (\<lambda>st. case m (sm_store st) of (r, s') \<Rightarrow> (r, st\<lparr>sm_store := s'\<rparr>))"

definition wheel_put :: "i64 \<Rightarrow> job_id \<Rightarrow> i64 \<Rightarrow> ('s, unit) manager_op" where
  "wheel_put now i t = (\<lambda>st. case tw_schedule now i t (sm_wheel st) of
       (Ok _, w) \<Rightarrow> (Ok (), st\<lparr>sm_wheel := w\<rparr>)
     | (Err e, w) \<Rightarrow> (Err e, st)
     | (Panic, w) \<Rightarrow> (Panic, st)
     | (Deadlock, w) \<Rightarrow> (Deadlock, st))"

definition pq_put :: "job_id \<Rightarrow> i64 \<Rightarrow> ('s, unit) manager_op" where
  "pq_put i t = smod (\<lambda>st. st\<lparr>sm_pq := pq_schedule i t (sm_pq st)\<rparr>)"

text \<open>Near jobs go to the wheel, far and late ones to the list. The wheel reads the clock again.\<close>

definition register_timer :: "i64 \<Rightarrow> i64 \<Rightarrow> job \<Rightarrow> ('s, unit) manager_op" where
  "register_timer now now' job = (\<lambda>st.
     let delta = jb_next_run_at job - now;
         tw_max = of_nat (sd_time_wheel_slots (sm_config st)) * sd_time_wheel_tick_ms (sm_config st) :: u64
     in if 0 \<le>s delta \<and> delta \<le> tw_max then wheel_put now' (jb_id job) (jb_next_run_at job) st
        else pq_put (jb_id job) (jb_next_run_at job) st)"

definition drop_timers :: "job_id \<Rightarrow> ('s, unit) manager_op" where
  "drop_timers i = smod (\<lambda>st. st\<lparr>sm_wheel := tw_cancel i (sm_wheel st), sm_pq := pq_cancel i (sm_pq st)\<rparr>)"

section \<open>Dependencies\<close>

text \<open>The search over the dependency graph. \<open>fuel\<close> bounds its steps; without fuel it has not
  ended yet, which is the outcome \<open>Deadlock\<close>.\<close>

fun dependency_search :: "('s, runtime_error) engine \<Rightarrow> sched_codec \<Rightarrow> job \<Rightarrow> nat \<Rightarrow> job_id list \<Rightarrow> job_id list \<Rightarrow> ('s, unit) sched_op" where
  "dependency_search E sc job fuel visited [] = sret ()"
| "dependency_search E sc job 0 visited (d # stack) = slift Deadlock"
| "dependency_search E sc job (Suc fuel) visited (d # stack) =
     (if d = jb_id job then slift (Err (DependencyCycle (''Job '' @ jb_name job @ '' depends on itself'')))
      else if d \<in> set visited then dependency_search E sc job fuel visited stack
      else sbind (try_stm (get_job E sc d)) (\<lambda>j.
        dependency_search E sc job fuel (d # visited)
          (case j of Some dep \<Rightarrow> rev (jb_depends_on dep) @ stack | None \<Rightarrow> stack)))"

definition validate_dependencies :: "('s, runtime_error) engine \<Rightarrow> sched_codec \<Rightarrow> nat \<Rightarrow> job \<Rightarrow> ('s, unit) sched_op" where
  "validate_dependencies E sc fuel job = dependency_search E sc job fuel [] (rev (jb_depends_on job))"

section \<open>Scheduling and cancelling\<close>

definition schedule_job :: "('s, runtime_error) engine \<Rightarrow> sched_codec \<Rightarrow> nat \<Rightarrow> i64 \<Rightarrow> i64 \<Rightarrow> job_id \<Rightarrow> job \<Rightarrow> ('s, unit) manager_op" where
  "schedule_job E sc fuel now now' fresh job =
     (let job = (if jb_id job = 0 then job\<lparr>jb_id := fresh\<rparr> else job) in
      sbind (if jb_depends_on job \<noteq> [] then on_store (validate_dependencies E sc fuel job) else sret ()) (\<lambda>_.
      sbind (on_store (create_job E sc job)) (\<lambda>_.
      register_timer now now' job)))"

definition cancel_job :: "('s, runtime_error) engine \<Rightarrow> sched_codec \<Rightarrow> i64 \<Rightarrow> job_id \<Rightarrow> ('s, unit) manager_op" where
  "cancel_job E sc now i =
     sbind (on_store (mark_cancelled E sc now i)) (\<lambda>_.
     sbind (drop_timers i) (\<lambda>_.
     smod (\<lambda>st. st\<lparr>sm_running := removeAll i (sm_running st)\<rparr>)))"

section \<open>Dispatch\<close>

text \<open>The first dependency that is not completed postpones the job; a missing one is passed over.\<close>

fun waits_for :: "('s, runtime_error) engine \<Rightarrow> sched_codec \<Rightarrow> job_id list \<Rightarrow> ('s, bool) sched_op" where
  "waits_for E sc [] = sret False"
| "waits_for E sc (d # ds) =
     sbind (try_stm (get_job E sc d)) (\<lambda>j. case j of
       Some dep \<Rightarrow> if jb_state dep \<noteq> JCompleted then sret True else waits_for E sc ds
     | None \<Rightarrow> waits_for E sc ds)"

definition dispatch_job :: "('s, runtime_error) engine \<Rightarrow> sched_codec \<Rightarrow> i64 \<Rightarrow> job \<Rightarrow> ('s, unit) manager_op" where
  "dispatch_job E sc now job =
     sbind (sget sm_running) (\<lambda>running.
     if jb_prevent_overlap job \<and> jb_id job \<in> set running then sret ()
     else sbind (on_store (waits_for E sc (jb_depends_on job))) (\<lambda>wait.
     if wait then pq_put (jb_id job) (now + 5000)
     else sbind (smod (\<lambda>st. st\<lparr>sm_running := List.insert (jb_id job) (sm_running st)\<rparr>)) (\<lambda>_.
       sbind (try_stm (on_store (mark_running E sc now (jb_id job)))) (\<lambda>ok.
       if ok = None then smod (\<lambda>st. st\<lparr>sm_running := removeAll (jb_id job) (sm_running st)\<rparr>)
       else smod (\<lambda>st. st\<lparr>sm_tasks := sm_tasks st @ [job]\<rparr>)))))"

fun process_due :: "('s, runtime_error) engine \<Rightarrow> sched_codec \<Rightarrow> i64 \<Rightarrow> job_id list \<Rightarrow> ('s, unit) manager_op" where
  "process_due E sc now [] = sret ()"
| "process_due E sc now (i # is) =
     sbind (sget sm_running) (\<lambda>running.
     sbind (if i \<in> set running then sret ()
            else sbind (try_stm (on_store (get_job E sc i))) (\<lambda>j. case j of
              Some job \<Rightarrow> if jb_state job = JPending then dispatch_job E sc now job else sret ()
            | None \<Rightarrow> sret ())) (\<lambda>_.
     process_due E sc now is))"

definition process_time_wheel_tick :: "('s, runtime_error) engine \<Rightarrow> sched_codec \<Rightarrow> i64 \<Rightarrow> ('s, unit) manager_op" where
  "process_time_wheel_tick E sc now = (\<lambda>st.
     case tw_tick (sm_wheel st) of (due, w) \<Rightarrow> process_due E sc now due (st\<lparr>sm_wheel := w\<rparr>))"

definition process_priority_queue_tick :: "('s, runtime_error) engine \<Rightarrow> sched_codec \<Rightarrow> i64 \<Rightarrow> ('s, unit) manager_op" where
  "process_priority_queue_tick E sc now = (\<lambda>st.
     case pq_pop_due now (sm_pq st) of (due, q) \<Rightarrow> process_due E sc now due (st\<lparr>sm_pq := q\<rparr>))"

section \<open>Finishing\<close>

text \<open>\<open>execute_job\<close> is a placeholder in the code, too: it succeeds.\<close>

definition execute_job :: "job \<Rightarrow> (string, unit) outcome" where "execute_job job = Ok ()"

definition compute_next_run :: "'d calendar \<Rightarrow> i64 \<Rightarrow> job \<Rightarrow> i64 option" where
  "compute_next_run ca now job =
     (case jb_schedule_type job of
        Interval \<Rightarrow> Some (now + (case jb_interval_secs job of Some n \<Rightarrow> n | None \<Rightarrow> 3600) * 1000)
      | Cron \<Rightarrow>
          (case jb_cron_expression job of
             Some expr \<Rightarrow> (case cron_parse expr of Ok cron \<Rightarrow> next_after ca cron now | _ \<Rightarrow> None)
           | None \<Rightarrow> None)
      | OneTime \<Rightarrow> None)"

definition finish_job :: "('s, runtime_error) engine \<Rightarrow> sched_codec \<Rightarrow> 'd calendar \<Rightarrow> i64 \<Rightarrow> job \<Rightarrow> (string, unit) outcome \<Rightarrow>
    ('s, unit) manager_op" where
  "finish_job E sc ca now job r =
     sbind (case r of
         Ok _ \<Rightarrow>
           sbind (try_stm (on_store (mark_completed E sc now (jb_id job)))) (\<lambda>_.
           case (if job_is_recurring job then compute_next_run ca now job else None) of
             Some next_run \<Rightarrow> sbind (try_stm (on_store (reschedule_job E sc now job next_run))) (\<lambda>_. sret ())
           | None \<Rightarrow> sret ())
       | _ \<Rightarrow>
           if jb_retry_count job < jb_max_retries job
           then sbind (try_stm (on_store (reschedule_job E sc now job (now + ucast (jb_retry_delay_secs job) * 1000)))) (\<lambda>_. sret ())
           else sbind (try_stm (on_store (mark_failed E sc now (jb_id job)))) (\<lambda>_. sret ()))
       (\<lambda>_. smod (\<lambda>st. st\<lparr>sm_running := removeAll (jb_id job) (sm_running st)\<rparr>))"

definition finish_task :: "('s, runtime_error) engine \<Rightarrow> sched_codec \<Rightarrow> 'd calendar \<Rightarrow> i64 \<Rightarrow> ('s, unit) manager_op" where
  "finish_task E sc ca now = (\<lambda>st. case sm_tasks st of
       [] \<Rightarrow> (Ok (), st)
     | job # tasks \<Rightarrow> finish_job E sc ca now job (execute_job job) (st\<lparr>sm_tasks := tasks\<rparr>))"

section \<open>Start-up and the administrative calls\<close>

fun recover_jobs :: "('s, runtime_error) engine \<Rightarrow> sched_codec \<Rightarrow> i64 \<Rightarrow> job list \<Rightarrow> ('s, unit) manager_op" where
  "recover_jobs E sc now [] = sret ()"
| "recover_jobs E sc now (job # jobs) =
     sbind (sget sm_config) (\<lambda>cfg.
     sbind (if job_is_ready job now
            then if sd_enable_catch_up cfg \<or> job_is_recurring job then dispatch_job E sc now job else sret ()
            else if jb_state job = JRunning
            then sbind (try_stm (on_store (update_job E sc (job\<lparr>jb_state := JPending, jb_retry_count := 0\<rparr>)))) (\<lambda>_. sret ())
            else sret ()) (\<lambda>_.
     recover_jobs E sc now jobs))"

definition recover_on_startup :: "('s, runtime_error) engine \<Rightarrow> sched_codec \<Rightarrow> i64 \<Rightarrow> ('s, unit) manager_op" where
  "recover_on_startup E sc now =
     sbind (try_stm (on_store (recover_pending_jobs E sc now))) (\<lambda>jobs.
     case jobs of Some js \<Rightarrow> recover_jobs E sc now js | None \<Rightarrow> sret ())"

definition scheduler_start :: "('s, runtime_error) engine \<Rightarrow> sched_codec \<Rightarrow> i64 \<Rightarrow> ('s, unit) manager_op" where
  "scheduler_start E sc now = sbind (sget sm_config) (\<lambda>cfg.
     if sd_enable_startup_recovery cfg then recover_on_startup E sc now else sret ())"

definition trigger_job :: "('s, runtime_error) engine \<Rightarrow> sched_codec \<Rightarrow> i64 \<Rightarrow> job_id \<Rightarrow> ('s, unit) manager_op" where
  "trigger_job E sc now i =
     sbind (on_store (get_job E sc i)) (\<lambda>job.
     sbind (drop_timers i) (\<lambda>_.
     let job = job\<lparr>jb_state := JPending, jb_next_run_at := now\<rparr> in
     sbind (on_store (update_job E sc job)) (\<lambda>_. dispatch_job E sc now job)))"

definition pause_job :: "('s, runtime_error) engine \<Rightarrow> sched_codec \<Rightarrow> i64 \<Rightarrow> job_id \<Rightarrow> ('s, unit) manager_op" where
  "pause_job E sc now i =
     sbind (on_store (get_job E sc i)) (\<lambda>job.
     sbind (on_store (update_job E sc (job\<lparr>jb_state := JPaused, jb_updated_at := now\<rparr>))) (\<lambda>_.
     drop_timers i))"

definition resume_job :: "('s, runtime_error) engine \<Rightarrow> sched_codec \<Rightarrow> i64 \<Rightarrow> i64 \<Rightarrow> job_id \<Rightarrow> ('s, unit) manager_op" where
  "resume_job E sc now now' i =
     sbind (on_store (get_job E sc i)) (\<lambda>job.
     let job = job\<lparr>jb_state := JPending, jb_next_run_at := now, jb_updated_at := now\<rparr> in
     sbind (on_store (update_job E sc job)) (\<lambda>_. register_timer now' now' job))"

definition scheduler_shutdown :: "'s scheduler \<Rightarrow> 's scheduler" where
  "scheduler_shutdown st = st\<lparr>sm_shutdown := True\<rparr>"

section \<open>Ticks\<close>

datatype tick = WheelTick i64 | QueueTick i64

text \<open>A panic or deadlock of the engine ends the run.\<close>

fun run_ticks :: "('s, runtime_error) engine \<Rightarrow> sched_codec \<Rightarrow> tick list \<Rightarrow> ('s, unit) manager_op" where
  "run_ticks E sc [] = sret ()"
| "run_ticks E sc (WheelTick now # ts) = sbind (process_time_wheel_tick E sc now) (\<lambda>_. run_ticks E sc ts)"
| "run_ticks E sc (QueueTick now # ts) = sbind (process_priority_queue_tick E sc now) (\<lambda>_. run_ticks E sc ts)"

section \<open>Lemmas\<close>

text \<open>A job in no timer is in no later tick.\<close>

definition timers_empty :: "'s scheduler \<Rightarrow> bool" where
  "timers_empty st \<longleftrightarrow> sm_pq st = [] \<and> tw_jobs (sm_wheel st) = {} \<and> tw_wf (sm_wheel st)"

lemma tick_empty:
  assumes "tw_jobs w = {}" and "tw_wf w"
  shows "fst (tw_tick w) = [] \<and> tw_jobs (snd (tw_tick w)) = {} \<and> tw_wf (snd (tw_tick w))"
proof -
  have nil: "tw_slots w ! k = []" if "k < length (tw_slots w)" for k
    using assms(1) nth_mem [OF that] unfolding tw_jobs_def set_concat by fastforce
  let ?k = "(tw_current_slot w + 1) mod length (tw_slots w)"
  have "?k < length (tw_slots w)" using assms(2) by (simp add: tw_wf_def)
  moreover from nil [OF this] have "(tw_slots w)[?k := []] = tw_slots w"
    by (metis list_update_id)
  ultimately show ?thesis
    using nil [of ?k] assms by (simp add: tw_tick_def Let_def tw_jobs_def tw_wf_def)
qed

lemma run_ticks_empty:
  "timers_empty st \<Longrightarrow> \<exists>st'. run_ticks E sc ts st = (Ok (), st') \<and> timers_empty st' \<and> sm_tasks st' = sm_tasks st \<and>
    sm_store st' = sm_store st \<and> sm_running st' = sm_running st"
proof (induction ts arbitrary: st)
  case (Cons t ts)
  show ?case
  proof (cases t)
    case (WheelTick now)
    let ?st = "st\<lparr>sm_wheel := snd (tw_tick (sm_wheel st))\<rparr>"
    have "fst (tw_tick (sm_wheel st)) = []" "timers_empty ?st"
      using tick_empty [of "sm_wheel st"] Cons.prems by (simp_all add: timers_empty_def)
    then have "process_time_wheel_tick E sc now st = (Ok (), ?st)"
      by (cases "tw_tick (sm_wheel st)") (simp add: process_time_wheel_tick_def)
    with Cons.IH [OF \<open>timers_empty ?st\<close>] show ?thesis by (simp add: WheelTick)
  next
    case (QueueTick now)
    have "process_priority_queue_tick E sc now st = (Ok (), st)"
      using Cons.prems by (simp add: process_priority_queue_tick_def timers_empty_def)
    with Cons.IH [OF Cons.prems] show ?thesis by (simp add: QueueTick)
  qed
qed simp

end
