(* ===== verification/Sched_Correct.thy ===== *)
theory Sched_Correct
  imports Sched_Manager Queue_Correct
begin

text \<open>
  The scheduler as a client of the storage engine contract, and the order of its index keys: what the
  backend does to the map the engine stands for, and that the padded times sort as the times do.
\<close>

section \<open>Padded times\<close>

definition digit_byte :: "nat \<Rightarrow> u8" where "digit_byte d = of_nat (48 + d)"

fun fixed_digits :: "nat \<Rightarrow> nat \<Rightarrow> bytes" where
  "fixed_digits 0 v = []"
| "fixed_digits (Suc n) v = fixed_digits n (v div 10) @ [digit_byte (v mod 10)]"

lemma length_fixed_digits [simp]: "length (fixed_digits n v) = n"
  by (induction n arbitrary: v) simp_all

lemma fixed_digits_zero: "fixed_digits n 0 = replicate n (digit_byte 0)"
  by (induction n) (simp_all add: replicate_append_same)

lemma digit_byte_less: "d < 10 \<Longrightarrow> e < 10 \<Longrightarrow> digit_byte d < digit_byte e \<longleftrightarrow> d < e"
  by (simp add: digit_byte_def word_less_nat_alt unat_of_nat del: of_nat_add of_nat_Suc)

lemma digit_byte_inj: "d < 10 \<Longrightarrow> e < 10 \<Longrightarrow> digit_byte d = digit_byte e \<longleftrightarrow> d = e"
  using digit_byte_less [of d e] digit_byte_less [of e d] by (metis less_irrefl linorder_neqE_nat)

lemma snoc_less:
  fixes xs ys :: "'a::linorder list"
  shows "length xs = length ys \<Longrightarrow> xs @ [a] < ys @ [b] \<longleftrightarrow> xs < ys \<or> xs = ys \<and> a < b"
  by (induction xs ys rule: list_induct2) auto

lemma fixed_digits_less:
  "v < 10 ^ n \<Longrightarrow> w < 10 ^ n \<Longrightarrow>
   (fixed_digits n v = fixed_digits n w \<longleftrightarrow> v = w) \<and> (fixed_digits n v < fixed_digits n w \<longleftrightarrow> v < w)"
proof (induction n arbitrary: v w)
  case (Suc n)
  have "v div 10 < 10 ^ n" "w div 10 < 10 ^ n" using Suc.prems by (simp_all add: less_mult_imp_div_less)
  note IH = Suc.IH [OF this]
  have eq: "v = w \<longleftrightarrow> v div 10 = w div 10 \<and> v mod 10 = w mod 10" by (metis div_mult_mod_eq)
  have "v < w \<longleftrightarrow> v div 10 < w div 10 \<or> v div 10 = w div 10 \<and> v mod 10 < w mod 10"
    using div_le_mono [of w v 10] div_mult_mod_eq [of v 10] div_mult_mod_eq [of w 10] by linarith
  with eq IH show ?case by (simp add: snoc_less digit_byte_less digit_byte_inj)
qed simp

lemma append_less_eq_length:
  fixes xs ys :: "'a::linorder list"
  shows "length xs = length ys \<Longrightarrow> xs @ s < ys @ t \<longleftrightarrow> xs < ys \<or> xs = ys \<and> s < t"
  by (induction xs ys rule: list_induct2) auto

lemma length_nat_string: "0 < n \<Longrightarrow> v < 10 ^ n \<Longrightarrow> length (nat_string v) \<le> n"
proof (induction v arbitrary: n rule: nat_string.induct)
  case (1 v)
  show ?case
  proof (cases "v < 10")
    case True
    then show ?thesis using "1.prems" by (simp add: nat_string.simps [of v])
  next
    case False
    then obtain n' where n': "n = Suc n'" "0 < n'" using "1.prems" by (cases n; cases "n - 1") auto
    then have "v div 10 < 10 ^ n'" using "1.prems"(2) by (simp add: less_mult_imp_div_less)
    from "1.IH" [OF False n'(2) this] show ?thesis using False n'(1) by (simp add: nat_string.simps [of v])
  qed
qed

lemma string_digit: "string_bytes [char_of (48 + d)] = [digit_byte d]" if "d < 10"
  using that by (simp add: string_bytes_def digit_byte_def)

lemma zero_pad_digits: "0 < n \<Longrightarrow> v < 10 ^ n \<Longrightarrow> string_bytes (zero_pad n (nat_string v)) = fixed_digits n v"
proof (induction v arbitrary: n rule: nat_string.induct)
  case (1 v)
  have zero: "string_bytes (replicate k (CHR ''0'')) = replicate k (digit_byte 0)" for k
    by (simp add: string_bytes_def digit_byte_def)
  obtain n' where n': "n = Suc n'" using "1.prems" by (cases n) auto
  show ?case
  proof (cases "v < 10")
    case True
    then show ?thesis
      using string_digit [OF True] by (simp add: nat_string.simps [of v] zero_pad_def zero n' fixed_digits_zero)
  next
    case False
    then have "0 < n'" using "1.prems" n' by (cases n') auto
    moreover have "v div 10 < 10 ^ n'" using "1.prems"(2) n' by (simp add: less_mult_imp_div_less)
    ultimately have IH: "string_bytes (zero_pad n' (nat_string (v div 10))) = fixed_digits n' (v div 10)"
      using "1.IH" [OF False] by blast
    have "zero_pad n (nat_string v) = zero_pad n' (nat_string (v div 10)) @ [char_of (48 + v mod 10)]"
      using False by (simp add: nat_string.simps [of v] zero_pad_def n')
    then show ?thesis using IH string_digit [of "v mod 10"] n' by simp
  qed
qed

lemma padded_time: "0 \<le> sint t \<Longrightarrow> string_bytes (padded20 t) = fixed_digits 20 (nat (sint t)) \<and> nat (sint t) < 10 ^ 20"
proof -
  assume "0 \<le> sint t"
  have "sint t < 2 ^ 63" using sint_lt [of t] by simp
  then have "nat (sint t) < 10 ^ 20" using \<open>0 \<le> sint t\<close> by simp
  with zero_pad_digits [of 20 "nat (sint t)"] \<open>0 \<le> sint t\<close> show ?thesis by (simp add: padded20_def)
qed

text \<open>An index key lies before \<open>ready_end now\<close> exactly if its time has come.\<close>

lemma pending_key_before:
  assumes "0 \<le> sint t" and "0 \<le> sint now" and "sint now < 2 ^ 63 - 1"
  shows "job_pending_key sc i t < ready_end now \<longleftrightarrow> t \<le>s now"
proof -
  have "sint (now + 1) = signed_take_bit 63 (sint now + 1)" by (simp add: sint_word_ariths)
  then have n1: "sint (now + 1) = sint now + 1" using assms(2,3) by (simp add: signed_take_bit_int_eq_self)
  have p: "string_bytes (padded20 t) = fixed_digits 20 (nat (sint t))" "nat (sint t) < 10 ^ 20"
    "string_bytes (padded20 (now + 1)) = fixed_digits 20 (nat (sint now + 1))" "nat (sint now + 1) < 10 ^ 20"
    using padded_time [OF assms(1)] padded_time [of "now + 1"] assms(2) n1 by auto
  have same: "xs @ a < xs @ b \<longleftrightarrow> a < b" for xs a b :: key by (induction xs) auto
  have "job_pending_key sc i t < ready_end now \<longleftrightarrow>
      fixed_digits 20 (nat (sint t)) @ string_bytes ('':'' @ sc_uuid_str sc i) < fixed_digits 20 (nat (sint now + 1)) @ string_bytes '':''"
    unfolding job_pending_key_def ready_end_def string_bytes_append p(1,3) append_assoc by (simp only: same)
  also have "\<dots> \<longleftrightarrow> nat (sint t) < nat (sint now + 1)"
    using fixed_digits_less [OF p(2,4)] by (simp add: append_less_eq_length) (simp add: string_bytes_def)
  finally show ?thesis using assms(1,2) by (auto simp: word_sle_eq)
qed

lemma pending_key_after: "pending_prefix \<le> job_pending_key sc i t"
proof -
  have "xs \<le> xs @ b" for xs b :: key by (induction xs) auto
  then show ?thesis unfolding pending_prefix_def job_pending_key_def string_bytes_append .
qed

section \<open>The id in an index key\<close>

definition job_uuid_ok :: "sched_codec \<Rightarrow> job_id \<Rightarrow> bool" where
  "job_uuid_ok sc i \<longleftrightarrow> sc_uuid_parse sc (sc_uuid_str sc i) = Some i \<and> CHR '':'' \<notin> set (sc_uuid_str sc i)"

lemma nat_string_no_colon: "CHR '':'' \<notin> set (nat_string v)"
proof (induction v rule: nat_string.induct)
  case (1 v)
  have digit: "char_of (48 + d) \<noteq> CHR '':''" if "d < 10" for d :: nat
  proof
    assume "char_of (48 + d) = CHR '':''"
    from arg_cong [OF this, of "of_char :: char \<Rightarrow> nat"] that show False by simp
  qed
  show ?case using 1 digit [of v] digit [of "v mod 10"] by (auto simp: nat_string.simps [of v])
qed

lemma padded20_no_colon: "CHR '':'' \<notin> set (padded20 t)"
  using nat_string_no_colon by (auto simp: padded20_def zero_pad_def)

lemma pending_key_id_own:
  assumes "job_uuid_ok sc i"
  shows "pending_key_id sc (job_pending_key sc i t) = Some i"
proof -
  have "split_on (CHR '':'') (''sched'' @ CHR '':'' # ''pending'' @ CHR '':'' # padded20 t @ CHR '':'' # sc_uuid_str sc i) =
      [''sched'', ''pending'', padded20 t, sc_uuid_str sc i]"
    using assms by (simp only: split_on_piece split_on_single padded20_no_colon job_uuid_ok_def)
      (simp add: split_on_piece split_on_single padded20_no_colon)
  then have "split_on (CHR '':'') (''sched:pending:'' @ padded20 t @ '':'' @ sc_uuid_str sc i) =
      [''sched'', ''pending'', padded20 t, sc_uuid_str sc i]" by simp
  then show ?thesis
    using assms unfolding pending_key_id_def job_pending_key_def bytes_string_inverse Let_def by (simp add: job_uuid_ok_def)
qed

section \<open>What the map says of a job\<close>

definition stored_job :: "sched_codec \<Rightarrow> (key \<Rightarrow> val option) \<Rightarrow> job_id \<Rightarrow> job option" where
  "stored_job sc m i = Option.bind (m (job_key sc i)) (sc_dec sc)"

definition ready_at_key :: "sched_codec \<Rightarrow> (key \<Rightarrow> val option) \<Rightarrow> i64 \<Rightarrow> key \<Rightarrow> job option" where
  "ready_at_key sc m now k = Option.bind (Option.bind (pending_key_id sc k) (stored_job sc m))
     (\<lambda>j. if job_is_ready j now then Some j else None)"

lemma set_map_filter: "x \<in> set (List.map_filter f xs) \<longleftrightarrow> (\<exists>y \<in> set xs. f y = Some x)"
  by (induction xs) (auto split: option.split)

locale scheduler_client = engine_client
begin

lemma sched_get: "rep s m \<Longrightarrow> via_sched (eng_get E k) s = (Ok (m k), s)"
  by (simp add: via_sched_def get_law)

lemma sched_set:
  assumes "rep s m" and "writes_fit room s (WSet k v # ws)"
  shows "\<exists>s'. via_sched (eng_set E k v) s = (Ok (), s') \<and> rep s' (m(k \<mapsto> v)) \<and> writes_fit room s' ws"
proof -
  obtain s' where "eng_set E k v s = (Ok (), s')" "rep s' (m(k \<mapsto> v))" "room s \<le> room s' + write_cost (WSet k v)"
    using put_law [OF assms(1), of k v] assms(2) by (auto simp: writes_fit_def)
  then show ?thesis
    using assms(2) by (intro exI [of _ s']) (auto simp: via_sched_def writes_fit_def)
qed

lemma get_job_stored: "rep s m \<Longrightarrow> stored_job sc m i = Some j \<Longrightarrow> get_job E sc i s = (Ok j, s)"
  by (auto simp: get_job_def sbind_simps(1) [OF sched_get] stored_job_def bind_eq_Some_conv)

lemma try_get_job: "rep s m \<Longrightarrow> try_stm (get_job E sc i) s = (Ok (stored_job sc m i), s)"
  by (auto simp: try_stm_def get_job_def sbind_simps(1) [OF sched_get] stored_job_def split: option.split)

lemma update_job_step:
  assumes "rep s m" and "m (job_key sc (jb_id job)) \<noteq> None"
    and "writes_fit room s (WSet (job_key sc (jb_id job)) (sc_enc sc job) # ws)"
  shows "\<exists>s'. update_job E sc job s = (Ok (), s') \<and> rep s' (m(job_key sc (jb_id job) \<mapsto> sc_enc sc job)) \<and> writes_fit room s' ws"
  using sched_set [OF assms(1,3)] assms(2) by (simp add: update_job_def sched_get [OF assms(1)])

lemma change_job_step:
  assumes "rep s m" and "stored_job sc m i = Some j" and "jb_id (f j) = i"
    and "writes_fit room s (WSet (job_key sc i) (sc_enc sc (f j)) # ws)"
  shows "\<exists>s'. change_job E sc f i s = (Ok (), s') \<and> rep s' (m(job_key sc i \<mapsto> sc_enc sc (f j))) \<and> writes_fit room s' ws"
proof -
  have "m (job_key sc (jb_id (f j))) \<noteq> None" using assms(2,3) by (auto simp: stored_job_def bind_eq_Some_conv)
  from update_job_step [OF assms(1) this] assms(3,4) show ?thesis
    by (simp add: change_job_def get_job_stored [OF assms(1,2)])
qed

lemma ready_jobs_ok:
  "rep s m \<Longrightarrow> ready_jobs E sc now ks s = (Ok (List.map_filter (ready_at_key sc m now) ks), s)"
proof (induction ks)
  case (Cons k ks)
  show ?case
  proof (cases "pending_key_id sc k")
    case (Some i)
    have "ready_jobs E sc now (k # ks) s = (Ok (case stored_job sc m i of
        Some j \<Rightarrow> if job_is_ready j now then j # List.map_filter (ready_at_key sc m now) ks else List.map_filter (ready_at_key sc m now) ks
      | None \<Rightarrow> List.map_filter (ready_at_key sc m now) ks), s)"
      by (simp add: Some try_get_job [OF Cons.prems] Cons.IH [OF Cons.prems] split: option.split)
    also have "\<dots> = (Ok (List.map_filter (ready_at_key sc m now) (k # ks)), s)"
      by (cases "stored_job sc m i") (simp_all add: ready_at_key_def Some)
    finally show ?thesis .
  qed (simp add: Cons ready_at_key_def)
qed simp

lemma find_ready_exact:
  assumes "rep s m" and "eng_scan E pending_prefix (ready_end now) s = (Ok es, s)" and "length es \<le> limit"
    and "0 \<le> sint now" and "sint now < 2 ^ 63 - 1"
  shows "\<exists>js. find_ready_jobs E sc now limit s = (Ok js, s) \<and> (\<forall>j \<in> set js. job_is_ready j now) \<and>
    (\<forall>i j. job_uuid_ok sc i \<and> stored_job sc m i = Some j \<and> 0 \<le> sint (jb_next_run_at j) \<and>
       m (job_pending_key sc i (jb_next_run_at j)) \<noteq> None \<longrightarrow> (j \<in> set js \<longleftrightarrow> job_is_ready j now))"
proof -
  let ?js = "List.map_filter (ready_at_key sc m now) (map fst es)"
  have es: "map_of es = (\<lambda>k. if pending_prefix \<le> k \<and> k < ready_end now then m k else None)"
    using scan_law [OF assms(1), of pending_prefix "ready_end now"] assms(2) by auto
  have "find_ready_jobs E sc now limit s = (Ok ?js, s)"
    using ready_jobs_ok [OF assms(1)] assms(2,3) by (simp add: find_ready_jobs_def via_sched_def sbind_def)
  moreover have ready: "job_is_ready j now" if "j \<in> set ?js" for j
    using that by (auto simp: set_map_filter ready_at_key_def bind_eq_Some_conv split: if_splits)
  moreover have "j \<in> set ?js" if "job_uuid_ok sc i" "stored_job sc m i = Some j" "0 \<le> sint (jb_next_run_at j)"
    "m (job_pending_key sc i (jb_next_run_at j)) \<noteq> None" "job_is_ready j now" for i j
  proof -
    let ?k = "job_pending_key sc i (jb_next_run_at j)"
    have "?k < ready_end now"
      using pending_key_before [OF that(3) assms(4,5)] that(5) by (simp add: job_is_ready_def)
    then have "map_of es ?k \<noteq> None" using that(4) pending_key_after es by simp
    then have "?k \<in> set (map fst es)" by (simp add: map_of_eq_None_iff)
    moreover have "ready_at_key sc m now ?k = Some j"
      using pending_key_id_own [OF that(1)] that(2,5) by (simp add: ready_at_key_def)
    ultimately show ?thesis unfolding set_map_filter by blast
  qed
  ultimately show ?thesis by blast
qed

end

section \<open>Finishing a recurring job\<close>

abbreviation completed_version :: "i64 \<Rightarrow> job \<Rightarrow> job" where
  "completed_version now j \<equiv> j\<lparr>jb_state := JCompleted, jb_last_run_at := Some now, jb_updated_at := now\<rparr>"

abbreviation next_version :: "i64 \<Rightarrow> i64 \<Rightarrow> job \<Rightarrow> job" where
  "next_version now t j \<equiv> j\<lparr>jb_state := JPending, jb_next_run_at := t, jb_last_run_at := Some now, jb_retry_count := 0,
     jb_updated_at := now\<rparr>"

lemma on_store_ok: "m (sm_store st) = (Ok x, s') \<Longrightarrow> try_stm (on_store m) st = (Ok (Some x), st\<lparr>sm_store := s'\<rparr>)"
  by (simp add: try_stm_def on_store_def)

context scheduler_client
begin

lemma finish_recurring:
  assumes "rep (sm_store st) m" and "sm_tasks st = job # tasks" and "stored_job sc m (jb_id job) = Some j"
    and "jb_id j = jb_id job" and "job_is_recurring job" and "compute_next_run ca now job = Some t"
    and "writes_fit room (sm_store st) [WSet (job_key sc (jb_id job)) (sc_enc sc (completed_version now j)),
      WSet (job_key sc (jb_id job)) (sc_enc sc (next_version now t job))]"
  shows "\<exists>s'. finish_task E sc ca now st = (Ok (), st\<lparr>sm_tasks := tasks, sm_store := s',
      sm_running := removeAll (jb_id job) (sm_running st)\<rparr>) \<and>
    rep s' (m(job_key sc (jb_id job) \<mapsto> sc_enc sc (next_version now t job)))"
proof -
  let ?k = "job_key sc (jb_id job)"
  obtain s1 where s1: "mark_completed E sc now (jb_id job) (sm_store st) = (Ok (), s1)"
    "rep s1 (m(?k \<mapsto> sc_enc sc (completed_version now j)))"
    "writes_fit room s1 [WSet ?k (sc_enc sc (next_version now t job))]"
    using change_job_step [OF assms(1,3), of "completed_version now" "[WSet ?k (sc_enc sc (next_version now t job))]"]
      assms(4,7) by (auto simp: mark_completed_def)
  obtain s2 where s2: "reschedule_job E sc now job t s1 = (Ok (), s2)"
    "rep s2 (m(?k \<mapsto> sc_enc sc (next_version now t job)))"
    using update_job_step [OF s1(2), of sc "next_version now t job" "[]"] s1(3) by (auto simp: reschedule_job_def)
  have mark: "mark_completed E sc now (jb_id job) (sm_store (st\<lparr>sm_tasks := tasks\<rparr>)) = (Ok (), s1)"
    using s1(1) by simp
  have resched: "reschedule_job E sc now job t (sm_store (st\<lparr>sm_tasks := tasks, sm_store := s1\<rparr>)) = (Ok (), s2)"
    using s2(1) by simp
  have "finish_task E sc ca now st = (Ok (), st\<lparr>sm_tasks := tasks, sm_store := s2,
      sm_running := removeAll (jb_id job) (sm_running st)\<rparr>)"
    by (simp add: finish_task_def assms(2) finish_job_def execute_job_def assms(5,6) on_store_ok [of "mark_completed E sc now (jb_id job)", OF mark]
        on_store_ok [of "reschedule_job E sc now job t", OF resched])
  with s2(2) show ?thesis by blast
qed

end

end
