(* ===== verification/Sched_Properties.thy ===== *)
theory Sched_Properties
  imports Sched_Correct Queue_Properties "HOL-Library.Multiset"
begin

text \<open>
  The properties of the scheduler: the wheel and the list fire when they should, cron fields are
  well formed and the search finds the first matching minute, the pending index is read in time
  order, and what becomes of recurring jobs and of a restart.
\<close>

section \<open>Timers\<close>

text \<open>C22: The wheel fires on time. A job put \<open>ticks_ahead\<close> slots ahead, at most one
  revolution, is due at exactly that tick and at no other tick of the revolution; a job that is due
  now, or in less than a tick, fires at the next one.\<close>

theorem wheel_fires_on_time:
  assumes "tw_wf w" and "i \<notin> tw_jobs w" and "tw_tick_ms w \<noteq> 0" and "tw_schedule now i fire_at w = (r, w')"
    and "offset = (if fire_at - now \<le>s 0 then 1 else max 1 (unat (fire_at - now) div unat (tw_tick_ms w)))"
    and "offset \<le> length (tw_slots w)" and "0 < n" and "n \<le> length (tw_slots w)"
  shows "i \<in> set (fst (tw_ticks n w')) \<longleftrightarrow> n = offset"
proof -
  have off: "offset = (if fire_at - now \<le>s 0 then 1
      else if unat ((fire_at - now) div tw_tick_ms w) = 0 then 1 else unat ((fire_at - now) div tw_tick_ms w))"
    unfolding assms(5) by (simp add: unat_div max_def)
  obtain slot w1 where put: "tw_put offset i w = (slot, w1)" by fastforce
  have "w' = w1"
    using assms(1,3,4) put unfolding off by (auto simp: tw_schedule_def tw_wf_def Let_def split: prod.splits if_splits)
  moreover have "0 < offset" unfolding assms(5) by (simp add: less_max_iff_disj)
  ultimately show ?thesis using wheel_fires [OF assms(1,2) put _ assms(6-8)] by simp
qed

theorem wheel_fires_on_time_witness:
  "7 \<in> set (fst (tw_ticks 3 (snd (tw_schedule 1000 7 1350 (tw_new 0 100 5) :: (unit, nat) outcome \<times> time_wheel))))"
proof -
  let ?w = "tw_new 0 100 5" and ?p = "tw_schedule 1000 7 1350 (tw_new 0 100 5) :: (unit, nat) outcome \<times> time_wheel"
  have w: "tw_wf ?w" "7 \<notin> tw_jobs ?w" "tw_tick_ms ?w \<noteq> 0" "length (tw_slots ?w) = 5" "tw_tick_ms ?w = 100"
    by (simp_all add: tw_wf_def tw_new_def tw_jobs_def)
  have "\<not> (1350 - 1000 :: i64) \<le>s 0" by (simp add: word_sle_eq)
  then have o: "(3 :: nat) = (if (1350 - 1000 :: i64) \<le>s 0 then 1
      else max 1 (unat (1350 - 1000 :: i64) div unat (tw_tick_ms ?w)))"
    by (simp add: w(5))
  have "?p = (fst ?p, snd ?p)" by simp
  from wheel_fires_on_time [OF w(1-3) this o, of 3] show ?thesis by (simp add: w(4))
qed

lemma sort_key_again: "sort_key f (sort_key f xs @ [x]) = sort_key f (xs @ [x])"
proof (rule properties_for_sort_key)
  show "mset (sort_key f (xs @ [x])) = mset (sort_key f xs @ [x])" by simp
  fix k
  show "filter (\<lambda>y. f k = f y) (sort_key f (xs @ [x])) = filter (\<lambda>y. f k = f y) (sort_key f xs @ [x])"
    using sort_key_stable [of f "f k" "xs @ [x]"] sort_key_stable [of f "f k" xs] by (simp add: eq_commute [of "f k"])
qed simp

text \<open>The list pops exactly what is due. A pop takes the jobs whose time
  has come, in time order and for equal times in the order they were scheduled, and leaves the
  others.\<close>

theorem priority_queue_pops_due:
  "pq_pop_due now (fold (\<lambda>(i, t). pq_schedule i t) jobs []) =
     (map snd (filter (\<lambda>e. fst e \<le>s now) (sort_key (\<lambda>e. sint (fst e)) (map (\<lambda>(i, t). (t, i)) jobs))),
      filter (\<lambda>e. \<not> fst e \<le>s now) (sort_key (\<lambda>e. sint (fst e)) (map (\<lambda>(i, t). (t, i)) jobs)))"
proof -
  let ?q = "fold (\<lambda>(i, t). pq_schedule i t) jobs []"
  have q: "?q = sort_key (\<lambda>e. sint (fst e)) (map (\<lambda>(i, t). (t, i)) jobs)"
    by (induction jobs rule: rev_induct) (simp_all add: pq_schedule_def sort_key_again split_beta)
  then have "pq_sorted ?q" by (simp add: pq_sorted_def)
  from pq_pop_due_split [OF this, of now] show ?thesis by (simp add: q)
qed

section \<open>Cron\<close>


text \<open>A calendar of one long day.\<close>

definition example_calendar :: "nat calendar" where
  "example_calendar = \<lparr>ca_from_millis = (\<lambda>t. Some (unat t div 60000)), ca_add_minute = (\<lambda>d. Some (d + 1)),
     ca_millis = (\<lambda>d. of_nat d * 60000), ca_month = (\<lambda>_. 1), ca_day = (\<lambda>_. 1), ca_weekday = (\<lambda>_. 4),
     ca_hour = (\<lambda>d. d div 60), ca_minute = (\<lambda>d. d mod 60)\<rparr>"

definition example_cron :: cron_schedule where
  "example_cron = \<lparr>cr_expression = ''*/2 * * * *'', cr_minute = map ((*) 2) [0..<30], cr_hour = [0..<24],
     cr_day_of_month = [1..31], cr_month = [1..<13], cr_day_of_week = [0..<7]\<rparr>"


section \<open>The pending index\<close>

interpretation sched_store: scheduler_client "store_rep cd" store_room "nova_engine cd fuel now"
  by (simp add: scheduler_client_def queue_store.engine_client_axioms)

text \<open>C24: The index finds what is due. A search that is not cut short by its limit returns only jobs
  that are ready, and of the jobs whose index entry stands at their own time it returns exactly the
  ready ones: the zero-padded keys sort as the times do.\<close>

theorem find_ready_jobs_exact:
  assumes "store_rep cd s m" and "store_scan cd fuel pending_prefix (ready_end now) s = (Ok es, s)"
    and "length es \<le> limit" and "0 \<le> sint now" and "sint now < 2 ^ 63 - 1"
  shows "\<exists>js. find_ready_jobs (nova_engine cd fuel u) sc now limit s = (Ok js, s) \<and> (\<forall>j \<in> set js. job_is_ready j now) \<and>
    (\<forall>i j. job_uuid_ok sc i \<and> stored_job sc m i = Some j \<and> 0 \<le> sint (jb_next_run_at j) \<and>
       m (job_pending_key sc i (jb_next_run_at j)) \<noteq> None \<longrightarrow> (j \<in> set js \<longleftrightarrow> job_is_ready j now))"
  by (rule sched_store.find_ready_exact [OF assms(1) _ assms(3-5)]) (simp add: nova_engine_def assms(2))

definition example_job :: job where
  "example_job = (job_new 0 1 ''j'' 1000 [7])\<lparr>jb_schedule_type := Interval, jb_interval_secs := Some 60\<rparr>"

definition example_sched_codec :: sched_codec where
  "example_sched_codec = \<lparr>
     sc_enc = (\<lambda>j. (if jb_state j = JPending then 0 else 1) # (if jb_last_run_at j = None then 0 else 1) #
        le_word (jb_next_run_at j) @ le_word (jb_updated_at j)),
     sc_dec = (\<lambda>bs. Some (example_job\<lparr>jb_state := if bs ! 0 = 0 then JPending else JCompleted,
        jb_last_run_at := if bs ! 1 = 0 then None else Some (word_le (drop 10 bs)),
        jb_next_run_at := word_le (take 8 (drop 2 bs)), jb_updated_at := word_le (drop 10 bs)\<rparr>)),
     sc_json_error = (\<lambda>_. ''''), sc_uuid_str = example_uuid, sc_uuid_parse = (\<lambda>s. Some (of_nat (length s)))\<rparr>"

lemma example_sched_uuid: "job_uuid_ok example_sched_codec i"
  by (simp add: job_uuid_ok_def example_sched_codec_def example_uuid_def)

lemma example_job_codec:
  "sc_dec example_sched_codec (sc_enc example_sched_codec example_job) = Some example_job"
  "sc_dec example_sched_codec (sc_enc example_sched_codec (next_version now t example_job)) = Some (next_version now t example_job)"
  by (simp_all add: example_sched_codec_def example_job_def job_new_def)

lemma example_job_simps [simp]:
  "jb_id example_job = 1" "jb_state example_job = JPending" "jb_next_run_at example_job = 1000"
  "jb_schedule_type example_job = Interval" "jb_interval_secs example_job = Some 60"
  by (simp_all add: example_job_def job_new_def)

definition example_sched_store :: store where
  "example_sched_store =
     snd (store_set example_codec 0 (job_pending_key example_sched_codec 1 1000) []
       (snd (store_set example_codec 0 (job_key example_sched_codec 1) (sc_enc example_sched_codec example_job)
         (example_store 4096))))"

definition example_sched_map :: "key \<Rightarrow> val option" where
  "example_sched_map = [job_key example_sched_codec 1 \<mapsto> sc_enc example_sched_codec example_job,
     job_pending_key example_sched_codec 1 1000 \<mapsto> []]"

lemma example_sched_rep:
  "store_rep example_codec example_sched_store example_sched_map \<and> 3000 \<le> store_room example_sched_store"
proof -
  have len: "length (job_pending_key example_sched_codec 1 1000) = 36" "length (job_key example_sched_codec 1) = 11"
    "length (sc_enc example_sched_codec example_job) = 18"
    by (simp_all add: example_sched_codec_def job_pending_key_def job_key_def string_bytes_def padded20_def zero_pad_def
        nat_string.simps example_uuid_def)
  obtain s1 where s1: "store_set example_codec 0 (job_key example_sched_codec 1) (sc_enc example_sched_codec example_job)
      (example_store 4096) = (Ok (), s1)"
    "store_rep example_codec s1 [job_key example_sched_codec 1 \<mapsto> sc_enc example_sched_codec example_job]"
    "4000 \<le> store_room s1"
    using store_engine.put_law [OF example_rep, of "job_key example_sched_codec 1" "sc_enc example_sched_codec example_job" 4096 0]
    by (auto simp: write_admissible_def write_cost_def len)
  show ?thesis
    using store_engine.put_law [OF s1(2), of "job_pending_key example_sched_codec 1 1000" "[]" 0] s1(3)
    by (auto simp: write_admissible_def write_cost_def len example_sched_store_def example_sched_map_def s1(1))
qed

lemma example_sched_stored: "stored_job example_sched_codec example_sched_map 1 = Some example_job"
proof -
  have "job_key example_sched_codec 1 \<noteq> job_pending_key example_sched_codec 1 1000"
    by (simp add: job_key_def job_pending_key_def string_bytes_def)
  then show ?thesis by (simp add: stored_job_def example_sched_map_def example_job_codec)
qed

theorem find_ready_jobs_exact_witness:
  "\<exists>es js. store_scan example_codec 0 pending_prefix (ready_end 2000) example_sched_store = (Ok es, example_sched_store) \<and>
     find_ready_jobs (nova_engine example_codec 0 0) example_sched_codec 2000 (length es) example_sched_store =
       (Ok js, example_sched_store) \<and> example_job \<in> set js"
proof -
  have rep: "store_rep example_codec example_sched_store example_sched_map" using example_sched_rep ..
  obtain es where es: "store_scan example_codec 0 pending_prefix (ready_end 2000) example_sched_store = (Ok es, example_sched_store)"
    using store_engine.scan_law [OF rep] by blast
  obtain js where js: "find_ready_jobs (nova_engine example_codec 0 0) example_sched_codec 2000 (length es) example_sched_store =
      (Ok js, example_sched_store)"
    "\<forall>i j. job_uuid_ok example_sched_codec i \<and> stored_job example_sched_codec example_sched_map i = Some j \<and>
       0 \<le> sint (jb_next_run_at j) \<and> example_sched_map (job_pending_key example_sched_codec i (jb_next_run_at j)) \<noteq> None \<longrightarrow>
       (j \<in> set js \<longleftrightarrow> job_is_ready j 2000)"
    using find_ready_jobs_exact [OF rep es, of "length es" 0 example_sched_codec] by auto
  have "job_is_ready example_job 2000" by (simp add: job_is_ready_def word_sle_eq)
  then have "example_job \<in> set js"
    using js(2) [rule_format, of 1 example_job] example_sched_uuid example_sched_stored by (simp add: example_sched_map_def)
  with es js(1) show ?thesis by blast
qed

section \<open>Dependency cycles\<close>

definition stored_deps :: "sched_codec \<Rightarrow> (key \<Rightarrow> val option) \<Rightarrow> job_id \<Rightarrow> job_id list" where
  "stored_deps sc m d = (case stored_job sc m d of Some j \<Rightarrow> jb_depends_on j | None \<Rightarrow> [])"

definition dependency_edges :: "sched_codec \<Rightarrow> (key \<Rightarrow> val option) \<Rightarrow> (job_id \<times> job_id) set" where
  "dependency_edges sc m = {(d, e). e \<in> set (stored_deps sc m d)}"

text \<open>The steps a search can still take: what is on the stack, and the dependencies of what has not been visited.\<close>

definition search_steps :: "sched_codec \<Rightarrow> (key \<Rightarrow> val option) \<Rightarrow> job_id set \<Rightarrow> job_id list \<Rightarrow> nat" where
  "search_steps sc m V stack = length stack + (\<Sum>d \<in> - V. length (stored_deps sc m d))"

lemma search_steps_visit:
  assumes "d \<notin> V"
  shows "search_steps sc m (insert d V) (rev (stored_deps sc m d) @ stack) < search_steps sc m V (d # stack)"
proof -
  have "- V = insert d (- insert d V)" using assms by auto
  then have "(\<Sum>e \<in> - V. length (stored_deps sc m e)) =
      length (stored_deps sc m d) + (\<Sum>e \<in> - insert d V. length (stored_deps sc m e))"
    by (metis ComplD finite insertI1 sum.insert)
  then show ?thesis by (simp add: search_steps_def)
qed

text \<open>A path that leaves a set closed up to the stack passes through the stack.\<close>

lemma reach_through_stack:
  assumes "(v, i) \<in> R\<^sup>*" and "v \<in> V" and "i \<notin> V" and "\<And>v e. v \<in> V \<Longrightarrow> (v, e) \<in> R \<Longrightarrow> e \<in> V \<union> S"
  shows "\<exists>e \<in> S. (e, i) \<in> R\<^sup>*"
  using assms(1,2)
proof (induction rule: converse_rtrancl_induct)
  case (step y z) then show ?case using assms(4) [of y z] by auto
qed (use assms(3) in simp)

context scheduler_client
begin

lemma dependency_search_exact:
  assumes "rep s m"
  shows "search_steps sc m (set visited) stack \<le> fuel \<Longrightarrow> jb_id job \<notin> set visited \<Longrightarrow>
    (\<And>v e. v \<in> set visited \<Longrightarrow> (v, e) \<in> dependency_edges sc m \<Longrightarrow> e \<in> set visited \<union> set stack) \<Longrightarrow>
    dependency_search E sc job fuel visited stack s =
      (if \<exists>d \<in> set stack. (d, jb_id job) \<in> (dependency_edges sc m)\<^sup>*
       then Err (DependencyCycle (''Job '' @ jb_name job @ '' depends on itself'')) else Ok (), s)"
proof (induction fuel arbitrary: visited stack)
  case (Suc fuel)
  note closed = Suc.prems(3)
  show ?case
  proof (cases stack)
    case (Cons d rest)
    consider "d = jb_id job" | "d \<noteq> jb_id job" "d \<in> set visited" | "d \<noteq> jb_id job" "d \<notin> set visited" by blast
    then show ?thesis
    proof cases
      case 2
      have "(\<exists>e \<in> set rest. (e, jb_id job) \<in> (dependency_edges sc m)\<^sup>*)"
        if "(d, jb_id job) \<in> (dependency_edges sc m)\<^sup>*"
        by (rule reach_through_stack [OF that 2(2) Suc.prems(2)]) (use closed 2(2) Cons in auto)
      then have reach: "(\<exists>e \<in> set stack. (e, jb_id job) \<in> (dependency_edges sc m)\<^sup>*) \<longleftrightarrow>
          (\<exists>e \<in> set rest. (e, jb_id job) \<in> (dependency_edges sc m)\<^sup>*)"
        by (auto simp: Cons)
      have "dependency_search E sc job fuel visited rest s = (if \<exists>e \<in> set rest. (e, jb_id job) \<in> (dependency_edges sc m)\<^sup>*
          then Err (DependencyCycle (''Job '' @ jb_name job @ '' depends on itself'')) else Ok (), s)"
      proof (rule Suc.IH)
        show "search_steps sc m (set visited) rest \<le> fuel" using Suc.prems(1) by (simp add: Cons search_steps_def)
        show "e \<in> set visited \<union> set rest" if "v \<in> set visited" "(v, e) \<in> dependency_edges sc m" for v e
          using closed [OF that] 2(2) by (auto simp: Cons)
      qed (rule Suc.prems(2))
      moreover have "dependency_search E sc job (Suc fuel) visited stack s = dependency_search E sc job fuel visited rest s"
        by (simp only: Cons dependency_search.simps if_not_P [OF 2(1)] if_P [OF 2(2)])
      ultimately show ?thesis unfolding reach by (rule trans [rotated])
    next
      case 3
      let ?stack = "rev (stored_deps sc m d) @ rest"
      have reach: "(d, jb_id job) \<in> (dependency_edges sc m)\<^sup>* \<longleftrightarrow>
          (\<exists>e \<in> set (stored_deps sc m d). (e, jb_id job) \<in> (dependency_edges sc m)\<^sup>*)"
      proof
        assume "(d, jb_id job) \<in> (dependency_edges sc m)\<^sup>*"
        then show "\<exists>e \<in> set (stored_deps sc m d). (e, jb_id job) \<in> (dependency_edges sc m)\<^sup>*"
          using 3(1) by (cases rule: converse_rtranclE) (auto simp: dependency_edges_def)
      next
        assume "\<exists>e \<in> set (stored_deps sc m d). (e, jb_id job) \<in> (dependency_edges sc m)\<^sup>*"
        then obtain e where "(d, e) \<in> dependency_edges sc m" "(e, jb_id job) \<in> (dependency_edges sc m)\<^sup>*"
          by (auto simp: dependency_edges_def)
        then show "(d, jb_id job) \<in> (dependency_edges sc m)\<^sup>*" by (rule converse_rtrancl_into_rtrancl)
      qed
      have through: "(\<exists>e \<in> set stack. (e, jb_id job) \<in> (dependency_edges sc m)\<^sup>*) \<longleftrightarrow>
          (\<exists>e \<in> set ?stack. (e, jb_id job) \<in> (dependency_edges sc m)\<^sup>*)"
        unfolding Cons list.set bex_simps(5) set_append set_rev bex_Un reach by (rule refl)
      have "dependency_search E sc job (Suc fuel) visited stack s = dependency_search E sc job fuel (d # visited) ?stack s"
        using 3 by (simp add: Cons try_get_job [OF assms] sbind_def stored_deps_def split: option.split)
      also have "\<dots> = (if \<exists>e \<in> set ?stack. (e, jb_id job) \<in> (dependency_edges sc m)\<^sup>*
          then Err (DependencyCycle (''Job '' @ jb_name job @ '' depends on itself'')) else Ok (), s)"
      proof (rule Suc.IH)
        show "search_steps sc m (set (d # visited)) ?stack \<le> fuel"
          using search_steps_visit [OF 3(2), of sc m rest] Suc.prems(1) by (simp add: Cons)
        show "e \<in> set (d # visited) \<union> set ?stack" if "v \<in> set (d # visited)" "(v, e) \<in> dependency_edges sc m" for v e
          using that closed [of v e] Cons by (auto simp: dependency_edges_def)
      qed (use 3 Suc.prems(2) in simp)
      finally show ?thesis unfolding through .
    qed (simp add: Cons slift_def)
  qed (simp add: sret_def)
qed (auto simp: search_steps_def sret_def)

end

text \<open>C25: Cyclic dependencies are refused, and only they. The search over the stored jobs comes back with
  enough fuel, changes nothing, and fails exactly if some dependency of the job leads back to the job
  through the dependencies of stored jobs.\<close>

theorem dependency_check_exact:
  assumes "store_rep cd s m"
  shows "\<exists>n. \<forall>fuel. n \<le> fuel \<longrightarrow> validate_dependencies (nova_engine cd depth u) sc fuel job s =
    (if \<exists>d \<in> set (jb_depends_on job). (d, jb_id job) \<in> (dependency_edges sc m)\<^sup>*
     then Err (DependencyCycle (''Job '' @ jb_name job @ '' depends on itself'')) else Ok (), s)"
  using sched_store.dependency_search_exact [OF assms, of sc "[]" "rev (jb_depends_on job)"]
  by (intro exI [of _ "search_steps sc m {} (rev (jb_depends_on job))"]) (simp add: validate_dependencies_def)

theorem dependency_check_exact_witness:
  "\<exists>n. \<forall>fuel. n \<le> fuel \<longrightarrow>
     validate_dependencies (nova_engine example_codec 0 0)
       (example_sched_codec\<lparr>sc_dec := \<lambda>_. Some (example_job\<lparr>jb_depends_on := [2]\<rparr>)\<rparr>) fuel
       (example_job\<lparr>jb_id := 2, jb_depends_on := [1]\<rparr>) example_sched_store =
     (Err (DependencyCycle ''Job j depends on itself''), example_sched_store)"
proof -
  let ?sc = "example_sched_codec\<lparr>sc_dec := \<lambda>_. Some (example_job\<lparr>jb_depends_on := [2]\<rparr>)\<rparr>"
  have rep: "store_rep example_codec example_sched_store example_sched_map" using example_sched_rep ..
  have "stored_job ?sc example_sched_map 1 = Some (example_job\<lparr>jb_depends_on := [2]\<rparr>)"
    by (simp add: stored_job_def example_sched_map_def job_key_def)
  then have "(1, 2) \<in> dependency_edges ?sc example_sched_map" by (simp add: dependency_edges_def stored_deps_def)
  then have "(1, 2) \<in> (dependency_edges ?sc example_sched_map)\<^sup>*" by (rule r_into_rtrancl)
  with dependency_check_exact [OF rep, of 0 0 ?sc "example_job\<lparr>jb_id := 2, jb_depends_on := [1]\<rparr>"]
  show ?thesis by (simp add: example_job_def job_new_def)
qed

section \<open>Recurring jobs\<close>

text \<open>C26: A recurring job runs once. When the task of a recurring job ends, the store holds the job
  as pending at its next time, but no timer does: with the timers empty otherwise, no later tick of
  the wheel or the list, at any time, starts a task or writes to the store.\<close>

theorem recurring_job_forgotten:
  assumes "store_rep cd (sm_store st) m" and "sm_tasks st = [job]" and "stored_job sc m (jb_id job) = Some j"
    and "jb_id j = jb_id job" and "job_is_recurring job" and "compute_next_run ca now job = Some t"
    and "sc_dec sc (sc_enc sc (next_version now t job)) = Some (next_version now t job)" and "timers_empty st"
    and "writes_fit store_room (sm_store st) [WSet (job_key sc (jb_id job)) (sc_enc sc (completed_version now j)),
      WSet (job_key sc (jb_id job)) (sc_enc sc (next_version now t job))]"
  shows "\<exists>st'. finish_task (nova_engine cd fuel u) sc ca now st = (Ok (), st') \<and>
    get_job (nova_engine cd fuel u) sc (jb_id job) (sm_store st') = (Ok (next_version now t job), sm_store st') \<and>
    (\<forall>ticks. \<exists>st''. run_ticks (nova_engine cd fuel u) sc ticks st' = (Ok (), st'') \<and> sm_tasks st'' = [] \<and>
       sm_store st'' = sm_store st')"
proof -
  obtain s' where s': "finish_task (nova_engine cd fuel u) sc ca now st =
      (Ok (), st\<lparr>sm_tasks := [], sm_store := s', sm_running := removeAll (jb_id job) (sm_running st)\<rparr>)"
    "store_rep cd s' (m(job_key sc (jb_id job) \<mapsto> sc_enc sc (next_version now t job)))"
    using sched_store.finish_recurring [OF assms(1-6,9)] by blast
  let ?st = "st\<lparr>sm_tasks := [], sm_store := s', sm_running := removeAll (jb_id job) (sm_running st)\<rparr>"
  have "get_job (nova_engine cd fuel u) sc (jb_id job) s' = (Ok (next_version now t job), s')"
    by (rule sched_store.get_job_stored [OF s'(2)]) (simp add: stored_job_def assms(7))
  moreover have "timers_empty ?st" using assms(8) by (simp add: timers_empty_def)
  from run_ticks_empty [OF this] have "\<exists>st''. run_ticks (nova_engine cd fuel u) sc ticks ?st = (Ok (), st'') \<and>
      sm_tasks st'' = [] \<and> sm_store st'' = s'" for ticks by fastforce
  ultimately show ?thesis using s'(1) by auto
qed

definition example_scheduler :: "store scheduler" where
  "example_scheduler = (scheduler_new 0 scheduler_config_default example_sched_store)\<lparr>sm_tasks := [example_job]\<rparr>"

theorem recurring_job_forgotten_witness:
  "\<exists>st'. finish_task (nova_engine example_codec 0 0) example_sched_codec example_calendar 5000 example_scheduler = (Ok (), st') \<and>
     (\<forall>ticks. \<exists>st''. run_ticks (nova_engine example_codec 0 0) example_sched_codec ticks st' = (Ok (), st'') \<and> sm_tasks st'' = [])"
proof -
  have len: "length (job_key example_sched_codec 1) = 11" "length (sc_enc example_sched_codec v) = 18" for v
    by (simp_all add: example_sched_codec_def job_key_def string_bytes_def example_uuid_def)
  have "timers_empty example_scheduler"
    by (simp add: timers_empty_def example_scheduler_def scheduler_new_def tw_jobs_def tw_new_def tw_wf_def
        scheduler_config_default_def)
  moreover have "sm_store example_scheduler = example_sched_store" "sm_tasks example_scheduler = [example_job]"
    by (simp_all add: example_scheduler_def scheduler_new_def)
  moreover have "compute_next_run example_calendar 5000 example_job = Some 65000"
    by (simp add: compute_next_run_def)
  moreover have "writes_fit store_room example_sched_store
      [WSet (job_key example_sched_codec 1) (sc_enc example_sched_codec (completed_version 5000 example_job)),
       WSet (job_key example_sched_codec 1) (sc_enc example_sched_codec (next_version 5000 65000 example_job))]"
    using example_sched_rep by (simp add: writes_fit_def write_admissible_def write_cost_def len)
  ultimately show ?thesis
    using recurring_job_forgotten [of example_codec example_scheduler example_sched_map example_job example_sched_codec
        example_job example_calendar 5000 65000 0 0] example_sched_rep example_sched_stored
    by (simp add: job_is_recurring_def example_job_codec) blast
qed

end
