(* ===== verification/Search_Fuzzy.thy ===== *)
theory Search_Fuzzy
  imports Nova_Prelude
begin

text \<open>
  Fuzzy matching (\<open>nova-search/src/fuzzy/levenshtein.rs\<close>): the edit distance by two rows that swap
  roles, and what it is: the least number of single insertions, deletions and replacements. A string
  is given by the list of its characters.
\<close>

section \<open>The code\<close>

definition lev_cell :: "'c \<Rightarrow> nat list \<Rightarrow> nat \<times> 'c \<Rightarrow> nat list \<Rightarrow> nat list" where
  "lev_cell ca prev_row = (\<lambda>(j, cb) curr_row.
     let cost = (if ca = cb then 0 else 1)
     in curr_row[j + 1 := min (min (curr_row ! j + 1) (prev_row ! (j + 1) + 1)) (prev_row ! j + cost)])"

definition lev_row :: "'c list \<Rightarrow> nat \<times> 'c \<Rightarrow> nat list \<times> nat list \<Rightarrow> nat list \<times> nat list" where
  "lev_row b = (\<lambda>(i, ca) (prev_row, curr_row).
     (fold (lev_cell ca prev_row) (enumerate 0 b) (curr_row[0 := i + 1]), prev_row))"

definition levenshtein_distance :: "'c list \<Rightarrow> 'c list \<Rightarrow> nat" where
  "levenshtein_distance a b =
     (if a = [] then length b
      else if b = [] then length a
      else fst (fold (lev_row b) (enumerate 0 a) ([0..<length b + 1], replicate (length b + 1) 0)) ! length b)"

definition find_fuzzy_matches :: "'c list \<Rightarrow> 'c list list \<Rightarrow> nat \<Rightarrow> 'c list list" where
  "find_fuzzy_matches term candidates max_distance =
     filter (\<lambda>c. levenshtein_distance term c \<le> max_distance) candidates"

record 'c levenshtein_automaton =
  la_pattern :: "'c list"
  la_max_distance :: nat

definition la_matches :: "'c levenshtein_automaton \<Rightarrow> 'c list \<Rightarrow> bool" where
  "la_matches la txt \<longleftrightarrow> levenshtein_distance (la_pattern la) txt \<le> la_max_distance la"

definition la_find_matches :: "'c levenshtein_automaton \<Rightarrow> 'c list list \<Rightarrow> 'c list list" where
  "la_find_matches la candidates = filter (la_matches la) candidates"

section \<open>The recursion behind the rows\<close>

fun edit_distance :: "'c list \<Rightarrow> 'c list \<Rightarrow> nat" where
  "edit_distance [] ys = length ys"
| "edit_distance xs [] = length xs"
| "edit_distance (x # xs) (y # ys) =
     min (min (edit_distance (x # xs) ys + 1) (edit_distance xs (y # ys) + 1))
       (edit_distance xs ys + (if x = y then 0 else 1))"

lemma edit_distance_Nil [simp]: "edit_distance xs [] = length xs"
  by (cases xs) simp_all

definition dist :: "'c list \<Rightarrow> 'c list \<Rightarrow> nat \<Rightarrow> nat \<Rightarrow> nat" where
  "dist a b i j = edit_distance (rev (take i a)) (rev (take j b))"

lemma dist_0: "i \<le> length a \<Longrightarrow> dist a b i 0 = i" "j \<le> length b \<Longrightarrow> dist a b 0 j = j"
  by (simp_all add: dist_def)

lemma dist_Suc:
  "i < length a \<Longrightarrow> j < length b \<Longrightarrow> dist a b (Suc i) (Suc j) =
     min (min (dist a b (Suc i) j + 1) (dist a b i (Suc j) + 1)) (dist a b i j + (if a ! i = b ! j then 0 else 1))"
  by (simp add: dist_def take_Suc_conv_app_nth)

lemma enumerate_take: "enumerate n xs = map (\<lambda>i. (n + i, xs ! i)) [0..<length xs]"
  by (rule nth_equalityI) (simp_all add: nth_enumerate_eq)

lemma lev_cells:
  assumes "i < length a" and "length prev = length b + 1" and "\<forall>j \<le> length b. prev ! j = dist a b i j"
    and "length cur = length b + 1" and "cur ! 0 = Suc i" and "n \<le> length b"
  shows "let row = fold (lev_cell (a ! i) prev) (map (\<lambda>j. (j, b ! j)) [0..<n]) cur
    in length row = length b + 1 \<and> (\<forall>j \<le> n. row ! j = dist a b (Suc i) j)"
  using assms(6)
proof (induction n)
  case 0
  then show ?case using assms(1,4,5) by (simp add: dist_0)
next
  case (Suc n)
  let ?row = "fold (lev_cell (a ! i) prev) (map (\<lambda>j. (j, b ! j)) [0..<n]) cur"
  have row: "length ?row = length b + 1" "\<forall>j \<le> n. ?row ! j = dist a b (Suc i) j" using Suc by (simp_all add: Let_def)
  have "?row[n + 1 := min (min (?row ! n + 1) (prev ! (n + 1) + 1)) (prev ! n + (if a ! i = b ! n then 0 else 1))] ! j =
      dist a b (Suc i) j" if "j \<le> Suc n" for j
    using that row assms(1,3) Suc.prems by (cases "j = Suc n") (simp_all add: dist_Suc)
  then show ?case using row(1) by (simp add: lev_cell_def Let_def)
qed

lemma lev_rows:
  assumes "n \<le> length a"
  shows "case fold (lev_row b) (map (\<lambda>i. (i, a ! i)) [0..<n]) ([0..<length b + 1], replicate (length b + 1) 0) of
    (prev, cur) \<Rightarrow> length prev = length b + 1 \<and> length cur = length b + 1 \<and> (\<forall>j \<le> length b. prev ! j = dist a b n j)"
  using assms
proof (induction n)
  case 0
  then show ?case by (simp add: dist_0 nth_append del: upt_Suc)
next
  case (Suc n)
  obtain prev cur where pc: "fold (lev_row b) (map (\<lambda>i. (i, a ! i)) [0..<n]) ([0..<length b + 1], replicate (length b + 1) 0) =
      (prev, cur)" by fastforce
  then have *: "length prev = length b + 1" "length cur = length b + 1" "\<forall>j \<le> length b. prev ! j = dist a b n j"
    using Suc by simp_all
  have "n < length a" using Suc.prems by simp
  from lev_cells [OF this *(1,3), of "cur[0 := Suc n]" "length b"] *(2)
  have "length (fold (lev_cell (a ! n) prev) (enumerate 0 b) (cur[0 := Suc n])) = length b + 1 \<and>
      (\<forall>j \<le> length b. fold (lev_cell (a ! n) prev) (enumerate 0 b) (cur[0 := Suc n]) ! j = dist a b (Suc n) j)"
    by (simp add: Let_def enumerate_take)
  then show ?case using pc *(1) by (simp add: lev_row_def)
qed

lemma levenshtein_recursion: "levenshtein_distance a b = edit_distance (rev a) (rev b)"
proof (cases "a = [] \<or> b = []")
  case False
  then show ?thesis
    using lev_rows [of "length a" a b] by (simp add: levenshtein_distance_def enumerate_take dist_def split: prod.splits)
qed (auto simp: levenshtein_distance_def)

section \<open>Edits\<close>

text \<open>One edit inserts, deletes or replaces one character.\<close>

inductive one_edit :: "'c list \<Rightarrow> 'c list \<Rightarrow> bool" where
  insertion: "one_edit v (c # v)"
| deletion: "one_edit (c # v) v"
| replacement: "one_edit (c # v) (d # v)"
| later: "one_edit xs ys \<Longrightarrow> one_edit (x # xs) (x # ys)"

inductive_cases one_edit_NilE: "one_edit [] ys"
inductive_simps one_edit_Cons: "one_edit (x # xs) ys"

text \<open>An alignment of two strings, with its cost.\<close>

inductive aligned :: "nat \<Rightarrow> 'c list \<Rightarrow> 'c list \<Rightarrow> bool" where
  nil: "aligned 0 [] []"
| keep: "aligned n xs ys \<Longrightarrow> aligned n (x # xs) (x # ys)"
| subst: "aligned n xs ys \<Longrightarrow> aligned (Suc n) (x # xs) (y # ys)"
| del: "aligned n xs ys \<Longrightarrow> aligned (Suc n) (x # xs) ys"
| ins: "aligned n xs ys \<Longrightarrow> aligned (Suc n) xs (y # ys)"

lemma aligned_refl: "aligned 0 xs xs"
  by (induction xs) (auto intro: aligned.intros)

lemma aligned_dels: "aligned (length xs) xs []"
  by (induction xs) (auto intro: aligned.intros)

lemma aligned_edit_distance: "aligned (edit_distance xs ys) xs ys"
proof (induction xs ys rule: edit_distance.induct)
  case (1 ys)
  show ?case by (induction ys) (auto intro: aligned.intros)
next
  case (2 x xs)
  show ?case using aligned_dels [of "x # xs"] by simp
next
  case (3 x xs y ys)
  have "aligned (edit_distance xs ys + (if x = y then 0 else 1)) (x # xs) (y # ys)"
    using 3(3) by (auto intro: aligned.intros)
  moreover have "aligned (edit_distance (x # xs) ys + 1) (x # xs) (y # ys)"
    using aligned.ins [OF 3(1)] by simp
  moreover have "aligned (edit_distance xs (y # ys) + 1) (x # xs) (y # ys)"
    using aligned.del [OF 3(2)] by simp
  ultimately show ?case unfolding edit_distance.simps(3) by (simp only: min_def split: if_split) simp
qed

lemma edit_distance_aligned: "aligned n xs ys \<Longrightarrow> edit_distance xs ys \<le> n"
proof (induction rule: aligned.induct)
  case (del n xs ys x)
  then show ?case by (cases ys) (simp_all add: min.coboundedI1 min.coboundedI2)
next
  case (ins n xs ys y)
  then show ?case by (cases xs) (simp_all add: min.coboundedI1 min.coboundedI2)
qed (simp_all add: min.coboundedI1 min.coboundedI2)

lemma aligned_edit: "aligned n a b \<Longrightarrow> one_edit b c \<Longrightarrow> \<exists>m \<le> Suc n. aligned m a c"
proof (induction arbitrary: c rule: aligned.induct)
  case nil
  then show ?case by (elim one_edit_NilE) (auto intro: aligned.intros)
next
  case (keep n xs ys x)
  from keep.prems show ?case
    unfolding one_edit_Cons using keep.hyps keep.IH by (blast intro: aligned.intros)
next
  case (subst n xs ys x y)
  from subst.prems consider (1) c' where "c = c' # y # ys" | (2) "c = ys" | (3) d where "c = d # ys"
    | (4) ys' where "c = y # ys'" "one_edit ys ys'" unfolding one_edit_Cons by blast
  then show ?case
  proof cases
    case 1 then show ?thesis using subst.hyps by (blast intro: aligned.intros)
  next
    case 2 then show ?thesis using aligned.del [OF subst.hyps, of x] by (auto intro: exI [of _ "Suc n"])
  next
    case (3 d) then show ?thesis using aligned.subst [OF subst.hyps, of x d] by (auto intro: exI [of _ "Suc n"])
  next
    case (4 ys')
    then obtain m where "m \<le> Suc n" "aligned m xs ys'" using subst.IH by blast
    with 4 show ?thesis using aligned.subst [of m xs ys' x y] by (auto intro: exI [of _ "Suc m"])
  qed
next
  case (del n xs ys x)
  then obtain m where "m \<le> Suc n" "aligned m xs c" by blast
  then show ?case using aligned.del [of m xs c x] by (auto intro: exI [of _ "Suc m"])
next
  case (ins n xs ys y)
  from ins.prems consider (1) c' where "c = c' # y # ys" | (2) "c = ys" | (3) d where "c = d # ys"
    | (4) ys' where "c = y # ys'" "one_edit ys ys'" unfolding one_edit_Cons by blast
  then show ?case
  proof cases
    case 1 then show ?thesis using ins.hyps by (blast intro: aligned.intros)
  next
    case 2 then show ?thesis using ins.hyps by (auto intro: exI [of _ n])
  next
    case (3 d) then show ?thesis using aligned.ins [OF ins.hyps, of d] by (auto intro: exI [of _ "Suc n"])
  next
    case (4 ys')
    then obtain m where "m \<le> Suc n" "aligned m xs ys'" using ins.IH by blast
    with 4 show ?thesis using aligned.ins [of m xs ys' y] by (auto intro: exI [of _ "Suc m"])
  qed
qed

lemma aligned_edits: "aligned n a b \<Longrightarrow> (one_edit ^^ n) a b"
proof (induction rule: aligned.induct)
  case (keep n xs ys x)
  have "(one_edit ^^ n) xs ys \<Longrightarrow> (one_edit ^^ n) (x # xs) (x # ys)" for n ys
    by (induction n arbitrary: ys) (auto intro: one_edit.later)
  with keep show ?case by blast
next
  case (subst n xs ys x y)
  have "(one_edit ^^ n) xs ys \<Longrightarrow> (one_edit ^^ n) (x # xs) (x # ys)" for n ys
    by (induction n arbitrary: ys) (auto intro: one_edit.later)
  with subst show ?case by (auto intro: one_edit.replacement)
next
  case (del n xs ys x)
  then show ?case by (auto intro: relpowp_Suc_I2 one_edit.deletion simp del: relpowp.simps)
next
  case (ins n xs ys y)
  then show ?case by (auto intro: one_edit.insertion)
qed simp

lemma edits_edit_distance: "(one_edit ^^ k) a b \<Longrightarrow> edit_distance a b \<le> k"
proof -
  assume "(one_edit ^^ k) a b"
  then have "\<exists>m \<le> k. aligned m a b"
  proof (induction k arbitrary: b)
    case (Suc k)
    then obtain b' where "(one_edit ^^ k) a b'" "one_edit b' b" by auto
    with Suc.IH aligned_edit show ?case by (meson Suc_le_mono le_trans)
  qed (auto intro: aligned_refl)
  then show ?thesis using edit_distance_aligned le_trans by blast
qed

lemma one_edit_append: "one_edit xs ys \<Longrightarrow> one_edit (xs @ zs) (ys @ zs)"
  by (induction rule: one_edit.induct) (auto intro: one_edit.intros)

lemma one_edit_last: "one_edit v (v @ [c])" "one_edit (v @ [c]) v" "one_edit (v @ [c]) (v @ [d])"
  by (induction v) (auto intro: one_edit.intros)

lemma one_edit_rev: "one_edit xs ys \<Longrightarrow> one_edit (rev xs) (rev ys)"
  by (induction rule: one_edit.induct) (auto intro: one_edit_last one_edit_append)

lemma edits_rev: "(one_edit ^^ k) xs ys \<Longrightarrow> (one_edit ^^ k) (rev xs) (rev ys)"
  by (induction k arbitrary: ys) (auto intro: one_edit_rev)

text \<open>C27: The edit distance. What the two rows compute is the least number of single insertions,
  deletions and replacements that turn one string into the other.\<close>

theorem levenshtein_distance_least: "levenshtein_distance a b = (LEAST k. (one_edit ^^ k) a b)"
proof -
  have "(one_edit ^^ levenshtein_distance a b) a b"
    using edits_rev [OF aligned_edits [OF aligned_edit_distance [of "rev a" "rev b"]]] by (simp add: levenshtein_recursion)
  moreover have "levenshtein_distance a b \<le> k" if "(one_edit ^^ k) a b" for k
    using edits_edit_distance [OF edits_rev [OF that]] by (simp add: levenshtein_recursion)
  ultimately show ?thesis by (intro Least_equality [symmetric])
qed

end
