(* ===== verification/Cache_Backend.thy ===== *)
theory Cache_Backend
  imports Nova_Prelude Lru
begin

text \<open>
  The object cache (\<open>nova-cache\<close>): errors, entries and metrics, glob matching and the trait's default
  methods (\<open>backend/mod.rs\<close>), and the LRU backend with its byte budget (\<open>backend/hashmap.rs\<close>). Instants
  and durations are nanoseconds; the readings of the clock within one call are one argument. Keys are
  strings of one-byte characters.
\<close>

section \<open>Types\<close>

datatype cache_error =
    CeNotFound string | CapacityExceeded | CeSerialization string | CeBackend string | CeInternal string

record cache_entry =
  ce_value :: bytes
  ce_created_at :: nat
  ce_expires_at :: "nat option"
  ce_access_count :: u64

record cache_metrics =
  cm_hits :: u64
  cm_misses :: u64
  cm_evictions :: u64
  cm_sets :: u64
  cm_deletes :: u64

definition cache_metrics_default :: cache_metrics where
  "cache_metrics_default = \<lparr>cm_hits = 0, cm_misses = 0, cm_evictions = 0, cm_sets = 0, cm_deletes = 0\<rparr>"

type_synonym ('s, 'a) cache_op = "('s, cache_error, 'a) stm"

section \<open>Globs\<close>

fun matches_glob :: "string \<Rightarrow> string \<Rightarrow> bool" where
  "matches_glob [] [] \<longleftrightarrow> True"
| "matches_glob [] (c # k) \<longleftrightarrow> False"
| "matches_glob (p # ps) [] \<longleftrightarrow> p = CHR ''*'' \<and> matches_glob ps []"
| "matches_glob (p # ps) (c # k) \<longleftrightarrow>
     (if p = CHR ''*'' then matches_glob ps (c # k) \<or> matches_glob (p # ps) k
      else (p = CHR ''?'' \<or> p = c) \<and> matches_glob ps k)"

section \<open>The backend trait\<close>

record 's cache_ops =
  co_get :: "nat \<Rightarrow> string \<Rightarrow> ('s, bytes option) cache_op"
  co_set :: "nat \<Rightarrow> string \<Rightarrow> bytes \<Rightarrow> nat option \<Rightarrow> ('s, unit) cache_op"
  co_delete :: "string \<Rightarrow> ('s, bool) cache_op"
  co_exists :: "nat \<Rightarrow> string \<Rightarrow> ('s, bool) cache_op"
  co_flush :: "('s, unit) cache_op"
  co_len :: "('s, nat) cache_op"
  co_keys :: "('s, string list) cache_op"
  co_delete_matching :: "string \<Rightarrow> ('s, nat) cache_op"

definition co_is_empty :: "'s cache_ops \<Rightarrow> ('s, bool) cache_op" where
  "co_is_empty B = sbind (co_len B) (\<lambda>n. sret (n = 0))"

definition co_get_or_insert_with :: "'s cache_ops \<Rightarrow> nat \<Rightarrow> string \<Rightarrow> (cache_error, bytes) outcome \<Rightarrow> nat option \<Rightarrow>
    ('s, bytes) cache_op" where
  "co_get_or_insert_with B now k f ttl =
     sbind (co_get B now k) (\<lambda>r. case r of
       Some v \<Rightarrow> sret v
     | None \<Rightarrow> sbind (slift f) (\<lambda>v. sbind (co_set B now k v ttl) (\<lambda>_. sret v)))"

fun co_get_many :: "'s cache_ops \<Rightarrow> nat \<Rightarrow> string list \<Rightarrow> ('s, (string \<times> bytes) list) cache_op" where
  "co_get_many B now [] = sret []"
| "co_get_many B now (k # ks) =
     sbind (co_get B now k) (\<lambda>r. sbind (co_get_many B now ks) (\<lambda>vs.
       sret (case r of Some v \<Rightarrow> (k, v) # vs | None \<Rightarrow> vs)))"

fun co_set_many :: "'s cache_ops \<Rightarrow> nat \<Rightarrow> (string \<times> bytes \<times> nat option) list \<Rightarrow> ('s, unit) cache_op" where
  "co_set_many B now [] = sret ()"
| "co_set_many B now ((k, v, ttl) # es) = sbind (co_set B now k v ttl) (\<lambda>_. co_set_many B now es)"

fun co_delete_many :: "'s cache_ops \<Rightarrow> string list \<Rightarrow> ('s, nat) cache_op" where
  "co_delete_many B [] = sret 0"
| "co_delete_many B (k # ks) =
     sbind (co_delete B k) (\<lambda>d. sbind (co_delete_many B ks) (\<lambda>n. sret (if d then n + 1 else n)))"

section \<open>The LRU backend\<close>

record hm_backend =
  hb_cache :: "(string, cache_entry) lru"
  hb_cap :: nat
  hb_max_bytes :: u64
  hb_current_bytes :: u64
  hb_metrics :: cache_metrics

definition hb_new :: "u64 \<Rightarrow> cache_metrics \<Rightarrow> hm_backend" where
  "hb_new max_bytes metrics = \<lparr>hb_cache = [], hb_cap = min (max (unat max_bytes div 100) 100) 1000000,
     hb_max_bytes = max_bytes, hb_current_bytes = 0, hb_metrics = metrics\<rparr>"

definition entry_size :: "string \<Rightarrow> bytes \<Rightarrow> u64" where
  "entry_size k v = of_nat (length k + length v)"

definition entry_expired :: "nat \<Rightarrow> cache_entry \<Rightarrow> bool" where
  "entry_expired now e \<longleftrightarrow> (case ce_expires_at e of Some t \<Rightarrow> t < now | None \<Rightarrow> False)"

abbreviation count_hit :: "hm_backend \<Rightarrow> hm_backend" where
  "count_hit s \<equiv> s\<lparr>hb_metrics := (hb_metrics s)\<lparr>cm_hits := cm_hits (hb_metrics s) + 1\<rparr>\<rparr>"

abbreviation count_miss :: "hm_backend \<Rightarrow> hm_backend" where
  "count_miss s \<equiv> s\<lparr>hb_metrics := (hb_metrics s)\<lparr>cm_misses := cm_misses (hb_metrics s) + 1\<rparr>\<rparr>"

text \<open>An entry that leaves with its bytes counted off and an eviction counted.\<close>

definition hb_evict :: "string \<Rightarrow> hm_backend \<Rightarrow> hm_backend" where
  "hb_evict k s = (case map_of (hb_cache s) k of
       Some e \<Rightarrow> s\<lparr>hb_cache := lru_remove k (hb_cache s),
         hb_current_bytes := hb_current_bytes s - entry_size k (ce_value e),
         hb_metrics := (hb_metrics s)\<lparr>cm_evictions := cm_evictions (hb_metrics s) + 1\<rparr>\<rparr>
     | None \<Rightarrow> s)"

definition hb_evict_expired :: "nat \<Rightarrow> hm_backend \<Rightarrow> hm_backend" where
  "hb_evict_expired now s = fold hb_evict (map fst (filter (\<lambda>(_, e). entry_expired now e) (hb_cache s))) s"

text \<open>\<open>peek\<close> does not promote. An expired entry is popped, and nothing is counted off.\<close>

definition hb_get :: "nat \<Rightarrow> string \<Rightarrow> (hm_backend, bytes option) cache_op" where
  "hb_get now k = (\<lambda>s. case map_of (hb_cache s) k of
       Some e \<Rightarrow> if entry_expired now e then (Ok None, count_miss (s\<lparr>hb_cache := lru_remove k (hb_cache s)\<rparr>))
                 else (Ok (Some (ce_value e)), count_hit s)
     | None \<Rightarrow> (Ok None, count_miss s))"

text \<open>The loop that pops least recently used entries until the new one fits or none is left.\<close>

function hb_make_room :: "u64 \<Rightarrow> hm_backend \<Rightarrow> hm_backend" where
  "hb_make_room new_size s =
     (if hb_max_bytes s < hb_current_bytes s + new_size \<and> hb_cache s \<noteq> []
      then case last (hb_cache s) of (k, e) \<Rightarrow>
        hb_make_room new_size (s\<lparr>hb_cache := butlast (hb_cache s),
          hb_current_bytes := hb_current_bytes s - entry_size k (ce_value e),
          hb_metrics := (hb_metrics s)\<lparr>cm_evictions := cm_evictions (hb_metrics s) + 1\<rparr>\<rparr>)
      else s)"
  by pat_completeness auto
termination by (relation "measure (\<lambda>(_, s). length (hb_cache s))") auto

declare hb_make_room.simps [simp del]

definition hb_set :: "nat \<Rightarrow> string \<Rightarrow> bytes \<Rightarrow> nat option \<Rightarrow> (hm_backend, unit) cache_op" where
  "hb_set now k v ttl = (\<lambda>s.
     let new_size = entry_size k v;
         s1 = (case map_of (hb_cache s) k of
                 Some e \<Rightarrow> s\<lparr>hb_current_bytes := hb_current_bytes s - entry_size k (ce_value e)\<rparr>
               | None \<Rightarrow> s);
         s2 = hb_make_room new_size s1;
         e = \<lparr>ce_value = v, ce_created_at = now, ce_expires_at = map_option ((+) now) ttl, ce_access_count = 0\<rparr>
     in (Ok (), s2\<lparr>hb_cache := lru_put (hb_cap s2) k e (hb_cache s2),
          hb_current_bytes := hb_current_bytes s2 + new_size,
          hb_metrics := (hb_metrics s2)\<lparr>cm_sets := cm_sets (hb_metrics s2) + 1\<rparr>\<rparr>))"

definition hb_delete :: "string \<Rightarrow> (hm_backend, bool) cache_op" where
  "hb_delete k = (\<lambda>s. case map_of (hb_cache s) k of
       Some e \<Rightarrow> (Ok True, s\<lparr>hb_cache := lru_remove k (hb_cache s),
         hb_current_bytes := hb_current_bytes s - entry_size k (ce_value e),
         hb_metrics := (hb_metrics s)\<lparr>cm_deletes := cm_deletes (hb_metrics s) + 1\<rparr>\<rparr>)
     | None \<Rightarrow> (Ok False, s))"

definition hb_exists :: "nat \<Rightarrow> string \<Rightarrow> (hm_backend, bool) cache_op" where
  "hb_exists now k = (\<lambda>s. case map_of (hb_cache s) k of
       Some e \<Rightarrow> if entry_expired now e then (Ok False, s\<lparr>hb_cache := lru_remove k (hb_cache s)\<rparr>) else (Ok True, s)
     | None \<Rightarrow> (Ok False, s))"

definition hb_flush :: "(hm_backend, unit) cache_op" where
  "hb_flush = smod (\<lambda>s. s\<lparr>hb_cache := [], hb_current_bytes := 0\<rparr>)"

definition hb_len :: "(hm_backend, nat) cache_op" where
  "hb_len = sget (\<lambda>s. length (hb_cache s))"

definition hb_keys :: "(hm_backend, string list) cache_op" where
  "hb_keys = sget (\<lambda>s. map fst (hb_cache s))"

fun hb_delete_all :: "string list \<Rightarrow> (hm_backend, nat) cache_op" where
  "hb_delete_all [] = sret 0"
| "hb_delete_all (k # ks) =
     sbind (hb_delete k) (\<lambda>d. sbind (hb_delete_all ks) (\<lambda>n. sret (if d then n + 1 else n)))"

definition hb_delete_matching :: "string \<Rightarrow> (hm_backend, nat) cache_op" where
  "hb_delete_matching pat = sbind hb_keys (\<lambda>ks. hb_delete_all (filter (matches_glob pat) ks))"

definition hm_ops :: "hm_backend cache_ops" where
  "hm_ops = \<lparr>co_get = hb_get, co_set = hb_set, co_delete = hb_delete, co_exists = hb_exists, co_flush = hb_flush,
     co_len = hb_len, co_keys = hb_keys, co_delete_matching = hb_delete_matching\<rparr>"

section \<open>Lemmas on globs\<close>

text \<open>What a glob stands for.\<close>

fun glob_language :: "string \<Rightarrow> string set" where
  "glob_language [] = {[]}"
| "glob_language (p # ps) =
     (if p = CHR ''*'' then {u @ v |u v. v \<in> glob_language ps}
      else {c # v |c v. (p = CHR ''?'' \<or> c = p) \<and> v \<in> glob_language ps})"

lemma star_language: "{u @ v |u v. v \<in> L} = L \<union> {c # w |c w. w \<in> {u @ v |u v. v \<in> L}}"
proof -
  have "w \<in> L \<or> (\<exists>c w'. w = c # w' \<and> (\<exists>u v. w' = u @ v \<and> v \<in> L))" if "w = u @ v" "v \<in> L" for u v w
    using that by (cases u) auto
  moreover have "\<exists>u' v'. c # u @ v = u' @ v' \<and> v' \<in> L" if "v \<in> L" for c u v
    using that by (metis append_Cons)
  ultimately show ?thesis by (auto) (metis append_Nil)
qed

text \<open>Globs. A key matches a glob exactly if it is a word of the glob's language, in which \<open>*\<close>
  stands for any string and \<open>?\<close> for any character.\<close>

theorem matches_glob_language: "matches_glob pat k \<longleftrightarrow> k \<in> glob_language pat"
proof (induction pat k rule: matches_glob.induct)
  case (4 p ps c k)
  then show ?case
  proof (cases "p = CHR ''*''")
    case True
    then have "c # k \<in> glob_language (p # ps) \<longleftrightarrow> c # k \<in> glob_language ps \<or> k \<in> glob_language (p # ps)"
      using star_language [of "glob_language ps"] by auto
    then show ?thesis using 4 True by simp
  qed auto
qed auto

end
