(* ===== verification/Cache_Budget.thy ===== *)
theory Cache_Budget
  imports Cache_Backend
begin

text \<open>
  The byte budget of the LRU cache: what the counter says and what the entries weigh.
\<close>

definition cache_bytes :: "(string, cache_entry) lru \<Rightarrow> nat" where
  "cache_bytes c = sum_list (map (\<lambda>(k, e). length k + length (ce_value e)) c)"

lemma cache_bytes_simps [simp]:
  "cache_bytes [] = 0" "cache_bytes ((k, e) # c) = length k + length (ce_value e) + cache_bytes c"
  "cache_bytes (c @ d) = cache_bytes c + cache_bytes d"
  by (simp_all add: cache_bytes_def)

text \<open>The counter is exact, and the entries are within the entry limit.\<close>

definition hb_exact :: "hm_backend \<Rightarrow> bool" where
  "hb_exact s \<longleftrightarrow> unat (hb_current_bytes s) = cache_bytes (hb_cache s) \<and> lru_inv (hb_cap s) (hb_cache s)"

lemma hb_exact_new: "hb_exact (hb_new n m)"
  by (simp add: hb_exact_def hb_new_def lru_inv_def)

lemma unat_entry_size: "length k + length v < 2 ^ 64 \<Longrightarrow> unat (entry_size k v) = length k + length v"
  by (simp add: entry_size_def unat_of_nat del: of_nat_add)

lemma unat_minus: "unat (b :: 64 word) \<le> unat a \<Longrightarrow> unat (a - b) = unat a - unat b"
  by (simp add: unat_sub word_le_nat_alt)

lemma unat_plus: "unat (a :: 64 word) + unat b < 2 ^ 64 \<Longrightarrow> unat (a + b) = unat a + unat b"
  by (simp add: unat_add_lem [THEN iffD1])

lemma map_of_take: "distinct (map fst c) \<Longrightarrow> map_of (take n c) k = Some v \<Longrightarrow> map_of c k = Some v"
  by (metis map_add_SomeD map_of_append append_take_drop_id map_of_SomeD map_of_is_SomeI in_set_takeD)

text \<open>The loop keeps the most recently used entries, as many as fit.\<close>

lemma hb_make_room:
  assumes "unat (hb_current_bytes s) = cache_bytes (hb_cache s)" and "cache_bytes (hb_cache s) + unat sz < 2 ^ 64"
  shows "\<exists>n ev. hb_make_room sz s = s\<lparr>hb_cache := take n (hb_cache s),
      hb_current_bytes := of_nat (cache_bytes (take n (hb_cache s))), hb_metrics := (hb_metrics s)\<lparr>cm_evictions := ev\<rparr>\<rparr> \<and>
    n \<le> length (hb_cache s) \<and>
    (n = 0 \<or> cache_bytes (take n (hb_cache s)) + unat sz \<le> unat (hb_max_bytes s)) \<and>
    (n = length (hb_cache s) \<or> unat (hb_max_bytes s) < cache_bytes (take (Suc n) (hb_cache s)) + unat sz)"
  using assms
proof (induction sz s rule: hb_make_room.induct)
  case (1 sz s)
  let ?c = "hb_cache s"
  have cur: "hb_current_bytes s = of_nat (cache_bytes ?c)" using "1.prems"(1) [symmetric] by simp
  have sum: "unat (hb_current_bytes s + sz) = cache_bytes ?c + unat sz" using "1.prems" unat_plus by simp
  show ?case
  proof (cases "hb_max_bytes s < hb_current_bytes s + sz \<and> ?c \<noteq> []")
    case False
    then have "hb_make_room sz s = s" by (subst hb_make_room.simps) auto
    moreover have "?c = [] \<or> cache_bytes ?c + unat sz \<le> unat (hb_max_bytes s)"
      using False sum by (auto simp: word_less_nat_alt)
    ultimately show ?thesis
      using cur by (intro exI [of _ "length ?c"] exI [of _ "cm_evictions (hb_metrics s)"]) auto
  next
    case True
    obtain k e where ke: "last ?c = (k, e)" by fastforce
    then have split: "?c = butlast ?c @ [(k, e)]" using True by (metis append_butlast_last_id)
    have bytes: "cache_bytes ?c = cache_bytes (butlast ?c) + (length k + length (ce_value e))" by (subst split) simp
    let ?s = "s\<lparr>hb_cache := butlast ?c, hb_current_bytes := hb_current_bytes s - entry_size k (ce_value e),
      hb_metrics := (hb_metrics s)\<lparr>cm_evictions := cm_evictions (hb_metrics s) + 1\<rparr>\<rparr>"
    have "unat (entry_size k (ce_value e)) = length k + length (ce_value e)"
      using bytes "1.prems"(2) by (intro unat_entry_size) simp
    then have "unat (hb_current_bytes ?s) = cache_bytes (hb_cache ?s)"
      using bytes "1.prems"(1) by (simp add: unat_minus)
    moreover have "cache_bytes (hb_cache ?s) + unat sz < 2 ^ 64" using bytes "1.prems"(2) by simp
    ultimately obtain n ev where IH: "hb_make_room sz ?s = ?s\<lparr>hb_cache := take n (butlast ?c),
        hb_current_bytes := of_nat (cache_bytes (take n (butlast ?c))), hb_metrics := (hb_metrics ?s)\<lparr>cm_evictions := ev\<rparr>\<rparr>"
      "n \<le> length (butlast ?c)" "n = 0 \<or> cache_bytes (take n (butlast ?c)) + unat sz \<le> unat (hb_max_bytes s)"
      "n = length (butlast ?c) \<or> unat (hb_max_bytes s) < cache_bytes (take (Suc n) (butlast ?c)) + unat sz"
      using "1.IH" [OF True ke [symmetric]] by auto
    have tk: "take n (butlast ?c) = take n ?c" using IH(2) by (simp add: butlast_conv_take min_absorb1)
    have "unat (hb_max_bytes s) < cache_bytes (take (Suc n) ?c) + unat sz"
    proof (cases "n = length (butlast ?c)")
      case True1: True
      then have "take (Suc n) ?c = ?c" using True by simp
      then show ?thesis using True sum by (simp add: word_less_nat_alt)
    next
      case False
      then have "take (Suc n) (butlast ?c) = take (Suc n) ?c" using IH(2) by (simp add: butlast_conv_take min_absorb1)
      then show ?thesis using IH(4) False by simp
    qed
    moreover have "hb_make_room sz s = hb_make_room sz ?s" using True ke by (subst hb_make_room.simps) simp
    ultimately show ?thesis
      using IH(1,2,3) tk True by (intro exI [of _ n] exI [of _ ev]) auto
  qed
qed

section \<open>Writing within the budget\<close>

lemma lru_inv_take: "lru_inv cap c \<Longrightarrow> lru_inv cap (take n c)"
  by (auto simp: lru_inv_def take_map [symmetric] distinct_take)

lemma map_of_take_None: "map_of c k = None \<Longrightarrow> map_of (take n c) k = None"
  by (auto simp: map_of_eq_None_iff dest: in_set_takeD)

text \<open>A write of a new key stays within the budget. From an exact counter and with room for one
  more entry, the new entry is stored at the front, the most recently written entries that fit beside
  it are kept and no fewer, the counter is exact again, and the entries weigh at most the limit, or
  the new entry is alone.\<close>

theorem cache_set_within_budget:
  assumes "hb_exact s" and "map_of (hb_cache s) k = None" and "length (hb_cache s) < hb_cap s"
    and "cache_bytes (hb_cache s) + (length k + length v) < 2 ^ 64"
  shows "\<exists>n e s'. hb_set now k v ttl s = (Ok (), s') \<and> hb_exact s' \<and> ce_value e = v \<and> hb_cache s' = (k, e) # take n (hb_cache s) \<and>
    (n = 0 \<or> cache_bytes (hb_cache s') \<le> unat (hb_max_bytes s)) \<and>
    (n \<ge> length (hb_cache s) \<or>
      unat (hb_max_bytes s) < length k + length v + cache_bytes (take (Suc n) (hb_cache s)))"
proof -
  let ?c = "hb_cache s" and ?e = "\<lparr>ce_value = v, ce_created_at = now, ce_expires_at = map_option ((+) now) ttl, ce_access_count = 0\<rparr>"
  have sz: "unat (entry_size k v) = length k + length v" using assms(4) by (intro unat_entry_size) simp
  have "unat (hb_current_bytes s) = cache_bytes ?c" "lru_inv (hb_cap s) ?c" using assms(1) by (simp_all add: hb_exact_def)
  from hb_make_room [OF this(1), of "entry_size k v"] assms(4) sz obtain n ev where
    room: "hb_make_room (entry_size k v) s = s\<lparr>hb_cache := take n ?c,
      hb_current_bytes := of_nat (cache_bytes (take n ?c)), hb_metrics := (hb_metrics s)\<lparr>cm_evictions := ev\<rparr>\<rparr>"
    and n: "n \<le> length ?c" "n = 0 \<or> cache_bytes (take n ?c) + (length k + length v) \<le> unat (hb_max_bytes s)"
      "n = length ?c \<or> unat (hb_max_bytes s) < cache_bytes (take (Suc n) ?c) + (length k + length v)" by auto
  have "cache_bytes ?c = cache_bytes (take n ?c) + cache_bytes (drop n ?c)" by (metis append_take_drop_id cache_bytes_simps(3))
  then have less: "cache_bytes (take n ?c) + (length k + length v) < 2 ^ 64" using assms(4) by simp
  have put: "lru_put (hb_cap s) k ?e (take n ?c) = (k, ?e) # take n ?c"
    using assms(3) n(1) map_of_take_None [OF assms(2)] by (simp add: lru_put_def min_absorb2)
  let ?s = "snd (hb_set now k v ttl s)"
  have s': "hb_set now k v ttl s = (Ok (), ?s)" "hb_cache ?s = (k, ?e) # take n ?c" "hb_cap ?s = hb_cap s"
    "hb_current_bytes ?s = of_nat (cache_bytes (take n ?c)) + entry_size k v"
    using assms(2) room put by (simp_all add: hb_set_def Let_def)
  have "unat (of_nat (cache_bytes (take n ?c)) :: u64) = cache_bytes (take n ?c)" using less by (simp add: unat_of_nat)
  then have "unat (hb_current_bytes ?s) = cache_bytes (hb_cache ?s)" using s'(2,4) less sz by (simp add: unat_plus)
  moreover have "lru_inv (hb_cap ?s) (hb_cache ?s)"
    using lru_inv_put [of "hb_cap s" "take n ?c" k ?e] lru_inv_take [OF \<open>lru_inv (hb_cap s) ?c\<close>] put s'(2,3) assms(3) by simp
  ultimately have "hb_exact ?s" by (simp add: hb_exact_def)
  then show ?thesis using s'(1,2) n by (intro exI [of _ n] exI [of _ ?e] exI [of _ ?s]) auto
qed

definition example_cache :: hm_backend where
  "example_cache = snd (hb_set 0 ''b'' [1] None (snd (hb_set 0 ''a'' [1, 2] (Some 5) (hb_new 6 cache_metrics_default))))"

lemma example_cache:
  "hb_exact example_cache" "hb_cap example_cache = 100"
  "hb_cache example_cache = [(''b'', \<lparr>ce_value = [1], ce_created_at = 0, ce_expires_at = None, ce_access_count = 0\<rparr>),
     (''a'', \<lparr>ce_value = [1, 2], ce_created_at = 0, ce_expires_at = Some 5, ce_access_count = 0\<rparr>)]"
  "hb_max_bytes example_cache = 6" "cache_bytes (hb_cache example_cache) = 5"
  by (simp_all add: example_cache_def hb_set_def hb_new_def Let_def hb_make_room.simps entry_size_def lru_put_def hb_exact_def
      lru_inv_def)

theorem cache_set_within_budget_witness:
  "\<exists>s'. hb_set 1 ''c'' [1, 2, 3] None example_cache = (Ok (), s') \<and> hb_exact s' \<and> cache_bytes (hb_cache s') \<le> 6"
  using cache_set_within_budget [OF example_cache(1), of "''c''" "[1, 2, 3]" 1 None] by (auto simp: example_cache)

section \<open>Where the counter goes wrong\<close>

text \<open>Calls that write nothing.\<close>

datatype cache_quiet_op = QGet nat string | QExists nat string | QDelete string | QSweep nat

fun quiet_step :: "hm_backend \<Rightarrow> cache_quiet_op \<Rightarrow> hm_backend" where
  "quiet_step s (QGet now k) = snd (hb_get now k s)"
| "quiet_step s (QExists now k) = snd (hb_exists now k s)"
| "quiet_step s (QDelete k) = snd (hb_delete k s)"
| "quiet_step s (QSweep now) = hb_evict_expired now s"

text \<open>The counter is ahead by some bytes.\<close>

definition ahead :: "nat \<Rightarrow> hm_backend \<Rightarrow> bool" where
  "ahead d s \<longleftrightarrow> cache_bytes (hb_cache s) + d \<le> unat (hb_current_bytes s) \<and> distinct (map fst (hb_cache s))"

lemma cache_bytes_remove:
  "distinct (map fst c) \<Longrightarrow> map_of c k = Some e \<Longrightarrow>
   cache_bytes c = cache_bytes (lru_remove k c) + (length k + length (ce_value e))"
proof (induction c)
  case (Cons x c)
  obtain k' e' where x: "x = (k', e')" by (cases x)
  show ?case
  proof (cases "k' = k")
    case True
    then have "lru_remove k c = c"
      using Cons.prems(1) by (auto simp: x lru_remove_def intro!: filter_True) (metis fst_conv image_eqI)
    then show ?thesis using Cons.prems True by (simp add: x lru_remove_def)
  next
    case False
    then show ?thesis using Cons by (simp add: x lru_remove_def)
  qed
qed simp

lemma ahead_pop:
  assumes "ahead d s" and "map_of (hb_cache s) k = Some e"
  shows "ahead (d + (length k + length (ce_value e))) (s\<lparr>hb_cache := lru_remove k (hb_cache s), hb_metrics := m\<rparr>)"
    and "ahead d (s\<lparr>hb_cache := lru_remove k (hb_cache s), hb_current_bytes := hb_current_bytes s - entry_size k (ce_value e),
      hb_metrics := m\<rparr>)"
proof -
  have b: "cache_bytes (hb_cache s) = cache_bytes (lru_remove k (hb_cache s)) + (length k + length (ce_value e))"
    using cache_bytes_remove assms by (simp add: ahead_def)
  show "ahead (d + (length k + length (ce_value e))) (s\<lparr>hb_cache := lru_remove k (hb_cache s), hb_metrics := m\<rparr>)"
    using assms(1) b by (simp add: ahead_def)
  have "cache_bytes (hb_cache s) \<le> unat (hb_current_bytes s)" using assms(1) by (simp add: ahead_def)
  then have "length k + length (ce_value e) < 2 ^ 64" using b unsigned_less [where w = "hb_current_bytes s" and 'a = nat] by simp
  then have sz: "unat (entry_size k (ce_value e)) = length k + length (ce_value e)" by (rule unat_entry_size)
  have "unat (hb_current_bytes s - entry_size k (ce_value e)) = unat (hb_current_bytes s) - (length k + length (ce_value e))"
    unfolding sz [symmetric] using assms(1) b sz by (intro unat_minus) (simp add: ahead_def)
  then show "ahead d (s\<lparr>hb_cache := lru_remove k (hb_cache s), hb_current_bytes := hb_current_bytes s - entry_size k (ce_value e),
      hb_metrics := m\<rparr>)"
    using assms(1) b by (auto simp: ahead_def)
qed

lemma ahead_weaken: "ahead d s \<Longrightarrow> d' \<le> d \<Longrightarrow> ahead d' s"
  by (simp add: ahead_def)

lemma ahead_metrics [simp]: "ahead d (s\<lparr>hb_metrics := m\<rparr>) \<longleftrightarrow> ahead d s"
  by (simp add: ahead_def)

lemma ahead_evict: "ahead d s \<Longrightarrow> ahead d (hb_evict k s)"
  using ahead_pop(2) by (auto simp: hb_evict_def split: option.split)

lemma ahead_quiet: "ahead d s \<Longrightarrow> ahead d (quiet_step s op)"
proof (cases op)
  case (QGet now k)
  then show "ahead d s \<Longrightarrow> ?thesis"
    using ahead_weaken [OF ahead_pop(1) [of d s k _ "cm_misses_update f (hb_metrics s)" for f]]
    by (auto simp: hb_get_def split: option.split)
next
  case (QExists now k)
  assume "ahead d s"
  then show ?thesis
    using ahead_weaken [OF ahead_pop(1) [of d s k _ "hb_metrics s"]] by (auto simp: QExists hb_exists_def split: option.split)
next
  case (QDelete k)
  then show "ahead d s \<Longrightarrow> ?thesis"
    using ahead_pop(2) [of d s k] by (auto simp: hb_delete_def split: option.split)
next
  case (QSweep now)
  have "ahead d s \<Longrightarrow> ahead d (fold hb_evict ks s)" for ks s
    by (induction ks arbitrary: s) (auto intro: ahead_evict)
  then show "ahead d s \<Longrightarrow> ?thesis" by (simp add: QSweep hb_evict_expired_def)
qed

text \<open>Reading an expired entry loses its bytes. The entry is removed, but the counter keeps its
  weight, and no later read, existence test, deletion or sweep takes it off again: the counter
  stays ahead of the entries by at least that much.\<close>

theorem cache_expired_read_leaks:
  assumes "hb_exact s" and "map_of (hb_cache s) k = Some e" and "entry_expired now e"
  shows "\<exists>s'. hb_get now k s = (Ok None, s') \<and> hb_cache s' = lru_remove k (hb_cache s) \<and>
    cache_bytes (hb_cache (foldl quiet_step s' ops)) + (length k + length (ce_value e)) \<le>
      unat (hb_current_bytes (foldl quiet_step s' ops))"
proof -
  let ?m = "(hb_metrics s)\<lparr>cm_misses := cm_misses (hb_metrics s) + 1\<rparr>"
  let ?s = "s\<lparr>hb_cache := lru_remove k (hb_cache s), hb_metrics := ?m\<rparr>"
  have "ahead 0 s" using assms(1) by (simp add: ahead_def hb_exact_def lru_inv_def)
  from ahead_pop(1) [OF this assms(2)] have "ahead (length k + length (ce_value e)) ?s" by simp
  then have "ahead (length k + length (ce_value e)) (foldl quiet_step ?s ops)"
    by (induction ops arbitrary: s rule: rev_induct) (simp_all add: ahead_quiet)
  moreover have "hb_get now k s = (Ok None, ?s)" using assms(2,3) by (simp add: hb_get_def)
  ultimately show ?thesis by (intro exI [of _ ?s]) (simp add: ahead_def)
qed

theorem cache_expired_read_leaks_witness:
  "\<exists>s'. hb_get 6 ''a'' example_cache = (Ok None, s') \<and>
     cache_bytes (hb_cache (foldl quiet_step s' [QDelete ''b''])) + 3 \<le> unat (hb_current_bytes (foldl quiet_step s' [QDelete ''b'']))"
  using cache_expired_read_leaks [OF example_cache(1), of "''a''"
      "\<lparr>ce_value = [1, 2], ce_created_at = 0, ce_expires_at = Some 5, ce_access_count = 0\<rparr>" 6 "[QDelete ''b'']"]
  by (auto simp: example_cache(3) entry_expired_def)

text \<open>Overwriting an entry with one that does not fit evicts the old entry in the loop and counts its
  bytes off twice; when the new entry is deleted the counter wraps around with the cache empty.\<close>

theorem cache_overwrite_wraps:
  assumes "hb_exact s" and "hb_cache s = [(k, e)]" and "unat (hb_max_bytes s) < length k + length v"
    and "length k + length v < 2 ^ 64"
  shows "\<exists>s1 s2. hb_set now k v ttl s = (Ok (), s1) \<and> hb_delete k s1 = (Ok True, s2) \<and> hb_cache s2 = [] \<and>
    hb_current_bytes s2 = - entry_size k (ce_value e)"
proof -
  let ?old = "entry_size k (ce_value e)" and ?new = "entry_size k v"
  let ?e = "\<lparr>ce_value = v, ce_created_at = now, ce_expires_at = map_option ((+) now) ttl, ce_access_count = 0\<rparr>"
  have "unat (hb_current_bytes s) = length k + length (ce_value e)"
    using assms(1,2) by (simp add: hb_exact_def)
  from this [symmetric] have cur: "hb_current_bytes s = ?old" by (simp add: entry_size_def del: of_nat_add)
  have big: "hb_max_bytes s < ?new" using assms(3) unat_entry_size [OF assms(4)] by (simp add: word_less_nat_alt)
  have room: "hb_make_room ?new (s\<lparr>hb_current_bytes := 0\<rparr>) = s\<lparr>hb_cache := [], hb_current_bytes := - ?old,
      hb_metrics := (hb_metrics s)\<lparr>cm_evictions := cm_evictions (hb_metrics s) + 1\<rparr>\<rparr>"
    using big by (subst hb_make_room.simps) (simp add: assms(2) hb_make_room.simps)
  have "hb_cache (snd (hb_set now k v ttl s)) = [(k, ?e)]" "hb_current_bytes (snd (hb_set now k v ttl s)) = - ?old + ?new"
    by (simp_all add: hb_set_def Let_def assms(2) cur room lru_put_def)
  then have "hb_delete k (snd (hb_set now k v ttl s)) = (Ok True, snd (hb_delete k (snd (hb_set now k v ttl s))))"
    "hb_cache (snd (hb_delete k (snd (hb_set now k v ttl s)))) = []"
    "hb_current_bytes (snd (hb_delete k (snd (hb_set now k v ttl s)))) = - ?old"
    by (simp_all add: hb_delete_def lru_remove_def)
  moreover have "hb_set now k v ttl s = (Ok (), snd (hb_set now k v ttl s))" by (simp add: hb_set_def Let_def)
  ultimately show ?thesis by blast
qed

end
