(* ===== verification/Cache_Ttl.thy ===== *)
theory Cache_Ttl
  imports Cache_Backend "HOL-Library.AList"
begin

text \<open>
  The TTL layer (\<open>backend/ttl.rs\<close>) and the manager (\<open>manager.rs\<close>) of the object cache. The layer keeps
  its own expiry times over any backend; its hash map is an association list, whose order is the
  order in which the map is visited. The contract of a cache is a locale: what is read is what was
  written last, or nothing.
\<close>

section \<open>The layer\<close>

record 's ttl_backend =
  tt_inner :: 's
  tt_expires :: "(string \<times> nat) list"

definition ttl_new :: "'s \<Rightarrow> 's ttl_backend" where
  "ttl_new inner = \<lparr>tt_inner = inner, tt_expires = []\<rparr>"

definition on_inner :: "('s, 'a) cache_op \<Rightarrow> ('s ttl_backend, 'a) cache_op" where
  "on_inner m = (\<lambda>s. case m (tt_inner s) of (r, i) \<Rightarrow> (r, s\<lparr>tt_inner := i\<rparr>))"

definition expiry_remove :: "string \<Rightarrow> ('s ttl_backend, unit) cache_op" where
  "expiry_remove k = smod (\<lambda>s. s\<lparr>tt_expires := AList.delete k (tt_expires s)\<rparr>)"

definition expiry_insert :: "string \<Rightarrow> nat \<Rightarrow> ('s ttl_backend, unit) cache_op" where
  "expiry_insert k t = smod (\<lambda>s. s\<lparr>tt_expires := AList.update k t (tt_expires s)\<rparr>)"

definition ttl_expired :: "nat \<Rightarrow> string \<Rightarrow> 's ttl_backend \<Rightarrow> bool" where
  "ttl_expired now k s \<longleftrightarrow> (case map_of (tt_expires s) k of Some t \<Rightarrow> t \<le> now | None \<Rightarrow> False)"

text \<open>The inner entry and the expiry of a key are dropped, whatever the deletion says.\<close>

definition ttl_drop :: "'s cache_ops \<Rightarrow> string \<Rightarrow> ('s ttl_backend, unit) cache_op" where
  "ttl_drop B k = sbind (try_stm (on_inner (co_delete B k))) (\<lambda>_. expiry_remove k)"

definition ttl_evict_expired :: "'s cache_ops \<Rightarrow> nat \<Rightarrow> ('s ttl_backend, unit) cache_op" where
  "ttl_evict_expired B now = sbind (sget tt_expires) (\<lambda>es.
     fold (\<lambda>k m. sbind m (\<lambda>_. ttl_drop B k)) (map fst (filter (\<lambda>(_, t). t \<le> now) es)) (sret ()))"

definition ttl_get :: "'s cache_ops \<Rightarrow> nat \<Rightarrow> string \<Rightarrow> ('s ttl_backend, bytes option) cache_op" where
  "ttl_get B now k = sbind (sget (ttl_expired now k)) (\<lambda>expired.
     if expired then sbind (ttl_drop B k) (\<lambda>_. sret None) else on_inner (co_get B now k))"

definition ttl_set :: "'s cache_ops \<Rightarrow> nat \<Rightarrow> string \<Rightarrow> bytes \<Rightarrow> nat option \<Rightarrow> ('s ttl_backend, unit) cache_op" where
  "ttl_set B now k v ttl =
     sbind (case ttl of
         Some d \<Rightarrow> if d = 0 then expiry_insert k now else expiry_insert k (now + d)
       | None \<Rightarrow> expiry_remove k) (\<lambda>_.
     on_inner (co_set B now k v ttl))"

definition ttl_delete :: "'s cache_ops \<Rightarrow> string \<Rightarrow> ('s ttl_backend, bool) cache_op" where
  "ttl_delete B k = sbind (expiry_remove k) (\<lambda>_. on_inner (co_delete B k))"

definition ttl_exists :: "'s cache_ops \<Rightarrow> nat \<Rightarrow> string \<Rightarrow> ('s ttl_backend, bool) cache_op" where
  "ttl_exists B now k = sbind (sget (ttl_expired now k)) (\<lambda>expired.
     if expired then sbind (ttl_drop B k) (\<lambda>_. sret False) else on_inner (co_exists B now k))"

definition ttl_flush :: "'s cache_ops \<Rightarrow> ('s ttl_backend, unit) cache_op" where
  "ttl_flush B = sbind (smod (\<lambda>s. s\<lparr>tt_expires := []\<rparr>)) (\<lambda>_. on_inner (co_flush B))"

fun ttl_delete_all :: "'s cache_ops \<Rightarrow> string list \<Rightarrow> ('s ttl_backend, nat) cache_op" where
  "ttl_delete_all B [] = sret 0"
| "ttl_delete_all B (k # ks) =
     sbind (ttl_delete B k) (\<lambda>d. sbind (ttl_delete_all B ks) (\<lambda>n. sret (if d then n + 1 else n)))"

text \<open>Only the keys that have an expiry are looked at.\<close>

definition ttl_delete_matching :: "'s cache_ops \<Rightarrow> string \<Rightarrow> ('s ttl_backend, nat) cache_op" where
  "ttl_delete_matching B pat = sbind (sget tt_expires) (\<lambda>es. ttl_delete_all B (filter (matches_glob pat) (map fst es)))"

definition ttl_ops :: "'s cache_ops \<Rightarrow> 's ttl_backend cache_ops" where
  "ttl_ops B = \<lparr>co_get = ttl_get B, co_set = ttl_set B, co_delete = ttl_delete B, co_exists = ttl_exists B,
     co_flush = ttl_flush B, co_len = on_inner (co_len B), co_keys = on_inner (co_keys B),
     co_delete_matching = ttl_delete_matching B\<rparr>"

section \<open>The manager\<close>

datatype eviction_policy = EvLru | EvLfu | EvTtl | EvLruWithTtl | EvNoEviction

datatype backend_type = BtHashMap | BtRedis

record cache_config =
  cc_max_size :: nat
  cc_default_ttl_secs :: u64
  cc_eviction_policy :: eviction_policy
  cc_backend_type :: backend_type
  cc_redis_url :: "string option"

definition cache_config_default :: cache_config where
  "cache_config_default = \<lparr>cc_max_size = 128 * 1024 * 1024, cc_default_ttl_secs = 300, cc_eviction_policy = EvLru,
     cc_backend_type = BtHashMap, cc_redis_url = None\<rparr>"

definition manager_ttl :: "cache_config \<Rightarrow> nat option \<Rightarrow> nat option" where
  "manager_ttl cfg ttl = (case ttl of Some d \<Rightarrow> Some d
     | None \<Rightarrow> if 0 < cc_default_ttl_secs cfg then Some (unat (cc_default_ttl_secs cfg) * 1000000000) else None)"

definition manager_set :: "'s cache_ops \<Rightarrow> cache_config \<Rightarrow> nat \<Rightarrow> string \<Rightarrow> bytes \<Rightarrow> nat option \<Rightarrow> ('s, unit) cache_op" where
  "manager_set B cfg now k v ttl = co_set B now k v (manager_ttl cfg ttl)"

definition strip_prefix :: "string \<Rightarrow> string \<Rightarrow> string option" where
  "strip_prefix p s = (if take (length p) s = p then Some (drop (length p) s) else None)"

text \<open>What the manager does with an event of the bus, by the canonical text of its type. Results are
  only logged.\<close>

definition manager_on_event :: "'s cache_ops \<Rightarrow> string \<Rightarrow> ('s, unit) cache_op" where
  "manager_on_event B canonical =
     (case strip_prefix ''cache.invalidate.'' canonical of
        Some rest \<Rightarrow>
          (case strip_prefix ''pattern.'' rest of
             Some pat \<Rightarrow> sbind (try_stm (co_delete_matching B pat)) (\<lambda>_. sret ())
           | None \<Rightarrow> sbind (try_stm (co_delete B rest)) (\<lambda>_. sret ()))
      | None \<Rightarrow> sret ())"

section \<open>The contract of a cache\<close>

text \<open>What a cache may answer, given the last writes with their expiry times.\<close>

type_synonym written = "string \<Rightarrow> (bytes \<times> nat option) option"

definition may_read :: "nat \<Rightarrow> written \<Rightarrow> string \<Rightarrow> bytes option \<Rightarrow> bool" where
  "may_read now m k r \<longleftrightarrow> (case r of None \<Rightarrow> True
     | Some v \<Rightarrow> (\<exists>t. m k = Some (v, t) \<and> (case t of Some x \<Rightarrow> now \<le> x | None \<Rightarrow> True)))"

text \<open>Calls, what they do to the last writes, and what they may answer.\<close>

datatype cache_call = CGet nat string | CSet nat string bytes "nat option" | CDelete string | CExists nat string | CFlush
  | CDeleteMatching string

fun cache_apply :: "'s cache_ops \<Rightarrow> cache_call \<Rightarrow> ('s, bytes option) cache_op" where
  "cache_apply B (CGet now k) = co_get B now k"
| "cache_apply B (CSet now k v ttl) = sbind (co_set B now k v ttl) (\<lambda>_. sret None)"
| "cache_apply B (CDelete k) = sbind (co_delete B k) (\<lambda>_. sret None)"
| "cache_apply B (CExists now k) = sbind (co_exists B now k) (\<lambda>_. sret None)"
| "cache_apply B CFlush = sbind (co_flush B) (\<lambda>_. sret None)"
| "cache_apply B (CDeleteMatching pat) = sbind (co_delete_matching B pat) (\<lambda>_. sret None)"

fun call_spec :: "cache_call \<Rightarrow> written \<Rightarrow> written" where
  "call_spec (CSet now k v ttl) m = m(k \<mapsto> (v, map_option ((+) now) ttl))"
| "call_spec (CDelete k) m = m(k := None)"
| "call_spec CFlush m = Map.empty"
| "call_spec _ m = m"

fun call_ok :: "cache_call \<Rightarrow> written \<Rightarrow> bytes option \<Rightarrow> bool" where
  "call_ok (CGet now k) m r = may_read now m k r"
| "call_ok _ m r = True"

fun cache_run :: "'s cache_ops \<Rightarrow> cache_call list \<Rightarrow> ('s, bytes option list) cache_op" where
  "cache_run B [] = sret []"
| "cache_run B (c # cs) = sbind (cache_apply B c) (\<lambda>r. sbind (cache_run B cs) (\<lambda>rs. sret (r # rs)))"

fun run_ok :: "cache_call list \<Rightarrow> written \<Rightarrow> bytes option list \<Rightarrow> bool" where
  "run_ok [] m [] \<longleftrightarrow> True"
| "run_ok (c # cs) m (r # rs) \<longleftrightarrow> call_ok c m r \<and> run_ok cs (call_spec c m) rs"
| "run_ok _ m _ \<longleftrightarrow> False"

locale cache_contract =
  fixes B :: "'s cache_ops" and coherent :: "'s \<Rightarrow> written \<Rightarrow> bool"
  assumes get_law: "coherent s m \<Longrightarrow> \<exists>r s'. co_get B now k s = (Ok r, s') \<and> coherent s' m \<and> may_read now m k r"
    and set_law: "coherent s m \<Longrightarrow> \<exists>s'. co_set B now k v ttl s = (Ok (), s') \<and>
      coherent s' (m(k \<mapsto> (v, map_option ((+) now) ttl)))"
    and delete_law: "coherent s m \<Longrightarrow> \<exists>b s'. co_delete B k s = (Ok b, s') \<and> coherent s' (m(k := None))"
    and exists_law: "coherent s m \<Longrightarrow> \<exists>b s'. co_exists B now k s = (Ok b, s') \<and> coherent s' m \<and>
      (b \<longrightarrow> (\<exists>v. may_read now m k (Some v)))"
    and flush_law: "coherent s m \<Longrightarrow> \<exists>s'. co_flush B s = (Ok (), s') \<and> coherent s' Map.empty"
    and matching_law: "coherent s m \<Longrightarrow> \<exists>n s'. co_delete_matching B pat s = (Ok n, s') \<and> coherent s' m"
    and weaken: "coherent s m' \<Longrightarrow> m' \<subseteq>\<^sub>m m \<Longrightarrow> coherent s m"
begin

text \<open>Runs of calls.\<close>

lemma call_coherent:
  assumes "coherent s m"
  shows "\<exists>r s'. cache_apply B c s = (Ok r, s') \<and> coherent s' (call_spec c m) \<and> call_ok c m r"
proof (cases c)
  case (CGet now k)
  then show ?thesis using get_law [OF assms, of now k] by auto
next
  case (CSet now k v ttl)
  obtain s' where "co_set B now k v ttl s = (Ok (), s')" "coherent s' (m(k \<mapsto> (v, map_option ((+) now) ttl)))"
    using set_law [OF assms] by blast
  then show ?thesis by (simp add: CSet)
next
  case (CDelete k)
  obtain b s' where "co_delete B k s = (Ok b, s')" "coherent s' (m(k := None))" using delete_law [OF assms] by blast
  then show ?thesis by (simp add: CDelete)
next
  case (CExists now k)
  obtain b s' where "co_exists B now k s = (Ok b, s')" "coherent s' m" using exists_law [OF assms] by blast
  then show ?thesis by (simp add: CExists)
next
  case CFlush
  obtain s' where "co_flush B s = (Ok (), s')" "coherent s' Map.empty" using flush_law [OF assms] by blast
  then show ?thesis by (simp add: CFlush)
next
  case (CDeleteMatching pat)
  obtain n s' where "co_delete_matching B pat s = (Ok n, s')" "coherent s' m" using matching_law [OF assms] by blast
  then show ?thesis by (simp add: CDeleteMatching)
qed

lemma run_coherent: "coherent s m \<Longrightarrow> \<exists>rs s'. cache_run B cs s = (Ok rs, s') \<and> coherent s' (fold call_spec cs m) \<and> run_ok cs m rs"
proof (induction cs arbitrary: s m)
  case (Cons c cs)
  obtain r s1 where 1: "cache_apply B c s = (Ok r, s1)" "coherent s1 (call_spec c m)" "call_ok c m r"
    using call_coherent [OF Cons.prems] by blast
  obtain rs s2 where 2: "cache_run B cs s1 = (Ok rs, s2)" "coherent s2 (fold call_spec cs (call_spec c m))"
    "run_ok cs (call_spec c m) rs" using Cons.IH [OF 1(2)] by blast
  show ?case using 1 2 by (intro exI [of _ "r # rs"] exI [of _ s2]) simp
qed simp

end

section \<open>The layer keeps the contract\<close>

definition ttl_layered :: "('s \<Rightarrow> written \<Rightarrow> bool) \<Rightarrow> 's ttl_backend \<Rightarrow> written \<Rightarrow> written \<Rightarrow> bool" where
  "ttl_layered coh s m' m \<longleftrightarrow> coh (tt_inner s) m' \<and>
     (\<forall>k v t. m' k = Some (v, t) \<longrightarrow> m k = Some (v, t) \<and> map_of (tt_expires s) k = t)"

text \<open>The layer is stricter: an entry is gone at the instant it expires.\<close>

definition may_read_strictly :: "nat \<Rightarrow> written \<Rightarrow> string \<Rightarrow> bytes option \<Rightarrow> bool" where
  "may_read_strictly now m k r \<longleftrightarrow> (case r of None \<Rightarrow> True
     | Some v \<Rightarrow> (\<exists>t. m k = Some (v, t) \<and> (case t of Some x \<Rightarrow> now < x | None \<Rightarrow> True)))"

lemma may_read_strictly: "may_read_strictly now m k r \<Longrightarrow> may_read now m k r"
  by (auto simp: may_read_def may_read_strictly_def split: option.splits)

definition ttl_coherent :: "('s \<Rightarrow> written \<Rightarrow> bool) \<Rightarrow> 's ttl_backend \<Rightarrow> written \<Rightarrow> bool" where
  "ttl_coherent coh s m \<longleftrightarrow> (\<exists>m'. ttl_layered coh s m' m)"

context cache_contract
begin

abbreviation layered :: "'s ttl_backend \<Rightarrow> written \<Rightarrow> written \<Rightarrow> bool" where
  "layered \<equiv> ttl_layered coherent"

lemma layered_inner: "layered s m' m \<Longrightarrow> coherent (tt_inner s) m'"
  by (simp add: ttl_layered_def)

lemma inner_ok: "m (tt_inner s) = (r, i) \<Longrightarrow> on_inner m s = (r, s\<lparr>tt_inner := i\<rparr>)"
  by (simp add: on_inner_def)

lemma ttl_drop_layered:
  assumes "layered s m' m"
  shows "\<exists>s'. ttl_drop B k s = (Ok (), s') \<and> layered s' (m'(k := None)) m"
proof -
  obtain b i where "co_delete B k (tt_inner s) = (Ok b, i)" "coherent i (m'(k := None))"
    using delete_law [OF layered_inner [OF assms]] by blast
  then show ?thesis
    using assms by (simp add: ttl_drop_def inner_ok expiry_remove_def ttl_layered_def AList.delete_conv')
qed

lemma ttl_get_layered:
  assumes "layered s m' m"
  shows "\<exists>r s' m''. ttl_get B now k s = (Ok r, s') \<and> layered s' m'' m \<and>
    may_read_strictly now m k r"
proof (cases "ttl_expired now k s")
  case True
  obtain s' where "ttl_drop B k s = (Ok (), s')" "layered s' (m'(k := None)) m" using ttl_drop_layered [OF assms] by blast
  with True show ?thesis by (intro exI [of _ None] exI [of _ s'] exI [of _ "m'(k := None)"]) (simp add: ttl_get_def may_read_strictly_def)
next
  case False
  obtain r i where i: "co_get B now k (tt_inner s) = (Ok r, i)" "coherent i m'" "may_read now m' k r"
    using get_law [OF layered_inner [OF assms]] by blast
  have "may_read_strictly now m k r"
    using i(3) assms False by (auto simp: may_read_def may_read_strictly_def ttl_expired_def ttl_layered_def split: option.splits)
  then show ?thesis
    using False i(1,2) assms by (intro exI [of _ r] exI [of _ "s\<lparr>tt_inner := i\<rparr>"] exI [of _ m'])
      (simp add: ttl_get_def inner_ok ttl_layered_def)
qed

lemma ttl_set_layered:
  assumes "layered s m' m"
  shows "\<exists>s'. ttl_set B now k v ttl s = (Ok (), s') \<and>
    layered s' (m'(k \<mapsto> (v, map_option ((+) now) ttl))) (m(k \<mapsto> (v, map_option ((+) now) ttl)))"
proof -
  obtain i where "co_set B now k v ttl (tt_inner s) = (Ok (), i)" "coherent i (m'(k \<mapsto> (v, map_option ((+) now) ttl)))"
    using set_law [OF layered_inner [OF assms]] by blast
  then show ?thesis
    using assms by (auto simp: ttl_set_def expiry_insert_def expiry_remove_def inner_ok ttl_layered_def AList.delete_conv' AList.update_conv'
        split: option.split)
qed

lemma ttl_delete_layered:
  assumes "layered s m' m"
  shows "\<exists>b s'. ttl_delete B k s = (Ok b, s') \<and> layered s' (m'(k := None)) (m(k := None))"
proof -
  obtain b i where "co_delete B k (tt_inner s) = (Ok b, i)" "coherent i (m'(k := None))"
    using delete_law [OF layered_inner [OF assms]] by blast
  then show ?thesis
    using assms by (simp add: ttl_delete_def expiry_remove_def inner_ok ttl_layered_def AList.delete_conv')
qed

lemma ttl_delete_all_layered: "layered s m' m \<Longrightarrow> \<exists>n s' m''. ttl_delete_all B ks s = (Ok n, s') \<and> layered s' m'' m"
proof (induction ks arbitrary: s m')
  case (Cons k ks)
  obtain b s1 where 1: "ttl_delete B k s = (Ok b, s1)" "layered s1 (m'(k := None)) (m(k := None))"
    using ttl_delete_layered [OF Cons.prems] by blast
  then have "layered s1 (m'(k := None)) m" by (auto simp: ttl_layered_def split: if_splits)
  from Cons.IH [OF this] obtain n s2 m'' where 2: "ttl_delete_all B ks s1 = (Ok n, s2)" "layered s2 m'' m" by blast
  show ?case
    by (rule exI [of _ "if b then n + 1 else n"], rule exI [of _ s2], rule exI [of _ m''])
      (simp add: 1(1) 2)
qed auto

lemma ttl_exists_layered:
  assumes "layered s m' m"
  shows "\<exists>b s' m''. ttl_exists B now k s = (Ok b, s') \<and> layered s' m'' m \<and> (b \<longrightarrow> (\<exists>v. may_read now m k (Some v)))"
proof (cases "ttl_expired now k s")
  case True
  obtain s' where "ttl_drop B k s = (Ok (), s')" "layered s' (m'(k := None)) m" using ttl_drop_layered [OF assms] by blast
  with True show ?thesis by (intro exI [of _ False] exI [of _ s'] exI [of _ "m'(k := None)"]) (simp add: ttl_exists_def)
next
  case False
  obtain b i where i: "co_exists B now k (tt_inner s) = (Ok b, i)" "coherent i m'" "b \<longrightarrow> (\<exists>v. may_read now m' k (Some v))"
    using exists_law [OF layered_inner [OF assms]] by blast
  moreover have "may_read now m k (Some v)" if "may_read now m' k (Some v)" for v
    using that assms by (auto simp: may_read_def ttl_layered_def)
  ultimately show ?thesis
    using False assms by (intro exI [of _ b] exI [of _ "s\<lparr>tt_inner := i\<rparr>"] exI [of _ m']) (auto simp: ttl_exists_def inner_ok ttl_layered_def)
qed

lemma ttl_flush_layered:
  assumes "layered s m' m"
  shows "\<exists>s'. ttl_flush B s = (Ok (), s') \<and> layered s' Map.empty Map.empty"
proof -
  obtain i where "co_flush B (tt_inner s) = (Ok (), i)" "coherent i Map.empty" using flush_law [OF layered_inner [OF assms]] by blast
  then show ?thesis by (simp add: ttl_flush_def inner_ok ttl_layered_def)
qed

lemma ttl_coherentI: "layered s m' m \<Longrightarrow> ttl_coherent coherent s m"
  unfolding ttl_coherent_def by (rule exI [of _ m'])

lemma ttl_ops_simps [simp]:
  "co_get (ttl_ops B) = ttl_get B" "co_set (ttl_ops B) = ttl_set B" "co_delete (ttl_ops B) = ttl_delete B"
  "co_exists (ttl_ops B) = ttl_exists B" "co_flush (ttl_ops B) = ttl_flush B"
  "co_delete_matching (ttl_ops B) = ttl_delete_matching B"
  by (simp_all add: ttl_ops_def)

lemma ttl_weaken:
  assumes "ttl_coherent coherent s m'" and "m' \<subseteq>\<^sub>m m"
  shows "ttl_coherent coherent s m"
proof -
  obtain m0 where m0: "layered s m0 m'" using assms(1) by (auto simp: ttl_coherent_def)
  have "m k = m' k" if "m' k = Some x" for k x using assms(2) that by (auto simp: map_le_def dom_def)
  with m0 have "layered s m0 m" by (auto simp: ttl_layered_def)
  then show ?thesis by (rule ttl_coherentI)
qed

lemma ttl_contract: "cache_contract (ttl_ops B) (ttl_coherent coherent)"
proof (intro cache_contract.intro, unfold ttl_ops_simps)
  fix s m now k
  assume "ttl_coherent coherent s m"
  then obtain m' where lay: "layered s m' m" by (auto simp: ttl_coherent_def)
  from ttl_get_layered [OF lay, of now k] obtain r s' m'' where r: "ttl_get B now k s = (Ok r, s')" "layered s' m'' m"
    "may_read_strictly now m k r" by blast
  from r(3) have "may_read now m k r" by (rule may_read_strictly)
  with r(1) ttl_coherentI [OF r(2)] show "\<exists>r s'. ttl_get B now k s = (Ok r, s') \<and> ttl_coherent coherent s' m \<and> may_read now m k r"
    by (intro exI conjI)
next
  fix s m now k v ttl
  assume "ttl_coherent coherent s m"
  then obtain m' where lay: "layered s m' m" by (auto simp: ttl_coherent_def)
  from ttl_set_layered [OF lay, of now k v ttl] obtain s' where "ttl_set B now k v ttl s = (Ok (), s')"
    "layered s' (m'(k \<mapsto> (v, map_option ((+) now) ttl))) (m(k \<mapsto> (v, map_option ((+) now) ttl)))" by blast
  then show "\<exists>s'. ttl_set B now k v ttl s = (Ok (), s') \<and> ttl_coherent coherent s' (m(k \<mapsto> (v, map_option ((+) now) ttl)))"
    by (intro exI conjI ttl_coherentI)
next
  fix s m k
  assume "ttl_coherent coherent s m"
  then obtain m' where lay: "layered s m' m" by (auto simp: ttl_coherent_def)
  from ttl_delete_layered [OF lay, of k] obtain b s' where "ttl_delete B k s = (Ok b, s')" "layered s' (m'(k := None)) (m(k := None))"
    by blast
  then show "\<exists>b s'. ttl_delete B k s = (Ok b, s') \<and> ttl_coherent coherent s' (m(k := None))" by (intro exI conjI ttl_coherentI)
next
  fix s m now k
  assume "ttl_coherent coherent s m"
  then obtain m' where lay: "layered s m' m" by (auto simp: ttl_coherent_def)
  from ttl_exists_layered [OF lay, of now k] obtain b s' m'' where "ttl_exists B now k s = (Ok b, s')" "layered s' m'' m"
    "b \<longrightarrow> (\<exists>v. may_read now m k (Some v))" by blast
  then show "\<exists>b s'. ttl_exists B now k s = (Ok b, s') \<and> ttl_coherent coherent s' m \<and> (b \<longrightarrow> (\<exists>v. may_read now m k (Some v)))"
    by (intro exI conjI ttl_coherentI)
next
  fix s m
  assume "ttl_coherent coherent s m"
  then obtain m' where lay: "layered s m' m" by (auto simp: ttl_coherent_def)
  from ttl_flush_layered [OF lay] obtain s' where "ttl_flush B s = (Ok (), s')" "layered s' Map.empty Map.empty" by blast
  then show "\<exists>s'. ttl_flush B s = (Ok (), s') \<and> ttl_coherent coherent s' Map.empty" by (intro exI conjI ttl_coherentI)
next
  fix s m pat
  assume "ttl_coherent coherent s m"
  then obtain m' where lay: "layered s m' m" by (auto simp: ttl_coherent_def)
  from ttl_delete_all_layered [OF lay, of "filter (matches_glob pat) (map fst (tt_expires s))"] obtain n s' m''
    where "ttl_delete_all B (filter (matches_glob pat) (map fst (tt_expires s))) s = (Ok n, s')" "layered s' m'' m" by blast
  then show "\<exists>n s'. ttl_delete_matching B pat s = (Ok n, s') \<and> ttl_coherent coherent s' m"
    by (intro exI conjI ttl_coherentI) (simp add: ttl_delete_matching_def)
qed (rule ttl_weaken)

end

section \<open>The LRU backend keeps the contract\<close>

definition hm_coherent :: "hm_backend \<Rightarrow> written \<Rightarrow> bool" where
  "hm_coherent s m \<longleftrightarrow> (\<forall>k e. map_of (hb_cache s) k = Some e \<longrightarrow> m k = Some (ce_value e, ce_expires_at e)) \<and>
     distinct (map fst (hb_cache s))"

lemma hm_coherentI:
  "(\<And>k e. map_of c k = Some e \<Longrightarrow> m k = Some (ce_value e, ce_expires_at e)) \<Longrightarrow> distinct (map fst c) \<Longrightarrow> hb_cache s = c \<Longrightarrow>
   hm_coherent s m"
  by (simp add: hm_coherent_def)

lemma hb_make_room_take: "\<exists>n. hb_cache (hb_make_room sz s) = take n (hb_cache s)"
proof (induction sz s rule: hb_make_room.induct)
  case (1 sz s)
  show ?case
  proof (cases "hb_max_bytes s < hb_current_bytes s + sz \<and> hb_cache s \<noteq> []")
    case True
    obtain k e where ke: "last (hb_cache s) = (k, e)" by fastforce
    let ?s = "s\<lparr>hb_cache := butlast (hb_cache s), hb_current_bytes := hb_current_bytes s - entry_size k (ce_value e),
      hb_metrics := (hb_metrics s)\<lparr>cm_evictions := cm_evictions (hb_metrics s) + 1\<rparr>\<rparr>"
    have "hb_make_room sz s = hb_make_room sz ?s" using True ke by (subst hb_make_room.simps) simp
    moreover from "1.IH" [OF True ke [symmetric]] obtain n where "hb_cache (hb_make_room sz ?s) = take n (butlast (hb_cache s))"
      by auto
    ultimately show ?thesis by (metis butlast_conv_take take_take)
  next
    case False
    then show ?thesis by (intro exI [of _ "length (hb_cache s)"]) (subst hb_make_room.simps, auto)
  qed
qed

lemma lru_put_coherent:
  assumes "distinct (map fst c)" and "map_of (lru_put cap k e (take n c)) k' = Some x" and "k' \<noteq> k"
  shows "map_of c k' = Some x"
proof -
  have "map_of (take n c) k' = Some x"
    using assms(2,3) by (auto simp: lru_put_def split: option.splits if_splits)
      (metis assms(1) distinct_butlast distinct_take in_set_butlastD map_butlast map_of_SomeD map_of_is_SomeI take_map)
  then show ?thesis
    using assms(1) by (metis in_set_takeD map_of_SomeD map_of_is_SomeI)
qed

lemma distinct_lru_put: "distinct (map fst c) \<Longrightarrow> distinct (map fst (lru_put cap k e c))"
  using lru_remove_keys [of k c]
  by (auto simp: lru_put_def map_of_eq_None_iff map_butlast distinct_butlast dest: in_set_butlastD split: option.split)

lemma hm_set_coherent:
  assumes "hm_coherent s m"
  shows "hm_coherent (snd (hb_set now k v ttl s)) (m(k \<mapsto> (v, map_option ((+) now) ttl)))"
proof -
  let ?e = "\<lparr>ce_value = v, ce_created_at = now, ce_expires_at = map_option ((+) now) ttl, ce_access_count = 0\<rparr>"
  define s1 where "s1 = (case map_of (hb_cache s) k of
      Some e \<Rightarrow> s\<lparr>hb_current_bytes := hb_current_bytes s - entry_size k (ce_value e)\<rparr> | None \<Rightarrow> s)"
  have c1: "hb_cache s1 = hb_cache s" by (simp add: s1_def split: option.split)
  obtain n where n: "hb_cache (hb_make_room (entry_size k v) s1) = take n (hb_cache s)"
    using hb_make_room_take [of "entry_size k v" s1] c1 by auto
  let ?cap = "hb_cap (hb_make_room (entry_size k v) s1)"
  have "hb_cache (snd (hb_set now k v ttl s)) = lru_put ?cap k ?e (take n (hb_cache s))"
    using n by (simp add: hb_set_def Let_def s1_def)
  moreover have d: "distinct (map fst (hb_cache s))" using assms by (simp add: hm_coherent_def)
  moreover have "(m(k \<mapsto> (v, map_option ((+) now) ttl))) k' = Some (ce_value x, ce_expires_at x)"
    if "map_of (lru_put ?cap k ?e (take n (hb_cache s))) k' = Some x" for k' x
    using that lru_put_coherent [OF d that] assms by (cases "k' = k") (auto simp: hm_coherent_def)
  moreover have "distinct (map fst (lru_put ?cap k ?e (take n (hb_cache s))))"
    using d by (intro distinct_lru_put) (simp add: distinct_take take_map [symmetric])
  ultimately show ?thesis by (intro hm_coherentI)
qed

lemma hm_remove_coherent:
  "hm_coherent s m \<Longrightarrow> hb_cache s' = lru_remove k (hb_cache s) \<Longrightarrow> hm_coherent s' (m(k := None)) \<and> hm_coherent s' m"
  by (simp add: hm_coherent_def)

lemma hm_delete_all_coherent: "hm_coherent s m \<Longrightarrow> \<exists>n s'. hb_delete_all ks s = (Ok n, s') \<and> hm_coherent s' m"
proof (induction ks arbitrary: s)
  case (Cons k ks)
  obtain d s1 where 1: "hb_delete k s = (Ok d, s1)" "hm_coherent s1 m"
    using hm_remove_coherent [OF Cons.prems] Cons.prems by (cases "map_of (hb_cache s) k") (auto simp: hb_delete_def)
  with Cons.IH [OF 1(2)] show ?case by auto
qed simp

interpretation lru_cache: cache_contract hm_ops hm_coherent
proof (intro cache_contract.intro, unfold hm_ops_def cache_ops.simps)
  fix s m now k
  assume c: "hm_coherent s m"
  show "\<exists>r s'. hb_get now k s = (Ok r, s') \<and> hm_coherent s' m \<and> may_read now m k r"
    using c hm_remove_coherent [OF c] by (auto simp: hb_get_def may_read_def entry_expired_def hm_coherent_def split: option.split)
  show "\<exists>b s'. hb_exists now k s = (Ok b, s') \<and> hm_coherent s' m \<and> (b \<longrightarrow> (\<exists>v. may_read now m k (Some v)))"
    using c by (auto simp: hb_exists_def may_read_def entry_expired_def hm_coherent_def split: option.splits)
next
  fix s m now k v ttl
  assume c: "hm_coherent s m"
  show "\<exists>s'. hb_set now k v ttl s = (Ok (), s') \<and> hm_coherent s' (m(k \<mapsto> (v, map_option ((+) now) ttl)))"
    using hm_set_coherent [OF c, of now k v ttl] by (auto simp: hb_set_def Let_def)
next
  fix s m k
  assume c: "hm_coherent s m"
  show "\<exists>b s'. hb_delete k s = (Ok b, s') \<and> hm_coherent s' (m(k := None))"
    using c by (auto simp: hb_delete_def hm_coherent_def split: option.split)
next
  fix s m
  assume "hm_coherent s m"
  show "\<exists>s'. hb_flush s = (Ok (), s') \<and> hm_coherent s' Map.empty" by (simp add: hb_flush_def hm_coherent_def)
next
  fix s m pat
  assume c: "hm_coherent s m"
  show "\<exists>n s'. hb_delete_matching pat s = (Ok n, s') \<and> hm_coherent s' m"
    using hm_delete_all_coherent [OF c] by (simp add: hb_delete_matching_def hb_keys_def)
next
  fix s m' m
  assume "hm_coherent s m'" and "m' \<subseteq>\<^sub>m m"
  then show "hm_coherent s m" by (auto simp: hm_coherent_def map_le_def dom_def)
qed

interpretation ttl_cache: cache_contract "ttl_ops hm_ops" "ttl_coherent hm_coherent"
  by (rule lru_cache.ttl_contract)

section \<open>Properties\<close>

text \<open>C28: A cache never answers with anything but the last write. For every run of reads, writes,
  existence tests, deletions and flushes on a new LRU cache under the TTL layer, each read ends and
  returns nothing, or the value last written to the key and not deleted or expired since.\<close>

theorem cache_never_stale:
  "\<exists>rs s'. cache_run (ttl_ops hm_ops) cs (ttl_new (hb_new n metrics)) = (Ok rs, s') \<and> run_ok cs Map.empty rs"
proof -
  have "hm_coherent (hb_new n metrics) Map.empty" by (simp add: hm_coherent_def hb_new_def)
  then have "ttl_coherent hm_coherent (ttl_new (hb_new n metrics)) Map.empty"
    by (auto simp: ttl_coherent_def ttl_layered_def ttl_new_def)
  from ttl_cache.run_coherent [OF this] show ?thesis by blast
qed

text \<open>Invalidation by pattern passes over entries without a TTL. Under the TTL layer an
  invalidation event for a pattern, whatever the pattern, leaves an entry that was written without a
  TTL where it is, and the next read returns it.\<close>

theorem ttl_invalidation_misses:
  assumes "map_of (hb_cache (tt_inner s)) k = Some e" and "ce_expires_at e = None" and "map_of (tt_expires s) k = None"
  shows "\<exists>s'. manager_on_event (ttl_ops hm_ops) (''cache.invalidate.pattern.'' @ pat) s = (Ok (), s') \<and>
    fst (ttl_get hm_ops now k s') = Ok (Some (ce_value e))"
proof -
  have del: "\<exists>b s'. ttl_delete hm_ops k' s = (Ok b, s') \<and> map_of (hb_cache (tt_inner s')) k = Some e \<and> map_of (tt_expires s') k = None"
    if "k' \<noteq> k" "map_of (hb_cache (tt_inner s)) k = Some e" "map_of (tt_expires s) k = None" for k' s
    using that by (auto simp: ttl_delete_def expiry_remove_def on_inner_def hm_ops_def hb_delete_def AList.delete_conv' split: option.split)
  have "\<exists>n s'. ttl_delete_all hm_ops ks s = (Ok n, s') \<and> map_of (hb_cache (tt_inner s')) k = Some e \<and> map_of (tt_expires s') k = None"
    if "k \<notin> set ks" "map_of (hb_cache (tt_inner s)) k = Some e" "map_of (tt_expires s) k = None" for ks s
    using that
  proof (induction ks arbitrary: s)
    case (Cons k' ks)
    then obtain b s1 where 1: "ttl_delete hm_ops k' s = (Ok b, s1)" "map_of (hb_cache (tt_inner s1)) k = Some e"
      "map_of (tt_expires s1) k = None" using del [of k' s] by auto
    with Cons.IH [OF _ 1(2,3)] Cons.prems(1) show ?case by auto
  qed simp
  moreover have "k \<notin> set (filter (matches_glob pat) (map fst (tt_expires s)))"
    using assms(3) by (auto simp: map_of_eq_None_iff)
  ultimately obtain n s' where s': "ttl_delete_matching hm_ops pat s = (Ok n, s')"
    "map_of (hb_cache (tt_inner s')) k = Some e" "map_of (tt_expires s') k = None"
    using assms(1,3) unfolding ttl_delete_matching_def by fastforce
  have "strip_prefix ''cache.invalidate.'' (''cache.invalidate.pattern.'' @ pat) = Some (''pattern.'' @ pat)"
    "strip_prefix ''pattern.'' (''pattern.'' @ pat) = Some pat" by (simp_all add: strip_prefix_def)
  then have "manager_on_event (ttl_ops hm_ops) (''cache.invalidate.pattern.'' @ pat) s = (Ok (), s')"
    unfolding manager_on_event_def using s'(1) by (simp add: ttl_ops_def)
  moreover have "ttl_get hm_ops now k s' = on_inner (hb_get now k) s'"
    using s'(3) by (simp add: ttl_get_def ttl_expired_def sbind_def hm_ops_def)
  then have "fst (ttl_get hm_ops now k s') = Ok (Some (ce_value e))"
    using s'(2) assms(2) by (simp add: on_inner_def hb_get_def entry_expired_def)
  ultimately show ?thesis by blast
qed

definition example_ttl_cache :: "hm_backend ttl_backend" where
  "example_ttl_cache = snd (ttl_set hm_ops 0 ''user:1'' [7] None (ttl_new (hb_new 1000 cache_metrics_default)))"

theorem ttl_invalidation_misses_witness:
  "\<exists>s'. manager_on_event (ttl_ops hm_ops) ''cache.invalidate.pattern.user:*'' example_ttl_cache = (Ok (), s') \<and>
     fst (ttl_get hm_ops 9 ''user:1'' s') = Ok (Some [7])"
proof -
  have "map_of (hb_cache (tt_inner example_ttl_cache)) ''user:1'' =
      Some \<lparr>ce_value = [7], ce_created_at = 0, ce_expires_at = None, ce_access_count = 0\<rparr>"
    "map_of (tt_expires example_ttl_cache) ''user:1'' = None"
    by (simp_all add: example_ttl_cache_def ttl_set_def expiry_remove_def on_inner_def hm_ops_def hb_set_def Let_def ttl_new_def
        hb_new_def hb_make_room.simps lru_put_def)
  from ttl_invalidation_misses [OF this(1) _ this(2), of "''user:*''" 9] show ?thesis by simp
qed

end
