(* ===== verification/Auth_Types.thy ===== *)
theory Auth_Types
  imports Exec_Types
begin

text \<open>
  The data of \<open>nova-auth\<close> (\<open>types.rs\<close>, \<open>error.rs\<close>): sessions, credentials, users, keys, roles and the
  configuration, and the first of the two password checks. Times are signed 64-bit words in
  milliseconds, clock readings are arguments, and random tokens and ids are arguments too. Passwords
  are strings of ASCII characters; a map that is only carried is an association list.
\<close>

section \<open>Errors\<close>

datatype auth_error =
    AuthenticationFailed string
  | AuthorizationDenied string
  | InvalidCredentials string
  | SessionExpired string
  | SessionNotFound string
  | TokenInvalid string
  | TokenExpired string
  | MfaRequired
  | MfaFailed string
  | AccountLocked string
  | RateLimited u64
  | PasswordPolicyViolation string
  | ProviderNotFound string
  | AuthInvalidArgument string
  | AuthInternal string
  | AuthStorage string
  | AuthSecurity string

definition auth_error_from :: "runtime_error \<Rightarrow> auth_error" where
  "auth_error_from e = AuthStorage (runtime_error_display e)"

type_synonym 'a auth_result_of = "(auth_error, 'a) outcome"

section \<open>Records\<close>

datatype credential_type = CtPassword | CtToken | CtApiKey | CtJwt | CtOAuth2 | CtMfaTotp | CtSession

type_synonym uuid = "128 word"

record session =
  ss_id :: uuid
  ss_user_id :: uuid
  ss_username :: string
  ss_token :: string
  ss_token_type :: string
  ss_roles :: "string list"
  ss_permissions :: "string list"
  ss_metadata :: "(string \<times> string) list"
  ss_created_at :: i64
  ss_expires_at :: i64
  ss_last_activity_at :: i64
  ss_revoked :: bool
  ss_mfa_verified :: bool
  ss_source_ip :: "string option"
  ss_user_agent :: "string option"

definition session_new :: "i64 \<Rightarrow> string \<Rightarrow> uuid \<Rightarrow> uuid \<Rightarrow> string \<Rightarrow> u32 \<Rightarrow> session" where
  "session_new now token fresh uid username ttl_secs = \<lparr>ss_id = fresh, ss_user_id = uid, ss_username = username,
     ss_token = token, ss_token_type = ''bearer'', ss_roles = [], ss_permissions = [], ss_metadata = [],
     ss_created_at = now, ss_expires_at = now + ucast ttl_secs * 1000, ss_last_activity_at = now,
     ss_revoked = False, ss_mfa_verified = False, ss_source_ip = None, ss_user_agent = None\<rparr>"

definition session_is_expired :: "i64 \<Rightarrow> session \<Rightarrow> bool" where
  "session_is_expired now s \<longleftrightarrow> ss_expires_at s \<le>s now"

definition session_is_valid :: "i64 \<Rightarrow> session \<Rightarrow> bool" where
  "session_is_valid now s \<longleftrightarrow> \<not> ss_revoked s \<and> \<not> session_is_expired now s"

definition session_touch :: "i64 \<Rightarrow> session \<Rightarrow> session" where
  "session_touch now s = s\<lparr>ss_last_activity_at := now\<rparr>"

record credential =
  cd_id :: uuid
  cd_user_id :: uuid
  cd_credential_type :: credential_type
  cd_identifier :: string
  cd_secret_hash :: string
  cd_salt :: "string option"
  cd_algorithm :: string
  cd_created_at :: i64
  cd_expires_at :: "i64 option"
  cd_locked_until :: "i64 option"
  cd_failed_attempts :: u32
  cd_metadata :: "(string \<times> string) list"

definition credential_new :: "i64 \<Rightarrow> uuid \<Rightarrow> uuid \<Rightarrow> string \<Rightarrow> string \<Rightarrow> string \<Rightarrow> credential" where
  "credential_new now fresh uid identifier secret_hash algo = \<lparr>cd_id = fresh, cd_user_id = uid,
     cd_credential_type = CtPassword, cd_identifier = identifier, cd_secret_hash = secret_hash, cd_salt = None,
     cd_algorithm = algo, cd_created_at = now, cd_expires_at = None, cd_locked_until = None,
     cd_failed_attempts = 0, cd_metadata = []\<rparr>"

record user_record =
  ur_id :: uuid
  ur_username :: string
  ur_password_hash :: string
  ur_roles :: "string list"
  ur_created_at :: i64
  ur_updated_at :: i64

record api_key_record =
  ak_id :: uuid
  ak_name :: string
  ak_key_hash :: string
  ak_prefix :: string
  ak_permissions :: "string list"
  ak_created_at :: i64
  ak_expires_at :: "i64 option"
  ak_enabled :: bool

record auth_result =
  ax_success :: bool
  ax_session :: "session option"
  ax_user_id :: "uuid option"
  ax_username :: "string option"
  ax_roles :: "string list"
  ax_permissions :: "string list"
  ax_mfa_required :: bool
  ax_error_message :: "string option"
  ax_retry_after_ms :: "u64 option"

record permission_request =
  pr_user_id :: uuid
  pr_action :: string
  pr_resource :: string
  pr_context :: "(string \<times> string) list"

record role =
  ro_name :: string
  ro_description :: string
  ro_permissions :: "string list"
  ro_created_at :: i64

record auth_config =
  ac_session_ttl_secs :: u32
  ac_max_active_sessions :: u32
  ac_token_length_bytes :: nat
  ac_mfa_issuer :: string
  ac_mfa_window :: u8
  ac_bcrypt_cost :: u32
  ac_max_failed_attempts :: u32
  ac_lockout_duration_secs :: u64
  ac_enable_brute_force_detection :: bool
  ac_session_cache_size :: nat
  ac_password_min_length :: u8
  ac_password_max_length :: u8
  ac_password_min_lowercase :: u8
  ac_password_min_uppercase :: u8
  ac_password_min_digits :: u8
  ac_password_min_special :: u8

definition auth_config_default :: auth_config where
  "auth_config_default = \<lparr>ac_session_ttl_secs = 86400, ac_max_active_sessions = 100, ac_token_length_bytes = 32,
     ac_mfa_issuer = ''Nova Runtime'', ac_mfa_window = 1, ac_bcrypt_cost = 12, ac_max_failed_attempts = 5,
     ac_lockout_duration_secs = 900, ac_enable_brute_force_detection = True, ac_session_cache_size = 100000,
     ac_password_min_length = 8, ac_password_max_length = 128, ac_password_min_lowercase = 1,
     ac_password_min_uppercase = 1, ac_password_min_digits = 1, ac_password_min_special = 0\<rparr>"

section \<open>Character classes\<close>

definition ascii_between :: "nat \<Rightarrow> nat \<Rightarrow> char \<Rightarrow> bool" where
  "ascii_between lo hi c \<longleftrightarrow> lo \<le> of_char c \<and> of_char c \<le> hi"

definition is_lowercase :: "char \<Rightarrow> bool" where "is_lowercase c = ascii_between 97 122 c"
definition is_uppercase :: "char \<Rightarrow> bool" where "is_uppercase c = ascii_between 65 90 c"
definition is_ascii_digit :: "char \<Rightarrow> bool" where "is_ascii_digit c = ascii_between 48 57 c"
definition is_alphanumeric :: "char \<Rightarrow> bool" where
  "is_alphanumeric c \<longleftrightarrow> is_lowercase c \<or> is_uppercase c \<or> is_ascii_digit c"

definition count_chars :: "(char \<Rightarrow> bool) \<Rightarrow> string \<Rightarrow> nat" where
  "count_chars f s = length (filter f s)"

section \<open>\<open>validate_password\<close>\<close>

text \<open>Lengths and counts are truncated to eight bits before they are compared.\<close>

definition policy_check :: "bool \<Rightarrow> string \<Rightarrow> u8 \<Rightarrow> string \<Rightarrow> string list" where
  "policy_check bad before bound after = (if bad then [before @ nat_string (unat bound) @ after] else [])"

definition validate_password :: "string \<Rightarrow> auth_config \<Rightarrow> (string list, unit) outcome" where
  "validate_password password cfg =
     (let len = of_nat (length password) :: u8;
          lowercase = of_nat (count_chars is_lowercase password) :: u8;
          uppercase = of_nat (count_chars is_uppercase password) :: u8;
          digits = of_nat (count_chars is_ascii_digit password) :: u8;
          special = of_nat (count_chars (\<lambda>c. \<not> is_alphanumeric c) password) :: u8;
          errors =
            policy_check (len < ac_password_min_length cfg) ''Password must be at least '' (ac_password_min_length cfg) '' characters'' @
            policy_check (ac_password_max_length cfg < len) ''Password must be at most '' (ac_password_max_length cfg) '' characters'' @
            policy_check (lowercase < ac_password_min_lowercase cfg) ''Password must have at least '' (ac_password_min_lowercase cfg) '' lowercase character(s)'' @
            policy_check (uppercase < ac_password_min_uppercase cfg) ''Password must have at least '' (ac_password_min_uppercase cfg) '' uppercase character(s)'' @
            policy_check (digits < ac_password_min_digits cfg) ''Password must have at least '' (ac_password_min_digits cfg) '' digit(s)'' @
            policy_check (special < ac_password_min_special cfg) ''Password must have at least '' (ac_password_min_special cfg) '' special character(s)''
      in if errors = [] then Ok () else Err errors)"

lemma validate_password_Ok:
  "validate_password password cfg = Ok () \<longleftrightarrow>
     unat (ac_password_min_length cfg) \<le> length password mod 256 \<and> length password mod 256 \<le> unat (ac_password_max_length cfg) \<and>
     unat (ac_password_min_lowercase cfg) \<le> count_chars is_lowercase password mod 256 \<and>
     unat (ac_password_min_uppercase cfg) \<le> count_chars is_uppercase password mod 256 \<and>
     unat (ac_password_min_digits cfg) \<le> count_chars is_ascii_digit password mod 256 \<and>
     unat (ac_password_min_special cfg) \<le> count_chars (\<lambda>c. \<not> is_alphanumeric c) password mod 256"
  by (simp add: validate_password_def policy_check_def Let_def word_less_nat_alt unat_of_nat not_less)

end
