(* ===== verification/Auth_Guard.thy ===== *)
theory Auth_Guard
  imports Auth_Types "HOL-Library.AList"
begin

text \<open>
  The guards of \<open>nova-auth\<close>: the detector of repeated failures (\<open>brute_force.rs\<close>), the sessions
  (\<open>session.rs\<close>) and the password policy (\<open>password_policy.rs\<close>). An \<open>Instant\<close> is its number of
  nanoseconds. The concurrent map of sessions is an association list, in the order it is visited.
\<close>

section \<open>Repeated failures\<close>

record detector =
  bf_attempts :: "string \<Rightarrow> nat list option"
  bf_max_attempts :: u32
  bf_window_secs :: u64
  bf_lockout_duration_secs :: u64
  bf_locked :: "string \<Rightarrow> nat option"

definition bf_new :: "u32 \<Rightarrow> u64 \<Rightarrow> u64 \<Rightarrow> detector" where
  "bf_new max_attempts window_secs lockout_secs = \<lparr>bf_attempts = Map.empty, bf_max_attempts = max_attempts,
     bf_window_secs = window_secs, bf_lockout_duration_secs = lockout_secs, bf_locked = Map.empty\<rparr>"

text \<open>Attempts older than the window leave at the front.\<close>

definition bf_prune :: "nat \<Rightarrow> detector \<Rightarrow> nat list \<Rightarrow> nat list" where
  "bf_prune now b ts = dropWhile (\<lambda>t. from_secs (unat (bf_window_secs b)) < now - t) ts"

definition bf_record_failure :: "nat \<Rightarrow> string \<Rightarrow> detector \<Rightarrow> detector" where
  "bf_record_failure now i b =
     (let ts = bf_prune now b ((case bf_attempts b i of Some ts \<Rightarrow> ts | None \<Rightarrow> []) @ [now]);
          b' = b\<lparr>bf_attempts := (bf_attempts b)(i \<mapsto> ts)\<rparr>
      in if unat (bf_max_attempts b) \<le> length ts
         then b'\<lparr>bf_locked := (bf_locked b)(i \<mapsto> now + from_secs (unat (bf_lockout_duration_secs b)))\<rparr>
         else b')"

definition bf_record_success :: "string \<Rightarrow> detector \<Rightarrow> detector" where
  "bf_record_success i b = b\<lparr>bf_attempts := (bf_attempts b)(i := None), bf_locked := (bf_locked b)(i := None)\<rparr>"

definition bf_is_locked :: "nat \<Rightarrow> string \<Rightarrow> detector \<Rightarrow> bool \<times> detector" where
  "bf_is_locked now i b =
     (case bf_locked b i of
        Some t \<Rightarrow> if now < t then (True, b)
          else (False, b\<lparr>bf_locked := (bf_locked b)(i := None), bf_attempts := (bf_attempts b)(i := None)\<rparr>)
      | None \<Rightarrow> (False, b))"

definition bf_remaining_lockout_ms :: "nat \<Rightarrow> string \<Rightarrow> detector \<Rightarrow> u64" where
  "bf_remaining_lockout_ms now i b = (case bf_locked b i of Some t \<Rightarrow> of_nat (as_millis (t - now)) | None \<Rightarrow> 0)"

definition bf_failure_count :: "string \<Rightarrow> detector \<Rightarrow> nat" where
  "bf_failure_count i b = (case bf_attempts b i of Some ts \<Rightarrow> length ts | None \<Rightarrow> 0)"

definition bf_cleanup :: "nat \<Rightarrow> detector \<Rightarrow> detector" where
  "bf_cleanup now b = b\<lparr>
     bf_attempts := (\<lambda>i. case bf_attempts b i of
         Some ts \<Rightarrow> (case bf_prune now b ts of [] \<Rightarrow> None | ts' \<Rightarrow> Some ts')
       | None \<Rightarrow> None),
     bf_locked := (\<lambda>i. case bf_locked b i of Some t \<Rightarrow> if now < t then Some t else None | None \<Rightarrow> None)\<rparr>"

section \<open>Sessions\<close>

record session_manager =
  sm_sessions :: "(string \<times> session) list"
  sm_auth_config :: auth_config

definition sm_new :: "auth_config \<Rightarrow> session_manager" where
  "sm_new cfg = \<lparr>sm_sessions = [], sm_auth_config = cfg\<rparr>"

definition create_session_with_roles :: "i64 \<Rightarrow> string \<Rightarrow> uuid \<Rightarrow> uuid \<Rightarrow> string \<Rightarrow> string list \<Rightarrow> string list \<Rightarrow> session_manager \<Rightarrow>
    session \<times> session_manager" where
  "create_session_with_roles now token fresh uid username roles permissions m =
     (let s = (session_new now token fresh uid username (ac_session_ttl_secs (sm_auth_config m)))
            \<lparr>ss_roles := roles, ss_permissions := permissions\<rparr>
      in (s, m\<lparr>sm_sessions := AList.update token s (sm_sessions m)\<rparr>))"

definition create_session :: "i64 \<Rightarrow> string \<Rightarrow> uuid \<Rightarrow> uuid \<Rightarrow> string \<Rightarrow> session_manager \<Rightarrow> session \<times> session_manager" where
  "create_session now token fresh uid username m =
     (let s = session_new now token fresh uid username (ac_session_ttl_secs (sm_auth_config m))
      in (s, m\<lparr>sm_sessions := AList.update token s (sm_sessions m)\<rparr>))"

definition get_session :: "i64 \<Rightarrow> string \<Rightarrow> session_manager \<Rightarrow> session auth_result_of" where
  "get_session now token m =
     (case map_of (sm_sessions m) token of
        None \<Rightarrow> Err (SessionNotFound ''session not found'')
      | Some s \<Rightarrow>
          if session_is_expired now s then Err (SessionExpired ''session has expired'')
          else if ss_revoked s then Err (SessionNotFound ''session has been revoked'')
          else Ok s)"

definition change_session :: "(session \<Rightarrow> session) \<Rightarrow> string \<Rightarrow> session_manager \<Rightarrow> unit auth_result_of \<times> session_manager" where
  "change_session f token m =
     (case map_of (sm_sessions m) token of
        None \<Rightarrow> (Err (SessionNotFound ''session not found''), m)
      | Some s \<Rightarrow> (Ok (), m\<lparr>sm_sessions := AList.update token (f s) (sm_sessions m)\<rparr>))"

definition revoke_session :: "string \<Rightarrow> session_manager \<Rightarrow> unit auth_result_of \<times> session_manager" where
  "revoke_session = change_session (\<lambda>s. s\<lparr>ss_revoked := True\<rparr>)"

definition touch_session :: "i64 \<Rightarrow> string \<Rightarrow> session_manager \<Rightarrow> unit auth_result_of \<times> session_manager" where
  "touch_session now = change_session (session_touch now)"

text \<open>Entries are removed by the token they carry.\<close>

definition remove_tokens :: "(session \<Rightarrow> bool) \<Rightarrow> session_manager \<Rightarrow> nat \<times> session_manager" where
  "remove_tokens f m =
     (let tokens = map (\<lambda>e. ss_token (snd e)) (filter (\<lambda>e. f (snd e)) (sm_sessions m))
      in (length tokens, m\<lparr>sm_sessions := fold AList.delete tokens (sm_sessions m)\<rparr>))"

definition revoke_user_sessions :: "uuid \<Rightarrow> session_manager \<Rightarrow> u32 \<times> session_manager" where
  "revoke_user_sessions uid m = (case remove_tokens (\<lambda>s. ss_user_id s = uid) m of (n, m') \<Rightarrow> (of_nat n, m'))"

definition cleanup_expired :: "i64 \<Rightarrow> session_manager \<Rightarrow> u64 \<times> session_manager" where
  "cleanup_expired now m = (case remove_tokens (\<lambda>s. session_is_expired now s \<or> ss_revoked s) m of (n, m') \<Rightarrow> (of_nat n, m'))"

definition active_session_count :: "i64 \<Rightarrow> uuid \<Rightarrow> session_manager \<Rightarrow> nat" where
  "active_session_count now uid m = length (filter (\<lambda>e. ss_user_id (snd e) = uid \<and> session_is_valid now (snd e)) (sm_sessions m))"

section \<open>The password policy\<close>

fun contains_lower :: "string \<Rightarrow> string \<Rightarrow> bool" where
  "contains_lower s pat = contains_str (map (\<lambda>c. if is_uppercase c then char_of (of_char c + 32 :: nat) else c) s) pat"

definition validate_with_details :: "auth_config \<Rightarrow> string \<Rightarrow> string list" where
  "validate_with_details cfg password =
     (let len = length password in
      policy_check (len < unat (ac_password_min_length cfg)) ''Password must be at least '' (ac_password_min_length cfg) '' characters long'' @
      policy_check (unat (ac_password_max_length cfg) < len) ''Password must be at most '' (ac_password_max_length cfg) '' characters long'' @
      policy_check (count_chars is_lowercase password < unat (ac_password_min_lowercase cfg)) ''Password must contain at least '' (ac_password_min_lowercase cfg) '' lowercase character(s)'' @
      policy_check (count_chars is_uppercase password < unat (ac_password_min_uppercase cfg)) ''Password must contain at least '' (ac_password_min_uppercase cfg) '' uppercase character(s)'' @
      policy_check (count_chars is_ascii_digit password < unat (ac_password_min_digits cfg)) ''Password must contain at least '' (ac_password_min_digits cfg) '' digit(s)'' @
      policy_check (count_chars (\<lambda>c. \<not> is_alphanumeric c) password < unat (ac_password_min_special cfg)) ''Password must contain at least '' (ac_password_min_special cfg) '' special character(s)'' @
      (if contains_lower password ''password'' then [''Password must not contain the word '' @ [CHR 0x27] @ ''password'' @ [CHR 0x27]] else []) @
      (if list_all is_ascii_digit password then [''Password must not be entirely numeric''] else []))"

fun join_errors :: "string list \<Rightarrow> string" where
  "join_errors [] = []"
| "join_errors [e] = e"
| "join_errors (e # es) = e @ ''; '' @ join_errors es"

definition policy_validate :: "auth_config \<Rightarrow> string \<Rightarrow> unit auth_result_of" where
  "policy_validate cfg password =
     (let errors = validate_with_details cfg password
      in if errors = [] then Ok () else Err (PasswordPolicyViolation (join_errors errors)))"

definition points :: "bool \<Rightarrow> u8 \<Rightarrow> u8" where "points b n = (if b then n else 0)"

definition estimate_strength :: "string \<Rightarrow> u8" where
  "estimate_strength password =
     (let len = length password;
          lower = list_ex is_lowercase password; upper = list_ex is_uppercase password;
          digit = list_ex is_ascii_digit password; special = list_ex (\<lambda>c. \<not> is_alphanumeric c) password
      in min (points (8 \<le> len) 10 + points (12 \<le> len) 10 + points (16 \<le> len) 10 + points (24 \<le> len) 10 +
        points lower 10 + points upper 10 + points digit 10 + points special 10 +
        points (lower \<and> upper \<and> digit \<and> special) 20) 100)"

section \<open>Lemmas on the detector\<close>

text \<open>The detector locks after the allowed failures. When the failures of one name all fall
  within one window, without a success in between, the name is locked after the last of them and
  stays locked for the lockout time.\<close>

theorem brute_force_locks:
  assumes "stamps \<noteq> []" and "unat (bf_max_attempts b) \<le> length stamps" and "bf_attempts b i = None"
    and "\<And>t. t \<in> set stamps \<Longrightarrow> t \<le> last stamps \<and> last stamps - t \<le> from_secs (unat (bf_window_secs b))"
    and "now < last stamps + from_secs (unat (bf_lockout_duration_secs b))" and "sorted stamps"
  shows "fst (bf_is_locked now i (foldl (\<lambda>b t. bf_record_failure t i b) b stamps))"
proof -
  let ?w = "from_secs (unat (bf_window_secs b))"
  have run: "bf_attempts (foldl (\<lambda>b t. bf_record_failure t i b) b ts) i = (if ts = [] then None else Some ts) \<and>
      bf_window_secs (foldl (\<lambda>b t. bf_record_failure t i b) b ts) = bf_window_secs b \<and>
      bf_max_attempts (foldl (\<lambda>b t. bf_record_failure t i b) b ts) = bf_max_attempts b \<and>
      bf_lockout_duration_secs (foldl (\<lambda>b t. bf_record_failure t i b) b ts) = bf_lockout_duration_secs b"
    if "\<forall>t \<in> set ts. \<forall>u \<in> set ts. t - u \<le> ?w" for ts
    using that
  proof (induction ts rule: rev_induct)
    case (snoc t ts)
    have "dropWhile (\<lambda>u. ?w < t - u) (ts @ [t]) = ts @ [t]"
    proof (cases ts)
      case (Cons u us)
      then have "t - u \<le> ?w" using snoc.prems by simp
      then show ?thesis using Cons by simp
    qed simp
    then show ?case
      using snoc assms(3) by (auto simp: bf_record_failure_def bf_prune_def Let_def)
  qed (simp add: assms(3))
  obtain ts t where ts: "stamps = ts @ [t]" using assms(1) by (metis rev_exhaust)
  have near: "\<forall>x \<in> set stamps. \<forall>u \<in> set stamps. x - u \<le> ?w"
  proof (intro ballI)
    fix x u assume "x \<in> set stamps" "u \<in> set stamps"
    then have "x \<le> last stamps" "last stamps - u \<le> ?w" using assms(4) by auto
    then show "x - u \<le> ?w" by linarith
  qed
  let ?b = "foldl (\<lambda>b t. bf_record_failure t i b) b ts"
  have b: "bf_attempts ?b i = (if ts = [] then None else Some ts)" "bf_window_secs ?b = bf_window_secs b"
    "bf_max_attempts ?b = bf_max_attempts b" "bf_lockout_duration_secs ?b = bf_lockout_duration_secs b"
    using run [of ts] near ts by auto
  have "bf_prune t ?b (ts @ [t]) = ts @ [t]"
  proof (cases ts)
    case (Cons u us)
    then have "t - u \<le> ?w" using near ts by auto
    then show ?thesis using Cons b(2) by (simp add: bf_prune_def)
  qed (simp add: bf_prune_def)
  then have "bf_locked (bf_record_failure t i ?b) i = Some (t + from_secs (unat (bf_lockout_duration_secs b)))"
    using b assms(2) ts by (auto simp: bf_record_failure_def Let_def split: if_splits)
  then show ?thesis using assms(5) ts by (simp add: bf_is_locked_def)
qed

theorem brute_force_locks_witness:
  "fst (bf_is_locked 60000000000 ''u'' (foldl (\<lambda>b t. bf_record_failure t ''u'' b) (bf_new 3 300 900) [1000000000, 2000000000, 3000000000]))"
proof -
  have "t \<le> last [1000000000, 2000000000, 3000000000] \<and>
      last [1000000000, 2000000000, 3000000000] - t \<le> from_secs (unat (bf_window_secs (bf_new 3 300 900)))"
    if "t \<in> set [1000000000, 2000000000, 3000000000]" for t :: nat
    using that by (auto simp: bf_new_def from_secs_def)
  then show ?thesis
    by (intro brute_force_locks) (simp_all add: bf_new_def from_secs_def)
qed

end
