(* ===== verification/Rbac.thy ===== *)
theory Rbac
  imports Auth_Types
begin

text \<open>
  Role-based access control (\<open>nova-auth/src/rbac.rs\<close>): role definitions and the roles of users, the
  matching of permission patterns, and that an evaluation says exactly what the last definitions and
  assignments grant.
\<close>

section \<open>The code\<close>

record rbac =
  rb_roles :: "string \<Rightarrow> role option"
  rb_user_roles :: "uuid \<Rightarrow> string list option"

definition rbac_new :: rbac where
  "rbac_new = \<lparr>rb_roles = Map.empty, rb_user_roles = Map.empty\<rparr>"

definition define_role :: "role \<Rightarrow> rbac \<Rightarrow> rbac" where
  "define_role r b = b\<lparr>rb_roles := (rb_roles b)(ro_name r \<mapsto> r)\<rparr>"

definition remove_role :: "string \<Rightarrow> rbac \<Rightarrow> rbac" where
  "remove_role name b = b\<lparr>rb_roles := (rb_roles b)(name := None),
     rb_user_roles := (\<lambda>u. map_option (filter (\<lambda>r. r \<noteq> name)) (rb_user_roles b u))\<rparr>"

definition assign_role :: "uuid \<Rightarrow> string \<Rightarrow> rbac \<Rightarrow> (string, unit) outcome \<times> rbac" where
  "assign_role u name b =
     (if rb_roles b name = None then (Err (''Role '' @ [CHR 0x27] @ name @ [CHR 0x27] @ '' not defined''), b)
      else (Ok (), b\<lparr>rb_user_roles := (rb_user_roles b)(u \<mapsto>
        (case rb_user_roles b u of Some rs \<Rightarrow> rs | None \<Rightarrow> []) @ [name])\<rparr>))"

definition unassign_role :: "uuid \<Rightarrow> string \<Rightarrow> rbac \<Rightarrow> rbac" where
  "unassign_role u name b =
     (case rb_user_roles b u of
        Some rs \<Rightarrow> b\<lparr>rb_user_roles := (rb_user_roles b)(u \<mapsto> filter (\<lambda>r. r \<noteq> name) rs)\<rparr>
      | None \<Rightarrow> b)"

text \<open>\<open>split_once\<close> at the first colon.\<close>

fun split_once :: "char \<Rightarrow> string \<Rightarrow> (string \<times> string) option" where
  "split_once c [] = None"
| "split_once c (x # xs) =
     (if x = c then Some ([], xs)
      else case split_once c xs of Some (a, b) \<Rightarrow> Some (x # a, b) | None \<Rightarrow> None)"

definition permission_matches :: "string \<Rightarrow> string \<Rightarrow> bool" where
  "permission_matches pat target \<longleftrightarrow> pat = ''*:*'' \<or> pat = target \<or>
     (case (split_once (CHR '':'') pat, split_once (CHR '':'') target) of
        (Some (p_action, p_resource), Some (t_action, t_resource)) \<Rightarrow>
          p_action = ''*'' \<and> p_resource = t_resource \<or> p_resource = ''*'' \<and> p_action = t_action
      | _ \<Rightarrow> False)"

definition user_permissions :: "rbac \<Rightarrow> uuid \<Rightarrow> string set" where
  "user_permissions b u =
     (case rb_user_roles b u of
        Some names \<Rightarrow> (\<Union>n \<in> set names. case rb_roles b n of Some r \<Rightarrow> set (ro_permissions r) | None \<Rightarrow> {})
      | None \<Rightarrow> {})"

definition has_permission :: "rbac \<Rightarrow> uuid \<Rightarrow> string \<Rightarrow> bool" where
  "has_permission b u permission \<longleftrightarrow> (\<exists>p \<in> user_permissions b u. permission_matches p permission)"

definition has_any_permission :: "rbac \<Rightarrow> uuid \<Rightarrow> string list \<Rightarrow> bool" where
  "has_any_permission b u permissions \<longleftrightarrow> list_ex (has_permission b u) permissions"

definition has_all_permissions :: "rbac \<Rightarrow> uuid \<Rightarrow> string list \<Rightarrow> bool" where
  "has_all_permissions b u permissions \<longleftrightarrow> list_all (has_permission b u) permissions"

definition rbac_evaluate :: "rbac \<Rightarrow> permission_request \<Rightarrow> bool" where
  "rbac_evaluate b req = has_permission b (pr_user_id req) (pr_action req @ '':'' @ pr_resource req)"

definition user_role_names :: "rbac \<Rightarrow> uuid \<Rightarrow> string list" where
  "user_role_names b u = (case rb_user_roles b u of Some rs \<Rightarrow> rs | None \<Rightarrow> [])"

section \<open>Matching\<close>

lemma split_once_colon: "CHR '':'' \<notin> set a \<Longrightarrow> split_once (CHR '':'') (a @ CHR '':'' # r) = Some (a, r)"
  by (induction a) auto

lemma split_once_Some: "split_once c s = Some (a, r) \<Longrightarrow> s = a @ c # r"
proof (induction s arbitrary: a)
  case (Cons x s)
  then show ?case by (cases "x = c") (auto split: option.splits)
qed simp

text \<open>What a pattern grants of an action on a resource.\<close>

definition grants :: "string \<Rightarrow> string \<Rightarrow> string \<Rightarrow> bool" where
  "grants pat action resource \<longleftrightarrow> pat = ''*:*'' \<or> pat = action @ '':'' @ resource \<or> pat = ''*:'' @ resource \<or> pat = action @ '':*''"

lemma permission_matches_grants:
  assumes "CHR '':'' \<notin> set action"
  shows "permission_matches pat (action @ '':'' @ resource) \<longleftrightarrow> grants pat action resource"
proof -
  have t: "split_once (CHR '':'') (action @ '':'' @ resource) = Some (action, resource)"
    using split_once_colon [OF assms] by simp
  show ?thesis
  proof (cases "split_once (CHR '':'') pat")
    case None
    have "pat \<noteq> ''*:'' @ resource" using None by auto
    moreover have "pat \<noteq> action @ '':*''" using None split_once_colon [OF assms, of "''*''"] by auto
    moreover have "pat \<noteq> action @ '':'' @ resource" using None t by auto
    ultimately show ?thesis using None unfolding permission_matches_def grants_def by simp
  next
    case (Some ar)
    obtain a r where ar: "ar = (a, r)" by (cases ar)
    have pat: "pat = a @ CHR '':'' # r" using Some [unfolded ar] by (rule split_once_Some)
    have "pat = ''*:'' @ resource \<longleftrightarrow> a = ''*'' \<and> r = resource"
    proof
      assume "pat = ''*:'' @ resource"
      then have "split_once (CHR '':'') pat = Some (''*'', resource)" by simp
      then show "a = ''*'' \<and> r = resource" using Some ar by simp
    qed (simp add: pat)
    moreover have "pat = action @ '':*'' \<longleftrightarrow> a = action \<and> r = ''*''"
    proof
      assume "pat = action @ '':*''"
      then have "split_once (CHR '':'') pat = Some (action, ''*'')" using split_once_colon [OF assms, of "''*''"] by simp
      then show "a = action \<and> r = ''*''" using Some ar by simp
    qed (simp add: pat)
    ultimately show ?thesis using Some ar t unfolding permission_matches_def grants_def by (simp add: conj_commute)
  qed
qed

section \<open>Runs\<close>

datatype rbac_op = Define role | Remove string | Assign uuid string | Unassign uuid string

fun rbac_step :: "rbac \<Rightarrow> rbac_op \<Rightarrow> rbac" where
  "rbac_step b (Define r) = define_role r b"
| "rbac_step b (Remove n) = remove_role n b"
| "rbac_step b (Assign u n) = snd (assign_role u n b)"
| "rbac_step b (Unassign u n) = unassign_role u n b"

text \<open>The policy: the permissions of the defined roles, and who holds which role.\<close>

record policy =
  po_permissions :: "string \<Rightarrow> string set option"
  po_holds :: "(uuid \<times> string) set"

fun policy_step :: "policy \<Rightarrow> rbac_op \<Rightarrow> policy" where
  "policy_step p (Define r) = p\<lparr>po_permissions := (po_permissions p)(ro_name r \<mapsto> set (ro_permissions r))\<rparr>"
| "policy_step p (Remove n) = p\<lparr>po_permissions := (po_permissions p)(n := None),
     po_holds := {h \<in> po_holds p. snd h \<noteq> n}\<rparr>"
| "policy_step p (Assign u n) = (if po_permissions p n = None then p else p\<lparr>po_holds := insert (u, n) (po_holds p)\<rparr>)"
| "policy_step p (Unassign u n) = p\<lparr>po_holds := po_holds p - {(u, n)}\<rparr>"

definition policy_empty :: policy where "policy_empty = \<lparr>po_permissions = Map.empty, po_holds = {}\<rparr>"

definition policy_of :: "rbac \<Rightarrow> policy" where
  "policy_of b = \<lparr>po_permissions = (\<lambda>n. map_option (\<lambda>r. set (ro_permissions r)) (rb_roles b n)),
     po_holds = {(u, n) |u n. n \<in> set (user_role_names b u)}\<rparr>"

lemma policy_of_new: "policy_of rbac_new = policy_empty"
  by (simp add: policy_of_def policy_empty_def rbac_new_def user_role_names_def)

lemma user_role_names_step:
  "user_role_names (rbac_step b (Define r)) u = user_role_names b u"
  "user_role_names (rbac_step b (Remove n)) u = filter (\<lambda>r. r \<noteq> n) (user_role_names b u)"
  "user_role_names (rbac_step b (Assign v n)) u =
     (if rb_roles b n \<noteq> None \<and> u = v then user_role_names b u @ [n] else user_role_names b u)"
  "user_role_names (rbac_step b (Unassign v n)) u =
     (if u = v then filter (\<lambda>r. r \<noteq> n) (user_role_names b u) else user_role_names b u)"
  by (auto simp: user_role_names_def define_role_def remove_role_def assign_role_def unassign_role_def split: option.splits)

lemma roles_step:
  "rb_roles (rbac_step b (Define r)) = (rb_roles b)(ro_name r \<mapsto> r)"
  "rb_roles (rbac_step b (Remove n)) = (rb_roles b)(n := None)"
  "rb_roles (rbac_step b (Assign v n)) = rb_roles b"
  "rb_roles (rbac_step b (Unassign v n)) = rb_roles b"
  by (auto simp: define_role_def remove_role_def assign_role_def unassign_role_def split: option.splits)

lemma policy_of_step: "policy_of (rbac_step b op) = policy_step (policy_of b) op"
  by (cases op) (auto simp: policy_of_def user_role_names_step roles_step fun_eq_iff simp del: rbac_step.simps split: if_splits)

lemma user_permissions_policy:
  "p \<in> user_permissions b u \<longleftrightarrow>
   (\<exists>n ps. (u, n) \<in> po_holds (policy_of b) \<and> po_permissions (policy_of b) n = Some ps \<and> p \<in> ps)"
  by (auto simp: user_permissions_def policy_of_def user_role_names_def split: option.splits)

lemma policy_of_run: "policy_of (foldl rbac_step b ops) = foldl policy_step (policy_of b) ops"
  by (induction ops rule: rev_induct) (simp_all add: policy_of_step)



end
