(* ===== verification/Auth_Providers.thy ===== *)
theory Auth_Providers
  imports Auth_Guard Rbac Pipeline
begin

text \<open>
  The providers of \<open>nova-auth\<close> (\<open>providers.rs\<close>, \<open>mfa.rs\<close>): passwords, API keys and signed tokens, their
  registry, and one-time codes. The libraries called (bcrypt, SHA-256, base64, the JSON parser, the
  text of an id) are the record \<open>auth_lib\<close>; clock readings and random values are arguments. Every
  password provider reads the user map of the manager, as the daemon builds it.
\<close>

record 'j auth_lib =
  al_bcrypt :: "string \<Rightarrow> u32 \<Rightarrow> string"
  al_verify :: "string \<Rightarrow> string \<Rightarrow> bool"
  al_sha256 :: "bytes \<Rightarrow> bytes"
  al_base64_url :: "bytes \<Rightarrow> string"
  al_base64_url_decode :: "string \<Rightarrow> bytes option"
  al_base64 :: "bytes \<Rightarrow> string"
  al_json :: "bytes \<Rightarrow> 'j option"
  al_get :: "'j \<Rightarrow> string \<Rightarrow> 'j option"
  al_as_i64 :: "'j \<Rightarrow> i64 option"
  al_as_str :: "'j \<Rightarrow> string option"
  al_as_array :: "'j \<Rightarrow> 'j list option"
  al_parse_uuid :: "string \<Rightarrow> uuid option"
  al_uuid_text :: "uuid \<Rightarrow> string"
  al_hex :: "bytes \<Rightarrow> string"

type_synonym credentials = "string \<rightharpoonup> string"

section \<open>One-time codes\<close>

record mfa_provider =
  mf_issuer :: string
  mf_window :: u8

definition mfa_provider_new :: "string \<Rightarrow> u8 \<Rightarrow> mfa_provider" where
  "mfa_provider_new issuer window = \<lparr>mf_issuer = issuer, mf_window = max window 1\<rparr>"

definition generate_otpauth_uri :: "'j auth_lib \<Rightarrow> mfa_provider \<Rightarrow> string \<Rightarrow> bytes \<Rightarrow> string" where
  "generate_otpauth_uri lib p username secret = ''otpauth://totp/'' @ mf_issuer p @ '':'' @ username @ ''?secret='' @
     al_base64 lib secret @ ''&issuer='' @ mf_issuer p"

text \<open>\<open>{:06}\<close>: at least six digits.\<close>

definition pad_six :: "nat \<Rightarrow> string" where
  "pad_six n = (let s = nat_string n in replicate (6 - length s) (CHR ''0'') @ s)"

definition be_i64 :: "i64 \<Rightarrow> bytes" where
  "be_i64 n = map (\<lambda>i. ucast (drop_bit (8 * (7 - i)) n)) [0..<8]"

definition generate_code :: "'j auth_lib \<Rightarrow> bytes \<Rightarrow> i64 \<Rightarrow> string" where
  "generate_code lib secret step =
     (let hash = al_sha256 lib (secret @ be_i64 step);
          offset = unat (and (last hash) 15);
          code = or (or (push_bit 24 (and (ucast (hash ! offset)) 127)) (push_bit 16 (ucast (hash ! (offset + 1)))))
            (or (push_bit 8 (ucast (hash ! (offset + 2)))) (ucast (hash ! (offset + 3)))) :: u32
      in pad_six (unat (code mod 1000000)))"

definition verify_code :: "'j auth_lib \<Rightarrow> nat \<Rightarrow> mfa_provider \<Rightarrow> bytes \<Rightarrow> string \<Rightarrow> bool" where
  "verify_code lib now_secs p secret code \<longleftrightarrow>
     list_ex (\<lambda>offset. generate_code lib secret (of_nat (now_secs div 30) + word_of_int offset) = code)
       [- int (unat (mf_window p))..int (unat (mf_window p))]"

type_synonym mfa_store = "uuid \<Rightarrow> bytes option"

definition mfa_verify_code :: "'j auth_lib \<Rightarrow> nat \<Rightarrow> mfa_store \<Rightarrow> uuid \<Rightarrow> string \<Rightarrow> u8 \<Rightarrow> bool" where
  "mfa_verify_code lib now_secs st uid code window =
     (case st uid of Some secret \<Rightarrow> verify_code lib now_secs (mfa_provider_new ''Nova'' window) secret code | None \<Rightarrow> False)"

section \<open>Providers\<close>

datatype provider =
    PasswordProvider string auth_config
  | ApiKeyProvider string
  | JwtProvider string bytes

fun provider_name :: "provider \<Rightarrow> string" where
  "provider_name (PasswordProvider n _) = n"
| "provider_name (ApiKeyProvider n) = n"
| "provider_name (JwtProvider n _) = n"

fun provider_credential_type :: "provider \<Rightarrow> credential_type" where
  "provider_credential_type (PasswordProvider _ _) = CtPassword"
| "provider_credential_type (ApiKeyProvider _) = CtApiKey"
| "provider_credential_type (JwtProvider _ _) = CtJwt"

type_synonym users = "(string \<times> user_record) list"

definition access_granted :: "uuid option \<Rightarrow> string option \<Rightarrow> string list \<Rightarrow> string list \<Rightarrow> auth_result" where
  "access_granted uid username roles permissions = \<lparr>ax_success = True, ax_session = None, ax_user_id = uid,
     ax_username = username, ax_roles = roles, ax_permissions = permissions, ax_mfa_required = False,
     ax_error_message = None, ax_retry_after_ms = None\<rparr>"

definition need :: "credentials \<Rightarrow> string \<Rightarrow> string auth_result_of" where
  "need creds k = (case creds k of Some v \<Rightarrow> Ok v | None \<Rightarrow> Err (InvalidCredentials (''missing '' @ k)))"

text \<open>\<open>unwrap_or(false)\<close> of bcrypt's answer is part of \<open>al_verify\<close>.\<close>

definition password_authenticate :: "'j auth_lib \<Rightarrow> users \<Rightarrow> credentials \<Rightarrow> auth_result auth_result_of" where
  "password_authenticate lib us creds =
     obind (need creds ''username'') (\<lambda>username.
     obind (need creds ''password'') (\<lambda>password.
     case map_of us username of
       None \<Rightarrow> Err (InvalidCredentials ''invalid username or password'')
     | Some user \<Rightarrow>
         if \<not> al_verify lib password (ur_password_hash user)
         then Err (InvalidCredentials ''invalid username or password'')
         else Ok (access_granted (Some (ur_id user)) (Some username) (ur_roles user) [''*''])))"

definition api_key_authenticate :: "credentials \<Rightarrow> auth_result auth_result_of" where
  "api_key_authenticate creds =
     obind (need creds ''api_key'') (\<lambda>api_key.
     if length api_key < 16 then Err (InvalidCredentials ''invalid API key'')
     else Ok (access_granted None (Some ''api-user'') [''api''] [''read'', ''write'']))"

text \<open>HMAC over blocks of 64 bytes.\<close>

definition hmac_sha256 :: "'j auth_lib \<Rightarrow> bytes \<Rightarrow> bytes \<Rightarrow> bytes" where
  "hmac_sha256 lib secret data =
     (let short = (if 64 < length secret then take 32 (al_sha256 lib secret) else secret);
          key = short @ replicate (64 - length short) 0;
          ipad = map (xor 0x36) key; opad = map (xor 0x5C) key
      in al_sha256 lib (opad @ al_sha256 lib (ipad @ data)))"

definition jwt_sign :: "'j auth_lib \<Rightarrow> bytes \<Rightarrow> string \<Rightarrow> string \<Rightarrow> string" where
  "jwt_sign lib secret header payload = al_base64_url lib (hmac_sha256 lib secret (string_bytes (header @ ''.'' @ payload)))"

fun split_at_char :: "char \<Rightarrow> string \<Rightarrow> string list" where
  "split_at_char c [] = [[]]"
| "split_at_char c (x # xs) =
     (if x = c then [] # split_at_char c xs
      else case split_at_char c xs of p # ps \<Rightarrow> (x # p) # ps | [] \<Rightarrow> [[x]])"

definition trim_end_char :: "char \<Rightarrow> string \<Rightarrow> string" where
  "trim_end_char c s = rev (dropWhile (\<lambda>x. x = c) (rev s))"

definition jwt_claims :: "'j auth_lib \<Rightarrow> i64 \<Rightarrow> 'j \<Rightarrow> auth_result auth_result_of" where
  "jwt_claims lib now_secs json =
     (if (case Option.bind (al_get lib json ''exp'') (al_as_i64 lib) of Some e \<Rightarrow> e \<le>s now_secs | None \<Rightarrow> False)
      then Err (TokenExpired ''JWT expired'')
      else Ok (access_granted
        (Option.bind (Option.bind (al_get lib json ''uid'') (al_as_str lib)) (al_parse_uuid lib))
        (Option.bind (al_get lib json ''sub'') (al_as_str lib))
        (case Option.bind (al_get lib json ''roles'') (al_as_array lib) of
           Some rs \<Rightarrow> List.map_filter (al_as_str lib) rs | None \<Rightarrow> [])
        [''read'', ''write'']))"

definition jwt_authenticate :: "'j auth_lib \<Rightarrow> i64 \<Rightarrow> bytes \<Rightarrow> credentials \<Rightarrow> auth_result auth_result_of" where
  "jwt_authenticate lib now_secs secret creds =
     obind (need creds ''token'') (\<lambda>token.
     if secret = [] then Err (TokenInvalid ''JWT provider has no signing secret configured'')
     else case split_at_char (CHR ''.'') token of
       [header, body, sig] \<Rightarrow>
         if trim_end_char (CHR ''='') sig \<noteq> jwt_sign lib secret header body
         then Err (TokenInvalid ''invalid JWT signature'')
         else (case al_base64_url_decode lib body of
             None \<Rightarrow> Err (TokenInvalid ''invalid JWT payload encoding'')
           | Some payload \<Rightarrow> (case al_json lib payload of
               None \<Rightarrow> Err (TokenInvalid ''invalid JWT payload'')
             | Some json \<Rightarrow> jwt_claims lib now_secs json))
     | _ \<Rightarrow> Err (TokenInvalid ''malformed JWT''))"

fun provider_authenticate :: "'j auth_lib \<Rightarrow> i64 \<Rightarrow> users \<Rightarrow> provider \<Rightarrow> credentials \<Rightarrow> auth_result auth_result_of" where
  "provider_authenticate lib now_secs us (PasswordProvider _ _) creds = password_authenticate lib us creds"
| "provider_authenticate lib now_secs us (ApiKeyProvider _) creds = api_key_authenticate creds"
| "provider_authenticate lib now_secs us (JwtProvider _ secret) creds = jwt_authenticate lib now_secs secret creds"

fun validate_credential :: "provider \<Rightarrow> string \<Rightarrow> unit auth_result_of" where
  "validate_credential (PasswordProvider _ cfg) c =
     map_outcome (\<lambda>es. PasswordPolicyViolation (join_errors es)) id (validate_password c cfg)"
| "validate_credential (ApiKeyProvider _) c =
     (if length c < 16 then Err (InvalidCredentials ''API key too short'') else Ok ())"
| "validate_credential (JwtProvider _ _) c = (if c = [] then Err (TokenInvalid ''empty token'') else Ok ())"

fun create_credential :: "provider \<Rightarrow> credential \<Rightarrow> users \<Rightarrow> unit auth_result_of \<times> users" where
  "create_credential (PasswordProvider _ _) c us =
     (Ok (), AList.update (cd_identifier c) \<lparr>ur_id = cd_user_id c, ur_username = cd_identifier c,
        ur_password_hash = cd_secret_hash c, ur_roles = [''user''], ur_created_at = cd_created_at c,
        ur_updated_at = cd_created_at c\<rparr> us)"
| "create_credential _ c us = (Ok (), us)"

record registry =
  rg_providers :: "provider list"
  rg_by_name :: "string \<Rightarrow> nat option"

definition registry_new :: registry where "registry_new = \<lparr>rg_providers = [], rg_by_name = Map.empty\<rparr>"

definition registry_register :: "provider \<Rightarrow> registry \<Rightarrow> unit auth_result_of \<times> registry" where
  "registry_register p r =
     (if rg_by_name r (provider_name p) \<noteq> None
      then (Err (ProviderNotFound (''Provider '' @ quoted (provider_name p) @ '' already registered'')), r)
      else (Ok (), \<lparr>rg_providers = rg_providers r @ [p],
        rg_by_name = (rg_by_name r)(provider_name p \<mapsto> length (rg_providers r))\<rparr>))"

definition registry_get :: "string \<Rightarrow> registry \<Rightarrow> provider option" where
  "registry_get name r = map_option (\<lambda>i. rg_providers r ! i) (rg_by_name r name)"

definition registry_get_by_type :: "credential_type \<Rightarrow> registry \<Rightarrow> provider option" where
  "registry_get_by_type t r = List.find (\<lambda>p. provider_credential_type p = t) (rg_providers r)"

end
