(* ===== verification/Auth_Manager.thy ===== *)
theory Auth_Manager
  imports Auth_Providers
begin

text \<open>
  The manager of \<open>nova-auth\<close> (\<open>manager.rs\<close>) and its middleware (\<open>middleware.rs\<close>). The shared objects
  of the manager are fields of its state; \<open>iter().find\<close> over the user map takes the first in the order
  of the association list.
\<close>

section \<open>State\<close>

record auth_manager =
  am_config :: auth_config
  am_sessions :: session_manager
  am_registry :: registry
  am_rbac :: rbac
  am_detector :: detector
  am_mfa_store :: mfa_store
  am_mfa :: mfa_provider
  am_users :: users
  am_api_keys :: "(string \<times> api_key_record) list"

definition manager_new :: "auth_config \<Rightarrow> auth_manager" where
  "manager_new cfg = \<lparr>am_config = cfg, am_sessions = sm_new cfg, am_registry = registry_new, am_rbac = rbac_new,
     am_detector = bf_new (ac_max_failed_attempts cfg) 300 (ac_lockout_duration_secs cfg),
     am_mfa_store = Map.empty, am_mfa = mfa_provider_new (ac_mfa_issuer cfg) (ac_mfa_window cfg),
     am_users = [], am_api_keys = []\<rparr>"

definition register_provider :: "provider \<Rightarrow> auth_manager \<Rightarrow> unit auth_result_of \<times> auth_manager" where
  "register_provider p m = (case registry_register p (am_registry m) of (r, g) \<Rightarrow> (r, m\<lparr>am_registry := g\<rparr>))"

section \<open>Logging in\<close>

text \<open>What one login reads: the monotonic clock in nanoseconds, the wall clock in milliseconds and in
  seconds, and the random token and ids.\<close>

record auth_readings =
  ar_instant :: nat
  ar_now :: i64
  ar_now_secs :: i64
  ar_token :: string
  ar_session_id :: uuid
  ar_user_id :: uuid

definition login_identifier :: "credentials \<Rightarrow> string" where
  "login_identifier creds = (case creds ''username'' of Some u \<Rightarrow> u
     | None \<Rightarrow> (case creds ''api_key'' of Some k \<Rightarrow> k | None \<Rightarrow> ''unknown''))"

text \<open>A provider that failed leaves \<open>authenticate\<close> at once (\<open>?\<close>).\<close>

definition finish_login :: "auth_readings \<Rightarrow> string \<Rightarrow> auth_result auth_result_of \<Rightarrow> auth_manager \<Rightarrow>
    auth_result auth_result_of \<times> auth_manager" where
  "finish_login rd identifier res m =
     (case res of
        Err e \<Rightarrow> (Err e, m) | Panic \<Rightarrow> (Panic, m) | Deadlock \<Rightarrow> (Deadlock, m)
      | Ok r \<Rightarrow>
          if ax_success r then
            (let uid = (case ax_user_id r of Some u \<Rightarrow> u | None \<Rightarrow> ar_user_id rd);
                 username = (case ax_username r of Some u \<Rightarrow> u | None \<Rightarrow> ''unknown'')
             in case create_session_with_roles (ar_now rd) (ar_token rd) (ar_session_id rd) uid username
                    (ax_roles r) (ax_permissions r) (am_sessions m) of
               (s, sm) \<Rightarrow>
                 (Ok \<lparr>ax_success = True,
                    ax_session = Some (if ax_mfa_required r then s\<lparr>ss_mfa_verified := False\<rparr> else s),
                    ax_user_id = Some uid, ax_username = Some username, ax_roles = ax_roles r,
                    ax_permissions = ax_permissions r, ax_mfa_required = ax_mfa_required r,
                    ax_error_message = None, ax_retry_after_ms = None\<rparr>,
                  m\<lparr>am_detector := bf_record_success identifier (am_detector m), am_sessions := sm\<rparr>))
          else (Err (AuthenticationFailed (case ax_error_message r of Some e \<Rightarrow> e | None \<Rightarrow> ''authentication failed'')),
                m\<lparr>am_detector := bf_record_failure (ar_instant rd) identifier (am_detector m)\<rparr>))"

definition authenticate :: "'j auth_lib \<Rightarrow> auth_readings \<Rightarrow> string \<Rightarrow> credentials \<Rightarrow> auth_manager \<Rightarrow>
    auth_result auth_result_of \<times> auth_manager" where
  "authenticate lib rd name creds m =
     (case registry_get name (am_registry m) of
        None \<Rightarrow> (Err (ProviderNotFound name), m)
      | Some p \<Rightarrow>
          (let identifier = login_identifier creds;
               locked = (if ac_enable_brute_force_detection (am_config m)
                 then bf_is_locked (ar_instant rd) identifier (am_detector m) else (False, am_detector m));
               m = m\<lparr>am_detector := snd locked\<rparr>
           in if fst locked then (Err (RateLimited (bf_remaining_lockout_ms (ar_instant rd) identifier (am_detector m))), m)
              else finish_login rd identifier (provider_authenticate lib (ar_now_secs rd) (am_users m) p creds) m))"

definition validate_session :: "i64 \<Rightarrow> string \<Rightarrow> auth_manager \<Rightarrow> session auth_result_of \<times> auth_manager" where
  "validate_session now token m =
     (case get_session now token (am_sessions m) of
        Ok s \<Rightarrow> (case touch_session now token (am_sessions m) of
          (r, sm) \<Rightarrow> (obind r (\<lambda>_. Ok s), m\<lparr>am_sessions := sm\<rparr>))
      | r \<Rightarrow> (r, m))"

definition manager_revoke_session :: "string \<Rightarrow> auth_manager \<Rightarrow> unit auth_result_of \<times> auth_manager" where
  "manager_revoke_session token m = (case revoke_session token (am_sessions m) of (r, sm) \<Rightarrow> (r, m\<lparr>am_sessions := sm\<rparr>))"

definition manager_revoke_user_sessions :: "uuid \<Rightarrow> auth_manager \<Rightarrow> u32 \<times> auth_manager" where
  "manager_revoke_user_sessions uid m =
     (case revoke_user_sessions uid (am_sessions m) of (n, sm) \<Rightarrow> (n, m\<lparr>am_sessions := sm\<rparr>))"

definition check_permission :: "uuid \<Rightarrow> string \<Rightarrow> auth_manager \<Rightarrow> bool" where
  "check_permission uid permission m = has_permission (am_rbac m) uid permission"

definition manager_enable_mfa :: "'j auth_lib \<Rightarrow> bytes \<Rightarrow> uuid \<Rightarrow> auth_manager \<Rightarrow> string \<times> auth_manager" where
  "manager_enable_mfa lib secret uid m =
     (generate_otpauth_uri lib (am_mfa m) ''user'' secret, m\<lparr>am_mfa_store := (am_mfa_store m)(uid \<mapsto> secret)\<rparr>)"

definition manager_verify_mfa :: "'j auth_lib \<Rightarrow> nat \<Rightarrow> uuid \<Rightarrow> string \<Rightarrow> auth_manager \<Rightarrow> bool" where
  "manager_verify_mfa lib now_secs uid code m =
     mfa_verify_code lib now_secs (am_mfa_store m) uid code (ac_mfa_window (am_config m))"

definition manager_has_mfa :: "uuid \<Rightarrow> auth_manager \<Rightarrow> bool" where
  "manager_has_mfa uid m \<longleftrightarrow> am_mfa_store m uid \<noteq> None"

definition manager_define_role :: "role \<Rightarrow> auth_manager \<Rightarrow> auth_manager" where
  "manager_define_role r m = m\<lparr>am_rbac := define_role r (am_rbac m)\<rparr>"

definition manager_assign_role :: "uuid \<Rightarrow> string \<Rightarrow> auth_manager \<Rightarrow> unit auth_result_of \<times> auth_manager" where
  "manager_assign_role uid name m =
     (case assign_role uid name (am_rbac m) of
        (r, b) \<Rightarrow> (map_outcome AuthInvalidArgument id r, m\<lparr>am_rbac := b\<rparr>))"

definition manager_cleanup_sessions :: "i64 \<Rightarrow> auth_manager \<Rightarrow> u64 \<times> auth_manager" where
  "manager_cleanup_sessions now m = (case cleanup_expired now (am_sessions m) of (n, sm) \<Rightarrow> (n, m\<lparr>am_sessions := sm\<rparr>))"

definition manager_cleanup_brute_force :: "nat \<Rightarrow> auth_manager \<Rightarrow> auth_manager" where
  "manager_cleanup_brute_force now m = m\<lparr>am_detector := bf_cleanup now (am_detector m)\<rparr>"

section \<open>Users and keys\<close>

definition hash_password :: "'j auth_lib \<Rightarrow> string \<Rightarrow> u32 \<Rightarrow> string" where
  "hash_password lib password cost = al_bcrypt lib password (if cost = 0 then 12 else cost)"

definition create_user :: "'j auth_lib \<Rightarrow> i64 \<Rightarrow> uuid \<Rightarrow> string \<Rightarrow> string \<Rightarrow> string list \<Rightarrow> auth_manager \<Rightarrow>
    user_record auth_result_of \<times> auth_manager" where
  "create_user lib now fresh username password roles m =
     (if map_of (am_users m) username \<noteq> None
      then (Err (AuthInvalidArgument (''user '' @ quoted username @ '' already exists'')), m)
      else let h = hash_password lib password (ac_bcrypt_cost (am_config m)) in
        if \<not> al_verify lib password h then (Err (AuthInternal ''hash verification failed''), m)
        else let user = \<lparr>ur_id = fresh, ur_username = username, ur_password_hash = h, ur_roles = roles,
               ur_created_at = now, ur_updated_at = now\<rparr>
          in (Ok user, m\<lparr>am_users := AList.update username user (am_users m)\<rparr>))"

definition list_users :: "auth_manager \<Rightarrow> user_record list" where "list_users m = map snd (am_users m)"

definition find_user :: "uuid \<Rightarrow> auth_manager \<Rightarrow> (string \<times> user_record) option" where
  "find_user uid m = List.find (\<lambda>e. ur_id (snd e) = uid) (am_users m)"

definition get_user_by_id :: "uuid \<Rightarrow> auth_manager \<Rightarrow> user_record option" where
  "get_user_by_id uid m = map_option snd (find_user uid m)"

definition get_user_by_username :: "string \<Rightarrow> auth_manager \<Rightarrow> user_record option" where
  "get_user_by_username username m = map_of (am_users m) username"

definition delete_user :: "uuid \<Rightarrow> auth_manager \<Rightarrow> bool \<times> auth_manager" where
  "delete_user uid m =
     (case find_user uid m of
        Some e \<Rightarrow> (True, m\<lparr>am_users := AList.delete (fst e) (am_users m)\<rparr>)
      | None \<Rightarrow> (False, m))"

definition edit_user :: "(user_record \<Rightarrow> user_record) \<Rightarrow> uuid \<Rightarrow> auth_manager \<Rightarrow> unit auth_result_of \<times> auth_manager" where
  "edit_user f uid m =
     (case find_user uid m of
        Some e \<Rightarrow> (Ok (), m\<lparr>am_users := AList.update (fst e) (f (snd e)) (am_users m)\<rparr>)
      | None \<Rightarrow> (Err (AuthInvalidArgument ''user not found''), m))"

definition update_user_roles :: "i64 \<Rightarrow> uuid \<Rightarrow> string list \<Rightarrow> auth_manager \<Rightarrow> unit auth_result_of \<times> auth_manager" where
  "update_user_roles now uid roles = edit_user (\<lambda>u. u\<lparr>ur_roles := roles, ur_updated_at := now\<rparr>) uid"

definition change_password :: "'j auth_lib \<Rightarrow> i64 \<Rightarrow> uuid \<Rightarrow> string \<Rightarrow> auth_manager \<Rightarrow>
    unit auth_result_of \<times> auth_manager" where
  "change_password lib now uid new_password m =
     (let h = hash_password lib new_password (ac_bcrypt_cost (am_config m)) in
      if \<not> al_verify lib new_password h then (Err (AuthInternal ''hash verification failed''), m)
      else edit_user (\<lambda>u. u\<lparr>ur_password_hash := h, ur_updated_at := now\<rparr>) uid m)"

definition hash_api_key :: "'j auth_lib \<Rightarrow> string \<Rightarrow> string" where
  "hash_api_key lib key = al_hex lib (al_sha256 lib (string_bytes key))"

definition create_api_key :: "'j auth_lib \<Rightarrow> i64 \<Rightarrow> uuid \<Rightarrow> bytes \<Rightarrow> string \<Rightarrow> string list \<Rightarrow> auth_manager \<Rightarrow>
    (api_key_record \<times> string) \<times> auth_manager" where
  "create_api_key lib now fresh key_bytes name permissions m =
     (let key = ''nr_'' @ al_hex lib (take 16 key_bytes);
          record = \<lparr>ak_id = fresh, ak_name = name, ak_key_hash = hash_api_key lib key, ak_prefix = take 10 key,
            ak_permissions = permissions, ak_created_at = now, ak_expires_at = None, ak_enabled = True\<rparr>
      in ((record, key), m\<lparr>am_api_keys := AList.update (al_uuid_text lib fresh) record (am_api_keys m)\<rparr>))"

definition list_api_keys :: "auth_manager \<Rightarrow> api_key_record list" where "list_api_keys m = map snd (am_api_keys m)"

definition revoke_api_key :: "'j auth_lib \<Rightarrow> uuid \<Rightarrow> auth_manager \<Rightarrow> bool \<times> auth_manager" where
  "revoke_api_key lib uid m =
     (map_of (am_api_keys m) (al_uuid_text lib uid) \<noteq> None,
      m\<lparr>am_api_keys := AList.delete (al_uuid_text lib uid) (am_api_keys m)\<rparr>)"

section \<open>The middleware\<close>

definition bearer_of :: "string \<Rightarrow> string" where
  "bearer_of v = (if take 7 v = ''Bearer '' then drop 7 v else v)"

definition text_param :: "'j auth_lib \<Rightarrow> 'j operation_request \<Rightarrow> string \<Rightarrow> string option" where
  "text_param lib req k = Option.bind (map_of (rq_params req) k) (al_as_str lib)"

definition extract_token :: "'j auth_lib \<Rightarrow> 'j operation_request \<Rightarrow> string option" where
  "extract_token lib req =
     (case text_param lib req ''authorization'' of Some v \<Rightarrow> Some (bearer_of v)
      | None \<Rightarrow> (case text_param lib req ''token'' of Some v \<Rightarrow> Some v
        | None \<Rightarrow> text_param lib req ''session_id''))"

definition session_user :: "session \<Rightarrow> user_session" where
  "session_user s = \<lparr>us_user_id = ss_user_id s, us_username = ss_username s, us_roles = ss_roles s,
     us_permissions = ss_permissions s, us_session_id = ss_id s, us_metadata = ss_metadata s\<rparr>"

definition auth_handle :: "'j auth_lib \<Rightarrow> 'j \<Rightarrow> i64 \<Rightarrow> auth_config \<Rightarrow> session_manager \<Rightarrow> 'j stage_fn \<Rightarrow> 'j stage_fn" where
  "auth_handle lib nul now cfg sm nxt ctx req =
     (if ac_max_active_sessions cfg = 0
      then (PShortCircuit (response_error nul EcInternalError ''auth disabled: max_active_sessions is 0''), ctx, req)
      else case rq_target req of
        TAuth _ \<Rightarrow> nxt ctx req
      | TAdmin _ \<Rightarrow> nxt ctx req
      | TSystem \<Rightarrow> nxt ctx req
      | _ \<Rightarrow> (case extract_token lib req of
          None \<Rightarrow> (PShortCircuit (response_error nul EcAuthenticationError ''missing authentication token''), ctx, req)
        | Some token \<Rightarrow> (case get_session now token sm of
            Ok s \<Rightarrow> nxt (ctx\<lparr>cx_user_session := Some (session_user s),
                cx_metadata := AList.update ''auth_method'' ''session'' (cx_metadata ctx)\<rparr>) req
          | _ \<Rightarrow> (PShortCircuit (response_error nul EcAuthenticationError ''invalid or expired session''), ctx, req))))"

definition auth_middleware :: "'j auth_lib \<Rightarrow> 'j \<Rightarrow> i64 \<Rightarrow> u32 \<Rightarrow> auth_manager \<Rightarrow> 'j middleware" where
  "auth_middleware lib nul now order m = \<lparr>mw_name = ''nova-auth'', mw_stage = StAuthorize, mw_order = order,
     mw_handle = auth_handle lib nul now (am_config m) (am_sessions m), mw_enabled = True\<rparr>"

end
