(* ===== verification/Sql_Types.thy ===== *)
theory Sql_Types
  imports Nova_Prelude
begin

text \<open>
  The data of \<open>nova-sql\<close> (\<open>ast.rs\<close>, \<open>error.rs\<close>, \<open>schema.rs\<close>, \<open>config.rs\<close>, \<open>type_mapping.rs\<close> and the
  tokens of \<open>lexer.rs\<close>). A float is a value of the type \<open>'f\<close>, with the operations the engine uses in
  the record \<open>sql_lib\<close>, which also holds what the engine calls outside: the text of a float, a \<open>Debug\<close>
  text, the regular expressions. A formatted message is the list of the pieces it shows.
\<close>

section \<open>Tokens\<close>

datatype token =
    TkSelect | TkFrom | TkWhere | TkInsert | TkInto | TkValues | TkUpdate | TkSet | TkDelete | TkCreate
  | TkTable | TkDrop | TkAnd | TkOr | TkNot | TkNull | TkIs | TkIn | TkBetween | TkLike | TkILike
  | TkTrue | TkFalse | TkAs | TkOn | TkJoin | TkGroup | TkBy | TkHaving | TkOrder | TkAsc | TkDesc
  | TkLimit | TkOffset | TkDistinct | TkAll | TkExists | TkDefault | TkCount | TkSum | TkAvg | TkMin | TkMax
  | TkCase | TkWhen | TkThen | TkElse | TkEnd | TkCast | TkPrimary | TkKey | TkUnique | TkNulls | TkFirst
  | TkLast | TkCheck
  | TkIdentifier string | TkNumber string | TkString string
  | TkPlus | TkMinus | TkStar | TkSlash | TkPercent | TkEq | TkNotEq | TkLt | TkLtEq | TkGt | TkGtEq
  | TkConcat | TkColonColon
  | TkLParen | TkRParen | TkComma | TkSemicolon | TkDot
  | TkEof

section \<open>Values and expressions\<close>

datatype sql_type = TyNull | TyBoolean | TyInteger | TyFloat | TyText

datatype 'f literal = LNull | LBoolean bool | LInteger i64 | LFloat 'f | LString string

datatype binop = BPlus | BMinus | BMultiply | BDivide | BModulo | BEq | BNotEq | BLt | BLtEq | BGt | BGtEq
  | BAnd | BOr | BConcat

datatype unop = UNeg | UNot

datatype 'f expr =
    EColumn string
  | ELiteral "'f literal"
  | EBinary "'f expr" binop "'f expr"
  | EUnary unop "'f expr"
  | EFunction string "'f expr list"
  | EIsNull "'f expr"
  | EIsNotNull "'f expr"
  | EIn "'f expr" "'f expr list"
  | EBetween "'f expr" "'f expr" "'f expr"
  | ELike "'f expr" "'f expr"
  | EILike "'f expr" "'f expr"
  | ECase "('f expr \<times> 'f expr) list" "'f expr option"
  | ECast "'f expr" sql_type

section \<open>Statements\<close>

record table_ref =
  tr_name :: string
  tr_alias :: "string option"

datatype 'f select_item = SiExpr "'f expr" "string option" | SiWildcard

record 'f join =
  jn_right :: table_ref
  jn_on :: "'f expr option"

record 'f order_by_expr =
  ob_expr :: "'f expr"
  ob_asc :: bool
  ob_nulls_first :: "bool option"

record 'f select_statement =
  sl_distinct :: bool
  sl_select_list :: "'f select_item list"
  sl_from :: table_ref
  sl_joins :: "'f join list"
  sl_where_clause :: "'f expr option"
  sl_group_by :: "'f expr list"
  sl_having :: "'f expr option"
  sl_order_by :: "'f order_by_expr list"
  sl_limit :: "nat option"
  sl_offset :: "nat option"

record 'f insert_statement =
  in_table :: table_ref
  in_columns :: "string list"
  in_values :: "'f expr list list"

record 'f assignment =
  as_column :: string
  as_value :: "'f expr"

record 'f update_statement =
  up_table :: table_ref
  up_assignments :: "'f assignment list"
  up_where_clause :: "'f expr option"

record 'f delete_statement =
  de_table :: table_ref
  de_where_clause :: "'f expr option"

record 'f column_def =
  cd_name :: string
  cd_sql_type :: sql_type
  cd_nullable :: bool
  cd_default :: "'f literal option"
  cd_unique :: bool
  cd_is_primary_key :: bool
  cd_auto_increment :: bool
  cd_check_expr :: "'f expr option"

record 'f create_table_statement =
  ct_table :: table_ref
  ct_columns :: "'f column_def list"

record drop_table_statement =
  dt_table :: table_ref

datatype 'f statement =
    StSelect "'f select_statement"
  | StInsert "'f insert_statement"
  | StUpdate "'f update_statement"
  | StDelete "'f delete_statement"
  | StCreateTable "'f create_table_statement"
  | StDropTable drop_table_statement

section \<open>Errors\<close>

datatype 'f shown = ShText string | ShToken token | ShLiteral "'f literal" | ShType sql_type

type_synonym 'f message = "'f shown list"

datatype 'f sql_error =
    SqlSyntax "'f message" nat nat
  | SqlTableNotFound string
  | SqlColumnNotFound string
  | SqlTypeMismatch "'f message" "'f message"
  | SqlInternal "'f message"
  | SqlConstraintViolation "'f message"
  | SqlQueryTooComplex "'f message"

definition sql_syntax :: "'f message \<Rightarrow> 'f sql_error" where "sql_syntax m = SqlSyntax m 0 0"

section \<open>Schemas and configuration\<close>

record 'f column_info =
  ci_name :: string
  ci_sql_type :: sql_type
  ci_nullable :: bool
  ci_default :: "'f literal option"
  ci_ordinal :: nat
  ci_unique :: bool
  ci_is_primary_key :: bool
  ci_auto_increment :: bool

type_synonym 'f schema = "'f column_info list"

text \<open>\<open>position\<close>: the first index.\<close>

fun find_index :: "'f schema \<Rightarrow> string \<Rightarrow> nat option" where
  "find_index [] name = None"
| "find_index (c # cs) name = (if ci_name c = name then Some 0 else map_option Suc (find_index cs name))"

definition find_column :: "'f schema \<Rightarrow> string \<Rightarrow> 'f column_info option" where
  "find_column sch name = List.find (\<lambda>c. ci_name c = name) sch"

record sql_config =
  qc_max_batch_size :: nat
  qc_max_columns :: nat
  qc_default_limit :: nat

definition sql_config_default :: sql_config where
  "sql_config_default = \<lparr>qc_max_batch_size = 1024, qc_max_columns = 256, qc_default_limit = 1000\<rparr>"

section \<open>The library\<close>

record 'f sql_lib =
  sf_parse :: "string \<Rightarrow> 'f option"
  sf_text :: "'f \<Rightarrow> string"
  sf_of_int :: "i64 \<Rightarrow> 'f"
  sf_to_int :: "'f \<Rightarrow> i64"
  sf_zero :: 'f
  sf_add :: "'f \<Rightarrow> 'f \<Rightarrow> 'f"
  sf_sub :: "'f \<Rightarrow> 'f \<Rightarrow> 'f"
  sf_mul :: "'f \<Rightarrow> 'f \<Rightarrow> 'f"
  sf_div :: "'f \<Rightarrow> 'f \<Rightarrow> 'f"
  sf_neg :: "'f \<Rightarrow> 'f"
  sf_eq :: "'f \<Rightarrow> 'f \<Rightarrow> bool"
  sf_less :: "'f \<Rightarrow> 'f \<Rightarrow> bool"
  sf_le :: "'f \<Rightarrow> 'f \<Rightarrow> bool"
  sf_total_le :: "'f \<Rightarrow> 'f \<Rightarrow> bool"
  sl_show_select :: "'f select_statement \<Rightarrow> string"
  sl_show_literal :: "'f literal \<Rightarrow> string"
  sl_show_expr :: "'f expr \<Rightarrow> string"
  sl_regex :: "string \<Rightarrow> (string \<Rightarrow> bool) option"
  sl_row_hash :: "'f literal option list \<Rightarrow> u64"

text \<open>The library of the examples: numbers without fractions, a pattern that matches only itself.\<close>

definition nat_lib :: "nat sql_lib" where
  "nat_lib = \<lparr>sf_parse = (\<lambda>_. None), sf_text = nat_string, sf_of_int = unat, sf_to_int = of_nat, sf_zero = 0,
     sf_add = (+), sf_sub = (-), sf_mul = (*), sf_div = (div), sf_neg = (\<lambda>x. x), sf_eq = (=), sf_less = (<),
     sf_le = (\<le>), sf_total_le = (\<le>), sl_show_select = (\<lambda>_. ''''), sl_show_literal = (\<lambda>_. ''''),
     sl_show_expr = (\<lambda>_. ''''), sl_regex = (\<lambda>p. Some ((=) p)), sl_row_hash = (\<lambda>row. of_nat (length row))\<rparr>"

section \<open>Numbers and case\<close>

definition is_digit_char :: "char \<Rightarrow> bool" where
  "is_digit_char c \<longleftrightarrow> 48 \<le> (of_char c :: nat) \<and> (of_char c :: nat) \<le> 57"

definition digit_value :: "char \<Rightarrow> nat" where "digit_value c = of_char c - 48"

definition digits_value :: "string \<Rightarrow> nat" where
  "digits_value s = foldl (\<lambda>n c. 10 * n + digit_value c) 0 s"

definition parse_digits :: "string \<Rightarrow> nat option" where
  "parse_digits s = (if s \<noteq> [] \<and> list_all is_digit_char s then Some (digits_value s) else None)"

text \<open>\<open>str::parse::<i64>\<close> and \<open>str::parse::<usize>\<close>.\<close>

fun parse_i64 :: "string \<Rightarrow> i64 option" where
  "parse_i64 (c # s) =
     (if c = CHR ''-'' then (case parse_digits s of Some n \<Rightarrow> if n \<le> 2 ^ 63 then Some (- of_nat n) else None | None \<Rightarrow> None)
      else case parse_digits (if c = CHR ''+'' then s else c # s) of
          Some n \<Rightarrow> if n < 2 ^ 63 then Some (of_nat n) else None
        | None \<Rightarrow> None)"
| "parse_i64 [] = None"

fun parse_usize :: "string \<Rightarrow> nat option" where
  "parse_usize (c # s) =
     (case parse_digits (if c = CHR ''+'' then s else c # s) of
        Some n \<Rightarrow> if n < 2 ^ 64 then Some n else None
      | None \<Rightarrow> None)"
| "parse_usize [] = None"

definition lower_char :: "char \<Rightarrow> char" where
  "lower_char c = (if 65 \<le> (of_char c :: nat) \<and> (of_char c :: nat) \<le> 90 then char_of (of_char c + 32 :: nat) else c)"

definition lower :: "string \<Rightarrow> string" where "lower = map lower_char"

definition sql_type_name :: "sql_type \<Rightarrow> string" where
  "sql_type_name t = (case t of TyNull \<Rightarrow> ''NULL'' | TyBoolean \<Rightarrow> ''BOOLEAN'' | TyInteger \<Rightarrow> ''INTEGER''
     | TyFloat \<Rightarrow> ''FLOAT'' | TyText \<Rightarrow> ''TEXT'')"

definition name_to_sql_type :: "string \<Rightarrow> sql_type option" where
  "name_to_sql_type name =
     (let n = lower name in
      if n = ''null'' then Some TyNull
      else if n \<in> {''boolean'', ''bool''} then Some TyBoolean
      else if n \<in> {''integer'', ''int''} then Some TyInteger
      else if n \<in> {''float'', ''double'', ''real''} then Some TyFloat
      else if n \<in> {''text'', ''varchar'', ''string''} then Some TyText
      else None)"

lemma name_to_sql_type_name [simp]: "name_to_sql_type (sql_type_name t) = Some t"
  by (cases t; hypsubst; code_simp)

lemma parse_digits_nat_string: "parse_digits (nat_string n) = Some n"
proof -
  have "list_all is_digit_char (nat_string n) \<and> nat_string n \<noteq> [] \<and> digits_value (nat_string n) = n"
  proof (induction n rule: nat_string.induct)
    case (1 n)
    have digit: "is_digit_char (char_of (48 + k)) \<and> digit_value (char_of (48 + k)) = k" if "k < 10" for k :: nat
      using that by (simp add: is_digit_char_def digit_value_def)
    show ?case
    proof (cases "n < 10")
      case True
      then show ?thesis using digit [OF True] by (simp add: nat_string.simps [of n] digits_value_def)
    next
      case False
      then show ?thesis
        using 1 digit [of "n mod 10"] by (simp add: nat_string.simps [of n] digits_value_def)
    qed
  qed
  then show ?thesis by (simp add: parse_digits_def)
qed

end
