(* ===== verification/Sql_Parser.thy ===== *)
theory Sql_Parser
  imports Sql_Types
begin

text \<open>
  The recursive-descent parser of \<open>nova-sql\<close> (\<open>parser.rs\<close>). The state is the list of tokens from the
  current position on, each with its place in the text; past its end the token is \<open>EOF\<close>. The only
  recursion is that of \<open>parse_unary\<close>: it is given the depth of the call stack as fuel, and running
  out of it is the panic of a stack overflow. A loop runs at most once per token and once more.
\<close>

section \<open>Tokens\<close>

type_synonym ptokens = "(token \<times> nat \<times> nat) list"
type_synonym ('f, 'a) parser = "(ptokens, 'f sql_error, 'a) stm"

definition peek_token :: "ptokens \<Rightarrow> token" where
  "peek_token ts = (case ts of [] \<Rightarrow> TkEof | t # _ \<Rightarrow> fst t)"

definition err_syntax :: "'f message \<Rightarrow> ('f, 'a) parser" where
  "err_syntax msg ts =
     (Err (case ts of [] \<Rightarrow> SqlSyntax msg 0 0 | (_, start, finish) # _ \<Rightarrow> SqlSyntax msg start finish), ts)"

definition advance :: "('f, unit) parser" where "advance = smod tl"

definition eat_if :: "token \<Rightarrow> ('f, bool) parser" where
  "eat_if t ts = (if peek_token ts = t then (Ok True, tl ts) else (Ok False, ts))"

definition expect :: "token \<Rightarrow> ('f, unit) parser" where
  "expect t ts =
     (if peek_token ts = t then (Ok (), tl ts)
      else err_syntax [ShText ''expected '', ShToken t, ShText '', got '', ShToken (peek_token ts)] ts)"

definition eat_identifier :: "string \<Rightarrow> ('f, bool) parser" where
  "eat_identifier ident ts =
     (case peek_token ts of
        TkIdentifier s \<Rightarrow> if lower s = lower ident then (Ok True, tl ts) else (Ok False, ts)
      | _ \<Rightarrow> (Ok False, ts))"

definition parse_identifier :: "('f, string) parser" where
  "parse_identifier ts =
     (case peek_token ts of
        TkIdentifier s \<Rightarrow> (Ok s, tl ts)
      | t \<Rightarrow> err_syntax [ShText ''expected identifier, got '', ShToken t] ts)"

definition peek_is_identifier :: "ptokens \<Rightarrow> bool" where
  "peek_is_identifier ts = (case peek_token ts of TkIdentifier _ \<Rightarrow> True | _ \<Rightarrow> False)"

section \<open>Control\<close>

text \<open>\<open>loop\<close>: a body that goes on (\<open>Inl\<close>) or leaves (\<open>Inr\<close>).\<close>

fun loop_upto :: "nat \<Rightarrow> ('a \<Rightarrow> ('f, 'a + 'b) parser) \<Rightarrow> 'a \<Rightarrow> ('f, 'b) parser" where
  "loop_upto 0 body x = slift Panic"
| "loop_upto (Suc n) body x = sbind (body x) (\<lambda>r. case r of Inl y \<Rightarrow> loop_upto n body y | Inr z \<Rightarrow> sret z)"

definition parse_loop :: "('a \<Rightarrow> ('f, 'a + 'b) parser) \<Rightarrow> 'a \<Rightarrow> ('f, 'b) parser" where
  "parse_loop body x ts = loop_upto (Suc (length ts)) body x ts"

definition branch :: "token \<Rightarrow> ('f, 'a) parser \<Rightarrow> ('f, 'a) parser \<Rightarrow> ('f, 'a) parser" where
  "branch t p q = sbind (eat_if t) (\<lambda>b. if b then p else q)"

definition after :: "token \<Rightarrow> ('f, 'a) parser \<Rightarrow> ('f, 'a) parser" where
  "after t p = sbind (expect t) (\<lambda>_. p)"

definition closed_by :: "token \<Rightarrow> ('f, 'a) parser \<Rightarrow> ('f, 'a) parser" where
  "closed_by t p = sbind p (\<lambda>x. sbind (expect t) (\<lambda>_. sret x))"

definition pmap :: "('a \<Rightarrow> 'b) \<Rightarrow> ('f, 'a) parser \<Rightarrow> ('f, 'b) parser" where
  "pmap f p = sbind p (\<lambda>x. sret (f x))"

definition optional :: "token \<Rightarrow> ('f, 'a) parser \<Rightarrow> ('f, 'a option) parser" where
  "optional t p = branch t (pmap Some p) (sret None)"

definition comma_separated :: "('f, 'a) parser \<Rightarrow> ('f, 'a list) parser" where
  "comma_separated p =
     sbind p (\<lambda>x. parse_loop (\<lambda>xs. branch TkComma (pmap (\<lambda>x. Inl (xs @ [x])) p) (sret (Inr xs))) [x])"

section \<open>Leaves\<close>

definition is_float_text :: "string \<Rightarrow> bool" where
  "is_float_text s \<longleftrightarrow> CHR ''.'' \<in> set s \<or> CHR ''e'' \<in> set s \<or> CHR ''E'' \<in> set s"

definition number_literal :: "'f sql_lib \<Rightarrow> string \<Rightarrow> ('f sql_error, 'f literal) outcome" where
  "number_literal L s =
     (if is_float_text s
      then (case sf_parse L s of Some v \<Rightarrow> Ok (LFloat v) | None \<Rightarrow> Err (sql_syntax [ShText (''invalid float: '' @ s)]))
      else (case parse_i64 s of Some v \<Rightarrow> Ok (LInteger v) | None \<Rightarrow> Err (sql_syntax [ShText (''invalid integer: '' @ s)])))"

definition parse_literal :: "'f sql_lib \<Rightarrow> ('f, 'f literal) parser" where
  "parse_literal L ts =
     (case peek_token ts of
        TkNull \<Rightarrow> (Ok LNull, tl ts)
      | TkTrue \<Rightarrow> (Ok (LBoolean True), tl ts)
      | TkFalse \<Rightarrow> (Ok (LBoolean False), tl ts)
      | TkNumber s \<Rightarrow> (number_literal L s, tl ts)
      | TkString s \<Rightarrow> (Ok (LString s), tl ts)
      | t \<Rightarrow> err_syntax [ShText ''unexpected token in literal: '', ShToken t] ts)"

definition parse_usize_token :: "('f, nat) parser" where
  "parse_usize_token ts =
     (case peek_token ts of
        TkNumber s \<Rightarrow> (case parse_usize s of Some n \<Rightarrow> Ok n | None \<Rightarrow> Err (sql_syntax [ShText (''invalid number: '' @ s)]), tl ts)
      | t \<Rightarrow> err_syntax [ShText ''expected number, got '', ShToken t] ts)"

definition sql_type_words :: "(string \<times> sql_type) list" where
  "sql_type_words =
     map (\<lambda>w. (w, TyInteger)) [''int'', ''integer'', ''tinyint'', ''smallint'', ''mediumint'', ''bigint''] @
     map (\<lambda>w. (w, TyFloat)) [''float'', ''double'', ''real'', ''decimal'', ''numeric''] @
     map (\<lambda>w. (w, TyText)) [''text'', ''varchar'', ''string'', ''char'', ''tinytext'', ''mediumtext'', ''longtext''] @
     map (\<lambda>w. (w, TyBoolean)) [''bool'', ''boolean'', ''bit''] @
     map (\<lambda>w. (w, TyText)) [''timestamp'', ''datetime'', ''date'', ''time'', ''year'', ''blob'', ''tinyblob'',
       ''mediumblob'', ''longblob'', ''binary'', ''varbinary'']"

definition parse_sql_type :: "('f, sql_type) parser" where
  "parse_sql_type =
     sbind parse_identifier (\<lambda>ident. case map_of sql_type_words (lower ident) of
       Some t \<Rightarrow> sret t
     | None \<Rightarrow> err_syntax [ShText (''unknown type: '' @ lower ident)])"

section \<open>References to tables\<close>

text \<open>A bare alias: an identifier that one of the given tokens follows.\<close>

definition bare_alias :: "(token \<Rightarrow> bool) \<Rightarrow> ('f, string option) parser" where
  "bare_alias follows ts =
     (if peek_is_identifier ts
      then (case parse_identifier ts of
          (Ok ident, ts') \<Rightarrow> if follows (peek_token ts') then (Ok (Some ident), ts') else (Ok None, ts)
        | (r, ts') \<Rightarrow> (map_outcome id Some r, ts'))
      else (Ok None, ts))"

definition ends_clause :: "token \<Rightarrow> bool" where
  "ends_clause t \<longleftrightarrow> t \<in> {TkWhere, TkGroup, TkOrder, TkHaving, TkLimit, TkOffset, TkComma, TkSemicolon, TkEof}"

definition parse_table_ref :: "('f, table_ref) parser" where
  "parse_table_ref =
     sbind parse_identifier (\<lambda>name.
     sbind (branch TkAs (pmap Some parse_identifier) (bare_alias ends_clause)) (\<lambda>alias.
     sret \<lparr>tr_name = name, tr_alias = alias\<rparr>))"

section \<open>Expressions\<close>

text \<open>\<open>U\<close> is the parser of a unary expression.\<close>

definition op_chain :: "(token \<Rightarrow> binop option) \<Rightarrow> ('f, 'f expr) parser \<Rightarrow> ('f, 'f expr) parser" where
  "op_chain ops p =
     sbind p (parse_loop (\<lambda>left ts. case ops (peek_token ts) of
         Some op \<Rightarrow> pmap (\<lambda>right. Inl (EBinary left op right)) p (tl ts)
       | None \<Rightarrow> (Ok (Inr left), ts)))"

definition factor_op :: "token \<Rightarrow> binop option" where
  "factor_op t = (case t of TkStar \<Rightarrow> Some BMultiply | TkSlash \<Rightarrow> Some BDivide | TkPercent \<Rightarrow> Some BModulo | _ \<Rightarrow> None)"
definition term_op :: "token \<Rightarrow> binop option" where
  "term_op t = (case t of TkPlus \<Rightarrow> Some BPlus | TkMinus \<Rightarrow> Some BMinus | TkConcat \<Rightarrow> Some BConcat | _ \<Rightarrow> None)"
definition comparison_op :: "token \<Rightarrow> binop option" where
  "comparison_op t = (case t of TkLt \<Rightarrow> Some BLt | TkLtEq \<Rightarrow> Some BLtEq | TkGt \<Rightarrow> Some BGt | TkGtEq \<Rightarrow> Some BGtEq | _ \<Rightarrow> None)"
definition equality_op :: "token \<Rightarrow> binop option" where
  "equality_op t = (case t of TkEq \<Rightarrow> Some BEq | TkNotEq \<Rightarrow> Some BNotEq | _ \<Rightarrow> None)"
definition and_op :: "token \<Rightarrow> binop option" where
  "and_op t = (case t of TkAnd \<Rightarrow> Some BAnd | _ \<Rightarrow> None)"
definition or_op :: "token \<Rightarrow> binop option" where
  "or_op t = (case t of TkOr \<Rightarrow> Some BOr | _ \<Rightarrow> None)"

definition parse_factor :: "('f, 'f expr) parser \<Rightarrow> ('f, 'f expr) parser" where "parse_factor U = op_chain factor_op U"
definition parse_term :: "('f, 'f expr) parser \<Rightarrow> ('f, 'f expr) parser" where "parse_term U = op_chain term_op (parse_factor U)"
definition parse_comparison :: "('f, 'f expr) parser \<Rightarrow> ('f, 'f expr) parser" where
  "parse_comparison U = op_chain comparison_op (parse_term U)"
definition parse_equality :: "('f, 'f expr) parser \<Rightarrow> ('f, 'f expr) parser" where
  "parse_equality U = op_chain equality_op (parse_comparison U)"
definition parse_and :: "('f, 'f expr) parser \<Rightarrow> ('f, 'f expr) parser" where "parse_and U = op_chain and_op (parse_equality U)"
definition parse_or :: "('f, 'f expr) parser \<Rightarrow> ('f, 'f expr) parser" where "parse_or U = op_chain or_op (parse_and U)"

definition MAX_NESTING_DEPTH :: nat where "MAX_NESTING_DEPTH = 64"

text \<open>\<open>U d\<close> is the parser of a unary expression at depth \<open>d\<close>.\<close>

definition expression_with :: "(nat \<Rightarrow> ('f, 'f expr) parser) \<Rightarrow> nat \<Rightarrow> ('f, 'f expr) parser" where
  "expression_with U d =
     (if MAX_NESTING_DEPTH \<le> d then slift (Err (SqlQueryTooComplex [ShText ''max nesting depth exceeded'']))
      else parse_or (U (d + 1)))"

definition parse_order_by_expr :: "('f, 'f expr) parser \<Rightarrow> ('f, 'f order_by_expr) parser" where
  "parse_order_by_expr E =
     sbind E (\<lambda>expr.
     sbind (branch TkAsc (sret True) (branch TkDesc (sret False) (sret True))) (\<lambda>asc.
     sbind (branch TkNulls
         (branch TkFirst (sret (Some True)) (branch TkLast (sret (Some False))
           (err_syntax [ShText ''expected FIRST or LAST after NULLS''])))
         (sret None)) (\<lambda>nulls_first.
     sret \<lparr>ob_expr = expr, ob_asc = asc, ob_nulls_first = nulls_first\<rparr>)))"

definition ends_item :: "token \<Rightarrow> bool" where "ends_item t \<longleftrightarrow> t = TkFrom \<or> ends_clause t"

definition parse_select_item :: "('f, 'f expr) parser \<Rightarrow> ('f, 'f select_item) parser" where
  "parse_select_item E =
     branch TkStar (sret SiWildcard)
       (sbind E (\<lambda>expr.
        sbind (branch TkAs (pmap Some parse_identifier) (bare_alias ends_item)) (\<lambda>alias.
        sret (SiExpr expr alias))))"

definition parse_joins :: "('f, 'f expr) parser \<Rightarrow> ('f, 'f join list) parser" where
  "parse_joins E =
     parse_loop (\<lambda>joins. branch TkJoin
       (sbind parse_table_ref (\<lambda>right.
        sbind (branch TkOn (pmap Some E)
            (\<lambda>ts. if ends_clause (peek_token ts) then (Ok None, ts)
              else err_syntax [ShText ''expected ON <condition> after JOIN (or a valid clause terminator)''] ts)) (\<lambda>on.
        sret (Inl (joins @ [\<lparr>jn_right = right, jn_on = on\<rparr>])))))
       (sret (Inr joins))) []"

definition parse_select :: "('f, 'f expr) parser \<Rightarrow> ('f, 'f select_statement) parser" where
  "parse_select E =
     sbind (expect TkSelect) (\<lambda>_.
     sbind (eat_if TkDistinct) (\<lambda>distinct.
     sbind (comma_separated (parse_select_item E)) (\<lambda>select_list.
     sbind (expect TkFrom) (\<lambda>_.
     sbind parse_table_ref (\<lambda>from.
     sbind (parse_joins E) (\<lambda>joins.
     sbind (optional TkWhere E) (\<lambda>where_clause.
     sbind (branch TkGroup (after TkBy (comma_separated E)) (sret [])) (\<lambda>group_by.
     sbind (optional TkHaving E) (\<lambda>having.
     sbind (branch TkOrder (after TkBy (comma_separated (parse_order_by_expr E))) (sret [])) (\<lambda>order_by.
     sbind (optional TkLimit parse_usize_token) (\<lambda>limit.
     sbind (optional TkOffset parse_usize_token) (\<lambda>offset.
     sret \<lparr>sl_distinct = distinct, sl_select_list = select_list, sl_from = from, sl_joins = joins,
       sl_where_clause = where_clause, sl_group_by = group_by, sl_having = having, sl_order_by = order_by,
       sl_limit = limit, sl_offset = offset\<rparr>))))))))))))"

definition parse_case :: "('f, 'f expr) parser \<Rightarrow> ('f, 'f expr) parser" where
  "parse_case E =
     parse_loop (\<lambda>(whens, else_val).
       branch TkWhen
         (sbind E (\<lambda>cond. after TkThen (pmap (\<lambda>result. Inl (whens @ [(cond, result)], else_val)) E)))
       (branch TkElse (pmap (\<lambda>e. Inl (whens, Some e)) E)
       (branch TkEnd
         (if whens = [] then err_syntax [ShText ''CASE must have at least one WHEN''] else sret (Inr (ECase whens else_val)))
         (err_syntax [ShText ''expected WHEN, ELSE, or END in CASE expression''])))) ([], None)"

definition parse_cast :: "('f, 'f expr) parser \<Rightarrow> ('f, 'f expr) parser" where
  "parse_cast E =
     after TkLParen (sbind E (\<lambda>expr. after TkAs (sbind parse_sql_type (\<lambda>t. after TkRParen (sret (ECast expr t))))))"

definition aggregate_name :: "token \<Rightarrow> string option" where
  "aggregate_name t = (case t of TkCount \<Rightarrow> Some ''count'' | TkSum \<Rightarrow> Some ''sum'' | TkAvg \<Rightarrow> Some ''avg''
     | TkMin \<Rightarrow> Some ''min'' | TkMax \<Rightarrow> Some ''max'' | _ \<Rightarrow> None)"

definition parse_aggregate_function :: "('f, 'f expr) parser \<Rightarrow> string \<Rightarrow> ('f, 'f expr) parser" where
  "parse_aggregate_function E name =
     after TkLParen
       (branch TkStar (after TkRParen (sret (EFunction name [ELiteral (LString ''*'')])))
       (branch TkDistinct (pmap (\<lambda>arg. EFunction (name @ ''_distinct'') [arg]) (closed_by TkRParen E))
         (pmap (EFunction name) (closed_by TkRParen (comma_separated E)))))"

definition parse_exists :: "'f sql_lib \<Rightarrow> ('f, 'f expr) parser \<Rightarrow> ('f, 'f expr) parser" where
  "parse_exists L E =
     after TkLParen (sbind (parse_select E) (\<lambda>subquery.
       after TkRParen (sret (EFunction ''exists'' [ELiteral (LString (sl_show_select L subquery))]))))"

text \<open>The predicates after a column: \<open>IN\<close>, \<open>BETWEEN\<close>, \<open>LIKE\<close>, \<open>ILIKE\<close>; \<open>q\<close> when none of them follows.\<close>

definition parse_predicate :: "('f, 'f expr) parser \<Rightarrow> ('f, 'f expr) parser \<Rightarrow> 'f expr \<Rightarrow> ('f expr \<Rightarrow> 'f expr) \<Rightarrow>
    ('f, 'f expr) parser \<Rightarrow> ('f, 'f expr) parser" where
  "parse_predicate E C expr f q =
     branch TkIn (after TkLParen (pmap (\<lambda>xs. f (EIn expr xs)) (closed_by TkRParen (comma_separated E))))
     (branch TkBetween (sbind C (\<lambda>low. after TkAnd (pmap (\<lambda>high. f (EBetween expr low high)) E)))
     (branch TkLike (pmap (\<lambda>pattern. f (ELike expr pattern)) E)
     (branch TkILike (pmap (\<lambda>pattern. f (EILike expr pattern)) E) q)))"

text \<open>After \<open>NOT\<close> without a predicate the parser goes back to the \<open>NOT\<close>, where no other suffix
  matches.\<close>

definition parse_suffix :: "('f, 'f expr) parser \<Rightarrow> ('f, 'f expr) parser \<Rightarrow> 'f expr \<Rightarrow> ('f, 'f expr) parser" where
  "parse_suffix E C expr ts =
     branch TkNot (parse_predicate E C expr (EUnary UNot) (\<lambda>_. (Ok expr, ts)))
     (branch TkIs (branch TkNot (after TkNull (sret (EIsNotNull expr))) (after TkNull (sret (EIsNull expr))))
     (parse_predicate E C expr id (sret expr))) ts"

definition parse_column :: "('f, 'f expr) parser \<Rightarrow> ('f, 'f expr) parser \<Rightarrow> ('f, 'f expr) parser" where
  "parse_column E C =
     sbind parse_identifier (\<lambda>name.
     branch TkLParen (pmap (EFunction name) (closed_by TkRParen (comma_separated E)))
     (branch TkColonColon (pmap (ECast (EColumn name)) parse_sql_type)
     (parse_suffix E C (EColumn name))))"

definition parse_primary :: "'f sql_lib \<Rightarrow> (nat \<Rightarrow> ('f, 'f expr) parser) \<Rightarrow> nat \<Rightarrow> ('f, 'f expr) parser" where
  "parse_primary L U d ts =
     (let E = expression_with U d; C = parse_comparison (U d) in
      case peek_token ts of
        TkLParen \<Rightarrow> closed_by TkRParen E (tl ts)
      | TkCase \<Rightarrow> parse_case E (tl ts)
      | TkCast \<Rightarrow> parse_cast E (tl ts)
      | TkExists \<Rightarrow> parse_exists L E (tl ts)
      | TkNull \<Rightarrow> (Ok (ELiteral LNull), tl ts)
      | TkTrue \<Rightarrow> (Ok (ELiteral (LBoolean True)), tl ts)
      | TkFalse \<Rightarrow> (Ok (ELiteral (LBoolean False)), tl ts)
      | TkNumber s \<Rightarrow> (map_outcome id ELiteral (number_literal L s), tl ts)
      | TkString s \<Rightarrow> (Ok (ELiteral (LString s)), tl ts)
      | TkIdentifier _ \<Rightarrow> parse_column E C ts
      | t \<Rightarrow> (case aggregate_name t of
          Some name \<Rightarrow> parse_aggregate_function E name (tl ts)
        | None \<Rightarrow> err_syntax [ShText ''unexpected token: '', ShToken t] ts))"

fun parse_unary :: "'f sql_lib \<Rightarrow> nat \<Rightarrow> nat \<Rightarrow> ('f, 'f expr) parser" where
  "parse_unary L 0 d = slift Panic"
| "parse_unary L (Suc n) d =
     branch TkMinus (pmap (EUnary UNeg) (parse_unary L n d))
     (branch TkNot (pmap (EUnary UNot) (parse_unary L n d))
     (parse_primary L (parse_unary L n) d))"

definition parse_expression :: "'f sql_lib \<Rightarrow> nat \<Rightarrow> ('f, 'f expr) parser" where
  "parse_expression L stack = expression_with (parse_unary L stack) 0"

section \<open>Statements\<close>

definition parse_value_list :: "('f, 'f expr) parser \<Rightarrow> ('f, 'f expr list) parser" where
  "parse_value_list E = after TkLParen (closed_by TkRParen (comma_separated E))"

definition parse_insert :: "('f, 'f expr) parser \<Rightarrow> ('f, 'f insert_statement) parser" where
  "parse_insert E =
     after TkInsert (after TkInto
       (sbind parse_table_ref (\<lambda>table.
        sbind (branch TkLParen (closed_by TkRParen (comma_separated parse_identifier)) (sret [])) (\<lambda>columns.
        after TkValues (pmap (\<lambda>vs. \<lparr>in_table = table, in_columns = columns, in_values = vs\<rparr>)
          (comma_separated (parse_value_list E)))))))"

definition parse_assignment :: "('f, 'f expr) parser \<Rightarrow> ('f, 'f assignment) parser" where
  "parse_assignment E = sbind parse_identifier (\<lambda>column. after TkEq (pmap (\<lambda>v. \<lparr>as_column = column, as_value = v\<rparr>) E))"

definition parse_update :: "('f, 'f expr) parser \<Rightarrow> ('f, 'f update_statement) parser" where
  "parse_update E =
     after TkUpdate
       (sbind parse_table_ref (\<lambda>table.
        after TkSet
          (sbind (comma_separated (parse_assignment E)) (\<lambda>assignments.
           pmap (\<lambda>w. \<lparr>up_table = table, up_assignments = assignments, up_where_clause = w\<rparr>) (optional TkWhere E)))))"

definition parse_delete :: "('f, 'f expr) parser \<Rightarrow> ('f, 'f delete_statement) parser" where
  "parse_delete E =
     after TkDelete (after TkFrom
       (sbind parse_table_ref (\<lambda>table. pmap (\<lambda>w. \<lparr>de_table = table, de_where_clause = w\<rparr>) (optional TkWhere E))))"

text \<open>One round of the loop over the constraints of a column.\<close>

definition parse_constraint :: "'f sql_lib \<Rightarrow> ('f, 'f expr) parser \<Rightarrow> 'f column_def \<Rightarrow>
    ('f, 'f column_def + 'f column_def) parser" where
  "parse_constraint L E c =
     branch TkNot (after TkNull (sret (Inl (c\<lparr>cd_nullable := False\<rparr>))))
     (branch TkNull (sret (Inl (c\<lparr>cd_nullable := True\<rparr>)))
     (branch TkDefault
       (sbind (eat_identifier ''current_timestamp'') (\<lambda>a.
        sbind (if a then sret True else eat_identifier ''current_date'') (\<lambda>b.
        sbind (if b then sret True else eat_identifier ''current_time'') (\<lambda>now.
        pmap (\<lambda>v. Inl (c\<lparr>cd_default := Some v\<rparr>)) (if now then sret (LString ''current_timestamp'') else parse_literal L)))))
     (branch TkPrimary (after TkKey (sret (Inl (c\<lparr>cd_is_primary_key := True, cd_nullable := False\<rparr>))))
     (branch TkUnique (sret (Inl (c\<lparr>cd_unique := True\<rparr>)))
     (sbind (eat_identifier ''auto_increment'') (\<lambda>auto.
       if auto then sret (Inl (c\<lparr>cd_auto_increment := True\<rparr>))
       else branch TkCheck
         (after TkLParen (pmap (\<lambda>e. Inl (c\<lparr>cd_check_expr := Some e\<rparr>)) (closed_by TkRParen E)))
         (sret (Inr c))))))))"

definition parse_column_def :: "'f sql_lib \<Rightarrow> ('f, 'f expr) parser \<Rightarrow> ('f, 'f column_def) parser" where
  "parse_column_def L E =
     sbind parse_identifier (\<lambda>name.
     sbind parse_sql_type (\<lambda>t.
     parse_loop (parse_constraint L E) \<lparr>cd_name = name, cd_sql_type = t, cd_nullable = True, cd_default = None,
       cd_unique = False, cd_is_primary_key = False, cd_auto_increment = False, cd_check_expr = None\<rparr>))"

definition parse_create_table :: "'f sql_lib \<Rightarrow> ('f, 'f expr) parser \<Rightarrow> ('f, 'f create_table_statement) parser" where
  "parse_create_table L E =
     after TkCreate (after TkTable
       (sbind parse_table_ref (\<lambda>table.
        after TkLParen (pmap (\<lambda>cs. \<lparr>ct_table = table, ct_columns = cs\<rparr>)
          (closed_by TkRParen (comma_separated (parse_column_def L E)))))))"

definition parse_drop_table :: "('f, drop_table_statement) parser" where
  "parse_drop_table = after TkDrop (after TkTable (pmap (\<lambda>t. \<lparr>dt_table = t\<rparr>) parse_table_ref))"

definition parse_statement :: "'f sql_lib \<Rightarrow> nat \<Rightarrow> ('f, 'f statement) parser" where
  "parse_statement L stack ts =
     (let E = parse_expression L stack in
      case peek_token ts of
        TkSelect \<Rightarrow> pmap StSelect (parse_select E) ts
      | TkInsert \<Rightarrow> pmap StInsert (parse_insert E) ts
      | TkUpdate \<Rightarrow> pmap StUpdate (parse_update E) ts
      | TkDelete \<Rightarrow> pmap StDelete (parse_delete E) ts
      | TkCreate \<Rightarrow> pmap StCreateTable (parse_create_table L E) ts
      | TkDrop \<Rightarrow> pmap StDropTable parse_drop_table ts
      | t \<Rightarrow> err_syntax [ShText ''unexpected token at start of statement: '', ShToken t] ts)"

definition parse_program :: "'f sql_lib \<Rightarrow> nat \<Rightarrow> ('f, 'f statement list) parser" where
  "parse_program L stack =
     parse_loop (\<lambda>statements ts.
       if peek_token ts = TkEof then (Ok (Inr statements), ts)
       else sbind (parse_statement L stack) (\<lambda>st. branch TkSemicolon (sret (Inl (statements @ [st])))
         (sret (Inl (statements @ [st])))) ts) []"

end
