(* ===== verification/Sql_Total.thy ===== *)
theory Sql_Total
  imports Sql_Parser
begin

text \<open>
  Termination of the SQL parser: every loop ends within its bound, and with a stack deeper than the
  number of tokens no input exhausts it. A parser \<^emph>\<open>fits\<close> \<open>k\<close> when on at most \<open>k\<close> tokens it
  comes back without giving tokens back, and \<^emph>\<open>eats\<close> when it also takes one whenever it succeeds.
\<close>

section \<open>Consuming tokens\<close>

definition fits :: "nat \<Rightarrow> ('f, 'a) parser \<Rightarrow> bool" where
  "fits k p \<longleftrightarrow> (\<forall>ts. length ts \<le> k \<longrightarrow> returns (fst (p ts)) \<and> length (snd (p ts)) \<le> length ts)"

definition eats :: "nat \<Rightarrow> ('f, 'a) parser \<Rightarrow> bool" where
  "eats k p \<longleftrightarrow> fits k p \<and> (\<forall>ts x. length ts \<le> k \<longrightarrow> fst (p ts) = Ok x \<longrightarrow> length (snd (p ts)) < length ts)"

text \<open>The body of a loop takes a token when it goes on.\<close>

definition steps :: "nat \<Rightarrow> ('f, 'a + 'b) parser \<Rightarrow> bool" where
  "steps k p \<longleftrightarrow> fits k p \<and> (\<forall>ts x. length ts \<le> k \<longrightarrow> fst (p ts) = Ok (Inl x) \<longrightarrow> length (snd (p ts)) < length ts)"

named_theorems fits_intros \<open>composing parsers that consume tokens\<close>

lemma eats_fits: "eats k p \<Longrightarrow> fits k p" by (simp add: eats_def)

lemma eats_steps: "eats k p \<Longrightarrow> steps k p" by (simp add: eats_def steps_def)

lemma fits_mono: "fits k p \<Longrightarrow> j \<le> k \<Longrightarrow> fits j p" by (simp add: fits_def)

lemma eats_mono: "eats k p \<Longrightarrow> j \<le> k \<Longrightarrow> eats j p" by (simp add: eats_def fits_def)

lemma fits_sret [fits_intros]: "fits k (sret x)" by (simp add: fits_def)

lemma steps_sret [fits_intros]: "steps k (sret (Inr x))" by (simp add: steps_def fits_sret)

lemma eats_err [fits_intros]: "eats k (err_syntax m)"
  by (auto simp: eats_def fits_def err_syntax_def split: list.split)

lemma sbind_fits_cases:
  assumes "fits k p" and "length ts \<le> k"
  obtains x ts' where "p ts = (Ok x, ts')" "length ts' \<le> length ts" "sbind p f ts = f x ts'"
  | e ts' where "p ts = (Err e, ts')" "length ts' \<le> length ts" "sbind p f ts = (Err e, ts')"
proof (cases "p ts")
  case (Pair r ts')
  then show ?thesis using assms that by (cases r) (auto simp: fits_def)
qed

lemma fits_bind [fits_intros]: "fits k p \<Longrightarrow> (\<And>x. fits k (f x)) \<Longrightarrow> fits k (sbind p f)"
proof (unfold fits_def [of k "sbind p f"], intro allI impI)
  fix ts :: ptokens assume p: "fits k p" and f: "\<And>x. fits k (f x)" and ts: "length ts \<le> k"
  show "returns (fst (sbind p f ts)) \<and> length (snd (sbind p f ts)) \<le> length ts"
    using p ts by (cases rule: sbind_fits_cases [where f = f]) (use f ts in \<open>auto simp: fits_def intro: order_trans\<close>)
qed

lemma eats_then: "eats k p \<Longrightarrow> (\<And>j x. k = Suc j \<Longrightarrow> fits j (f x)) \<Longrightarrow> eats k (sbind p f)"
proof -
  assume p: "eats k p" and f: "\<And>j x. k = Suc j \<Longrightarrow> fits j (f x)"
  have "returns (fst (sbind p f ts)) \<and> length (snd (sbind p f ts)) \<le> length ts \<and>
      (\<forall>x. fst (sbind p f ts) = Ok x \<longrightarrow> length (snd (sbind p f ts)) < length ts)" if ts: "length ts \<le> k" for ts
  proof (rule sbind_fits_cases [OF eats_fits [OF p] ts, where f = f])
    fix x ts' assume x: "p ts = (Ok x, ts')" "sbind p f ts = f x ts'"
    have less: "length ts' < length ts" using p ts x(1) by (auto simp: eats_def)
    then obtain j where j: "k = Suc j" using ts by (cases k) auto
    have "length ts' \<le> j" using less ts j by simp
    then have "returns (fst (f x ts')) \<and> length (snd (f x ts')) \<le> length ts'" using f [OF j] by (simp add: fits_def)
    then show ?thesis using less x(2) by auto
  qed auto
  then show ?thesis by (simp add: eats_def fits_def)
qed

lemma eats_later: "fits k p \<Longrightarrow> (\<And>x. eats k (f x)) \<Longrightarrow> eats k (sbind p f)"
proof -
  assume p: "fits k p" and f: "\<And>x. eats k (f x)"
  have "length (snd (sbind p f ts)) < length ts" if ts: "length ts \<le> k" and ok: "fst (sbind p f ts) = Ok y" for ts y
  proof (rule sbind_fits_cases [OF p ts, where f = f])
    fix x ts' assume x: "p ts = (Ok x, ts')" "length ts' \<le> length ts" "sbind p f ts = f x ts'"
    have "length (snd (f x ts')) < length ts'" using f [of x] ts ok x unfolding eats_def by fastforce
    then show ?thesis using x by simp
  qed (use ok in auto)
  moreover have "fits k (sbind p f)" using p f by (intro fits_bind) (auto intro: eats_fits)
  ultimately show ?thesis by (simp add: eats_def)
qed

lemma eats_expect [fits_intros]: "t \<noteq> TkEof \<Longrightarrow> eats k (expect t)"
  by (auto simp: eats_def fits_def expect_def err_syntax_def peek_token_def split: list.splits)

lemma fits_err [fits_intros]: "fits k (err_syntax m)"
  by (rule eats_fits [OF eats_err])

lemma fits_expect [fits_intros]: "t \<noteq> TkEof \<Longrightarrow> fits k (expect t)"
  by (rule eats_fits [OF eats_expect])

lemma eats_identifier [fits_intros]: "eats k parse_identifier"
  by (auto simp: eats_def fits_def parse_identifier_def err_syntax_def peek_token_def split: list.splits token.splits)

lemma fits_eat_identifier [fits_intros]: "fits k (eat_identifier s)"
  by (auto simp: fits_def eat_identifier_def split: token.splits)

lemma fits_eat_if [fits_intros]: "fits k (eat_if t)"
  by (auto simp: fits_def eat_if_def)

lemma eats_sql_type [fits_intros]: "eats k parse_sql_type"
  unfolding parse_sql_type_def
  by (rule eats_then) (auto intro: fits_intros eats_fits split: option.split)

lemma returns_number_literal [simp]: "returns (number_literal L s)"
  by (auto simp: number_literal_def split: option.split)

lemma returns_map_outcome [simp]: "returns (map_outcome f g r) = returns r"
  by (cases r) simp_all

lemma eats_literal [fits_intros]: "eats k (parse_literal L)"
  by (auto simp: eats_def fits_def parse_literal_def err_syntax_def peek_token_def split: list.splits token.splits)

lemma eats_usize [fits_intros]: "eats k parse_usize_token"
  by (auto simp: eats_def fits_def parse_usize_token_def err_syntax_def peek_token_def split: list.splits token.splits option.splits)

lemma branch_apply:
  "branch t p q ts = (if peek_token ts = t then p (tl ts) else q ts)"
  by (simp add: branch_def eat_if_def sbind_def)

lemma sbind_eat_if: "sbind (eat_if t) f ts = (if peek_token ts = t then f True (tl ts) else f False ts)"
  by (simp add: eat_if_def sbind_def)

lemma sbind_expect: "peek_token ts = t \<Longrightarrow> sbind (expect t) f ts = f () (tl ts)"
  by (simp add: expect_def sbind_def)

lemma peek_Cons: "t \<noteq> TkEof \<Longrightarrow> peek_token ts = t \<Longrightarrow> \<exists>x ts'. ts = x # ts'"
  by (cases ts) (auto simp: peek_token_def)

lemma fits_branch [fits_intros]:
  assumes "t \<noteq> TkEof" and "\<And>j. k = Suc j \<Longrightarrow> fits j p" and "fits k q"
  shows "fits k (branch t p q)"
  unfolding fits_def
proof (intro allI impI)
  fix ts :: ptokens assume ts: "length ts \<le> k"
  show "returns (fst (branch t p q ts)) \<and> length (snd (branch t p q ts)) \<le> length ts"
  proof (cases "peek_token ts = t")
    case True
    then obtain x ts' j where "ts = x # ts'" "k = Suc j" using assms(1) peek_Cons ts by (cases k) fastforce+
    then show ?thesis using assms(2) ts True by (fastforce simp: branch_apply fits_def)
  next
    case False
    then show ?thesis using assms(3) ts by (simp add: branch_apply fits_def)
  qed
qed

lemma branch_less:
  assumes "t \<noteq> TkEof" and "\<And>j. k = Suc j \<Longrightarrow> fits j p" and "length ts \<le> k" and "peek_token ts = t"
  shows "length (snd (branch t p q ts)) < length ts"
proof -
  obtain x ts' j where j: "ts = x # ts'" "k = Suc j" using assms(1,3,4) peek_Cons by (cases k) fastforce+
  then have "length (snd (p ts')) \<le> length ts'" using assms(2,3) by (simp add: fits_def)
  then show ?thesis using j assms(4) by (simp add: branch_apply)
qed

lemma eats_branch [fits_intros]:
  assumes "t \<noteq> TkEof" and "\<And>j. k = Suc j \<Longrightarrow> fits j p" and "eats k q"
  shows "eats k (branch t p q)"
proof -
  have "length (snd (branch t p q ts)) < length ts" if "length ts \<le> k" "fst (branch t p q ts) = Ok x" for ts x
  proof (cases "peek_token ts = t")
    case True
    then show ?thesis using branch_less assms(1,2) that(1) by blast
  next
    case False
    then show ?thesis using assms(3) that by (simp add: branch_apply eats_def)
  qed
  moreover have "fits k (branch t p q)" using assms by (intro fits_branch) (auto intro: eats_fits)
  ultimately show ?thesis by (simp add: eats_def)
qed

lemma steps_branch [fits_intros]:
  assumes "t \<noteq> TkEof" and "\<And>j. k = Suc j \<Longrightarrow> fits j p" and "steps k q"
  shows "steps k (branch t p q)"
proof -
  have "length (snd (branch t p q ts)) < length ts" if "length ts \<le> k" "fst (branch t p q ts) = Ok (Inl x)" for ts x
  proof (cases "peek_token ts = t")
    case True
    then show ?thesis using branch_less assms(1,2) that(1) by blast
  next
    case False
    then show ?thesis using assms(3) that by (simp add: branch_apply steps_def)
  qed
  moreover have "fits k (branch t p q)" using assms by (intro fits_branch) (auto simp: steps_def)
  ultimately show ?thesis by (simp add: steps_def)
qed

lemma eats_after [fits_intros]: "t \<noteq> TkEof \<Longrightarrow> (\<And>j. k = Suc j \<Longrightarrow> fits j p) \<Longrightarrow> eats k (after t p)"
  unfolding after_def by (rule eats_then) (auto intro: eats_expect)

lemma fits_after [fits_intros]: "t \<noteq> TkEof \<Longrightarrow> (\<And>j. k = Suc j \<Longrightarrow> fits j p) \<Longrightarrow> fits k (after t p)"
  by (rule eats_fits [OF eats_after])

lemma fits_pmap [fits_intros]: "fits k p \<Longrightarrow> fits k (pmap f p)"
  unfolding pmap_def by (intro fits_intros)

lemma eats_pmap [fits_intros]: "eats k p \<Longrightarrow> eats k (pmap f p)"
  unfolding pmap_def by (rule eats_then) (auto intro: fits_intros)

lemma fits_closed_by [fits_intros]: "t \<noteq> TkEof \<Longrightarrow> fits k p \<Longrightarrow> fits k (closed_by t p)"
  unfolding closed_by_def by (intro fits_intros)

lemma eats_closed_by [fits_intros]: "t \<noteq> TkEof \<Longrightarrow> eats k p \<Longrightarrow> eats k (closed_by t p)"
  unfolding closed_by_def by (rule eats_then) (auto intro: fits_intros eats_fits)

lemma fits_optional [fits_intros]: "t \<noteq> TkEof \<Longrightarrow> fits k p \<Longrightarrow> fits k (optional t p)"
  unfolding optional_def by (intro fits_intros) (auto intro: fits_mono)

lemma fits_loop_upto:
  assumes "\<And>x. steps k (body x)" and "length ts \<le> k" and "length ts < n"
  shows "returns (fst (loop_upto n body x ts)) \<and> length (snd (loop_upto n body x ts)) \<le> length ts"
  using assms(2,3)
proof (induction n arbitrary: x ts)
  case (Suc n)
  have b: "fits k (body x)" using assms(1) by (simp add: steps_def)
  show ?case
    using b Suc.prems(1)
  proof (cases rule: sbind_fits_cases [where f = "\<lambda>r. case r of Inl y \<Rightarrow> loop_upto n body y | Inr z \<Rightarrow> sret z"])
    case (1 r ts')
    show ?thesis
    proof (cases r)
      case (Inl y)
      then have "length ts' < length ts" using assms(1) [of x] 1(1) Suc.prems(1) by (auto simp: steps_def)
      then show ?thesis using Suc.IH [of ts' y] Suc.prems 1 Inl by simp
    next
      case (Inr z)
      then show ?thesis using 1 by simp
    qed
  qed simp_all
qed simp

lemma fits_loop [fits_intros]: "(\<And>x. steps k (body x)) \<Longrightarrow> fits k (parse_loop body x)"
  using fits_loop_upto by (fastforce simp: fits_def parse_loop_def)

lemma fits_comma_rest:
  assumes "fits k p"
  shows "fits k (parse_loop (\<lambda>xs. branch TkComma (pmap (\<lambda>x. Inl (xs @ [x])) p) (sret (Inr xs))) xs)"
  using assms by (intro fits_intros) (auto intro: fits_mono)

lemma eats_comma [fits_intros]: "eats k p \<Longrightarrow> eats k (comma_separated p)"
  unfolding comma_separated_def
  by (rule eats_then) (auto intro!: fits_comma_rest intro: fits_mono eats_fits)

lemma fits_comma [fits_intros]: "fits k p \<Longrightarrow> fits k (comma_separated p)"
  unfolding comma_separated_def by (intro fits_bind fits_comma_rest)

lemmas fits_leaves [fits_intros] = eats_fits [OF eats_identifier] eats_fits [OF eats_sql_type] eats_fits [OF eats_literal]
  eats_fits [OF eats_usize]

lemma fits_apply: "fits k p \<Longrightarrow> length ts \<le> k \<Longrightarrow> returns (fst (p ts)) \<and> length (snd (p ts)) \<le> length ts"
  by (simp add: fits_def)

section \<open>Expressions\<close>

lemma steps_chain_body:
  fixes p :: "('f, 'f expr) parser" and left :: "'f expr"
  assumes "fits k p" and "ops TkEof = None"
  shows "steps k (\<lambda>ts. case ops (peek_token ts) of
         Some op \<Rightarrow> pmap (\<lambda>right. Inl (EBinary left op right)) p (tl ts)
       | None \<Rightarrow> (Ok (Inr left), ts))" (is "steps k ?b")
proof -
  have "returns (fst (?b ts)) \<and> length (snd (?b ts)) \<le> length ts \<and>
      (\<forall>x. fst (?b ts) = Ok (Inl x) \<longrightarrow> length (snd (?b ts)) < length ts)" if ts: "length ts \<le> k" for ts
  proof (cases ts)
    case Nil
    then show ?thesis by (simp add: peek_token_def assms(2))
  next
    case (Cons t ts')
    show ?thesis
    proof (cases "ops (fst t)")
      case None
      then show ?thesis using Cons by (simp add: peek_token_def)
    next
      case (Some op)
      have "fits k (pmap (\<lambda>right. Inl (EBinary left op right) :: 'f expr + 'f expr) p)" by (rule fits_pmap [OF assms(1)])
      then have "returns (fst (pmap (\<lambda>right. Inl (EBinary left op right) :: 'f expr + 'f expr) p ts')) \<and>
          length (snd (pmap (\<lambda>right. Inl (EBinary left op right) :: 'f expr + 'f expr) p ts')) \<le> length ts'"
        using ts Cons by (simp add: fits_def)
      then show ?thesis using Cons Some by (auto simp: peek_token_def)
    qed
  qed
  then show ?thesis by (simp add: steps_def fits_def)
qed

lemma eats_chain:
  assumes "eats k p" and "ops TkEof = None"
  shows "eats k (op_chain ops p)"
  unfolding op_chain_def
  by (rule eats_then [OF assms(1)], rule fits_loop, rule steps_chain_body)
    (use assms in \<open>auto intro: fits_mono eats_fits\<close>)

lemma eats_or:
  assumes "eats k U"
  shows "eats k (parse_or U)" and "eats k (parse_comparison U)"
proof -
  show cmp: "eats k (parse_comparison U)"
    unfolding parse_comparison_def parse_term_def parse_factor_def
    by (intro eats_chain assms) (simp_all add: comparison_op_def term_op_def factor_op_def)
  show "eats k (parse_or U)"
    unfolding parse_or_def parse_and_def parse_equality_def
    by (intro eats_chain cmp) (simp_all add: or_op_def and_op_def equality_op_def)
qed

lemma eats_expression_with: "(\<And>d. eats k (U d)) \<Longrightarrow> eats k (expression_with U d)"
  by (simp add: expression_with_def eats_or eats_def [of k "slift _"] fits_def)

lemma fits_bare_alias [fits_intros]: "fits k (bare_alias f)"
  by (auto simp: fits_def bare_alias_def parse_identifier_def peek_is_identifier_def split: token.splits if_splits)

lemma eats_table_ref [fits_intros]: "eats k parse_table_ref"
  unfolding parse_table_ref_def by (rule eats_then) (intro fits_intros; simp)+

lemmas fits_table_ref [fits_intros] = eats_fits [OF eats_table_ref]

lemma fits_no_on [fits_intros]: "fits k (\<lambda>ts. if ends_clause (peek_token ts) then (Ok None, ts) else err_syntax m ts)"
  using eats_err [of k m] by (auto simp: fits_def eats_def)

lemma eats_select_item: "eats k E \<Longrightarrow> eats k (parse_select_item E)"
  unfolding parse_select_item_def
  by (intro eats_branch eats_then [of k E]; (intro fits_intros)?; simp)

lemma eats_order_by: "eats k E \<Longrightarrow> eats k (parse_order_by_expr E)"
  unfolding parse_order_by_expr_def by (rule eats_then; (intro fits_intros)?; simp)

lemma fits_joins: "fits k E \<Longrightarrow> fits k (parse_joins E)"
  unfolding parse_joins_def
  by (intro fits_loop steps_branch; (intro fits_intros)?; simp add: fits_mono)

lemma eats_select: 
  assumes "eats k E"
  shows "eats k (parse_select E)"
proof -
  have E: "fits j E" "fits j (parse_select_item E)" "fits j (parse_order_by_expr E)" "fits j (parse_joins E)" if "j \<le> k" for j
    using eats_mono [OF assms that] by (simp_all add: eats_fits eats_select_item eats_order_by fits_joins)
  show ?thesis
    unfolding parse_select_def
    by (rule eats_then [OF eats_expect]; (intro fits_intros E)?; simp)
qed

lemma fits_case: "fits k E \<Longrightarrow> fits k (parse_case E)"
  unfolding parse_case_def
  by (rule fits_loop, simp only: case_prod_beta) (intro fits_intros eats_steps; simp add: fits_mono fits_intros)

lemma eats_cast: "(\<And>j. k = Suc j \<Longrightarrow> fits j E) \<Longrightarrow> eats k (parse_cast E)"
  unfolding parse_cast_def by (intro fits_intros; simp add: fits_mono)

lemma eats_aggregate: "(\<And>j. k = Suc j \<Longrightarrow> fits j E) \<Longrightarrow> eats k (parse_aggregate_function E name)"
  unfolding parse_aggregate_function_def by (intro fits_intros; simp add: fits_mono)

lemma eats_exists: "(\<And>j. k = Suc j \<Longrightarrow> eats j E) \<Longrightarrow> eats k (parse_exists L E)"
  unfolding parse_exists_def by (intro fits_intros; simp add: eats_fits eats_select)

lemma eats_predicate [fits_intros]:
  assumes "\<And>j. k = Suc j \<Longrightarrow> eats j E" and "\<And>j. k = Suc j \<Longrightarrow> eats j C" and "eats k q"
  shows "eats k (parse_predicate E C e f q)"
proof -
  have E: "fits i E" "fits i C" if "i < k" for i
    using assms(1,2) that by (cases k; auto intro: fits_mono eats_fits)+
  show ?thesis
    unfolding parse_predicate_def by (intro fits_intros E; simp add: assms(3))
qed

lemma fits_predicate [fits_intros]:
  assumes "\<And>j. k = Suc j \<Longrightarrow> eats j E" and "\<And>j. k = Suc j \<Longrightarrow> eats j C" and "fits k q"
  shows "fits k (parse_predicate E C e f q)"
proof -
  have E: "fits i E" "fits i C" if "i < k" for i
    using assms(1,2) that by (cases k; auto intro: fits_mono eats_fits)+
  show ?thesis
    unfolding parse_predicate_def by (intro fits_intros E; simp add: assms(3))
qed

lemma fits_suffix [fits_intros]:
  assumes "\<And>j. j \<le> k \<Longrightarrow> eats j E" and "\<And>j. j \<le> k \<Longrightarrow> eats j C"
  shows "fits k (parse_suffix E C e)"
proof -
  have go_back: "returns (fst (parse_predicate E C e g (\<lambda>_. (Ok e, ts)) (tl ts))) \<and>
      length (snd (parse_predicate E C e g (\<lambda>_. (Ok e, ts)) (tl ts))) \<le> length ts" if ts: "length ts \<le> k" for ts g
  proof -
    have same: "parse_predicate E C e g (\<lambda>_. (Ok e, ts)) (tl ts) =
        (if peek_token (tl ts) \<in> {TkIn, TkBetween, TkLike, TkILike} then parse_predicate E C e g (sret e) (tl ts) else (Ok e, ts))"
      by (auto simp: parse_predicate_def branch_apply)
    have "fits k (parse_predicate E C e g (sret e))" using assms by (intro fits_intros) auto
    moreover have "length (tl ts) \<le> k" using ts by simp
    ultimately have "returns (fst (parse_predicate E C e g (sret e) (tl ts))) \<and>
        length (snd (parse_predicate E C e g (sret e) (tl ts))) \<le> length (tl ts)" by (rule fits_apply)
    then show ?thesis unfolding same by (cases ts) auto
  qed
  have rest: "fits k (branch TkIs (branch TkNot (after TkNull (sret (EIsNotNull e))) (after TkNull (sret (EIsNull e))))
     (parse_predicate E C e id (sret e)))"
    using assms by (intro fits_intros) auto
  show ?thesis
    unfolding fits_def
  proof (intro allI impI)
    fix ts :: ptokens assume ts: "length ts \<le> k"
    show "returns (fst (parse_suffix E C e ts)) \<and> length (snd (parse_suffix E C e ts)) \<le> length ts"
      unfolding parse_suffix_def branch_apply [of TkNot _ _ ts] using go_back [OF ts] fits_apply [OF rest ts] by simp
  qed
qed

lemma eats_column:
  assumes "\<And>j. j < k \<Longrightarrow> eats j E" and "\<And>j. j < k \<Longrightarrow> eats j C"
  shows "eats k (parse_column E C)"
proof -
  have "fits i E" if "i < k" for i using assms(1) [OF that] by (rule eats_fits)
  then show ?thesis
    unfolding parse_column_def
    by (intro eats_then [OF eats_identifier] fits_intros; simp add: assms)
qed

lemma eats_primary:
  assumes "\<And>j d. j < k \<Longrightarrow> eats j (U d)"
  shows "eats k (parse_primary L U d)"
proof -
  define E where "E = expression_with U d"
  define C where "C = parse_comparison (U d)"
  have E: "eats j E" and C: "eats j C" if "j < k" for j
    using assms that by (auto simp: E_def C_def intro: eats_expression_with eats_or(2))
  have "returns (fst (parse_primary L U d ts)) \<and> length (snd (parse_primary L U d ts)) \<le> length ts \<and>
      (\<forall>x. fst (parse_primary L U d ts) = Ok x \<longrightarrow> length (snd (parse_primary L U d ts)) < length ts)" if ts: "length ts \<le> k" for ts
  proof (cases ts)
    case Nil
    then show ?thesis by (simp add: parse_primary_def peek_token_def err_syntax_def aggregate_name_def)
  next
    case (Cons t ts')
    then obtain j where j: "k = Suc j" using ts by (cases k) auto
    have le: "length ts' \<le> j" and E': "i \<le> j \<Longrightarrow> eats i E" for i using ts Cons E j by simp_all
    have sub: "returns (fst (p ts')) \<and> length (snd (p ts')) \<le> length ts'" if "fits j p" for p :: "('a, 'a expr) parser"
      using that le by (rule fits_apply)
    have column: "returns (fst (parse_column E C ts))" "length (snd (parse_column E C ts)) \<le> length ts"
        "fst (parse_column E C ts) = Ok x \<Longrightarrow> length (snd (parse_column E C ts)) < length ts" for x
      using eats_column [OF E C] ts by (auto simp: eats_def fits_def)
    have fitsE: "i \<le> j \<Longrightarrow> fits i E" for i using E' by (simp add: eats_fits)
    have subs: "fits j (closed_by TkRParen E)" "fits j (parse_case E)" "fits j (parse_cast E)" "fits j (parse_exists L E)"
        "fits j (parse_aggregate_function E name)" for name
      by (simp_all add: fits_closed_by fits_case eats_fits [OF eats_cast] eats_fits [OF eats_exists] eats_fits [OF eats_aggregate]
          fitsE E')
    show ?thesis
      using subs [THEN sub] column ts Cons unfolding parse_primary_def E_def [symmetric] C_def [symmetric] Let_def
      by (cases "fst t") (auto simp: peek_token_def eats_def fits_def aggregate_name_def err_syntax_def less_Suc_eq_le
          intro: le_SucI split: prod.split)
  qed
  then show ?thesis by (simp add: eats_def fits_def)
qed

lemma eats_unary: "k < n \<Longrightarrow> eats k (parse_unary L n d)"
proof (induction n arbitrary: k d)
  case (Suc n)
  then have U: "eats j (parse_unary L n d)" if "j < k" for j d using that by simp
  then have "eats k (parse_primary L (parse_unary L n) d)" by (rule eats_primary)
  then show ?case using U by (auto intro!: fits_intros eats_fits [OF U])
qed simp

lemma eats_expression: "k < stack \<Longrightarrow> eats k (parse_expression L stack)"
  by (simp add: parse_expression_def eats_expression_with eats_unary)

section \<open>Statements\<close>

lemma eats_insert: "eats k E \<Longrightarrow> eats k (parse_insert E)"
proof -
  assume "eats k E"
  then have E: "fits j E" if "j \<le> k" for j using eats_mono that by (blast intro: eats_fits)
  show ?thesis unfolding parse_insert_def parse_value_list_def by (intro fits_intros E; simp)
qed

lemma eats_update: "eats k E \<Longrightarrow> eats k (parse_update E)"
proof -
  assume "eats k E"
  then have E: "fits j E" if "j \<le> k" for j using eats_mono that by (blast intro: eats_fits)
  show ?thesis unfolding parse_update_def parse_assignment_def by (intro fits_intros E; simp)
qed

lemma eats_delete: "eats k E \<Longrightarrow> eats k (parse_delete E)"
proof -
  assume "eats k E"
  then have E: "fits j E" if "j \<le> k" for j using eats_mono that by (blast intro: eats_fits)
  show ?thesis unfolding parse_delete_def by (intro fits_intros E; simp)
qed

lemma steps_constraint: 
  assumes "eats k E"
  shows "steps k (parse_constraint L E c)"
proof -
  have E: "fits j E" if "j \<le> k" for j using eats_mono assms that by (blast intro: eats_fits)
  have auto: "steps k (sbind (eat_identifier s) (\<lambda>b. if b then sret (Inl x) else q))" if "steps k q" for s x and q :: "('a, 'b + 'c) parser"
    using that by (fastforce simp: steps_def fits_def eat_identifier_def sbind_def peek_token_def
        split: token.splits list.splits if_splits)
  show ?thesis
    unfolding parse_constraint_def
    by (intro auto fits_intros E; (intro conjI impI)?; simp add: fits_intros E)
qed

lemma eats_column_def: "eats k E \<Longrightarrow> eats k (parse_column_def L E)"
proof -
  assume E: "eats k E"
  have "steps j (parse_constraint L E c)" if "j \<le> k" for j c using eats_mono [OF E that] by (rule steps_constraint)
  then show ?thesis unfolding parse_column_def_def
    by (intro eats_then [OF eats_identifier] fits_intros; simp)
qed

lemma eats_create_table: "eats k E \<Longrightarrow> eats k (parse_create_table L E)"
proof -
  assume "eats k E"
  then have E: "fits j (parse_column_def L E)" if "j \<le> k" for j using eats_mono that by (blast intro: eats_fits eats_column_def)
  show ?thesis unfolding parse_create_table_def by (intro fits_intros E; simp)
qed

lemma parse_statement_if:
  "parse_statement L stack = (let E = parse_expression L stack in (\<lambda>ts.
     if peek_token ts = TkSelect then pmap StSelect (parse_select E) ts
     else if peek_token ts = TkInsert then pmap StInsert (parse_insert E) ts
     else if peek_token ts = TkUpdate then pmap StUpdate (parse_update E) ts
     else if peek_token ts = TkDelete then pmap StDelete (parse_delete E) ts
     else if peek_token ts = TkCreate then pmap StCreateTable (parse_create_table L E) ts
     else if peek_token ts = TkDrop then pmap StDropTable parse_drop_table ts
     else err_syntax [ShText ''unexpected token at start of statement: '', ShToken (peek_token ts)] ts))"
  by (rule ext) (simp add: parse_statement_def Let_def split: token.split)

lemma eats_if: "eats k p \<Longrightarrow> eats k q \<Longrightarrow> eats k (\<lambda>ts. if c ts then p ts else q ts)"
  by (auto simp: eats_def fits_def)

lemma eats_err_at: "eats k (\<lambda>ts. err_syntax (m ts) ts)"
  by (auto simp: eats_def fits_def err_syntax_def split: list.split)

lemma eats_statement: "k < stack \<Longrightarrow> eats k (parse_statement L stack)"
proof -
  assume k: "k < stack"
  have E: "eats k (parse_expression L stack)" using k by (rule eats_expression)
  have drop: "eats k (pmap StDropTable parse_drop_table)" unfolding parse_drop_table_def by (intro fits_intros; simp)
  show ?thesis
    unfolding parse_statement_if Let_def
    by (intro eats_if eats_pmap eats_err_at drop eats_select eats_insert eats_update eats_delete eats_create_table E)
qed

lemma steps_program:
  assumes "k < stack"
  shows "steps k (\<lambda>ts. if peek_token ts = TkEof then (Ok (Inr statements), ts)
       else sbind (parse_statement L stack) (\<lambda>st. branch TkSemicolon (sret (Inl (statements @ [st])))
         (sret (Inl (statements @ [st])))) ts)"
proof -
  have "eats k (sbind (parse_statement L stack) (\<lambda>st. branch TkSemicolon (sret (Inl (statements @ [st])))
         (sret (Inl (statements @ [st])))))"
    by (rule eats_then [OF eats_statement [OF assms]]) (intro fits_intros; simp)
  then show ?thesis by (auto simp: steps_def eats_def fits_def)
qed

lemma parse_program_returns: "length ts < stack \<Longrightarrow> returns (fst (parse_program L stack ts))"
proof -
  assume "length ts < stack"
  then have "fits (length ts) (parse_program L stack)" unfolding parse_program_def by (intro fits_loop steps_program)
  then show ?thesis by (simp add: fits_def)
qed

section \<open>Deep expressions\<close>

lemma unary_overflow: "stack \<le> n \<Longrightarrow> parse_unary L stack d (replicate n (TkMinus, p) @ ts) = (Panic, replicate (n - stack) (TkMinus, p) @ ts)"
proof (induction stack arbitrary: n)
  case (Suc stack)
  then obtain m where "n = Suc m" by (cases n) auto
  then show ?case using Suc by (simp add: branch_apply peek_token_def pmap_def sbind_def)
qed simp

lemma chain_panic: "p ts = (Panic, ts') \<Longrightarrow> op_chain ops p ts = (Panic, ts')"
  by (simp add: op_chain_def)

lemma or_panic: "U ts = (Panic, ts') \<Longrightarrow> parse_or U ts = (Panic, ts')"
  unfolding parse_or_def parse_and_def parse_equality_def parse_comparison_def parse_term_def parse_factor_def
  by (intro chain_panic)

text \<open>C35: The SQL parser comes back on every text, given stack. With a call stack deeper than the
  number of tokens the parser ends with statements or an error; and the limit on nesting does not
  bound the stack: whatever its depth, enough minus signs in front of an expression exhaust it.\<close>

theorem sql_parser_stack:
  "(length ts < stack \<longrightarrow> returns (fst (parse_program L stack ts))) \<and>
   (0 < n \<and> stack \<le> n \<longrightarrow> fst (parse_program L stack ((TkSelect, p) # replicate n (TkMinus, p) @ ts)) = Panic)"
proof (intro conjI impI)
  assume "length ts < stack" then show "returns (fst (parse_program L stack ts))" by (rule parse_program_returns)
next
  assume n: "0 < n \<and> stack \<le> n"
  let ?ts = "replicate n (TkMinus, p) @ ts"
  have "parse_unary L stack 1 ?ts = (Panic, replicate (n - stack) (TkMinus, p) @ ts)" using n by (simp add: unary_overflow)
  then obtain r where e: "parse_expression L stack ?ts = (Panic, r)"
    by (simp add: parse_expression_def expression_with_def MAX_NESTING_DEPTH_def or_panic)
  have minus: "peek_token ?ts = TkMinus" using n by (cases n) (auto simp: peek_token_def)
  have "parse_select_item (parse_expression L stack) ?ts = (Panic, r)"
    using e minus by (simp add: parse_select_item_def branch_apply)
  then have "comma_separated (parse_select_item (parse_expression L stack)) ?ts = (Panic, r)"
    by (simp add: comma_separated_def)
  then have "parse_select (parse_expression L stack) ((TkSelect, p) # ?ts) = (Panic, r)"
    using minus by (simp add: parse_select_def sbind_expect sbind_eat_if peek_token_def [of "_ # _"])
  then have "parse_statement L stack ((TkSelect, p) # ?ts) = (Panic, r)"
    by (simp add: parse_statement_def peek_token_def pmap_def)
  then show "fst (parse_program L stack ((TkSelect, p) # ?ts)) = Panic"
    by (simp add: parse_program_def parse_loop_def peek_token_def)
qed

theorem sql_parser_stack_witness:
  "returns (fst (parse_program nat_lib 3 [(TkDrop, 0, 4), (TkTable, 5, 10)])) \<and>
   fst (parse_program nat_lib 2 ((TkSelect, 0, 0) # replicate 3 (TkMinus, 0, 0) @ [])) = Panic"
  using sql_parser_stack [of "[(TkDrop, 0, 4), (TkTable, 5, 10)]" 3 nat_lib 1 "(0, 0)"]
    sql_parser_stack [of "[]" 2 nat_lib 3 "(0, 0)"] by simp

end
