(* ===== verification/Sql_Roundtrip.thy ===== *)
theory Sql_Roundtrip
  imports Sql_Total
begin

text \<open>
  Printing and parsing: an expression written with parentheses around every compound part is parsed
  back, up to the nesting limit of the parser; and what the parser makes of \<open>LIKE\<close> and \<open>BETWEEN\<close>
  without parentheses.
\<close>

section \<open>Printing\<close>

fun sep_tokens :: "token list list \<Rightarrow> token list" where
  "sep_tokens [] = []"
| "sep_tokens [x] = x"
| "sep_tokens (x # xs) = x @ TkComma # sep_tokens xs"

fun op_token :: "binop \<Rightarrow> token" where
  "op_token BPlus = TkPlus" | "op_token BMinus = TkMinus" | "op_token BMultiply = TkStar"
| "op_token BDivide = TkSlash" | "op_token BModulo = TkPercent" | "op_token BEq = TkEq"
| "op_token BNotEq = TkNotEq" | "op_token BLt = TkLt" | "op_token BLtEq = TkLtEq"
| "op_token BGt = TkGt" | "op_token BGtEq = TkGtEq" | "op_token BAnd = TkAnd"
| "op_token BOr = TkOr" | "op_token BConcat = TkConcat"

fun type_token :: "sql_type \<Rightarrow> token" where
  "type_token TyNull = TkNull"
| "type_token TyBoolean = TkIdentifier ''boolean''"
| "type_token TyInteger = TkIdentifier ''integer''"
| "type_token TyFloat = TkIdentifier ''float''"
| "type_token TyText = TkIdentifier ''text''"

fun literal_token :: "'f literal \<Rightarrow> token" where
  "literal_token (LBoolean b) = (if b then TkTrue else TkFalse)"
| "literal_token (LInteger i) = TkNumber (nat_string (unat i))"
| "literal_token (LString s) = TkString s"
| "literal_token _ = TkNull"

definition function_token :: "string \<Rightarrow> token" where
  "function_token n = (if n = ''count'' then TkCount else if n = ''sum'' then TkSum else if n = ''avg'' then TkAvg
     else if n = ''min'' then TkMin else if n = ''max'' then TkMax else TkIdentifier n)"

fun expr_tokens :: "'f expr \<Rightarrow> token list" where
  "expr_tokens (EColumn c) = [TkIdentifier c]"
| "expr_tokens (ELiteral l) = [literal_token l]"
| "expr_tokens (EBinary l op r) = TkLParen # expr_tokens l @ op_token op # expr_tokens r @ [TkRParen]"
| "expr_tokens (EUnary op e) = (case op of UNeg \<Rightarrow> TkMinus | UNot \<Rightarrow> TkNot) # expr_tokens e"
| "expr_tokens (EFunction n args) = function_token n # TkLParen # sep_tokens (map expr_tokens args) @ [TkRParen]"
| "expr_tokens (EIsNull e) = TkLParen # expr_tokens e @ [TkIs, TkNull, TkRParen]"
| "expr_tokens (EIsNotNull e) = TkLParen # expr_tokens e @ [TkIs, TkNot, TkNull, TkRParen]"
| "expr_tokens (EIn e xs) = TkLParen # expr_tokens e @ [TkIn, TkLParen] @ sep_tokens (map expr_tokens xs) @ [TkRParen, TkRParen]"
| "expr_tokens (EBetween e lo hi) = TkLParen # expr_tokens e @ TkBetween # expr_tokens lo @ TkAnd # expr_tokens hi @ [TkRParen]"
| "expr_tokens (ELike e p) = TkLParen # expr_tokens e @ TkLike # expr_tokens p @ [TkRParen]"
| "expr_tokens (EILike e p) = TkLParen # expr_tokens e @ TkILike # expr_tokens p @ [TkRParen]"
| "expr_tokens (ECase whens els) = TkCase # concat (map (\<lambda>(c, r). TkWhen # expr_tokens c @ TkThen # expr_tokens r) whens) @
     (case els of Some e \<Rightarrow> TkElse # expr_tokens e | None \<Rightarrow> []) @ [TkEnd]"
| "expr_tokens (ECast e t) = [TkCast, TkLParen] @ expr_tokens e @ [TkAs, type_token t, TkRParen]"

text \<open>The expressions of the grammar: the suffixes apply to columns, the lists are not empty, the
  integers are not negative; floats are left out.\<close>

fun is_column :: "'f expr \<Rightarrow> bool" where
  "is_column (EColumn _) = True"
| "is_column _ = False"

fun printable_literal :: "'f literal \<Rightarrow> bool" where
  "printable_literal (LInteger i) = (unat i < 2 ^ 63)"
| "printable_literal (LFloat _) = False"
| "printable_literal _ = True"

fun printable :: "'f expr \<Rightarrow> bool" where
  "printable (EColumn c) = True"
| "printable (ELiteral l) = printable_literal l"
| "printable (EBinary l op r) = (printable l \<and> printable r)"
| "printable (EUnary op e) = printable e"
| "printable (EFunction n args) = (args \<noteq> [] \<and> list_all printable args)"
| "printable (EIsNull e) = is_column e"
| "printable (EIsNotNull e) = is_column e"
| "printable (EIn e xs) = (is_column e \<and> xs \<noteq> [] \<and> list_all printable xs)"
| "printable (EBetween e lo hi) = (is_column e \<and> printable lo \<and> printable hi)"
| "printable (ELike e p) = (is_column e \<and> printable p)"
| "printable (EILike e p) = (is_column e \<and> printable p)"
| "printable (ECase whens els) =
     (whens \<noteq> [] \<and> list_all (\<lambda>(c, r). printable c \<and> printable r) whens \<and> (case els of Some e \<Rightarrow> printable e | None \<Rightarrow> True))"
| "printable (ECast e t) = (printable e \<and> t \<noteq> TyNull)"

fun nesting :: "'f expr \<Rightarrow> nat" where
  "nesting (EColumn c) = 0"
| "nesting (ELiteral l) = 0"
| "nesting (EBinary l op r) = Suc (max (nesting l) (nesting r))"
| "nesting (EUnary op e) = nesting e"
| "nesting (EFunction n args) = Suc (fold max (map nesting args) 0)"
| "nesting (EIsNull e) = 1"
| "nesting (EIsNotNull e) = 1"
| "nesting (EIn e xs) = Suc (Suc (fold max (map nesting xs) 0))"
| "nesting (EBetween e lo hi) = Suc (max (nesting lo) (Suc (nesting hi)))"
| "nesting (ELike e p) = Suc (Suc (nesting p))"
| "nesting (EILike e p) = Suc (Suc (nesting p))"
| "nesting (ECase whens els) = Suc (max (fold max (map (\<lambda>(c, r). max (nesting c) (nesting r)) whens) 0)
     (case els of Some e \<Rightarrow> nesting e | None \<Rightarrow> 0))"
| "nesting (ECast e t) = Suc (nesting e)"

section \<open>Operators\<close>

definition ends_primary :: "ptokens \<Rightarrow> bool" where
  "ends_primary ts \<longleftrightarrow> peek_token ts \<notin> {TkLParen, TkColonColon, TkNot, TkIs, TkIn, TkBetween, TkLike, TkILike}"

definition ends_expression :: "ptokens \<Rightarrow> bool" where
  "ends_expression ts \<longleftrightarrow> ends_primary ts \<and> (\<forall>op. peek_token ts \<noteq> op_token op)"

lemma loop_stop: "body x ts = (Ok (Inr y), ts') \<Longrightarrow> parse_loop body x ts = (Ok y, ts')"
  by (simp add: parse_loop_def)

lemma chain_stop:
  assumes "p ts = (Ok e, rest)" and "ops (peek_token rest) = None"
  shows "op_chain ops p ts = (Ok e, rest)"
  using assms by (simp add: op_chain_def loop_stop)

lemma chain_binary:
  assumes "p ts = (Ok l, z # ts1)" and "ops (fst z) = Some op" and "p ts1 = (Ok r, rest)" and "ops (peek_token rest) = None"
  shows "op_chain ops p ts = (Ok (EBinary l op r), rest)"
  using assms by (simp add: op_chain_def parse_loop_def peek_token_def [of "z # ts1"] pmap_def)

lemma no_op:
  assumes "\<And>op. t \<noteq> op_token op"
  shows "factor_op t = None" "term_op t = None" "comparison_op t = None" "equality_op t = None" "and_op t = None" "or_op t = None"
  using assms [of BMultiply] assms [of BDivide] assms [of BModulo] assms [of BPlus] assms [of BMinus] assms [of BConcat]
    assms [of BLt] assms [of BLtEq] assms [of BGt] assms [of BGtEq] assms [of BEq] assms [of BNotEq] assms [of BAnd] assms [of BOr]
  by (cases t; simp add: factor_op_def term_op_def comparison_op_def equality_op_def and_op_def or_op_def)+

lemmas op_defs = factor_op_def term_op_def comparison_op_def equality_op_def and_op_def or_op_def
lemmas level_defs = parse_or_def parse_and_def parse_equality_def parse_comparison_def parse_term_def parse_factor_def

lemma levels_stop:
  assumes "U ts = (Ok e, rest)" and "ends_expression rest"
  shows "parse_or U ts = (Ok e, rest)" and "parse_comparison U ts = (Ok e, rest)"
  unfolding level_defs using assms by (intro chain_stop; simp add: ends_expression_def no_op)+

lemma comparison_before_and: "U ts = (Ok e, rest) \<Longrightarrow> peek_token rest = TkAnd \<Longrightarrow> parse_comparison U ts = (Ok e, rest)"
  unfolding level_defs by (intro chain_stop; simp add: op_defs)

lemma levels_binary:
  assumes "U ts = (Ok l, z # ts1)" and "fst z = op_token op" and "U ts1 = (Ok r, rest)" and "ends_expression rest"
  shows "parse_or U ts = (Ok (EBinary l op r), rest)"
proof -
  have stop: "factor_op (peek_token rest) = None" "term_op (peek_token rest) = None" "comparison_op (peek_token rest) = None"
      "equality_op (peek_token rest) = None" "and_op (peek_token rest) = None" "or_op (peek_token rest) = None"
    using assms(4) by (simp_all add: ends_expression_def no_op)
  have z: "peek_token (z # ts1) = op_token op" using assms(2) by (simp add: peek_token_def)
  have lower: "op_chain ops p ts = (Ok l, z # ts1)" if "p ts = (Ok l, z # ts1)" "ops (op_token op) = None" for ops p
    using that z by (intro chain_stop) simp_all
  have right: "op_chain ops p ts1 = (Ok r, rest)" if "p ts1 = (Ok r, rest)" "ops (peek_token rest) = None" for ops p
    using that by (rule chain_stop)
  have here: "op_chain ops p ts = (Ok (EBinary l op r), rest)"
    if "p ts = (Ok l, z # ts1)" "ops (op_token op) = Some op" "p ts1 = (Ok r, rest)" "ops (peek_token rest) = None" for ops p
    using that by (intro chain_binary [of p ts l z ts1 ops op r rest]) (simp_all add: assms(2))
  have upper: "op_chain ops p ts = (Ok (EBinary l op r), rest)"
    if "p ts = (Ok (EBinary l op r), rest)" "ops (peek_token rest) = None" for ops p using that by (rule chain_stop)
  consider "factor_op (op_token op) = Some op" | "factor_op (op_token op) = None" "term_op (op_token op) = Some op"
    | "factor_op (op_token op) = None" "term_op (op_token op) = None" "comparison_op (op_token op) = Some op"
    | "factor_op (op_token op) = None" "term_op (op_token op) = None" "comparison_op (op_token op) = None" "equality_op (op_token op) = Some op"
    | "factor_op (op_token op) = None" "term_op (op_token op) = None" "comparison_op (op_token op) = None" "equality_op (op_token op) = None"
      "and_op (op_token op) = Some op"
    | "factor_op (op_token op) = None" "term_op (op_token op) = None" "comparison_op (op_token op) = None" "equality_op (op_token op) = None"
      "and_op (op_token op) = None" "or_op (op_token op) = Some op"
    by (cases op) (simp_all add: op_defs)
  then show ?thesis
  proof cases
    case 1 show ?thesis unfolding level_defs by (rule upper, rule upper, rule upper, rule upper, rule upper, rule here) (rule assms(1,3) stop 1)+
  next
    case 2 show ?thesis unfolding level_defs by (rule upper, rule upper, rule upper, rule upper, rule here) (rule assms(1,3) stop 2 lower right)+
  next
    case 3 show ?thesis unfolding level_defs by (rule upper, rule upper, rule upper, rule here) (rule assms(1,3) stop 3 lower right)+
  next
    case 4 show ?thesis unfolding level_defs by (rule upper, rule upper, rule here) (rule assms(1,3) stop 4 lower right)+
  next
    case 5 show ?thesis unfolding level_defs by (rule upper, rule here) (rule assms(1,3) stop 5 lower right)+
  next
    case 6 show ?thesis unfolding level_defs by (rule here) (rule assms(1,3) stop 6 lower right)+
  qed
qed

section \<open>Lists\<close>

lemma fold_max_map_ge: "x \<in> set xs \<Longrightarrow> f x \<le> fold max (map f xs) (a :: nat)"
proof -
  have start: "a \<le> fold max ys a" for ys and a :: nat
    by (induction ys arbitrary: a) (auto intro: order_trans [OF max.cobounded2])
  show "x \<in> set xs \<Longrightarrow> f x \<le> fold max (map f xs) a"
    by (induction xs arbitrary: a) (auto intro: order_trans [OF max.cobounded1 start])
qed

lemma placed_Cons:
  assumes "map fst zs = t # ts"
  obtains a zs' where "zs = a # zs'" "fst a = t" "map fst zs' = ts"
  using assms by (cases zs) auto

lemma placed_append:
  assumes "map fst zs = xs @ ys"
  obtains us vs where "zs = us @ vs" "map fst us = xs" "map fst vs = ys"
  using assms by (auto simp: map_eq_append_conv)

lemma sep_tokens_Cons: "sep_tokens (x # xs) = x @ concat (map (Cons TkComma) xs)"
  by (induction xs arbitrary: x) auto

lemma comma_rest:
  fixes vs :: ptokens
  assumes "map fst vs = concat (map (\<lambda>x. TkComma # expr_tokens x) xs)"
    and "\<And>x ws rest. x \<in> set xs \<Longrightarrow> map fst ws = expr_tokens x \<Longrightarrow> length ws \<le> length vs \<Longrightarrow>
      peek_token rest \<in> {TkComma, TkRParen} \<Longrightarrow> p (ws @ rest) = (Ok x, rest)"
    and "peek_token rest = TkRParen" and "length vs < n"
  shows "loop_upto n (\<lambda>xs. branch TkComma (pmap (\<lambda>x. Inl (xs @ [x])) p) (sret (Inr xs))) acc (vs @ rest) = (Ok (acc @ xs), rest)"
  using assms(1,2,4)
proof (induction xs arbitrary: vs acc n)
  case Nil
  then obtain m where "n = Suc m" by (cases n) auto
  then show ?case using Nil assms(3) by (simp add: branch_apply)
next
  case (Cons x xs)
  obtain m where n: "n = Suc m" using Cons.prems(3) by (cases n) auto
  obtain z ws vs' where vs: "vs = z # ws @ vs'" "fst z = TkComma" "map fst ws = expr_tokens x"
      "map fst vs' = concat (map (\<lambda>x. TkComma # expr_tokens x) xs)"
    using Cons.prems(1) by (auto simp: map_eq_Cons_conv map_eq_append_conv)
  have "peek_token (vs' @ rest) \<in> {TkComma, TkRParen}"
  proof (cases xs)
    case Nil
    then show ?thesis using vs(4) assms(3) by simp
  next
    case (Cons y ys)
    then show ?thesis using vs(4) by (auto simp: peek_token_def map_eq_Cons_conv)
  qed
  then have "p (ws @ vs' @ rest) = (Ok x, vs' @ rest)"
    using Cons.prems(2) [of x ws "vs' @ rest"] vs by simp
  then have "branch TkComma (pmap (\<lambda>x. Inl (acc @ [x])) p) (sret (Inr acc)) (vs @ rest) = (Ok (Inl (acc @ [x])), vs' @ rest)"
    using vs by (simp add: branch_apply peek_token_def pmap_def)
  moreover have "loop_upto m (\<lambda>xs. branch TkComma (pmap (\<lambda>x. Inl (xs @ [x])) p) (sret (Inr xs))) (acc @ [x]) (vs' @ rest) =
      (Ok ((acc @ [x]) @ xs), rest)"
  proof (rule Cons.IH [OF vs(4)])
    fix y and us rest' :: ptokens assume "y \<in> set xs" "map fst us = expr_tokens y" "length us \<le> length vs'" "peek_token rest' \<in> {TkComma, TkRParen}"
    then show "p (us @ rest') = (Ok y, rest')" using Cons.prems(2) [of y us rest'] vs(1) by simp
  qed (use Cons.prems(3) vs(1) n in simp)
  ultimately show ?case using n by (simp del: stm_apply)
qed

lemma comma_parses:
  fixes zs :: ptokens
  assumes "xs \<noteq> []" and "map fst zs = sep_tokens (map expr_tokens xs)"
    and "\<And>x ws rest. x \<in> set xs \<Longrightarrow> map fst ws = expr_tokens x \<Longrightarrow> length ws \<le> length zs \<Longrightarrow>
      peek_token rest \<in> {TkComma, TkRParen} \<Longrightarrow> p (ws @ rest) = (Ok x, rest)"
    and "peek_token rest = TkRParen"
  shows "comma_separated p (zs @ rest) = (Ok xs, rest)"
proof -
  obtain x ys where xs: "xs = x # ys" using assms(1) by (cases xs) auto
  have "map fst zs = expr_tokens x @ concat (map (\<lambda>x. TkComma # expr_tokens x) ys)"
    using assms(2) xs by (simp add: sep_tokens_Cons comp_def)
  then obtain ws vs where zs: "zs = ws @ vs" "map fst ws = expr_tokens x" "map fst vs = concat (map (\<lambda>x. TkComma # expr_tokens x) ys)"
    by (auto simp: map_eq_append_conv)
  have "peek_token (vs @ rest) \<in> {TkComma, TkRParen}"
  proof (cases ys)
    case Nil
    then show ?thesis using zs(3) assms(4) by simp
  next
    case (Cons y ys)
    then show ?thesis using zs(3) by (auto simp: peek_token_def map_eq_Cons_conv)
  qed
  then have "p (ws @ vs @ rest) = (Ok x, vs @ rest)" using assms(3) [of x ws "vs @ rest"] zs xs by simp
  moreover have "loop_upto (Suc (length (vs @ rest))) (\<lambda>xs. branch TkComma (pmap (\<lambda>x. Inl (xs @ [x])) p) (sret (Inr xs))) [x] (vs @ rest) =
      (Ok ([x] @ ys), rest)"
  proof (rule comma_rest [OF zs(3)])
    fix y and us rest' :: ptokens assume "y \<in> set ys" "map fst us = expr_tokens y" "length us \<le> length vs" "peek_token rest' \<in> {TkComma, TkRParen}"
    then show "p (us @ rest') = (Ok y, rest')" using assms(3) [of y us rest'] zs(1) xs by simp
  qed (use assms(4) in simp_all)
  ultimately show ?thesis using zs xs by (simp add: comma_separated_def parse_loop_def)
qed

lemma ends_expressionI: "peek_token ts \<in> {TkComma, TkRParen, TkThen, TkWhen, TkElse, TkEnd, TkAs} \<Longrightarrow> ends_expression ts"
proof -
  assume ts: "peek_token ts \<in> {TkComma, TkRParen, TkThen, TkWhen, TkElse, TkEnd, TkAs}"
  then have "peek_token ts \<noteq> op_token op" for op by (cases op) auto
  then show ?thesis using ts by (auto simp: ends_expression_def ends_primary_def)
qed

definition case_body :: "('f, 'f expr) parser \<Rightarrow> ('f expr \<times> 'f expr) list \<times> 'f expr option \<Rightarrow>
    ('f, (('f expr \<times> 'f expr) list \<times> 'f expr option) + 'f expr) parser" where
  "case_body E = (\<lambda>(whens, else_val).
       branch TkWhen
         (sbind E (\<lambda>cond. after TkThen (pmap (\<lambda>result. Inl (whens @ [(cond, result)], else_val)) E)))
       (branch TkElse (pmap (\<lambda>e. Inl (whens, Some e)) E)
       (branch TkEnd
         (if whens = [] then err_syntax [ShText ''CASE must have at least one WHEN''] else sret (Inr (ECase whens else_val)))
         (err_syntax [ShText ''expected WHEN, ELSE, or END in CASE expression'']))))"

lemma parse_case_body: "parse_case E = parse_loop (case_body E) ([], None)"
  by (simp add: parse_case_def case_body_def)

lemma case_whens:
  fixes zs :: ptokens
  assumes "map fst zs = concat (map (\<lambda>(c, r). TkWhen # expr_tokens c @ TkThen # expr_tokens r) whens)"
    and "\<And>x ws rest. x \<in> fst ` set whens \<union> snd ` set whens \<Longrightarrow> map fst ws = expr_tokens x \<Longrightarrow> length ws \<le> length zs \<Longrightarrow>
      ends_expression rest \<Longrightarrow> E (ws @ rest) = (Ok x, rest)"
    and "peek_token tail \<in> {TkElse, TkEnd}" and "length (zs @ tail) < n"
  shows "\<exists>m. length tail < m \<and> loop_upto n (case_body E) (acc, None) (zs @ tail) = loop_upto m (case_body E) (acc @ whens, None) tail"
  using assms(1,2,4)
proof (induction whens arbitrary: zs acc n)
  case Nil
  then show ?case by auto
next
  case (Cons cr whens)
  obtain c r where cr: "cr = (c, r)" by (cases cr)
  obtain k where n: "n = Suc k" using Cons.prems(3) by (cases n) auto
  obtain a zs1 where a: "zs = a # zs1" "fst a = TkWhen" "map fst zs1 = expr_tokens c @ TkThen # expr_tokens r @
      concat (map (\<lambda>(c, r). TkWhen # expr_tokens c @ TkThen # expr_tokens r) whens)"
    using Cons.prems(1) cr by (auto elim: placed_Cons)
  from a(3) obtain ws zs2 where b: "zs1 = ws @ zs2" "map fst ws = expr_tokens c"
      "map fst zs2 = TkThen # expr_tokens r @ concat (map (\<lambda>(c, r). TkWhen # expr_tokens c @ TkThen # expr_tokens r) whens)"
    by (rule placed_append)
  from b(3) obtain b zs3 where c: "zs2 = b # zs3" "fst b = TkThen"
      "map fst zs3 = expr_tokens r @ concat (map (\<lambda>(c, r). TkWhen # expr_tokens c @ TkThen # expr_tokens r) whens)"
    by (rule placed_Cons)
  from c(3) obtain vs us where d: "zs3 = vs @ us" "map fst vs = expr_tokens r"
      "map fst us = concat (map (\<lambda>(c, r). TkWhen # expr_tokens c @ TkThen # expr_tokens r) whens)"
    by (rule placed_append)
  note zs = a(1) [unfolded b(1) c(1) d(1), simplified] a(2) b(2) c(2) d(2,3)
  have ends: "ends_expression (us @ tail)"
  proof (cases whens)
    case Nil
    then show ?thesis using zs(6) assms(3) by (auto intro!: ends_expressionI)
  next
    case (Cons x xs)
    then show ?thesis using zs(6) by (cases x) (auto intro!: ends_expressionI simp: peek_token_def map_eq_Cons_conv)
  qed
  have "ends_expression (b # vs @ us @ tail)" using zs by (intro ends_expressionI) (simp add: peek_token_def)
  then have "E (ws @ b # vs @ us @ tail) = (Ok c, b # vs @ us @ tail)"
    using Cons.prems(2) [of c ws "b # vs @ us @ tail"] zs cr by auto
  moreover have "E (vs @ us @ tail) = (Ok r, us @ tail)"
    using Cons.prems(2) [of r vs "us @ tail"] zs cr ends by auto
  ultimately have "case_body E (acc, None) (zs @ tail) = (Ok (Inl (acc @ [cr], None)), us @ tail)"
    using zs cr by (simp add: case_body_def branch_apply peek_token_def after_def sbind_expect pmap_def)
  moreover have "\<exists>m. length tail < m \<and> loop_upto k (case_body E) (acc @ [cr], None) (us @ tail) =
      loop_upto m (case_body E) ((acc @ [cr]) @ whens, None) tail"
  proof (rule Cons.IH [OF zs(6)])
    fix x and ts rest :: ptokens assume "x \<in> fst ` set whens \<union> snd ` set whens" "map fst ts = expr_tokens x" "length ts \<le> length us" "ends_expression rest"
    then show "E (ts @ rest) = (Ok x, rest)" using Cons.prems(2) [of x ts rest] zs(1) by auto
  qed (use Cons.prems(3) n zs(1) in simp)
  ultimately show ?case using n by simp
qed

lemma case_parses:
  fixes zs :: ptokens
  assumes "whens \<noteq> []"
    and "map fst zs = concat (map (\<lambda>(c, r). TkWhen # expr_tokens c @ TkThen # expr_tokens r) whens) @
      (case els of Some e \<Rightarrow> TkElse # expr_tokens e | None \<Rightarrow> []) @ [TkEnd]"
    and "\<And>x ws rest. x \<in> fst ` set whens \<union> snd ` set whens \<union> set_option els \<Longrightarrow> map fst ws = expr_tokens x \<Longrightarrow>
      length ws < length zs \<Longrightarrow> ends_expression rest \<Longrightarrow> E (ws @ rest) = (Ok x, rest)"
  shows "parse_case E (zs @ rest) = (Ok (ECase whens els), rest)"
proof -
  obtain us vs where zs: "zs = us @ vs" "map fst us = concat (map (\<lambda>(c, r). TkWhen # expr_tokens c @ TkThen # expr_tokens r) whens)"
      "map fst vs = (case els of Some e \<Rightarrow> TkElse # expr_tokens e | None \<Rightarrow> []) @ [TkEnd]"
    using assms(2) by (rule placed_append)
  have vs: "vs \<noteq> []" using zs(3) by auto
  have next_token: "peek_token (vs @ rest) \<in> {TkElse, TkEnd}"
    using zs(3) vs by (cases els; cases vs) (auto simp: peek_token_def)
  have "\<exists>m. length (vs @ rest) < m \<and> loop_upto (Suc (length (us @ vs @ rest))) (case_body E) ([], None) (us @ vs @ rest) =
      loop_upto m (case_body E) ([] @ whens, None) (vs @ rest)"
  proof (rule case_whens [OF zs(2) _ next_token])
    fix x and ws rest' :: ptokens
    assume x: "x \<in> fst ` set whens \<union> snd ` set whens" "map fst ws = expr_tokens x" "length ws \<le> length us" "ends_expression rest'"
    moreover have "length ws < length zs" using x(3) zs(1) vs by (cases vs) auto
    ultimately show "E (ws @ rest') = (Ok x, rest')" using assms(3) by blast
  qed simp
  then obtain m where m: "length (vs @ rest) < m"
      "loop_upto (Suc (length (us @ vs @ rest))) (case_body E) ([], None) (us @ vs @ rest) = loop_upto m (case_body E) (whens, None) (vs @ rest)"
    by auto
  have ended: "case_body E (whens, els') (z # rest) = (Ok (Inr (ECase whens els')), rest)" if "fst z = TkEnd" for z els'
    using that assms(1) by (simp add: case_body_def branch_apply peek_token_def)
  have "loop_upto m (case_body E) (whens, None) (vs @ rest) = (Ok (ECase whens els), rest)"
  proof (cases els)
    case None
    then obtain z where z: "vs = [z]" "fst z = TkEnd" using zs(3) by auto
    obtain k where "m = Suc k" using m(1) by (cases m) auto
    then show ?thesis using z ended [OF z(2)] None by simp
  next
    case (Some e)
    then have "map fst vs = TkElse # expr_tokens e @ [TkEnd]" using zs(3) by simp
    then obtain a vs1 where a: "vs = a # vs1" "fst a = TkElse" "map fst vs1 = expr_tokens e @ [TkEnd]" by (rule placed_Cons)
    from a(3) obtain ws v where w: "vs1 = ws @ v" "map fst ws = expr_tokens e" "map fst v = [TkEnd]" by (rule placed_append)
    from w(3) obtain z where z: "v = [z]" "fst z = TkEnd" by auto
    have "ends_expression (z # rest)" using z by (intro ends_expressionI) (simp add: peek_token_def)
    then have "E (ws @ z # rest) = (Ok e, z # rest)" using assms(3) [of e ws "z # rest"] Some w(2) zs(1) a(1) w(1) by simp
    then have "case_body E (whens, None) (vs @ rest) = (Ok (Inl (whens, Some e)), z # rest)"
      using a w z by (simp add: case_body_def branch_apply peek_token_def pmap_def)
    moreover obtain k where "m = Suc (Suc k)" using m(1) a(1) by (cases m; cases "m - 1") auto
    ultimately show ?thesis using ended [OF z(2)] Some by simp
  qed
  then show ?thesis using m(2) zs(1) by (simp add: parse_case_body parse_loop_def)
qed

section \<open>Expressions\<close>

definition parses_back :: "'f sql_lib \<Rightarrow> 'f expr \<Rightarrow> bool" where
  "parses_back L e \<longleftrightarrow> (\<forall>d n zs rest. d + nesting e \<le> MAX_NESTING_DEPTH \<longrightarrow> length zs < n \<longrightarrow> map fst zs = expr_tokens e \<longrightarrow>
     ends_primary rest \<longrightarrow> parse_unary L n d (zs @ rest) = (Ok e, rest))"

lemma parses_backI:
  assumes "\<And>d n zs rest. d + nesting e \<le> MAX_NESTING_DEPTH \<Longrightarrow> length zs \<le> n \<Longrightarrow> map fst zs = expr_tokens e \<Longrightarrow>
     ends_primary rest \<Longrightarrow> parse_unary L (Suc n) d (zs @ rest) = (Ok e, rest)"
  shows "parses_back L e"
  unfolding parses_back_def
proof (intro allI impI)
  fix d n and zs rest :: ptokens
  assume *: "d + nesting e \<le> MAX_NESTING_DEPTH" "length zs < n" "map fst zs = expr_tokens e" "ends_primary rest"
  obtain m where "n = Suc m" using *(2) by (cases n) auto
  then show "parse_unary L n d (zs @ rest) = (Ok e, rest)" using assms [of d zs m rest] * by simp
qed

lemma parses_backD:
  "parses_back L e \<Longrightarrow> d + nesting e \<le> MAX_NESTING_DEPTH \<Longrightarrow> length zs < n \<Longrightarrow> map fst zs = expr_tokens e \<Longrightarrow>
   ends_primary rest \<Longrightarrow> parse_unary L n d (zs @ rest) = (Ok e, rest)"
  by (simp add: parses_back_def)

lemma expression_ok:
  "d < MAX_NESTING_DEPTH \<Longrightarrow> parse_or (U (d + 1)) ts = (Ok e, rest) \<Longrightarrow> expression_with U d ts = (Ok e, rest)"
  by (simp add: expression_with_def)

lemma expression_parses:
  assumes "parses_back L e" and "Suc d + nesting e \<le> MAX_NESTING_DEPTH" and "length zs < n" and "map fst zs = expr_tokens e"
    and "ends_expression rest"
  shows "expression_with (parse_unary L n) d (zs @ rest) = (Ok e, rest)"
  using assms parses_backD [OF assms(1), of "d + 1" zs n rest]
  by (intro expression_ok levels_stop) (simp_all add: ends_expression_def)

lemma unary_primary:
  "peek_token ts \<noteq> TkMinus \<Longrightarrow> peek_token ts \<noteq> TkNot \<Longrightarrow>
   parse_unary L (Suc n) d ts = parse_primary L (parse_unary L n) d ts"
  by (simp add: branch_apply)

lemma ends_primaryI: "peek_token ts \<in> {TkComma, TkRParen, TkThen, TkWhen, TkElse, TkEnd, TkAs, TkAnd} \<union> range op_token \<Longrightarrow> ends_primary ts"
proof -
  assume ts: "peek_token ts \<in> {TkComma, TkRParen, TkThen, TkWhen, TkElse, TkEnd, TkAs, TkAnd} \<union> range op_token"
  have "op_token op \<notin> {TkLParen, TkColonColon, TkNot, TkIs, TkIn, TkBetween, TkLike, TkILike}" for op by (cases op) auto
  with ts show ?thesis
  proof (elim UnE rangeE)
    fix op assume "peek_token ts = op_token op"
    then show ?thesis using \<open>op_token op \<notin> _\<close> by (simp only: ends_primary_def not_False_eq_True)
  qed (auto simp: ends_primary_def)
qed

text \<open>An expression in parentheses: what the parser of the next depth makes of its inside.\<close>

lemma paren_parses:
  assumes "zs = a # us @ [c]" and "fst a = TkLParen" and "fst c = TkRParen" and "d < MAX_NESTING_DEPTH"
    and "parse_or (parse_unary L n (d + 1)) (us @ c # rest) = (Ok e, c # rest)"
  shows "parse_unary L (Suc n) d (zs @ rest) = (Ok e, rest)"
proof -
  have "expression_with (parse_unary L n) d (us @ c # rest) = (Ok e, c # rest)" using assms(4,5) by (rule expression_ok)
  then have "parse_primary L (parse_unary L n) d (zs @ rest) = (Ok e, rest)"
    using assms(1-3) by (simp add: parse_primary_def peek_token_def closed_by_def sbind_expect)
  then show ?thesis using assms(1,2) by (subst unary_primary) (simp_all add: peek_token_def)
qed

lemma ends_paren: "fst c = TkRParen \<Longrightarrow> ends_expression (c # rest)"
  by (intro ends_expressionI) (simp add: peek_token_def)

lemma column_suffix:
  assumes "fst z = TkIdentifier c" and "peek_token ts \<noteq> TkLParen" and "peek_token ts \<noteq> TkColonColon"
  shows "parse_unary L (Suc n) d (z # ts) =
    parse_suffix (expression_with (parse_unary L n) d) (parse_comparison (parse_unary L n d)) (EColumn c) ts"
  using assms by (subst unary_primary) (simp_all add: peek_token_def [of "z # ts"] parse_primary_def parse_column_def
      parse_identifier_def branch_apply Let_def)

lemma column_alone: "fst z = TkIdentifier c \<Longrightarrow> ends_primary ts \<Longrightarrow> parse_unary L (Suc n) d (z # ts) = (Ok (EColumn c), ts)"
  by (subst column_suffix) (auto simp: ends_primary_def parse_suffix_def parse_predicate_def branch_apply)

lemma parses_column: "parses_back L (EColumn c)"
proof (rule parses_backI)
  fix d n and zs rest :: ptokens
  assume zs: "map fst zs = expr_tokens (EColumn c)" "ends_primary rest"
  then obtain z where "zs = [z]" "fst z = TkIdentifier c" by auto
  then show "parse_unary L (Suc n) d (zs @ rest) = (Ok (EColumn c), rest)" using column_alone zs(2) by simp
qed

lemma i64_literal: "unat i < 2 ^ 63 \<Longrightarrow> number_literal L (nat_string (unat i)) = Ok (LInteger i)"
proof -
  assume i: "unat i < 2 ^ 63"
  have digits: "list_all is_digit_char (nat_string (unat i))" "nat_string (unat i) \<noteq> []"
    using parse_digits_nat_string [of "unat i"] by (auto simp: parse_digits_def split: if_splits)
  then obtain c cs where c: "nat_string (unat i) = c # cs" "is_digit_char c" by (cases "nat_string (unat i)") auto
  have "c \<noteq> CHR ''-''" "c \<noteq> CHR ''+''" using c(2) by (auto simp: is_digit_char_def)
  then have "parse_i64 (nat_string (unat i)) = Some i"
    using parse_digits_nat_string [of "unat i"] i c(1) by simp
  moreover have "\<not> is_float_text (nat_string (unat i))"
    using digits(1) by (auto simp: is_float_text_def is_digit_char_def list_all_iff)
  ultimately show ?thesis by (simp add: number_literal_def)
qed

lemma parses_literal: "printable_literal l \<Longrightarrow> parses_back L (ELiteral l)"
proof (rule parses_backI)
  fix d n and zs rest :: ptokens
  assume l: "printable_literal l" and zs: "map fst zs = expr_tokens (ELiteral l)" "ends_primary rest"
  then obtain z where z: "zs = [z]" "fst z = literal_token l" by auto
  then show "parse_unary L (Suc n) d (zs @ rest) = (Ok (ELiteral l), rest)"
    using l by (subst unary_primary; cases l) (auto simp: peek_token_def parse_primary_def Let_def i64_literal split: if_splits)
qed

lemma parses_binary:
  assumes "parses_back L l" and "parses_back L r"
  shows "parses_back L (EBinary l op r)"
proof (rule parses_backI)
  fix d n and zs rest :: ptokens
  assume d: "d + nesting (EBinary l op r) \<le> MAX_NESTING_DEPTH" and n: "length zs \<le> n" and zs: "map fst zs = expr_tokens (EBinary l op r)"
  from zs obtain a zs1 where a: "zs = a # zs1" "fst a = TkLParen" "map fst zs1 = expr_tokens l @ op_token op # expr_tokens r @ [TkRParen]"
    by (auto elim: placed_Cons)
  from a(3) obtain us zs2 where b: "zs1 = us @ zs2" "map fst us = expr_tokens l" "map fst zs2 = op_token op # expr_tokens r @ [TkRParen]"
    by (rule placed_append)
  from b(3) obtain z zs3 where c: "zs2 = z # zs3" "fst z = op_token op" "map fst zs3 = expr_tokens r @ [TkRParen]" by (rule placed_Cons)
  from c(3) obtain vs v where e: "zs3 = vs @ v" "map fst vs = expr_tokens r" "map fst v = [TkRParen]" by (rule placed_append)
  from e(3) obtain w where w: "v = [w]" "fst w = TkRParen" by auto
  have "parse_unary L n (d + 1) (us @ z # vs @ w # rest) = (Ok l, z # vs @ w # rest)"
    using d n a(1) b(1,2) c(1,2) e(1) w(1) by (intro parses_backD [OF assms(1)] ends_primaryI) (auto simp: peek_token_def)
  moreover have "parse_unary L n (d + 1) (vs @ w # rest) = (Ok r, w # rest)"
    using d n a(1) b(1) c(1) e(1,2) w by (intro parses_backD [OF assms(2)] ends_primaryI) (auto simp: peek_token_def)
  ultimately have "parse_or (parse_unary L n (d + 1)) (us @ z # vs @ w # rest) = (Ok (EBinary l op r), w # rest)"
    using levels_binary [OF _ c(2)] ends_paren [OF w(2)] by blast
  then show "parse_unary L (Suc n) d (zs @ rest) = (Ok (EBinary l op r), rest)"
    using a b c e w d by (intro paren_parses [of zs a "us @ z # vs" w]) simp_all
qed

lemma parses_unary: "parses_back L e \<Longrightarrow> parses_back L (EUnary op e)"
proof (rule parses_backI)
  fix d n and zs rest :: ptokens
  assume e: "parses_back L e" and zs: "d + nesting (EUnary op e) \<le> MAX_NESTING_DEPTH" "length zs \<le> n"
    "map fst zs = expr_tokens (EUnary op e)" "ends_primary rest"
  obtain a us where a: "zs = a # us" "fst a = (case op of UNeg \<Rightarrow> TkMinus | UNot \<Rightarrow> TkNot)" "map fst us = expr_tokens e"
    using zs(3) by (auto elim: placed_Cons)
  have "parse_unary L n d (us @ rest) = (Ok e, rest)" using parses_backD [OF e] zs a by simp
  then show "parse_unary L (Suc n) d (zs @ rest) = (Ok (EUnary op e), rest)"
    using a by (cases op) (simp_all add: branch_apply peek_token_def pmap_def)
qed

text \<open>A predicate on a column in parentheses: what its suffix makes of the tokens up to the closing
  parenthesis.\<close>

lemma predicate_parses:
  assumes "zs = a # z # us @ [c]" and "fst a = TkLParen" and "fst z = TkIdentifier col" and "fst c = TkRParen"
    and "d < MAX_NESTING_DEPTH" and "n = Suc m" and "us \<noteq> []" and "fst (hd us) \<notin> {TkLParen, TkColonColon}"
    and "parse_suffix (expression_with (parse_unary L m) (d + 1)) (parse_comparison (parse_unary L m (d + 1))) (EColumn col)
      (us @ c # rest) = (Ok e, c # rest)"
  shows "parse_unary L (Suc n) d (zs @ rest) = (Ok e, rest)"
proof -
  have "peek_token (us @ c # rest) = fst (hd us)" using assms(7) by (cases us) (auto simp: peek_token_def)
  then have "parse_unary L n (d + 1) (z # us @ c # rest) = (Ok e, c # rest)"
    using assms(3,6,8,9) by (simp add: column_suffix del: parse_unary.simps)
  then have "parse_or (parse_unary L n (d + 1)) ((z # us) @ c # rest) = (Ok e, c # rest)"
    using ends_paren [OF assms(4)] by (simp add: levels_stop(1))
  then show ?thesis using assms(1,2,4,5) by (intro paren_parses [of zs a "z # us" c]) simp_all
qed

lemma placed_predicate:
  assumes "map fst zs = TkLParen # expr_tokens (EColumn col) @ ts @ [TkRParen]"
  obtains a z us c where "zs = a # z # us @ [c]" "fst a = TkLParen" "fst z = TkIdentifier col" "map fst us = ts" "fst c = TkRParen"
proof -
  obtain a zs1 where a: "zs = a # zs1" "fst a = TkLParen" "map fst zs1 = TkIdentifier col # ts @ [TkRParen]"
    using assms by (auto elim: placed_Cons)
  from a(3) obtain z zs2 where z: "zs1 = z # zs2" "fst z = TkIdentifier col" "map fst zs2 = ts @ [TkRParen]" by (rule placed_Cons)
  from z(3) obtain us v where u: "zs2 = us @ v" "map fst us = ts" "map fst v = [TkRParen]" by (rule placed_append)
  from u(3) obtain c where "v = [c]" "fst c = TkRParen" by auto
  then show ?thesis using that a z u by simp
qed

lemma parses_is_null: "parses_back L (EIsNull (EColumn col))" and parses_is_not_null: "parses_back L (EIsNotNull (EColumn col))"
proof -
  show "parses_back L (EIsNull (EColumn col))"
  proof (rule parses_backI)
    fix d n and zs rest :: ptokens
    assume zs: "map fst zs = expr_tokens (EIsNull (EColumn col))" "d + nesting (EIsNull (EColumn col)) \<le> MAX_NESTING_DEPTH" "length zs \<le> n"
    from zs(1) have "map fst zs = TkLParen # expr_tokens (EColumn col) @ [TkIs, TkNull] @ [TkRParen]" by simp
    then obtain a z us c where p: "zs = a # z # us @ [c]" "fst a = TkLParen" "fst z = TkIdentifier col" "map fst us = [TkIs, TkNull]" "fst c = TkRParen"
      by (rule placed_predicate)
    from p(4) obtain u v where us: "us = [u, v]" "fst u = TkIs" "fst v = TkNull" by auto
    obtain m where "n = Suc m" using zs(3) p(1) by (cases n) auto
    then show "parse_unary L (Suc n) d (zs @ rest) = (Ok (EIsNull (EColumn col)), rest)"
      using p us zs(2)
      by (intro predicate_parses [OF p(1-3,5)]) (auto simp: parse_suffix_def branch_apply peek_token_def after_def sbind_expect)
  qed
  show "parses_back L (EIsNotNull (EColumn col))"
  proof (rule parses_backI)
    fix d n and zs rest :: ptokens
    assume zs: "map fst zs = expr_tokens (EIsNotNull (EColumn col))" "d + nesting (EIsNotNull (EColumn col)) \<le> MAX_NESTING_DEPTH" "length zs \<le> n"
    from zs(1) have "map fst zs = TkLParen # expr_tokens (EColumn col) @ [TkIs, TkNot, TkNull] @ [TkRParen]" by simp
    then obtain a z us c where p: "zs = a # z # us @ [c]" "fst a = TkLParen" "fst z = TkIdentifier col" "map fst us = [TkIs, TkNot, TkNull]" "fst c = TkRParen"
      by (rule placed_predicate)
    from p(4) obtain u v w where us: "us = [u, v, w]" "fst u = TkIs" "fst v = TkNot" "fst w = TkNull" by auto
    obtain m where "n = Suc m" using zs(3) p(1) by (cases n) auto
    then show "parse_unary L (Suc n) d (zs @ rest) = (Ok (EIsNotNull (EColumn col)), rest)"
      using p us zs(2)
      by (intro predicate_parses [OF p(1-3,5)]) (auto simp: parse_suffix_def branch_apply peek_token_def after_def sbind_expect)
  qed
qed

lemma suffix_predicate:
  "fst u \<in> {TkIn, TkBetween, TkLike, TkILike} \<Longrightarrow>
   parse_suffix E C e (u # ts) = parse_predicate E C e id (sret e) (u # ts)"
  by (auto simp: parse_suffix_def branch_apply peek_token_def)

text \<open>\<open>LIKE\<close> and \<open>ILIKE\<close>.\<close>

lemma parses_pattern:
  assumes "parses_back L p" and "nesting e = Suc (Suc (nesting p))"
    and "expr_tokens e = TkLParen # expr_tokens (EColumn col) @ (t # expr_tokens p) @ [TkRParen]"
    and "t \<in> {TkLike, TkILike}"
    and "\<And>E C u ts. fst u = t \<Longrightarrow> parse_predicate E C (EColumn col) id (sret (EColumn col)) (u # ts) = pmap f E ts" and "f p = e"
  shows "parses_back L e"
proof (rule parses_backI)
  fix d n and zs rest :: ptokens
  assume zs: "map fst zs = expr_tokens e" "d + nesting e \<le> MAX_NESTING_DEPTH" "length zs \<le> n"
  from zs(1) have "map fst zs = TkLParen # expr_tokens (EColumn col) @ (t # expr_tokens p) @ [TkRParen]" using assms(3) by simp
  then obtain a z us c where q: "zs = a # z # us @ [c]" "fst a = TkLParen" "fst z = TkIdentifier col" "map fst us = t # expr_tokens p" "fst c = TkRParen"
    by (rule placed_predicate)
  from q(4) obtain u ws where us: "us = u # ws" "fst u = t" "map fst ws = expr_tokens p" by (rule placed_Cons)
  obtain m where m: "n = Suc m" using zs(3) q(1) by (cases n) auto
  have "expression_with (parse_unary L m) (d + 1) (ws @ c # rest) = (Ok p, c # rest)"
    using zs(2,3) assms(2) us m q(1) ends_paren [OF q(5)] by (intro expression_parses [OF assms(1)]) simp_all
  then show "parse_unary L (Suc n) d (zs @ rest) = (Ok e, rest)"
    using q us zs(2) m assms(2,4) assms(5) [OF us(2)] assms(6)
    by (intro predicate_parses [OF q(1-3,5)]) (auto simp: pmap_def suffix_predicate)
qed

lemma parses_like: "parses_back L p \<Longrightarrow> parses_back L (ELike (EColumn col) p)"
  by (rule parses_pattern [of L p _ col TkLike "ELike (EColumn col)"]) (auto simp: parse_predicate_def branch_apply peek_token_def)

lemma parses_ilike: "parses_back L p \<Longrightarrow> parses_back L (EILike (EColumn col) p)"
  by (rule parses_pattern [of L p _ col TkILike "EILike (EColumn col)"]) (auto simp: parse_predicate_def branch_apply peek_token_def)

lemma parses_between:
  assumes "parses_back L lo" and "parses_back L hi"
  shows "parses_back L (EBetween (EColumn col) lo hi)"
proof (rule parses_backI)
  fix d n and zs rest :: ptokens
  let ?e = "EBetween (EColumn col) lo hi"
  assume zs: "map fst zs = expr_tokens ?e" "d + nesting ?e \<le> MAX_NESTING_DEPTH" "length zs \<le> n"
  from zs(1) have "map fst zs = TkLParen # expr_tokens (EColumn col) @ (TkBetween # expr_tokens lo @ TkAnd # expr_tokens hi) @ [TkRParen]" by simp
  then obtain a z us c where q: "zs = a # z # us @ [c]" "fst a = TkLParen" "fst z = TkIdentifier col"
      "map fst us = TkBetween # expr_tokens lo @ TkAnd # expr_tokens hi" "fst c = TkRParen"
    by (rule placed_predicate)
  from q(4) obtain u us1 where u: "us = u # us1" "fst u = TkBetween" "map fst us1 = expr_tokens lo @ TkAnd # expr_tokens hi" by (rule placed_Cons)
  from u(3) obtain vs us2 where v: "us1 = vs @ us2" "map fst vs = expr_tokens lo" "map fst us2 = TkAnd # expr_tokens hi" by (rule placed_append)
  from v(3) obtain w ws where w: "us2 = w # ws" "fst w = TkAnd" "map fst ws = expr_tokens hi" by (rule placed_Cons)
  obtain m where m: "n = Suc m" using zs(3) q(1) by (cases n) auto
  have "parse_unary L m (d + 1) (vs @ w # ws @ c # rest) = (Ok lo, w # ws @ c # rest)"
    using zs(2,3) u v w m q(1) by (intro parses_backD [OF assms(1)] ends_primaryI) (auto simp: peek_token_def)
  then have low: "parse_comparison (parse_unary L m (d + 1)) (vs @ w # ws @ c # rest) = (Ok lo, w # ws @ c # rest)"
    using w(2) by (intro comparison_before_and) (simp_all add: peek_token_def)
  have high: "expression_with (parse_unary L m) (d + 1) (ws @ c # rest) = (Ok hi, c # rest)"
    using zs(2,3) u v w m q(1) ends_paren [OF q(5)] by (intro expression_parses [OF assms(2)]) simp_all
  have "parse_suffix (expression_with (parse_unary L m) (d + 1)) (parse_comparison (parse_unary L m (d + 1))) (EColumn col)
      (us @ c # rest) = (Ok ?e, c # rest)"
    using u v w low high
    by (simp add: suffix_predicate parse_predicate_def branch_apply peek_token_def after_def sbind_expect pmap_def)
  then show "parse_unary L (Suc n) d (zs @ rest) = (Ok ?e, rest)"
    using zs(2) m u by (intro predicate_parses [OF q(1-3,5)]) simp_all
qed

text \<open>A list in parentheses.\<close>

lemma list_parses:
  assumes "xs \<noteq> []" and "\<And>x. x \<in> set xs \<Longrightarrow> parses_back L x" and "map fst zs = sep_tokens (map expr_tokens xs)"
    and "Suc d + fold max (map nesting xs) 0 \<le> MAX_NESTING_DEPTH" and "length zs < n" and "fst c = TkRParen"
  shows "closed_by TkRParen (comma_separated (expression_with (parse_unary L n) d)) (zs @ c # rest) = (Ok xs, rest)"
proof -
  have "comma_separated (expression_with (parse_unary L n) d) (zs @ c # rest) = (Ok xs, c # rest)"
  proof (rule comma_parses [OF assms(1,3)])
    fix x and ws rest' :: ptokens
    assume x: "x \<in> set xs" "map fst ws = expr_tokens x" "length ws \<le> length zs" "peek_token rest' \<in> {TkComma, TkRParen}"
    have "Suc d + nesting x \<le> MAX_NESTING_DEPTH" using fold_max_map_ge [OF x(1), of nesting 0] assms(4) by simp
    moreover have "ends_expression rest'" using x(4) by (intro ends_expressionI) auto
    ultimately show "expression_with (parse_unary L n) d (ws @ rest') = (Ok x, rest')"
      using x assms(2,5) by (intro expression_parses) simp_all
  qed (simp add: peek_token_def assms(6))
  then show ?thesis using assms(6) by (simp add: closed_by_def sbind_expect peek_token_def)
qed

lemma parses_in:
  assumes "xs \<noteq> []" and "\<And>x. x \<in> set xs \<Longrightarrow> parses_back L x"
  shows "parses_back L (EIn (EColumn col) xs)"
proof (rule parses_backI)
  fix d n and zs rest :: ptokens
  let ?e = "EIn (EColumn col) xs"
  assume zs: "map fst zs = expr_tokens ?e" "d + nesting ?e \<le> MAX_NESTING_DEPTH" "length zs \<le> n"
  from zs(1) have "map fst zs = TkLParen # expr_tokens (EColumn col) @ (TkIn # TkLParen # sep_tokens (map expr_tokens xs) @ [TkRParen]) @ [TkRParen]" by simp
  then obtain a z us c where q: "zs = a # z # us @ [c]" "fst a = TkLParen" "fst z = TkIdentifier col"
      "map fst us = TkIn # TkLParen # sep_tokens (map expr_tokens xs) @ [TkRParen]" "fst c = TkRParen"
    by (rule placed_predicate)
  from q(4) obtain u us1 where u: "us = u # us1" "fst u = TkIn" "map fst us1 = TkLParen # sep_tokens (map expr_tokens xs) @ [TkRParen]" by (rule placed_Cons)
  from u(3) obtain v us2 where v: "us1 = v # us2" "fst v = TkLParen" "map fst us2 = sep_tokens (map expr_tokens xs) @ [TkRParen]" by (rule placed_Cons)
  from v(3) obtain ws ys where w: "us2 = ws @ ys" "map fst ws = sep_tokens (map expr_tokens xs)" "map fst ys = [TkRParen]" by (rule placed_append)
  from w(3) obtain y where y: "ys = [y]" "fst y = TkRParen" by auto
  obtain m where m: "n = Suc m" using zs(3) q(1) by (cases n) auto
  have "closed_by TkRParen (comma_separated (expression_with (parse_unary L m) (d + 1))) (ws @ y # c # rest) = (Ok xs, c # rest)"
    using zs(2,3) u v w y m q(1) by (intro list_parses assms) simp_all
  then have "parse_suffix (expression_with (parse_unary L m) (d + 1)) (parse_comparison (parse_unary L m (d + 1))) (EColumn col)
      (us @ c # rest) = (Ok ?e, c # rest)"
    using u v w y
    by (simp add: suffix_predicate parse_predicate_def branch_apply peek_token_def after_def sbind_expect pmap_def)
  then show "parse_unary L (Suc n) d (zs @ rest) = (Ok ?e, rest)"
    using zs(2) m u by (intro predicate_parses [OF q(1-3,5)]) simp_all
qed

lemma aggregate_function_token: "aggregate_name (function_token n) = Some m \<Longrightarrow> m = n"
  by (auto simp: function_token_def aggregate_name_def split: if_splits)

lemma parses_function:
  assumes "args \<noteq> []" and "\<And>x. x \<in> set args \<Longrightarrow> parses_back L x"
  shows "parses_back L (EFunction name args)"
proof (rule parses_backI)
  fix d n and zs rest :: ptokens
  let ?e = "EFunction name args"
  assume zs: "map fst zs = expr_tokens ?e" "d + nesting ?e \<le> MAX_NESTING_DEPTH" "length zs \<le> n"
  from zs(1) obtain a zs1 where a: "zs = a # zs1" "fst a = function_token name"
      "map fst zs1 = TkLParen # sep_tokens (map expr_tokens args) @ [TkRParen]" by (auto elim: placed_Cons)
  from a(3) obtain b zs2 where b: "zs1 = b # zs2" "fst b = TkLParen" "map fst zs2 = sep_tokens (map expr_tokens args) @ [TkRParen]" by (rule placed_Cons)
  from b(3) obtain ws ys where w: "zs2 = ws @ ys" "map fst ws = sep_tokens (map expr_tokens args)" "map fst ys = [TkRParen]" by (rule placed_append)
  from w(3) obtain y where y: "ys = [y]" "fst y = TkRParen" by auto
  let ?E = "expression_with (parse_unary L n) d"
  have list: "closed_by TkRParen (comma_separated ?E) (ws @ y # rest) = (Ok args, rest)"
    using zs(2,3) a b w y by (intro list_parses assms) simp_all
  have start: "peek_token (ws @ y # rest) \<notin> {TkStar, TkDistinct}"
  proof -
    obtain x xs where x: "args = x # xs" using assms(1) by (cases args) auto
    have "expr_tokens x \<noteq> []" "hd (expr_tokens x) \<notin> {TkStar, TkDistinct}"
      by (cases x rule: expr_tokens.cases; (cases "case x of ELiteral l \<Rightarrow> l | _ \<Rightarrow> LNull")?; auto simp: function_token_def split: unop.split)+
    then have "ws \<noteq> []" "hd (map fst ws) \<notin> {TkStar, TkDistinct}"
      using w(2) unfolding x by (auto simp: sep_tokens_Cons)
    then show ?thesis by (cases ws) (auto simp: peek_token_def)
  qed
  show "parse_unary L (Suc n) d (zs @ rest) = (Ok ?e, rest)"
  proof (cases "aggregate_name (function_token name)")
    case None
    then have "function_token name = TkIdentifier name" by (auto simp: function_token_def aggregate_name_def split: if_splits)
    then show ?thesis
      using a b w y list
      by (subst unary_primary) (simp_all add: peek_token_def parse_primary_def parse_column_def parse_identifier_def branch_apply pmap_def Let_def)
  next
    case (Some m)
    then have "parse_aggregate_function ?E name (b # ws @ y # rest) = (Ok ?e, rest)"
      using b(2) list start by (simp add: parse_aggregate_function_def after_def sbind_expect branch_apply peek_token_def [of "b # _"] pmap_def)
    then show ?thesis
      using a b w y Some aggregate_function_token [OF Some]
      by (subst unary_primary) (auto simp: peek_token_def parse_primary_def Let_def aggregate_name_def split: token.splits)
  qed
qed

lemma parses_case:
  assumes "whens \<noteq> []" and "\<And>c r. (c, r) \<in> set whens \<Longrightarrow> parses_back L c \<and> parses_back L r" and "\<And>e. els = Some e \<Longrightarrow> parses_back L e"
  shows "parses_back L (ECase whens els)"
proof (rule parses_backI)
  fix d n and zs rest :: ptokens
  let ?e = "ECase whens els"
  assume zs: "map fst zs = expr_tokens ?e" "d + nesting ?e \<le> MAX_NESTING_DEPTH" "length zs \<le> n"
  from zs(1) obtain a ws where a: "zs = a # ws" "fst a = TkCase"
      "map fst ws = concat (map (\<lambda>(c, r). TkWhen # expr_tokens c @ TkThen # expr_tokens r) whens) @
      (case els of Some e \<Rightarrow> TkElse # expr_tokens e | None \<Rightarrow> []) @ [TkEnd]" by (auto elim: placed_Cons)
  have "parse_case (expression_with (parse_unary L n) d) (ws @ rest) = (Ok ?e, rest)"
  proof (rule case_parses [OF assms(1) a(3)])
    fix x and us rest' :: ptokens
    assume x: "x \<in> fst ` set whens \<union> snd ` set whens \<union> set_option els" "map fst us = expr_tokens x" "length us < length ws" "ends_expression rest'"
    have "parses_back L x" using x(1) assms(2,3) by auto
    moreover have "Suc d + nesting x \<le> MAX_NESTING_DEPTH"
    proof -
      have "nesting x \<le> max (fold max (map (\<lambda>(c, r). max (nesting c) (nesting r)) whens) 0) (case els of Some e \<Rightarrow> nesting e | None \<Rightarrow> 0)"
        using x(1) fold_max_map_ge [of _ whens "\<lambda>(c, r). max (nesting c) (nesting r)" 0] by (fastforce simp: max_def split: if_splits)
      then show ?thesis using zs(2) by simp
    qed
    ultimately show "expression_with (parse_unary L n) d (us @ rest') = (Ok x, rest')"
      using x zs(3) a(1) by (intro expression_parses) simp_all
  qed
  then show "parse_unary L (Suc n) d (zs @ rest) = (Ok ?e, rest)"
    using a by (subst unary_primary) (simp_all add: peek_token_def parse_primary_def Let_def)
qed

lemma sbind_sql_type:
  assumes "t \<noteq> TyNull" and "fst v = type_token t"
  shows "sbind parse_sql_type f (v # ts) = f t ts"
proof -
  obtain s where s: "type_token t = TkIdentifier s" "map_of sql_type_words (lower s) = Some t"
    using assms(1) by (cases t) (auto simp: sql_type_words_def lower_def lower_char_def)
  then show ?thesis using assms(2) by (simp add: parse_sql_type_def parse_identifier_def peek_token_def sbind_def)
qed

lemma parses_cast:
  assumes "parses_back L e" and "t \<noteq> TyNull"
  shows "parses_back L (ECast e t)"
proof (rule parses_backI)
  fix d n and zs rest :: ptokens
  assume zs: "map fst zs = expr_tokens (ECast e t)" "d + nesting (ECast e t) \<le> MAX_NESTING_DEPTH" "length zs \<le> n"
  have "map fst zs = TkCast # TkLParen # expr_tokens e @ [TkAs, type_token t, TkRParen]" using zs(1) by simp
  then obtain a zs1 where a: "zs = a # zs1" "fst a = TkCast" "map fst zs1 = TkLParen # expr_tokens e @ [TkAs, type_token t, TkRParen]" by (rule placed_Cons)
  from a(3) obtain b zs2 where b: "zs1 = b # zs2" "fst b = TkLParen" "map fst zs2 = expr_tokens e @ [TkAs, type_token t, TkRParen]" by (rule placed_Cons)
  from b(3) obtain ws ys where w: "zs2 = ws @ ys" "map fst ws = expr_tokens e" "map fst ys = [TkAs, type_token t, TkRParen]" by (rule placed_append)
  from w(3) obtain u v y where y: "ys = [u, v, y]" "fst u = TkAs" "fst v = type_token t" "fst y = TkRParen" by auto
  have "ends_expression (u # v # y # rest)" using y by (intro ends_expressionI) (simp add: peek_token_def)
  then have inner: "expression_with (parse_unary L n) d (ws @ u # v # y # rest) = (Ok e, u # v # y # rest)"
    using zs(2,3) a b w y by (intro expression_parses [OF assms(1)]) simp_all
  have "parse_cast (expression_with (parse_unary L n) d) (b # ws @ u # v # y # rest) = (Ok (ECast e t), rest)"
    using inner y b(2) assms(2) by (simp add: parse_cast_def after_def sbind_expect peek_token_def sbind_sql_type pmap_def)
  then show "parse_unary L (Suc n) d (zs @ rest) = (Ok (ECast e t), rest)"
    using a b w y by (subst unary_primary) (simp_all add: peek_token_def parse_primary_def Let_def)
qed

lemma printable_parses: "printable e \<Longrightarrow> parses_back L e"
proof (induction e rule: printable.induct)
  case (1 c)
  then show ?case by (simp add: parses_column)
next
  case (2 l)
  then show ?case by (simp add: parses_literal)
next
  case (3 l op r)
  then show ?case by (simp add: parses_binary)
next
  case (4 op e)
  then show ?case by (simp add: parses_unary)
next
  case (5 n args)
  then show ?case by (intro parses_function) (auto simp: list_all_iff)
next
  case (6 e)
  then show ?case by (cases e) (auto simp: parses_is_null)
next
  case (7 e)
  then show ?case by (cases e) (auto simp: parses_is_not_null)
next
  case (8 e xs)
  then have "x \<in> set xs \<Longrightarrow> parses_back L x" for x by (auto simp: list_all_iff)
  then show ?case using "8.prems" by (cases e) (auto intro: parses_in)
next
  case (9 e lo hi)
  then show ?case by (cases e) (auto intro: parses_between)
next
  case (10 e p)
  then show ?case by (cases e) (auto intro: parses_like)
next
  case (11 e p)
  then show ?case by (cases e) (auto intro: parses_ilike)
next
  case (12 whens els)
  then show ?case by (intro parses_case) (fastforce simp: list_all_iff)+
next
  case (13 e t)
  then show ?case by (simp add: parses_cast)
qed


definition sample_expr :: "nat expr" where
  "sample_expr = EBinary (EBetween (EColumn ''a'') (ELiteral (LInteger 1)) (EFunction ''abs'' [EColumn ''b''])) BAnd
     (EUnary UNot (EIn (EColumn ''c'') [ELiteral (LString ''x''), ECast (EColumn ''d'') TyText]))"

definition sample_tokens :: ptokens where
  "sample_tokens = map (\<lambda>t. (t, 0, 0)) (expr_tokens sample_expr)"


section \<open>Without parentheses\<close>

text \<open>\<open>LIKE\<close> takes everything up to the end of the condition as its pattern. For any two
  printed expressions \<open>p\<close> and \<open>q\<close>, the tokens of \<open>col LIKE p AND q\<close> are read as \<open>col LIKE (p AND q)\<close>,
  so the second condition is lost in the pattern.\<close>

theorem sql_like_swallows_and:
  assumes "printable p" and "printable q" and "nesting p < 62" and "nesting q < 62"
    and "map fst zs = TkIdentifier col # TkLike # expr_tokens p @ TkAnd # expr_tokens q" and "length zs < stack"
    and "ends_expression rest"
  shows "parse_expression L stack (zs @ rest) = (Ok (ELike (EColumn col) (EBinary p BAnd q)), rest)"
proof -
  from assms(5) obtain a zs1 where a: "zs = a # zs1" "fst a = TkIdentifier col" "map fst zs1 = TkLike # expr_tokens p @ TkAnd # expr_tokens q" by (rule placed_Cons)
  from a(3) obtain b zs2 where b: "zs1 = b # zs2" "fst b = TkLike" "map fst zs2 = expr_tokens p @ TkAnd # expr_tokens q" by (rule placed_Cons)
  from b(3) obtain us zs3 where u: "zs2 = us @ zs3" "map fst us = expr_tokens p" "map fst zs3 = TkAnd # expr_tokens q" by (rule placed_append)
  from u(3) obtain z vs where v: "zs3 = z # vs" "fst z = op_token BAnd" "map fst vs = expr_tokens q" by (auto elim: placed_Cons)
  obtain n where n: "stack = Suc n" using assms(6) by (cases stack) auto
  have ends: "ends_primary rest" using assms(7) by (simp add: ends_expression_def)
  have "parse_unary L n 2 (us @ z # vs @ rest) = (Ok p, z # vs @ rest)"
    using assms(3,6) a(1) b(1) u(1,2) v n by (intro parses_backD [OF printable_parses [OF assms(1)]] ends_primaryI) (auto simp: MAX_NESTING_DEPTH_def peek_token_def)
  moreover have "parse_unary L n 2 (vs @ rest) = (Ok q, rest)"
    using assms(4,6) a(1) b(1) u(1) v n ends by (intro parses_backD [OF printable_parses [OF assms(2)]]) (simp_all add: MAX_NESTING_DEPTH_def)
  ultimately have "parse_or (parse_unary L n 2) (us @ z # vs @ rest) = (Ok (EBinary p BAnd q), rest)"
    using levels_binary [OF _ v(2) _ assms(7)] by blast
  then have "expression_with (parse_unary L n) 1 (us @ z # vs @ rest) = (Ok (EBinary p BAnd q), rest)"
    by (intro expression_ok) (simp_all add: MAX_NESTING_DEPTH_def numeral_2_eq_2)
  then have "parse_unary L stack 1 (zs @ rest) = (Ok (ELike (EColumn col) (EBinary p BAnd q)), rest)"
    using a b u v n by (simp add: column_suffix peek_token_def suffix_predicate parse_predicate_def branch_apply pmap_def del: parse_unary.simps)
  then show ?thesis unfolding parse_expression_def
    using assms(7) by (intro expression_ok levels_stop) (simp_all add: MAX_NESTING_DEPTH_def)
qed

theorem sql_like_swallows_and_witness:
  "parse_expression nat_lib 9
     ([(TkIdentifier ''a'', 0, 0), (TkLike, 0, 0), (TkString ''x'', 0, 0), (TkAnd, 0, 0), (TkIdentifier ''b'', 0, 0)] @ []) =
   (Ok (ELike (EColumn ''a'') (EBinary (ELiteral (LString ''x'')) BAnd (EColumn ''b''))), [])"
proof (rule sql_like_swallows_and)
  have "TkEof \<noteq> op_token op" for op by (cases op) simp_all
  then show "ends_expression []" by (auto simp: ends_expression_def ends_primary_def peek_token_def)
qed simp_all

end
