(* ===== verification/Sql_Eval.thy ===== *)
theory Sql_Eval
  imports Sql_Types
begin

text \<open>
  Values and expressions of \<open>nova-sql\<close>: evaluation of an expression on a row (\<open>execute/mod.rs\<close>), types
  and coercions (\<open>type_checker.rs\<close>) and the resolution of columns (\<open>binder.rs\<close>). Integers are words
  compared as signed numbers; sums and products wrap around, a quotient that does not fit panics.
\<close>

section \<open>Traversals\<close>

text \<open>\<open>collect::<Result<Vec<_>>>\<close>, and loops that leave early.\<close>

fun traverse :: "('a \<Rightarrow> ('e, 'b) outcome) \<Rightarrow> 'a list \<Rightarrow> ('e, 'b list) outcome" where
  "traverse f [] = Ok []"
| "traverse f (x # xs) = obind (f x) (\<lambda>y. obind (traverse f xs) (\<lambda>ys. Ok (y # ys)))"

fun each :: "('a \<Rightarrow> ('e, unit) outcome) \<Rightarrow> 'a list \<Rightarrow> ('e, unit) outcome" where
  "each f [] = Ok ()"
| "each f (x # xs) = obind (f x) (\<lambda>_. each f xs)"

fun find_ok :: "('a \<Rightarrow> ('e, bool) outcome) \<Rightarrow> 'a list \<Rightarrow> ('e, 'a option) outcome" where
  "find_ok f [] = Ok None"
| "find_ok f (x # xs) = obind (f x) (\<lambda>b. if b then Ok (Some x) else find_ok f xs)"

fun fold_ok :: "('b \<Rightarrow> 'a \<Rightarrow> ('e, 'b) outcome) \<Rightarrow> 'b \<Rightarrow> 'a list \<Rightarrow> ('e, 'b) outcome" where
  "fold_ok f b [] = Ok b"
| "fold_ok f b (x # xs) = obind (f b x) (\<lambda>b'. fold_ok f b' xs)"

fun pick_case :: "('c \<Rightarrow> ('e, bool) outcome) \<Rightarrow> ('c \<Rightarrow> ('e, 'v) outcome) \<Rightarrow> ('c \<times> 'c) list \<Rightarrow> ('e, 'v) outcome \<Rightarrow> ('e, 'v) outcome" where
  "pick_case f g [] d = d"
| "pick_case f g ((c, r) # ws) d = obind (f c) (\<lambda>b. if b then g r else pick_case f g ws d)"

lemma pick_case_cong [fundef_cong]:
  "xs = ys \<Longrightarrow> d = d' \<Longrightarrow> (\<And>c r. (c, r) \<in> set ys \<Longrightarrow> f c = f' c) \<Longrightarrow> (\<And>c r. (c, r) \<in> set ys \<Longrightarrow> g r = g' r) \<Longrightarrow>
   pick_case f g xs d = pick_case f' g' ys d'"
proof (induction ys arbitrary: xs)
  case (Cons y ys)
  obtain a b where y: "y = (a, b)" by (cases y)
  have "f a = f' a" "g b = g' b" using Cons.prems(3) [of a b] Cons.prems(4) [of a b] y by simp_all
  moreover have "pick_case f g ys d = pick_case f' g' ys d'"
  proof (rule Cons.IH [OF refl Cons.prems(2)])
    show "f c = f' c" if "(c, r) \<in> set ys" for c r using Cons.prems(3) [of c r] that by simp
    show "g r = g' r" if "(c, r) \<in> set ys" for c r using Cons.prems(4) [of c r] that by simp
  qed
  ultimately  show ?case using Cons.prems(1) y by (cases "f' a") auto
qed simp

lemma traverse_cong [fundef_cong]:
  "xs = ys \<Longrightarrow> (\<And>x. x \<in> set ys \<Longrightarrow> f x = g x) \<Longrightarrow> traverse f xs = traverse g ys"
  by (induction ys arbitrary: xs) auto

lemma each_cong [fundef_cong]:
  "xs = ys \<Longrightarrow> (\<And>x. x \<in> set ys \<Longrightarrow> f x = g x) \<Longrightarrow> each f xs = each g ys"
  by (induction ys arbitrary: xs) auto

lemma find_ok_cong [fundef_cong]:
  "xs = ys \<Longrightarrow> (\<And>x. x \<in> set ys \<Longrightarrow> f x = g x) \<Longrightarrow> find_ok f xs = find_ok g ys"
  by (induction ys arbitrary: xs) (auto intro: obind_cong)

lemma fold_ok_cong [fundef_cong]:
  "xs = ys \<Longrightarrow> b = c \<Longrightarrow> (\<And>x b. x \<in> set ys \<Longrightarrow> f b x = g b x) \<Longrightarrow> fold_ok f b xs = fold_ok g c ys"
  by (induction ys arbitrary: xs b c) (auto intro: obind_cong)

lemma traverse_Ok [simp]: "traverse (\<lambda>x. Ok (f x)) xs = Ok (map f xs)"
  by (induction xs) auto

lemma traverse_length: "traverse f xs = Ok ys \<Longrightarrow> length ys = length xs"
  by (induction xs arbitrary: ys) (auto simp: outcome_simps)

lemma traverse_nth: "traverse f xs = Ok ys \<Longrightarrow> i < length xs \<Longrightarrow> f (xs ! i) = Ok (ys ! i)"
  by (induction xs arbitrary: ys i) (auto simp: outcome_simps nth_Cons split: nat.split)

lemma returns_traverse: "(\<And>x. x \<in> set xs \<Longrightarrow> returns (f x)) \<Longrightarrow> returns (traverse f xs)"
  by (induction xs) (auto intro!: returns_obind)

lemma returns_each: "(\<And>x. x \<in> set xs \<Longrightarrow> returns (f x)) \<Longrightarrow> returns (each f xs)"
  by (induction xs) (auto intro!: returns_obind)

lemma returns_find_ok: "(\<And>x. x \<in> set xs \<Longrightarrow> returns (f x)) \<Longrightarrow> returns (find_ok f xs)"
  by (induction xs) (auto intro!: returns_obind)

lemma returns_fold_ok: "(\<And>b x. x \<in> set xs \<Longrightarrow> returns (f b x)) \<Longrightarrow> returns (fold_ok f b xs)"
  by (induction xs arbitrary: b) (auto intro!: returns_obind)

lemma find_ok_Some: "find_ok f xs = Ok (Some x) \<Longrightarrow> x \<in> set xs"
  by (induction xs) (auto simp: outcome_simps split: if_splits)

section \<open>Values\<close>

definition literal_type :: "'f literal \<Rightarrow> sql_type" where
  "literal_type v = (case v of LNull \<Rightarrow> TyNull | LBoolean _ \<Rightarrow> TyBoolean | LInteger _ \<Rightarrow> TyInteger
     | LFloat _ \<Rightarrow> TyFloat | LString _ \<Rightarrow> TyText)"

text \<open>The derived \<open>PartialEq\<close>: floats compare by their own equality.\<close>

definition literal_eq :: "'f sql_lib \<Rightarrow> 'f literal \<Rightarrow> 'f literal \<Rightarrow> bool" where
  "literal_eq L a b = (case (a, b) of (LFloat x, LFloat y) \<Rightarrow> sf_eq L x y | _ \<Rightarrow> a = b)"

definition i64_text :: "i64 \<Rightarrow> string" where
  "i64_text i = (if sint i < 0 then CHR ''-'' # nat_string (nat (- sint i)) else nat_string (nat (sint i)))"

definition bool_text :: "bool \<Rightarrow> string" where "bool_text b = (if b then ''true'' else ''false'')"

definition value_to_string :: "'f sql_lib \<Rightarrow> 'f literal \<Rightarrow> string" where
  "value_to_string L v = (case v of LNull \<Rightarrow> ''NULL'' | LBoolean b \<Rightarrow> bool_text b | LInteger i \<Rightarrow> i64_text i
     | LFloat f \<Rightarrow> sf_text L f | LString s \<Rightarrow> s)"

definition mismatch :: "'f shown \<Rightarrow> 'f shown \<Rightarrow> 'f sql_error" where
  "mismatch expected actual = SqlTypeMismatch [expected] [actual]"

definition bad_string :: "string \<Rightarrow> string \<Rightarrow> 'f sql_error" where
  "bad_string expected s = mismatch (ShText expected) (ShText (''string: '' @ s))"

definition parse_bool :: "string \<Rightarrow> bool option" where
  "parse_bool s = (let l = lower s in
     if l \<in> {''true'', ''1'', ''yes''} then Some True else if l \<in> {''false'', ''0'', ''no''} then Some False else None)"

definition coerce_value :: "'f sql_lib \<Rightarrow> 'f literal \<Rightarrow> sql_type \<Rightarrow> ('f sql_error, 'f literal) outcome" where
  "coerce_value L v target =
     (if v = LNull \<or> literal_type v = target then Ok v
      else case (v, target) of
        (LInteger i, TyFloat) \<Rightarrow> Ok (LFloat (sf_of_int L i))
      | (LFloat f, TyInteger) \<Rightarrow> Ok (LInteger (sf_to_int L f))
      | (LString s, TyInteger) \<Rightarrow> (case parse_i64 s of Some i \<Rightarrow> Ok (LInteger i) | None \<Rightarrow> Err (bad_string ''INTEGER'' s))
      | (LString s, TyFloat) \<Rightarrow> (case sf_parse L s of Some f \<Rightarrow> Ok (LFloat f) | None \<Rightarrow> Err (bad_string ''FLOAT'' s))
      | (LInteger i, TyText) \<Rightarrow> Ok (LString (i64_text i))
      | (LFloat f, TyText) \<Rightarrow> Ok (LString (sf_text L f))
      | (LBoolean b, TyText) \<Rightarrow> Ok (LString (bool_text b))
      | (LString s, TyBoolean) \<Rightarrow> (case parse_bool s of Some b \<Rightarrow> Ok (LBoolean b) | None \<Rightarrow> Err (bad_string ''BOOLEAN'' s))
      | (LInteger i, TyBoolean) \<Rightarrow> Ok (LBoolean (i \<noteq> 0))
      | _ \<Rightarrow> Err (mismatch (ShType target) (ShType (literal_type v))))"

definition coerce_to_bool :: "'f literal \<Rightarrow> ('f sql_error, bool) outcome" where
  "coerce_to_bool v = (case v of LBoolean b \<Rightarrow> Ok b | LNull \<Rightarrow> Ok False
     | _ \<Rightarrow> Err (mismatch (ShText ''BOOLEAN'') (ShLiteral v)))"

definition versus :: "string \<Rightarrow> 'f literal \<Rightarrow> 'f literal \<Rightarrow> 'f sql_error" where
  "versus expected l r = SqlTypeMismatch [ShText expected] [ShLiteral l, ShText '' vs '', ShLiteral r]"

definition coerce_pair :: "'f sql_lib \<Rightarrow> 'f literal \<Rightarrow> 'f literal \<Rightarrow> ('f sql_error, 'f literal \<times> 'f literal) outcome" where
  "coerce_pair L l r = (case (l, r) of
       (LInteger _, LInteger _) \<Rightarrow> Ok (l, r)
     | (LFloat _, LFloat _) \<Rightarrow> Ok (l, r)
     | (LString _, LString _) \<Rightarrow> Ok (l, r)
     | (LInteger i, LFloat _) \<Rightarrow> Ok (LFloat (sf_of_int L i), r)
     | (LFloat _, LInteger i) \<Rightarrow> Ok (l, LFloat (sf_of_int L i))
     | (LInteger _, LString _) \<Rightarrow> Ok (l, r)
     | (LString _, LInteger _) \<Rightarrow> Ok (l, r)
     | _ \<Rightarrow> Err (versus ''matching types'' l r))"

definition coerce_numeric_pair :: "'f sql_lib \<Rightarrow> 'f literal \<Rightarrow> 'f literal \<Rightarrow> ('f sql_error, 'f literal \<times> 'f literal) outcome" where
  "coerce_numeric_pair L l r = (case (l, r) of
       (LInteger _, LInteger _) \<Rightarrow> Ok (l, r)
     | (LInteger i, LFloat _) \<Rightarrow> Ok (LFloat (sf_of_int L i), r)
     | (LFloat _, LInteger i) \<Rightarrow> Ok (l, LFloat (sf_of_int L i))
     | (LFloat _, LFloat _) \<Rightarrow> Ok (l, r)
     | _ \<Rightarrow> Err (versus ''numeric'' l r))"

section \<open>Operators\<close>

definition I64_MIN :: i64 where "I64_MIN = 2 ^ 63"

text \<open>\<open>a / b\<close> and \<open>a % b\<close> of integers, rounded towards zero; the one quotient out of range panics.\<close>

definition i64_quot :: "i64 \<Rightarrow> i64 \<Rightarrow> ('e, i64) outcome" where
  "i64_quot a b = (if b = 0 \<or> a = I64_MIN \<and> b = - 1 then Panic
     else Ok (word_of_int (sgn (sint a) * sgn (sint b) * (\<bar>sint a\<bar> div \<bar>sint b\<bar>))))"

definition i64_rem :: "i64 \<Rightarrow> i64 \<Rightarrow> ('e, i64) outcome" where
  "i64_rem a b = (if b = 0 \<or> a = I64_MIN \<and> b = - 1 then Panic
     else Ok (word_of_int (sgn (sint a) * (\<bar>sint a\<bar> mod \<bar>sint b\<bar>))))"

definition division_by_zero :: "'f sql_error" where "division_by_zero = SqlInternal [ShText ''division by zero'']"

definition eval_arith :: "'f sql_lib \<Rightarrow> (i64 \<Rightarrow> i64 \<Rightarrow> i64) \<Rightarrow> ('f \<Rightarrow> 'f \<Rightarrow> 'f) \<Rightarrow> 'f literal \<Rightarrow> 'f literal \<Rightarrow>
    ('f sql_error, 'f literal) outcome" where
  "eval_arith L f g l r = obind (coerce_numeric_pair L l r) (\<lambda>p. case p of
       (LInteger a, LInteger b) \<Rightarrow> Ok (LInteger (f a b))
     | (LFloat a, LFloat b) \<Rightarrow> Ok (LFloat (g a b))
     | _ \<Rightarrow> Ok LNull)"

definition eval_divide :: "'f sql_lib \<Rightarrow> 'f literal \<Rightarrow> 'f literal \<Rightarrow> ('f sql_error, 'f literal) outcome" where
  "eval_divide L l r = obind (coerce_numeric_pair L l r) (\<lambda>p. case p of
       (LInteger a, LInteger b) \<Rightarrow> if b = 0 then Err division_by_zero else obind (i64_quot a b) (\<lambda>q. Ok (LInteger q))
     | (LFloat a, LFloat b) \<Rightarrow> if sf_eq L b (sf_zero L) then Err division_by_zero else Ok (LFloat (sf_div L a b))
     | _ \<Rightarrow> Ok LNull)"

definition eval_modulo :: "'f sql_lib \<Rightarrow> 'f literal \<Rightarrow> 'f literal \<Rightarrow> ('f sql_error, 'f literal) outcome" where
  "eval_modulo L l r = obind (coerce_numeric_pair L l r) (\<lambda>p. case p of
       (LInteger a, LInteger b) \<Rightarrow> if b = 0 then Err division_by_zero else obind (i64_rem a b) (\<lambda>q. Ok (LInteger q))
     | _ \<Rightarrow> Ok LNull)"

text \<open>The four orders: on integers, on floats, on the bytes of strings.\<close>

definition compare_op :: "'f sql_lib \<Rightarrow> binop \<Rightarrow> 'f literal \<Rightarrow> 'f literal \<Rightarrow> bool option" where
  "compare_op L op l r = (case (l, r) of
       (LInteger a, LInteger b) \<Rightarrow> Some (case op of BLt \<Rightarrow> a <s b | BLtEq \<Rightarrow> a \<le>s b | BGt \<Rightarrow> b <s a | _ \<Rightarrow> b \<le>s a)
     | (LFloat a, LFloat b) \<Rightarrow> Some (case op of BLt \<Rightarrow> sf_less L a b | BLtEq \<Rightarrow> sf_le L a b | BGt \<Rightarrow> sf_less L b a | _ \<Rightarrow> sf_le L b a)
     | (LString a, LString b) \<Rightarrow> Some (case op of BLt \<Rightarrow> string_bytes a < string_bytes b | BLtEq \<Rightarrow> string_bytes a \<le> string_bytes b
         | BGt \<Rightarrow> string_bytes b < string_bytes a | _ \<Rightarrow> string_bytes b \<le> string_bytes a)
     | _ \<Rightarrow> None)"

definition eval_compare :: "'f sql_lib \<Rightarrow> binop \<Rightarrow> 'f literal \<Rightarrow> 'f literal \<Rightarrow> ('f sql_error, 'f literal) outcome" where
  "eval_compare L op l r =
     (if l = LNull \<or> r = LNull then Ok LNull
      else obind (coerce_pair L l r) (\<lambda>(a, b). case compare_op L op a b of
          Some t \<Rightarrow> Ok (LBoolean t) | None \<Rightarrow> Err (versus ''comparable types'' l r)))"

definition eval_binary_op :: "'f sql_lib \<Rightarrow> binop \<Rightarrow> 'f literal \<Rightarrow> 'f literal \<Rightarrow> ('f sql_error, 'f literal) outcome" where
  "eval_binary_op L op l r = (case op of
       BAnd \<Rightarrow> obind (coerce_to_bool l) (\<lambda>a. obind (coerce_to_bool r) (\<lambda>b. Ok (LBoolean (a \<and> b))))
     | BOr \<Rightarrow> obind (coerce_to_bool l) (\<lambda>a. obind (coerce_to_bool r) (\<lambda>b. Ok (LBoolean (a \<or> b))))
     | BEq \<Rightarrow> Ok (if l = LNull \<or> r = LNull then LNull else LBoolean (literal_eq L l r))
     | BNotEq \<Rightarrow> Ok (if l = LNull \<or> r = LNull then LNull else LBoolean (\<not> literal_eq L l r))
     | BPlus \<Rightarrow> eval_arith L (+) (sf_add L) l r
     | BMinus \<Rightarrow> eval_arith L (-) (sf_sub L) l r
     | BMultiply \<Rightarrow> eval_arith L (*) (sf_mul L) l r
     | BDivide \<Rightarrow> eval_divide L l r
     | BModulo \<Rightarrow> eval_modulo L l r
     | BConcat \<Rightarrow> Ok (LString (value_to_string L l @ value_to_string L r))
     | _ \<Rightarrow> eval_compare L op l r)"

definition eval_unary_op :: "'f sql_lib \<Rightarrow> unop \<Rightarrow> 'f literal \<Rightarrow> ('f sql_error, 'f literal) outcome" where
  "eval_unary_op L op v = (case (op, v) of
       (UNeg, LInteger i) \<Rightarrow> Ok (LInteger (- i))
     | (UNeg, LFloat f) \<Rightarrow> Ok (LFloat (sf_neg L f))
     | (UNeg, LNull) \<Rightarrow> Ok LNull
     | (UNeg, _) \<Rightarrow> Err (mismatch (ShText ''numeric'') (ShLiteral v))
     | (UNot, LBoolean b) \<Rightarrow> Ok (LBoolean (\<not> b))
     | (UNot, LNull) \<Rightarrow> Ok LNull
     | (UNot, _) \<Rightarrow> Err (mismatch (ShText ''BOOLEAN'') (ShLiteral v)))"

section \<open>Functions\<close>

text \<open>The value that wins every comparison with the one before it: \<open>min\<close> and \<open>max\<close>.\<close>

definition take_better :: "'f sql_lib \<Rightarrow> binop \<Rightarrow> 'f literal \<Rightarrow> 'f literal \<Rightarrow> ('f sql_error, 'f literal) outcome" where
  "take_better L op best v = obind (eval_binary_op L op v best) (\<lambda>c. Ok (if c = LBoolean True then v else best))"

definition best_of :: "'f sql_lib \<Rightarrow> binop \<Rightarrow> 'f literal list \<Rightarrow> ('f sql_error, 'f literal) outcome" where
  "best_of L op vs = (case filter (\<lambda>v. v \<noteq> LNull) vs of [] \<Rightarrow> Ok LNull | v # vs' \<Rightarrow> fold_ok (take_better L op) v vs')"

definition as_float :: "'f sql_lib \<Rightarrow> 'f literal \<Rightarrow> 'f option" where
  "as_float L v = (case v of LInteger i \<Rightarrow> Some (sf_of_int L i) | LFloat f \<Rightarrow> Some f | _ \<Rightarrow> None)"

definition as_int :: "'f literal \<Rightarrow> i64 option" where
  "as_int v = (case v of LInteger i \<Rightarrow> Some i | _ \<Rightarrow> None)"

definition eval_function :: "'f sql_lib \<Rightarrow> string \<Rightarrow> 'f literal list \<Rightarrow> ('f sql_error, 'f literal) outcome" where
  "eval_function L name args =
     (let n = lower name in
      if n = ''count'' then Ok (LInteger (of_nat (length (filter (\<lambda>v. v \<noteq> LNull) args))))
      else if n = ''sum'' then Ok (LInteger (sum_list (List.map_filter as_int args)))
      else if n = ''avg'' then
        (let nums = List.map_filter (as_float L) args in
         Ok (if nums = [] then LNull else LFloat (sf_div L (foldl (sf_add L) (sf_zero L) nums) (sf_of_int L (of_nat (length nums))))))
      else if n = ''min'' then best_of L BLt args
      else if n = ''max'' then best_of L BGt args
      else Ok LNull)"

section \<open>Patterns\<close>

definition regex_special :: "char \<Rightarrow> bool" where
  "regex_special c \<longleftrightarrow> c \<in> set ''.+*?^$()[]{}|''"

fun pat_to_regex_from :: "string \<Rightarrow> string" where
  "pat_to_regex_from [] = ''''"
| "pat_to_regex_from (c # cs) =
     (if c = CHR ''%'' then ''.*'' @ pat_to_regex_from cs
      else if c = CHR ''_'' then CHR ''.'' # pat_to_regex_from cs
      else if c = CHR 0x5C then
        (case cs of
           [] \<Rightarrow> [CHR 0x5C, CHR 0x5C]
         | d # ds \<Rightarrow> (if d = CHR ''%'' \<or> d = CHR ''_'' then [d] else if d = CHR 0x5C then [CHR 0x5C, CHR 0x5C]
             else [CHR 0x5C, CHR 0x5C, d]) @ pat_to_regex_from ds)
      else if regex_special c then CHR 0x5C # c # pat_to_regex_from cs
      else c # pat_to_regex_from cs)"

definition pat_to_regex :: "string \<Rightarrow> string" where
  "pat_to_regex pat = ''^(?s)'' @ pat_to_regex_from pat @ ''$''"

definition eval_like :: "'f sql_lib \<Rightarrow> 'f literal \<Rightarrow> 'f literal \<Rightarrow> bool \<Rightarrow> ('f sql_error, 'f literal) outcome" where
  "eval_like L v p insensitive = (case v of
       LNull \<Rightarrow> Ok LNull
     | LString s \<Rightarrow> (case p of
           LNull \<Rightarrow> Ok LNull
         | LString q \<Rightarrow> (case sl_regex L (pat_to_regex (if insensitive then lower q else q)) of
               Some m \<Rightarrow> Ok (LBoolean (m (if insensitive then lower s else s)))
             | None \<Rightarrow> Err (SqlInternal [ShText ''invalid LIKE pattern: '']))
         | _ \<Rightarrow> Ok (LBoolean False))
     | _ \<Rightarrow> Ok (LBoolean False))"

section \<open>Expressions\<close>

type_synonym 'f row = "'f literal option list"

fun evaluate_expr :: "'f sql_lib \<Rightarrow> 'f schema \<Rightarrow> 'f row \<Rightarrow> 'f expr \<Rightarrow> ('f sql_error, 'f literal) outcome" where
  "evaluate_expr L sch row (EColumn name) = (case find_index sch name of
       None \<Rightarrow> Err (SqlColumnNotFound name)
     | Some i \<Rightarrow> obind (nth_or_panic row i) (\<lambda>v. Ok (case v of Some x \<Rightarrow> x | None \<Rightarrow> LNull)))"
| "evaluate_expr L sch row (ELiteral v) = Ok v"
| "evaluate_expr L sch row (EBinary l op r) =
     obind (evaluate_expr L sch row l) (\<lambda>a. obind (evaluate_expr L sch row r) (\<lambda>b. eval_binary_op L op a b))"
| "evaluate_expr L sch row (EUnary op e) = obind (evaluate_expr L sch row e) (eval_unary_op L op)"
| "evaluate_expr L sch row (EFunction name args) = obind (traverse (evaluate_expr L sch row) args) (eval_function L name)"
| "evaluate_expr L sch row (EIsNull e) = obind (evaluate_expr L sch row e) (\<lambda>v. Ok (LBoolean (v = LNull)))"
| "evaluate_expr L sch row (EIsNotNull e) = obind (evaluate_expr L sch row e) (\<lambda>v. Ok (LBoolean (v \<noteq> LNull)))"
| "evaluate_expr L sch row (EIn e es) = obind (evaluate_expr L sch row e) (\<lambda>v.
     obind (find_ok (\<lambda>x. obind (evaluate_expr L sch row x) (\<lambda>w. Ok (literal_eq L v w))) es) (\<lambda>f. Ok (LBoolean (f \<noteq> None))))"
| "evaluate_expr L sch row (EBetween e lo hi) = obind (evaluate_expr L sch row e) (\<lambda>v.
     obind (evaluate_expr L sch row lo) (\<lambda>a. obind (evaluate_expr L sch row hi) (\<lambda>b.
     obind (eval_binary_op L BGtEq v a) (\<lambda>ge. obind (eval_binary_op L BLtEq v b) (\<lambda>le.
     Ok (LBoolean (ge = LBoolean True \<and> le = LBoolean True)))))))"
| "evaluate_expr L sch row (ELike e p) =
     obind (evaluate_expr L sch row e) (\<lambda>v. obind (evaluate_expr L sch row p) (\<lambda>q. eval_like L v q False))"
| "evaluate_expr L sch row (EILike e p) =
     obind (evaluate_expr L sch row e) (\<lambda>v. obind (evaluate_expr L sch row p) (\<lambda>q. eval_like L v q True))"
| "evaluate_expr L sch row (ECase whens els) =
     pick_case (\<lambda>c. obind (evaluate_expr L sch row c) (\<lambda>v. Ok (v = LBoolean True))) (evaluate_expr L sch row) whens
       (case els of Some e \<Rightarrow> evaluate_expr L sch row e | None \<Rightarrow> Ok LNull)"
| "evaluate_expr L sch row (ECast e t) = obind (evaluate_expr L sch row e) (\<lambda>v. coerce_value L v t)"


section \<open>Aggregates\<close>

definition aggregate_names :: "string list" where
  "aggregate_names = [''count'', ''sum'', ''avg'', ''min'', ''max'']"

fun contains_aggregate :: "'f expr \<Rightarrow> bool" where
  "contains_aggregate (EFunction name args) = (lower name \<in> set aggregate_names)"
| "contains_aggregate (EBinary l op r) = (contains_aggregate l \<or> contains_aggregate r)"
| "contains_aggregate (EUnary op e) = contains_aggregate e"
| "contains_aggregate (ECase whens els) =
     (list_ex (\<lambda>(c, r). contains_aggregate c \<or> contains_aggregate r) whens \<or>
      (case els of Some e \<Rightarrow> contains_aggregate e | None \<Rightarrow> False))"
| "contains_aggregate (ECast e t) = contains_aggregate e"
| "contains_aggregate (EIn e es) = (contains_aggregate e \<or> list_ex contains_aggregate es)"
| "contains_aggregate (EBetween e lo hi) = (contains_aggregate e \<or> contains_aggregate lo \<or> contains_aggregate hi)"
| "contains_aggregate (ELike e p) = (contains_aggregate e \<or> contains_aggregate p)"
| "contains_aggregate (EILike e p) = (contains_aggregate e \<or> contains_aggregate p)"
| "contains_aggregate (EIsNull e) = contains_aggregate e"
| "contains_aggregate (EIsNotNull e) = contains_aggregate e"
| "contains_aggregate (EColumn c) = False"
| "contains_aggregate (ELiteral v) = False"

section \<open>Columns\<close>

text \<open>\<open>Binder::resolve_expr\<close> and \<open>Binder::bind\<close>.\<close>

fun resolve_expr :: "'f schema \<Rightarrow> 'f expr \<Rightarrow> ('f sql_error, unit) outcome" where
  "resolve_expr sch (EColumn name) = (case find_column sch name of None \<Rightarrow> Err (SqlColumnNotFound name) | Some _ \<Rightarrow> Ok ())"
| "resolve_expr sch (ELiteral v) = Ok ()"
| "resolve_expr sch (EBinary l op r) = obind (resolve_expr sch l) (\<lambda>_. resolve_expr sch r)"
| "resolve_expr sch (EUnary op e) = resolve_expr sch e"
| "resolve_expr sch (EFunction name args) = each (resolve_expr sch) args"
| "resolve_expr sch (EIsNull e) = resolve_expr sch e"
| "resolve_expr sch (EIsNotNull e) = resolve_expr sch e"
| "resolve_expr sch (EIn e es) = obind (resolve_expr sch e) (\<lambda>_. each (resolve_expr sch) es)"
| "resolve_expr sch (EBetween e lo hi) =
     obind (resolve_expr sch e) (\<lambda>_. obind (resolve_expr sch lo) (\<lambda>_. resolve_expr sch hi))"
| "resolve_expr sch (ELike e p) = obind (resolve_expr sch e) (\<lambda>_. resolve_expr sch p)"
| "resolve_expr sch (EILike e p) = obind (resolve_expr sch e) (\<lambda>_. resolve_expr sch p)"
| "resolve_expr sch (ECase whens els) =
     obind (each (\<lambda>(c, r). obind (resolve_expr sch c) (\<lambda>_. resolve_expr sch r)) whens)
       (\<lambda>_. case els of Some e \<Rightarrow> resolve_expr sch e | None \<Rightarrow> Ok ())"
| "resolve_expr sch (ECast e t) = resolve_expr sch e"

record bound_column =
  bc_name :: string
  bc_ordinal :: nat

datatype 'f bound_select_item = BoundExpr "'f expr" "string option" "nat option" | BoundWildcard

record 'f bound_select =
  bs_select_list :: "'f bound_select_item list"
  bs_columns :: "bound_column list"

definition output_name :: "'f expr \<Rightarrow> string option \<Rightarrow> string option" where
  "output_name e alias = (case alias of Some a \<Rightarrow> Some a | None \<Rightarrow> (case e of EColumn c \<Rightarrow> Some c | _ \<Rightarrow> None))"

definition bind_item :: "'f schema \<Rightarrow> 'f bound_select \<Rightarrow> 'f select_item \<Rightarrow> ('f sql_error, 'f bound_select) outcome" where
  "bind_item sch b item = (case item of
       SiWildcard \<Rightarrow> Ok (b\<lparr>bs_columns := bs_columns b @ map (\<lambda>c. \<lparr>bc_name = ci_name c, bc_ordinal = ci_ordinal c\<rparr>) sch,
         bs_select_list := bs_select_list b @ [BoundWildcard]\<rparr>)
     | SiExpr e alias \<Rightarrow> obind (resolve_expr sch e) (\<lambda>_.
         Ok \<lparr>bs_select_list = bs_select_list b @ [BoundExpr e alias (case e of EColumn c \<Rightarrow> find_index sch c | _ \<Rightarrow> None)],
           bs_columns = bs_columns b @ (case output_name e alias of
              Some n \<Rightarrow> [\<lparr>bc_name = n, bc_ordinal = length (bs_columns b)\<rparr>] | None \<Rightarrow> [])\<rparr>))"

definition bind_select :: "'f select_statement \<Rightarrow> 'f schema \<Rightarrow> ('f sql_error, 'f bound_select) outcome" where
  "bind_select st sch = fold_ok (bind_item sch) \<lparr>bs_select_list = [], bs_columns = []\<rparr> (sl_select_list st)"

section \<open>Types\<close>

definition unify_types :: "sql_type \<Rightarrow> sql_type \<Rightarrow> ('f sql_error, sql_type) outcome" where
  "unify_types a b =
     (if a = TyNull then Ok b else if b = TyNull then Ok a else if a = b then Ok a
      else if {a, b} = {TyInteger, TyFloat} then Ok TyFloat
      else Err (mismatch (ShType a) (ShType b)))"

definition need_boolean :: "sql_type \<Rightarrow> ('f sql_error, unit) outcome" where
  "need_boolean t = (if t = TyBoolean then Ok () else Err (mismatch (ShText ''BOOLEAN'') (ShType t)))"

definition check_binary_op :: "binop \<Rightarrow> sql_type \<Rightarrow> sql_type \<Rightarrow> ('f sql_error, sql_type) outcome" where
  "check_binary_op op l r =
     (if op \<in> {BAnd, BOr} then obind (need_boolean l) (\<lambda>_. obind (need_boolean r) (\<lambda>_. Ok TyBoolean))
      else if op \<in> {BEq, BNotEq} then unify_types l r
      else if op \<in> {BLt, BLtEq, BGt, BGtEq, BConcat} then
        obind (unify_types l r) (\<lambda>t. Ok (if t = TyText \<and> op = BConcat then TyText else TyBoolean))
      else obind (unify_types l r) (\<lambda>t. if t = TyBoolean then Err (mismatch (ShText ''numeric'') (ShText ''BOOLEAN'')) else Ok t))"

definition check_unary_op :: "unop \<Rightarrow> sql_type \<Rightarrow> ('f sql_error, sql_type) outcome" where
  "check_unary_op op t = (case op of
       UNeg \<Rightarrow> if t \<in> {TyInteger, TyFloat, TyNull} then Ok t else Err (mismatch (ShText ''numeric'') (ShType t))
     | UNot \<Rightarrow> if t \<in> {TyBoolean, TyNull} then Ok TyBoolean else Err (mismatch (ShText ''BOOLEAN'') (ShType t)))"

definition needs_argument :: "string \<Rightarrow> 'f sql_error" where
  "needs_argument name = sql_syntax [ShText (name @ '' requires at least one argument'')]"

text \<open>\<open>check_function\<close>, with the types of the arguments still to be checked.\<close>

definition check_function :: "string \<Rightarrow> ('f sql_error, sql_type) outcome list \<Rightarrow> ('f sql_error, sql_type) outcome" where
  "check_function name args =
     (let n = lower name in
      if n = ''count'' then Ok TyInteger
      else if n = ''sum'' \<or> n = ''avg'' then
        (case args of [] \<Rightarrow> Err (needs_argument name)
         | a # _ \<Rightarrow> obind a (\<lambda>t. if t \<in> {TyInteger, TyFloat} then Ok (if n = ''avg'' then TyFloat else t)
             else Err (mismatch (ShText ''numeric'') (ShType t))))
      else if n = ''min'' \<or> n = ''max'' then (case args of [] \<Rightarrow> Err (needs_argument name) | a # _ \<Rightarrow> a)
      else Ok TyNull)"

fun check_types :: "'f schema \<Rightarrow> 'f expr \<Rightarrow> ('f sql_error, sql_type) outcome" where
  "check_types sch (EColumn name) = (case find_column sch name of None \<Rightarrow> Err (SqlColumnNotFound name) | Some c \<Rightarrow> Ok (ci_sql_type c))"
| "check_types sch (ELiteral v) = Ok (literal_type v)"
| "check_types sch (EBinary l op r) = obind (check_types sch l) (\<lambda>a. obind (check_types sch r) (\<lambda>b. check_binary_op op a b))"
| "check_types sch (EUnary op e) = obind (check_types sch e) (check_unary_op op)"
| "check_types sch (EFunction name args) = check_function name (map (check_types sch) args)"
| "check_types sch (EIsNull e) = Ok TyBoolean"
| "check_types sch (EIsNotNull e) = Ok TyBoolean"
| "check_types sch (EIn e es) = obind (check_types sch e) (\<lambda>t.
     obind (each (\<lambda>x. obind (check_types sch x) (\<lambda>u. obind (unify_types t u) (\<lambda>_. Ok ()))) es) (\<lambda>_. Ok TyBoolean))"
| "check_types sch (EBetween e lo hi) = obind (check_types sch e) (\<lambda>t. obind (check_types sch lo) (\<lambda>a. obind (check_types sch hi) (\<lambda>b.
     obind (unify_types t a) (\<lambda>_. obind (unify_types t b) (\<lambda>_. Ok TyBoolean)))))"
| "check_types sch (ELike e p) = obind (check_types sch e) (\<lambda>_. obind (check_types sch p) (\<lambda>_. Ok TyBoolean))"
| "check_types sch (EILike e p) = obind (check_types sch e) (\<lambda>_. obind (check_types sch p) (\<lambda>_. Ok TyBoolean))"
| "check_types sch (ECase whens els) =
     obind (fold_ok (\<lambda>t (c, r). obind (check_types sch r) (\<lambda>u. unify_types t u)) TyNull whens)
       (\<lambda>t. case els of Some e \<Rightarrow> obind (check_types sch e) (\<lambda>u. unify_types t u) | None \<Rightarrow> Ok t)"
| "check_types sch (ECast e t) = obind (check_types sch e) (\<lambda>_. Ok t)"

end
