(* ===== verification/Sql_Table.thy ===== *)
theory Sql_Table
  imports Sql_Eval
begin

text \<open>
  The tables of \<open>nova-sql\<close> (\<open>execute/table_store.rs\<close>): a schema, the rows in the order of insertion
  and a counter of row ids for each name. A row has a value, or none yet, for each column.
\<close>

record 'f table_data =
  td_schema :: "'f schema"
  td_rows :: "'f row list"
  td_next_row_id :: u64

text \<open>\<open>DashMap<String, Arc<TableData>>\<close>. It is listed in the order of creation, one of the orders its
  iteration may have.\<close>

type_synonym 'f table_store = "(string \<times> 'f table_data) list"

type_synonym ('f, 'a) table_op = "('f table_store, 'f sql_error, 'a) stm"

definition set_table :: "string \<Rightarrow> ('f table_data \<Rightarrow> 'f table_data) \<Rightarrow> 'f table_store \<Rightarrow> 'f table_store" where
  "set_table name f ts = map (\<lambda>(n, d). (n, if n = name then f d else d)) ts"

definition table_named :: "string \<Rightarrow> ('f, 'f table_data) table_op" where
  "table_named name = (\<lambda>ts. case map_of ts name of Some d \<Rightarrow> (Ok d, ts) | None \<Rightarrow> (Err (SqlTableNotFound name), ts))"

definition create_table :: "string \<Rightarrow> 'f schema \<Rightarrow> ('f, unit) table_op" where
  "create_table name sch = (\<lambda>ts.
     if map_of ts name \<noteq> None then (Err (sql_syntax [ShText (''table already exists: '' @ name)]), ts)
     else (Ok (), ts @ [(name, \<lparr>td_schema = sch, td_rows = [], td_next_row_id = 0\<rparr>)]))"

definition drop_table :: "string \<Rightarrow> ('f, unit) table_op" where
  "drop_table name = sbind (table_named name) (\<lambda>_. smod (filter (\<lambda>(n, _). n \<noteq> name)))"

definition table_schema :: "string \<Rightarrow> ('f, 'f schema) table_op" where
  "table_schema name = sbind (table_named name) (\<lambda>d. sret (td_schema d))"

definition wrong_width :: "'f schema \<Rightarrow> 'f row \<Rightarrow> 'f sql_error" where
  "wrong_width sch row = sql_syntax [ShText (''expected '' @ nat_string (length sch) @ '' columns, got '' @ nat_string (length row))]"

definition insert_row :: "string \<Rightarrow> 'f row \<Rightarrow> ('f, unit) table_op" where
  "insert_row name row = sbind (table_named name) (\<lambda>d.
     if length row \<noteq> length (td_schema d) then slift (Err (wrong_width (td_schema d) row))
     else smod (set_table name (\<lambda>d. d\<lparr>td_rows := td_rows d @ [row], td_next_row_id := td_next_row_id d + 1\<rparr>)))"

definition insert_rows :: "string \<Rightarrow> 'f row list \<Rightarrow> ('f, unit) table_op" where
  "insert_rows name rows = sbind (table_named name) (\<lambda>d.
     case List.find (\<lambda>row. length row \<noteq> length (td_schema d)) rows of
       Some row \<Rightarrow> slift (Err (wrong_width (td_schema d) row))
     | None \<Rightarrow> smod (set_table name (\<lambda>d. d\<lparr>td_rows := td_rows d @ rows, td_next_row_id := td_next_row_id d + of_nat (length rows)\<rparr>)))"

definition scan_rows :: "string \<Rightarrow> ('f, 'f row list) table_op" where
  "scan_rows name = sbind (table_named name) (\<lambda>d. sret (td_rows d))"

definition num_rows :: "string \<Rightarrow> ('f, nat) table_op" where
  "num_rows name = sbind (table_named name) (\<lambda>d. sret (length (td_rows d)))"

definition table_exists :: "'f table_store \<Rightarrow> string \<Rightarrow> bool" where
  "table_exists ts name \<longleftrightarrow> map_of ts name \<noteq> None"

definition table_names :: "'f table_store \<Rightarrow> string list" where "table_names ts = map fst ts"

definition update_rows :: "string \<Rightarrow> ('f row list \<Rightarrow> ('f sql_error, unit) outcome \<times> 'f row list) \<Rightarrow> ('f, unit) table_op" where
  "update_rows name updater = sbind (table_named name) (\<lambda>d.
     case updater (td_rows d) of (r, rows) \<Rightarrow> sbind (smod (set_table name (\<lambda>d. d\<lparr>td_rows := rows\<rparr>))) (\<lambda>_. slift r))"

definition replace_rows :: "string \<Rightarrow> 'f row list \<Rightarrow> ('f, unit) table_op" where
  "replace_rows name rows = sbind (table_named name) (\<lambda>_. smod (set_table name (\<lambda>d. d\<lparr>td_rows := rows\<rparr>)))"

definition allocate_row_id :: "string \<Rightarrow> ('f, u64) table_op" where
  "allocate_row_id name = sbind (table_named name) (\<lambda>d.
     sbind (smod (set_table name (\<lambda>d. d\<lparr>td_next_row_id := td_next_row_id d + 1\<rparr>))) (\<lambda>_. sret (td_next_row_id d + 1)))"

definition current_row_id :: "string \<Rightarrow> ('f, u64) table_op" where
  "current_row_id name = sbind (table_named name) (\<lambda>d. sret (td_next_row_id d))"

definition ensure_next_row_id :: "string \<Rightarrow> u64 \<Rightarrow> ('f, unit) table_op" where
  "ensure_next_row_id name low = sbind (table_named name) (\<lambda>_.
     smod (set_table name (\<lambda>d. if td_next_row_id d < low then d\<lparr>td_next_row_id := low\<rparr> else d)))"

section \<open>Looking up\<close>

lemma table_named_simps [simp]:
  "map_of ts name = Some d \<Longrightarrow> sbind (table_named name) f ts = f d ts"
  "map_of ts name = None \<Longrightarrow> sbind (table_named name) f ts = (Err (SqlTableNotFound name), ts)"
  by (simp_all add: table_named_def)

lemma set_table_Nil [simp]: "set_table name f [] = []"
  by (simp add: set_table_def)

lemma map_of_set_table [simp]: "map_of (set_table name f ts) n = (if n = name then map_option f (map_of ts n) else map_of ts n)"
  by (induction ts) (auto simp: set_table_def)

lemma set_table_names [simp]: "map fst (set_table name f ts) = map fst ts"
  by (induction ts) (auto simp: set_table_def)

lemma map_of_dropped [simp]: "map_of (filter (\<lambda>(n, _). n \<noteq> name) ts) n = (if n = name then None else map_of ts n)"
  by (induction ts) auto

end
