(* ===== verification/Sql_Exec.thy ===== *)
theory Sql_Exec
  imports Sql_Table
begin

text \<open>
  Queries of \<open>nova-sql\<close>: the logical plan (\<open>plan/logical.rs\<close>, \<open>plan/planner.rs\<close>), the executors that
  are pulled row by row (\<open>execute/iterators.rs\<close>) and how they are built from a plan
  (\<open>execute/executor.rs\<close>). An executor is a value that carries its state; \<open>exec_open\<close>, \<open>exec_next\<close> and
  \<open>exec_close\<close> return the executor they leave. A pull may loop, so its value is \<open>None\<close> where it does
  not come back.
\<close>

section \<open>Plans\<close>

type_synonym 'f select_exprs = "('f expr \<times> string option) list"

datatype 'f plan =
    LpScan string "string option"
  | LpProjection "'f plan" "'f select_exprs"
  | LpSelection "'f plan" "'f expr"
  | LpSort "'f plan" "'f order_by_expr list"
  | LpLimit "'f plan" nat nat
  | LpAggregate "'f plan" "'f select_exprs" "'f expr list" "'f expr option"
  | LpDedup "'f plan"
  | LpJoin "'f plan" "'f plan" "'f expr option"

definition USIZE_MAX :: nat where "USIZE_MAX = 2 ^ 64 - 1"

definition scan_plan :: "table_ref \<Rightarrow> 'f plan" where
  "scan_plan t = LpScan (tr_name t) (tr_alias t)"

definition select_exprs_of :: "'f select_item list \<Rightarrow> 'f select_exprs" where
  "select_exprs_of = map (\<lambda>item. case item of SiExpr e alias \<Rightarrow> (e, alias) | SiWildcard \<Rightarrow> (ELiteral (LString ''*''), None))"

definition plan_select :: "'f select_statement \<Rightarrow> 'f plan" where
  "plan_select st =
     (let base = foldl (\<lambda>n j. LpJoin n (scan_plan (jn_right j)) (jn_on j)) (scan_plan (sl_from st)) (sl_joins st);
        filtered = (case sl_where_clause st of Some p \<Rightarrow> LpSelection base p | None \<Rightarrow> base);
        exprs = select_exprs_of (sl_select_list st);
        output = (if sl_group_by st \<noteq> [] \<or> list_ex (\<lambda>(e, _). contains_aggregate e) exprs
          then LpAggregate filtered exprs (sl_group_by st) (sl_having st) else LpProjection filtered exprs);
        sorted = (if sl_order_by st \<noteq> [] then LpSort output (sl_order_by st) else output);
        distinct_rows = (if sl_distinct st then LpDedup sorted else sorted) in
      LpLimit distinct_rows (case sl_limit st of Some n \<Rightarrow> n | None \<Rightarrow> USIZE_MAX) (case sl_offset st of Some n \<Rightarrow> n | None \<Rightarrow> 0))"

section \<open>Schemas of plans\<close>

definition combine_schemas :: "'f schema \<Rightarrow> 'f schema \<Rightarrow> 'f schema" where
  "combine_schemas l r = l @ map (\<lambda>(i, c). c\<lparr>ci_ordinal := length l + i\<rparr>) (List.enumerate 0 r)"

definition expr_name :: "'f sql_lib \<Rightarrow> 'f expr \<Rightarrow> string option" where
  "expr_name L e = (case e of EColumn c \<Rightarrow> Some c | EFunction n _ \<Rightarrow> Some n | ELiteral v \<Rightarrow> Some (sl_show_literal L v) | _ \<Rightarrow> None)"

definition column_label :: "nat \<Rightarrow> string" where "column_label i = ''col_'' @ nat_string i"

definition projection_schema :: "'f sql_lib \<Rightarrow> 'f select_exprs \<Rightarrow> 'f schema" where
  "projection_schema L exprs = map (\<lambda>(i, (e, alias)).
     \<lparr>ci_name = (case alias of Some a \<Rightarrow> a | None \<Rightarrow> (case expr_name L e of Some n \<Rightarrow> n | None \<Rightarrow> column_label i)),
      ci_sql_type = TyText, ci_nullable = True, ci_default = None, ci_ordinal = i, ci_unique = False,
      ci_is_primary_key = False, ci_auto_increment = False\<rparr>) (List.enumerate 0 exprs)"

definition schema_of_table :: "'f table_store \<Rightarrow> string \<Rightarrow> ('f sql_error, 'f schema) outcome" where
  "schema_of_table ts name = fst (table_schema name ts)"

fun resolve_schema :: "'f table_store \<Rightarrow> 'f plan \<Rightarrow> ('f sql_error, 'f schema) outcome" where
  "resolve_schema ts (LpScan name _) = schema_of_table ts name"
| "resolve_schema ts (LpJoin l r _) =
     obind (resolve_schema ts l) (\<lambda>a. obind (resolve_schema ts r) (\<lambda>b. Ok (combine_schemas a b)))"
| "resolve_schema ts (LpProjection p _) = resolve_schema ts p"
| "resolve_schema ts (LpSelection p _) = resolve_schema ts p"
| "resolve_schema ts (LpSort p _) = resolve_schema ts p"
| "resolve_schema ts (LpLimit p _ _) = resolve_schema ts p"
| "resolve_schema ts (LpAggregate p _ _ _) = resolve_schema ts p"
| "resolve_schema ts (LpDedup p) = resolve_schema ts p"

fun resolve_output_schema :: "'f sql_lib \<Rightarrow> 'f table_store \<Rightarrow> 'f plan \<Rightarrow> ('f sql_error, 'f schema) outcome" where
  "resolve_output_schema L ts (LpProjection p exprs) = obind (resolve_schema ts p) (\<lambda>_. Ok (projection_schema L exprs))"
| "resolve_output_schema L ts (LpAggregate p exprs _ _) = obind (resolve_schema ts p) (\<lambda>_. Ok (projection_schema L exprs))"
| "resolve_output_schema L ts (LpSelection p _) = resolve_output_schema L ts p"
| "resolve_output_schema L ts (LpSort p _) = resolve_output_schema L ts p"
| "resolve_output_schema L ts (LpLimit p _ _) = resolve_output_schema L ts p"
| "resolve_output_schema L ts (LpDedup p) = resolve_output_schema L ts p"
| "resolve_output_schema L ts (LpJoin l r _) =
     obind (resolve_schema ts l) (\<lambda>a. obind (resolve_schema ts r) (\<lambda>b. Ok (combine_schemas a b)))"
| "resolve_output_schema L ts (LpScan name _) = schema_of_table ts name"

section \<open>Grouping and aggregation\<close>

definition row_values :: "'f sql_lib \<Rightarrow> 'f schema \<Rightarrow> 'f expr list \<Rightarrow> 'f row \<Rightarrow> ('f sql_error, 'f literal list) outcome" where
  "row_values L sch es row = traverse (evaluate_expr L sch row) es"

fun add_to_group :: "'f sql_lib \<Rightarrow> 'f literal list \<Rightarrow> 'f row \<Rightarrow> ('f literal list \<times> 'f row list) list \<Rightarrow> ('f literal list \<times> 'f row list) list" where
  "add_to_group L k row [] = [(k, [row])]"
| "add_to_group L k row ((k', rows) # gs) =
     (if list_all2 (literal_eq L) k' k then (k', rows @ [row]) # gs else (k', rows) # add_to_group L k row gs)"

definition group_rows :: "'f sql_lib \<Rightarrow> 'f schema \<Rightarrow> 'f expr list \<Rightarrow> 'f row list \<Rightarrow>
    ('f sql_error, ('f literal list \<times> 'f row list) list) outcome" where
  "group_rows L sch by rows =
     (if by = [] then Ok (if rows = [] then [] else [([], rows)])
      else fold_ok (\<lambda>gs row. obind (row_values L sch by row) (\<lambda>k. Ok (add_to_group L k row gs))) [] rows)"

text \<open>The loops of an aggregate run over the arguments on each row of the group, in that order.\<close>

definition over_args :: "'f sql_lib \<Rightarrow> 'f schema \<Rightarrow> 'f expr list \<Rightarrow> 'f row list \<Rightarrow>
    ('b \<Rightarrow> 'f literal \<Rightarrow> ('f sql_error, 'b) outcome) \<Rightarrow> 'b \<Rightarrow> ('f sql_error, 'b) outcome" where
  "over_args L sch args rows f b =
     fold_ok (\<lambda>acc row. fold_ok (\<lambda>acc arg. obind (evaluate_expr L sch row arg) (f acc)) acc args) b rows"

definition add_number :: "'f sql_lib \<Rightarrow> 'f \<times> nat \<Rightarrow> 'f literal \<Rightarrow> ('f sql_error, 'f \<times> nat) outcome" where
  "add_number L acc v = Ok (case as_float L v of Some f \<Rightarrow> (sf_add L (fst acc) f, Suc (snd acc)) | None \<Rightarrow> acc)"

definition next_best :: "'f sql_lib \<Rightarrow> binop \<Rightarrow> 'f literal option \<Rightarrow> 'f literal \<Rightarrow> ('f sql_error, 'f literal option) outcome" where
  "next_best L op best v =
     (if v = LNull then Ok best
      else case best of None \<Rightarrow> Ok (Some v) | Some b \<Rightarrow> obind (take_better L op b v) (\<lambda>w. Ok (Some w)))"

definition evaluate_aggregate_expr :: "'f sql_lib \<Rightarrow> 'f schema \<Rightarrow> 'f row list \<Rightarrow> 'f expr \<Rightarrow> ('f sql_error, 'f literal) outcome" where
  "evaluate_aggregate_expr L sch rows e =
     (let last_value = fold_ok (\<lambda>_ row. evaluate_expr L sch row e) LNull rows in
      case e of
        EFunction name args \<Rightarrow>
          (let n = lower name in
           if n = ''count'' then
             (if args = [ELiteral (LString ''*'')] then Ok (LInteger (of_nat (length rows)))
              else obind (over_args L sch args rows (\<lambda>c v. Ok (if v = LNull then c else c + 1)) 0) (\<lambda>c. Ok (LInteger c)))
           else if n = ''sum'' then
             obind (over_args L sch args rows (add_number L) (sf_zero L, 0)) (\<lambda>(s, c). Ok (if 0 < c then LFloat s else LNull))
           else if n = ''avg'' then
             obind (over_args L sch args rows (add_number L) (sf_zero L, 0))
               (\<lambda>(s, c). Ok (if 0 < c then LFloat (sf_div L s (sf_of_int L (of_nat c))) else LNull))
           else if n = ''min'' \<or> n = ''max'' then
             obind (over_args L sch args rows (next_best L (if n = ''min'' then BLt else BGt)) None)
               (\<lambda>b. Ok (case b of Some v \<Rightarrow> v | None \<Rightarrow> LNull))
           else last_value)
      | _ \<Rightarrow> last_value)"

fun evaluate_grouped_expr :: "'f sql_lib \<Rightarrow> 'f schema \<Rightarrow> 'f row list \<Rightarrow> 'f expr \<Rightarrow> ('f sql_error, 'f literal) outcome" where
  "evaluate_grouped_expr L sch rows (EColumn c) =
     (case rows of row # _ \<Rightarrow> evaluate_expr L sch row (EColumn c) | [] \<Rightarrow> Ok LNull)"
| "evaluate_grouped_expr L sch rows (EBinary l op r) =
     obind (evaluate_grouped_expr L sch rows l) (\<lambda>a. obind (evaluate_grouped_expr L sch rows r) (\<lambda>b. eval_binary_op L op a b))"
| "evaluate_grouped_expr L sch rows (EUnary op e) = obind (evaluate_grouped_expr L sch rows e) (eval_unary_op L op)"
| "evaluate_grouped_expr L sch rows (ECast e t) = obind (evaluate_grouped_expr L sch rows e) (\<lambda>v. coerce_value L v t)"
| "evaluate_grouped_expr L sch rows (EIsNull e) = obind (evaluate_grouped_expr L sch rows e) (\<lambda>v. Ok (LBoolean (v = LNull)))"
| "evaluate_grouped_expr L sch rows (EIsNotNull e) = obind (evaluate_grouped_expr L sch rows e) (\<lambda>v. Ok (LBoolean (v \<noteq> LNull)))"
| "evaluate_grouped_expr L sch rows e =
     (if contains_aggregate e \<and> (case e of EFunction _ _ \<Rightarrow> True | _ \<Rightarrow> False) then evaluate_aggregate_expr L sch rows e
      else obind (nth_or_panic rows 0) (\<lambda>row. evaluate_expr L sch row e))"

definition aggregate_group :: "'f sql_lib \<Rightarrow> 'f schema \<Rightarrow> 'f select_exprs \<Rightarrow> 'f expr option \<Rightarrow> 'f row list \<Rightarrow>
    ('f sql_error, 'f row list) outcome" where
  "aggregate_group L sch exprs having rows =
     obind (traverse (\<lambda>(e, _). evaluate_grouped_expr L sch rows e) exprs) (\<lambda>vs.
     case having of
       None \<Rightarrow> Ok [map Some vs]
     | Some h \<Rightarrow> obind (evaluate_grouped_expr L sch rows h) (\<lambda>hv. Ok (if hv = LBoolean True then [map Some vs] else [])))"

definition aggregate_rows :: "'f sql_lib \<Rightarrow> 'f schema \<Rightarrow> 'f select_exprs \<Rightarrow> 'f expr list \<Rightarrow> 'f expr option \<Rightarrow> 'f row list \<Rightarrow>
    ('f sql_error, 'f row list) outcome" where
  "aggregate_rows L sch exprs by having rows =
     obind (group_rows L sch by rows) (\<lambda>gs. obind (traverse (\<lambda>(_, g). aggregate_group L sch exprs having g) gs) (\<lambda>rs. Ok (concat rs)))"

section \<open>Sorting\<close>

datatype comparison = CmpLess | CmpEqual | CmpGreater

fun cmp_reverse :: "comparison \<Rightarrow> comparison" where
  "cmp_reverse CmpLess = CmpGreater"
| "cmp_reverse CmpEqual = CmpEqual"
| "cmp_reverse CmpGreater = CmpLess"

definition cmp_by :: "('a \<Rightarrow> 'a \<Rightarrow> bool) \<Rightarrow> 'a \<Rightarrow> 'a \<Rightarrow> comparison" where
  "cmp_by le a b = (if le a b then if le b a then CmpEqual else CmpLess else CmpGreater)"

definition compare_values :: "'f sql_lib \<Rightarrow> 'f literal \<Rightarrow> 'f literal \<Rightarrow> bool option \<Rightarrow> comparison" where
  "compare_values L a b nulls_first =
     (let first = (nulls_first = Some True) in
      case (a, b) of
        (LNull, LNull) \<Rightarrow> CmpEqual
      | (LNull, _) \<Rightarrow> if first then CmpLess else CmpGreater
      | (_, LNull) \<Rightarrow> if first then CmpGreater else CmpLess
      | (LInteger x, LInteger y) \<Rightarrow> cmp_by (\<le>s) x y
      | (LInteger x, LFloat y) \<Rightarrow> cmp_by (sf_total_le L) (sf_of_int L x) y
      | (LFloat x, LInteger y) \<Rightarrow> cmp_by (sf_total_le L) x (sf_of_int L y)
      | (LFloat x, LFloat y) \<Rightarrow> cmp_by (sf_total_le L) x y
      | (LBoolean x, LBoolean y) \<Rightarrow> cmp_by (\<le>) x y
      | (LString x, LString y) \<Rightarrow> cmp_by (\<le>) (string_bytes x) (string_bytes y)
      | _ \<Rightarrow> CmpEqual)"

definition sort_key_value :: "'f sql_lib \<Rightarrow> 'f schema \<Rightarrow> 'f row \<Rightarrow> 'f expr \<Rightarrow> ('f sql_error, 'f literal) outcome" where
  "sort_key_value L sch row e =
     (case e of
        ELiteral (LInteger i) \<Rightarrow>
          if 1 \<le>s i \<and> unat i \<le> length row then Ok (case row ! (unat i - 1) of Some v \<Rightarrow> v | None \<Rightarrow> LNull)
          else Ok (LInteger i)
      | _ \<Rightarrow> (case evaluate_expr L sch row e of Err _ \<Rightarrow> Ok LNull | r \<Rightarrow> r))"

fun compare_keys :: "'f sql_lib \<Rightarrow> 'f order_by_expr list \<Rightarrow> 'f literal list \<Rightarrow> 'f literal list \<Rightarrow> comparison" where
  "compare_keys L (ob # obs) (x # xs) (y # ys) =
     (let c = compare_values L x y (ob_nulls_first ob) in
      if c = CmpEqual then compare_keys L obs xs ys else if ob_asc ob then c else cmp_reverse c)"
| "compare_keys L _ _ _ = CmpEqual"

text \<open>\<open>sort_by\<close> is a stable sort where the comparison is a total preorder; the library leaves the
  order open otherwise. The keys of a row are computed once, where the code computes them again at
  each comparison.\<close>

fun insert_sorted :: "('a \<Rightarrow> 'a \<Rightarrow> bool) \<Rightarrow> 'a \<Rightarrow> 'a list \<Rightarrow> 'a list" where
  "insert_sorted le x [] = [x]"
| "insert_sorted le x (y # ys) = (if le x y then x # y # ys else y # insert_sorted le x ys)"

definition stable_sort :: "('a \<Rightarrow> 'a \<Rightarrow> bool) \<Rightarrow> 'a list \<Rightarrow> 'a list" where
  "stable_sort le xs = foldr (insert_sorted le) xs []"

definition sort_rows :: "'f sql_lib \<Rightarrow> 'f schema \<Rightarrow> 'f order_by_expr list \<Rightarrow> 'f row list \<Rightarrow> ('f sql_error, 'f row list) outcome" where
  "sort_rows L sch obs rows =
     (if length rows < 2 then Ok rows else
      obind (traverse (\<lambda>row. obind (traverse (\<lambda>ob. sort_key_value L sch row (ob_expr ob)) obs) (\<lambda>ks. Ok (ks, row))) rows)
       (\<lambda>keyed. Ok (map snd (stable_sort (\<lambda>(k, _) (k', _). compare_keys L obs k k' \<noteq> CmpGreater) keyed))))"


section \<open>Executors\<close>

datatype 'f executor =
    XScan string "'f row list" nat
  | XFilter "'f executor" "'f expr" "'f schema"
  | XProjection "'f executor" "'f select_exprs" "'f schema"
  | XDedup "'f executor" "u64 list"
  | XAggregate "'f executor" "'f select_exprs" "'f expr list" "'f expr option" "'f schema" "'f row list" nat
  | XSort "'f executor" "'f order_by_expr list" "'f schema" "'f row list" nat nat
  | XLimit "'f executor" nat nat nat nat
  | XJoin "'f executor" "'f executor" "'f expr option" "'f schema" "'f row list" nat "'f row list" nat

type_synonym ('f, 'a) pulled = "(('f sql_error, 'a) outcome \<times> 'f executor) option"

abbreviation on_ok :: "('e, 'a) outcome \<Rightarrow> 'x \<Rightarrow> ('a \<Rightarrow> (('e, 'b) outcome \<times> 'x) option) \<Rightarrow> (('e, 'b) outcome \<times> 'x) option" where
  "on_ok r x f \<equiv> (case r of Ok v \<Rightarrow> f v | Err e \<Rightarrow> Some (Err e, x) | Panic \<Rightarrow> Some (Panic, x) | Deadlock \<Rightarrow> Some (Deadlock, x))"

definition next_buffered :: "'f row list \<Rightarrow> nat \<Rightarrow> (nat \<Rightarrow> 'f executor) \<Rightarrow> ('f, 'f row option) pulled" where
  "next_buffered rows i x = Some (if i < length rows then (Ok (Some (rows ! i)), x (Suc i)) else (Ok None, x i))"

definition join_accepts :: "'f sql_lib \<Rightarrow> 'f schema \<Rightarrow> 'f expr option \<Rightarrow> 'f row \<Rightarrow> ('f sql_error, bool) outcome" where
  "join_accepts L sch on row = (case on of None \<Rightarrow> Ok True
     | Some p \<Rightarrow> obind (evaluate_expr L sch row p) (\<lambda>v. Ok (v = LBoolean True)))"

partial_function (option) exec_next :: "'f sql_lib \<Rightarrow> 'f executor \<Rightarrow> ('f, 'f row option) pulled" where
  "exec_next L x = (case x of
     XScan t rows i \<Rightarrow> next_buffered rows i (XScan t rows)
   | XFilter inp p sch \<Rightarrow> Option.bind (exec_next L inp) (\<lambda>(r, inp').
       on_ok r (XFilter inp' p sch) (\<lambda>next_row. case next_row of
         None \<Rightarrow> Some (Ok None, XFilter inp' p sch)
       | Some row \<Rightarrow> on_ok (evaluate_expr L sch row p) (XFilter inp' p sch) (\<lambda>v.
           if v = LBoolean True then Some (Ok (Some row), XFilter inp' p sch) else exec_next L (XFilter inp' p sch))))
   | XProjection inp exprs sch \<Rightarrow> Option.bind (exec_next L inp) (\<lambda>(r, inp').
       on_ok r (XProjection inp' exprs sch) (\<lambda>next_row. case next_row of
         None \<Rightarrow> Some (Ok None, XProjection inp' exprs sch)
       | Some row \<Rightarrow> on_ok (traverse (\<lambda>(e, _). evaluate_expr L sch row e) exprs) (XProjection inp' exprs sch) (\<lambda>vs.
           Some (Ok (Some (map Some vs)), XProjection inp' exprs sch))))
   | XDedup inp seen \<Rightarrow> Option.bind (exec_next L inp) (\<lambda>(r, inp').
       on_ok r (XDedup inp' seen) (\<lambda>next_row. case next_row of
         None \<Rightarrow> Some (Ok None, XDedup inp' seen)
       | Some row \<Rightarrow>
           if sl_row_hash L row \<in> set seen then exec_next L (XDedup inp' seen)
           else Some (Ok (Some row), XDedup inp' (seen @ [sl_row_hash L row]))))
   | XAggregate inp exprs by having sch results i \<Rightarrow> next_buffered results i (XAggregate inp exprs by having sch results)
   | XSort inp obs sch rows i max_rows \<Rightarrow> next_buffered rows i (\<lambda>i. XSort inp obs sch rows i max_rows)
   | XLimit inp limit offset skipped emitted \<Rightarrow>
       if limit \<le> emitted then Some (Ok None, x)
       else Option.bind (exec_next L inp) (\<lambda>(r, inp').
         on_ok r (XLimit inp' limit offset skipped emitted) (\<lambda>next_row. case next_row of
           None \<Rightarrow> Some (Ok None, XLimit inp' limit offset skipped emitted)
         | Some row \<Rightarrow> Some (Ok (Some row), XLimit inp' limit offset skipped (Suc emitted))))
   | XJoin l r on sch ls li rs ri \<Rightarrow>
       if length ls \<le> li then Some (Ok None, x)
       else if length rs \<le> ri then exec_next L (XJoin l r on sch ls (Suc li) rs 0)
       else (let row = ls ! li @ rs ! ri; x' = XJoin l r on sch ls li rs (Suc ri) in
         on_ok (join_accepts L sch on row) x' (\<lambda>ok. if ok then Some (Ok (Some row), x') else exec_next L x')))"

text \<open>Every row an executor has left, in the order of the pulls; \<open>SortExecutor\<close> limits their number.\<close>

definition sort_overflow :: "nat \<Rightarrow> 'f sql_error" where
  "sort_overflow n = SqlQueryTooComplex [ShText (''sort buffer exceeded limit '' @ nat_string n @ '' (max_batch_size)'')]"

partial_function (option) exec_drain :: "'f sql_lib \<Rightarrow> nat option \<Rightarrow> 'f row list \<Rightarrow> 'f executor \<Rightarrow> ('f, 'f row list) pulled" where
  "exec_drain L bound rows x = Option.bind (exec_next L x) (\<lambda>(r, x').
     on_ok r x' (\<lambda>next_row. case next_row of
       None \<Rightarrow> Some (Ok rows, x')
     | Some row \<Rightarrow> (case bound of
           Some n \<Rightarrow> if n < length (rows @ [row]) then Some (Err (sort_overflow n), x') else exec_drain L bound (rows @ [row]) x'
         | None \<Rightarrow> exec_drain L bound (rows @ [row]) x')))"

fun exec_close :: "'f executor \<Rightarrow> 'f executor" where
  "exec_close (XScan t rows i) = XScan t [] 0"
| "exec_close (XFilter inp p sch) = XFilter (exec_close inp) p sch"
| "exec_close (XProjection inp exprs sch) = XProjection (exec_close inp) exprs sch"
| "exec_close (XDedup inp seen) = XDedup (exec_close inp) seen"
| "exec_close (XAggregate inp exprs by having sch results i) = XAggregate inp exprs by having sch [] 0"
| "exec_close (XSort inp obs sch rows i max_rows) = XSort inp obs sch [] 0 max_rows"
| "exec_close (XLimit inp limit offset skipped emitted) = XLimit (exec_close inp) limit offset skipped emitted"
| "exec_close (XJoin l r on sch ls li rs ri) = XJoin l r on sch [] 0 [] 0"

partial_function (option) skip_rows :: "'f sql_lib \<Rightarrow> nat \<Rightarrow> nat \<Rightarrow> 'f executor \<Rightarrow> ('f, nat) pulled" where
  "skip_rows L offset skipped x =
     (if offset \<le> skipped then Some (Ok skipped, x)
      else Option.bind (exec_next L x) (\<lambda>(r, x').
        on_ok r x' (\<lambda>next_row. case next_row of
          None \<Rightarrow> Some (Ok skipped, x')
        | Some _ \<Rightarrow> skip_rows L offset (Suc skipped) x')))"

text \<open>\<open>open\<close>: a sort, an aggregate and a join take all the rows of their inputs here.\<close>

definition drain_opened :: "'f sql_lib \<Rightarrow> nat option \<Rightarrow> ('f, unit) pulled \<Rightarrow> ('f, 'f row list) pulled" where
  "drain_opened L bound opened = Option.bind opened (\<lambda>(r, x). on_ok r x (\<lambda>_.
     Option.bind (exec_drain L bound [] x) (\<lambda>(r', x'). on_ok r' x' (\<lambda>rows. Some (Ok rows, exec_close x')))))"

fun exec_open :: "'f sql_lib \<Rightarrow> 'f table_store \<Rightarrow> 'f executor \<Rightarrow> ('f, unit) pulled" where
  "exec_open L ts (XScan t rows i) =
     on_ok (fst (scan_rows t ts)) (XScan t rows i) (\<lambda>rows'. Some (Ok (), XScan t rows' 0))"
| "exec_open L ts (XFilter inp p sch) =
     map_option (\<lambda>(r, inp'). (r, XFilter inp' p sch)) (exec_open L ts inp)"
| "exec_open L ts (XProjection inp exprs sch) =
     map_option (\<lambda>(r, inp'). (r, XProjection inp' exprs sch)) (exec_open L ts inp)"
| "exec_open L ts (XDedup inp seen) = Option.bind (exec_open L ts inp) (\<lambda>(r, inp').
     on_ok r (XDedup inp' seen) (\<lambda>_. Some (Ok (), XDedup inp' [])))"
| "exec_open L ts (XAggregate inp exprs by having sch results i) =
     Option.bind (drain_opened L None (exec_open L ts inp)) (\<lambda>(r, inp').
     on_ok r (XAggregate inp' exprs by having sch results i) (\<lambda>rows.
     on_ok (aggregate_rows L sch exprs by having rows) (XAggregate inp' exprs by having sch results i) (\<lambda>results'.
     Some (Ok (), XAggregate inp' exprs by having sch results' 0))))"
| "exec_open L ts (XSort inp obs sch rows i max_rows) =
     Option.bind (drain_opened L (Some max_rows) (exec_open L ts inp)) (\<lambda>(r, inp').
     on_ok r (XSort inp' obs sch rows i max_rows) (\<lambda>rows'.
     on_ok (sort_rows L sch obs rows') (XSort inp' obs sch rows i max_rows) (\<lambda>sorted.
     Some (Ok (), XSort inp' obs sch sorted 0 max_rows))))"
| "exec_open L ts (XLimit inp limit offset skipped emitted) = Option.bind (exec_open L ts inp) (\<lambda>(r, inp').
     on_ok r (XLimit inp' limit offset skipped emitted) (\<lambda>_.
     Option.bind (skip_rows L offset 0 inp') (\<lambda>(r', inp'').
     on_ok r' (XLimit inp'' limit offset 0 0) (\<lambda>n. Some (Ok (), XLimit inp'' limit offset n 0)))))"
| "exec_open L ts (XJoin l r on sch ls li rs ri) =
     Option.bind (drain_opened L None (exec_open L ts l)) (\<lambda>(a, l').
     on_ok a (XJoin l' r on sch ls li rs ri) (\<lambda>ls'.
     Option.bind (drain_opened L None (exec_open L ts r)) (\<lambda>(b, r').
     on_ok b (XJoin l' r' on sch ls' li rs ri) (\<lambda>rs'. Some (Ok (), XJoin l' r' on sch ls' 0 rs' 0)))))"

section \<open>From plans to executors\<close>

fun build_executor :: "'f sql_lib \<Rightarrow> 'f table_store \<Rightarrow> nat \<Rightarrow> 'f plan \<Rightarrow> ('f sql_error, 'f executor) outcome" where
  "build_executor L ts m (LpScan name _) = obind (schema_of_table ts name) (\<lambda>_. Ok (XScan name [] 0))"
| "build_executor L ts m (LpSelection p e) = obind (build_executor L ts m p) (\<lambda>x.
     obind (resolve_schema ts p) (\<lambda>sch. Ok (XFilter x e sch)))"
| "build_executor L ts m (LpProjection p exprs) = obind (build_executor L ts m p) (\<lambda>x.
     obind (resolve_schema ts p) (\<lambda>sch. Ok (XProjection x exprs sch)))"
| "build_executor L ts m (LpAggregate p exprs by having) = obind (build_executor L ts m p) (\<lambda>x.
     obind (resolve_schema ts p) (\<lambda>sch. Ok (XAggregate x exprs by having sch [] 0)))"
| "build_executor L ts m (LpSort p obs) = obind (build_executor L ts m p) (\<lambda>x.
     obind (resolve_output_schema L ts p) (\<lambda>sch. Ok (XSort x obs sch [] 0 m)))"
| "build_executor L ts m (LpLimit p limit offset) = obind (build_executor L ts m p) (\<lambda>x. Ok (XLimit x limit offset 0 0))"
| "build_executor L ts m (LpDedup p) = obind (build_executor L ts m p) (\<lambda>x. Ok (XDedup x []))"
| "build_executor L ts m (LpJoin l r on) = obind (build_executor L ts m l) (\<lambda>x. obind (build_executor L ts m r) (\<lambda>y.
     obind (resolve_schema ts l) (\<lambda>a. obind (resolve_schema ts r) (\<lambda>b. Ok (XJoin x y on (combine_schemas a b) [] 0 [] 0)))))"

section \<open>Running a plan\<close>

text \<open>What the engine does with a plan: build, open, pull to the end, close.\<close>

definition run_plan :: "'f sql_lib \<Rightarrow> 'f table_store \<Rightarrow> nat \<Rightarrow> 'f plan \<Rightarrow> ('f sql_error, 'f row list) outcome option" where
  "run_plan L ts m p = (case build_executor L ts m p of
       Ok x \<Rightarrow> map_option fst (drain_opened L None (exec_open L ts x))
     | Err e \<Rightarrow> Some (Err e)
     | Panic \<Rightarrow> Some Panic
     | Deadlock \<Rightarrow> Some Deadlock)"

end
