(* ===== verification/Sql_Query.thy ===== *)
theory Sql_Query
  imports Sql_Exec
begin

text \<open>
  What a query returns, without executors: every plan stands for a stream, the rows it yields and how
  it ends. The executors, pulled row by row, come back and yield exactly the stream of their plan.
\<close>

section \<open>Streams\<close>

type_synonym ('e, 'b) stream_of = "'b list \<times> ('e, unit) outcome"

type_synonym 'f row_stream = "('f sql_error, 'f row) stream_of"

fun pull_through :: "('a \<Rightarrow> ('e, 'b option) outcome) \<Rightarrow> 'a list \<Rightarrow> ('e, unit) outcome \<Rightarrow> ('e, 'b) stream_of" where
  "pull_through f [] fin = ([], fin)"
| "pull_through f (x # xs) fin = (case f x of
       Ok (Some y) \<Rightarrow> (y # fst (pull_through f xs fin), snd (pull_through f xs fin))
     | Ok None \<Rightarrow> pull_through f xs fin
     | Err e \<Rightarrow> ([], Err e)
     | Panic \<Rightarrow> ([], Panic)
     | Deadlock \<Rightarrow> ([], Deadlock))"

definition pull_next :: "('e, 'b) stream_of \<Rightarrow> ('e, 'b option) outcome" where
  "pull_next s = (case fst s of y # _ \<Rightarrow> Ok (Some y) | [] \<Rightarrow> obind (snd s) (\<lambda>_. Ok None))"

definition pull_all :: "('e, 'b) stream_of \<Rightarrow> ('e, 'b list) outcome" where
  "pull_all s = obind (snd s) (\<lambda>_. Ok (fst s))"

lemma pull_next_simps [simp]: "pull_next (y # ys, fin) = Ok (Some y)" "pull_next ([], fin) = obind fin (\<lambda>_. Ok None)"
  by (simp_all add: pull_next_def)

fun dedup_rows :: "('a \<Rightarrow> 'h) \<Rightarrow> 'h list \<Rightarrow> 'a list \<Rightarrow> 'a list" where
  "dedup_rows h seen [] = []"
| "dedup_rows h seen (x # xs) = (if h x \<in> set seen then dedup_rows h seen xs else x # dedup_rows h (seen @ [h x]) xs)"

definition keep_row :: "'f sql_lib \<Rightarrow> 'f schema \<Rightarrow> 'f expr \<Rightarrow> 'f row \<Rightarrow> ('f sql_error, 'f row option) outcome" where
  "keep_row L sch p row = obind (evaluate_expr L sch row p) (\<lambda>v. Ok (if v = LBoolean True then Some row else None))"

definition project_row :: "'f sql_lib \<Rightarrow> 'f schema \<Rightarrow> 'f select_exprs \<Rightarrow> 'f row \<Rightarrow> ('f sql_error, 'f row option) outcome" where
  "project_row L sch exprs row = obind (traverse (\<lambda>(e, _). evaluate_expr L sch row e) exprs) (\<lambda>vs. Ok (Some (map Some vs)))"

definition joined_row :: "'f sql_lib \<Rightarrow> 'f schema \<Rightarrow> 'f expr option \<Rightarrow> 'f row \<times> 'f row \<Rightarrow> ('f sql_error, 'f row option) outcome" where
  "joined_row L sch on = (\<lambda>(a, b). obind (join_accepts L sch on (a @ b)) (\<lambda>ok. Ok (if ok then Some (a @ b) else None)))"

definition limited :: "nat \<Rightarrow> 'f row_stream \<Rightarrow> 'f row_stream" where
  "limited n s = (take n (fst s), if n \<le> length (fst s) then Ok () else snd s)"

section \<open>What an executor has left\<close>

fun rest :: "'f sql_lib \<Rightarrow> 'f executor \<Rightarrow> 'f row_stream" where
  "rest L (XScan t rows i) = (drop i rows, Ok ())"
| "rest L (XFilter inp p sch) = (case rest L inp of (rows, fin) \<Rightarrow> pull_through (keep_row L sch p) rows fin)"
| "rest L (XProjection inp exprs sch) = (case rest L inp of (rows, fin) \<Rightarrow> pull_through (project_row L sch exprs) rows fin)"
| "rest L (XDedup inp seen) = (case rest L inp of (rows, fin) \<Rightarrow> (dedup_rows (sl_row_hash L) seen rows, fin))"
| "rest L (XAggregate inp exprs by having sch results i) = (drop i results, Ok ())"
| "rest L (XSort inp obs sch rows i m) = (drop i rows, Ok ())"
| "rest L (XLimit inp limit offset skipped emitted) = limited (limit - emitted) (rest L inp)"
| "rest L (XJoin l r on sch ls li rs ri) =
     pull_through (joined_row L sch on)
       (case drop li ls of [] \<Rightarrow> [] | a # as \<Rightarrow> map (Pair a) (drop ri rs) @ List.product as rs) (Ok ())"

fun depth :: "'f executor \<Rightarrow> nat" where
  "depth (XScan t rows i) = 0"
| "depth (XFilter inp p sch) = Suc (depth inp)"
| "depth (XProjection inp exprs sch) = Suc (depth inp)"
| "depth (XDedup inp seen) = Suc (depth inp)"
| "depth (XAggregate inp exprs by having sch results i) = 0"
| "depth (XSort inp obs sch rows i m) = 0"
| "depth (XLimit inp limit offset skipped emitted) = Suc (depth inp)"
| "depth (XJoin l r on sch ls li rs ri) = 0"

definition pulls :: "'f sql_lib \<Rightarrow> 'f executor \<Rightarrow> bool" where
  "pulls L x \<longleftrightarrow> (\<exists>x'. exec_next L x = Some (pull_next (rest L x), x') \<and> depth x' = depth x \<and>
     (\<forall>row rows. fst (rest L x) = row # rows \<longrightarrow> rest L x' = (rows, snd (rest L x))) \<and>
     (pull_next (rest L x) = Ok None \<longrightarrow> rest L x' = ([], Ok ())))"

lemma pullsI:
  assumes "exec_next L x = Some (pull_next (rest L x), x')" and "depth x' = depth x"
    and "\<And>row rows. fst (rest L x) = row # rows \<Longrightarrow> rest L x' = (rows, snd (rest L x))"
    and "pull_next (rest L x) = Ok None \<Longrightarrow> rest L x' = ([], Ok ())"
  shows "pulls L x"
  using assms unfolding pulls_def by blast

lemma pulls_row:
  assumes "pulls L x" and "rest L x = (row # rows, fin)"
  obtains x' where "exec_next L x = Some (Ok (Some row), x')" "depth x' = depth x" "rest L x' = (rows, fin)"
  using assms unfolding pulls_def by auto

lemma unit_outcome: "obind fin (\<lambda>_. Ok None) = Ok None \<longleftrightarrow> fin = Ok ()"
  by (cases fin) auto

lemma pulls_end:
  assumes "pulls L x" and "rest L x = ([], fin)"
  obtains x' where "exec_next L x = Some (obind fin (\<lambda>_. Ok None), x')" "depth x' = depth x"
    "fin = Ok () \<longrightarrow> rest L x' = ([], Ok ())"
  using assms unfolding pulls_def by (auto simp: unit_outcome)

lemma pulls_buffered:
  assumes "exec_next L x = next_buffered rows i y" and "\<And>j. rest L (y j) = (drop j rows, Ok ())" and "\<And>j. depth (y j) = depth x"
    and "rest L x = (drop i rows, Ok ())"
  shows "pulls L x"
proof (cases "i < length rows")
  case True
  then have "drop i rows = rows ! i # drop (Suc i) rows" by (simp add: Cons_nth_drop_Suc)
  then show ?thesis using assms True by (intro pullsI [of L x "y (Suc i)"]) (auto simp: next_buffered_def)
next
  case False
  then show ?thesis using assms by (intro pullsI [of L x "y i"]) (auto simp: next_buffered_def)
qed

lemma pulls_filter:
  assumes "\<And>y. depth y < depth (XFilter inp p sch) \<Longrightarrow> pulls L y"
  shows "pulls L (XFilter inp p sch)"
proof -
  obtain rows fin where "rest L inp = (rows, fin)" by fastforce
  then show ?thesis using assms
  proof (induction rows arbitrary: inp)
    case Nil
    then have "pulls L inp" by simp
    then obtain inp' where i: "exec_next L inp = Some (obind fin (\<lambda>_. Ok None), inp')" "depth inp' = depth inp"
        "fin = Ok () \<longrightarrow> rest L inp' = ([], Ok ())"
      using Nil.prems(1) by (rule pulls_end)
    show ?case
    proof (rule pullsI)
      show "exec_next L (XFilter inp p sch) = Some (pull_next (rest L (XFilter inp p sch)), XFilter inp' p sch)"
        using i(1) Nil.prems(1) by (cases fin) (simp_all add: exec_next.simps [of L "XFilter inp p sch"])
    qed (use i Nil.prems(1) in \<open>auto simp: unit_outcome\<close>)
  next
    case (Cons row rows)
    then have "pulls L inp" by simp
    then obtain inp' where i: "exec_next L inp = Some (Ok (Some row), inp')" "depth inp' = depth inp" "rest L inp' = (rows, fin)"
      using Cons.prems(1) by (rule pulls_row)
    have again: "pulls L (XFilter inp' p sch)" using Cons.IH [OF i(3)] Cons.prems(2) i(2) by simp
    note now = exec_next.simps [of L "XFilter inp p sch"] i(1)
    show ?case
    proof (cases "evaluate_expr L sch row p")
      case (Ok v)
      show ?thesis
      proof (cases "v = LBoolean True")
        case True
        then show ?thesis using i Ok Cons.prems(1)
          by (intro pullsI [of L "XFilter inp p sch" "XFilter inp' p sch"]) (auto simp: now keep_row_def)
      next
        case False
        then have "exec_next L (XFilter inp p sch) = exec_next L (XFilter inp' p sch)"
          "rest L (XFilter inp p sch) = rest L (XFilter inp' p sch)"
          using i Ok Cons.prems(1) by (simp_all add: now keep_row_def)
        then show ?thesis using again i(2) by (simp add: pulls_def)
      qed
    qed (use i Cons.prems(1) in \<open>auto intro!: pullsI [of L "XFilter inp p sch" "XFilter inp' p sch"] simp: now keep_row_def\<close>)
  qed
qed

lemma pulls_projection:
  assumes "pulls L inp"
  shows "pulls L (XProjection inp exprs sch)"
proof -
  note now = exec_next.simps [of L "XProjection inp exprs sch"]
  obtain rows fin where rows: "rest L inp = (rows, fin)" by fastforce
  show ?thesis
  proof (cases rows)
    case Nil
    then obtain inp' where i: "exec_next L inp = Some (obind fin (\<lambda>_. Ok None), inp')" "depth inp' = depth inp"
        "fin = Ok () \<longrightarrow> rest L inp' = ([], Ok ())"
      using pulls_end [OF assms] rows by blast
    then show ?thesis using rows Nil
      by (intro pullsI [of L "XProjection inp exprs sch" "XProjection inp' exprs sch"]; cases fin) (auto simp: now unit_outcome)
  next
    case (Cons row rows')
    then obtain inp' where i: "exec_next L inp = Some (Ok (Some row), inp')" "depth inp' = depth inp" "rest L inp' = (rows', fin)"
      using pulls_row [OF assms] rows by blast
    then show ?thesis using rows Cons
      by (intro pullsI [of L "XProjection inp exprs sch" "XProjection inp' exprs sch"];
          cases "traverse (\<lambda>(e, _). evaluate_expr L sch row e) exprs") (auto simp: now project_row_def)
  qed
qed

lemma pulls_dedup:
  assumes "\<And>y. depth y < depth (XDedup inp seen) \<Longrightarrow> pulls L y"
  shows "pulls L (XDedup inp seen)"
proof -
  obtain rows fin where "rest L inp = (rows, fin)" by fastforce
  then show ?thesis using assms
  proof (induction rows arbitrary: inp)
    case Nil
    then have "pulls L inp" by simp
    then obtain inp' where i: "exec_next L inp = Some (obind fin (\<lambda>_. Ok None), inp')" "depth inp' = depth inp"
        "fin = Ok () \<longrightarrow> rest L inp' = ([], Ok ())"
      using Nil.prems(1) by (rule pulls_end)
    then show ?case using Nil.prems(1)
      by (intro pullsI [of L "XDedup inp seen" "XDedup inp' seen"]; cases fin)
        (auto simp: exec_next.simps [of L "XDedup inp seen"] unit_outcome)
  next
    case (Cons row rows)
    then have "pulls L inp" by simp
    then obtain inp' where i: "exec_next L inp = Some (Ok (Some row), inp')" "depth inp' = depth inp" "rest L inp' = (rows, fin)"
      using Cons.prems(1) by (rule pulls_row)
    have again: "pulls L (XDedup inp' seen)" using Cons.IH [OF i(3)] Cons.prems(2) i(2) by simp
    note now = exec_next.simps [of L "XDedup inp seen"] i(1)
    show ?case
    proof (cases "sl_row_hash L row \<in> set seen")
      case True
      then have "exec_next L (XDedup inp seen) = exec_next L (XDedup inp' seen)"
        "rest L (XDedup inp seen) = rest L (XDedup inp' seen)"
        using i Cons.prems(1) by (simp_all add: now)
      then show ?thesis using again i(2) by (simp add: pulls_def)
    next
      case False
      then show ?thesis using i Cons.prems(1)
        by (intro pullsI [of L "XDedup inp seen" "XDedup inp' (seen @ [sl_row_hash L row])"]) (auto simp: now)
    qed
  qed
qed

lemma pulls_limit:
  assumes "pulls L inp"
  shows "pulls L (XLimit inp limit offset skipped emitted)"
proof (cases "limit \<le> emitted")
  case True
  then show ?thesis
    by (intro pullsI [of L _ "XLimit inp limit offset skipped emitted"])
      (simp_all add: limited_def exec_next.simps [of L "XLimit inp limit offset skipped emitted"])
next
  case False
  note now = exec_next.simps [of L "XLimit inp limit offset skipped emitted"]
  obtain n where n: "limit - emitted = Suc n" "limit - Suc emitted = n" using False by (cases "limit - emitted") auto
  obtain rows fin where rows: "rest L inp = (rows, fin)" by fastforce
  show ?thesis
  proof (cases rows)
    case Nil
    then obtain inp' where i: "exec_next L inp = Some (obind fin (\<lambda>_. Ok None), inp')" "depth inp' = depth inp"
        "fin = Ok () \<longrightarrow> rest L inp' = ([], Ok ())"
      using pulls_end [OF assms] rows by blast
    then show ?thesis using rows Nil n False
      by (intro pullsI [of L _ "XLimit inp' limit offset skipped emitted"]; cases fin) (auto simp: now unit_outcome limited_def)
  next
    case (Cons row rows')
    then obtain inp' where i: "exec_next L inp = Some (Ok (Some row), inp')" "depth inp' = depth inp" "rest L inp' = (rows', fin)"
      using pulls_row [OF assms] rows by blast
    then show ?thesis using rows Cons n False
      by (intro pullsI [of L _ "XLimit inp' limit offset skipped (Suc emitted)"]) (auto simp: now limited_def)
  qed
qed

text \<open>A join goes on to the next left row, or to the next pair.\<close>

lemma pulls_join: "pulls L (XJoin l r on sch ls li rs ri)"
proof (induction "(length ls - li, length rs - ri)" arbitrary: li ri rule: wf_induct_rule [OF wf_lex_prod [OF wf_less_than wf_less_than]])
  case (1 li ri)
  note now = exec_next.simps [of L "XJoin l r on sch ls li rs ri"]
  consider "length ls \<le> li" | "li < length ls" "length rs \<le> ri" | "li < length ls" "ri < length rs" by linarith
  then show ?case
  proof cases
    case 1
    then show ?thesis by (intro pullsI [of L _ "XJoin l r on sch ls li rs ri"]) (simp_all add: now)
  next
    case 2
    then have "exec_next L (XJoin l r on sch ls li rs ri) = exec_next L (XJoin l r on sch ls (Suc li) rs 0)" by (simp add: now)
    moreover have "rest L (XJoin l r on sch ls li rs ri) = rest L (XJoin l r on sch ls (Suc li) rs 0)"
    proof -
      have "drop li ls = ls ! li # drop (Suc li) ls" using 2 by (simp add: Cons_nth_drop_Suc)
      then show ?thesis using 2 by (cases "drop (Suc li) ls") simp_all
    qed
    moreover have "pulls L (XJoin l r on sch ls (Suc li) rs 0)" using 2 by (intro "1.hyps") auto
    ultimately show ?thesis by (simp add: pulls_def)
  next
    case 3
    let ?a = "ls ! li" and ?b = "rs ! ri"
    let ?next = "XJoin l r on sch ls li rs (Suc ri)"
    have ls: "drop li ls = ?a # drop (Suc li) ls" using 3 by (simp add: Cons_nth_drop_Suc)
    have rs: "drop ri rs = ?b # drop (Suc ri) rs" using 3 by (simp add: Cons_nth_drop_Suc)
    have again: "pulls L ?next" using 3 by (intro "1.hyps") auto
    let ?after = "rest L ?next"
    have here: "rest L (XJoin l r on sch ls li rs ri) = (case join_accepts L sch on (?a @ ?b) of
        Ok True \<Rightarrow> ((?a @ ?b) # fst ?after, snd ?after) | Ok False \<Rightarrow> ?after | Err e \<Rightarrow> ([], Err e) | Panic \<Rightarrow> ([], Panic) | Deadlock \<Rightarrow> ([], Deadlock))"
      using ls rs by (simp add: joined_row_def split: outcome.split bool.split)
    show ?thesis
    proof (cases "join_accepts L sch on (?a @ ?b)")
      case (Ok ok)
      show ?thesis
      proof (cases ok)
        case True
        then show ?thesis using Ok here 3 by (intro pullsI [of L _ ?next]) (auto simp: now Let_def)
      next
        case False
        then have "exec_next L (XJoin l r on sch ls li rs ri) = exec_next L ?next" using Ok 3 by (simp add: now Let_def)
        then show ?thesis using False Ok here again by (simp add: pulls_def)
      qed
    qed (use here 3 in \<open>auto intro!: pullsI [of L _ ?next] simp: now Let_def\<close>)
  qed
qed

lemma executor_pulls: "pulls L x"
proof (induction x rule: measure_induct_rule [of depth])
  case (less x)
  show ?case
  proof (cases x)
    case (XScan t rows i)
    then show ?thesis
      by (intro pulls_buffered [of L x rows i "XScan t rows"]) (simp_all add: exec_next.simps [of L "XScan t rows i"])
  next
    case (XFilter inp p sch)
    then show ?thesis using less by (simp only:) (rule pulls_filter)
  next
    case (XProjection inp exprs sch)
    then show ?thesis using less [of inp] by (simp add: pulls_projection)
  next
    case (XDedup inp seen)
    then show ?thesis using less by (simp only:) (rule pulls_dedup)
  next
    case (XAggregate inp exprs by' having sch results i)
    then show ?thesis
      by (intro pulls_buffered [of L x results i "XAggregate inp exprs by' having sch results"])
        (simp_all add: exec_next.simps [of L "XAggregate inp exprs by' having sch results i"])
  next
    case (XSort inp obs sch rows i m)
    then show ?thesis
      by (intro pulls_buffered [of L x rows i "\<lambda>i. XSort inp obs sch rows i m"])
        (simp_all add: exec_next.simps [of L "XSort inp obs sch rows i m"])
  next
    case (XLimit inp limit offset skipped emitted)
    then show ?thesis using less [of inp] by (simp add: pulls_limit)
  next
    case (XJoin l r on sch ls li rs ri)
    then show ?thesis by (simp add: pulls_join)
  qed
qed

section \<open>Pulling to the end\<close>

definition drained :: "nat option \<Rightarrow> 'f row list \<Rightarrow> 'f row_stream \<Rightarrow> ('f sql_error, 'f row list) outcome" where
  "drained bound rows s = (case bound of
       Some n \<Rightarrow> if n < length rows + length (fst s) then Err (sort_overflow n) else obind (pull_all s) (\<lambda>rs. Ok (rows @ rs))
     | None \<Rightarrow> obind (pull_all s) (\<lambda>rs. Ok (rows @ rs)))"

lemma drain_rest:
  assumes "rest L x = (rows, fin)" and "\<And>n. bound = Some n \<Longrightarrow> length acc \<le> n"
  shows "\<exists>x'. exec_drain L bound acc x = Some (drained bound acc (rows, fin), x')"
  using assms
proof (induction rows arbitrary: acc x)
  case Nil
  obtain x' where "exec_next L x = Some (obind fin (\<lambda>_. Ok None), x')"
    using pulls_end [OF executor_pulls Nil.prems(1)] by blast
  then show ?case using Nil.prems(2)
    by (cases fin) (auto simp: exec_drain.simps [of L bound acc] drained_def pull_all_def split: option.split)
next
  case (Cons row rows)
  obtain x' where x': "exec_next L x = Some (Ok (Some row), x')" "rest L x' = (rows, fin)"
    using pulls_row [OF executor_pulls Cons.prems(1)] by blast
  note now = exec_drain.simps [of L bound acc x]
  have later: "drained bound (acc @ [row]) (rows, fin) = drained bound acc (row # rows, fin)"
    by (simp add: drained_def pull_all_def split: option.split)
  show ?case
  proof (cases bound)
    case None
    then have "\<exists>x''. exec_drain L bound (acc @ [row]) x' = Some (drained bound (acc @ [row]) (rows, fin), x'')"
      using Cons.IH [OF x'(2)] by simp
    moreover have "exec_drain L bound acc x = exec_drain L bound (acc @ [row]) x'" unfolding now using None x'(1) by simp
    ultimately show ?thesis using later by simp
  next
    case (Some n)
    show ?thesis
    proof (cases "n < length (acc @ [row])")
      case True
      then have "exec_drain L bound acc x = Some (Err (sort_overflow n), x')" unfolding now using Some x'(1) by simp
      then show ?thesis using True Some by (simp add: drained_def)
    next
      case False
      then have "\<exists>x''. exec_drain L bound (acc @ [row]) x' = Some (drained bound (acc @ [row]) (rows, fin), x'')"
        using Cons.IH [OF x'(2), of "acc @ [row]"] Some by simp
      moreover have "exec_drain L bound acc x = exec_drain L bound (acc @ [row]) x'" unfolding now using Some False x'(1) by simp
      ultimately show ?thesis using later by simp
    qed
  qed
qed

lemma drain_opened_rest:
  assumes "opened = Some (obind s (\<lambda>_. Ok ()), x)" and "\<And>t. s = Ok t \<Longrightarrow> rest L x = t"
  shows "\<exists>x'. drain_opened L bound opened = Some (obind s (drained bound []), x')"
proof (cases s)
  case (Ok t)
  then have "rest L x = (fst t, snd t)" using assms(2) by simp
  then obtain x' where "exec_drain L bound [] x = Some (drained bound [] t, x')"
    using drain_rest [of L x "fst t" "snd t" bound "[]"] by auto
  then show ?thesis using assms(1) Ok by (cases "drained bound [] t") (auto simp: drain_opened_def)
qed (use assms(1) in \<open>auto simp: drain_opened_def\<close>)

lemma skip_rest:
  assumes "rest L x = (rows, fin)" and "k \<le> offset"
  shows "\<exists>x'. if offset - k \<le> length rows then skip_rows L offset k x = Some (Ok offset, x') \<and> rest L x' = (drop (offset - k) rows, fin)
    else skip_rows L offset k x = Some (obind fin (\<lambda>_. Ok (k + length rows)), x') \<and> (fin = Ok () \<longrightarrow> rest L x' = ([], Ok ()))"
  using assms
proof (induction rows arbitrary: k x)
  case Nil
  note now = skip_rows.simps [of L offset k x]
  show ?case
  proof (cases "offset = k")
    case True
    then have "skip_rows L offset k x = Some (Ok offset, x)" unfolding now by simp
    then show ?thesis using Nil.prems True by simp
  next
    case False
    obtain x' where "exec_next L x = Some (obind fin (\<lambda>_. Ok None), x')" "fin = Ok () \<longrightarrow> rest L x' = ([], Ok ())"
      using pulls_end [OF executor_pulls Nil.prems(1)] by blast
    then show ?thesis using False Nil.prems(2) by (cases fin) (auto simp: now)
  qed
next
  case (Cons row rows)
  note now = skip_rows.simps [of L offset k x]
  show ?case
  proof (cases "offset = k")
    case True
    then have "skip_rows L offset k x = Some (Ok offset, x)" unfolding now by simp
    then show ?thesis using Cons.prems True by simp
  next
    case False
    obtain x' where x': "exec_next L x = Some (Ok (Some row), x')" "rest L x' = (rows, fin)"
      using pulls_row [OF executor_pulls Cons.prems(1)] by blast
    obtain n where n: "offset - k = Suc n" "offset - Suc k = n" using False Cons.prems(2) by (cases "offset - k") auto
    have "skip_rows L offset k x = skip_rows L offset (Suc k) x'" using False Cons.prems(2) x'(1) by (simp add: now)
    then show ?thesis using Cons.IH [OF x'(2), of "Suc k"] False Cons.prems(2) n by (simp cong: if_cong)
  qed
qed

section \<open>The stream of a plan\<close>

fun plan_rows :: "'f sql_lib \<Rightarrow> 'f table_store \<Rightarrow> nat \<Rightarrow> 'f plan \<Rightarrow> ('f sql_error, 'f row_stream) outcome" where
  "plan_rows L ts m (LpScan name _) = obind (fst (scan_rows name ts)) (\<lambda>rows. Ok (rows, Ok ()))"
| "plan_rows L ts m (LpSelection p e) = obind (plan_rows L ts m p) (\<lambda>(rows, fin).
     obind (resolve_schema ts p) (\<lambda>sch. Ok (pull_through (keep_row L sch e) rows fin)))"
| "plan_rows L ts m (LpProjection p exprs) = obind (plan_rows L ts m p) (\<lambda>(rows, fin).
     obind (resolve_schema ts p) (\<lambda>sch. Ok (pull_through (project_row L sch exprs) rows fin)))"
| "plan_rows L ts m (LpAggregate p exprs by having) = obind (plan_rows L ts m p) (\<lambda>s. obind (pull_all s) (\<lambda>rows.
     obind (resolve_schema ts p) (\<lambda>sch. obind (aggregate_rows L sch exprs by having rows) (\<lambda>rs. Ok (rs, Ok ())))))"
| "plan_rows L ts m (LpSort p obs) = obind (plan_rows L ts m p) (\<lambda>s.
     if m < length (fst s) then Err (sort_overflow m)
     else obind (pull_all s) (\<lambda>rows. obind (resolve_output_schema L ts p) (\<lambda>sch.
       obind (sort_rows L sch obs rows) (\<lambda>rs. Ok (rs, Ok ())))))"
| "plan_rows L ts m (LpLimit p limit offset) = obind (plan_rows L ts m p) (\<lambda>(rows, fin).
     if offset \<le> length rows then Ok (limited limit (drop offset rows, fin)) else obind fin (\<lambda>_. Ok ([], Ok ())))"
| "plan_rows L ts m (LpDedup p) = obind (plan_rows L ts m p) (\<lambda>(rows, fin). Ok (dedup_rows (sl_row_hash L) [] rows, fin))"
| "plan_rows L ts m (LpJoin l r on) = obind (plan_rows L ts m l) (\<lambda>s. obind (pull_all s) (\<lambda>ls.
     obind (plan_rows L ts m r) (\<lambda>t. obind (pull_all t) (\<lambda>rs.
     obind (resolve_schema ts l) (\<lambda>a. obind (resolve_schema ts r) (\<lambda>b.
     Ok (pull_through (joined_row L (combine_schemas a b) on) (List.product ls rs) (Ok ()))))))))"

definition opens_to :: "'f sql_lib \<Rightarrow> 'f table_store \<Rightarrow> 'f executor \<Rightarrow> ('f sql_error, 'f row_stream) outcome \<Rightarrow> bool" where
  "opens_to L ts x s \<longleftrightarrow> (\<exists>x'. exec_open L ts x = Some (obind s (\<lambda>_. Ok ()), x') \<and> (\<forall>t. s = Ok t \<longrightarrow> rest L x' = t))"

lemma opens_toE:
  assumes "opens_to L ts x s"
  obtains x' where "exec_open L ts x = Some (obind s (\<lambda>_. Ok ()), x')" "\<And>t. s = Ok t \<Longrightarrow> rest L x' = t"
  using assms by (auto simp: opens_to_def)

lemma drained_None: "drained None [] = pull_all"
  by (rule ext) (simp add: drained_def)

lemma opens_drain:
  assumes "opens_to L ts x s"
  obtains x' where "drain_opened L bound (exec_open L ts x) = Some (obind s (drained bound []), x')"
proof -
  obtain x' where x': "exec_open L ts x = Some (obind s (\<lambda>_. Ok ()), x')" "\<And>t. s = Ok t \<Longrightarrow> rest L x' = t"
    using opens_toE [OF assms] by blast
  from drain_opened_rest [OF this, of bound] show ?thesis using that by blast
qed

lemma opens_filter: "opens_to L ts x s \<Longrightarrow> opens_to L ts (XFilter x e sch) (obind s (\<lambda>(rows, fin). Ok (pull_through (keep_row L sch e) rows fin)))"
  by (cases s) (auto simp: opens_to_def)

lemma opens_projection: "opens_to L ts x s \<Longrightarrow> opens_to L ts (XProjection x es sch) (obind s (\<lambda>(rows, fin). Ok (pull_through (project_row L sch es) rows fin)))"
  by (cases s) (auto simp: opens_to_def)

lemma opens_dedup: "opens_to L ts x s \<Longrightarrow> opens_to L ts (XDedup x seen) (obind s (\<lambda>(rows, fin). Ok (dedup_rows (sl_row_hash L) [] rows, fin)))"
  by (cases s) (auto simp: opens_to_def)

lemma opens_aggregate:
  assumes "opens_to L ts x s"
  shows "opens_to L ts (XAggregate x es by having sch rs i)
    (obind s (\<lambda>t. obind (pull_all t) (\<lambda>rows. obind (aggregate_rows L sch es by having rows) (\<lambda>rs. Ok (rs, Ok ())))))"
proof -
  obtain x' where x': "drain_opened L None (exec_open L ts x) = Some (obind s pull_all, x')"
    using opens_drain [OF assms, of None] by (auto simp: drained_None)
  show ?thesis
  proof (cases "obind s pull_all")
    case (Ok rows)
    then obtain t where t: "s = Ok t" "pull_all t = Ok rows" by (auto simp: outcome_simps)
    then show ?thesis using x' Ok by (cases "aggregate_rows L sch es by having rows") (simp_all add: opens_to_def)
  qed (use x' in \<open>(cases s; auto simp: opens_to_def)\<close>)+
qed

lemma opens_sort:
  assumes "opens_to L ts x s"
  shows "opens_to L ts (XSort x obs sch rs i m)
    (obind s (\<lambda>t. if m < length (fst t) then Err (sort_overflow m)
       else obind (pull_all t) (\<lambda>rows. obind (sort_rows L sch obs rows) (\<lambda>rs. Ok (rs, Ok ())))))"
proof -
  obtain x' where x': "drain_opened L (Some m) (exec_open L ts x) = Some (obind s (drained (Some m) []), x')"
    using opens_drain [OF assms] by blast
  have d: "drained (Some m) [] t = (if m < length (fst t) then Err (sort_overflow m) else pull_all t)" for t :: "'a row_stream"
    by (simp add: drained_def)
  show ?thesis
  proof (cases "obind s (drained (Some m) [])")
    case (Ok rows)
    then obtain t where t: "s = Ok t" "\<not> m < length (fst t)" "pull_all t = Ok rows" by (auto simp: outcome_simps d split: if_splits)
    then show ?thesis using x' Ok by (cases "sort_rows L sch obs rows") (simp_all add: opens_to_def)
  qed (use x' in \<open>(cases s; auto simp: opens_to_def d split: if_splits)\<close>)+
qed

lemma opens_limit:
  assumes "opens_to L ts x s"
  shows "opens_to L ts (XLimit x limit offset k e) (obind s (\<lambda>(rows, fin).
     if offset \<le> length rows then Ok (limited limit (drop offset rows, fin)) else obind fin (\<lambda>_. Ok ([], Ok ()))))"
proof -
  obtain x' where x': "exec_open L ts x = Some (obind s (\<lambda>_. Ok ()), x')" "\<And>t. s = Ok t \<Longrightarrow> rest L x' = t"
    using opens_toE [OF assms] by blast
  show ?thesis
  proof (cases s)
    case (Ok t)
    obtain rows fin where t: "t = (rows, fin)" by (cases t)
    have "\<exists>y. if offset \<le> length rows then skip_rows L offset 0 x' = Some (Ok offset, y) \<and> rest L y = (drop offset rows, fin)
        else skip_rows L offset 0 x' = Some (obind fin (\<lambda>_. Ok (length rows)), y) \<and> (fin = Ok () \<longrightarrow> rest L y = ([], Ok ()))"
      using skip_rest [of L x' rows fin 0 offset] t x'(2) [OF Ok] by (simp cong: if_cong)
    then obtain y where y: "if offset \<le> length rows then skip_rows L offset 0 x' = Some (Ok offset, y) \<and> rest L y = (drop offset rows, fin)
        else skip_rows L offset 0 x' = Some (obind fin (\<lambda>_. Ok (length rows)), y) \<and> (fin = Ok () \<longrightarrow> rest L y = ([], Ok ()))"
      by blast
    show ?thesis
    proof (cases "offset \<le> length rows")
      case True
      then show ?thesis using y x'(1) Ok t by (simp add: opens_to_def)
    next
      case False
      then show ?thesis using y x'(1) Ok t by (cases fin) (simp_all add: opens_to_def limited_def)
    qed
  qed (use x'(1) in \<open>simp_all add: opens_to_def\<close>)
qed

lemma opens_join:
  assumes "opens_to L ts x s" and "opens_to L ts y t"
  shows "opens_to L ts (XJoin x y on sch ls li rs ri) (obind s (\<lambda>s. obind (pull_all s) (\<lambda>ls. obind t (\<lambda>t. obind (pull_all t) (\<lambda>rs.
     Ok (pull_through (joined_row L sch on) (List.product ls rs) (Ok ())))))))"
proof -
  obtain x' where x': "drain_opened L None (exec_open L ts x) = Some (obind s pull_all, x')"
    using opens_drain [OF assms(1), of None] by (auto simp: drained_None)
  obtain y' where y': "drain_opened L None (exec_open L ts y) = Some (obind t pull_all, y')"
    using opens_drain [OF assms(2), of None] by (auto simp: drained_None)
  have whole: "(case ls of [] \<Rightarrow> [] | a # as \<Rightarrow> map (Pair a) rs @ List.product as rs) = List.product ls rs" for ls rs :: "'a row list"
    by (cases ls) simp_all
  show ?thesis
  proof (cases "obind s pull_all")
    case (Ok ls')
    then obtain s' where s: "s = Ok s'" "pull_all s' = Ok ls'" by (auto simp: outcome_simps)
    show ?thesis
    proof (cases "obind t pull_all")
      case (Ok rs')
      then obtain t' where t: "t = Ok t'" "pull_all t' = Ok rs'" by (auto simp: outcome_simps)
      show ?thesis using x' y' s t by (simp add: opens_to_def whole cong: list.case_cong)
    qed (use x' y' s in \<open>(cases t; auto simp: opens_to_def)\<close>)+
  qed (use x' in \<open>(cases s; auto simp: opens_to_def)\<close>)+
qed

lemma build_opens:
  "build_executor L ts m p = Ok x \<Longrightarrow> opens_to L ts x (plan_rows L ts m p)"
proof (induction p arbitrary: x)
  case (LpScan name other)
  then show ?case by (cases "fst (scan_rows name ts)") (auto simp: outcome_simps opens_to_def)
next
  case (LpProjection p exprs)
  then obtain y sch where y: "build_executor L ts m p = Ok y" "resolve_schema ts p = Ok sch" "x = XProjection y exprs sch"
    by (auto simp: outcome_simps)
  show ?case using opens_projection [OF LpProjection.IH [OF y(1)], of exprs sch] y(2,3) by simp
next
  case (LpSelection p e)
  then obtain y sch where y: "build_executor L ts m p = Ok y" "resolve_schema ts p = Ok sch" "x = XFilter y e sch"
    by (auto simp: outcome_simps)
  show ?case using opens_filter [OF LpSelection.IH [OF y(1)], of e sch] y(2,3) by simp
next
  case (LpSort p obs)
  then obtain y sch where y: "build_executor L ts m p = Ok y" "resolve_output_schema L ts p = Ok sch" "x = XSort y obs sch [] 0 m"
    by (auto simp: outcome_simps)
  show ?case using opens_sort [OF LpSort.IH [OF y(1)], of obs sch "[]" 0 m] y(2,3) by (simp cong: if_cong)
next
  case (LpLimit p limit offset)
  then obtain y where y: "build_executor L ts m p = Ok y" "x = XLimit y limit offset 0 0" by (auto simp: outcome_simps)
  show ?case using opens_limit [OF LpLimit.IH [OF y(1)], of limit offset 0 0] y(2) by simp
next
  case (LpAggregate p exprs by' having)
  then obtain y sch where y: "build_executor L ts m p = Ok y" "resolve_schema ts p = Ok sch" "x = XAggregate y exprs by' having sch [] 0"
    by (auto simp: outcome_simps)
  show ?case using opens_aggregate [OF LpAggregate.IH [OF y(1)], of exprs by' having sch "[]" 0] y(2,3) by simp
next
  case (LpDedup p)
  then obtain y where y: "build_executor L ts m p = Ok y" "x = XDedup y []" by (auto simp: outcome_simps)
  show ?case using opens_dedup [OF LpDedup.IH [OF y(1)], of "[]"] y(2) by simp
next
  case (LpJoin l r on)
  then obtain a b sch sch' where y: "build_executor L ts m l = Ok a" "build_executor L ts m r = Ok b" "resolve_schema ts l = Ok sch"
      "resolve_schema ts r = Ok sch'" "x = XJoin a b on (combine_schemas sch sch') [] 0 [] 0"
    by (auto simp: outcome_simps)
  show ?case
    using opens_join [OF LpJoin.IH(1) [OF y(1)] LpJoin.IH(2) [OF y(2)], of on "combine_schemas sch sch'" "[]" 0 "[]" 0] y(3-5) by simp
qed

lemma run_plan_stream:
  "run_plan L ts m p = Some (obind (build_executor L ts m p) (\<lambda>_. obind (plan_rows L ts m p) pull_all))"
proof (cases "build_executor L ts m p")
  case (Ok x)
  then obtain x' where "drain_opened L None (exec_open L ts x) = Some (obind (plan_rows L ts m p) pull_all, x')"
    using opens_drain [OF build_opens [OF Ok], of None] by (auto simp: drained_None)
  then show ?thesis using Ok by (simp add: run_plan_def)
qed (simp_all add: run_plan_def)


end
