(* ===== verification/Sql_Lexer.thy ===== *)
theory Sql_Lexer
  imports Sql_Types
begin

text \<open>
  The tokenizer of \<open>nova-sql\<close> (\<open>lexer.rs\<close>). A reader takes the characters from the current position
  on and gives a token with the characters after it; a position is the length read so far.
\<close>

section \<open>The code\<close>

definition sql_space :: "char \<Rightarrow> bool" where
  "sql_space c \<longleftrightarrow> (of_char c :: nat) \<in> {9, 10, 11, 12, 13, 32, 133, 160}"

definition is_alpha :: "char \<Rightarrow> bool" where
  "is_alpha c \<longleftrightarrow> 65 \<le> (of_char c :: nat) \<and> (of_char c :: nat) \<le> 90 \<or> 97 \<le> (of_char c :: nat) \<and> (of_char c :: nat) \<le> 122"

definition is_word :: "char \<Rightarrow> bool" where
  "is_word c \<longleftrightarrow> is_alpha c \<or> is_digit_char c \<or> c = CHR ''_''"

definition skip_whitespace :: "string \<Rightarrow> string" where "skip_whitespace = dropWhile sql_space"

definition skip_line_comment :: "string \<Rightarrow> string" where
  "skip_line_comment = dropWhile (\<lambda>c. c \<noteq> CHR 0x0A)"

text \<open>The characters of a string literal after its opening quote; \<open>None\<close> for a literal that does not
  end.\<close>

fun read_string :: "string \<Rightarrow> (string \<times> string) option" where
  "read_string [] = None"
| "read_string (c # cs) =
     (if c = CHR 0x27
      then (case cs of
          d # ds \<Rightarrow> if d = CHR 0x27 then map_option (\<lambda>(s, r). (CHR 0x27 # s, r)) (read_string ds) else Some ([], cs)
        | [] \<Rightarrow> Some ([], []))
      else map_option (\<lambda>(s, r). (c # s, r)) (read_string cs))"

definition span :: "(char \<Rightarrow> bool) \<Rightarrow> string \<Rightarrow> string \<times> string" where
  "span f s = (takeWhile f s, dropWhile f s)"

definition read_fraction :: "string \<Rightarrow> string \<times> string" where
  "read_fraction s =
     (case s of
        c # d # ds \<Rightarrow>
          if c = CHR ''.'' \<and> is_digit_char d then (case span is_digit_char (d # ds) of (a, r) \<Rightarrow> (c # a, r)) else ([], s)
      | _ \<Rightarrow> ([], s))"

definition read_exponent :: "string \<Rightarrow> string \<times> string" where
  "read_exponent s =
     (case s of
        c # cs \<Rightarrow>
          if c = CHR ''e'' \<or> c = CHR ''E''
          then (case cs of
              d # ds \<Rightarrow>
                if d = CHR ''+'' \<or> d = CHR ''-'' then (case span is_digit_char ds of (a, r) \<Rightarrow> (c # d # a, r))
                else (case span is_digit_char cs of (a, r) \<Rightarrow> (c # a, r))
            | [] \<Rightarrow> ([c], []))
          else ([], s)
      | [] \<Rightarrow> ([], s))"

definition read_number :: "string \<Rightarrow> token \<times> string" where
  "read_number s =
     (case span is_digit_char s of (a, r) \<Rightarrow>
      case read_fraction r of (b, r) \<Rightarrow>
      case read_exponent r of (c, r) \<Rightarrow> (TkNumber (a @ b @ c), r))"

definition sql_keywords :: "(string \<times> token) list" where
  "sql_keywords = [(''select'', TkSelect), (''from'', TkFrom), (''where'', TkWhere), (''insert'', TkInsert),
     (''into'', TkInto), (''values'', TkValues), (''update'', TkUpdate), (''set'', TkSet), (''delete'', TkDelete),
     (''create'', TkCreate), (''table'', TkTable), (''drop'', TkDrop), (''and'', TkAnd), (''or'', TkOr),
     (''not'', TkNot), (''null'', TkNull), (''is'', TkIs), (''in'', TkIn), (''between'', TkBetween),
     (''like'', TkLike), (''ilike'', TkILike), (''true'', TkTrue), (''false'', TkFalse), (''as'', TkAs),
     (''on'', TkOn), (''join'', TkJoin), (''group'', TkGroup), (''by'', TkBy), (''having'', TkHaving),
     (''order'', TkOrder), (''asc'', TkAsc), (''desc'', TkDesc), (''limit'', TkLimit), (''offset'', TkOffset),
     (''distinct'', TkDistinct), (''all'', TkAll), (''exists'', TkExists), (''default'', TkDefault),
     (''count'', TkCount), (''sum'', TkSum), (''avg'', TkAvg), (''min'', TkMin), (''max'', TkMax),
     (''case'', TkCase), (''when'', TkWhen), (''then'', TkThen), (''else'', TkElse), (''end'', TkEnd),
     (''cast'', TkCast), (''primary'', TkPrimary), (''key'', TkKey), (''unique'', TkUnique), (''check'', TkCheck),
     (''nulls'', TkNulls), (''first'', TkFirst), (''last'', TkLast)]"

definition word_token :: "string \<Rightarrow> token" where
  "word_token word = (case map_of sql_keywords (lower word) of Some t \<Rightarrow> t | None \<Rightarrow> TkIdentifier word)"

definition read_word :: "string \<Rightarrow> token \<times> string" where
  "read_word s = (case span is_word s of (w, r) \<Rightarrow> (word_token w, r))"

text \<open>An operator of two characters, given the second one, or else of one; \<open>None\<close> is a character that
  starts no token.\<close>

definition one_char_token :: "char \<Rightarrow> token option" where
  "one_char_token c = map_of [(CHR ''+'', TkPlus), (CHR ''-'', TkMinus), (CHR ''*'', TkStar), (CHR ''/'', TkSlash),
     (CHR ''%'', TkPercent), (CHR ''='', TkEq), (CHR ''!'', TkNot), (CHR ''<'', TkLt), (CHR ''>'', TkGt),
     (CHR ''('', TkLParen), (CHR '')'', TkRParen), (CHR '','', TkComma), (CHR '';'', TkSemicolon), (CHR ''.'', TkDot)] c"

definition two_char_token :: "char \<Rightarrow> char \<Rightarrow> token option" where
  "two_char_token c d = map_of [((CHR ''!'', CHR ''=''), TkNotEq), ((CHR ''<'', CHR ''=''), TkLtEq),
     ((CHR ''<'', CHR ''>''), TkNotEq), ((CHR ''>'', CHR ''=''), TkGtEq), ((CHR '':'', CHR '':''), TkColonColon),
     ((CHR ''|'', CHR ''|''), TkConcat)] (c, d)"

definition read_operator :: "string \<Rightarrow> (token \<times> string) option" where
  "read_operator s =
     (case s of
        c # d # r \<Rightarrow> (case two_char_token c d of Some t \<Rightarrow> Some (t, r) | None \<Rightarrow> map_option (\<lambda>t. (t, d # r)) (one_char_token c))
      | [c] \<Rightarrow> map_option (\<lambda>t. (t, [])) (one_char_token c)
      | [] \<Rightarrow> None)"

definition unexpected_character :: "char \<Rightarrow> 'f message" where
  "unexpected_character c =
     [ShText (''unexpected character: '' @ (if c = CHR '':'' then [CHR 0x27, c, CHR 0x27] else [c]))]"

text \<open>One round of the loop, at the first character of a token.\<close>

definition read_token :: "nat \<Rightarrow> string \<Rightarrow> ('f sql_error, token \<times> string) outcome" where
  "read_token len s =
     (let pos = len - length s; c = hd s in
      if c = CHR 0x27
      then (case read_string (tl s) of
          Some (v, r) \<Rightarrow> Ok (TkString v, r)
        | None \<Rightarrow> Err (SqlSyntax [ShText ''unterminated string literal''] pos len))
      else if is_digit_char c then Ok (read_number s)
      else if is_alpha c \<or> c = CHR ''_'' then Ok (read_word s)
      else (case read_operator s of
          Some r \<Rightarrow> Ok r
        | None \<Rightarrow> Err (SqlSyntax (unexpected_character c) pos (pos + 1))))"

lemma read_string_shorter: "read_string s = Some (v, r) \<Longrightarrow> length r < length s"
  by (induction s arbitrary: v r rule: read_string.induct) (fastforce split: if_splits list.splits)+

lemma span_shorter: "span f s = (a, r) \<Longrightarrow> length r \<le> length s"
  by (auto simp: span_def intro: length_dropWhile_le)

lemma read_fraction_shorter: "read_fraction s = (a, r) \<Longrightarrow> length r \<le> length s"
  by (auto simp: read_fraction_def split: list.splits if_splits prod.splits dest!: span_shorter)

lemma read_exponent_shorter: "read_exponent s = (a, r) \<Longrightarrow> length r \<le> length s"
  by (auto simp: read_exponent_def split: list.splits if_splits prod.splits dest!: span_shorter)

lemma read_number_shorter:
  assumes "is_digit_char c" and "read_number (c # s) = (t, r)"
  shows "length r < length (c # s)"
proof -
  have "length (dropWhile is_digit_char (c # s)) < length (c # s)"
    using assms(1) by (simp add: less_Suc_eq_le length_dropWhile_le)
  then show ?thesis
    using assms(2) by (auto simp: read_number_def span_def split: prod.splits dest!: read_fraction_shorter read_exponent_shorter)
qed

lemma read_operator_shorter: "read_operator s = Some (t, r) \<Longrightarrow> length r < length s"
  by (auto simp: read_operator_def split: list.splits option.splits)

lemma read_token_shorter:
  assumes "s \<noteq> []" and "read_token len s = Ok (t, r)"
  shows "length r < length s"
proof -
  obtain c cs where s: "s = c # cs" using assms(1) by (cases s) auto
  have "length (dropWhile is_word cs) \<le> length cs" by (rule length_dropWhile_le)
  then show ?thesis
    using assms(2) s
    by (auto simp: read_token_def Let_def read_word_def span_def is_word_def less_Suc_eq_le
        split: if_splits option.splits dest!: read_string_shorter read_operator_shorter read_number_shorter)
qed

function tokens_from :: "nat \<Rightarrow> string \<Rightarrow> ('f sql_error, (token \<times> nat \<times> nat) list) outcome" where
  "tokens_from len s =
     (let s = skip_whitespace s; start = len - length s in
      case s of
        [] \<Rightarrow> Ok [(TkEof, start, start)]
      | c # cs \<Rightarrow>
          if take 2 s = ''--'' then tokens_from len (skip_line_comment s)
          else obind (read_token len s) (\<lambda>(t, r). obind (tokens_from len r) (\<lambda>ts. Ok ((t, start, len - length r) # ts))))"
  by pat_completeness auto
termination
proof (relation "measure (\<lambda>(len, s). length s)", goal_cases)
  case 1
  show ?case by simp
next
  case (2 len s x start c cs)
  have "c = CHR ''-''" using 2 by (metis list.sel(1) take_eq_Nil zero_neq_numeral hd_take hd_append list.distinct(1) zero_less_numeral)
  then have "length (dropWhile (\<lambda>c. c \<noteq> CHR 0x0A) (c # cs)) < length (c # cs)"
    by (simp add: less_Suc_eq_le length_dropWhile_le)
  also have "\<dots> \<le> length s" using 2 length_dropWhile_le [of sql_space s] by (simp add: skip_whitespace_def)
  finally have "length (skip_line_comment (c # cs)) < length s" by (simp only: skip_line_comment_def)
  then show ?case using 2 by simp
next
  case (3 len s x start c cs tr t r)
  have "length r < length (c # cs)" using 3 by (intro read_token_shorter [of "c # cs" len t r]) auto
  also have "\<dots> \<le> length s" using 3 length_dropWhile_le [of sql_space s] by (simp add: skip_whitespace_def)
  finally show ?case using 3 by auto
qed

definition tokenize :: "string \<Rightarrow> ('f sql_error, (token \<times> nat \<times> nat) list) outcome" where
  "tokenize s = tokens_from (length s) s"

end
