(* ===== verification/Sql_Engine.thy ===== *)
theory Sql_Engine
  imports Sql_Query Sql_Lexer Sql_Parser Storage_Engine
begin

text \<open>
  \<open>SQLEngine\<close> (\<open>engine.rs\<close>) with its results (\<open>result.rs\<close>): statements over the tables, their
  persistence in a storage engine, and loading at start. The storage engine is an argument, as the
  code holds an optional \<open>Arc<dyn StorageEngine>\<close>; the JSON encoding and the \<open>Display\<close> texts of errors
  are the record \<open>sql_codec\<close>. What the observer is told is kept in a log. The time a statement takes
  is left out of its statistics.
\<close>

section \<open>State\<close>

record 'f sql_codec =
  cj_enc_table :: "'f schema \<times> 'f row list \<Rightarrow> bytes"
  cj_dec_table :: "bytes \<Rightarrow> ('f schema \<times> 'f row list) option"
  cj_enc_meta :: "'f schema \<times> nat \<Rightarrow> bytes"
  cj_dec_meta :: "bytes \<Rightarrow> ('f schema \<times> nat) option"
  cj_enc_rows :: "'f row list \<Rightarrow> bytes"
  cj_dec_rows :: "bytes \<Rightarrow> 'f row list option"
  cj_enc_names :: "string list \<Rightarrow> bytes"
  cj_dec_names :: "bytes \<Rightarrow> string list option"
  cj_json_error :: "bytes \<Rightarrow> string"
  cj_runtime_text :: "runtime_error \<Rightarrow> string"
  cj_sql_text :: "'f sql_error \<Rightarrow> string"

text \<open>The codec of the examples, which keep nothing in an engine.\<close>

definition plain_codec :: "'f sql_codec" where
  "plain_codec = \<lparr>cj_enc_table = (\<lambda>_. []), cj_dec_table = (\<lambda>_. None), cj_enc_meta = (\<lambda>_. []), cj_dec_meta = (\<lambda>_. None),
     cj_enc_rows = (\<lambda>_. []), cj_dec_rows = (\<lambda>_. None), cj_enc_names = (\<lambda>_. []), cj_dec_names = (\<lambda>_. None),
     cj_json_error = (\<lambda>_. ''''), cj_runtime_text = (\<lambda>_. ''''), cj_sql_text = (\<lambda>_. '''')\<rparr>"

datatype mutation =
    TableCreated string
  | TableDropped string
  | RowsInserted string nat
  | RowsUpdated string nat
  | RowsDeleted string nat

record ('f, 's) sql_state =
  ss_config :: sql_config
  ss_tables :: "'f table_store"
  ss_store :: 's
  ss_observed :: "mutation list"
  ss_shutdown :: bool

type_synonym ('f, 's, 'a) sql_op = "(('f, 's) sql_state, 'f sql_error, 'a) stm"

type_synonym 's storage = "('s, runtime_error) engine option"

definition sql_engine_new :: "sql_config \<Rightarrow> 's \<Rightarrow> ('f, 's) sql_state" where
  "sql_engine_new config s = \<lparr>ss_config = config, ss_tables = [], ss_store = s, ss_observed = [], ss_shutdown = False\<rparr>"

definition on_tables :: "('f, 'a) table_op \<Rightarrow> ('f, 's, 'a) sql_op" where
  "on_tables m = (\<lambda>st. case m (ss_tables st) of (r, ts) \<Rightarrow> (r, st\<lparr>ss_tables := ts\<rparr>))"

text \<open>\<open>map_err(|e| SQLError::syntax(e.to_string()))\<close>, on a call of the storage and on one of its own.\<close>

definition on_storage :: "'f sql_codec \<Rightarrow> ('s, runtime_error, 'a) stm \<Rightarrow> ('f, 's, 'a) sql_op" where
  "on_storage cj m = (\<lambda>st. case m (ss_store st) of
       (Ok x, s) \<Rightarrow> (Ok x, st\<lparr>ss_store := s\<rparr>)
     | (Err e, s) \<Rightarrow> (Err (sql_syntax [ShText (cj_runtime_text cj e)]), st\<lparr>ss_store := s\<rparr>)
     | (Panic, s) \<Rightarrow> (Panic, st\<lparr>ss_store := s\<rparr>)
     | (Deadlock, s) \<Rightarrow> (Deadlock, st\<lparr>ss_store := s\<rparr>))"

definition as_syntax :: "'f sql_codec \<Rightarrow> ('f, 's, 'a) sql_op \<Rightarrow> ('f, 's, 'a) sql_op" where
  "as_syntax cj m = (\<lambda>st. case m st of (Err e, st') \<Rightarrow> (Err (sql_syntax [ShText (cj_sql_text cj e)]), st') | r \<Rightarrow> r)"

definition tell :: "mutation \<Rightarrow> ('f, 's, unit) sql_op" where
  "tell m = smod (\<lambda>st. st\<lparr>ss_observed := ss_observed st @ [m]\<rparr>)"

definition syntax_err :: "string \<Rightarrow> 'f sql_error" where "syntax_err s = sql_syntax [ShText s]"

fun sfor :: "('a \<Rightarrow> ('s, 'e, unit) stm) \<Rightarrow> 'a list \<Rightarrow> ('s, 'e, unit) stm" where
  "sfor f [] = sret ()"
| "sfor f (x # xs) = sbind (f x) (\<lambda>_. sfor f xs)"

section \<open>Persistence\<close>

definition MAX_PERSIST_VALUE_SIZE :: nat where "MAX_PERSIST_VALUE_SIZE = 60000"

definition table_key :: "string \<Rightarrow> key" where "table_key name = string_bytes (''sql:table:'' @ name)"

definition table_chunk_key :: "string \<Rightarrow> nat \<Rightarrow> key" where
  "table_chunk_key name i = string_bytes (''sql:table:'' @ name @ '':chunk:'' @ nat_string i)"

definition table_names_key :: key where "table_names_key = string_bytes ''sql:table_names''"

definition existing_chunk_count :: "('s, runtime_error) engine \<Rightarrow> 'f sql_codec \<Rightarrow> string \<Rightarrow> ('f, 's, nat) sql_op" where
  "existing_chunk_count E cj name = sbind (try_stm (on_storage cj (eng_get E (table_key name)))) (\<lambda>r.
     sret (case r of Some (Some v) \<Rightarrow> (case cj_dec_meta cj v of Some (_, n) \<Rightarrow> n | None \<Rightarrow> 0) | _ \<Rightarrow> 0))"

text \<open>Rows are added to a chunk until its encoding grows too large; the last one then starts the next.\<close>

definition row_too_large :: "'f sql_error" where "row_too_large = syntax_err ''single row too large to persist''"

fun split_chunks :: "'f sql_codec \<Rightarrow> 'f row list \<Rightarrow> 'f row list list \<Rightarrow> 'f row list \<Rightarrow> ('f sql_error, 'f row list list) outcome" where
  "split_chunks cj cur chunks [] = Ok (if cur \<noteq> [] then chunks @ [cur] else chunks)"
| "split_chunks cj cur chunks (row # rows) =
     (if length (cj_enc_rows cj (cur @ [row])) \<le> MAX_PERSIST_VALUE_SIZE then split_chunks cj (cur @ [row]) chunks rows
      else if cur = [] then Err row_too_large
      else if MAX_PERSIST_VALUE_SIZE < length (cj_enc_rows cj [row]) then Err row_too_large
      else split_chunks cj [row] (chunks @ [cur]) rows)"

definition delete_chunks :: "string \<Rightarrow> nat \<Rightarrow> nat \<Rightarrow> write_operation list" where
  "delete_chunks name lo hi = map (\<lambda>i. WDelete (table_chunk_key name i)) [lo..<hi]"

definition chunk_writes :: "'f sql_codec \<Rightarrow> string \<Rightarrow> 'f row list list \<Rightarrow> write_operation list" where
  "chunk_writes cj name chunks = map (\<lambda>(i, c). WSet (table_chunk_key name i) (cj_enc_rows cj c)) (List.enumerate 0 chunks)"

definition persist_table :: "'s storage \<Rightarrow> 'f sql_codec \<Rightarrow> string \<Rightarrow> ('f, 's, unit) sql_op" where
  "persist_table S cj name = (case S of None \<Rightarrow> sret () | Some E \<Rightarrow>
     sbind (as_syntax cj (on_tables (table_schema name))) (\<lambda>sch.
     sbind (as_syntax cj (on_tables (scan_rows name))) (\<lambda>rows.
     let json = cj_enc_table cj (sch, rows) in
     if length json \<le> MAX_PERSIST_VALUE_SIZE then
       sbind (existing_chunk_count E cj name) (\<lambda>old.
       if old = 0 then on_storage cj (eng_set E (table_key name) json)
       else on_storage cj (eng_batch E (WSet (table_key name) json # delete_chunks name 0 old)))
     else
       sbind (slift (split_chunks cj [] [] rows)) (\<lambda>chunks.
       let meta = cj_enc_meta cj (sch, length chunks) in
       if chunks \<noteq> [] \<and> MAX_PERSIST_VALUE_SIZE < length meta then slift (Err (syntax_err ''schema too large to persist''))
       else sbind (existing_chunk_count E cj name) (\<lambda>old.
         on_storage cj (eng_batch E (WSet (table_key name) meta # chunk_writes cj name chunks @ delete_chunks name (length chunks) old)))))))"

definition persist_table_names :: "'s storage \<Rightarrow> 'f sql_codec \<Rightarrow> ('f, 's, unit) sql_op" where
  "persist_table_names S cj = (case S of None \<Rightarrow> sret () | Some E \<Rightarrow>
     sbind (sget (\<lambda>st. cj_enc_names cj (table_names (ss_tables st)))) (\<lambda>json.
     if MAX_PERSIST_VALUE_SIZE < length json then slift (Err (syntax_err ''too many tables to persist in one value''))
     else on_storage cj (eng_set E table_names_key json)))"

definition persist_create_table :: "'s storage \<Rightarrow> 'f sql_codec \<Rightarrow> string \<Rightarrow> ('f, 's, unit) sql_op" where
  "persist_create_table S cj name = (case S of None \<Rightarrow> sret () | Some _ \<Rightarrow>
     sbind (persist_table S cj name) (\<lambda>_. persist_table_names S cj))"

definition persist_drop_table :: "'s storage \<Rightarrow> 'f sql_codec \<Rightarrow> string \<Rightarrow> ('f, 's, unit) sql_op" where
  "persist_drop_table S cj name = (case S of None \<Rightarrow> sret () | Some E \<Rightarrow>
     sbind (sget (\<lambda>st. cj_enc_names cj (table_names (ss_tables st)))) (\<lambda>json.
     sbind (existing_chunk_count E cj name) (\<lambda>old.
     on_storage cj (eng_batch E (WDelete (table_key name) # delete_chunks name 0 old @ [WSet table_names_key json])))))"

definition persist_all :: "'s storage \<Rightarrow> 'f sql_codec \<Rightarrow> ('f, 's, unit) sql_op" where
  "persist_all S cj = sbind (sget (\<lambda>st. table_names (ss_tables st))) (\<lambda>names.
     sbind (sfor (persist_table S cj) names) (\<lambda>_. persist_table_names S cj))"

definition sql_shutdown :: "'s storage \<Rightarrow> 'f sql_codec \<Rightarrow> ('f, 's, unit) sql_op" where
  "sql_shutdown S cj = sbind (try_stm (persist_all S cj)) (\<lambda>_. smod (\<lambda>st. st\<lparr>ss_shutdown := True\<rparr>))"

section \<open>Loading\<close>

definition cell_int :: "nat \<Rightarrow> 'f row \<Rightarrow> u64 option" where
  "cell_int i row = (if i < length row then (case row ! i of Some (LInteger v) \<Rightarrow> Some v | _ \<Rightarrow> None) else None)"

definition restore_auto_increment :: "'f sql_codec \<Rightarrow> string \<Rightarrow> 'f schema \<Rightarrow> ('f, 's, unit) sql_op" where
  "restore_auto_increment cj name sch = sfor (\<lambda>(i, c).
     if \<not> ci_auto_increment c then sret ()
     else sbind (as_syntax cj (on_tables (scan_rows name))) (\<lambda>rows.
       let top = foldl max 0 (List.map_filter (cell_int i) rows) in
       if 0 < top then as_syntax cj (on_tables (ensure_next_row_id name top)) else sret ())) (List.enumerate 0 sch)"

definition load_rows :: "'f sql_codec \<Rightarrow> string \<Rightarrow> 'f row list \<Rightarrow> ('f, 's, unit) sql_op" where
  "load_rows cj name rows = sfor (\<lambda>row. as_syntax cj (on_tables (insert_row name row))) rows"

definition load_chunk :: "('s, runtime_error) engine \<Rightarrow> 'f sql_codec \<Rightarrow> string \<Rightarrow> nat \<Rightarrow> ('f, 's, unit) sql_op" where
  "load_chunk E cj name i = sbind (on_storage cj (eng_get E (table_chunk_key name i))) (\<lambda>r. case r of
       None \<Rightarrow> sret ()
     | Some v \<Rightarrow> (case cj_dec_rows cj v of
           None \<Rightarrow> slift (Err (syntax_err (cj_json_error cj v)))
         | Some rows \<Rightarrow> load_rows cj name rows))"

definition load_table :: "('s, runtime_error) engine \<Rightarrow> 'f sql_codec \<Rightarrow> string \<Rightarrow> ('f, 's, unit) sql_op" where
  "load_table E cj name = sbind (on_storage cj (eng_get E (table_key name))) (\<lambda>r. case r of
       None \<Rightarrow> sret ()
     | Some v \<Rightarrow> (case cj_dec_table cj v of
           Some (sch, rows) \<Rightarrow>
             sbind (as_syntax cj (on_tables (create_table name sch))) (\<lambda>_.
             sbind (load_rows cj name rows) (\<lambda>_. restore_auto_increment cj name sch))
         | None \<Rightarrow> (case cj_dec_meta cj v of
             Some (sch, n) \<Rightarrow>
               sbind (as_syntax cj (on_tables (create_table name sch))) (\<lambda>_.
               sbind (sfor (load_chunk E cj name) [0..<n]) (\<lambda>_. restore_auto_increment cj name sch))
           | None \<Rightarrow> slift (Err (syntax_err (''corrupt persisted table '' @ name))))))"

definition load_tables :: "'s storage \<Rightarrow> 'f sql_codec \<Rightarrow> ('f, 's, unit) sql_op" where
  "load_tables S cj = (case S of None \<Rightarrow> sret () | Some E \<Rightarrow>
     sbind (on_storage cj (eng_get E table_names_key)) (\<lambda>r. case r of
       None \<Rightarrow> sret ()
     | Some v \<Rightarrow> (case cj_dec_names cj v of
           None \<Rightarrow> slift (Err (syntax_err (cj_json_error cj v)))
         | Some names \<Rightarrow> sfor (load_table E cj) names)))"

text \<open>An error while loading is logged and what was loaded stays.\<close>

definition sql_engine_new_with_storage :: "'s storage \<Rightarrow> 'f sql_codec \<Rightarrow> sql_config \<Rightarrow> 's \<Rightarrow> ('f, 's) sql_state" where
  "sql_engine_new_with_storage S cj config s = snd (try_stm (load_tables S cj) (sql_engine_new config s) :: ('f sql_error, unit option) outcome \<times> _)"

end
