(* ===== verification/Sql_Statements.thy ===== *)
theory Sql_Statements
  imports Sql_Engine
begin

text \<open>
  The statements of \<open>SQLEngine\<close> (\<open>engine.rs\<close>), each under the engine's lock and so one step, and the
  record batches a query returns (\<open>result.rs\<close>).
\<close>

section \<open>Results\<close>

datatype 'f column =
    ColInteger "i64 option list"
  | ColFloat "'f option list"
  | ColBoolean "bool option list"
  | ColString "string option list"
  | ColNull nat

record 'f record_batch =
  rb_columns :: "'f column list"
  rb_num_rows :: nat
  rb_column_names :: "string list"

fun column_len :: "'f column \<Rightarrow> nat" where
  "column_len (ColInteger v) = length v"
| "column_len (ColFloat v) = length v"
| "column_len (ColBoolean v) = length v"
| "column_len (ColString v) = length v"
| "column_len (ColNull n) = n"

definition cell_at :: "'a option list \<Rightarrow> ('a \<Rightarrow> 'f literal) \<Rightarrow> nat \<Rightarrow> 'f literal option" where
  "cell_at v f i = (if i < length v then map_option f (v ! i) else None)"

fun column_get :: "'f column \<Rightarrow> nat \<Rightarrow> 'f literal option" where
  "column_get (ColInteger v) i = cell_at v LInteger i"
| "column_get (ColFloat v) i = cell_at v LFloat i"
| "column_get (ColBoolean v) i = cell_at v LBoolean i"
| "column_get (ColString v) i = cell_at v LString i"
| "column_get (ColNull n) i = Some LNull"

definition batch_get_row :: "'f record_batch \<Rightarrow> nat \<Rightarrow> 'f row option" where
  "batch_get_row b i = (if rb_num_rows b \<le> i then None else Some (map (\<lambda>c. column_get c i) (rb_columns b)))"

definition push_value_to_column :: "'f sql_lib \<Rightarrow> 'f column \<Rightarrow> 'f literal option \<Rightarrow> 'f column" where
  "push_value_to_column L col v = (case col of
       ColInteger xs \<Rightarrow> ColInteger (xs @ [map_option (\<lambda>v. case v of LInteger i \<Rightarrow> i | LFloat f \<Rightarrow> sf_to_int L f | _ \<Rightarrow> 0) v])
     | ColFloat xs \<Rightarrow> ColFloat (xs @ [map_option (\<lambda>v. case v of LFloat f \<Rightarrow> f | LInteger i \<Rightarrow> sf_of_int L i | _ \<Rightarrow> sf_zero L) v])
     | ColBoolean xs \<Rightarrow> ColBoolean (xs @ [map_option (\<lambda>v. case v of LBoolean b \<Rightarrow> b | _ \<Rightarrow> False) v])
     | ColString xs \<Rightarrow> ColString (xs @ [map_option (\<lambda>v. case v of LString s \<Rightarrow> s | w \<Rightarrow> sl_show_literal L w) v])
     | ColNull n \<Rightarrow> ColNull (Suc n))"

definition non_null :: "'f literal option \<Rightarrow> 'f literal option" where
  "non_null c = (if c = Some LNull then None else c)"

text \<open>A column has the type of its first value; a column without one starts with the number of rows.\<close>

definition start_column :: "nat \<Rightarrow> 'f literal option list \<Rightarrow> 'f column" where
  "start_column n cells = (case List.map_filter non_null cells of
       LInteger _ # _ \<Rightarrow> ColInteger []
     | LFloat _ # _ \<Rightarrow> ColFloat []
     | LBoolean _ # _ \<Rightarrow> ColBoolean []
     | LString _ # _ \<Rightarrow> ColString []
     | _ \<Rightarrow> ColNull n)"

definition build_column :: "'f sql_lib \<Rightarrow> nat \<Rightarrow> 'f literal option list \<Rightarrow> 'f column" where
  "build_column L n cells = foldl (push_value_to_column L) (start_column n cells) (map non_null cells)"

definition cells_of :: "'f row list \<Rightarrow> nat \<Rightarrow> 'f literal option list" where
  "cells_of rows i = map (\<lambda>r. r ! i) (filter (\<lambda>r. i < length r) rows)"

definition rows_to_record_batch_with_names :: "'f sql_lib \<Rightarrow> 'f row list \<Rightarrow> string list option \<Rightarrow> ('f sql_error, 'f record_batch) outcome" where
  "rows_to_record_batch_with_names L rows names = (case rows of
       [] \<Rightarrow> Ok \<lparr>rb_columns = [], rb_num_rows = 0, rb_column_names = (case names of Some n \<Rightarrow> n | None \<Rightarrow> [])\<rparr>
     | first # _ \<Rightarrow>
         if list_ex (\<lambda>r. length first < length r) rows then Panic
         else Ok \<lparr>rb_columns = map (\<lambda>i. build_column L (length rows) (cells_of rows i)) [0..<length first],
           rb_num_rows = length rows,
           rb_column_names = (case names of
              Some n \<Rightarrow> if length n = length first then n else map column_label [0..<length first]
            | None \<Rightarrow> map column_label [0..<length first])\<rparr>)"

datatype 'f sql_result =
    SqlQuery "'f record_batch list" nat nat
  | SqlExec nat

section \<open>Tables\<close>

definition new_column :: "nat \<times> 'f column_def \<Rightarrow> 'f column_info" where
  "new_column = (\<lambda>(i, c). \<lparr>ci_name = cd_name c, ci_sql_type = cd_sql_type c, ci_nullable = cd_nullable c,
     ci_default = cd_default c, ci_ordinal = i, ci_unique = (cd_unique c \<or> cd_is_primary_key c),
     ci_is_primary_key = cd_is_primary_key c, ci_auto_increment = cd_auto_increment c\<rparr>)"

definition execute_create_table :: "'s storage \<Rightarrow> 'f sql_codec \<Rightarrow> 'f create_table_statement \<Rightarrow> ('f, 's, 'f sql_result) sql_op" where
  "execute_create_table S cj stm =
     (let name = tr_name (ct_table stm) in
      sbind (on_tables (create_table name (map new_column (List.enumerate 0 (ct_columns stm))))) (\<lambda>_.
      sbind (as_syntax cj (persist_create_table S cj name)) (\<lambda>_.
      sbind (tell (TableCreated name)) (\<lambda>_. sret (SqlExec 0)))))"

definition execute_drop_table :: "'s storage \<Rightarrow> 'f sql_codec \<Rightarrow> drop_table_statement \<Rightarrow> ('f, 's, 'f sql_result) sql_op" where
  "execute_drop_table S cj stm =
     (let name = tr_name (dt_table stm) in
      sbind (on_tables (drop_table name)) (\<lambda>_.
      sbind (as_syntax cj (persist_drop_table S cj name)) (\<lambda>_.
      sbind (tell (TableDropped name)) (\<lambda>_. sret (SqlExec 0)))))"

section \<open>INSERT\<close>

definition column_index :: "'f schema \<Rightarrow> string \<Rightarrow> ('f sql_error, nat) outcome" where
  "column_index sch c = (case find_index sch c of Some i \<Rightarrow> Ok i | None \<Rightarrow> Err (SqlColumnNotFound c))"

definition insert_columns :: "'f schema \<Rightarrow> string list \<Rightarrow> ('f sql_error, nat list) outcome" where
  "insert_columns sch cols = (if cols = [] then Ok [0..<length sch] else traverse (column_index sch) cols)"

definition unknown_column :: "'f schema \<Rightarrow> 'f expr \<Rightarrow> string option" where
  "unknown_column sch e = (case e of EColumn c \<Rightarrow> if find_column sch c = None then Some c else None | _ \<Rightarrow> None)"

definition insert_value :: "'f sql_lib \<Rightarrow> 'f schema \<Rightarrow> nat list \<Rightarrow> 'f row \<Rightarrow> nat \<times> 'f expr \<Rightarrow> ('f sql_error, 'f row) outcome" where
  "insert_value L sch cols row = (\<lambda>(j, e).
     obind (nth_or_panic cols j) (\<lambda>i.
     obind (nth_or_panic sch i) (\<lambda>col.
     case unknown_column sch e of
       Some c \<Rightarrow> Err (SqlColumnNotFound c)
     | None \<Rightarrow>
         obind (evaluate_expr L sch (replicate (length sch) None) e) (\<lambda>v.
         obind (coerce_value L v (ci_sql_type col)) (\<lambda>w. Ok (row[i := Some w]))))))"

definition insert_values :: "'f sql_lib \<Rightarrow> 'f schema \<Rightarrow> nat list \<Rightarrow> 'f expr list \<Rightarrow> ('f sql_error, 'f row) outcome" where
  "insert_values L sch cols es =
     (if length es \<noteq> length cols then
        Err (syntax_err (''expected '' @ nat_string (length cols) @ '' values, got '' @ nat_string (length es)))
      else fold_ok (insert_value L sch cols) (replicate (length sch) None) (List.enumerate 0 es))"

definition apply_defaults :: "'f schema \<Rightarrow> 'f row \<Rightarrow> 'f row" where
  "apply_defaults sch row = map (\<lambda>(c, v). if v = None then ci_default c else v) (zip sch row)"

definition cell_missing :: "'f literal option \<Rightarrow> bool" where
  "cell_missing v \<longleftrightarrow> v = None \<or> v = Some LNull"

text \<open>Every missing value of an \<open>AUTO_INCREMENT\<close> column is the counter plus one: the counter moves only
  when the row is stored.\<close>

definition fill_auto :: "'f schema \<Rightarrow> u64 \<Rightarrow> 'f row \<Rightarrow> 'f row" where
  "fill_auto sch counter row =
     map (\<lambda>(c, v). if ci_auto_increment c \<and> cell_missing v then Some (LInteger (counter + 1)) else v) (zip sch row)"

definition null_violation :: "'f schema \<Rightarrow> 'f row \<Rightarrow> 'f column_info option" where
  "null_violation sch row = map_option fst (List.find (\<lambda>(c, v). \<not> ci_nullable c \<and> cell_missing v) (zip sch row))"

definition is_unique :: "'f column_info \<Rightarrow> bool" where
  "is_unique c \<longleftrightarrow> ci_unique c \<or> ci_is_primary_key c"

definition same_cell :: "'f sql_lib \<Rightarrow> nat \<Rightarrow> 'f literal \<Rightarrow> 'f row \<Rightarrow> bool" where
  "same_cell L i v row \<longleftrightarrow> i < length row \<and> (case row ! i of Some w \<Rightarrow> literal_eq L w v | None \<Rightarrow> False)"

definition unique_violation :: "'f sql_lib \<Rightarrow> 'f schema \<Rightarrow> 'f row list \<Rightarrow> 'f row \<Rightarrow> 'f column_info option" where
  "unique_violation L sch rows row = map_option (\<lambda>(i, c, v). c) (List.find
     (\<lambda>(i, c, v). is_unique c \<and> (case v of Some w \<Rightarrow> list_ex (same_cell L i w) rows | None \<Rightarrow> False))
     (List.enumerate 0 (zip sch row)))"

definition violated :: "string \<Rightarrow> string \<Rightarrow> string \<Rightarrow> 'f sql_error" where
  "violated before name after_name = SqlConstraintViolation [ShText (before @ CHR 0x27 # name @ CHR 0x27 # after_name)]"

text \<open>The row a list of values stands for, with the constraints checked against the rows there are.\<close>

definition row_to_insert :: "'f sql_lib \<Rightarrow> 'f schema \<Rightarrow> nat list \<Rightarrow> u64 \<Rightarrow> 'f row list \<Rightarrow> 'f expr list \<Rightarrow> ('f sql_error, 'f row) outcome" where
  "row_to_insert L sch cols counter rows es =
     obind (insert_values L sch cols es) (\<lambda>given.
     let row = fill_auto sch counter (apply_defaults sch given) in
     case null_violation sch row of
       Some c \<Rightarrow> Err (violated ''column '' (ci_name c) '' cannot be null'')
     | None \<Rightarrow> (case unique_violation L sch rows row of
         Some c \<Rightarrow> Err (violated ''duplicate value for unique column '' (ci_name c) '''')
       | None \<Rightarrow> Ok row))"

text \<open>An explicit value above the counter raises it.\<close>

definition track_explicit :: "string \<Rightarrow> 'f schema \<Rightarrow> 'f row \<Rightarrow> ('f, unit) table_op" where
  "track_explicit name sch row = sfor (\<lambda>(i, c).
     case (if ci_auto_increment c then cell_int i row else None) of
       Some v \<Rightarrow> sbind (current_row_id name) (\<lambda>cur. if cur < v then ensure_next_row_id name v else sret ())
     | None \<Rightarrow> sret ()) (List.enumerate 0 sch)"

definition insert_one :: "'f sql_lib \<Rightarrow> string \<Rightarrow> 'f schema \<Rightarrow> nat list \<Rightarrow> 'f expr list \<Rightarrow> ('f, unit) table_op" where
  "insert_one L name sch cols es =
     sbind (current_row_id name) (\<lambda>counter.
     sbind (scan_rows name) (\<lambda>rows.
     sbind (slift (row_to_insert L sch cols counter rows es)) (\<lambda>row.
     sbind (insert_row name row) (\<lambda>_. track_explicit name sch row))))"

definition execute_insert :: "'f sql_lib \<Rightarrow> 's storage \<Rightarrow> 'f sql_codec \<Rightarrow> 'f insert_statement \<Rightarrow> ('f, 's, 'f sql_result) sql_op" where
  "execute_insert L S cj stm =
     (let name = tr_name (in_table stm); n = length (in_values stm) in
      sbind (on_tables (table_schema name)) (\<lambda>sch.
      sbind (slift (insert_columns sch (in_columns stm))) (\<lambda>cols.
      sbind (on_tables (sfor (insert_one L name sch cols) (in_values stm))) (\<lambda>_.
      sbind (if 0 < n then sbind (persist_table S cj name) (\<lambda>_. tell (RowsInserted name n)) else sret ()) (\<lambda>_.
      sret (SqlExec n))))))"

section \<open>UPDATE and DELETE\<close>

definition update_cell :: "'f sql_lib \<Rightarrow> 'f schema \<Rightarrow> 'f row \<Rightarrow> 'f assignment \<Rightarrow> ('f sql_error, 'f row) outcome" where
  "update_cell L sch row a =
     obind (column_index sch (as_column a)) (\<lambda>i.
     obind (evaluate_expr L sch row (as_value a)) (\<lambda>v.
     obind (nth_or_panic sch i) (\<lambda>col.
     obind (coerce_value L v (ci_sql_type col)) (\<lambda>w.
     if i < length row then Ok (row[i := Some w]) else Panic))))"

text \<open>The assignments of one row in order, each seeing the ones before it; the flag says whether the row
  was selected.\<close>

definition update_one :: "'f sql_lib \<Rightarrow> 'f schema \<Rightarrow> 'f update_statement \<Rightarrow> 'f row \<Rightarrow> ('f sql_error, bool \<times> 'f row) outcome" where
  "update_one L sch stm row =
     obind (case up_where_clause stm of None \<Rightarrow> Ok True
            | Some p \<Rightarrow> obind (evaluate_expr L sch row p) (\<lambda>v. Ok (v = LBoolean True))) (\<lambda>selected.
     if selected then obind (fold_ok (update_cell L sch) row (up_assignments stm)) (\<lambda>r. Ok (True, r)) else Ok (False, row))"

definition count_true :: "(bool \<times> 'a) list \<Rightarrow> nat" where "count_true xs = length (filter fst xs)"

definition execute_update :: "'f sql_lib \<Rightarrow> 's storage \<Rightarrow> 'f sql_codec \<Rightarrow> 'f update_statement \<Rightarrow> ('f, 's, 'f sql_result) sql_op" where
  "execute_update L S cj stm =
     (let name = tr_name (up_table stm) in
      sbind (on_tables (table_schema name)) (\<lambda>sch.
      sbind (on_tables (scan_rows name)) (\<lambda>rows.
      sbind (slift (traverse (update_one L sch stm) rows)) (\<lambda>updated.
      let n = count_true updated in
      sbind (on_tables (replace_rows name (map snd updated))) (\<lambda>_.
      sbind (persist_table S cj name) (\<lambda>_.
      sbind (if 0 < n then tell (RowsUpdated name n) else sret ()) (\<lambda>_. sret (SqlExec n))))))))"

text \<open>A row is deleted where the condition is true; an error in it keeps the row.\<close>

definition delete_selects :: "'f sql_lib \<Rightarrow> 'f schema \<Rightarrow> 'f expr option \<Rightarrow> 'f row \<Rightarrow> ('f sql_error, bool \<times> 'f row) outcome" where
  "delete_selects L sch cond row = (case cond of None \<Rightarrow> Ok (True, row)
     | Some p \<Rightarrow> (case evaluate_expr L sch row p of
         Ok v \<Rightarrow> Ok (v = LBoolean True, row) | Err _ \<Rightarrow> Ok (False, row) | Panic \<Rightarrow> Panic | Deadlock \<Rightarrow> Deadlock))"

definition execute_delete :: "'f sql_lib \<Rightarrow> 's storage \<Rightarrow> 'f sql_codec \<Rightarrow> 'f delete_statement \<Rightarrow> ('f, 's, 'f sql_result) sql_op" where
  "execute_delete L S cj stm =
     (let name = tr_name (de_table stm) in
      sbind (on_tables (table_schema name)) (\<lambda>sch.
      sbind (on_tables (scan_rows name)) (\<lambda>rows.
      sbind (slift (traverse (delete_selects L sch (de_where_clause stm)) rows)) (\<lambda>marked.
      let n = count_true marked in
      sbind (on_tables (replace_rows name (map snd (filter (\<lambda>m. \<not> fst m) marked)))) (\<lambda>_.
      sbind (persist_table S cj name) (\<lambda>_.
      sbind (if 0 < n then tell (RowsDeleted name n) else sret ()) (\<lambda>_. sret (SqlExec n))))))))"

section \<open>SELECT\<close>

definition combined_from_schema :: "table_ref \<Rightarrow> 'f join list \<Rightarrow> ('f, 'f schema) table_op" where
  "combined_from_schema t joins = sbind (table_schema (tr_name t)) (\<lambda>sch. (\<lambda>ts.
     (fold_ok (\<lambda>acc j. obind (schema_of_table ts (tr_name (jn_right j))) (\<lambda>r. Ok (combine_schemas acc r))) sch joins, ts)))"

definition expand_wildcards :: "'f select_item list \<Rightarrow> 'f schema \<Rightarrow> 'f select_item list" where
  "expand_wildcards items sch = concat (map (\<lambda>item. case item of
       SiWildcard \<Rightarrow> map (\<lambda>c. SiExpr (EColumn (ci_name c)) None) sch | _ \<Rightarrow> [item]) items)"

definition item_label :: "'f sql_lib \<Rightarrow> 'f select_item \<Rightarrow> string" where
  "item_label L item = (case item of
       SiExpr e (Some a) \<Rightarrow> a
     | SiExpr e None \<Rightarrow> (case e of EColumn c \<Rightarrow> c | ELiteral v \<Rightarrow> sl_show_literal L v | EFunction n _ \<Rightarrow> n | _ \<Rightarrow> sl_show_expr L e)
     | SiWildcard \<Rightarrow> '''')"

definition missing_table :: "'f table_store \<Rightarrow> 'f select_statement \<Rightarrow> string option" where
  "missing_table ts stm = List.find (\<lambda>n. \<not> table_exists ts n) (tr_name (sl_from stm) # map (tr_name \<circ> jn_right) (sl_joins stm))"

text \<open>A query that would not come back counts as a deadlock here; by \<open>sql_query_refines\<close> there is none.\<close>

definition run_to_end :: "('f sql_error, 'f row list) outcome option \<Rightarrow> ('f sql_error, 'f row list) outcome" where
  "run_to_end r = (case r of Some x \<Rightarrow> x | None \<Rightarrow> Deadlock)"

definition select_rows :: "'f sql_lib \<Rightarrow> sql_config \<Rightarrow> 'f select_statement \<Rightarrow> ('f, 'f select_statement \<times> 'f row list) table_op" where
  "select_rows L config stm = (\<lambda>ts. case missing_table ts stm of
       Some n \<Rightarrow> (Err (SqlTableNotFound n), ts)
     | None \<Rightarrow>
         sbind (combined_from_schema (sl_from stm) (sl_joins stm)) (\<lambda>sch.
         let stm' = stm\<lparr>sl_select_list := expand_wildcards (sl_select_list stm) sch\<rparr> in
         sbind (slift (bind_select stm' sch)) (\<lambda>_.
         sbind (\<lambda>ts. (run_to_end (run_plan L ts (qc_max_batch_size config) (plan_select stm')), ts)) (\<lambda>rows.
         sret (stm', rows)))) ts)"

definition execute_select :: "'f sql_lib \<Rightarrow> 'f select_statement \<Rightarrow> ('f, 's, 'f sql_result) sql_op" where
  "execute_select L stm =
     sbind (sget ss_config) (\<lambda>config.
     sbind (on_tables (select_rows L config stm)) (\<lambda>(stm', rows).
     let labels = map (item_label L) (sl_select_list stm') in
     sbind (slift (rows_to_record_batch_with_names L rows (if labels = [] then None else Some labels))) (\<lambda>batch.
     sret (SqlQuery [batch] (length rows) (rb_num_rows batch)))))"

section \<open>Programs\<close>

definition execute_statement :: "'f sql_lib \<Rightarrow> 's storage \<Rightarrow> 'f sql_codec \<Rightarrow> 'f statement \<Rightarrow> ('f, 's, 'f sql_result) sql_op" where
  "execute_statement L S cj stm = (case stm of
       StSelect q \<Rightarrow> execute_select L q
     | StInsert i \<Rightarrow> execute_insert L S cj i
     | StUpdate u \<Rightarrow> execute_update L S cj u
     | StDelete d \<Rightarrow> execute_delete L S cj d
     | StCreateTable c \<Rightarrow> execute_create_table S cj c
     | StDropTable d \<Rightarrow> execute_drop_table S cj d)"

fun execute_all :: "'f sql_lib \<Rightarrow> 's storage \<Rightarrow> 'f sql_codec \<Rightarrow> 'f sql_result option \<Rightarrow> 'f statement list \<Rightarrow> ('f, 's, 'f sql_result option) sql_op" where
  "execute_all L S cj last_result [] = sret last_result"
| "execute_all L S cj last_result (st # sts) = sbind (execute_statement L S cj st) (\<lambda>r. execute_all L S cj (Some r) sts)"

text \<open>The text of a program, parsed on a call stack of the given depth.\<close>

definition execute_sql :: "'f sql_lib \<Rightarrow> 's storage \<Rightarrow> 'f sql_codec \<Rightarrow> nat \<Rightarrow> string \<Rightarrow> ('f, 's, 'f sql_result) sql_op" where
  "execute_sql L S cj stack sql =
     sbind (slift (tokenize sql)) (\<lambda>tokens.
     sbind (slift (fst (parse_program L stack tokens))) (\<lambda>sts.
     sbind (execute_all L S cj None sts) (\<lambda>r. case r of
       Some x \<Rightarrow> sret x | None \<Rightarrow> slift (Err (syntax_err ''empty statement'')))))"

definition execute_query :: "'f sql_lib \<Rightarrow> 's storage \<Rightarrow> 'f sql_codec \<Rightarrow> nat \<Rightarrow> string \<Rightarrow> ('f, 's, 'f record_batch list) sql_op" where
  "execute_query L S cj stack sql = sbind (execute_sql L S cj stack sql) (\<lambda>r. case r of
       SqlQuery bs _ _ \<Rightarrow> sret bs | SqlExec _ \<Rightarrow> slift (Err (syntax_err ''query did not return results'')))"

end
