(* ===== verification/Sql_Typed.thy ===== *)
theory Sql_Typed
  imports Sql_Statements
begin

text \<open>
  Invariants of the tables under the statements: rows have the width of their schema and values of the
  types of their columns, and the values of a unique column differ as long as no row is updated.
\<close>

section \<open>What a step keeps\<close>

definition keeps :: "('s \<Rightarrow> bool) \<Rightarrow> ('s, 'e, 'a) stm \<Rightarrow> bool" where
  "keeps P m \<longleftrightarrow> (\<forall>s. P s \<longrightarrow> P (snd (m s)))"

named_theorems keeps_intros

lemma keepsD: "keeps P m \<Longrightarrow> P s \<Longrightarrow> P (snd (m s))"
  by (simp add: keeps_def)

lemma keeps_sret [keeps_intros]: "keeps P (sret x)" and keeps_slift [keeps_intros]: "keeps P (slift r)"
  and keeps_sget [keeps_intros]: "keeps P (sget f)"
  by (simp_all add: keeps_def)

lemma keeps_smod: "(\<And>s. P s \<Longrightarrow> P (f s)) \<Longrightarrow> keeps P (smod f)"
  by (simp add: keeps_def)

lemma keeps_sbind_result:
  assumes "keeps P m" and "\<And>s x. P s \<Longrightarrow> fst (m s) = Ok x \<Longrightarrow> keeps P (f x)"
  shows "keeps P (sbind m f)"
  unfolding keeps_def
proof (intro allI impI)
  fix s assume s: "P s"
  obtain r s' where m: "m s = (r, s')" by fastforce
  then have s': "P s'" using keepsD [OF assms(1) s] by simp
  show "P (snd (sbind m f s))"
  proof (cases r)
    case (Ok x)
    then show ?thesis using m s' keepsD [OF assms(2) [OF s]] by simp
  qed (use m s' in simp_all)
qed

lemma sbind_state:
  assumes "P (snd (m s))" and "\<And>x. keeps P (f x)"
  shows "P (snd (sbind m f s))"
proof -
  obtain r s' where m: "m s = (r, s')" by fastforce
  then show ?thesis using assms keepsD [OF assms(2), of s'] by (cases r) simp_all
qed

lemma keeps_sbind [keeps_intros]: "keeps P m \<Longrightarrow> (\<And>x. keeps P (f x)) \<Longrightarrow> keeps P (sbind m f)"
  by (rule keeps_sbind_result)

lemma keeps_sbind_slift: "(\<And>x. r = Ok x \<Longrightarrow> keeps P (f x)) \<Longrightarrow> keeps P (sbind (slift r) f)"
  by (rule keeps_sbind_result) (simp_all add: keeps_slift)

lemma keeps_if [keeps_intros]: "(b \<Longrightarrow> keeps P m) \<Longrightarrow> (\<not> b \<Longrightarrow> keeps P n) \<Longrightarrow> keeps P (if b then m else n)"
  by simp

lemma keeps_option [keeps_intros]:
  "(x = None \<Longrightarrow> keeps P m) \<Longrightarrow> (\<And>y. x = Some y \<Longrightarrow> keeps P (f y)) \<Longrightarrow> keeps P (case x of None \<Rightarrow> m | Some y \<Rightarrow> f y)"
  by (cases x) simp_all

lemma try_stm_state [simp]: "snd (try_stm m s) = snd (m s)"
  by (simp add: try_stm_def split: outcome.split prod.split)

lemma keeps_try [keeps_intros]: "keeps P m \<Longrightarrow> keeps P (try_stm m)"
  by (simp add: keeps_def)

lemma keeps_sfor [keeps_intros]: "(\<And>x. x \<in> set xs \<Longrightarrow> keeps P (f x)) \<Longrightarrow> keeps P (sfor f xs)"
  by (induction xs) (auto intro: keeps_intros)

text \<open>Steps of the engine, for properties of its tables.\<close>

abbreviation of_tables :: "('f table_store \<Rightarrow> bool) \<Rightarrow> ('f, 's) sql_state \<Rightarrow> bool" where
  "of_tables P \<equiv> (\<lambda>st. P (ss_tables st))"

lemma keeps_on_storage [keeps_intros]: "keeps (of_tables P) (on_storage cj m)"
  by (simp add: keeps_def on_storage_def split: outcome.split prod.split)

lemma keeps_as_syntax [keeps_intros]: "keeps P m \<Longrightarrow> keeps P (as_syntax cj m)"
proof -
  have "snd (as_syntax cj m s) = snd (m s)" for s by (simp add: as_syntax_def split: outcome.split prod.split)
  then show "keeps P m \<Longrightarrow> keeps P (as_syntax cj m)" by (simp add: keeps_def)
qed

lemma keeps_on_tables [keeps_intros]: "keeps P m \<Longrightarrow> keeps (of_tables P) (on_tables m)"
  unfolding keeps_def on_tables_def by (simp split: prod.split) (metis snd_conv)

lemma keeps_tell [keeps_intros]: "keeps (of_tables P) (tell m)"
  by (simp add: tell_def keeps_def)

lemma table_named_state [simp]: "snd (table_named name ts) = ts"
  by (simp add: table_named_def split: option.split)

lemma keeps_named [keeps_intros]: "keeps P (table_named name)"
  by (simp add: keeps_def)

lemma keeps_reads [keeps_intros]:
  "keeps P (table_schema name)" "keeps P (scan_rows name)" "keeps P (current_row_id name)"
  by (auto simp: table_schema_def scan_rows_def current_row_id_def intro: keeps_intros)

lemma keeps_chunk_count [keeps_intros]: "keeps (of_tables P) (existing_chunk_count E cj name)"
  unfolding existing_chunk_count_def by (intro keeps_intros)

lemma keeps_persist_table [keeps_intros]: "keeps (of_tables P) (persist_table S cj name)"
  unfolding persist_table_def Let_def by (intro keeps_intros)

lemma keeps_persist_names [keeps_intros]: "keeps (of_tables P) (persist_table_names S cj)"
  unfolding persist_table_names_def Let_def by (intro keeps_intros)

lemma keeps_persist_create [keeps_intros]: "keeps (of_tables P) (persist_create_table S cj name)"
  unfolding persist_create_table_def by (intro keeps_intros)

lemma keeps_persist_drop [keeps_intros]: "keeps (of_tables P) (persist_drop_table S cj name)"
  unfolding persist_drop_table_def Let_def by (intro keeps_intros)

lemma keeps_read [keeps_intros]: "keeps P (\<lambda>s. (f s, s))"
  by (simp add: keeps_def)

lemma keeps_select_rows [keeps_intros]: "keeps P (select_rows L config stm)"
proof -
  have "keeps P (sbind (combined_from_schema (sl_from stm) (sl_joins stm)) (\<lambda>sch.
         let stm' = stm\<lparr>sl_select_list := expand_wildcards (sl_select_list stm) sch\<rparr> in
         sbind (slift (bind_select stm' sch)) (\<lambda>_.
         sbind (\<lambda>ts. (run_to_end (run_plan L ts (qc_max_batch_size config) (plan_select stm')), ts)) (\<lambda>rows.
         sret (stm', rows)))))"
    unfolding combined_from_schema_def Let_def by (intro keeps_intros)
  then show ?thesis unfolding keeps_def select_rows_def by (simp split: option.split)
qed

lemma keeps_select: "keeps (of_tables P) (execute_select L stm)"
  unfolding execute_select_def Let_def by (intro keeps_intros) (auto intro: keeps_intros split: prod.split)

section \<open>Typed rows\<close>

definition typed_cell :: "sql_type \<Rightarrow> 'f literal option \<Rightarrow> bool" where
  "typed_cell t v \<longleftrightarrow> (case v of None \<Rightarrow> True | Some w \<Rightarrow> w = LNull \<or> literal_type w = t)"

definition typed_row :: "'f schema \<Rightarrow> 'f row \<Rightarrow> bool" where
  "typed_row sch row \<longleftrightarrow> list_all2 (\<lambda>c v. typed_cell (ci_sql_type c) v) sch row"

text \<open>Defaults are stored as they are written, and generated ids are integers, so a schema has to agree.\<close>

definition typed_column :: "'f column_info \<Rightarrow> bool" where
  "typed_column c \<longleftrightarrow> typed_cell (ci_sql_type c) (ci_default c) \<and> (ci_auto_increment c \<longrightarrow> ci_sql_type c = TyInteger)"

definition typed_table :: "'f table_data \<Rightarrow> bool" where
  "typed_table d \<longleftrightarrow> list_all typed_column (td_schema d) \<and> list_all (typed_row (td_schema d)) (td_rows d)"

lemma coerce_value_typed: "coerce_value L v t = Ok w \<Longrightarrow> typed_cell t (Some w)"
  by (auto simp: coerce_value_def typed_cell_def literal_type_def split: if_splits literal.splits sql_type.splits option.splits)

lemma fold_ok_inv:
  "fold_ok f b xs = Ok c \<Longrightarrow> P b \<Longrightarrow> (\<And>b x c. x \<in> set xs \<Longrightarrow> P b \<Longrightarrow> f b x = Ok c \<Longrightarrow> P c) \<Longrightarrow> P c"
  by (induction xs arbitrary: b) (auto simp: outcome_simps)

lemma typed_row_update:
  "typed_row sch row \<Longrightarrow> i < length sch \<Longrightarrow> typed_cell (ci_sql_type (sch ! i)) v \<Longrightarrow> typed_row sch (row[i := v])"
  unfolding typed_row_def by (auto simp: list_all2_conv_all_nth nth_list_update)

lemma typed_row_empty: "typed_row sch (replicate (length sch) None)"
  by (simp add: typed_row_def list_all2_conv_all_nth typed_cell_def)

lemma nth_or_panic_Ok [outcome_simps]: "nth_or_panic xs i = Ok x \<longleftrightarrow> i < length xs \<and> x = xs ! i"
  by (auto simp: nth_or_panic_def)

lemma insert_value_typed: "insert_value L sch cols row je = Ok row' \<Longrightarrow> typed_row sch row \<Longrightarrow> typed_row sch row'"
  by (auto simp: insert_value_def outcome_simps split: prod.splits option.splits intro!: typed_row_update dest: coerce_value_typed)

lemma insert_values_typed: "insert_values L sch cols es = Ok row \<Longrightarrow> typed_row sch row"
  by (auto simp: insert_values_def split: if_splits intro: insert_value_typed typed_row_empty elim: fold_ok_inv)

lemma apply_defaults_typed: "typed_row sch row \<Longrightarrow> list_all typed_column sch \<Longrightarrow> typed_row sch (apply_defaults sch row)"
  unfolding typed_row_def apply_defaults_def by (auto simp: list_all2_conv_all_nth list_all_length typed_column_def)

lemma fill_auto_typed: "typed_row sch row \<Longrightarrow> list_all typed_column sch \<Longrightarrow> typed_row sch (fill_auto sch counter row)"
  unfolding typed_row_def fill_auto_def
  by (auto simp: list_all2_conv_all_nth list_all_length typed_column_def typed_cell_def literal_type_def)

lemma row_to_insert_typed:
  "row_to_insert L sch cols counter rows es = Ok row \<Longrightarrow> list_all typed_column sch \<Longrightarrow> typed_row sch row"
proof -
  assume "row_to_insert L sch cols counter rows es = Ok row" and cols: "list_all typed_column sch"
  then obtain given where "insert_values L sch cols es = Ok given" "row = fill_auto sch counter (apply_defaults sch given)"
    by (auto simp: row_to_insert_def Let_def outcome_simps split: option.splits)
  then show ?thesis using cols by (simp add: fill_auto_typed apply_defaults_typed insert_values_typed)
qed

section \<open>Invariants of tables\<close>

text \<open>
  A property of a table that does not depend on its counter, survives the rows that \<open>INSERT\<close> accepts
  and the loss of rows. What the statements other than \<open>UPDATE\<close> do to the tables follows from it.
\<close>

definition all_tables :: "('f table_data \<Rightarrow> bool) \<Rightarrow> 'f table_store \<Rightarrow> bool" where
  "all_tables T ts \<longleftrightarrow> (\<forall>name d. map_of ts name = Some d \<longrightarrow> T d)"

definition has_schema :: "string \<Rightarrow> 'f schema \<Rightarrow> 'f table_store \<Rightarrow> bool" where
  "has_schema name sch ts \<longleftrightarrow> (\<forall>d. map_of ts name = Some d \<longrightarrow> td_schema d = sch)"

lemma all_tables_set:
  "all_tables T ts \<Longrightarrow> (\<And>d. map_of ts name = Some d \<Longrightarrow> T d \<Longrightarrow> T (f d)) \<Longrightarrow> all_tables T (set_table name f ts)"
  by (auto simp: all_tables_def)

lemma has_schema_set: "has_schema name sch ts \<Longrightarrow> (\<And>d. td_schema (f d) = td_schema d) \<Longrightarrow> has_schema name sch (set_table n f ts)"
  by (auto simp: has_schema_def)

lemma table_reads:
  assumes "map_of ts name = Some d"
  shows "table_schema name ts = (Ok (td_schema d), ts)" and "scan_rows name ts = (Ok (td_rows d), ts)"
    and "current_row_id name ts = (Ok (td_next_row_id d), ts)"
    and "replace_rows name rows ts = (Ok (), set_table name (\<lambda>d. d\<lparr>td_rows := rows\<rparr>) ts)"
  using assms by (simp_all add: table_schema_def scan_rows_def current_row_id_def replace_rows_def)

lemma on_tables_run: "m (ss_tables st) = (r, ts) \<Longrightarrow> on_tables m st = (r, st\<lparr>ss_tables := ts\<rparr>)"
  by (simp add: on_tables_def)

lemma no_table:
  "map_of (ss_tables st) name = None \<Longrightarrow> sbind (on_tables (table_schema name)) f st = (Err (SqlTableNotFound name), st)"
  by (simp add: on_tables_def table_schema_def)

lemma with_table:
  "map_of (ss_tables st) name = Some d \<Longrightarrow> sbind (on_tables (table_schema name)) f st = f (td_schema d) st"
  by (simp add: on_tables_run table_reads)

lemma persisted_tables: "ss_tables (snd (sbind (persist_table S cj name) (\<lambda>_. sbind (if b then tell m else sret ()) (\<lambda>_. sret x)) st)) = ss_tables st"
  by (rule keepsD [where P = "of_tables (\<lambda>ts. ts = ss_tables st)"]) (intro keeps_intros, rule refl)

text \<open>What \<open>UPDATE\<close> and \<open>DELETE\<close> do to the tables.\<close>

lemma update_effect:
  assumes "map_of (ss_tables st) (tr_name (up_table stm)) = Some d"
  shows "ss_tables (snd (execute_update L S cj stm st)) = (case traverse (update_one L (td_schema d) stm) (td_rows d) of
     Ok us \<Rightarrow> set_table (tr_name (up_table stm)) (\<lambda>d. d\<lparr>td_rows := map snd us\<rparr>) (ss_tables st) | _ \<Rightarrow> ss_tables st)"
  using assms
  by (auto simp: execute_update_def Let_def with_table on_tables_run table_reads sbind_slift persisted_tables split: outcome.split)

lemma delete_marks: "traverse (delete_selects L sch cond) rows = Ok marked \<Longrightarrow>
  map snd (filter (\<lambda>m. \<not> fst m) marked) = filter (\<lambda>row. delete_selects L sch cond row \<noteq> Ok (True, row)) rows"
proof (induction rows arbitrary: marked)
  case (Cons row rows)
  then obtain m ms where m: "delete_selects L sch cond row = Ok m" "traverse (delete_selects L sch cond) rows = Ok ms" "marked = m # ms"
    by (auto simp: outcome_simps)
  then have "snd m = row" by (auto simp: delete_selects_def split: option.splits outcome.splits)
  then show ?case using Cons.IH m by (cases m) auto
qed simp

lemma delete_effect:
  assumes "map_of (ss_tables st) (tr_name (de_table stm)) = Some d"
  shows "ss_tables (snd (execute_delete L S cj stm st)) =
    (if \<exists>marked. traverse (delete_selects L (td_schema d) (de_where_clause stm)) (td_rows d) = Ok marked
     then set_table (tr_name (de_table stm)) (\<lambda>d'. d'\<lparr>td_rows := filter (\<lambda>row. delete_selects L (td_schema d) (de_where_clause stm) row \<noteq> Ok (True, row)) (td_rows d)\<rparr>) (ss_tables st)
     else ss_tables st)"
  using assms
  by (auto simp: execute_delete_def Let_def with_table on_tables_run table_reads sbind_slift persisted_tables delete_marks split: outcome.split)

locale table_invariant =
  fixes L :: "'f sql_lib" and T :: "'f table_data \<Rightarrow> bool"
  assumes counter_law: "T (d\<lparr>td_next_row_id := n\<rparr>) \<longleftrightarrow> T d"
    and insert_law: "T d \<Longrightarrow> row_to_insert L (td_schema d) cols counter (td_rows d) es = Ok row \<Longrightarrow> T (d\<lparr>td_rows := td_rows d @ [row]\<rparr>)"
    and filter_law: "T d \<Longrightarrow> T (d\<lparr>td_rows := filter p (td_rows d)\<rparr>)"
begin

lemma keeps_ensure: "keeps (\<lambda>ts. all_tables T ts \<and> has_schema name sch ts) (ensure_next_row_id n low)"
  unfolding ensure_next_row_id_def
  by (intro keeps_intros keeps_smod conjI) (auto intro!: all_tables_set has_schema_set simp: counter_law)

lemma keeps_track: "keeps (\<lambda>ts. all_tables T ts \<and> has_schema name sch ts) (track_explicit name sch row)"
  unfolding track_explicit_def
  by (intro keeps_sfor) (auto intro!: keeps_sbind keeps_reads keeps_if keeps_ensure keeps_sret keeps_option split: prod.split)

lemma keeps_insert_one: "keeps (\<lambda>ts. all_tables T ts \<and> has_schema name sch ts) (insert_one L name sch cols es)"
  unfolding keeps_def
proof (intro allI impI)
  fix ts :: "'f table_store" assume ts: "all_tables T ts \<and> has_schema name sch ts"
  let ?kept = "\<lambda>ts. all_tables T ts \<and> has_schema name sch ts"
  show "?kept (snd (insert_one L name sch cols es ts))"
  proof (cases "map_of ts name")
    case None
    then show ?thesis using ts by (simp add: insert_one_def current_row_id_def)
  next
    case (Some d)
    have d: "T d" "td_schema d = sch" using ts Some by (auto simp: all_tables_def has_schema_def)
    have run: "insert_one L name sch cols es ts =
        sbind (slift (row_to_insert L sch cols (td_next_row_id d) (td_rows d) es)) (\<lambda>row. sbind (insert_row name row) (\<lambda>_. track_explicit name sch row)) ts"
      using Some by (simp add: insert_one_def table_reads)
    show ?thesis
    proof (cases "row_to_insert L sch cols (td_next_row_id d) (td_rows d) es")
      case (Ok row)
      have "T (d\<lparr>td_rows := td_rows d @ [row], td_next_row_id := td_next_row_id d + 1\<rparr>)"
        using insert_law [OF d(1), of cols "td_next_row_id d" es row] d(2) Ok by (simp add: counter_law)
      then have "?kept (snd (insert_row name row ts))"
        using ts Some by (auto simp: insert_row_def intro!: all_tables_set has_schema_set)
      then have "?kept (snd (sbind (insert_row name row) (\<lambda>_. track_explicit name sch row) ts))"
        by (rule sbind_state [where P = ?kept]) (rule keeps_track)
      then show ?thesis using Ok by (simp add: run sbind_slift)
    qed (use ts in \<open>simp_all add: run sbind_slift\<close>)
  qed
qed

lemma keeps_insert: "keeps (of_tables (all_tables T)) (execute_insert L S cj stm)"
  unfolding keeps_def
proof (intro allI impI)
  fix st :: "('f, 'a) sql_state" assume st: "all_tables T (ss_tables st)"
  show "all_tables T (ss_tables (snd (execute_insert L S cj stm st)))"
  proof (cases "map_of (ss_tables st) (tr_name (in_table stm))")
    case None
    then show ?thesis using st by (simp add: execute_insert_def no_table Let_def)
  next
    case (Some d)
    let ?name = "tr_name (in_table stm)" and ?sch = "td_schema d" and ?n = "length (in_values stm)"
    let ?body = "sbind (slift (insert_columns ?sch (in_columns stm))) (\<lambda>cols.
       sbind (on_tables (sfor (insert_one L ?name ?sch cols) (in_values stm))) (\<lambda>_.
       sbind (if 0 < ?n then sbind (persist_table S cj ?name) (\<lambda>_. tell (RowsInserted ?name ?n)) else sret ()) (\<lambda>_. sret (SqlExec ?n :: 'f sql_result))))"
    let ?Q = "\<lambda>ts. all_tables T ts \<and> has_schema ?name ?sch ts"
    have kept: "keeps (of_tables ?Q) ?body"
      by (intro keeps_sbind keeps_slift keeps_on_tables keeps_sfor keeps_insert_one keeps_if keeps_persist_table keeps_tell keeps_sret)
    have "?Q (ss_tables st)" using st Some by (simp add: has_schema_def)
    then have "?Q (ss_tables (snd (?body st)))" by (rule keepsD [OF kept])
    moreover have "execute_insert L S cj stm st = ?body st" unfolding execute_insert_def Let_def by (rule with_table [OF Some])
    ultimately show ?thesis by (simp only:)
  qed
qed

lemma keeps_delete: "keeps (of_tables (all_tables T)) (execute_delete L S cj stm)"
  unfolding keeps_def
proof (intro allI impI)
  fix st :: "('f, 'a) sql_state" assume st: "all_tables T (ss_tables st)"
  show "all_tables T (ss_tables (snd (execute_delete L S cj stm st)))"
  proof (cases "map_of (ss_tables st) (tr_name (de_table stm))")
    case None
    then show ?thesis using st by (simp add: execute_delete_def no_table Let_def)
  next
    case (Some d)
    then show ?thesis using st by (auto simp: delete_effect intro!: all_tables_set filter_law)
  qed
qed

lemma keeps_drop: "keeps (of_tables (all_tables T)) (execute_drop_table S cj stm)"
proof -
  have "keeps (all_tables T) (drop_table name)" for name :: string
    unfolding drop_table_def by (intro keeps_intros keeps_smod) (auto simp: all_tables_def)
  then show ?thesis unfolding execute_drop_table_def Let_def
    by (intro keeps_sbind keeps_on_tables keeps_as_syntax keeps_persist_drop keeps_tell keeps_sret)
qed

lemma keeps_create:
  assumes "T \<lparr>td_schema = map new_column (List.enumerate 0 (ct_columns stm)), td_rows = [], td_next_row_id = 0\<rparr>"
  shows "keeps (of_tables (all_tables T)) (execute_create_table S cj stm)"
proof -
  have "keeps (all_tables T) (create_table (tr_name (ct_table stm)) (map new_column (List.enumerate 0 (ct_columns stm))))"
    using assms by (auto simp: keeps_def create_table_def all_tables_def map_add_def split: option.splits)
  then show ?thesis unfolding execute_create_table_def Let_def
    by (intro keeps_sbind keeps_on_tables keeps_as_syntax keeps_persist_create keeps_tell keeps_sret)
qed

end

text \<open>The statements a step law may exclude, and the law for \<open>UPDATE\<close>.\<close>

locale update_invariant = table_invariant +
  assumes update_law: "T d \<Longrightarrow> traverse (update_one L (td_schema d) stm) (td_rows d) = Ok us \<Longrightarrow> T (d\<lparr>td_rows := map snd us\<rparr>)"
begin

lemma keeps_update: "keeps (of_tables (all_tables T)) (execute_update L S cj stm)"
  unfolding keeps_def
proof (intro allI impI)
  fix st :: "('a, 'b) sql_state" assume st: "all_tables T (ss_tables st)"
  show "all_tables T (ss_tables (snd (execute_update L S cj stm st)))"
  proof (cases "map_of (ss_tables st) (tr_name (up_table stm))")
    case None
    then show ?thesis using st by (simp add: execute_update_def no_table Let_def)
  next
    case (Some d)
    then show ?thesis using st update_law [of d]
      by (auto simp: update_effect all_tables_def split: outcome.split)
  qed
qed

end

section \<open>Typed tables\<close>

lemma update_one_typed:
  assumes "update_one L sch stm row = Ok (b, row')" and "typed_row sch row"
  shows "typed_row sch row'"
proof -
  have "typed_row sch row2" if "update_cell L sch row1 a = Ok row2" "typed_row sch row1" for row1 row2 a
    using that by (auto simp: update_cell_def outcome_simps split: if_splits intro!: typed_row_update dest: coerce_value_typed)
  then show ?thesis using assms by (auto simp: update_one_def outcome_simps split: if_splits elim: fold_ok_inv)
qed

lemma updated_typed:
  "traverse (update_one L sch stm) rows = Ok us \<Longrightarrow> list_all (typed_row sch) rows \<Longrightarrow> list_all (typed_row sch) (map snd us)"
proof (induction rows arbitrary: us)
  case (Cons row rows)
  then obtain b row' us' where "update_one L sch stm row = Ok (b, row')" "traverse (update_one L sch stm) rows = Ok us'" "us = (b, row') # us'"
    by (auto simp: outcome_simps)
  then show ?case using Cons update_one_typed by auto
qed simp

lemma typed_table_inserted:
  "typed_table d \<Longrightarrow> row_to_insert L (td_schema d) cols counter (td_rows d) es = Ok row \<Longrightarrow> typed_table (d\<lparr>td_rows := td_rows d @ [row]\<rparr>)"
  by (simp add: typed_table_def row_to_insert_typed)

lemma typed_table_filtered: "typed_table d \<Longrightarrow> typed_table (d\<lparr>td_rows := filter p (td_rows d)\<rparr>)"
  by (auto simp: typed_table_def list_all_iff)

lemma typed_table_updated:
  "typed_table d \<Longrightarrow> traverse (update_one L (td_schema d) stm) (td_rows d) = Ok us \<Longrightarrow> typed_table (d\<lparr>td_rows := map snd us\<rparr>)"
  by (simp add: typed_table_def updated_typed)

lemma typed_table_counter: "typed_table (d\<lparr>td_next_row_id := n\<rparr>) \<longleftrightarrow> typed_table d"
  by (simp add: typed_table_def)

interpretation typed: update_invariant L typed_table
  by unfold_locales (fact typed_table_counter typed_table_inserted typed_table_filtered typed_table_updated)+

definition typed_definition :: "'f column_def \<Rightarrow> bool" where
  "typed_definition c \<longleftrightarrow> typed_cell (cd_sql_type c) (cd_default c) \<and> (cd_auto_increment c \<longrightarrow> cd_sql_type c = TyInteger)"

fun typed_statement :: "'f statement \<Rightarrow> bool" where
  "typed_statement (StCreateTable stm) = list_all typed_definition (ct_columns stm)"
| "typed_statement _ = True"

lemma typed_created:
  "list_all typed_definition cs \<Longrightarrow> typed_table \<lparr>td_schema = map new_column (List.enumerate 0 cs), td_rows = [], td_next_row_id = n\<rparr>"
  by (auto simp: typed_table_def list_all_iff in_set_enumerate_eq typed_definition_def typed_column_def new_column_def)

lemma typed_statement_keeps: "typed_statement stm \<Longrightarrow> keeps (of_tables (all_tables typed_table)) (execute_statement L S cj stm)"
proof -
  assume typed: "typed_statement stm"
  show ?thesis
  proof (cases stm)
    case (StSelect q)
    then show ?thesis by (simp add: execute_statement_def keeps_select)
  next
    case (StInsert i)
    then show ?thesis by (simp add: execute_statement_def typed.keeps_insert)
  next
    case (StUpdate u)
    then show ?thesis by (simp add: execute_statement_def typed.keeps_update)
  next
    case (StDelete d)
    then show ?thesis by (simp add: execute_statement_def typed.keeps_delete)
  next
    case (StCreateTable c)
    then show ?thesis using typed by (simp add: execute_statement_def typed.keeps_create typed_created)
  next
    case (StDropTable d)
    then show ?thesis by (simp add: execute_statement_def typed.keeps_drop)
  qed
qed

lemma keeps_execute_all: "(\<And>stm. stm \<in> set sts \<Longrightarrow> keeps P (execute_statement L S cj stm)) \<Longrightarrow> keeps P (execute_all L S cj r sts)"
  by (induction sts arbitrary: r) (auto intro!: keeps_sbind keeps_sret)

text \<open>C38: Stored values have the types of their columns. Whatever statements are run, with or without
  errors, every row keeps the width of its schema and every value in it is \<open>NULL\<close> or of the column's
  type, when the tables are created with defaults of their columns' types and \<open>AUTO_INCREMENT\<close> on
  integers only; the engine checks neither.\<close>

theorem sql_rows_well_typed:
  assumes "all_tables typed_table (ss_tables st)" and "list_all typed_statement sts"
  shows "all_tables typed_table (ss_tables (snd (execute_all L S cj None sts st)))"
proof -
  have "keeps (of_tables (all_tables typed_table)) (execute_all L S cj None sts)"
    using assms(2) by (intro keeps_execute_all typed_statement_keeps) (simp add: list_all_iff)
  from keepsD [OF this, of st] show ?thesis using assms(1) by simp
qed

definition sample_create :: "nat statement" where
  "sample_create = StCreateTable \<lparr>ct_table = \<lparr>tr_name = ''t'', tr_alias = None\<rparr>, ct_columns =
     [\<lparr>cd_name = ''id'', cd_sql_type = TyInteger, cd_nullable = False, cd_default = None, cd_unique = False,
       cd_is_primary_key = True, cd_auto_increment = True, cd_check_expr = None\<rparr>,
      \<lparr>cd_name = ''note'', cd_sql_type = TyText, cd_nullable = True, cd_default = Some (LString ''x''), cd_unique = False,
       cd_is_primary_key = False, cd_auto_increment = False, cd_check_expr = None\<rparr>]\<rparr>"

definition sample_insert :: "nat expr list list \<Rightarrow> nat statement" where
  "sample_insert vs = StInsert \<lparr>in_table = \<lparr>tr_name = ''t'', tr_alias = None\<rparr>, in_columns = [''note''], in_values = vs\<rparr>"

theorem sql_rows_well_typed_witness:
  "all_tables typed_table (ss_tables (snd (execute_all nat_lib None plain_codec None
     [sample_create, sample_insert [[ELiteral (LInteger 7)]]] (sql_engine_new sql_config_default ()))))"
  by (rule sql_rows_well_typed)
    (simp_all add: all_tables_def sql_engine_new_def sample_create_def sample_insert_def typed_definition_def typed_cell_def literal_type_def)

end
