(* ===== verification/Sql_Properties.thy ===== *)
theory Sql_Properties
  imports Sql_Typed
begin

text \<open>
  What the SQL engine promises: evaluation that comes back, unique columns, the meaning of a query
  without errors; and where it falls short of them.
\<close>

section \<open>Panics\<close>

fun subexprs :: "'f expr \<Rightarrow> 'f expr list" where
  "subexprs (EColumn c) = [EColumn c]"
| "subexprs (ELiteral v) = [ELiteral v]"
| "subexprs (EBinary l op r) = EBinary l op r # subexprs l @ subexprs r"
| "subexprs (EUnary op e) = EUnary op e # subexprs e"
| "subexprs (EFunction n args) = EFunction n args # concat (map subexprs args)"
| "subexprs (EIsNull e) = EIsNull e # subexprs e"
| "subexprs (EIsNotNull e) = EIsNotNull e # subexprs e"
| "subexprs (EIn e es) = EIn e es # subexprs e @ concat (map subexprs es)"
| "subexprs (EBetween e lo hi) = EBetween e lo hi # subexprs e @ subexprs lo @ subexprs hi"
| "subexprs (ELike e p) = ELike e p # subexprs e @ subexprs p"
| "subexprs (EILike e p) = EILike e p # subexprs e @ subexprs p"
| "subexprs (ECase whens els) = ECase whens els # concat (map (\<lambda>(c, r). subexprs c @ subexprs r) whens) @
     (case els of Some e \<Rightarrow> subexprs e | None \<Rightarrow> [])"
| "subexprs (ECast e t) = ECast e t # subexprs e"

definition overflowing_division :: "'f sql_lib \<Rightarrow> 'f schema \<Rightarrow> 'f row \<Rightarrow> 'f expr \<Rightarrow> bool" where
  "overflowing_division L sch row e \<longleftrightarrow> (case e of
       EBinary l op r \<Rightarrow> (op = BDivide \<or> op = BModulo) \<and> evaluate_expr L sch row l = Ok (LInteger I64_MIN) \<and>
         evaluate_expr L sch row r = Ok (LInteger (- 1))
     | _ \<Rightarrow> False)"

lemma returns_coerce_value: "returns (coerce_value L v t)"
  by (simp add: coerce_value_def split: literal.split sql_type.split option.split)

lemma returns_coerce_pair: "returns (coerce_pair L l r)" and returns_coerce_numeric: "returns (coerce_numeric_pair L l r)"
  by (simp_all add: coerce_pair_def coerce_numeric_pair_def split: literal.split)

lemma returns_coerce_bool: "returns (coerce_to_bool v)"
  by (simp add: coerce_to_bool_def split: literal.split)

lemma returns_arith: "returns (eval_arith L f g l r)"
  unfolding eval_arith_def by (intro returns_obind returns_coerce_numeric) (simp split: literal.split prod.split)

lemma returns_compare: "returns (eval_compare L op l r)"
  unfolding eval_compare_def by (auto intro!: returns_obind returns_coerce_pair split: option.split prod.split)

lemma returns_divide: "returns (eval_divide L l r) \<or> (l = LInteger I64_MIN \<and> r = LInteger (- 1))"
  by (auto simp: eval_divide_def coerce_numeric_pair_def i64_quot_def split: literal.split)

lemma returns_modulo: "returns (eval_modulo L l r) \<or> (l = LInteger I64_MIN \<and> r = LInteger (- 1))"
  by (auto simp: eval_modulo_def coerce_numeric_pair_def i64_rem_def split: literal.split)

lemma returns_binary_op:
  "returns (eval_binary_op L op l r) \<or> ((op = BDivide \<or> op = BModulo) \<and> l = LInteger I64_MIN \<and> r = LInteger (- 1))"
  using returns_divide [of L l r] returns_modulo [of L l r]
  by (cases op) (auto simp: eval_binary_op_def returns_arith returns_compare returns_coerce_bool intro!: returns_obind)

lemma returns_unary_op: "returns (eval_unary_op L op v)"
  by (simp add: eval_unary_op_def split: unop.split literal.split)

lemma returns_best_of: "op \<noteq> BDivide \<Longrightarrow> op \<noteq> BModulo \<Longrightarrow> returns (best_of L op vs)"
  using returns_binary_op [of L op]
  by (auto simp: best_of_def take_better_def intro!: returns_fold_ok returns_obind split: list.split)

lemma returns_function: "returns (eval_function L name args)"
  by (simp add: eval_function_def Let_def returns_best_of)

lemma returns_like: "returns (eval_like L v p b)"
  by (simp add: eval_like_def split: literal.split option.split)

lemma find_index_bound: "find_index sch n = Some i \<Longrightarrow> i < length sch"
  by (induction sch arbitrary: i) (auto split: if_splits)

lemma returns_pick_case:
  "(\<And>c r. (c, r) \<in> set ws \<Longrightarrow> returns (f c)) \<Longrightarrow> (\<And>c r. (c, r) \<in> set ws \<Longrightarrow> returns (g r)) \<Longrightarrow> returns d \<Longrightarrow> returns (pick_case f g ws d)"
proof (induction ws)
  case (Cons w ws)
  obtain c r where w: "w = (c, r)" by (cases w)
  have "returns (f c)" "returns (g r)" using Cons.prems(1) [of c r] Cons.prems(2) [of c r] w by simp_all
  moreover have "returns (pick_case f g ws d)"
  proof (rule Cons.IH)
    show "returns (f c)" if "(c, r) \<in> set ws" for c r using Cons.prems(1) [of c r] that by simp
    show "returns (g r)" if "(c, r) \<in> set ws" for c r using Cons.prems(2) [of c r] that by simp
  qed (fact Cons.prems(3))
  ultimately show ?case using w by (auto intro!: returns_obind)
qed simp

lemma evaluate_returns:
  assumes "length sch \<le> length row"
  shows "list_all (\<lambda>d. \<not> overflowing_division L sch row d) (subexprs e) \<Longrightarrow> returns (evaluate_expr L sch row e)"
proof (induction e rule: subexprs.induct)
  case (1 c)
  then show ?case using assms find_index_bound [of sch c] by (auto simp: nth_or_panic_def split: option.split)
next
  case (2 v)
  then show ?case by simp
next
  case (3 l op r)
  then have lr: "returns (evaluate_expr L sch row l)" "returns (evaluate_expr L sch row r)" by (simp_all add: list_all_append)
  have "\<not> overflowing_division L sch row (EBinary l op r)" using "3.prems" by simp
  then show ?case using lr returns_binary_op [of L op] by (fastforce simp: overflowing_division_def intro!: returns_obind)
next
  case (4 op e)
  then show ?case by (auto intro!: returns_obind returns_unary_op)
next
  case (5 n args)
  then have "returns (evaluate_expr L sch row a)" if "a \<in> set args" for a using that by (auto simp: list_all_iff)
  then show ?case by (auto intro!: returns_obind returns_traverse returns_function)
next
  case (6 e)
  then show ?case by (auto intro!: returns_obind)
next
  case (7 e)
  then show ?case by (auto intro!: returns_obind)
next
  case (8 e es)
  then have "returns (evaluate_expr L sch row a)" if "a = e \<or> a \<in> set es" for a using that by (auto simp: list_all_iff)
  then show ?case by (auto intro!: returns_obind returns_find_ok)
next
  case (9 e lo hi)
  then have "returns (evaluate_expr L sch row e)" "returns (evaluate_expr L sch row lo)" "returns (evaluate_expr L sch row hi)"
    by (simp_all add: list_all_append)
  then show ?case using returns_binary_op [of L BGtEq] returns_binary_op [of L BLtEq] by (auto intro!: returns_obind)
next
  case (10 e p)
  then show ?case by (auto simp: list_all_append intro!: returns_obind returns_like)
next
  case (11 e p)
  then show ?case by (auto simp: list_all_append intro!: returns_obind returns_like)
next
  case (12 whens els)
  have c: "returns (evaluate_expr L sch row c)" "returns (evaluate_expr L sch row r)" if "(c, r) \<in> set whens" for c r
    using that "12.IH"(1) [OF that refl] "12.IH"(2) [OF that refl] "12.prems" by (fastforce simp: list_all_iff)+
  have e: "returns (evaluate_expr L sch row e)" if "els = Some e" for e
    using "12.IH"(3) [OF that] "12.prems" that by (auto simp: list_all_append)
  show ?case using c e by (auto intro!: returns_pick_case returns_obind split: option.split)
next
  case (13 e t)
  then show ?case by (auto intro!: returns_obind returns_coerce_value)
qed

text \<open>C40: One thing makes the evaluation of an expression panic. On a row as wide as its schema every
  expression evaluates to a value or an error, unless somewhere in it the smallest integer is divided
  by minus one; and such a quotient or remainder does panic, in release builds too, instead of failing
  like a division by zero.\<close>

theorem sql_eval_panics:
  "(length sch \<le> length row \<longrightarrow> returns (evaluate_expr L sch row e) \<or> list_ex (overflowing_division L sch row) (subexprs e)) \<and>
   (overflowing_division L sch row d \<longrightarrow> evaluate_expr L sch row d = Panic)"
proof (intro conjI impI)
  assume "length sch \<le> length row"
  then show "returns (evaluate_expr L sch row e) \<or> list_ex (overflowing_division L sch row) (subexprs e)"
    using evaluate_returns [of sch row L e] by (auto simp: list_all_iff list_ex_iff)
next
  assume "overflowing_division L sch row d"
  then show "evaluate_expr L sch row d = Panic"
    by (auto simp: overflowing_division_def eval_binary_op_def eval_divide_def eval_modulo_def coerce_numeric_pair_def i64_quot_def
        i64_rem_def split: expr.splits)
qed

theorem sql_eval_panics_witness:
  "evaluate_expr nat_lib [] [] (EBinary (ELiteral (LInteger I64_MIN)) BDivide (ELiteral (LInteger (- 1)))) = Panic"
  using sql_eval_panics [of "[]" "[]" nat_lib "ELiteral LNull"
      "EBinary (ELiteral (LInteger I64_MIN)) BDivide (ELiteral (LInteger (- 1)))"]
  by (simp add: overflowing_division_def)

section \<open>Unique columns\<close>

text \<open>Two rows clash in a column where the later one has a value and the earlier one an equal value.\<close>

definition clash :: "'f sql_lib \<Rightarrow> nat \<Rightarrow> 'f row \<Rightarrow> 'f row \<Rightarrow> bool" where
  "clash L i r r' \<longleftrightarrow> i < length r' \<and> (case r' ! i of Some v \<Rightarrow> same_cell L i v r | None \<Rightarrow> False)"

definition unique_table :: "'f sql_lib \<Rightarrow> 'f table_data \<Rightarrow> bool" where
  "unique_table L d \<longleftrightarrow> (\<forall>i < length (td_schema d). is_unique (td_schema d ! i) \<longrightarrow> sorted_wrt (\<lambda>r r'. \<not> clash L i r r') (td_rows d))"

lemma row_to_insert_width: "row_to_insert L sch cols counter rows es = Ok row \<Longrightarrow> length row = length sch"
proof -
  assume "row_to_insert L sch cols counter rows es = Ok row"
  then obtain given where "insert_values L sch cols es = Ok given" "row = fill_auto sch counter (apply_defaults sch given)"
    by (auto simp: row_to_insert_def Let_def outcome_simps split: option.splits)
  then show ?thesis using insert_values_typed [of L sch cols es given]
    by (auto simp: typed_row_def fill_auto_def apply_defaults_def dest: list_all2_lengthD)
qed

lemma inserted_no_clash:
  assumes "row_to_insert L sch cols counter rows es = Ok row" and "i < length sch" and "is_unique (sch ! i)" and "r \<in> set rows"
  shows "\<not> clash L i r row"
proof
  assume c: "clash L i r row"
  then obtain v where v: "row ! i = Some v" "same_cell L i v r" by (auto simp: clash_def split: option.splits)
  have "(i, sch ! i, row ! i) \<in> set (List.enumerate 0 (zip sch row))"
    using assms(2) row_to_insert_width [OF assms(1)] by (simp add: in_set_enumerate_eq)
  moreover have "unique_violation L sch rows row = None"
    using assms(1) by (auto simp: row_to_insert_def Let_def outcome_simps split: option.splits)
  ultimately have "\<not> list_ex (same_cell L i v) rows"
    using assms(3) v(1) by (force simp: unique_violation_def find_None_iff)
  then show False using v(2) assms(4) by (auto simp: list_ex_iff)
qed

lemma unique_table_inserted:
  "unique_table L d \<Longrightarrow> row_to_insert L (td_schema d) cols counter (td_rows d) es = Ok row \<Longrightarrow> unique_table L (d\<lparr>td_rows := td_rows d @ [row]\<rparr>)"
  using inserted_no_clash by (fastforce simp: unique_table_def sorted_wrt_append)

lemma unique_table_filtered: "unique_table L d \<Longrightarrow> unique_table L (d\<lparr>td_rows := filter p (td_rows d)\<rparr>)"
  by (simp add: unique_table_def sorted_wrt_filter)

lemma unique_table_counter: "unique_table L (d\<lparr>td_next_row_id := n\<rparr>) \<longleftrightarrow> unique_table L d"
  by (simp add: unique_table_def)

interpretation unique: table_invariant L "unique_table L"
  by unfold_locales (fact unique_table_counter unique_table_inserted unique_table_filtered)+

fun is_update :: "'f statement \<Rightarrow> bool" where
  "is_update (StUpdate u) = True"
| "is_update _ = False"

lemma unique_statement_keeps:
  assumes "\<not> is_update stm"
  shows "keeps (of_tables (all_tables (unique_table L))) (execute_statement L S cj stm)"
proof (cases stm)
  case (StSelect q)
  then show ?thesis by (simp add: execute_statement_def keeps_select)
next
  case (StInsert i)
  then show ?thesis by (simp add: execute_statement_def unique.keeps_insert)
next
  case (StUpdate u)
  then show ?thesis using assms by simp
next
  case (StDelete d)
  then show ?thesis by (simp add: execute_statement_def unique.keeps_delete)
next
  case (StCreateTable c)
  have "unique_table L \<lparr>td_schema = sch, td_rows = [], td_next_row_id = 0\<rparr>" for sch by (simp add: unique_table_def)
  then show ?thesis using StCreateTable by (simp add: execute_statement_def unique.keeps_create)
next
  case (StDropTable d)
  then show ?thesis by (simp add: execute_statement_def unique.keeps_drop)
qed


definition id_column :: "nat column_info" where
  "id_column = \<lparr>ci_name = ''id'', ci_sql_type = TyInteger, ci_nullable = False, ci_default = None, ci_ordinal = 0,
     ci_unique = True, ci_is_primary_key = True, ci_auto_increment = False\<rparr>"

definition two_rows :: "nat table_data" where
  "two_rows = \<lparr>td_schema = [id_column], td_rows = [[Some (LInteger 1)], [Some (LInteger 2)]], td_next_row_id = 2\<rparr>"

definition two_row_state :: "(nat, unit) sql_state" where
  "two_row_state = (sql_engine_new sql_config_default ())\<lparr>ss_tables := [(''t'', two_rows)]\<rparr>"


section \<open>Several rows in one INSERT\<close>

lemma sbind_assoc: "sbind (sbind m f) g = sbind m (\<lambda>x. sbind (f x) g)"
  by (rule ext) (simp add: sbind_def split: outcome.split prod.split)

lemma sbind_sret: "sbind (sret x) f = f x"
  by (rule ext) simp

lemma sfor_append: "sfor f (xs @ ys) = sbind (sfor f xs) (\<lambda>_. sfor f ys)"
  by (induction xs) (simp_all add: sbind_assoc sbind_sret)

text \<open>An \<open>INSERT\<close> of several rows is not atomic. When a row is refused after others were taken, the
  statement fails with that error, but the rows before it stay in the table; nothing is written to the
  storage and no observer is told, so a restart loses rows that queries have shown.\<close>

theorem sql_insert_half_done:
  assumes "map_of (ss_tables st) (tr_name (in_table stm)) = Some d" and "insert_columns (td_schema d) (in_columns stm) = Ok cols"
    and "in_values stm = before @ bad # later"
    and "sfor (insert_one L (tr_name (in_table stm)) (td_schema d) cols) before (ss_tables st) = (Ok (), ts)"
    and "insert_one L (tr_name (in_table stm)) (td_schema d) cols bad ts = (Err e, ts')"
  shows "execute_insert L S cj stm st = (Err e, st\<lparr>ss_tables := ts'\<rparr>)"
proof -
  let ?f = "insert_one L (tr_name (in_table stm)) (td_schema d) cols"
  have "sfor ?f (in_values stm) (ss_tables st) = (Err e, ts')" using assms(3-5) by (simp add: sfor_append)
  then have "on_tables (sfor ?f (in_values stm)) st = (Err e, st\<lparr>ss_tables := ts'\<rparr>)" by (rule on_tables_run)
  then show ?thesis using assms(1,2) by (simp add: execute_insert_def Let_def with_table sbind_slift)
qed

definition insert_ids :: "nat literal list \<Rightarrow> nat insert_statement" where
  "insert_ids vs = \<lparr>in_table = \<lparr>tr_name = ''t'', tr_alias = None\<rparr>, in_columns = [], in_values = map (\<lambda>v. [ELiteral v]) vs\<rparr>"

definition one_id :: "nat table_store" where
  "one_id = [(''t'', \<lparr>td_schema = [id_column], td_rows = [[Some (LInteger 7)]], td_next_row_id = 1\<rparr>)]"

theorem sql_insert_half_done_witness:
  "execute_insert nat_lib None plain_codec (insert_ids [LInteger 7, LNull])
     ((sql_engine_new sql_config_default ())\<lparr>ss_tables := [(''t'', \<lparr>td_schema = [id_column], td_rows = [], td_next_row_id = 0\<rparr>)]\<rparr>) =
   (Err (violated ''column '' ''id'' '' cannot be null''), (sql_engine_new sql_config_default ())\<lparr>ss_tables := one_id\<rparr>)"
proof -
  let ?d = "\<lparr>td_schema = [id_column], td_rows = [], td_next_row_id = 0\<rparr>"
  let ?st = "(sql_engine_new sql_config_default ())\<lparr>ss_tables := [(''t'', ?d)]\<rparr> :: (nat, unit) sql_state"
  note row = row_to_insert_def insert_values_def insert_value_def nth_or_panic_def unknown_column_def coerce_value_def literal_type_def
    id_column_def apply_defaults_def fill_auto_def null_violation_def unique_violation_def cell_missing_def is_unique_def
  have first: "sfor (insert_one nat_lib ''t'' [id_column] [0]) [[ELiteral (LInteger 7)]] [(''t'', ?d)] = (Ok (), one_id)"
    by (simp add: insert_one_def table_reads row one_id_def insert_row_def set_table_def track_explicit_def sbind_slift)
  have second: "insert_one nat_lib ''t'' [id_column] [0] [ELiteral LNull] one_id =
      (Err (violated ''column '' ''id'' '' cannot be null''), one_id)"
    by (simp add: insert_one_def table_reads row one_id_def sbind_slift)
  show ?thesis
    using sql_insert_half_done [of ?st "insert_ids [LInteger 7, LNull]" ?d "[0]" "[[ELiteral (LInteger 7)]]" "[ELiteral LNull]" "[]" nat_lib one_id _ one_id None plain_codec]
      first second by (simp add: insert_ids_def insert_columns_def)
qed

end
