(* ===== verification/Sql_Relational.thy ===== *)
theory Sql_Relational
  imports Sql_Properties
begin

text \<open>
  \<open>SELECT\<close> as an expression of relational algebra: product and \<open>ON\<close>, \<open>WHERE\<close>, projection, \<open>ORDER BY\<close>,
  \<open>DISTINCT\<close> and \<open>LIMIT\<close> on lists of rows, for a query none of whose expressions fails.
\<close>

definition defined_in :: "'f sql_lib \<Rightarrow> 'f schema \<Rightarrow> 'f expr \<Rightarrow> 'f row \<Rightarrow> bool" where
  "defined_in L sch e row \<longleftrightarrow> (case evaluate_expr L sch row e of Ok _ \<Rightarrow> True | _ \<Rightarrow> False)"

definition value_in :: "'f sql_lib \<Rightarrow> 'f schema \<Rightarrow> 'f row \<Rightarrow> 'f expr \<Rightarrow> 'f literal" where
  "value_in L sch row e = (case evaluate_expr L sch row e of Ok v \<Rightarrow> v | _ \<Rightarrow> LNull)"

definition holds_in :: "'f sql_lib \<Rightarrow> 'f schema \<Rightarrow> 'f expr option \<Rightarrow> 'f row \<Rightarrow> bool" where
  "holds_in L sch cond row \<longleftrightarrow> (case cond of None \<Rightarrow> True | Some p \<Rightarrow> value_in L sch row p = LBoolean True)"

definition cond_defined :: "'f sql_lib \<Rightarrow> 'f schema \<Rightarrow> 'f expr option \<Rightarrow> 'f row \<Rightarrow> bool" where
  "cond_defined L sch cond row \<longleftrightarrow> (case cond of None \<Rightarrow> True | Some p \<Rightarrow> defined_in L sch p row)"

definition paired_rows :: "'f row list \<Rightarrow> 'f row list \<Rightarrow> 'f row list" where
  "paired_rows ls rs = map (\<lambda>(a, b). a @ b) (List.product ls rs)"

fun join_rows :: "'f sql_lib \<Rightarrow> 'f table_store \<Rightarrow> 'f schema \<times> 'f row list \<Rightarrow> 'f join list \<Rightarrow> ('f schema \<times> 'f row list) option" where
  "join_rows L ts (sch, rows) [] = Some (sch, rows)"
| "join_rows L ts (sch, rows) (j # js) = (case map_of ts (tr_name (jn_right j)) of
       None \<Rightarrow> None
     | Some d \<Rightarrow> (let sch' = combine_schemas sch (td_schema d); pairs = paired_rows rows (td_rows d) in
         if list_all (cond_defined L sch' (jn_on j)) pairs then join_rows L ts (sch', filter (holds_in L sch' (jn_on j)) pairs) js
         else None))"

definition projected_row :: "'f sql_lib \<Rightarrow> 'f schema \<Rightarrow> 'f select_exprs \<Rightarrow> 'f row \<Rightarrow> 'f row" where
  "projected_row L sch exprs row = map (\<lambda>(e, _). Some (value_in L sch row e)) exprs"

section \<open>Streams without errors\<close>

lemma evaluate_defined: "defined_in L sch e row \<Longrightarrow> evaluate_expr L sch row e = Ok (value_in L sch row e)"
  by (simp add: defined_in_def value_in_def split: outcome.splits)

lemma keep_all:
  "list_all (defined_in L sch p) rows \<Longrightarrow> pull_through (keep_row L sch p) rows (Ok ()) = (filter (holds_in L sch (Some p)) rows, Ok ())"
  by (induction rows) (simp_all add: keep_row_def evaluate_defined holds_in_def)

lemma traverse_defined:
  "list_all (\<lambda>(e, _). defined_in L sch e row) exprs \<Longrightarrow>
   traverse (\<lambda>(e, _). evaluate_expr L sch row e) exprs = Ok (map (\<lambda>(e, _). value_in L sch row e) exprs)"
  by (induction exprs) (auto simp: evaluate_defined)

lemma project_all:
  "list_all (\<lambda>row. list_all (\<lambda>(e, _). defined_in L sch e row) exprs) rows \<Longrightarrow>
   pull_through (project_row L sch exprs) rows (Ok ()) = (map (projected_row L sch exprs) rows, Ok ())"
  by (induction rows) (simp_all add: project_row_def traverse_defined [unfolded split_def] projected_row_def comp_def split_def)

lemma join_all:
  "list_all (\<lambda>(a, b). cond_defined L sch on (a @ b)) pairs \<Longrightarrow>
   pull_through (joined_row L sch on) pairs (Ok ()) = (filter (holds_in L sch on) (map (\<lambda>(a, b). a @ b) pairs), Ok ())"
proof (induction pairs)
  case (Cons p pairs)
  obtain a b where p: "p = (a, b)" by (cases p)
  then have "join_accepts L sch on (a @ b) = Ok (holds_in L sch on (a @ b))"
    using Cons.prems by (cases on) (simp_all add: join_accepts_def cond_defined_def holds_in_def evaluate_defined)
  then show ?case using Cons p by (simp add: joined_row_def)
qed simp

section \<open>Plans that can be built\<close>

lemma resolve_output: "resolve_schema ts p = Ok sch \<Longrightarrow> \<exists>s. resolve_output_schema L ts p = Ok s"
  by (induction p arbitrary: sch) (auto simp: outcome_simps)

lemma build_ok: "resolve_schema ts p = Ok sch \<Longrightarrow> \<exists>x. build_executor L ts m p = Ok x"
proof (induction p arbitrary: sch)
  case (LpSort p obs)
  then obtain x where "build_executor L ts m p = Ok x" by auto
  moreover obtain s where "resolve_output_schema L ts p = Ok s" using resolve_output LpSort.prems by fastforce
  ultimately show ?case by simp
qed (fastforce simp: outcome_simps)+

lemma joins_stream:
  assumes "join_rows L ts (sch, rows) js = Some (sch', rows')" and "resolve_schema ts n = Ok sch"
    and "plan_rows L ts m n = Ok (rows, Ok ())"
  shows "resolve_schema ts (foldl (\<lambda>n j. LpJoin n (scan_plan (jn_right j)) (jn_on j)) n js) = Ok sch' \<and>
    plan_rows L ts m (foldl (\<lambda>n j. LpJoin n (scan_plan (jn_right j)) (jn_on j)) n js) = Ok (rows', Ok ())"
  using assms
proof (induction js arbitrary: sch rows n)
  case (Cons j js)
  then obtain d where d: "map_of ts (tr_name (jn_right j)) = Some d" by (auto split: option.splits)
  let ?sch = "combine_schemas sch (td_schema d)" and ?pairs = "paired_rows rows (td_rows d)"
  let ?n = "LpJoin n (scan_plan (jn_right j)) (jn_on j)"
  have go: "list_all (cond_defined L ?sch (jn_on j)) ?pairs"
      "join_rows L ts (?sch, filter (holds_in L ?sch (jn_on j)) ?pairs) js = Some (sch', rows')"
    using Cons.prems(1) d by (auto simp: Let_def split: if_splits)
  have table: "schema_of_table ts (tr_name (jn_right j)) = Ok (td_schema d)" "fst (scan_rows (tr_name (jn_right j)) ts) = Ok (td_rows d)"
    using d by (simp_all add: schema_of_table_def table_reads)
  have "list_all (\<lambda>(a, b). cond_defined L ?sch (jn_on j) (a @ b)) (List.product rows (td_rows d))"
    using go(1) by (auto simp: paired_rows_def list_all_iff)
  then have "plan_rows L ts m ?n = Ok (filter (holds_in L ?sch (jn_on j)) ?pairs, Ok ())"
    using Cons.prems(2,3) table by (simp add: scan_plan_def pull_all_def join_all paired_rows_def)
  moreover have "resolve_schema ts ?n = Ok ?sch" using Cons.prems(2) table by (simp add: scan_plan_def)
  ultimately show ?case using Cons.IH [OF go(2)] by simp
qed simp


definition id_query :: "nat select_statement" where
  "id_query = \<lparr>sl_distinct = False, sl_select_list = [SiExpr (EColumn ''id'') None], sl_from = \<lparr>tr_name = ''t'', tr_alias = None\<rparr>,
     sl_joins = [], sl_where_clause = Some (EBinary (EColumn ''id'') BEq (ELiteral (LInteger 2))), sl_group_by = [], sl_having = None,
     sl_order_by = [], sl_limit = Some 5, sl_offset = None\<rparr>"


end
