(* ===== verification/Spec2Isabelle.thy ===== *)
theory Spec2Isabelle
  imports Store_Properties BTree_Leaf Key_Router Blob_Store Event_Properties Queue_Properties Exec_Properties Sched_Properties
    Search_Fuzzy Cache_Budget Cache_Ttl Auth_Properties Sql_Roundtrip Sql_Relational
begin

text \<open>
  Verification library of the Nova runtime, a server in Rust that keeps keys and values on disk and
  builds on them queues, scheduled jobs, events, caches, authentication and SQL. Paths below are
  relative to \<open>src/crates\<close>.

  \<^bold>\<open>1. The program and its parts.\<close> The storage engine (\<open>nova-storage\<close>) is the base: a write-ahead log,
  a memtable, sorted tables on disk, a B-tree over cached pages and a transaction manager, put together
  by \<open>Store\<close>, which the other crates use through the trait \<open>StorageEngine\<close>. The queue
  (\<open>nova-queue\<close>), the scheduler (\<open>nova-scheduler\<close>) and the SQL engine (\<open>nova-sql\<close>) keep their data in
  such an engine. The event bus (\<open>nova-event\<close>) delivers events to subscriptions and logs them for
  replay; the cache (\<open>nova-cache\<close>) is invalidated by events. The executor (\<open>nova-executor\<close>)
  runs requests through stages: idempotency, rate limits, authorization by the permissions of a session,
  retries, a circuit breaker. Sessions come from \<open>nova-auth\<close>.

  \<^bold>\<open>2. How the model is made.\<close> A struct is a record and an enum a datatype, with the names of the source.
  A fallible operation returns an \<open>outcome\<close>: \<open>Ok\<close>, \<open>Err\<close> with the error of the crate, or \<open>Panic\<close>;
  an operation that changes state is a function from the state to an outcome and the next
  state (\<open>stm\<close>), so that the state an error leaves behind is part of the model. Integers are words
  of their width and wrap around, as in the release profile; signed ones are compared with
  \<open>\<le>s\<close>. Lengths and offsets of data in memory are \<open>nat\<close>, and so are a few quantities kept in 64 bits
  that the code does not bring near the limit. A byte string is a list of 8-bit words; text is a
  \<open>string\<close> whose characters are bytes, which agrees with the code on ASCII. A \<open>BTreeMap\<close> is a
  sorted association list, a \<open>HashMap\<close> a map, or an association list without duplicate keys where the
  code iterates over it. Operations run one at a time: each holds the locks it needs for as long as it
  runs, and the one lock that a call may take twice is an argument of the operation that takes it.
  Clock readings, random identifiers, tokens and jitter are arguments of the operations that draw them.

  Code of other packages is a parameter: \<open>codec\<close> (compression, hash and checksum), \<open>queue_codec\<close>,
  \<open>sched_codec\<close> and \<open>sql_codec\<close> (JSON and the text of UUIDs), \<open>json_lib\<close>, \<open>channel_lib\<close>, \<open>calendar\<close>,
  \<open>float_ops\<close> and \<open>sql_lib\<close> (floating point, regular expressions, row hash) and \<open>auth_lib\<close> (bcrypt, SHA-256,
  base64, JSON). Properties that rely on such code name what they need as a hypothesis: that
  decompression undoes compression (\<open>codec_ok\<close>), that a UUID printed is parsed back (\<open>uuid_ok\<close>,
  \<open>job_uuid_ok\<close>), that decoding undoes encoding. Each has a witness with concrete functions (\<open>nat_lib\<close> and \<open>plain_codec\<close> for SQL). The
  \<open>LruCache\<close> of the crate \<open>lru\<close> follows its documentation (theory \<open>Lru\<close>).

  \<^bold>\<open>3. Theories and code.\<close>

  \<^item> Foundations. \<open>Nova_Prelude\<close>: outcomes, state passing, byte encodings, slices, the collections
    \<open>outcome_simps\<close>, \<open>le_simps\<close> and \<open>slice_simps\<close>. \<open>Ordered_Map\<close>: \<open>BTreeMap\<close>. \<open>Core_Types\<close>:
    \<open>nova-core\<close> (\<open>types.rs\<close>, \<open>error.rs\<close>). \<open>Storage_Engine\<close>: the trait of \<open>traits.rs\<close> as a contract.

  \<^item> Storage, \<open>nova-storage/src\<close>. \<open>Wal\<close> (\<open>wal.rs\<close>), with \<open>Wal_Log\<close> for what a log directory holds;
    \<open>Lsm\<close> and \<open>Sstable\<close> (\<open>lsm.rs\<close>: memtable and Bloom filter; tables down to their bytes);
    \<open>Lru\<close> and \<open>Page_Cache\<close> (\<open>page_cache.rs\<close>); \<open>BTree\<close> (\<open>btree.rs\<close>) and \<open>BTree_Leaf\<close>; \<open>Txn\<close> (\<open>txn.rs\<close>);
    \<open>Store\<close> (\<open>store.rs\<close>) with \<open>Store_Correct\<close>, \<open>Store_Recovery\<close>, \<open>Store_Durable\<close> and
    \<open>Store_Properties\<close>; \<open>Key_Router\<close> (\<open>router.rs\<close>); \<open>Blob_Store\<close> (\<open>blob.rs\<close>).

  \<^item> Events, \<open>nova-event/src\<close>. \<open>Event_Types\<close> (\<open>lib.rs\<close>, \<open>event.rs\<close>, \<open>subscription.rs\<close>), \<open>Event_Trie\<close>
    (\<open>trie.rs\<close>), \<open>Event_Bus\<close> (\<open>bus.rs\<close>, \<open>store.rs\<close>, \<open>dead_letter.rs\<close>), \<open>Event_Properties\<close>.

  \<^item> Queues, \<open>nova-queue/src\<close>. \<open>Queue_Types\<close> (\<open>types.rs\<close>, \<open>error.rs\<close>), \<open>Queue_Backend\<close> (\<open>backend.rs\<close>,
    \<open>manager.rs\<close>, one pass of \<open>scanner.rs\<close>), \<open>Queue_Correct\<close>, \<open>Queue_Properties\<close>.

  \<^item> Executor, \<open>nova-executor/src\<close>. \<open>Exec_Types\<close> (\<open>types.rs\<close>, \<open>context.rs\<close>), \<open>Circuit_Breaker\<close>,
    \<open>Op_Queue\<close> (\<open>operation_queue.rs\<close>), \<open>Rate_Limiter\<close>, \<open>Exec_Metrics\<close> (\<open>metrics.rs\<close>), \<open>Cancel_Token\<close>
    (\<open>cancellation.rs\<close>), \<open>Pipeline\<close> (\<open>middleware.rs\<close>, \<open>pipeline.rs\<close>), \<open>Exec_Properties\<close>.

  \<^item> Scheduler, \<open>nova-scheduler/src\<close>. \<open>Sched_Types\<close> (\<open>types.rs\<close>: jobs and cron expressions, \<open>error.rs\<close>),
    \<open>Time_Wheel\<close> (\<open>time_wheel.rs\<close>), \<open>Sched_Backend\<close> (\<open>backend.rs\<close>), \<open>Sched_Manager\<close> (\<open>manager.rs\<close>: a
    spawned task ends in a step of its own), \<open>Sched_Correct\<close>, \<open>Sched_Properties\<close>.

  \<^item> Cache, \<open>nova-cache/src\<close>. \<open>Cache_Backend\<close> (\<open>backend/mod.rs\<close>, \<open>backend/hashmap.rs\<close>), \<open>Cache_Budget\<close>,
    \<open>Cache_Ttl\<close> (\<open>backend/ttl.rs\<close>, \<open>manager.rs\<close>).

  \<^item> Authentication, \<open>nova-auth/src\<close>. \<open>Auth_Types\<close> (\<open>types.rs\<close>, \<open>error.rs\<close>), \<open>Rbac\<close> (\<open>rbac.rs\<close>), \<open>Auth_Guard\<close>
    (\<open>brute_force.rs\<close>, \<open>session.rs\<close>, \<open>password_policy.rs\<close>), \<open>Auth_Providers\<close> (\<open>providers.rs\<close>, \<open>mfa.rs\<close>),
    \<open>Auth_Manager\<close> (\<open>manager.rs\<close>, \<open>middleware.rs\<close>), \<open>Auth_Properties\<close>.

  \<^item> SQL, \<open>nova-sql/src\<close>. \<open>Sql_Types\<close> (\<open>ast.rs\<close>, \<open>error.rs\<close>, \<open>schema.rs\<close>, \<open>config.rs\<close>), \<open>Sql_Lexer\<close> (\<open>lexer.rs\<close>),
    \<open>Sql_Parser\<close> (\<open>parser.rs\<close>) with \<open>Sql_Total\<close> and \<open>Sql_Roundtrip\<close>; \<open>Sql_Eval\<close> (\<open>execute/mod.rs\<close>,
    \<open>type_checker.rs\<close>, \<open>binder.rs\<close>), \<open>Sql_Table\<close> (\<open>execute/table_store.rs\<close>), \<open>Sql_Exec\<close> (\<open>plan\<close>,
    \<open>execute/iterators.rs\<close>, \<open>execute/executor.rs\<close>), \<open>Sql_Query\<close>, \<open>Sql_Statements\<close> and \<open>Sql_Engine\<close>
    (\<open>engine.rs\<close>, \<open>result.rs\<close>), \<open>Sql_Typed\<close>, \<open>Sql_Properties\<close>, \<open>Sql_Relational\<close>.

  \<^item> Search: \<open>Search_Fuzzy\<close> (\<open>nova-search/src/fuzzy/levenshtein.rs\<close>).
\<close>

text \<open>
  \<^bold>\<open>4. Interfaces.\<close> Each is a locale, interpreted on the definitions that model the code.

  \<^item> \<open>page_cell\<close> (\<open>Core_Types\<close>): numbers read from and written to a page, at 16, 32 and 64 bits.
  \<^item> \<open>ordered_map\<close> (\<open>Ordered_Map\<close>): what the memtable and the log directory use of \<open>BTreeMap\<close>.
  \<^item> \<open>storage_engine\<close> (\<open>Storage_Engine\<close>): an engine stands for a map, and every operation answers and
    changes it accordingly while its \<open>room\<close> lasts. \<open>Store_Correct\<close> interprets it on the store with the
    relation \<open>store_rep\<close>. \<open>engine_client\<close> (\<open>Queue_Correct\<close>) and \<open>scheduler_client\<close> (\<open>Sched_Correct\<close>)
    extend it; they prove the queue and the scheduler against any engine and are interpreted on the store.
  \<^item> \<open>topic_index\<close> (\<open>Event_Trie\<close>): the trie stands for a multiset of subscriptions.
  \<^item> \<open>cache_contract\<close> (\<open>Cache_Ttl\<close>): a cache never answers with anything but the last write. It holds for the
    LRU cache and for the TTL layer over it.
  \<^item> \<open>table_invariant\<close> and \<open>update_invariant\<close> (\<open>Sql_Typed\<close>): what a statement must respect for an invariant of
    tables to survive every run; interpreted for the types of the columns and for unique columns.

  \<^bold>\<open>5. What is shown.\<close>

  \<^item> Storage: the store refines a map under reads, writes, batches, scans, flush and compaction, and
    opening its log gives the map back, also after a crash in the header of an append. Below it, the
    log and the tables return at byte level what was written, and the Bloom filter has no false negatives. A
    B-tree of one leaf finds what was inserted. Two faults are theorems: a crash inside a payload leaves a log
    that cannot be opened, and a write that fills the memtable waits for its own lock.
  \<^item> Events: the bus holds the subscriptions its history says, and a publication reaches exactly the matching
    ones; a replay may read the same page forever.
  \<^item> Queues and scheduler: a message enqueued is the next one delivered; timers fire at their tick; a
    cron search finds the first minute; the search for due jobs is exact, and so is the refusal of cyclic
    dependencies; a recurring job is not timed again.
  \<^item> Executor: the breaker trips at its threshold, the operation queue conserves operations, buckets
    bound the rate, successful mutations were authorized; the breaker of the pipeline never opens.
  \<^item> Cache and search: no read is stale, and the budget holds for new keys; edit distances are least.
  \<^item> Authentication: evaluations follow the policy, a login opens a session, a token survives signing and
    verification; failed logins never lock an account and a password session cannot mutate.
  \<^item> SQL: parsing ends, and gives back a printed expression; the executors pull exactly the stream of
    their plan; a \<open>SELECT\<close> is an expression of relational algebra; stored values have their types, unique columns
    stay unique but for \<open>UPDATE\<close>, and only an overflowing quotient makes an evaluation panic.

  \<^bold>\<open>6. Bounds and fuel.\<close> Recursion is structural or has a measure, but for these.

  \<^item> The descent of the B-tree takes \<open>fuel\<close>, the depth of the stack and the number of leaves a scan visits. The
    properties hold for every positive fuel (trees of one leaf) or every fuel (the store, whose tree has no root).
  \<^item> \<open>bus_replay\<close> takes the number of pages read; not ending is \<open>None\<close>, shown for every fuel.
  \<^item> The parser takes the depth of the stack; more than the number of tokens is enough, and a run
    of minus signs shows that this is needed. Its loops run at most once per token and once more, shown
    never to be cut short.
  \<^item> The executors are \<open>partial_function (option)\<close>; every plan is shown to come back with \<open>Some\<close>.
  \<^item> The search for dependency cycles takes the number of its steps; enough is shown to exist, whatever the
    stored jobs say of each other.
  \<^item> The cron search is bounded by \<open>365 * 24 * 60\<close> minutes in the code itself.

  \<^bold>\<open>7. Not modelled.\<close> \<open>nova-memory\<close> (raw memory), \<open>nova-security\<close> (cryptographic crates), \<open>nova-object\<close>,
  \<open>nova-blob\<close>, \<open>nova-gql\<close>, \<open>nova-search\<close> but for fuzzy matching (scoring in floating point), \<open>nova-config\<close>,
  \<open>nova-api\<close>, \<open>nova-cli\<close> and \<open>novad\<close> (settings and I/O); the middleware trait of the event bus,
  the percentiles of the metrics, and Display and trace code. Files are byte lists
  without loss below \<open>fsync\<close>, and semaphores, which only delay, are left out.
\<close>

end
